(* ===== verification/OB_Prelude.thy ===== *)
theory OB_Prelude
  imports Main "HOL-Library.Word"
begin

text \<open>
  Shared vocabulary of the OpenBadge firmware development: the SDK return codes, bytes and
  the C integer types, the arithmetic of the unsigned types with its wrap-around written out,
  a combinator for the code's \<open>ret = f(..); if(ret != NRF_SUCCESS) return ..;\<close> idiom, and the
  generic list facts that the component theories rely on.
\<close>

unbundle bit_operations_syntax

section \<open>Return codes\<close>

text \<open>
  The codes of the SDK header \<^verbatim>\<open>sdk_errors.h\<close> the modelled code uses.  Only their identity
  matters to the code, so they are an enumeration.
\<close>

datatype ret_code =
    NRF_SUCCESS
  | NRF_ERROR_INTERNAL
  | NRF_ERROR_NO_MEM
  | NRF_ERROR_NOT_FOUND
  | NRF_ERROR_INVALID_PARAM
  | NRF_ERROR_INVALID_STATE
  | NRF_ERROR_INVALID_DATA
  | NRF_ERROR_INVALID_ADDR
  | NRF_ERROR_NULL
  | NRF_ERROR_FORBIDDEN
  | NRF_ERROR_BUSY
  | NRF_ERROR_DATA_SIZE
  | NRF_ERROR_TIMEOUT

section \<open>C integers\<close>

text \<open>
  A byte of a buffer is an 8-bit word.  Sizes, addresses, positions and counters of the C types
  \<open>uint8_t\<close>, \<open>uint16_t\<close> and \<open>uint32_t\<close> are natural numbers, and the operations that can
  wrap around are written with the reduction modulo the width.
\<close>

type_synonym byte = "8 word"

definition u8 :: "nat \<Rightarrow> nat" where
  "u8 n = n mod 256"

definition u16 :: "nat \<Rightarrow> nat" where
  "u16 n = n mod 65536"

definition u32 :: "nat \<Rightarrow> nat" where
  "u32 n = n mod 4294967296"

definition u32_add :: "nat \<Rightarrow> nat \<Rightarrow> nat" where
  "u32_add a b = u32 (a + b)"

definition u32_sub :: "nat \<Rightarrow> nat \<Rightarrow> nat" where
  "u32_sub a b = u32 (a + (4294967296 - u32 b))"

definition u32_mul :: "nat \<Rightarrow> nat \<Rightarrow> nat" where
  "u32_mul a b = u32 (a * b)"

definition u64_add :: "nat \<Rightarrow> nat \<Rightarrow> nat" where
  "u64_add a b = (a + b) mod 2 ^ 64"

definition u64_sub :: "nat \<Rightarrow> nat \<Rightarrow> nat" where
  "u64_sub a b = (a + (2 ^ 64 - b mod 2 ^ 64)) mod 2 ^ 64"

named_theorems c_arith \<open>Wrap-free instances of the C integer operations\<close>

lemma u8_id [simp, c_arith]: "n < 256 \<Longrightarrow> u8 n = n"
  by (simp add: u8_def)

lemma u16_id [simp, c_arith]: "n < 65536 \<Longrightarrow> u16 n = n"
  by (simp add: u16_def)

lemma u32_id [simp, c_arith]: "n < 4294967296 \<Longrightarrow> u32 n = n"
  by (simp add: u32_def)

lemma u8_less [simp]: "u8 n < 256"
  by (simp add: u8_def)

lemma u16_less [simp]: "u16 n < 65536"
  by (simp add: u16_def)

lemma u32_less [simp]: "u32 n < 4294967296"
  by (simp add: u32_def)

lemma u32_add_id [simp, c_arith]: "a + b < 4294967296 \<Longrightarrow> u32_add a b = a + b"
  by (simp add: u32_add_def)

lemma u32_mul_id [simp, c_arith]: "a * b < 4294967296 \<Longrightarrow> u32_mul a b = a * b"
  by (simp add: u32_mul_def)

lemma u32_sub_id [simp, c_arith]:
  assumes "b \<le> a" and "a < 4294967296"
  shows "u32_sub a b = a - b"
proof -
  from assms have *: "a + (4294967296 - u32 b) = (a - b) + 4294967296"
    by simp
  show ?thesis
    using assms unfolding u32_sub_def * unfolding u32_def mod_add_self2 by simp
qed

lemma u32_sub_less [simp]: "u32_sub a b < 4294967296"
  by (simp add: u32_sub_def)

lemma u32_add_less [simp]: "u32_add a b < 4294967296"
  by (simp add: u32_add_def)

lemma u64_sub_mod:
  assumes "b \<le> a"
  shows "u64_sub a b = (a - b) mod 2 ^ 64"
proof -
  from assms obtain c where a: "a = b + c" using le_Suc_ex by blast
  have "(b + c + (2 ^ 64 - b mod 2 ^ 64)) mod 2 ^ 64 = (b mod 2 ^ 64 + c + (2 ^ 64 - b mod 2 ^ 64)) mod 2 ^ 64"
    by (metis mod_add_left_eq)
  also have "b mod 2 ^ 64 + c + (2 ^ 64 - b mod 2 ^ 64) = c + 2 ^ 64" by (simp add: less_imp_le)
  finally show ?thesis by (simp only: u64_sub_def a mod_add_self2 add_diff_cancel_left')
qed

lemma u64_sub_id [c_arith]: "b \<le> a \<Longrightarrow> a < 2 ^ 64 \<Longrightarrow> u64_sub a b = a - b"
  by (simp add: u64_sub_mod)

lemma u64_add_id [c_arith]: "a + b < 2 ^ 64 \<Longrightarrow> u64_add a b = a + b"
  by (simp add: u64_add_def)

section \<open>Calls that may fail\<close>

text \<open>
  A C function that returns a \<^typ>\<open>ret_code\<close> and fills output arguments is modelled by a
  result of type \<open>ret_code + 'a\<close>: \<open>Inl\<close> an error code, \<open>Inr\<close> the outputs of
  \<open>NRF_SUCCESS\<close>; a function with state returns the new state beside it.
  \<open>attempt f r k\<close> is the idiom \<open>ret = r; if(ret != NRF_SUCCESS) return f(ret);\<close>
  followed by \<open>k\<close>.
\<close>

type_synonym ('a, 's) outcome = "(ret_code + 'a) \<times> 's"

definition attempt ::
  "(ret_code \<Rightarrow> ret_code) \<Rightarrow> ('a, 's) outcome \<Rightarrow> ('a \<Rightarrow> 's \<Rightarrow> ('b, 's) outcome) \<Rightarrow> ('b, 's) outcome" where
  "attempt f r k = (case r of (Inl e, s) \<Rightarrow> (Inl (f e), s) | (Inr x, s) \<Rightarrow> k x s)"

lemma attempt_simps [simp]:
  "attempt f (Inl e, s) k = (Inl (f e), s)"
  "attempt f (Inr x, s) k = k x s"
  by (simp_all add: attempt_def)

lemma attempt_success:
  assumes "attempt f r k = (Inr y, t)"
  obtains x s where "r = (Inr x, s)" and "k x s = (Inr y, t)"
  using assms by (cases r; cases "fst r") (auto simp: attempt_def)

lemma attempt_error:
  assumes "attempt f r k = (Inl e, t)"
  obtains (first) e' where "r = (Inl e', t)" and "e = f e'"
    | (rest) x s where "r = (Inr x, s)" and "k x s = (Inl e, t)"
  using assms by (cases r; cases "fst r") (auto simp: attempt_def)

section \<open>Lists and byte arrays\<close>

text \<open>\<open>overwrite xs a ys\<close> is \<open>memcpy(&xs[a], ys, length ys)\<close> for a range inside \<open>xs\<close>.\<close>

definition overwrite :: "'a list \<Rightarrow> nat \<Rightarrow> 'a list \<Rightarrow> 'a list" where
  "overwrite xs a ys = take a xs @ ys @ drop (a + length ys) xs"

lemma length_overwrite [simp]:
  "a + length ys \<le> length xs \<Longrightarrow> length (overwrite xs a ys) = length xs"
  by (simp add: overwrite_def)

lemma nth_overwrite:
  assumes "a + length ys \<le> length xs" and "i < length xs"
  shows "overwrite xs a ys ! i = (if a \<le> i \<and> i < a + length ys then ys ! (i - a) else xs ! i)"
  using assms by (auto simp: overwrite_def nth_append)

lemma take_overwrite_prefix:
  "a + length ys \<le> length xs \<Longrightarrow> take (a + length ys) (overwrite xs a ys) = take a xs @ ys"
  by (simp add: overwrite_def)

lemma upt_split: "a \<le> b \<Longrightarrow> b \<le> c \<Longrightarrow> [a..<c] = [a..<b] @ [b..<c]"
  using upt_add_eq_append[of a b "c - b"] by simp

text \<open>Positions of a ring of \<open>n\<close> cells.\<close>

lemma ring_distance:
  fixes r w n :: nat
  assumes "r < n" and "w < n"
  shows "(w + n - r) mod n = (if r \<le> w then w - r else w + n - r)"
proof (cases "r \<le> w")
  case True
  then have *: "w + n - r = (w - r) + n" by simp
  show ?thesis unfolding * mod_add_self2 using True assms by simp
qed (use assms in simp)

lemma ring_step:
  fixes r n :: nat
  assumes "r < n"
  shows "(r + 1) mod n = (if r + 1 = n then 0 else r + 1)"
  using assms by auto

lemma ring_index_inj:
  fixes r n :: nat
  assumes "i < n" and "j < n" and "(r + i) mod n = (r + j) mod n"
  shows "i = j"
proof (rule ccontr)
  assume "i \<noteq> j"
  have *: "\<not> (r + a) mod n = (r + b) mod n" if "a < b" "b < n" for a b :: nat
  proof
    assume "(r + a) mod n = (r + b) mod n"
    then have "n dvd (r + b) - (r + a)"
      by (metis mod_eq_dvd_iff_nat nat_add_left_cancel_le less_imp_le_nat that(1))
    then have "n dvd b - a" by simp
    with that show False by (auto dest: dvd_imp_le)
  qed
  from \<open>i \<noteq> j\<close> assms *[of i j] *[of j i] show False
    by (cases "i < j") auto
qed

text \<open>\<open>newest n xs\<close>: the last \<open>n\<close> elements of \<open>xs\<close>.\<close>

definition newest :: "nat \<Rightarrow> 'a list \<Rightarrow> 'a list" where
  "newest n xs = drop (length xs - n) xs"

lemma newest_all [simp]: "length xs \<le> n \<Longrightarrow> newest n xs = xs"
  by (simp add: newest_def)

lemma newest_Cons: "n \<le> length xs \<Longrightarrow> newest n (a # xs) = newest n xs"
  by (simp add: newest_def Suc_diff_le)

lemma newest_snoc:
  assumes "length q \<le> n"
  shows "newest n (q @ b # bs) =
    newest n ((if length q < n then q @ [b] else if n = 0 then [] else tl q @ [b]) @ bs)"
proof (cases "length q < n")
  case False
  show ?thesis
  proof (cases q)
    case Nil
    with assms False show ?thesis by (simp add: newest_def)
  next
    case (Cons a q')
    with assms False have "newest n (a # (q' @ b # bs)) = newest n (q' @ b # bs)"
      by (intro newest_Cons) simp
    with Cons assms False show ?thesis by simp
  qed
qed simp

end
