(* ===== verification/Circular_Fifo.thy ===== *)
theory Circular_Fifo
  imports OB_Prelude "HOL-Library.Sublist"
begin

text \<open>
  The byte FIFO of \<^verbatim>\<open>incl/circular_fifo_lib.c\<close>: a ring of \<open>buf_size + 1\<close> cells that drops
  its oldest byte when it is full, except while a read is in progress (\<open>read_flag\<close>).
  The structure, every function of the file, the queue it represents, and the refinement of
  each function to an operation on that queue; \<open>bounded_queue\<close> is the interface its
  clients use.
\<close>

section \<open>The structure and its operations\<close>

record circular_fifo =
  p_buf :: "byte list"
  buf_size :: nat
  read_pos :: nat
  write_pos :: nat
  read_flag :: bool

definition circular_fifo_init :: "byte list option \<Rightarrow> nat \<Rightarrow> ret_code + circular_fifo" where
  "circular_fifo_init buf sz =
     (case buf of
        None \<Rightarrow> Inl NRF_ERROR_NULL
      | Some b \<Rightarrow> Inr \<lparr>p_buf = b, buf_size = sz, read_pos = 0, write_pos = 0, read_flag = False\<rparr>)"

definition circular_fifo_flush :: "circular_fifo \<Rightarrow> circular_fifo" where
  "circular_fifo_flush f = f\<lparr>read_pos := write_pos f\<rparr>"

definition circular_fifo_get :: "circular_fifo \<Rightarrow> (byte, circular_fifo) outcome" where
  "circular_fifo_get f =
     (if read_pos f \<noteq> write_pos f
      then (Inr (p_buf f ! read_pos f),
            f\<lparr>read_pos := u32_add (read_pos f) 1 mod (buf_size f + 1)\<rparr>)
      else (Inl NRF_ERROR_NOT_FOUND, f))"

definition circular_fifo_put :: "circular_fifo \<Rightarrow> byte \<Rightarrow> circular_fifo" where
  "circular_fifo_put f b =
     (let incremented_write_pos = u32_add (write_pos f) 1 mod (buf_size f + 1) in
      if incremented_write_pos = read_pos f \<and> read_flag f then f
      else
        let f = (if incremented_write_pos = read_pos f
                 then f\<lparr>read_pos := u32_add (read_pos f) 1 mod (buf_size f + 1)\<rparr>
                 else f)
        in f\<lparr>p_buf := (p_buf f)[write_pos f := b], write_pos := incremented_write_pos\<rparr>)"

text \<open>The loop of \<open>circular_fifo_read\<close>: at most \<open>n\<close> more bytes, stopping at an empty FIFO.\<close>

fun circular_fifo_read_loop :: "nat \<Rightarrow> circular_fifo \<Rightarrow> byte list \<times> circular_fifo" where
  "circular_fifo_read_loop 0 f = ([], f)"
| "circular_fifo_read_loop (Suc n) f =
     (case circular_fifo_get f of
        (Inl _, f') \<Rightarrow> ([], f')
      | (Inr b, f') \<Rightarrow> (let (bs, f'') = circular_fifo_read_loop n f' in (b # bs, f'')))"

text \<open>The bytes read and, as their number, the value left in \<open>*p_size\<close>.\<close>

definition circular_fifo_read :: "circular_fifo \<Rightarrow> nat \<Rightarrow> byte list \<times> circular_fifo" where
  "circular_fifo_read f sz =
     (let (bs, f') = circular_fifo_read_loop sz (f\<lparr>read_flag := True\<rparr>)
      in (bs, f'\<lparr>read_flag := False\<rparr>))"

fun circular_fifo_write :: "circular_fifo \<Rightarrow> byte list \<Rightarrow> circular_fifo" where
  "circular_fifo_write f [] = f"
| "circular_fifo_write f (b # bs) = circular_fifo_write (circular_fifo_put f b) bs"

definition circular_fifo_get_size :: "circular_fifo \<Rightarrow> nat" where
  "circular_fifo_get_size f =
     (if write_pos f \<ge> read_pos f then u32_sub (write_pos f) (read_pos f)
      else u32_add (u32_sub (buf_size f + 1) (read_pos f)) (write_pos f))"

section \<open>Well-formedness and the queue represented\<close>

definition cf_wf :: "circular_fifo \<Rightarrow> bool" where
  "cf_wf f \<longleftrightarrow> buf_size f < 65536 \<and> buf_size f < length (p_buf f) \<and>
     read_pos f \<le> buf_size f \<and> write_pos f \<le> buf_size f"

definition cf_used :: "circular_fifo \<Rightarrow> nat" where
  "cf_used f = (write_pos f + (buf_size f + 1) - read_pos f) mod (buf_size f + 1)"

definition cf_queue :: "circular_fifo \<Rightarrow> byte list" where
  "cf_queue f = map (\<lambda>i. p_buf f ! ((read_pos f + i) mod (buf_size f + 1))) [0..<cf_used f]"

lemma cf_wf_pos:
  assumes "cf_wf f"
  shows "read_pos f < length (p_buf f)" and "write_pos f < length (p_buf f)"
    and "u32_add (read_pos f) (Suc 0) = Suc (read_pos f)"
    and "u32_add (write_pos f) (Suc 0) = Suc (write_pos f)"
  using assms by (auto simp: cf_wf_def)

lemma cf_used_eq:
  assumes "cf_wf f"
  shows "cf_used f = (if read_pos f \<le> write_pos f then write_pos f - read_pos f
                      else write_pos f + (buf_size f + 1) - read_pos f)"
  unfolding cf_used_def using assms by (intro ring_distance) (auto simp: cf_wf_def)

lemma length_cf_queue [simp]: "length (cf_queue f) = cf_used f"
  by (simp add: cf_queue_def)

lemma cf_used_le: "cf_wf f \<Longrightarrow> cf_used f \<le> buf_size f"
  by (auto simp: cf_used_eq cf_wf_def)

lemma cf_queue_empty_iff: "cf_wf f \<Longrightarrow> cf_queue f = [] \<longleftrightarrow> read_pos f = write_pos f"
  using length_cf_queue[of f] by (auto simp: cf_used_eq cf_wf_def simp del: length_cf_queue split: if_splits)

lemma circular_fifo_get_size_eq: "cf_wf f \<Longrightarrow> circular_fifo_get_size f = length (cf_queue f)"
  by (auto simp: circular_fifo_get_size_def cf_used_eq cf_wf_def)

lemma cf_write_pos_eq: "cf_wf f \<Longrightarrow> write_pos f = (read_pos f + cf_used f) mod (buf_size f + 1)"
proof -
  assume wf: "cf_wf f"
  have "(write_pos f + (buf_size f + 1)) mod (buf_size f + 1) = write_pos f"
    unfolding mod_add_self2 using wf by (simp add: cf_wf_def)
  with wf show ?thesis
    by (auto simp: cf_used_eq cf_wf_def)
qed

lemma cf_queue_nth:
  "i < cf_used f \<Longrightarrow> cf_queue f ! i = p_buf f ! ((read_pos f + i) mod (buf_size f + 1))"
  by (simp add: cf_queue_def)

text \<open>Advancing the read position drops the first byte of the queue.\<close>

definition cf_advance :: "circular_fifo \<Rightarrow> circular_fifo" where
  "cf_advance f = f\<lparr>read_pos := (read_pos f + 1) mod (buf_size f + 1)\<rparr>"

lemma cf_advance_wf [simp]: "cf_wf f \<Longrightarrow> cf_wf (cf_advance f)"
  by (auto simp: cf_wf_def cf_advance_def less_Suc_eq_le[symmetric])

lemma cf_advance_used:
  assumes "cf_wf f" and "read_pos f \<noteq> write_pos f"
  shows "cf_used (cf_advance f) = cf_used f - 1"
proof -
  have "(read_pos f + 1) mod (buf_size f + 1) = (if read_pos f = buf_size f then 0 else read_pos f + 1)"
    using assms(1) by (auto simp: cf_wf_def)
  with assms show ?thesis
    by (auto simp: cf_used_eq cf_wf_def cf_advance_def simp del: mod_Suc_eq split: if_splits)
qed

lemma cf_advance_queue:
  assumes "cf_wf f" and "read_pos f \<noteq> write_pos f"
  shows "cf_queue (cf_advance f) = tl (cf_queue f)"
proof (rule nth_equalityI)
  show "length (cf_queue (cf_advance f)) = length (tl (cf_queue f))"
    using cf_advance_used[OF assms] by simp
next
  fix i assume i: "i < length (cf_queue (cf_advance f))"
  then have "Suc i < cf_used f" using cf_advance_used[OF assms] by simp
  with i show "cf_queue (cf_advance f) ! i = tl (cf_queue f) ! i"
    by (simp add: cf_queue_nth nth_tl) (simp add: cf_advance_def mod_simps)
qed

text \<open>Writing at the write position appends a byte while a cell is free.\<close>

definition cf_append :: "circular_fifo \<Rightarrow> byte \<Rightarrow> circular_fifo" where
  "cf_append f b = f\<lparr>p_buf := (p_buf f)[write_pos f := b],
     write_pos := (write_pos f + 1) mod (buf_size f + 1)\<rparr>"

lemma cf_append_wf [simp]: "cf_wf f \<Longrightarrow> cf_wf (cf_append f b)"
  by (auto simp: cf_wf_def cf_append_def less_Suc_eq_le[symmetric])

lemma cf_append_used:
  assumes "cf_wf f" and "cf_used f < buf_size f"
  shows "cf_used (cf_append f b) = cf_used f + 1"
proof -
  have "(write_pos f + 1) mod (buf_size f + 1) = (if write_pos f = buf_size f then 0 else write_pos f + 1)"
    using assms(1) by (auto simp: cf_wf_def)
  with assms show ?thesis
    by (auto simp: cf_used_eq cf_wf_def cf_append_def simp del: mod_Suc_eq split: if_splits)
qed

lemma cf_append_queue:
  assumes "cf_wf f" and "cf_used f < buf_size f"
  shows "cf_queue (cf_append f b) = cf_queue f @ [b]"
proof (rule nth_equalityI)
  show "length (cf_queue (cf_append f b)) = length (cf_queue f @ [b])"
    using cf_append_used[OF assms] by simp
next
  fix i assume "i < length (cf_queue (cf_append f b))"
  then have i: "i \<le> cf_used f" "i < cf_used (cf_append f b)"
    using cf_append_used[OF assms] by simp_all
  let ?n = "buf_size f + 1"
  show "cf_queue (cf_append f b) ! i = (cf_queue f @ [b]) ! i"
  proof (cases "i = cf_used f")
    case True
    have "cf_queue (cf_append f b) ! i = (p_buf f)[write_pos f := b] ! write_pos f"
      unfolding cf_queue_nth[OF i(2)] using True cf_write_pos_eq[OF assms(1), symmetric]
      by (simp add: cf_append_def)
    with True cf_wf_pos(2)[OF assms(1)] show ?thesis by (simp add: nth_append)
  next
    case False
    with i have "i < cf_used f" by simp
    have "(read_pos f + i) mod ?n \<noteq> write_pos f"
      using ring_index_inj[of i ?n "cf_used f" "read_pos f"] False i assms(2) cf_write_pos_eq[OF assms(1)]
      by auto
    with \<open>i < cf_used f\<close> show ?thesis
      by (simp add: cf_queue_nth i nth_append) (simp add: cf_append_def)
  qed
qed

section \<open>Each operation on the represented queue\<close>

lemma circular_fifo_get_refines:
  assumes "cf_wf f"
  shows "circular_fifo_get f =
    (case cf_queue f of [] \<Rightarrow> (Inl NRF_ERROR_NOT_FOUND, f) | b # _ \<Rightarrow> (Inr b, cf_advance f))"
proof (cases "read_pos f = write_pos f")
  case True
  with assms show ?thesis
    by (simp add: circular_fifo_get_def cf_queue_empty_iff[THEN iffD2])
next
  case False
  with assms obtain b q where q: "cf_queue f = b # q"
    by (cases "cf_queue f") (auto simp: cf_queue_empty_iff)
  then have "0 < cf_used f" using length_cf_queue[of f] by simp
  from cf_queue_nth[OF this] q have "b = p_buf f ! (read_pos f mod (buf_size f + 1))"
    by simp
  with assms have "b = p_buf f ! read_pos f" by (simp add: cf_wf_def)
  with False q assms show ?thesis
    by (simp add: circular_fifo_get_def cf_advance_def cf_wf_pos[OF assms])
qed

lemma cf_full_iff:
  assumes "cf_wf f"
  shows "(write_pos f + 1) mod (buf_size f + 1) = read_pos f \<longleftrightarrow> cf_used f = buf_size f"
proof -
  have "(write_pos f + 1) mod (buf_size f + 1) = (if write_pos f = buf_size f then 0 else write_pos f + 1)"
    using assms by (auto simp: cf_wf_def)
  with assms show ?thesis
    by (auto simp: cf_used_eq cf_wf_def simp del: mod_Suc_eq split: if_splits)
qed

lemma circular_fifo_put_eq:
  assumes "cf_wf f"
  shows "circular_fifo_put f b =
    (if cf_used f < buf_size f then cf_append f b
     else if read_flag f then f
     else cf_append (cf_advance f) b)"
proof (cases "cf_used f < buf_size f")
  case True
  with cf_full_iff[OF assms] show ?thesis
    by (simp add: circular_fifo_put_def Let_def cf_wf_pos[OF assms] cf_append_def)
next
  case False
  with cf_used_le[OF assms] cf_full_iff[OF assms]
  have "(write_pos f + 1) mod (buf_size f + 1) = read_pos f" by simp
  with False show ?thesis
    by (simp add: circular_fifo_put_def Let_def cf_wf_pos[OF assms] cf_append_def cf_advance_def)
qed

lemma circular_fifo_put_wf: "cf_wf f \<Longrightarrow> cf_wf (circular_fifo_put f b)"
  by (simp add: circular_fifo_put_eq)

lemma circular_fifo_put_frame [simp]:
  "buf_size (circular_fifo_put f b) = buf_size f" "read_flag (circular_fifo_put f b) = read_flag f"
  by (simp_all add: circular_fifo_put_def Let_def)

lemma cf_advance_frame [simp]:
  "buf_size (cf_advance f) = buf_size f" "read_flag (cf_advance f) = read_flag f"
  "write_pos (cf_advance f) = write_pos f"
  by (simp_all add: cf_advance_def)

text \<open>A ring with no usable cell (\<open>buf_size = 0\<close>) holds nothing.\<close>

lemma circular_fifo_put_refines:
  assumes wf: "cf_wf f"
  shows "cf_queue (circular_fifo_put f b) =
    (if length (cf_queue f) < buf_size f then cf_queue f @ [b]
     else if read_flag f \<or> buf_size f = 0 then cf_queue f
     else tl (cf_queue f) @ [b])"
proof (cases "cf_used f < buf_size f")
  case True
  then show ?thesis
    using cf_append_queue[OF wf] by (simp add: circular_fifo_put_eq[OF wf])
next
  case False
  then have full: "cf_used f = buf_size f" using cf_used_le[OF wf] by simp
  show ?thesis
  proof (cases "buf_size f = 0")
    case True
    with full wf have "cf_used (cf_append (cf_advance f) b) = 0"
      using cf_used_le[OF cf_append_wf[OF cf_advance_wf[OF wf]], of b] by (simp add: cf_append_def)
    then have "cf_queue (cf_append (cf_advance f) b) = []" by (simp add: cf_queue_def)
    moreover from True full have "cf_queue f = []" by (simp add: cf_queue_def)
    ultimately show ?thesis
      using True by (simp add: circular_fifo_put_eq[OF wf])
  next
    case pos: False
    with full have ne: "read_pos f \<noteq> write_pos f"
      using cf_queue_empty_iff[OF wf] by (auto simp: cf_queue_def)
    have "cf_used (cf_advance f) < buf_size (cf_advance f)"
      using cf_advance_used[OF wf ne] full pos by simp
    then have "cf_queue (cf_append (cf_advance f) b) = tl (cf_queue f) @ [b]"
      using cf_append_queue[OF cf_advance_wf[OF wf]] cf_advance_queue[OF wf ne] by simp
    with False pos show ?thesis by (simp add: circular_fifo_put_eq[OF wf])
  qed
qed

section \<open>The interface of a bounded, overwriting queue\<close>

text \<open>
  What a client of the FIFO relies on outside of a read: \<open>put\<close> appends and, when the queue is
  full, makes room by dropping the oldest element; \<open>get\<close> removes the oldest element.
\<close>

locale bounded_queue =
  fixes put :: "'f \<Rightarrow> 'a \<Rightarrow> 'f"
    and get :: "'f \<Rightarrow> ('a, 'f) outcome"
    and queue :: "'f \<Rightarrow> 'a list"
    and cap :: "'f \<Rightarrow> nat"
    and inv :: "'f \<Rightarrow> bool"
  assumes put_queue: "inv f \<Longrightarrow> queue (put f b) =
      (if length (queue f) < cap f then queue f @ [b] else if cap f = 0 then [] else tl (queue f) @ [b])"
    and put_inv: "inv f \<Longrightarrow> inv (put f b)"
    and put_cap: "inv f \<Longrightarrow> cap (put f b) = cap f"
    and queue_le_cap: "inv f \<Longrightarrow> length (queue f) \<le> cap f"
    and get_empty: "inv f \<Longrightarrow> queue f = [] \<Longrightarrow> get f = (Inl NRF_ERROR_NOT_FOUND, f)"
    and get_cons: "inv f \<Longrightarrow> queue f = b # q \<Longrightarrow>
      \<exists>f'. get f = (Inr b, f') \<and> inv f' \<and> queue f' = q \<and> cap f' = cap f"
begin

lemma puts_newest:
  "inv f \<Longrightarrow> queue (foldl put f bs) = newest (cap f) (queue f @ bs)
     \<and> inv (foldl put f bs) \<and> cap (foldl put f bs) = cap f"
proof (induction bs arbitrary: f)
  case Nil
  then show ?case using queue_le_cap by (simp add: newest_def)
next
  case (Cons b bs)
  have "queue (foldl put (put f b) bs) = newest (cap f) (queue (put f b) @ bs)"
    using Cons put_inv put_cap by simp
  also have "\<dots> = newest (cap f) (queue f @ b # bs)"
    unfolding put_queue[OF Cons.prems] by (rule newest_snoc[OF queue_le_cap[OF Cons.prems], symmetric])
  finally show ?case using Cons put_inv put_cap by simp
qed

end

interpretation cf: bounded_queue circular_fifo_put circular_fifo_get cf_queue buf_size
    "\<lambda>f. cf_wf f \<and> \<not> read_flag f"
proof unfold_locales
  fix f :: circular_fifo and b q
  assume inv: "cf_wf f \<and> \<not> read_flag f"
  then have wf: "cf_wf f" by simp
  show "cf_queue (circular_fifo_put f b) =
     (if length (cf_queue f) < buf_size f then cf_queue f @ [b]
      else if buf_size f = 0 then [] else tl (cf_queue f) @ [b])"
    using inv cf_used_le[OF wf] by (simp add: circular_fifo_put_refines) (simp add: cf_queue_def)
  show "cf_wf (circular_fifo_put f b) \<and> \<not> read_flag (circular_fifo_put f b)"
    using inv by (simp add: circular_fifo_put_wf)
  show "buf_size (circular_fifo_put f b) = buf_size f" by simp
  show "length (cf_queue f) \<le> buf_size f" using cf_used_le[OF wf] by simp
  show "cf_queue f = [] \<Longrightarrow> circular_fifo_get f = (Inl NRF_ERROR_NOT_FOUND, f)"
    using circular_fifo_get_refines[OF wf] by simp
  show "\<exists>f'. circular_fifo_get f = (Inr b, f') \<and> (cf_wf f' \<and> \<not> read_flag f') \<and>
      cf_queue f' = q \<and> buf_size f' = buf_size f" if "cf_queue f = b # q"
  proof -
    from that wf have "read_pos f \<noteq> write_pos f" by (auto simp: cf_queue_empty_iff[symmetric])
    with that inv show ?thesis
      using circular_fifo_get_refines[OF wf] cf_advance_queue[OF wf] by simp
  qed
qed

lemma circular_fifo_write_foldl: "circular_fifo_write f bs = foldl circular_fifo_put f bs"
  by (induction bs arbitrary: f) simp_all

lemma circular_fifo_read_loop_refines:
  "cf_wf f \<Longrightarrow> circular_fifo_read_loop n f = (bs, f') \<Longrightarrow>
     bs = take n (cf_queue f) \<and> cf_queue f' = drop n (cf_queue f) \<and> cf_wf f'
     \<and> buf_size f' = buf_size f"
proof (induction n arbitrary: f bs f')
  case 0
  then show ?case by simp
next
  case (Suc n)
  note get = circular_fifo_get_refines[OF Suc.prems(1)]
  show ?case
  proof (cases "cf_queue f")
    case Nil
    with Suc.prems get show ?thesis by auto
  next
    case (Cons b q)
    with Suc.prems(1) have ne: "read_pos f \<noteq> write_pos f" by (auto simp: cf_queue_empty_iff[symmetric])
    obtain bs1 f1 where rec: "circular_fifo_read_loop n (cf_advance f) = (bs1, f1)" by fastforce
    from Suc.IH[OF cf_advance_wf[OF Suc.prems(1)] rec] Cons Suc.prems get rec
      cf_advance_queue[OF Suc.prems(1) ne]
    show ?thesis by auto
  qed
qed

lemma cf_flag_irrelevant [simp]:
  "cf_wf (f\<lparr>read_flag := b\<rparr>) = cf_wf f" "cf_queue (f\<lparr>read_flag := b\<rparr>) = cf_queue f"
  by (simp_all add: cf_wf_def cf_queue_def cf_used_def)

section \<open>A read that is interrupted by writers\<close>

text \<open>
  \<open>circular_fifo_read\<close> runs its \<open>circular_fifo_get\<close> calls with \<open>read_flag\<close> set, and an
  interrupt may call \<open>circular_fifo_put\<close> between any two of them.  \<open>cf_read_session f out ins f'\<close>:
  from \<open>f\<close>, the reader obtained \<open>out\<close> while interrupts put the bytes \<open>ins\<close>, ending in \<open>f'\<close>.
\<close>

inductive cf_read_session :: "circular_fifo \<Rightarrow> byte list \<Rightarrow> byte list \<Rightarrow> circular_fifo \<Rightarrow> bool" where
  session_end: "cf_read_session f [] [] f"
| session_get: "circular_fifo_get f = (Inr b, f1) \<Longrightarrow> cf_read_session f1 out ins f2 \<Longrightarrow>
    cf_read_session f (b # out) ins f2"
| session_isr: "cf_read_session (circular_fifo_put f b) out ins f2 \<Longrightarrow>
    cf_read_session f out (b # ins) f2"

lemma cf_put_while_reading:
  assumes "cf_wf f" and "read_flag f"
  shows "cf_queue (circular_fifo_put f b) = cf_queue f \<or> cf_queue (circular_fifo_put f b) = cf_queue f @ [b]"
  using circular_fifo_put_refines[OF assms(1)] assms(2) by simp

lemma cf_session_keeps_bytes:
  "cf_read_session f out ins f' \<Longrightarrow> cf_wf f \<Longrightarrow> read_flag f \<Longrightarrow>
     \<exists>acc. subseq acc ins \<and> out @ cf_queue f' = cf_queue f @ acc"
proof (induction rule: cf_read_session.induct)
  case (session_end f)
  then show ?case by (intro exI[of _ "[]"]) simp
next
  case (session_get f b f1 out ins f2)
  then obtain q where q: "cf_queue f = b # q" and f1: "f1 = cf_advance f"
    using circular_fifo_get_refines[of f] by (auto split: list.splits)
  from q session_get.prems have "read_pos f \<noteq> write_pos f" by (auto simp: cf_queue_empty_iff[symmetric])
  with session_get.prems q have "cf_queue f1 = q" by (simp add: f1 cf_advance_queue)
  with session_get f1 q show ?case by auto
next
  case (session_isr f b out ins f2)
  then obtain acc where acc: "subseq acc ins" "out @ cf_queue f2 = cf_queue (circular_fifo_put f b) @ acc"
    using circular_fifo_put_wf by auto
  from cf_put_while_reading[OF session_isr.prems, of b] show ?case
  proof
    assume "cf_queue (circular_fifo_put f b) = cf_queue f"
    with acc show ?thesis by (intro exI[of _ acc]) (simp add: list_emb_Cons)
  next
    assume "cf_queue (circular_fifo_put f b) = cf_queue f @ [b]"
    with acc show ?thesis by (intro exI[of _ "b # acc"]) simp
  qed
qed

section \<open>Properties\<close>

text \<open>
  C29: Writing a block of bytes to the FIFO (outside of a read) leaves in it the newest
  \<open>buf_size\<close> bytes of the old contents followed by the block, in order, and the structure
  stays well formed.
\<close>

theorem circular_fifo_write_newest:
  assumes "cf_wf f" and "\<not> read_flag f"
  shows "cf_queue (circular_fifo_write f bs) = newest (buf_size f) (cf_queue f @ bs)
    \<and> cf_wf (circular_fifo_write f bs)"
  using cf.puts_newest[of f bs] assms by (simp add: circular_fifo_write_foldl)

theorem circular_fifo_write_newest_witness:
  "cf_queue (circular_fifo_write \<lparr>p_buf = [0, 0, 0], buf_size = 2, read_pos = 2, write_pos = 0, read_flag = False\<rparr> [7, 8])
     = newest 2 (0 # [7, 8])"
proof -
  let ?f = "\<lparr>p_buf = [0, 0, 0], buf_size = 2, read_pos = 2, write_pos = 0, read_flag = False\<rparr>"
  have "cf_wf ?f" "\<not> read_flag ?f" by (simp_all add: cf_wf_def)
  from circular_fifo_write_newest[OF this, of "[7, 8]"]
  show ?thesis by (simp add: cf_queue_def cf_used_def)
qed

text \<open>
  C30: \<open>circular_fifo_read\<close> returns the oldest bytes in order, at most the number asked for,
  removes exactly those, clears the read flag and keeps the structure well formed.
\<close>

theorem circular_fifo_read_oldest:
  assumes "cf_wf f" and "circular_fifo_read f n = (bs, f')"
  shows "bs = take n (cf_queue f) \<and> cf_queue f' = drop n (cf_queue f) \<and> cf_wf f' \<and> \<not> read_flag f'"
proof -
  from assms(2) obtain f1 where f1: "circular_fifo_read_loop n (f\<lparr>read_flag := True\<rparr>) = (bs, f1)"
      and f': "f' = f1\<lparr>read_flag := False\<rparr>"
    by (auto simp: circular_fifo_read_def split: prod.splits)
  from circular_fifo_read_loop_refines[OF _ f1] assms(1) f' show ?thesis by simp
qed

theorem circular_fifo_read_oldest_witness:
  "\<exists>f'. circular_fifo_read \<lparr>p_buf = [5, 6, 0], buf_size = 2, read_pos = 0, write_pos = 2, read_flag = False\<rparr> 4
     = ([5, 6], f') \<and> cf_queue f' = []"
proof -
  let ?f = "\<lparr>p_buf = [5, 6, 0], buf_size = 2, read_pos = 0, write_pos = 2, read_flag = False\<rparr>"
  obtain bs f' where r: "circular_fifo_read ?f 4 = (bs, f')" by fastforce
  have wf: "cf_wf ?f" by (simp add: cf_wf_def)
  have "cf_queue ?f = [5, 6]" by (simp add: cf_queue_def cf_used_def upt_rec)
  with circular_fifo_read_oldest[OF wf r] r show ?thesis by simp
qed

text \<open>
  C8: While a read is in progress, interrupts that put bytes can neither overwrite nor reorder
  what is queued: whatever the interleaving, the bytes handed out followed by the bytes still
  queued are the original contents followed by the accepted new bytes in their order.
\<close>

theorem circular_fifo_interrupted_read_loses_nothing:
  assumes "cf_wf f" and "cf_read_session (f\<lparr>read_flag := True\<rparr>) out ins f'"
  shows "\<exists>acc. subseq acc ins \<and> out @ cf_queue f' = cf_queue f @ acc"
  using cf_session_keeps_bytes[OF assms(2)] assms(1) by simp

theorem circular_fifo_interrupted_read_loses_nothing_witness:
  "\<exists>f' acc. subseq acc [9] \<and> [5] @ cf_queue f'
     = cf_queue \<lparr>p_buf = [5, 6, 0], buf_size = 2, read_pos = 0, write_pos = 2, read_flag = False\<rparr> @ acc"
proof -
  let ?f = "\<lparr>p_buf = [5, 6, 0], buf_size = 2, read_pos = 0, write_pos = 2, read_flag = False\<rparr>"
  let ?g = "?f\<lparr>read_flag := True\<rparr>"
  have wf: "cf_wf ?f" by (simp add: cf_wf_def)
  have "circular_fifo_get (circular_fifo_put ?g 9)
      = (Inr 5, snd (circular_fifo_get (circular_fifo_put ?g 9)))"
    by (simp add: circular_fifo_get_def circular_fifo_put_def)
  then have "cf_read_session ?g [5] [9] (snd (circular_fifo_get (circular_fifo_put ?g 9)))"
    by (blast intro: session_isr session_get session_end)
  from circular_fifo_interrupted_read_loses_nothing[OF wf this] show ?thesis by blast
qed

end
