(* ===== verification/FS_Format.thy ===== *)
theory FS_Format
  imports OB_Prelude
begin

text \<open>
  The on-storage format of \<^verbatim>\<open>incl/filesystem_lib.c\<close>: the CRC-16 of headers and data, the
  record-id arithmetic, the flags of a partition-id, and the serialised forms of the partition
  metadata (14 bytes) and of an element header (2 to 6 bytes).
\<close>

section \<open>CRC-16\<close>

text \<open>One iteration of the loop of \<open>crc16_compute\<close>, on the 16-bit value of \<open>crc\<close>.\<close>

definition crc16_step :: "16 word \<Rightarrow> byte \<Rightarrow> 16 word" where
  "crc16_step crc0 d =
     (let crc1 = drop_bit 8 crc0 OR push_bit 8 crc0;
          crc2 = crc1 XOR ucast d;
          crc3 = crc2 XOR drop_bit 4 (crc2 AND 0xFF);
          crc4 = crc3 XOR push_bit 12 crc3
      in crc4 XOR push_bit 5 (crc4 AND 0xFF))"

definition crc16_compute :: "byte list \<Rightarrow> nat option \<Rightarrow> nat" where
  "crc16_compute data p_crc =
     unat (foldl crc16_step (case p_crc of None \<Rightarrow> 0xFFFF | Some c \<Rightarrow> word_of_nat c) data)"

section \<open>Record identifiers\<close>

definition increment_record_id :: "nat \<Rightarrow> nat" where
  "increment_record_id rid = (if rid \<ge> 0xFFFE then 1 else rid + 1)"

definition decrement_record_id :: "nat \<Rightarrow> nat" where
  "decrement_record_id rid = (if rid \<le> 1 then 0xFFFE else rid - 1)"

section \<open>Partition identifiers and header sizes\<close>

text \<open>
  The low 14 bits of a partition-id index the arrays (\<open>partition_id & 0x3FFF\<close>), bit 15 marks
  a dynamic partition and bit 14 one whose elements carry a CRC.
\<close>

definition pid_index :: "nat \<Rightarrow> nat" where
  "pid_index pid = take_bit 14 pid"

definition pid_dynamic :: "nat \<Rightarrow> bool" where
  "pid_dynamic pid = bit pid 15"

definition pid_has_crc :: "nat \<Rightarrow> bool" where
  "pid_has_crc pid = bit pid 14"

definition PARTITION_METADATA_SIZE :: nat where
  "PARTITION_METADATA_SIZE = 14"

definition SWAP_PAGE_SIZE :: nat where
  "SWAP_PAGE_SIZE = 20 * (14 + 2 + 2 + 2)"

definition filesystem_get_element_header_len :: "nat \<Rightarrow> nat" where
  "filesystem_get_element_header_len pid =
     2 + (if pid_dynamic pid then 2 else 0) + (if pid_has_crc pid then 2 else 0)"

definition filesystem_get_swap_page_address_of_partition :: "nat \<Rightarrow> nat" where
  "filesystem_get_swap_page_address_of_partition pid = pid_index pid * (14 + 2 + 2 + 2)"

section \<open>Metadata and element headers\<close>

record partition_metadata =
  header_crc :: nat
  partition_id :: nat
  partition_size :: nat
  first_element_len :: nat
  last_element_address :: nat

record partition_element_header =
  record_id :: nat
  previous_len_XOR_cur_len :: nat
  element_crc :: nat

text \<open>\<open>(x >> k) & 0xFF\<close> as a byte, and the big-endian reassembly of two and four bytes.\<close>

definition byte_at :: "nat \<Rightarrow> nat \<Rightarrow> byte" where
  "byte_at k x = word_of_nat (drop_bit k x)"

definition be16 :: "byte \<Rightarrow> byte \<Rightarrow> nat" where
  "be16 b1 b0 = push_bit 8 (unat b1) OR unat b0"

definition be32 :: "byte \<Rightarrow> byte \<Rightarrow> byte \<Rightarrow> byte \<Rightarrow> nat" where
  "be32 b3 b2 b1 b0 = push_bit 24 (unat b3) OR push_bit 16 (unat b2) OR push_bit 8 (unat b1) OR unat b0"

definition filesystem_serialize_metadata :: "partition_metadata \<Rightarrow> byte list" where
  "filesystem_serialize_metadata m =
     [byte_at 8 (header_crc m), byte_at 0 (header_crc m),
      byte_at 8 (partition_id m), byte_at 0 (partition_id m),
      byte_at 24 (partition_size m), byte_at 16 (partition_size m),
      byte_at 8 (partition_size m), byte_at 0 (partition_size m),
      byte_at 8 (first_element_len m), byte_at 0 (first_element_len m),
      byte_at 24 (last_element_address m), byte_at 16 (last_element_address m),
      byte_at 8 (last_element_address m), byte_at 0 (last_element_address m)]"

definition filesystem_deserialize_metadata :: "byte list \<Rightarrow> partition_metadata" where
  "filesystem_deserialize_metadata t =
     \<lparr>header_crc = be16 (t ! 0) (t ! 1),
      partition_id = be16 (t ! 2) (t ! 3),
      partition_size = be32 (t ! 4) (t ! 5) (t ! 6) (t ! 7),
      first_element_len = be16 (t ! 8) (t ! 9),
      last_element_address = be32 (t ! 10) (t ! 11) (t ! 12) (t ! 13)\<rparr>"

definition filesystem_serialize_element_header :: "nat \<Rightarrow> partition_element_header \<Rightarrow> byte list" where
  "filesystem_serialize_element_header pid h =
     [byte_at 8 (record_id h), byte_at 0 (record_id h)] @
     (if pid_dynamic pid
      then [byte_at 8 (previous_len_XOR_cur_len h), byte_at 0 (previous_len_XOR_cur_len h)] else []) @
     (if pid_has_crc pid then [byte_at 8 (element_crc h), byte_at 0 (element_crc h)] else [])"

definition filesystem_deserialize_element_header :: "nat \<Rightarrow> byte list \<Rightarrow> partition_element_header" where
  "filesystem_deserialize_element_header pid t =
     (let o2 = (if pid_dynamic pid then 2 else 0) in
      \<lparr>record_id = be16 (t ! 0) (t ! 1),
       previous_len_XOR_cur_len = (if pid_dynamic pid then be16 (t ! 2) (t ! 3) else 0),
       element_crc = (if pid_has_crc pid then be16 (t ! (2 + o2)) (t ! (3 + o2)) else 0)\<rparr>)"

section \<open>Facts about the format\<close>

lemma unat_byte_at: "unat (byte_at k x) = (x div 2 ^ k) mod 256"
  by (simp add: byte_at_def unat_of_nat drop_bit_eq_div)

lemma or_shift_add: "x < 2 ^ n \<Longrightarrow> push_bit n y OR x = push_bit n y + (x :: nat)"
  by (rule disjunctive_add[symmetric])
    (metis bit_push_bit_iff bit_take_bit_iff linorder_not_less take_bit_nat_eq_self)

lemma unat_byte_less [simp]: "unat (b :: byte) < 256"
  using unsigned_less[of b, where ?'a = nat] by simp

lemma be16_eq: "be16 b1 b0 = unat b1 * 256 + unat b0"
proof -
  have "unat b0 < 2 ^ 8" by simp
  from or_shift_add[OF this] show ?thesis by (simp add: be16_def push_bit_eq_mult)
qed

lemma be32_eq: "be32 b3 b2 b1 b0 = unat b3 * 16777216 + unat b2 * 65536 + unat b1 * 256 + unat b0"
proof -
  have e0: "push_bit 8 (unat b1) OR unat b0 = unat b1 * 256 + unat b0"
    using be16_eq by (simp add: be16_def)
  have "unat b1 * 256 + unat b0 < 65536"
    using unat_byte_less[of b1] unat_byte_less[of b0] by linarith
  then have "unat b1 * 256 + unat b0 < 2 ^ 16" by simp
  from or_shift_add[OF this] have e1: "push_bit 16 (unat b2) OR (push_bit 8 (unat b1) OR unat b0)
      = unat b2 * 65536 + (unat b1 * 256 + unat b0)"
    unfolding e0 by (simp add: push_bit_eq_mult)
  have "unat b2 * 65536 + (unat b1 * 256 + unat b0) < 16777216"
    using unat_byte_less[of b2] unat_byte_less[of b1] unat_byte_less[of b0] by linarith
  then have "unat b2 * 65536 + (unat b1 * 256 + unat b0) < 2 ^ 24" by simp
  from or_shift_add[OF this, of "unat b3"] show ?thesis
    unfolding be32_def or.assoc e1 by (simp add: push_bit_eq_mult)
qed

lemma be16_byte_at: "x < 65536 \<Longrightarrow> be16 (byte_at 8 x) (byte_at 0 x) = x"
  by (simp add: be16_eq unat_byte_at)

lemma be32_byte_at:
  assumes "x < 4294967296"
  shows "be32 (byte_at 24 x) (byte_at 16 x) (byte_at 8 x) (byte_at 0 x) = x"
proof -
  define y where "y = x div 256"
  define z where "z = y div 256"
  define w where "w = z div 256"
  have x: "x div 2 ^ 0 = x" "x div 2 ^ 8 = y" "x div 2 ^ 16 = z" "x div 2 ^ 24 = w"
    by (simp_all add: y_def z_def w_def div_mult2_eq[symmetric])
  have "w < 256" using assms by (simp add: y_def z_def w_def div_mult2_eq[symmetric] less_mult_imp_div_less)
  moreover have "x = y * 256 + x mod 256" "y = z * 256 + y mod 256" "z = w * 256 + z mod 256"
    by (simp_all add: y_def z_def w_def)
  ultimately show ?thesis unfolding be32_eq unat_byte_at x by simp
qed

lemma be16_less: "be16 a b < 65536"
  using unat_byte_less[of a] unat_byte_less[of b] unfolding be16_eq by linarith

lemma length_serialize_metadata [simp]: "length (filesystem_serialize_metadata m) = 14"
  by (simp add: filesystem_serialize_metadata_def)

lemma length_serialize_element_header [simp]:
  "length (filesystem_serialize_element_header pid h) = filesystem_get_element_header_len pid"
  by (simp add: filesystem_serialize_element_header_def filesystem_get_element_header_len_def)

lemma header_len_bounds:
  "2 \<le> filesystem_get_element_header_len pid" "filesystem_get_element_header_len pid \<le> 6"
  by (simp_all add: filesystem_get_element_header_len_def)

subsection \<open>Record identifiers\<close>

definition valid_rid :: "nat \<Rightarrow> bool" where
  "valid_rid r \<longleftrightarrow> 1 \<le> r \<and> r \<le> 0xFFFE"

lemma valid_rid_increment [simp]: "valid_rid (increment_record_id r)"
  by (simp add: valid_rid_def increment_record_id_def)

lemma valid_rid_decrement [simp]: "valid_rid r \<Longrightarrow> valid_rid (decrement_record_id r)"
  by (auto simp: valid_rid_def decrement_record_id_def)

lemma valid_rid_less: "valid_rid r \<Longrightarrow> r < 65536"
  by (simp add: valid_rid_def)

subsection \<open>Round trips\<close>

definition metadata_ok :: "partition_metadata \<Rightarrow> bool" where
  "metadata_ok m \<longleftrightarrow> header_crc m < 65536 \<and> partition_id m < 65536 \<and> partition_size m < 4294967296
     \<and> first_element_len m < 65536 \<and> last_element_address m < 4294967296"

definition header_ok :: "partition_element_header \<Rightarrow> bool" where
  "header_ok h \<longleftrightarrow> record_id h < 65536 \<and> previous_len_XOR_cur_len h < 65536 \<and> element_crc h < 65536"

text \<open>What a header retains in a partition: the fields the partition kind does not store are 0.\<close>

definition header_stored :: "nat \<Rightarrow> partition_element_header \<Rightarrow> partition_element_header" where
  "header_stored pid h = \<lparr>record_id = record_id h,
     previous_len_XOR_cur_len = (if pid_dynamic pid then previous_len_XOR_cur_len h else 0),
     element_crc = (if pid_has_crc pid then element_crc h else 0)\<rparr>"

lemma metadata_roundtrip:
  "metadata_ok m \<Longrightarrow> filesystem_deserialize_metadata (filesystem_serialize_metadata m @ t) = m"
  by (simp add: filesystem_deserialize_metadata_def filesystem_serialize_metadata_def metadata_ok_def
      be16_byte_at be32_byte_at)

lemma element_header_roundtrip:
  "header_ok h \<Longrightarrow>
   filesystem_deserialize_element_header pid (filesystem_serialize_element_header pid h @ t) = header_stored pid h"
  by (auto simp: filesystem_deserialize_element_header_def filesystem_serialize_element_header_def
      header_ok_def header_stored_def be16_byte_at Let_def)

lemma header_stored_idem [simp]: "header_stored pid (header_stored pid h) = header_stored pid h"
  by (simp add: header_stored_def)

lemma crc16_less [simp]: "crc16_compute d p < 65536"
  using unsigned_less[where ?'a = nat and ?'b = 16] by (simp add: crc16_compute_def)

subsection \<open>The CRC detects a corrupted byte\<close>

text \<open>The three self-combinations of a CRC step and the byte swap are injective.\<close>

lemma word_255_mask: "(0xFF :: 16 word) = mask 8"
  by (simp add: mask_eq_exp_minus_1)

lemma crc_swap_inj: "inj (\<lambda>x :: 16 word. drop_bit 8 x OR push_bit 8 x)"
proof (rule inj_on_inverseI[where g = "\<lambda>x. drop_bit 8 x OR push_bit 8 x"])
  fix x :: "16 word"
  show "drop_bit 8 (drop_bit 8 x OR push_bit 8 x) OR push_bit 8 (drop_bit 8 x OR push_bit 8 x) = x"
  proof (rule bit_word_eqI)
    fix n assume "n < LENGTH(16)"
    then show "bit (drop_bit 8 (drop_bit 8 x OR push_bit 8 x) OR push_bit 8 (drop_bit 8 x OR push_bit 8 x)) n = bit x n"
      by (cases "n < 8") (auto simp: bit_simps not_less dest: bit_imp_le_length)
  qed
qed

lemma crc_fold_low_inj: "inj (\<lambda>x :: 16 word. x XOR drop_bit 4 (x AND 0xFF))"
proof (rule inj_on_inverseI[where g = "\<lambda>x. x XOR drop_bit 4 (x AND 0xFF)"])
  fix x :: "16 word"
  show "(x XOR drop_bit 4 (x AND 0xFF)) XOR drop_bit 4 ((x XOR drop_bit 4 (x AND 0xFF)) AND 0xFF) = x"
    unfolding word_255_mask by (rule bit_word_eqI) (auto simp: bit_simps)
qed

lemma crc_fold_high_inj: "inj (\<lambda>x :: 16 word. x XOR push_bit 12 x)"
proof (rule inj_on_inverseI[where g = "\<lambda>x. x XOR push_bit 12 x"])
  fix x :: "16 word"
  show "(x XOR push_bit 12 x) XOR push_bit 12 (x XOR push_bit 12 x) = x"
    by (rule bit_word_eqI) (auto simp: bit_simps)
qed

lemma crc_spread_inj: "inj (\<lambda>x :: 16 word. x XOR push_bit 5 (x AND 0xFF))"
proof (rule injI)
  fix x y :: "16 word"
  assume eq: "x XOR push_bit 5 (x AND 0xFF) = y XOR push_bit 5 (y AND 0xFF)"
  have "bit x n \<longleftrightarrow> bit y n" if "n < 16" for n
    using that
  proof (induction n rule: less_induct)
    case (less n)
    from eq have "bit (x XOR push_bit 5 (x AND 0xFF)) n = bit (y XOR push_bit 5 (y AND 0xFF)) n" by simp
    then have step: "(bit x n \<noteq> (5 \<le> n \<and> n - 5 < 8 \<and> bit x (n - 5))) =
        (bit y n \<noteq> (5 \<le> n \<and> n - 5 < 8 \<and> bit y (n - 5)))"
      using less.prems unfolding word_255_mask by (auto simp: bit_simps)
    show ?case
    proof (cases "5 \<le> n")
      case True
      with less have "bit x (n - 5) = bit y (n - 5)" by simp
      with step show ?thesis by auto
    next
      case False
      with step show ?thesis by auto
    qed
  qed
  then show "x = y" by (intro bit_word_eqI) simp
qed

lemma crc16_step_eq_iff:
  "crc16_step c d = crc16_step c' d' \<longleftrightarrow>
     (drop_bit 8 c OR push_bit 8 c) XOR ucast d = (drop_bit 8 c' OR push_bit 8 c') XOR ucast d'"
proof -
  define S where "S = (\<lambda>x :: 16 word. x XOR push_bit 5 (x AND 0xFF))"
  define H where "H = (\<lambda>x :: 16 word. x XOR push_bit 12 x)"
  define L where "L = (\<lambda>x :: 16 word. x XOR drop_bit 4 (x AND 0xFF))"
  have inj: "inj S" "inj H" "inj L"
    unfolding S_def H_def L_def by (rule crc_spread_inj crc_fold_high_inj crc_fold_low_inj)+
  have "crc16_step c d = S (H (L ((drop_bit 8 c OR push_bit 8 c) XOR ucast d)))" for c d
    by (simp add: crc16_step_def Let_def S_def H_def L_def)
  then show ?thesis using inj by (simp add: inj_eq)
qed

lemma xor_right_cancel: "(a XOR c = b XOR c) = (a = (b :: 'a :: len word))"
  by (metis xor.assoc xor.right_neutral xor_self_eq)

lemma xor_left_cancel: "(c XOR a = c XOR b) = (a = (b :: 'a :: len word))"
  by (metis xor_right_cancel xor.commute)

lemma crc16_step_inj_crc: "crc16_step c d = crc16_step c' d \<Longrightarrow> c = c'"
  using injD[OF crc_swap_inj, of c c'] by (simp add: crc16_step_eq_iff xor_right_cancel)

lemma crc16_step_inj_data: "crc16_step c d = crc16_step c d' \<Longrightarrow> d = d'"
proof -
  assume "crc16_step c d = crc16_step c d'"
  then have "(ucast d :: 16 word) = ucast d'" by (simp add: crc16_step_eq_iff xor_left_cancel)
  then have *: "unat (ucast d :: 16 word) = unat (ucast d' :: 16 word)" by simp
  have "unat (ucast e :: 16 word) = unat e" for e :: byte
  proof -
    have "unat e < 2 ^ 16" using unat_byte_less[of e] by (rule less_trans) simp
    then show ?thesis by (simp add: unsigned_ucast_eq take_bit_nat_eq_self)
  qed
  with * show "d = d'" by (simp add: word_unat_eq_iff)
qed

lemma crc16_fold_inj: "foldl crc16_step c ds = foldl crc16_step c' ds \<Longrightarrow> c = c'"
  by (induction ds arbitrary: c c') (auto dest: crc16_step_inj_crc)

section \<open>Properties\<close>

text \<open>
  C34: The metadata and the element header of a partition survive being written to storage and
  read back: deserialising the serialised bytes gives the metadata back, and the header with
  exactly the fields this kind of partition stores.
\<close>

theorem filesystem_header_roundtrip:
  assumes "metadata_ok m" and "header_ok h"
  shows "filesystem_deserialize_metadata (filesystem_serialize_metadata m @ t) = m
    \<and> filesystem_deserialize_element_header pid
        (drop 14 (filesystem_serialize_metadata m @ filesystem_serialize_element_header pid h @ t)) = header_stored pid h"
  using assms by (simp add: metadata_roundtrip element_header_roundtrip)

theorem filesystem_header_roundtrip_witness:
  "filesystem_deserialize_metadata (filesystem_serialize_metadata
      \<lparr>header_crc = 4660, partition_id = 32769, partition_size = 305419896, first_element_len = 77, last_element_address = 800\<rparr>)
    = \<lparr>header_crc = 4660, partition_id = 32769, partition_size = 305419896, first_element_len = 77, last_element_address = 800\<rparr>"
proof -
  let ?m = "\<lparr>header_crc = 4660, partition_id = 32769, partition_size = 305419896, first_element_len = 77, last_element_address = 800\<rparr>"
  have "metadata_ok ?m" by (simp add: metadata_ok_def)
  moreover have "header_ok \<lparr>record_id = 1, previous_len_XOR_cur_len = 2, element_crc = 3\<rparr>" by (simp add: header_ok_def)
  ultimately show ?thesis
    using filesystem_header_roundtrip[of ?m "\<lparr>record_id = 1, previous_len_XOR_cur_len = 2, element_crc = 3\<rparr>" "[]"] by simp
qed

text \<open>
  C35: \<open>crc16_compute\<close> detects every corruption confined to one byte: two blocks of data that
  differ in exactly one byte have different CRC values, whatever the initial value.
\<close>

theorem crc16_detects_corrupted_byte:
  assumes "b \<noteq> b'"
  shows "crc16_compute (xs @ b # ys) c \<noteq> crc16_compute (xs @ b' # ys) c"
proof
  assume "crc16_compute (xs @ b # ys) c = crc16_compute (xs @ b' # ys) c"
  then have "crc16_step (foldl crc16_step (case c of None \<Rightarrow> 0xFFFF | Some c \<Rightarrow> word_of_nat c) xs) b
      = crc16_step (foldl crc16_step (case c of None \<Rightarrow> 0xFFFF | Some c \<Rightarrow> word_of_nat c) xs) b'"
    by (rule_tac ds = ys in crc16_fold_inj) (simp add: crc16_compute_def word_unat_eq_iff)
  then have "b = b'" by (rule crc16_step_inj_data)
  with assms show False by simp
qed

theorem crc16_detects_corrupted_byte_witness:
  "crc16_compute ([1, 2] @ 3 # [4]) None \<noteq> crc16_compute ([1, 2] @ 7 # [4]) None"
  by (rule crc16_detects_corrupted_byte) simp

text \<open>
  On the valid record-ids 1 to 0xFFFE, incrementing and decrementing are inverse, stay valid
  (never the 0 or 0xFFFF of blank storage), and stepping forward 0xFFFE times is needed to return
  to the start.
\<close>

theorem record_id_cycle:
  assumes "valid_rid r"
  shows "decrement_record_id (increment_record_id r) = r \<and> increment_record_id (decrement_record_id r) = r
    \<and> valid_rid ((increment_record_id ^^ n) r) \<and> (increment_record_id ^^ n) r = (r - 1 + n) mod 0xFFFE + 1"
proof -
  have inv: "decrement_record_id (increment_record_id r) = r" "increment_record_id (decrement_record_id r) = r"
    using assms by (auto simp: valid_rid_def increment_record_id_def decrement_record_id_def)
  have "(increment_record_id ^^ n) r = (r - 1 + n) mod 0xFFFE + 1"
  proof (induction n)
    case 0
    from assms have "r - 1 < 0xFFFE" by (simp add: valid_rid_def, linarith)
    then have "(r - 1) mod 0xFFFE = r - 1" by (rule mod_less)
    with assms show ?case by (simp add: valid_rid_def)
  next
    case (Suc n)
    have "(r - 1 + n) mod 0xFFFE < 0xFFFE" by simp
    then have "increment_record_id ((r - 1 + n) mod 0xFFFE + 1) = (r - 1 + Suc n) mod 0xFFFE + 1"
      by (auto simp: increment_record_id_def mod_Suc)
    with Suc show ?case by simp
  qed
  moreover have "valid_rid ((r - 1 + n) mod 0xFFFE + 1)"
    using mod_less_divisor[of "0xFFFE" "r - 1 + n"] by (simp add: valid_rid_def)
  ultimately show ?thesis using inv by simp
qed

theorem record_id_cycle_witness:
  "increment_record_id (decrement_record_id 1) = 1 \<and> (increment_record_id ^^ 0xFFFE) 1 = 1"
  using record_id_cycle[of 1 0] record_id_cycle[of 1 "0xFFFE"] by (simp add: valid_rid_def)

text \<open>
  C36: The backups of the registered partitions live in disjoint parts of the swap page: the
  entries of two partitions with different indices do not overlap and end inside the page,
  whatever the kinds of the partitions.
\<close>

theorem swap_page_entries_disjoint:
  assumes "pid_index p < 20" and "pid_index q < 20" and "pid_index p \<noteq> pid_index q"
  shows "filesystem_get_swap_page_address_of_partition p + 14 + filesystem_get_element_header_len p \<le> SWAP_PAGE_SIZE
    \<and> {filesystem_get_swap_page_address_of_partition p ..<
        filesystem_get_swap_page_address_of_partition p + 14 + filesystem_get_element_header_len p}
      \<inter> {filesystem_get_swap_page_address_of_partition q ..<
        filesystem_get_swap_page_address_of_partition q + 14 + filesystem_get_element_header_len q} = {}"
  using assms header_len_bounds(2)[of p] header_len_bounds(2)[of q]
  by (auto simp: filesystem_get_swap_page_address_of_partition_def SWAP_PAGE_SIZE_def)

theorem swap_page_entries_disjoint_witness:
  "filesystem_get_swap_page_address_of_partition 49153 + 14 + filesystem_get_element_header_len 49153 \<le> SWAP_PAGE_SIZE"
  using swap_page_entries_disjoint[of 49153 2] by (simp add: pid_index_def)

end
