(* ===== verification/Filesystem.thy ===== *)
theory Filesystem
  imports FS_Format
begin

text \<open>
  The partitioned, sequential filesystem of \<^verbatim>\<open>incl/filesystem_lib.c\<close>: its global variables as one
  record and every function of the file.  The functions take the entry points of the storage
  module below them (\<^verbatim>\<open>incl/storage_lib.c\<close>) as a record of operations on the storage state, the
  way the storage module itself dispatches over tables of functions.
\<close>

section \<open>The storage module as seen by the filesystem\<close>

record 's storage_ops =
  so_init :: "'s \<Rightarrow> (unit, 's) outcome"
  so_read :: "nat \<Rightarrow> nat \<Rightarrow> 's \<Rightarrow> (byte list, 's) outcome"
  so_store :: "nat \<Rightarrow> byte list \<Rightarrow> 's \<Rightarrow> (unit, 's) outcome"
  so_clear :: "nat \<Rightarrow> nat \<Rightarrow> 's \<Rightarrow> (unit, 's) outcome"
  so_limits :: "nat \<Rightarrow> nat \<Rightarrow> 's \<Rightarrow> ret_code + nat \<times> nat"
  so_get_size :: nat

section \<open>State\<close>

record partition =
  metadata :: partition_metadata
  first_element_address :: nat
  has_first_element :: bool
  first_element_header :: partition_element_header
  latest_element_address :: nat
  latest_element_record_id :: nat
  latest_element_len :: nat

record partition_iterator =
  cur_element_address :: nat
  cur_element_len :: nat
  cur_element_header :: partition_element_header
  iterator_valid :: nat

record 's filesystem =
  number_of_partitions :: nat
  partitions :: "partition list"
  partition_iterators :: "partition_iterator list"
  next_free_address :: nat
  storage :: 's

definition MAX_NUMBER_OF_PARTITIONS :: nat where
  "MAX_NUMBER_OF_PARTITIONS = 20"

definition ITERATOR_VALID_NUMBER :: nat where
  "ITERATOR_VALID_NUMBER = 0xA5"

text \<open>Access to the array entries of a partition-id, and calls into the storage module.\<close>

definition part :: "'s filesystem \<Rightarrow> nat \<Rightarrow> partition" where
  "part fs pid = partitions fs ! pid_index pid"

definition iter :: "'s filesystem \<Rightarrow> nat \<Rightarrow> partition_iterator" where
  "iter fs pid = partition_iterators fs ! pid_index pid"

definition upd_part :: "nat \<Rightarrow> (partition \<Rightarrow> partition) \<Rightarrow> 's filesystem \<Rightarrow> 's filesystem" where
  "upd_part pid f fs = fs\<lparr>partitions := (partitions fs)[pid_index pid := f (part fs pid)]\<rparr>"

definition upd_iter :: "nat \<Rightarrow> (partition_iterator \<Rightarrow> partition_iterator) \<Rightarrow> 's filesystem \<Rightarrow> 's filesystem" where
  "upd_iter pid f fs = fs\<lparr>partition_iterators := (partition_iterators fs)[pid_index pid := f (iter fs pid)]\<rparr>"

definition fs_call :: "('s \<Rightarrow> ('a, 's) outcome) \<Rightarrow> 's filesystem \<Rightarrow> ('a, 's filesystem) outcome" where
  "fs_call f fs = (case f (storage fs) of (r, s) \<Rightarrow> (r, fs\<lparr>storage := s\<rparr>))"

abbreviation fs_read :: "'s storage_ops \<Rightarrow> nat \<Rightarrow> nat \<Rightarrow> 's filesystem \<Rightarrow> (byte list, 's filesystem) outcome" where
  "fs_read so a n \<equiv> fs_call (so_read so a n)"

abbreviation fs_store :: "'s storage_ops \<Rightarrow> nat \<Rightarrow> byte list \<Rightarrow> 's filesystem \<Rightarrow> (unit, 's filesystem) outcome" where
  "fs_store so a bs \<equiv> fs_call (so_store so a bs)"

abbreviation internal :: "ret_code \<Rightarrow> ret_code" where
  "internal _ \<equiv> NRF_ERROR_INTERNAL"

section \<open>Sizes and the swap page\<close>

definition filesystem_compute_available_size :: "'s storage_ops \<Rightarrow> nat \<Rightarrow> nat \<Rightarrow> 's filesystem \<Rightarrow> ret_code + nat" where
  "filesystem_compute_available_size so start required fs =
     (if start \<ge> so_get_size so \<or> required = 0 then Inl NRF_ERROR_INVALID_PARAM
      else let available = u32_sub (so_get_size so) start;
               available = (if available > required then required else available)
           in case so_limits so start available (storage fs) of
                Inl _ \<Rightarrow> Inl NRF_ERROR_INTERNAL
              | Inr (start_unit, end_unit) \<Rightarrow>
                  if start \<noteq> start_unit then Inl NRF_ERROR_INVALID_PARAM
                  else Inr (u32_add (u32_sub end_unit start_unit) 1))"

text \<open>
  \<open>store_verified\<close> is the sequence the code repeats after every header: store, read the same
  range back, and compare.
\<close>

definition store_verified :: "'s storage_ops \<Rightarrow> nat \<Rightarrow> byte list \<Rightarrow> 's filesystem \<Rightarrow> (unit, 's filesystem) outcome" where
  "store_verified so a bs fs =
     attempt internal (fs_store so a bs fs) (\<lambda>_ fs.
     attempt internal (fs_read so a (length bs) fs) (\<lambda>rd fs.
     if rd \<noteq> bs then (Inl NRF_ERROR_INTERNAL, fs) else (Inr (), fs)))"

definition filesystem_backup_first_element_header ::
  "'s storage_ops \<Rightarrow> nat \<Rightarrow> byte list \<Rightarrow> 's filesystem \<Rightarrow> (unit, 's filesystem) outcome" where
  "filesystem_backup_first_element_header so swap_address serialized fs =
     (if u32_add swap_address (length serialized) > SWAP_PAGE_SIZE then (Inl NRF_ERROR_INVALID_PARAM, fs)
      else
        attempt internal (fs_read so swap_address (length serialized) fs) (\<lambda>tmp fs.
        if serialized = tmp then (Inr (), fs)
        else case so_limits so swap_address (length serialized) (storage fs) of
            Inl _ \<Rightarrow> (Inl NRF_ERROR_INTERNAL, fs)
          | Inr (start_unit, end_unit) \<Rightarrow>
              let unit_size = u32_sub (u32_add end_unit 1) start_unit in
              attempt internal (fs_read so start_unit unit_size fs) (\<lambda>tmp_swap_page fs.
              store_verified so start_unit
                (overwrite tmp_swap_page (u32_sub swap_address start_unit) serialized) fs)))"

section \<open>Reading element headers\<close>

text \<open>
  The acceptance test of a first element: the header CRC matches, and the metadata agree with
  those registered by the application.
\<close>

definition metadata_matches :: "nat \<Rightarrow> partition_metadata \<Rightarrow> partition_metadata \<Rightarrow> bool" where
  "metadata_matches pid m reg \<longleftrightarrow> partition_id m = partition_id reg \<and> partition_size m = partition_size reg
     \<and> (pid_dynamic pid \<or> first_element_len m = first_element_len reg)"

text \<open>Reading and decoding the metadata and header at an address: the two reads of the code.\<close>

definition read_first_header ::
  "'s storage_ops \<Rightarrow> nat \<Rightarrow> nat \<Rightarrow> 's filesystem
     \<Rightarrow> (byte list \<times> partition_metadata \<times> partition_element_header, 's filesystem) outcome" where
  "read_first_header so pid a fs =
     attempt internal (fs_read so a PARTITION_METADATA_SIZE fs) (\<lambda>mb fs.
     attempt internal (fs_read so (u32_add a PARTITION_METADATA_SIZE) (filesystem_get_element_header_len pid) fs) (\<lambda>hb fs.
     (Inr (mb @ hb, filesystem_deserialize_metadata mb, filesystem_deserialize_element_header pid hb), fs)))"

definition filesystem_read_element_header ::
  "'s storage_ops \<Rightarrow> nat \<Rightarrow> nat \<Rightarrow> 's filesystem \<Rightarrow> (partition_element_header, 's filesystem) outcome" where
  "filesystem_read_element_header so pid element_address fs =
     (if element_address = first_element_address (part fs pid) then
        attempt id (read_first_header so pid element_address fs) (\<lambda>(tmp, md, h) fs.
        if crc16_compute (drop 2 tmp) None = header_crc md then
          if metadata_matches pid md (metadata (part fs pid))
          then (Inr h, upd_part pid (\<lambda>p. p\<lparr>metadata := md\<rparr>) fs)
          else (Inl NRF_ERROR_NOT_FOUND, fs)
        else
          attempt id (read_first_header so pid (filesystem_get_swap_page_address_of_partition pid) fs) (\<lambda>(tmp, md, h) fs.
          if crc16_compute (drop 2 tmp) None = header_crc md then
            if metadata_matches pid md (metadata (part fs pid)) then
              attempt id (store_verified so element_address tmp fs) (\<lambda>_ fs.
              (Inr h, upd_part pid (\<lambda>p. p\<lparr>metadata := md\<rparr>) fs))
            else (Inl NRF_ERROR_NOT_FOUND, fs)
          else (Inl NRF_ERROR_NOT_FOUND, fs)))
      else
        attempt internal (fs_read so element_address (filesystem_get_element_header_len pid) fs) (\<lambda>tmp fs.
        (Inr (filesystem_deserialize_element_header pid tmp), fs)))"

section \<open>The neighbours of an element\<close>

text \<open>Length of the header in front of the data of the element at address \<open>a\<close>.\<close>

definition header_len_at :: "nat \<Rightarrow> nat \<Rightarrow> nat \<Rightarrow> nat" where
  "header_len_at pid start a =
     (if a = start then PARTITION_METADATA_SIZE + filesystem_get_element_header_len pid
      else filesystem_get_element_header_len pid)"

definition filesystem_get_next_element_header ::
  "'s storage_ops \<Rightarrow> nat \<Rightarrow> nat \<Rightarrow> nat \<Rightarrow> nat \<Rightarrow> 's filesystem
     \<Rightarrow> (nat \<times> partition_element_header, 's filesystem) outcome" where
  "filesystem_get_next_element_header so pid cur_address cur_record_id cur_len fs =
     (let start = first_element_address (part fs pid);
          psize = partition_size (metadata (part fs pid));
          hl = filesystem_get_element_header_len pid;
          next_address = u32_add (u32_add cur_address (header_len_at pid start cur_address)) cur_len
      in attempt id (filesystem_read_element_header so pid next_address fs) (\<lambda>h fs.
         let next_len = (if pid_dynamic pid then cur_len XOR previous_len_XOR_cur_len h
                         else first_element_len (metadata (part fs pid)))
         in if record_id h = increment_record_id cur_record_id \<and>
               u32_add (u32_add next_address hl) next_len \<le> u32_add start psize
            then (Inr (next_address, h), fs)
            else
              attempt id (filesystem_read_element_header so pid start fs) (\<lambda>h fs.
              if record_id h = increment_record_id cur_record_id then (Inr (start, h), fs)
              else (Inl NRF_ERROR_NOT_FOUND, fs))))"

definition filesystem_get_previous_element_header ::
  "'s storage_ops \<Rightarrow> nat \<Rightarrow> nat \<Rightarrow> nat \<Rightarrow> nat \<Rightarrow> 's filesystem
     \<Rightarrow> (nat \<times> partition_element_header, 's filesystem) outcome" where
  "filesystem_get_previous_element_header so pid cur_address cur_record_id cur_len fs =
     (let start = first_element_address (part fs pid);
          last_address = last_element_address (metadata (part fs pid));
          hl = filesystem_get_element_header_len pid
      in if cur_address \<le> start then
           if last_address \<le> start then (Inl NRF_ERROR_NOT_FOUND, fs)
           else
             attempt id (filesystem_read_element_header so pid last_address fs) (\<lambda>h fs.
             if record_id h = decrement_record_id cur_record_id then (Inr (last_address, h), fs)
             else (Inl NRF_ERROR_NOT_FOUND, fs))
         else
           attempt id (filesystem_read_element_header so pid cur_address fs) (\<lambda>h fs.
           let previous_len = (if pid_dynamic pid then cur_len XOR previous_len_XOR_cur_len h
                               else first_element_len (metadata (part fs pid)));
               previous_address =
                 (if cur_address \<le> u32_add (u32_add start (PARTITION_METADATA_SIZE + hl)) previous_len
                  then start else u32_sub (u32_sub cur_address previous_len) hl)
           in attempt id (filesystem_read_element_header so pid previous_address fs) (\<lambda>h fs.
              if record_id h = decrement_record_id cur_record_id then (Inr (previous_address, h), fs)
              else (Inl NRF_ERROR_NOT_FOUND, fs))))"

section \<open>Finding the latest element\<close>

text \<open>
  The search loop: it follows next-element headers until there is none or the next element is
  not behind the current one.  The addresses strictly increase below \<open>2^32\<close>, which
  bounds the iterations (an address is a \<open>uint32_t\<close>, so the second guard never
  holds; it makes the bound apparent).  The result is the return code of the last header read, beside the
  address, record-id and length of the last element reached.
\<close>

function find_latest_loop ::
  "'s storage_ops \<Rightarrow> nat \<Rightarrow> nat \<Rightarrow> nat \<Rightarrow> nat \<Rightarrow> nat \<Rightarrow> 's filesystem
     \<Rightarrow> ret_code \<times> (nat \<times> nat \<times> nat) \<times> 's filesystem" where
  "find_latest_loop so pid elen cur_address rid cur_len fs =
     (case filesystem_get_next_element_header so pid cur_address rid cur_len fs of
        (Inl e, fs) \<Rightarrow> (e, (cur_address, rid, cur_len), fs)
      | (Inr (next_address, h), fs) \<Rightarrow>
          if next_address \<le> cur_address \<or> 4294967296 \<le> next_address
          then (NRF_SUCCESS, (cur_address, rid, cur_len), fs)
          else find_latest_loop so pid elen next_address (record_id h)
                 (if pid_dynamic pid then cur_len XOR previous_len_XOR_cur_len h else elen) fs)"
  by pat_completeness auto
termination
  by (relation "measure (\<lambda>(so, pid, elen, cur_address, rid, cur_len, fs). 4294967296 - cur_address)") auto

definition filesystem_find_latest_element_address ::
  "'s storage_ops \<Rightarrow> nat \<Rightarrow> 's filesystem \<Rightarrow> (ret_code \<times> nat \<times> (nat \<times> nat) option) \<times> 's filesystem" where
  "filesystem_find_latest_element_address so pid fs =
     (let start = first_element_address (part fs pid);
          elen = first_element_len (metadata (part fs pid))
      in case filesystem_read_element_header so pid start fs of
           (Inl e, fs) \<Rightarrow> ((e, start, None), fs)
         | (Inr h, fs) \<Rightarrow>
             (case find_latest_loop so pid elen start (record_id h) elen fs of
                (e, (a, rid, len), fs) \<Rightarrow>
                  ((if e \<noteq> NRF_SUCCESS \<and> e \<noteq> NRF_ERROR_NOT_FOUND then e else NRF_SUCCESS, a, Some (rid, len)), fs)))"

section \<open>Setting the filesystem up\<close>

definition filesystem_reset :: "'s storage_ops \<Rightarrow> 's filesystem \<Rightarrow> (unit, 's filesystem) outcome" where
  "filesystem_reset so fs =
     (let fs = fs\<lparr>number_of_partitions := 0\<rparr>
      in case so_limits so 0 SWAP_PAGE_SIZE (storage fs) of
           Inl _ \<Rightarrow> (Inl NRF_ERROR_INTERNAL, fs)
         | Inr (_, end_unit) \<Rightarrow> (Inr (), fs\<lparr>next_free_address := u32_add end_unit 1\<rparr>))"

definition filesystem_init :: "'s storage_ops \<Rightarrow> 's filesystem \<Rightarrow> (unit, 's filesystem) outcome" where
  "filesystem_init so fs = attempt id (fs_call (so_init so) fs) (\<lambda>_ fs. filesystem_reset so fs)"

definition filesystem_clear :: "'s storage_ops \<Rightarrow> 's filesystem \<Rightarrow> (unit, 's filesystem) outcome" where
  "filesystem_clear so fs = attempt id (fs_call (so_clear so 0 (so_get_size so)) fs) (\<lambda>_ fs. filesystem_reset so fs)"

definition filesystem_get_available_size :: "'s storage_ops \<Rightarrow> 's filesystem \<Rightarrow> nat" where
  "filesystem_get_available_size so fs =
     (if so_get_size so \<ge> next_free_address fs then so_get_size so - next_free_address fs else 0)"

text \<open>
  Registration of a partition.  The entry of the partition array is written before the checks
  that may still fail, as in the code; \<open>number_of_partitions\<close> and \<open>next_free_address\<close> change only
  at the end.  On success the result is the partition-id and the size granted.
\<close>

definition registered_id :: "nat \<Rightarrow> bool \<Rightarrow> bool \<Rightarrow> nat" where
  "registered_id n is_dynamic enable_crc =
     (let p = (if is_dynamic then set_bit 15 n else n) in if enable_crc then set_bit 14 p else p)"

definition new_partition :: "nat \<Rightarrow> nat \<Rightarrow> nat \<Rightarrow> nat \<Rightarrow> partition \<Rightarrow> partition" where
  "new_partition pid start available elen p =
     p\<lparr>has_first_element := False, first_element_address := start, latest_element_address := start,
       latest_element_record_id := 1, latest_element_len := 0,
       metadata := (metadata p)\<lparr>partition_id := pid, partition_size := available,
                                 first_element_len := elen, last_element_address := start\<rparr>\<rparr>"

text \<open>The look at the storage: an existing first element leads to the search for the latest one.\<close>

definition recover_latest :: "'s storage_ops \<Rightarrow> nat \<Rightarrow> nat \<Rightarrow> 's filesystem \<Rightarrow> (unit, 's filesystem) outcome" where
  "recover_latest so pid start fs =
     (case filesystem_read_element_header so pid start fs of
        (Inl e, fs) \<Rightarrow>
          if e \<noteq> NRF_ERROR_NOT_FOUND then (Inl NRF_ERROR_INTERNAL, fs)
          else (Inr (), upd_part pid (\<lambda>p. p\<lparr>has_first_element := False\<rparr>) fs)
      | (Inr _, fs) \<Rightarrow>
          (case filesystem_find_latest_element_address so pid fs of
             ((ret, a, outs), fs) \<Rightarrow>
               let fs = upd_part pid (\<lambda>p. case outs of
                            None \<Rightarrow> p\<lparr>latest_element_address := a\<rparr>
                          | Some (rid, len) \<Rightarrow> p\<lparr>latest_element_address := a,
                              latest_element_record_id := rid, latest_element_len := u16 len\<rparr>) fs
               in if ret \<noteq> NRF_SUCCESS then (Inl ret, fs)
                  else (Inr (), upd_part pid (\<lambda>p. p\<lparr>has_first_element := True\<rparr>) fs)))"

definition filesystem_register_partition ::
  "'s storage_ops \<Rightarrow> nat \<Rightarrow> bool \<Rightarrow> bool \<Rightarrow> nat \<Rightarrow> 's filesystem \<Rightarrow> (nat \<times> nat, 's filesystem) outcome" where
  "filesystem_register_partition so required is_dynamic enable_crc element_len fs =
     (if number_of_partitions fs \<ge> MAX_NUMBER_OF_PARTITIONS then (Inl NRF_ERROR_NO_MEM, fs)
      else if \<not> is_dynamic \<and> element_len = 0 then (Inl NRF_ERROR_INVALID_PARAM, fs)
      else
        let element_len = (if is_dynamic then 0 else element_len);
            start = next_free_address fs
        in case filesystem_compute_available_size so start required fs of
             Inl _ \<Rightarrow> (Inl NRF_ERROR_NO_MEM, fs)
           | Inr available \<Rightarrow>
               let pid = registered_id (number_of_partitions fs) is_dynamic enable_crc;
                   fs = upd_part pid (new_partition pid start available element_len) fs
               in if available < PARTITION_METADATA_SIZE + filesystem_get_element_header_len pid + element_len
                  then (Inl NRF_ERROR_NO_MEM, fs)
                  else attempt id (recover_latest so pid start fs) (\<lambda>_ fs.
                       (Inr (pid, available),
                        fs\<lparr>next_free_address := u32_add start available,
                           number_of_partitions := number_of_partitions fs + 1\<rparr>)))"

definition filesystem_clear_partition :: "'s storage_ops \<Rightarrow> nat \<Rightarrow> 's filesystem \<Rightarrow> (unit, 's filesystem) outcome" where
  "filesystem_clear_partition so pid fs =
     (let start = first_element_address (part fs pid);
          blank = replicate (PARTITION_METADATA_SIZE + filesystem_get_element_header_len pid) 0xFF;
          rest = (\<lambda>new_record_id fs.
            attempt internal (filesystem_backup_first_element_header so
                (filesystem_get_swap_page_address_of_partition pid) blank fs) (\<lambda>_ fs.
            attempt id (store_verified so start blank fs) (\<lambda>_ fs.
            (Inr (), upd_part pid (\<lambda>p. p\<lparr>has_first_element := False, first_element_address := start,
               latest_element_address := start, latest_element_record_id := new_record_id,
               latest_element_len := 0\<rparr>) fs))))
      in case filesystem_read_element_header so pid start fs of
           (Inr h, fs) \<Rightarrow> rest (increment_record_id (record_id h)) fs
         | (Inl e, fs) \<Rightarrow> if e = NRF_ERROR_NOT_FOUND then rest 1 fs else (Inl e, fs))"

section \<open>Iterators\<close>

definition filesystem_iterator_invalidate :: "nat \<Rightarrow> 's filesystem \<Rightarrow> 's filesystem" where
  "filesystem_iterator_invalidate pid fs = upd_iter pid (\<lambda>i. i\<lparr>iterator_valid := 0\<rparr>) fs"

text \<open>The header comparison of the validity check, on the fields the partition kind stores.\<close>

definition header_changed :: "nat \<Rightarrow> partition_element_header \<Rightarrow> partition_element_header \<Rightarrow> bool" where
  "header_changed pid h cur \<longleftrightarrow> record_id h \<noteq> record_id cur
     \<or> (pid_has_crc pid \<and> element_crc h \<noteq> element_crc cur)
     \<or> (pid_dynamic pid \<and> previous_len_XOR_cur_len h \<noteq> previous_len_XOR_cur_len cur)"

definition filesystem_iterator_check_validity :: "'s storage_ops \<Rightarrow> nat \<Rightarrow> 's filesystem \<Rightarrow> (unit, 's filesystem) outcome" where
  "filesystem_iterator_check_validity so pid fs =
     (if iterator_valid (iter fs pid) \<noteq> ITERATOR_VALID_NUMBER then (Inl NRF_ERROR_INVALID_STATE, fs)
      else if \<not> has_first_element (part fs pid) then
        (Inl NRF_ERROR_INVALID_STATE, upd_iter pid (\<lambda>i. i\<lparr>iterator_valid := 0\<rparr>) fs)
      else
        let cur = cur_element_header (iter fs pid)
        in case filesystem_read_element_header so pid (cur_element_address (iter fs pid)) fs of
             (Inl e, fs) \<Rightarrow>
               if e = NRF_ERROR_NOT_FOUND
               then (Inl NRF_ERROR_INVALID_STATE, upd_iter pid (\<lambda>i. i\<lparr>iterator_valid := 0\<rparr>) fs)
               else (Inl e, fs)
           | (Inr h, fs) \<Rightarrow>
               if header_changed pid h cur
               then (Inl NRF_ERROR_INVALID_STATE, upd_iter pid (\<lambda>i. i\<lparr>iterator_valid := 0\<rparr>) fs)
               else (Inr (), fs))"

text \<open>The three overlap tests of the conflict check, on half-open address ranges.\<close>

definition ranges_conflict :: "nat \<Rightarrow> nat \<Rightarrow> nat \<Rightarrow> nat \<Rightarrow> bool" where
  "ranges_conflict e_start e_end i_start i_end \<longleftrightarrow>
     (e_start \<ge> i_start \<and> e_start < i_end) \<or> (e_end > i_start \<and> e_end \<le> i_end)
     \<or> (e_start \<le> i_start \<and> e_end \<ge> i_end)"

definition filesystem_check_iterator_conflict ::
  "'s storage_ops \<Rightarrow> nat \<Rightarrow> nat \<Rightarrow> nat \<Rightarrow> 's filesystem \<Rightarrow> (unit, 's filesystem) outcome" where
  "filesystem_check_iterator_conflict so pid element_address element_len fs =
     (case filesystem_iterator_check_validity so pid fs of
        (Inl e, fs) \<Rightarrow> if e = NRF_ERROR_INVALID_STATE then (Inr (), fs) else (Inl NRF_ERROR_INTERNAL, fs)
      | (Inr _, fs) \<Rightarrow>
          let start = first_element_address (part fs pid);
              e_end = u32_add (u32_add element_address element_len) (header_len_at pid start element_address);
              i_address = cur_element_address (iter fs pid);
              i_len = u32_add (cur_element_len (iter fs pid)) (header_len_at pid start i_address);
              i_end = u32_add i_address i_len
          in case so_limits so i_address i_len (storage fs) of
               Inl _ \<Rightarrow> (Inl NRF_ERROR_INTERNAL, fs)
             | Inr (i_start, _) \<Rightarrow>
                 if ranges_conflict element_address e_end i_start i_end
                 then (Inl NRF_ERROR_FORBIDDEN, fs) else (Inr (), fs))"

definition filesystem_iterator_init :: "'s storage_ops \<Rightarrow> nat \<Rightarrow> 's filesystem \<Rightarrow> (unit, 's filesystem) outcome" where
  "filesystem_iterator_init so pid fs =
     (let fs = upd_iter pid (\<lambda>i. i\<lparr>iterator_valid := 0\<rparr>) fs
      in if \<not> has_first_element (part fs pid) then (Inl NRF_ERROR_INVALID_STATE, fs)
         else
           let fs = upd_iter pid (\<lambda>i. i\<lparr>cur_element_address := latest_element_address (part fs pid),
                                        cur_element_len := latest_element_len (part fs pid)\<rparr>) fs
           in case filesystem_read_element_header so pid (cur_element_address (iter fs pid)) fs of
                (Inl e, fs) \<Rightarrow> (Inl (if e = NRF_ERROR_NOT_FOUND then NRF_ERROR_INVALID_STATE else e), fs)
              | (Inr h, fs) \<Rightarrow>
                  (Inr (), upd_iter pid (\<lambda>i. i\<lparr>cur_element_header := h,
                                               iterator_valid := ITERATOR_VALID_NUMBER\<rparr>) fs))"

definition filesystem_iterator_next :: "'s storage_ops \<Rightarrow> nat \<Rightarrow> 's filesystem \<Rightarrow> (unit, 's filesystem) outcome" where
  "filesystem_iterator_next so pid fs =
     attempt id (filesystem_iterator_check_validity so pid fs) (\<lambda>_ fs.
     let i = iter fs pid in
     attempt id (filesystem_get_next_element_header so pid (cur_element_address i)
                   (record_id (cur_element_header i)) (cur_element_len i) fs) (\<lambda>(a, h) fs.
     let len = (if pid_dynamic pid then cur_element_len i XOR previous_len_XOR_cur_len h
                else first_element_len (metadata (part fs pid)))
     in (Inr (), upd_iter pid (\<lambda>i. i\<lparr>cur_element_address := a, cur_element_len := len, cur_element_header := h\<rparr>) fs)))"

definition filesystem_iterator_previous :: "'s storage_ops \<Rightarrow> nat \<Rightarrow> 's filesystem \<Rightarrow> (unit, 's filesystem) outcome" where
  "filesystem_iterator_previous so pid fs =
     attempt id (filesystem_iterator_check_validity so pid fs) (\<lambda>_ fs.
     let i = iter fs pid in
     attempt id (filesystem_get_previous_element_header so pid (cur_element_address i)
                   (record_id (cur_element_header i)) (cur_element_len i) fs) (\<lambda>(a, h) fs.
     let len = (if pid_dynamic pid then cur_element_len i XOR previous_len_XOR_cur_len (cur_element_header i)
                else first_element_len (metadata (part fs pid)))
     in if u32_add (u32_add a (filesystem_get_element_header_len pid)) len
            > u32_add (first_element_address (part fs pid)) (partition_size (metadata (part fs pid)))
        then (Inl NRF_ERROR_NOT_FOUND, fs)
        else (Inr (), upd_iter pid (\<lambda>i. i\<lparr>cur_element_address := a, cur_element_len := len, cur_element_header := h\<rparr>) fs)))"

text \<open>Reading the element of the iterator gives its data, its length and its record-id.\<close>

definition filesystem_iterator_read_element ::
  "'s storage_ops \<Rightarrow> nat \<Rightarrow> 's filesystem \<Rightarrow> (byte list \<times> nat \<times> nat, 's filesystem) outcome" where
  "filesystem_iterator_read_element so pid fs =
     attempt id (filesystem_iterator_check_validity so pid fs) (\<lambda>_ fs.
     let a = cur_element_address (iter fs pid);
         len = cur_element_len (iter fs pid);
         h = cur_element_header (iter fs pid)
     in attempt internal (fs_read so (u32_add a (header_len_at pid (first_element_address (part fs pid)) a)) len fs) (\<lambda>d fs.
        if pid_has_crc pid \<and> crc16_compute d None \<noteq> element_crc h
        then (Inl NRF_ERROR_INVALID_DATA, fs)
        else (Inr (d, len, record_id h), fs)))"

section \<open>Storing an element\<close>

text \<open>The address, record-id and length link of the element to be stored.\<close>

definition next_position :: "nat \<Rightarrow> nat \<Rightarrow> partition \<Rightarrow> nat \<times> nat \<times> nat" where
  "next_position pid element_len p =
     (let start = first_element_address p
      in if \<not> has_first_element p then (start, latest_element_record_id p, 0)
         else
           let next_address = u32_add (u32_add (latest_element_address p) (header_len_at pid start (latest_element_address p)))
                                      (latest_element_len p);
               a = (if u32_add (u32_add next_address (filesystem_get_element_header_len pid)) element_len
                         \<le> u32_add start (partition_size (metadata p))
                    then next_address else start)
           in (a, increment_record_id (latest_element_record_id p), latest_element_len p XOR element_len))"

text \<open>The new metadata of a first element, with the CRC over everything behind the CRC field.\<close>

definition first_element_metadata :: "nat \<Rightarrow> nat \<Rightarrow> partition_element_header \<Rightarrow> partition \<Rightarrow> partition_metadata" where
  "first_element_metadata pid element_len h p =
     (let a = first_element_address p;
          md = \<lparr>header_crc = 0, partition_id = pid, partition_size = partition_size (metadata p),
                first_element_len = element_len,
                last_element_address =
                  (if u32_add (u32_add a (PARTITION_METADATA_SIZE + filesystem_get_element_header_len pid)) element_len
                        \<ge> latest_element_address p
                   then a else latest_element_address p)\<rparr>;
          tmp = filesystem_serialize_metadata md @ filesystem_serialize_element_header pid h
      in md\<lparr>header_crc := crc16_compute (drop 2 tmp) None\<rparr>)"

text \<open>Clearing a stale header behind the new element that would be taken for its successor.\<close>

definition clear_stale_successor ::
  "'s storage_ops \<Rightarrow> nat \<Rightarrow> nat \<Rightarrow> nat \<Rightarrow> nat \<Rightarrow> 's filesystem \<Rightarrow> (unit, 's filesystem) outcome" where
  "clear_stale_successor so pid a rid len fs =
     (case filesystem_get_next_element_header so pid a rid len fs of
        (Inr (next_address, _), fs) \<Rightarrow>
          if next_address > a
          then attempt internal (fs_call (so_clear so next_address (filesystem_get_element_header_len pid)) fs) (\<lambda>_ fs. (Inr (), fs))
          else (Inr (), fs)
      | (Inl e, fs) \<Rightarrow> if e = NRF_ERROR_NOT_FOUND then (Inr (), fs) else (Inl e, fs))"

text \<open>The backup of the first header, made when the element starts in the first unit of the partition.\<close>

definition backup_if_first_unit ::
  "'s storage_ops \<Rightarrow> nat \<Rightarrow> nat \<Rightarrow> nat \<Rightarrow> 's filesystem \<Rightarrow> (unit, 's filesystem) outcome" where
  "backup_if_first_unit so pid a len fs =
     (case so_limits so a (u32_add (filesystem_get_element_header_len pid) len) (storage fs) of
        Inl _ \<Rightarrow> (Inl NRF_ERROR_INTERNAL, fs)
      | Inr (unit_start, _) \<Rightarrow>
          if unit_start = first_element_address (part fs pid)
          then attempt internal (filesystem_backup_first_element_header so
                 (filesystem_get_swap_page_address_of_partition pid)
                 (filesystem_serialize_metadata (metadata (part fs pid)) @
                  filesystem_serialize_element_header pid (first_element_header (part fs pid))) fs)
                 (\<lambda>_ fs. (Inr (), fs))
          else (Inr (), fs))"

text \<open>Writing the header (with a read-back check), then the data.\<close>

definition write_element ::
  "'s storage_ops \<Rightarrow> nat \<Rightarrow> nat \<Rightarrow> partition_element_header \<Rightarrow> byte list \<Rightarrow> 's filesystem \<Rightarrow> (unit, 's filesystem) outcome" where
  "write_element so pid a h d fs =
     (let tmp = (if a = first_element_address (part fs pid)
                 then filesystem_serialize_metadata (metadata (part fs pid)) @ filesystem_serialize_element_header pid h
                 else filesystem_serialize_element_header pid h)
      in attempt id (store_verified so a tmp fs) (\<lambda>_ fs.
         attempt internal (fs_store so (u32_add a (length tmp)) d fs) (\<lambda>_ fs. (Inr (), fs))))"

text \<open>From the element CRC to the update of the latest element: the part of a store behind all checks.\<close>

definition place_element ::
  "'s storage_ops \<Rightarrow> nat \<Rightarrow> nat \<Rightarrow> nat \<Rightarrow> nat \<Rightarrow> byte list \<Rightarrow> nat \<Rightarrow> 's filesystem \<Rightarrow> (unit, 's filesystem) outcome" where
  "place_element so pid a rid prev_xor d len fs =
     (let h = \<lparr>record_id = rid, previous_len_XOR_cur_len = prev_xor, element_crc = crc16_compute d None\<rparr>;
          fs = (if a = first_element_address (part fs pid)
                then upd_part pid (\<lambda>p. p\<lparr>metadata := first_element_metadata pid len h p, first_element_header := h\<rparr>) fs
                else fs)
      in attempt id (backup_if_first_unit so pid a len fs) (\<lambda>_ fs.
         attempt id (write_element so pid a h d fs) (\<lambda>_ fs.
         (Inr (), upd_part pid (\<lambda>p. p\<lparr>latest_element_address := a, latest_element_record_id := rid,
                      latest_element_len := len, has_first_element := True\<rparr>) fs))))"

definition filesystem_store_element ::
  "'s storage_ops \<Rightarrow> nat \<Rightarrow> byte list \<Rightarrow> nat \<Rightarrow> 's filesystem \<Rightarrow> (unit, 's filesystem) outcome" where
  "filesystem_store_element so pid element_data element_len fs =
     (if \<not> pid_dynamic pid \<and> element_len \<noteq> 0 \<and> element_len \<noteq> first_element_len (metadata (part fs pid))
      then (Inl NRF_ERROR_INVALID_PARAM, fs)
      else
        let len = (if pid_dynamic pid then element_len else first_element_len (metadata (part fs pid)));
            start = first_element_address (part fs pid);
            limit = u32_add start (partition_size (metadata (part fs pid)));
            (a, rid, prev_xor) = next_position pid len (part fs pid)
        in if u32_add (u32_add a (header_len_at pid start a)) len > limit then (Inl NRF_ERROR_NO_MEM, fs)
           else
             attempt internal (filesystem_check_iterator_conflict so pid a len fs) (\<lambda>_ fs.
             attempt id (clear_stale_successor so pid a rid len fs) (\<lambda>_ fs.
             place_element so pid a rid prev_xor (take len element_data) len fs)))"

section \<open>Clients of the filesystem\<close>

text \<open>
  A partition-id a client may use is one that \<open>filesystem_register_partition\<close> handed out.  A
  step of a client is one call of the interface, whatever it returns.
\<close>

definition registered_in :: "'s filesystem \<Rightarrow> nat \<Rightarrow> bool" where
  "registered_in fs pid \<longleftrightarrow> pid_index pid < number_of_partitions fs \<and> partition_id (metadata (part fs pid)) = pid"

inductive fs_step :: "'s storage_ops \<Rightarrow> 's filesystem \<Rightarrow> 's filesystem \<Rightarrow> bool" for so where
  step_register: "element_len < 65536 \<Longrightarrow>
    fs_step so fs (snd (filesystem_register_partition so required is_dynamic enable_crc element_len fs))"
| step_store: "registered_in fs pid \<Longrightarrow> element_len < 65536 \<Longrightarrow>
    fs_step so fs (snd (filesystem_store_element so pid element_data element_len fs))"
| step_clear: "registered_in fs pid \<Longrightarrow> fs_step so fs (snd (filesystem_clear_partition so pid fs))"
| step_iterator_init: "registered_in fs pid \<Longrightarrow> fs_step so fs (snd (filesystem_iterator_init so pid fs))"
| step_iterator_next: "registered_in fs pid \<Longrightarrow> fs_step so fs (snd (filesystem_iterator_next so pid fs))"
| step_iterator_previous: "registered_in fs pid \<Longrightarrow> fs_step so fs (snd (filesystem_iterator_previous so pid fs))"
| step_iterator_read: "registered_in fs pid \<Longrightarrow> fs_step so fs (snd (filesystem_iterator_read_element so pid fs))"
| step_iterator_invalidate: "registered_in fs pid \<Longrightarrow> fs_step so fs (filesystem_iterator_invalidate pid fs)"

text \<open>The states of a booted filesystem; the arrays of the file have fixed lengths.\<close>

definition fs_arrays :: "'s filesystem \<Rightarrow> bool" where
  "fs_arrays fs \<longleftrightarrow> length (partitions fs) = MAX_NUMBER_OF_PARTITIONS \<and> length (partition_iterators fs) = MAX_NUMBER_OF_PARTITIONS"

inductive fs_reachable :: "'s storage_ops \<Rightarrow> 's filesystem \<Rightarrow> bool" for so where
  booted: "fs_arrays fs0 \<Longrightarrow> filesystem_init so fs0 = (Inr (), fs) \<Longrightarrow> fs_reachable so fs"
| called: "fs_reachable so fs \<Longrightarrow> fs_step so fs fs' \<Longrightarrow> fs_reachable so fs'"

end
