(* ===== verification/FS_Correct.thy ===== *)
theory FS_Correct
  imports Filesystem
begin

text \<open>
  The contract the filesystem has with the storage module, as a locale, and what the filesystem
  guarantees on every storage module that keeps it: operations on a partition stay inside the
  partition and its entry of the swap page, and an element that was stored is read back.
\<close>

section \<open>The contract of a storage module\<close>

text \<open>
  \<open>cont s x\<close> is the byte at address \<open>x\<close>; \<open>ustart a\<close> and \<open>uend a\<close> are the first and the last
  address of the storage unit (a flash page, a byte of EEPROM) around \<open>a\<close>.  A store may erase
  the unit of its last byte behind the data; on an error the touched units are unspecified and
  the module may be left \<open>ready\<close> but not \<open>clean\<close>.
\<close>

locale storage_device =
  fixes so :: "'s storage_ops"
    and cont :: "'s \<Rightarrow> nat \<Rightarrow> byte"
    and ready :: "'s \<Rightarrow> bool"
    and clean :: "'s \<Rightarrow> bool"
    and ustart :: "nat \<Rightarrow> nat"
    and uend :: "nat \<Rightarrow> nat"
  assumes size_bound: "so_get_size so < 2147483648"
    and clean_ready: "clean s \<Longrightarrow> ready s"
    and unit_around: "a < so_get_size so \<Longrightarrow> ustart a \<le> a \<and> a \<le> uend a \<and> uend a < so_get_size so"
    and unit_same: "a < so_get_size so \<Longrightarrow> ustart a \<le> x \<Longrightarrow> x \<le> uend a \<Longrightarrow> ustart x = ustart a \<and> uend x = uend a"
    and limits_law: "ready s \<Longrightarrow> a + n < 4294967296 \<Longrightarrow>
      so_limits so a n s = (if 0 < n \<and> a + n \<le> so_get_size so then Inr (ustart a, uend (a + n - 1))
                            else Inl NRF_ERROR_INVALID_PARAM)"
    and init_law: "so_init so s = (Inr (), s') \<Longrightarrow> clean s' \<and> cont s' = cont s"
    and read_frame: "ready s \<Longrightarrow> so_read so a n s = (r, s') \<Longrightarrow>
      ready s' \<and> (clean s \<longrightarrow> clean s') \<and> cont s' = cont s"
    and read_law: "ready s \<Longrightarrow> a + n < 4294967296 \<Longrightarrow> so_read so a n s = (Inr bs, s') \<Longrightarrow>
      a + n \<le> so_get_size so \<and> bs = map (cont s) [a..<a + n]"
    and store_frame: "ready s \<Longrightarrow> a + length bs < 4294967296 \<Longrightarrow> so_store so a bs s = (res, s') \<Longrightarrow>
      ready s' \<and> (\<forall>x. bs = [] \<or> x < ustart a \<or> uend (a + length bs - 1) < x \<longrightarrow> cont s' x = cont s x)"
    and store_law: "clean s \<Longrightarrow> a + length bs < 4294967296 \<Longrightarrow> so_store so a bs s = (Inr (), s') \<Longrightarrow>
      clean s' \<and> a + length bs \<le> so_get_size so \<and> map (cont s') [a..<a + length bs] = bs
      \<and> (\<forall>x < a. cont s' x = cont s x)"
    and clear_frame: "ready s \<Longrightarrow> a + n < 4294967296 \<Longrightarrow> so_clear so a n s = (res, s') \<Longrightarrow>
      ready s' \<and> (\<forall>x. n = 0 \<or> x < ustart a \<or> uend (a + n - 1) < x \<longrightarrow> cont s' x = cont s x)"
    and clear_law: "clean s \<Longrightarrow> a + n < 4294967296 \<Longrightarrow> so_clear so a n s = (Inr (), s') \<Longrightarrow>
      clean s' \<and> a + n \<le> so_get_size so \<and> (\<forall>x. a \<le> x \<and> x < a + n \<longrightarrow> cont s' x = 0xFF)
      \<and> (\<forall>x < a. cont s' x = cont s x)"

text \<open>A storage state from which reads inside the storage keep succeeding.\<close>

coinductive reads_succeed :: "'s storage_ops \<Rightarrow> 's \<Rightarrow> bool" for so where
  "\<forall>a n. a + n \<le> so_get_size so \<longrightarrow> (\<exists>bs s'. so_read so a n s = (Inr bs, s') \<and> reads_succeed so s') \<Longrightarrow> reads_succeed so s"

lemma reads_succeedD:
  assumes "reads_succeed so s" and "a + n \<le> so_get_size so"
  obtains bs s' where "so_read so a n s = (Inr bs, s')" and "reads_succeed so s'"
  using assms by (cases rule: reads_succeed.cases) blast

section \<open>Records of the filesystem\<close>

named_theorems fs_simps \<open>Access to updated array entries of the filesystem\<close>

lemma part_upd_part [fs_simps]:
  "pid_index pid < length (partitions fs) \<Longrightarrow> part (upd_part pid f fs) pid = f (part fs pid)"
  by (simp add: part_def upd_part_def)

lemma part_upd_other [fs_simps]:
  "pid_index q \<noteq> pid_index pid \<Longrightarrow> part (upd_part pid f fs) q = part fs q"
  by (simp add: part_def upd_part_def)

lemma part_upd_cases:
  "part (upd_part pid f fs) q =
     (if pid_index q = pid_index pid \<and> pid_index pid < length (partitions fs) then f (part fs q) else part fs q)"
  by (auto simp: part_def upd_part_def list_update_beyond)

lemma iter_upd_cases:
  "iter (upd_iter pid f fs) q =
     (if pid_index q = pid_index pid \<and> pid_index pid < length (partition_iterators fs) then f (iter fs q) else iter fs q)"
  by (auto simp: iter_def upd_iter_def list_update_beyond)

lemma iter_upd_iter [fs_simps]:
  "pid_index pid < length (partition_iterators fs) \<Longrightarrow> iter (upd_iter pid f fs) pid = f (iter fs pid)"
  by (simp add: iter_def upd_iter_def)

lemma part_upd_iter [fs_simps, simp]: "part (upd_iter pid f fs) q = part fs q"
  by (simp add: part_def upd_iter_def)

lemma iter_upd_part [fs_simps, simp]: "iter (upd_part pid f fs) q = iter fs q"
  by (simp add: iter_def upd_part_def)

lemma part_storage [simp]: "part (fs\<lparr>storage := s\<rparr>) q = part fs q"
  by (simp add: part_def)

lemma iter_storage [simp]: "iter (fs\<lparr>storage := s\<rparr>) q = iter fs q"
  by (simp add: iter_def)

lemma upd_part_frame [fs_simps, simp]:
  "storage (upd_part pid f fs) = storage fs"
  "next_free_address (upd_part pid f fs) = next_free_address fs"
  "number_of_partitions (upd_part pid f fs) = number_of_partitions fs"
  "partition_iterators (upd_part pid f fs) = partition_iterators fs"
  "length (partitions (upd_part pid f fs)) = length (partitions fs)"
  by (simp_all add: upd_part_def)

lemma upd_iter_frame [fs_simps, simp]:
  "storage (upd_iter pid f fs) = storage fs"
  "next_free_address (upd_iter pid f fs) = next_free_address fs"
  "number_of_partitions (upd_iter pid f fs) = number_of_partitions fs"
  "partitions (upd_iter pid f fs) = partitions fs"
  "length (partition_iterators (upd_iter pid f fs)) = length (partition_iterators fs)"
  by (simp_all add: upd_iter_def)

lemma fs_call_eq: "fs_call f fs = (r, fs') \<longleftrightarrow> (\<exists>s'. f (storage fs) = (r, s') \<and> fs' = fs\<lparr>storage := s'\<rparr>)"
  by (auto simp: fs_call_def split: prod.splits)

text \<open>Calls that change nothing of the filesystem state but the storage below it.\<close>

definition only_storage :: "'s filesystem \<Rightarrow> 's filesystem \<Rightarrow> bool" where
  "only_storage fs fs' \<longleftrightarrow> (\<exists>s. fs' = fs\<lparr>storage := s\<rparr>)"

lemma only_storage_refl [simp, intro]: "only_storage fs fs"
  unfolding only_storage_def by (rule exI[of _ "storage fs"]) simp

lemma only_storage_trans: "only_storage fs fs1 \<Longrightarrow> only_storage fs1 fs2 \<Longrightarrow> only_storage fs fs2"
  by (auto simp: only_storage_def)

lemma only_storage_part: "only_storage fs fs' \<Longrightarrow> part fs' q = part fs q \<and> iter fs' q = iter fs q
    \<and> partitions fs' = partitions fs \<and> partition_iterators fs' = partition_iterators fs"
  by (auto simp: only_storage_def)

lemma only_storage_call [intro]: "only_storage fs (snd (fs_call f fs))"
  by (auto simp: only_storage_def fs_call_def split: prod.splits)

lemma only_storage_attempt:
  assumes "only_storage fs (snd r)" and "\<And>x fs1. r = (Inr x, fs1) \<Longrightarrow> only_storage fs1 (snd (k x fs1))"
  shows "only_storage fs (snd (attempt f r k))"
  using assms by (cases r; cases "fst r") (auto intro: only_storage_trans)

lemma only_storage_store_verified: "only_storage fs (snd (store_verified so a bs fs))"
  unfolding store_verified_def by (intro only_storage_attempt only_storage_call) auto

lemma only_storage_backup: "only_storage fs (snd (filesystem_backup_first_element_header so a bs fs))"
  unfolding filesystem_backup_first_element_header_def Let_def
  by (auto split: sum.splits intro!: only_storage_attempt only_storage_call only_storage_store_verified)

lemma only_storage_backup_if: "only_storage fs (snd (backup_if_first_unit so pid a len fs))"
  unfolding backup_if_first_unit_def by (auto split: sum.splits intro!: only_storage_attempt only_storage_backup)

lemma part_after_update:
  assumes "only_storage fs (snd r)" and "pid_index pid < length (partitions fs)"
  shows "part (snd (attempt f r (\<lambda>_ fs. (Inr (), upd_part pid g fs)))) pid \<in> {part fs pid, g (part fs pid)}"
proof -
  obtain r1 fs1 where r: "r = (r1, fs1)" by fastforce
  with assms(1) have "part fs1 pid = part fs pid" "partitions fs1 = partitions fs"
    using only_storage_part[of fs fs1 pid] by simp_all
  then show ?thesis using assms(2) by (cases r1) (simp_all add: r part_upd_part)
qed

text \<open>
  Calls that only refresh the copies of metadata in memory and may invalidate iterators: the
  cursors of all partitions and the positions of all iterators stay.
\<close>

definition cursors_kept :: "'s filesystem \<Rightarrow> 's filesystem \<Rightarrow> bool" where
  "cursors_kept fs fs' \<longleftrightarrow> (\<forall>q. (part fs' q)\<lparr>metadata := metadata (part fs q)\<rparr> = part fs q)
     \<and> (\<forall>q. (iter fs' q)\<lparr>iterator_valid := iterator_valid (iter fs q)\<rparr> = iter fs q)"

lemma cursors_kept_refl [simp, intro]: "cursors_kept fs fs"
  by (simp add: cursors_kept_def)

lemma cursors_kept_trans: "cursors_kept fs fs1 \<Longrightarrow> cursors_kept fs1 fs2 \<Longrightarrow> cursors_kept fs fs2"
  unfolding cursors_kept_def
  by (metis (no_types, lifting) partition.update_convs(1) partition.select_convs(1) partition.surjective
      partition_iterator.update_convs(4) partition_iterator.select_convs(4) partition_iterator.surjective)

lemma cursors_kept_fields:
  assumes "cursors_kept fs fs'"
  shows "latest_element_address (part fs' q) = latest_element_address (part fs q)"
    "latest_element_record_id (part fs' q) = latest_element_record_id (part fs q)"
    "latest_element_len (part fs' q) = latest_element_len (part fs q)"
    "has_first_element (part fs' q) = has_first_element (part fs q)"
    "cur_element_address (iter fs' q) = cur_element_address (iter fs q)"
    "cur_element_len (iter fs' q) = cur_element_len (iter fs q)"
    "cur_element_header (iter fs' q) = cur_element_header (iter fs q)"
proof -
  from assms have p: "part fs q = (part fs' q)\<lparr>metadata := metadata (part fs q)\<rparr>"
    and i: "iter fs q = (iter fs' q)\<lparr>iterator_valid := iterator_valid (iter fs q)\<rparr>"
    by (simp_all add: cursors_kept_def)
  show "latest_element_address (part fs' q) = latest_element_address (part fs q)"
    "latest_element_record_id (part fs' q) = latest_element_record_id (part fs q)"
    "latest_element_len (part fs' q) = latest_element_len (part fs q)"
    "has_first_element (part fs' q) = has_first_element (part fs q)"
    by (subst p, simp)+
  show "cur_element_address (iter fs' q) = cur_element_address (iter fs q)"
    "cur_element_len (iter fs' q) = cur_element_len (iter fs q)"
    "cur_element_header (iter fs' q) = cur_element_header (iter fs q)"
    by (subst i, simp)+
qed

lemma cursors_kept_storage [intro]: "only_storage fs fs' \<Longrightarrow> cursors_kept fs fs'"
  by (auto simp: only_storage_def cursors_kept_def)

lemma cursors_kept_metadata [intro]: "cursors_kept fs (upd_part pid (\<lambda>p. p\<lparr>metadata := md\<rparr>) fs)"
  by (auto simp: cursors_kept_def part_upd_cases)

lemma cursors_kept_invalidate [intro]: "cursors_kept fs (upd_iter pid (\<lambda>i. i\<lparr>iterator_valid := v\<rparr>) fs)"
  by (auto simp: cursors_kept_def iter_upd_cases)

lemma cursors_kept_attempt:
  assumes "cursors_kept fs (snd r)" and "\<And>x fs1. r = (Inr x, fs1) \<Longrightarrow> cursors_kept fs1 (snd (k x fs1))"
  shows "cursors_kept fs (snd (attempt f r k))"
  using assms by (cases r; cases "fst r") (auto intro: cursors_kept_trans)

lemma cursors_kept_case:
  assumes "cursors_kept fs (snd r)" and "\<And>x fs1. r = (Inr x, fs1) \<Longrightarrow> cursors_kept fs1 (snd (k x fs1))"
    and "\<And>e fs1. r = (Inl e, fs1) \<Longrightarrow> cursors_kept fs1 (snd (l e fs1))"
  shows "cursors_kept fs (snd (case r of (Inl e, fs1) \<Rightarrow> l e fs1 | (Inr x, fs1) \<Rightarrow> k x fs1))"
  using assms by (cases r; cases "fst r") (auto intro: cursors_kept_trans)

lemma cursors_kept_call [intro]: "cursors_kept fs (snd (fs_call f fs))"
  by (rule cursors_kept_storage, rule only_storage_call)

lemma cursors_kept_read_first: "cursors_kept fs (snd (read_first_header so pid a fs))"
  unfolding read_first_header_def by (intro cursors_kept_attempt cursors_kept_call) auto

lemma cursors_kept_read_header: "cursors_kept fs (snd (filesystem_read_element_header so pid a fs))"
  unfolding filesystem_read_element_header_def
  by (auto split: prod.splits intro!: cursors_kept_attempt cursors_kept_call cursors_kept_read_first
      cursors_kept_metadata cursors_kept_storage[OF only_storage_store_verified])

lemma cursors_kept_next: "cursors_kept fs (snd (filesystem_get_next_element_header so pid a rid len fs))"
  unfolding filesystem_get_next_element_header_def Let_def
  by (auto intro!: cursors_kept_attempt cursors_kept_read_header)

lemma cursors_kept_previous: "cursors_kept fs (snd (filesystem_get_previous_element_header so pid a rid len fs))"
  unfolding filesystem_get_previous_element_header_def Let_def
  by (auto intro!: cursors_kept_attempt cursors_kept_read_header)

lemma cursors_kept_validity: "cursors_kept fs (snd (filesystem_iterator_check_validity so pid fs))"
  unfolding filesystem_iterator_check_validity_def Let_def
  by (auto intro!: cursors_kept_case cursors_kept_read_header)

lemma cursors_kept_conflict: "cursors_kept fs (snd (filesystem_check_iterator_conflict so pid a len fs))"
  unfolding filesystem_check_iterator_conflict_def Let_def
  by (intro cursors_kept_case cursors_kept_validity) (auto split: sum.splits)

lemma cursors_kept_clear_stale: "cursors_kept fs (snd (clear_stale_successor so pid a rid len fs))"
proof -
  have "cursors_kept fs1 (snd (attempt internal (fs_call f fs1) (\<lambda>_ fs. (Inr (), fs))))" for f :: "'a \<Rightarrow> (unit, 'a) outcome" and fs1
    by (intro cursors_kept_attempt cursors_kept_call) auto
  then show ?thesis
    using cursors_kept_next[of fs so pid a rid len] unfolding clear_stale_successor_def
    by (auto split: prod.splits sum.splits if_splits intro: cursors_kept_trans)
qed

lemma registered_id_facts:
  assumes "n < MAX_NUMBER_OF_PARTITIONS"
  shows "pid_index (registered_id n is_dynamic enable_crc) = n"
    "pid_dynamic (registered_id n is_dynamic enable_crc) = is_dynamic"
    "pid_has_crc (registered_id n is_dynamic enable_crc) = enable_crc"
    "registered_id n is_dynamic enable_crc < 65536"
proof -
  have n: "take_bit 14 n = n" using assms by (simp add: MAX_NUMBER_OF_PARTITIONS_def take_bit_nat_eq_self)
  then have nb': "bit n k \<Longrightarrow> k < 14" for k by (metis bit_take_bit_iff)
  then have nb: "14 \<le> k \<Longrightarrow> \<not> bit n k" for k by (meson not_less)
  show "pid_index (registered_id n is_dynamic enable_crc) = n"
    unfolding pid_index_def registered_id_def Let_def
    by (rule bit_eqI) (auto simp: bit_simps dest: nb' split: if_splits)
  show "pid_dynamic (registered_id n is_dynamic enable_crc) = is_dynamic"
    "pid_has_crc (registered_id n is_dynamic enable_crc) = enable_crc"
    using nb[of 14] nb[of 15] by (auto simp: pid_dynamic_def pid_has_crc_def registered_id_def Let_def bit_simps)
  have "take_bit 16 (registered_id n is_dynamic enable_crc) = registered_id n is_dynamic enable_crc"
    unfolding registered_id_def Let_def
    by (rule bit_eqI) (auto simp: bit_simps dest: nb' split: if_splits)
  then show "registered_id n is_dynamic enable_crc < 65536"
    using take_bit_nat_less_exp[of 16 "registered_id n is_dynamic enable_crc"] by simp
qed

section \<open>Confinement\<close>

text \<open>
  What no operation on partition \<open>pid\<close> changes of its entry: the address range, the identifier
  and, in a static partition, the element length.
\<close>

definition same_extent :: "nat \<Rightarrow> partition \<Rightarrow> partition \<Rightarrow> bool" where
  "same_extent pid p q \<longleftrightarrow> first_element_address q = first_element_address p
     \<and> partition_size (metadata q) = partition_size (metadata p)
     \<and> partition_id (metadata q) = partition_id (metadata p)
     \<and> (\<not> pid_dynamic pid \<longrightarrow> first_element_len (metadata q) = first_element_len (metadata p))"

definition part_range :: "partition \<Rightarrow> nat set" where
  "part_range p = {first_element_address p ..< first_element_address p + partition_size (metadata p)}"

lemma same_extent_refl [simp]: "same_extent pid p p"
  by (simp add: same_extent_def)

lemma same_extent_trans: "same_extent pid p q \<Longrightarrow> same_extent pid q r \<Longrightarrow> same_extent pid p r"
  by (simp add: same_extent_def)

lemma same_extent_range: "same_extent pid p q \<Longrightarrow> part_range q = part_range p"
  by (simp add: same_extent_def part_range_def)

context storage_device
begin

text \<open>The end of the swap page, and a partition lying behind it on whole units.\<close>

definition swap_end :: nat where
  "swap_end = uend (SWAP_PAGE_SIZE - 1) + 1"

definition well_placed :: "nat \<Rightarrow> partition \<Rightarrow> bool" where
  "well_placed pid p \<longleftrightarrow> (let a = first_element_address p; n = partition_size (metadata p) in
     swap_end \<le> a \<and> a + n \<le> so_get_size so
     \<and> PARTITION_METADATA_SIZE + filesystem_get_element_header_len pid \<le> n
     \<and> ustart a = a \<and> uend (a + n - 1) = a + n - 1
     \<and> (\<not> pid_dynamic pid \<longrightarrow> first_element_len (metadata p) < 65536))"

definition fs_ready :: "nat \<Rightarrow> 's filesystem \<Rightarrow> bool" where
  "fs_ready pid fs \<longleftrightarrow> ready (storage fs) \<and> SWAP_PAGE_SIZE \<le> so_get_size so
     \<and> pid_index pid < length (partitions fs) \<and> pid_index pid < MAX_NUMBER_OF_PARTITIONS
     \<and> length (partition_iterators fs) = length (partitions fs) \<and> well_placed pid (part fs pid)"

definition confined :: "nat \<Rightarrow> 's filesystem \<Rightarrow> 's filesystem \<Rightarrow> bool" where
  "confined pid fs fs' \<longleftrightarrow>
     (fs_ready pid fs \<longrightarrow> ready (storage fs')
        \<and> (\<forall>x \<ge> swap_end. x \<notin> part_range (part fs pid) \<longrightarrow> cont (storage fs') x = cont (storage fs) x))
     \<and> length (partitions fs') = length (partitions fs)
     \<and> length (partition_iterators fs') = length (partition_iterators fs)
     \<and> number_of_partitions fs' = number_of_partitions fs \<and> next_free_address fs' = next_free_address fs
     \<and> (\<forall>q. pid_index q \<noteq> pid_index pid \<longrightarrow> part fs' q = part fs q)
     \<and> same_extent pid (part fs pid) (part fs' pid)"

lemma confined_refl [simp, intro]: "confined pid fs fs"
  by (simp add: confined_def fs_ready_def)

lemma well_placed_extent: "same_extent pid p q \<Longrightarrow> well_placed pid q = well_placed pid p"
  by (simp add: same_extent_def well_placed_def)

lemma confined_ready: "confined pid fs fs' \<Longrightarrow> fs_ready pid fs \<Longrightarrow> fs_ready pid fs'"
  by (auto simp: confined_def fs_ready_def well_placed_extent)

lemma confined_trans [trans]: "confined pid fs fs1 \<Longrightarrow> confined pid fs1 fs2 \<Longrightarrow> confined pid fs fs2"
  using confined_ready[of pid fs fs1]
  by (auto simp: confined_def same_extent_range intro: same_extent_trans)

lemma confined_extent: "confined pid fs fs' \<Longrightarrow> same_extent pid (part fs pid) (part fs' pid)"
  by (simp add: confined_def)

lemma confined_upd_iter [intro]: "confined pid fs (upd_iter pid f fs)"
  by (simp add: confined_def fs_ready_def)

lemma confined_upd_part:
  assumes "same_extent pid (part fs pid) (f (part fs pid))"
  shows "confined pid fs (upd_part pid f fs)"
proof (cases "pid_index pid < length (partitions fs)")
  case True
  then show ?thesis using assms by (simp add: confined_def fs_ready_def fs_simps)
next
  case False
  then have "upd_part pid f fs = fs" by (simp add: upd_part_def list_update_beyond)
  then show ?thesis by simp
qed

text \<open>Sequencing: a sequence of confined calls is confined.\<close>

lemma confined_attempt:
  assumes "fs_ready pid fs" and "confined pid fs (snd r)"
    and "\<And>x fs1. r = (Inr x, fs1) \<Longrightarrow> confined pid fs fs1 \<Longrightarrow> fs_ready pid fs1 \<Longrightarrow> confined pid fs1 (snd (k x fs1))"
  shows "confined pid fs (snd (attempt f r k))"
proof (cases r)
  case (Pair r0 fs1)
  show ?thesis
  proof (cases r0)
    case (Inl e)
    with assms(2) Pair show ?thesis by simp
  next
    case (Inr x)
    from assms(2) Pair have c: "confined pid fs fs1" by simp
    with assms(1) have "fs_ready pid fs1" by (auto dest: confined_ready)
    with c assms(3) Pair Inr have "confined pid fs1 (snd (k x fs1))" by simp
    with c show ?thesis using Pair Inr by (auto intro: confined_trans)
  qed
qed

lemma confined_case:
  assumes "fs_ready pid fs" and "confined pid fs (snd r)"
    and "\<And>x fs1. r = (Inr x, fs1) \<Longrightarrow> confined pid fs fs1 \<Longrightarrow> fs_ready pid fs1 \<Longrightarrow> confined pid fs1 (snd (k x fs1))"
    and "\<And>e fs1. r = (Inl e, fs1) \<Longrightarrow> confined pid fs fs1 \<Longrightarrow> fs_ready pid fs1 \<Longrightarrow> confined pid fs1 (snd (l e fs1))"
  shows "confined pid fs (snd (case r of (Inl e, fs1) \<Rightarrow> l e fs1 | (Inr x, fs1) \<Rightarrow> k x fs1))"
proof (cases r)
  case (Pair r0 fs1)
  with assms(1,2) have c: "confined pid fs fs1" "fs_ready pid fs1" by (auto dest: confined_ready)
  with Pair assms(3,4) show ?thesis by (cases r0) (auto intro: confined_trans)
qed

subsection \<open>Primitive calls\<close>

lemma swap_end_bounds: "SWAP_PAGE_SIZE \<le> so_get_size so \<Longrightarrow> SWAP_PAGE_SIZE \<le> swap_end \<and> swap_end \<le> so_get_size so"
  using unit_around[of "SWAP_PAGE_SIZE - 1"] by (auto simp: swap_end_def SWAP_PAGE_SIZE_def)

lemma uend_mono:
  assumes "a \<le> b" and "b < so_get_size so"
  shows "uend a \<le> uend b"
proof (rule ccontr)
  assume *: "\<not> uend a \<le> uend b"
  with unit_around[of b] assms have "b < uend a" by auto
  with assms unit_around[of a] unit_same[of a b] have "uend b = uend a" by simp
  with * show False by simp
qed

lemma unit_idem:
  assumes "a < so_get_size so"
  shows "uend (uend a) = uend a" "ustart (ustart a) = ustart a"
  using unit_around[OF assms] unit_same[OF assms, of "uend a"] unit_same[OF assms, of "ustart a"] by auto

lemma ustart_mono:
  assumes "a \<le> b" and "b < so_get_size so"
  shows "ustart a \<le> ustart b"
proof (rule ccontr)
  assume *: "\<not> ustart a \<le> ustart b"
  with unit_around[of a] assms have "ustart b < a" by auto
  with assms unit_around[of b] unit_same[of b a] have "ustart b = ustart a" by auto
  with * show False by simp
qed

text \<open>A byte range inside a partition or inside the swap page touches only units of it.\<close>

definition touchable :: "nat \<Rightarrow> partition \<Rightarrow> nat \<Rightarrow> nat \<Rightarrow> bool" where
  "touchable pid p a n \<longleftrightarrow> (first_element_address p \<le> a \<and> a + n \<le> first_element_address p + partition_size (metadata p))
     \<or> a + n \<le> swap_end"

lemma touchable_units:
  assumes "well_placed pid p" and "SWAP_PAGE_SIZE \<le> so_get_size so" and "touchable pid p a n" and "0 < n"
    and "x \<ge> swap_end" and "x \<notin> part_range p"
  shows "x < ustart a \<or> uend (a + n - 1) < x"
proof -
  let ?a = "first_element_address p" and ?n = "partition_size (metadata p)"
  from assms(1) have wp: "swap_end \<le> ?a" "?a + ?n \<le> so_get_size so" "ustart ?a = ?a" "uend (?a + ?n - 1) = ?a + ?n - 1" "0 < ?n"
    using header_len_bounds[of pid] by (auto simp: well_placed_def Let_def PARTITION_METADATA_SIZE_def)
  from assms(3) show ?thesis unfolding touchable_def
  proof (elim disjE conjE)
    assume "?a \<le> a" "a + n \<le> ?a + ?n"
    with wp assms(4) have "?a \<le> ustart a" "uend (a + n - 1) \<le> ?a + ?n - 1"
      using ustart_mono[of ?a a] uend_mono[of "a + n - 1" "?a + ?n - 1"] by auto
    with assms(6) wp(5) show ?thesis by (auto simp: part_range_def)
  next
    assume "a + n \<le> swap_end"
    moreover have sb: "0 < SWAP_PAGE_SIZE" by (simp add: SWAP_PAGE_SIZE_def)
    ultimately have "a + n - 1 \<le> uend (SWAP_PAGE_SIZE - 1)" using assms(4) by (simp add: swap_end_def)
    moreover have "uend (uend (SWAP_PAGE_SIZE - 1)) = uend (SWAP_PAGE_SIZE - 1)"
      "uend (SWAP_PAGE_SIZE - 1) < so_get_size so"
      using unit_around[of "SWAP_PAGE_SIZE - 1"] unit_idem[of "SWAP_PAGE_SIZE - 1"] assms(2) sb by linarith+
    ultimately have "uend (a + n - 1) < swap_end"
      using uend_mono[of "a + n - 1" "uend (SWAP_PAGE_SIZE - 1)"] by (simp add: swap_end_def)
    with assms(5) show ?thesis by simp
  qed
qed

lemma touchable_no_wrap:
  "fs_ready pid fs \<Longrightarrow> touchable pid (part fs pid) a n \<Longrightarrow> a + n \<le> so_get_size so"
  using swap_end_bounds by (auto simp: touchable_def fs_ready_def well_placed_def Let_def)

lemma confined_store:
  assumes "fs_ready pid fs" and "touchable pid (part fs pid) a (length bs)"
  shows "confined pid fs (snd (fs_store so a bs fs))"
proof -
  obtain res s' where st: "so_store so a bs (storage fs) = (res, s')" by fastforce
  have "a + length bs < 4294967296" using touchable_no_wrap[OF assms] size_bound by simp
  with st assms(1) have fr: "ready s'" "\<forall>x. bs = [] \<or> x < ustart a \<or> uend (a + length bs - 1) < x \<longrightarrow> cont s' x = cont (storage fs) x"
    using store_frame[of "storage fs" a bs res s'] by (auto simp: fs_ready_def)
  have "cont s' x = cont (storage fs) x" if "x \<ge> swap_end" "x \<notin> part_range (part fs pid)" for x
    using touchable_units[OF _ _ assms(2) _ that] assms(1) fr(2) by (cases "bs = []") (auto simp: fs_ready_def)
  with fr(1) show ?thesis by (simp add: fs_call_def st confined_def)
qed

lemma confined_clear:
  assumes "fs_ready pid fs" and "touchable pid (part fs pid) a n"
  shows "confined pid fs (snd (fs_call (so_clear so a n) fs))"
proof -
  obtain res s' where st: "so_clear so a n (storage fs) = (res, s')" by fastforce
  have "a + n < 4294967296" using touchable_no_wrap[OF assms] size_bound by simp
  with st assms(1) have fr: "ready s'" "\<forall>x. n = 0 \<or> x < ustart a \<or> uend (a + n - 1) < x \<longrightarrow> cont s' x = cont (storage fs) x"
    using clear_frame[of "storage fs" a n res s'] by (auto simp: fs_ready_def)
  have "cont s' x = cont (storage fs) x" if "x \<ge> swap_end" "x \<notin> part_range (part fs pid)" for x
    using touchable_units[OF _ _ assms(2) _ that] assms(1) fr(2) by (cases "n = 0") (auto simp: fs_ready_def)
  with fr(1) show ?thesis by (simp add: fs_call_def st confined_def)
qed

lemma fs_read_result:
  assumes "fs_read so a n fs = (r, fs')" and "ready (storage fs)" and "a + n < 4294967296"
  obtains s' where "fs' = fs\<lparr>storage := s'\<rparr>" and "ready s'" and "clean (storage fs) \<longrightarrow> clean s'"
    and "cont s' = cont (storage fs)"
    and "\<And>bs. r = Inr bs \<Longrightarrow> a + n \<le> so_get_size so \<and> bs = map (cont (storage fs)) [a..<a + n]"
proof -
  from assms(1) obtain s' where st: "so_read so a n (storage fs) = (r, s')" "fs' = fs\<lparr>storage := s'\<rparr>"
    by (auto simp: fs_call_eq)
  show thesis
    by (rule that[OF st(2)]) (use read_frame[OF assms(2) st(1)] read_law[OF assms(2,3)] st(1) in simp_all)
qed

lemma confined_read:
  assumes "fs_ready pid fs"
  shows "confined pid fs (snd (fs_read so a n fs))"
proof -
  obtain r s' where r: "so_read so a n (storage fs) = (r, s')" by fastforce
  from read_frame[OF _ this] assms show ?thesis by (simp add: fs_ready_def fs_call_def r confined_def)
qed

subsection \<open>Confinement of the internal functions\<close>

lemma ready_addresses:
  assumes "fs_ready pid fs"
  shows "swap_end \<le> first_element_address (part fs pid)"
    "first_element_address (part fs pid) + partition_size (metadata (part fs pid)) \<le> so_get_size so"
    "PARTITION_METADATA_SIZE + filesystem_get_element_header_len pid \<le> partition_size (metadata (part fs pid))"
    "SWAP_PAGE_SIZE \<le> swap_end" "swap_end \<le> so_get_size so"
  using assms swap_end_bounds by (auto simp: fs_ready_def well_placed_def Let_def)

lemma touchable_first:
  "fs_ready pid fs \<Longrightarrow> touchable pid (part fs pid) (first_element_address (part fs pid))
     (PARTITION_METADATA_SIZE + filesystem_get_element_header_len pid)"
  using ready_addresses(3) by (simp add: touchable_def)

lemma touchable_extent: "same_extent pid p q \<Longrightarrow> touchable pid q a n = touchable pid p a n"
  by (simp add: touchable_def same_extent_def)

lemma confined_touchable: "confined pid fs fs' \<Longrightarrow> touchable pid (part fs' pid) a n = touchable pid (part fs pid) a n"
  using touchable_extent confined_extent by blast

lemma confined_store_verified:
  assumes "fs_ready pid fs" and "touchable pid (part fs pid) a (length bs)"
  shows "confined pid fs (snd (store_verified so a bs fs))"
proof -
  have "a + length bs < 4294967296" using touchable_no_wrap[OF assms] size_bound by simp
  then show ?thesis unfolding store_verified_def using assms
    by (intro confined_attempt confined_store confined_read) auto
qed

lemma confined_read_first_header:
  assumes "fs_ready pid fs"
  shows "confined pid fs (snd (read_first_header so pid a fs))"
  using assms unfolding read_first_header_def by (intro confined_attempt confined_read) auto

lemma fs_ready_storage: "fs_ready pid fs \<Longrightarrow> ready (storage fs)"
  by (simp add: fs_ready_def)

lemma fs_read_length:
  assumes "fs_read so a n fs = (Inr bs, fs')" and "fs_ready pid fs" and "a + n < 4294967296"
  shows "length bs = n"
  by (rule fs_read_result[OF assms(1) fs_ready_storage[OF assms(2)] assms(3)]) simp

lemma swap_units:
  assumes "fs_ready pid fs" and "a + n \<le> SWAP_PAGE_SIZE" and "0 < n"
  shows "ustart a \<le> a" "a + n \<le> uend (a + n - 1) + 1" "uend (a + n - 1) + 1 \<le> swap_end"
    "so_limits so a n (storage fs) = Inr (ustart a, uend (a + n - 1))"
proof -
  note b = ready_addresses(4,5)[OF assms(1)]
  with assms(2,3) show "ustart a \<le> a" "a + n \<le> uend (a + n - 1) + 1"
    using unit_around[of a] unit_around[of "a + n - 1"] by linarith+
  have "uend (a + n - 1) \<le> uend (SWAP_PAGE_SIZE - 1)"
    using assms(2,3) b by (intro uend_mono) auto
  then show "uend (a + n - 1) + 1 \<le> swap_end" by (simp add: swap_end_def)
  show "so_limits so a n (storage fs) = Inr (ustart a, uend (a + n - 1))"
    using limits_law[of "storage fs" a n] fs_ready_storage[OF assms(1)] assms(2,3) b size_bound by simp
qed

lemma confined_backup:
  assumes "fs_ready pid fs" and "a + length bs \<le> SWAP_PAGE_SIZE" and "0 < length bs"
  shows "confined pid fs (snd (filesystem_backup_first_element_header so a bs fs))"
proof -
  let ?n = "uend (a + length bs - 1) + 1 - ustart a"
  note b = ready_addresses(4,5)[OF assms(1)] size_bound
  note u = swap_units[OF assms]
  have nw: "u32_add a (length bs) = a + length bs" "a + length bs < 4294967296" using assms(2) b by simp_all
  have un: "u32_sub (u32_add (uend (a + length bs - 1)) 1) (ustart a) = ?n" "ustart a + ?n \<le> swap_end"
    "ustart a + ?n < 4294967296" "u32_sub a (ustart a) = a - ustart a"
    using u b assms(2) nw by simp_all
  show ?thesis
    unfolding filesystem_backup_first_element_header_def nw(1) Let_def
    using assms(1,2) nw(2)
  proof (auto intro!: confined_attempt confined_read)
    fix tmp fs1
    assume rd: "fs_ready pid fs1" and "bs \<noteq> tmp"
    show "confined pid fs1 (snd (case so_limits so a (length bs) (storage fs1) of
        Inl _ \<Rightarrow> (Inl NRF_ERROR_INTERNAL, fs1)
      | Inr (start_unit, end_unit) \<Rightarrow>
          attempt internal (fs_read so start_unit (u32_sub (u32_add end_unit 1) start_unit) fs1)
            (\<lambda>tmp_swap_page. store_verified so start_unit (overwrite tmp_swap_page (u32_sub a start_unit) bs))))"
      unfolding swap_units(4)[OF rd assms(2,3)] sum.case prod.case un(1,4)
    proof (intro confined_attempt confined_read rd un confined_store_verified)
      fix page fs2
      assume r: "fs_read so (ustart a) ?n fs1 = (Inr page, fs2)" and rd2: "fs_ready pid fs2"
      have "length page = ?n" using fs_read_length[OF r rd un(3)] .
      then have "length (overwrite page (a - ustart a) bs) = ?n" using u by simp
      then show "touchable pid (part fs2 pid) (ustart a) (length (overwrite page (a - ustart a) bs))"
        using un(2) by (simp add: touchable_def)
    qed
  qed
qed

lemma swap_address_bound:
  assumes "fs_ready pid fs"
  shows "filesystem_get_swap_page_address_of_partition pid + (PARTITION_METADATA_SIZE + filesystem_get_element_header_len pid)
    \<le> SWAP_PAGE_SIZE"
  using assms header_len_bounds[of pid]
  by (simp add: fs_ready_def filesystem_get_swap_page_address_of_partition_def SWAP_PAGE_SIZE_def
      PARTITION_METADATA_SIZE_def MAX_NUMBER_OF_PARTITIONS_def)

lemma read_first_header_result:
  assumes "read_first_header so pid a fs = (Inr (tmp, md, h), fs')" and "fs_ready pid fs" and "a + 20 < 4294967296"
  shows "tmp = map (cont (storage fs)) [a..<a + (PARTITION_METADATA_SIZE + filesystem_get_element_header_len pid)]
    \<and> md = filesystem_deserialize_metadata tmp
    \<and> h = filesystem_deserialize_element_header pid (drop PARTITION_METADATA_SIZE tmp)
    \<and> cont (storage fs') = cont (storage fs) \<and> (clean (storage fs) \<longrightarrow> clean (storage fs')) \<and> fs' = fs\<lparr>storage := storage fs'\<rparr>
    \<and> a + (PARTITION_METADATA_SIZE + filesystem_get_element_header_len pid) \<le> so_get_size so"
proof -
  note hl = header_len_bounds[of pid]
  let ?hl = "filesystem_get_element_header_len pid"
  from assms(1)[unfolded read_first_header_def] obtain mb fs1 hb fs2 where
    r1: "fs_read so a PARTITION_METADATA_SIZE fs = (Inr mb, fs1)"
    and r2: "fs_read so (u32_add a PARTITION_METADATA_SIZE) ?hl fs1 = (Inr hb, fs2)"
    and eq: "tmp = mb @ hb" "md = filesystem_deserialize_metadata mb" "h = filesystem_deserialize_element_header pid hb" "fs' = fs2"
    by (auto elim!: attempt_success)
  have b1: "a + PARTITION_METADATA_SIZE < 4294967296" using assms(3) by (simp add: PARTITION_METADATA_SIZE_def)
  have ua: "u32_add a PARTITION_METADATA_SIZE = a + PARTITION_METADATA_SIZE" using b1 by simp
  have b2: "a + PARTITION_METADATA_SIZE + ?hl < 4294967296"
    using assms(3) hl by (simp add: PARTITION_METADATA_SIZE_def)
  obtain s1 where s1: "fs1 = fs\<lparr>storage := s1\<rparr>" "ready s1" "clean (storage fs) \<longrightarrow> clean s1" "cont s1 = cont (storage fs)"
    "mb = map (cont (storage fs)) [a..<a + PARTITION_METADATA_SIZE]"
    by (rule fs_read_result[OF r1 fs_ready_storage[OF assms(2)] b1]) simp
  obtain s2 where s2: "fs2 = fs1\<lparr>storage := s2\<rparr>" "clean s1 \<longrightarrow> clean s2" "cont s2 = cont s1"
    "a + PARTITION_METADATA_SIZE + ?hl \<le> so_get_size so"
    "hb = map (cont s1) [a + PARTITION_METADATA_SIZE..<a + PARTITION_METADATA_SIZE + ?hl]"
    by (rule fs_read_result[OF r2[unfolded ua]]) (use s1 b2 in simp_all)
  have "[a..<a + (PARTITION_METADATA_SIZE + ?hl)] = [a..<a + PARTITION_METADATA_SIZE] @ [a + PARTITION_METADATA_SIZE..<a + PARTITION_METADATA_SIZE + ?hl]"
    using upt_add_eq_append[of a "a + PARTITION_METADATA_SIZE" ?hl] by (simp add: add.assoc)
  moreover have "filesystem_deserialize_metadata (mb @ hb) = filesystem_deserialize_metadata mb"
    unfolding s1(5) by (simp add: filesystem_deserialize_metadata_def PARTITION_METADATA_SIZE_def nth_append)
  ultimately show ?thesis unfolding eq s2(1) using s1 s2 by (simp add: add.assoc)
qed

text \<open>The metadata accepted by the checks keep the extent of the partition.\<close>

lemma same_extent_matches:
  "metadata_matches pid md (metadata p) \<Longrightarrow> same_extent pid p (p\<lparr>metadata := md\<rparr>)"
  by (auto simp: metadata_matches_def same_extent_def)

lemma confined_accept:
  "metadata_matches pid md (metadata (part fs pid)) \<Longrightarrow> confined pid fs (upd_part pid (\<lambda>p. p\<lparr>metadata := md\<rparr>) fs)"
  by (rule confined_upd_part) (rule same_extent_matches)

lemma ready_start: "fs_ready pid fs \<Longrightarrow> first_element_address (part fs pid) + 20 < 4294967296"
  using ready_addresses(2) size_bound by fastforce

lemma confined_read_element_header:
  assumes "fs_ready pid fs"
  shows "confined pid fs (snd (filesystem_read_element_header so pid a fs))"
proof (cases "a = first_element_address (part fs pid)")
  case False
  with assms header_len_bounds[of pid] show ?thesis
    by (auto simp: filesystem_read_element_header_def intro!: confined_attempt confined_read)
next
  case True
  have sw: "filesystem_get_swap_page_address_of_partition pid + 20 < 4294967296"
    using swap_address_bound[OF assms(1)] by (simp add: SWAP_PAGE_SIZE_def)
  have restore: "confined pid fs1 (snd (attempt id (store_verified so a tmp fs1)
      (\<lambda>_ fs. (Inr h, upd_part pid (\<lambda>p. p\<lparr>metadata := md\<rparr>) fs))))"
    if "fs_ready pid fs1" "a = first_element_address (part fs1 pid)"
      "length tmp = PARTITION_METADATA_SIZE + filesystem_get_element_header_len pid"
      "metadata_matches pid md (metadata (part fs1 pid))" for tmp md h fs1
  proof (rule confined_attempt[OF that(1)])
    show "confined pid fs1 (snd (store_verified so a tmp fs1))"
      using that by (intro confined_store_verified) (simp_all add: touchable_first)
    fix x fs2 assume "store_verified so a tmp fs1 = (Inr x, fs2)" "confined pid fs1 fs2"
    then have "same_extent pid (part fs1 pid) (part fs2 pid)" by (simp add: confined_def)
    with that(4) have "metadata_matches pid md (metadata (part fs2 pid))"
      by (auto simp: metadata_matches_def same_extent_def)
    then show "confined pid fs2 (snd (Inr h, upd_part pid (\<lambda>p. p\<lparr>metadata := md\<rparr>) fs2))"
      by (simp add: confined_accept)
  qed
  have part1: "part fs1 pid = part fs pid"
    if "read_first_header so pid b fs = (Inr (tmp, md, h), fs1)" "fs_ready pid fs" "b + 20 < 4294967296" for b tmp md h fs1 fs
    using read_first_header_result[OF that] by (metis part_storage)
  show ?thesis unfolding filesystem_read_element_header_def if_P[OF True]
  proof (rule confined_attempt[OF assms confined_read_first_header[OF assms]], clarsimp simp: confined_accept, goal_cases)
    case (1 tmp md h fs1)
    note p1 = part1[OF 1(1) assms ready_start[OF assms, folded True]] and rd1 = 1(3)
    show ?case
    proof (rule confined_attempt[OF 1(3) confined_read_first_header[OF 1(3)]], clarsimp, goal_cases)
      case (1 tmp' md' h' fs2)
      with read_first_header_result[OF 1(1) rd1 sw] part1[OF 1(1) rd1 sw] p1 True show ?case
        by (intro restore) auto
    qed
  qed
qed

lemma header_len_at_le: "header_len_at pid s a \<le> 20"
  using header_len_bounds[of pid] by (simp add: header_len_at_def PARTITION_METADATA_SIZE_def)

lemma confined_next:
  assumes "fs_ready pid fs"
  shows "confined pid fs (snd (filesystem_get_next_element_header so pid cur rid len fs))"
  using assms unfolding filesystem_get_next_element_header_def Let_def
  by (auto intro!: confined_attempt confined_read_element_header)

lemma confined_previous:
  assumes "fs_ready pid fs"
  shows "confined pid fs (snd (filesystem_get_previous_element_header so pid cur rid len fs))"
  using assms unfolding filesystem_get_previous_element_header_def Let_def
  by (auto intro!: confined_attempt confined_read_element_header)

lemma header_ok_deserialize [simp]: "header_ok (filesystem_deserialize_element_header pid t)"
  by (auto simp: header_ok_def filesystem_deserialize_element_header_def Let_def be16_less)

lemma read_element_header_ok:
  assumes "filesystem_read_element_header so pid a fs = (Inr h, fs')"
  shows "header_ok h"
  using assms unfolding filesystem_read_element_header_def read_first_header_def
  by (auto elim!: attempt_success split: if_splits)

lemma xor_less_65536: "(a :: nat) < 65536 \<Longrightarrow> b < 65536 \<Longrightarrow> a XOR b < 65536"
  using take_bit_nat_less_exp[of 16 "a XOR b"] take_bit_nat_eq_self[of a 16] take_bit_nat_eq_self[of b 16]
  by (simp add: take_bit_xor)

text \<open>The length the code derives for a neighbouring element.\<close>

lemma neighbour_len_less:
  assumes "fs_ready pid fs" and "header_ok h" and "len < 65536"
  shows "(if pid_dynamic pid then len XOR previous_len_XOR_cur_len h else first_element_len (metadata (part fs pid))) < 65536"
  using assms by (auto simp: fs_ready_def well_placed_def Let_def header_ok_def xor_less_65536)

lemma next_result:
  assumes "filesystem_get_next_element_header so pid cur rid len fs = (Inr (a, h), fs')"
    and "fs_ready pid fs" and "cur \<le> so_get_size so" and "len < 65536"
  shows "header_ok h \<and> (a = first_element_address (part fs pid)
    \<or> a = cur + header_len_at pid (first_element_address (part fs pid)) cur + len
      \<and> a + filesystem_get_element_header_len pid \<le> first_element_address (part fs pid) + partition_size (metadata (part fs pid)))"
proof -
  let ?s = "first_element_address (part fs pid)" and ?n = "partition_size (metadata (part fs pid))"
  let ?hl = "filesystem_get_element_header_len pid" and ?b = "cur + header_len_at pid ?s cur + len"
  note bd = header_len_at_le[of pid ?s cur] header_len_bounds[of pid] ready_addresses(2)[OF assms(2)] size_bound assms(3,4)
  have nw: "u32_add (u32_add cur (header_len_at pid ?s cur)) len = ?b" "?b + 20 < 4294967296" "u32_add ?s ?n = ?s + ?n"
    using bd by simp_all
  show ?thesis
    using assms(1)[unfolded filesystem_get_next_element_header_def Let_def nw(1)]
  proof (rule attempt_success)
    fix h1 fs1
    assume r1: "filesystem_read_element_header so pid ?b fs = (Inr h1, fs1)"
      and k: "(if record_id h1 = increment_record_id rid \<and>
            u32_add (u32_add ?b ?hl) (if pid_dynamic pid then len XOR previous_len_XOR_cur_len h1
              else first_element_len (metadata (part fs1 pid))) \<le> u32_add ?s ?n
          then (Inr (?b, h1), fs1)
          else attempt id (filesystem_read_element_header so pid ?s fs1) (\<lambda>h fs.
            if record_id h = increment_record_id rid then (Inr (?s, h), fs) else (Inl NRF_ERROR_NOT_FOUND, fs))) = (Inr (a, h), fs')"
    have "confined pid fs fs1" using confined_read_element_header[OF assms(2)] r1 by (metis snd_conv)
    with assms(2) have "fs_ready pid fs1" by (rule confined_ready[rotated])
    from neighbour_len_less[OF this read_element_header_ok[OF r1] assms(4)]
    have le: "u32_add (u32_add ?b ?hl) (if pid_dynamic pid then len XOR previous_len_XOR_cur_len h1
        else first_element_len (metadata (part fs1 pid))) \<le> u32_add ?s ?n \<Longrightarrow> ?b + ?hl \<le> ?s + ?n"
      using bd by simp
    show ?thesis
      using k le read_element_header_ok[OF r1]
      by (auto split: if_splits elim!: attempt_success dest: read_element_header_ok)
  qed
qed

lemma confined_clear_stale:
  assumes "fs_ready pid fs" and "first_element_address (part fs pid) \<le> a" and "a \<le> so_get_size so" and "len < 65536"
  shows "confined pid fs (snd (clear_stale_successor so pid a rid len fs))"
proof -
  have c: "confined pid fs (snd (filesystem_get_next_element_header so pid a rid len fs))"
    using assms size_bound by (intro confined_next) auto
  have "confined pid fs (snd (attempt internal
      (fs_call (so_clear so b (filesystem_get_element_header_len pid)) fs1) (\<lambda>_ fs. (Inr (), fs))))"
    if n: "filesystem_get_next_element_header so pid a rid len fs = (Inr (b, h), fs1)" and "a < b"
      and "confined pid fs fs1" for b h fs1
  proof -
    have rd: "fs_ready pid fs1" using that(3) assms(1) by (rule confined_ready)
    have "touchable pid (part fs1 pid) b (filesystem_get_element_header_len pid)"
      using next_result[OF n assms(1,3,4)] that assms(2) confined_extent[OF that(3)]
      by (auto simp: touchable_def same_extent_def)
    then have "confined pid fs1 (snd (attempt internal
      (fs_call (so_clear so b (filesystem_get_element_header_len pid)) fs1) (\<lambda>_ fs. (Inr (), fs))))"
      using rd by (auto intro!: confined_attempt confined_clear)
    with that(3) show ?thesis by (rule confined_trans)
  qed
  then show ?thesis unfolding clear_stale_successor_def
    using c by (auto split: prod.splits sum.splits if_splits)
qed

subsection \<open>Confinement of the operations\<close>

lemma confined_validity:
  assumes "fs_ready pid fs"
  shows "confined pid fs (snd (filesystem_iterator_check_validity so pid fs))"
  using assms unfolding filesystem_iterator_check_validity_def Let_def
  by (auto intro!: confined_case confined_read_element_header)

lemma confined_conflict:
  assumes "fs_ready pid fs"
  shows "confined pid fs (snd (filesystem_check_iterator_conflict so pid a len fs))"
  using assms unfolding filesystem_check_iterator_conflict_def Let_def
  by (intro confined_case confined_validity) (auto split: sum.splits)

lemma length_first_header [simp]:
  "length (filesystem_serialize_metadata md @ filesystem_serialize_element_header pid h)
     = PARTITION_METADATA_SIZE + filesystem_get_element_header_len pid"
  by (simp add: PARTITION_METADATA_SIZE_def)

lemma confined_backup_if:
  assumes "fs_ready pid fs"
  shows "confined pid fs (snd (backup_if_first_unit so pid a len fs))"
proof -
  have "confined pid fs (snd (filesystem_backup_first_element_header so
          (filesystem_get_swap_page_address_of_partition pid)
          (filesystem_serialize_metadata md @ filesystem_serialize_element_header pid h) fs))" for md h
    using swap_address_bound[OF assms] by (intro confined_backup[OF assms]) (simp_all add: PARTITION_METADATA_SIZE_def)
  then show ?thesis unfolding backup_if_first_unit_def
    using assms by (auto split: sum.splits intro!: confined_attempt)
qed

lemma confined_write_element:
  assumes "fs_ready pid fs"
    and "touchable pid (part fs pid) a (header_len_at pid (first_element_address (part fs pid)) a + length d)"
  shows "confined pid fs (snd (write_element so pid a h d fs))"
proof -
  let ?tmp = "if a = first_element_address (part fs pid)
    then filesystem_serialize_metadata (metadata (part fs pid)) @ filesystem_serialize_element_header pid h
    else filesystem_serialize_element_header pid h"
  have len: "length ?tmp = header_len_at pid (first_element_address (part fs pid)) a"
    by (simp add: header_len_at_def PARTITION_METADATA_SIZE_def)
  have nw: "a + length ?tmp + length d \<le> so_get_size so" using touchable_no_wrap[OF assms] len by simp
  then have ua: "u32_add a (length ?tmp) = a + length ?tmp" using size_bound by simp
  have "touchable pid (part fs pid) a (length ?tmp)" "touchable pid (part fs pid) (a + length ?tmp) (length d)"
    using assms(2) unfolding len by (auto simp: touchable_def)
  then show ?thesis unfolding write_element_def Let_def ua using assms(1)
    by (intro confined_attempt confined_store_verified confined_store) (auto simp: confined_touchable)
qed

text \<open>The cursor of a partition: the latest element lies in the partition, and the widths are right.\<close>

definition cursor_ok :: "partition \<Rightarrow> bool" where
  "cursor_ok p \<longleftrightarrow> first_element_address p \<le> latest_element_address p
     \<and> latest_element_address p \<le> first_element_address p + partition_size (metadata p)
     \<and> latest_element_len p < 65536 \<and> latest_element_record_id p < 65536"

lemma next_position_bounds:
  assumes "next_position pid len p = (a, rid, px)" and "well_placed pid p" and "cursor_ok p" and "len < 65536"
  shows "first_element_address p \<le> a" "a \<le> so_get_size so" "rid < 65536" "px < 65536"
    "u32_add (u32_add a (header_len_at pid (first_element_address p) a)) len = a + header_len_at pid (first_element_address p) a + len"
    "u32_add (first_element_address p) (partition_size (metadata p)) = first_element_address p + partition_size (metadata p)"
proof -
  let ?s = "first_element_address p" and ?n = "partition_size (metadata p)"
  let ?b = "u32_add (u32_add (latest_element_address p) (header_len_at pid ?s (latest_element_address p))) (latest_element_len p)"
  have wp: "?s + ?n \<le> so_get_size so" using assms(2) by (simp add: well_placed_def Let_def)
  have co: "?s \<le> latest_element_address p" "latest_element_address p \<le> ?s + ?n" "latest_element_len p < 65536"
    "latest_element_record_id p < 65536" using assms(3) by (simp_all add: cursor_ok_def)
  note hl = header_len_at_le[of pid ?s "latest_element_address p"] header_len_at_le[of pid ?s a] header_len_bounds[of pid]
  have b: "?b = latest_element_address p + header_len_at pid ?s (latest_element_address p) + latest_element_len p"
    using wp co hl size_bound by simp
  show lim: "u32_add ?s ?n = ?s + ?n" using wp size_bound by simp
  have a: "a = ?s \<or> a = ?b \<and> ?b + filesystem_get_element_header_len pid + len \<le> ?s + ?n"
    using assms(1) b lim wp co hl size_bound assms(4) by (auto simp: next_position_def Let_def split: if_splits)
  with b co show "?s \<le> a" by auto
  from a b wp show ale: "a \<le> so_get_size so" by auto
  then show "u32_add (u32_add a (header_len_at pid ?s a)) len = a + header_len_at pid ?s a + len"
    using hl assms(4) size_bound by simp
  show "rid < 65536" "px < 65536"
    using assms(1,4) co valid_rid_less[OF valid_rid_increment]
    by (auto simp: next_position_def Let_def xor_less_65536 split: if_splits)
qed

lemma same_extent_first_metadata:
  assumes "partition_id (metadata p) = pid" and "\<not> pid_dynamic pid \<longrightarrow> len = first_element_len (metadata p)"
  shows "same_extent pid p (p\<lparr>metadata := first_element_metadata pid len h p, first_element_header := h\<rparr>)"
  using assms by (simp add: same_extent_def first_element_metadata_def Let_def)

lemma confined_place_element:
  assumes rd: "fs_ready pid fs" and pid: "partition_id (metadata (part fs pid)) = pid"
    and len: "\<not> pid_dynamic pid \<longrightarrow> len = first_element_len (metadata (part fs pid))" and d: "length d \<le> len"
    and fit: "first_element_address (part fs pid) \<le> a"
      "a + header_len_at pid (first_element_address (part fs pid)) a + len \<le> first_element_address (part fs pid) + partition_size (metadata (part fs pid))"
  shows "confined pid fs (snd (place_element so pid a rid px d len fs))"
proof -
  let ?h = "\<lparr>record_id = rid, previous_len_XOR_cur_len = px, element_crc = crc16_compute d None\<rparr>"
  let ?u = "if a = first_element_address (part fs pid)
    then upd_part pid (\<lambda>p. p\<lparr>metadata := first_element_metadata pid len ?h p, first_element_header := ?h\<rparr>) fs else fs"
  have c: "confined pid fs ?u"
    using pid len by (auto intro!: confined_upd_part same_extent_first_metadata)
  have rdu: "fs_ready pid ?u" by (rule confined_ready[OF c rd])
  have t: "touchable pid (part fs1 pid) a (header_len_at pid (first_element_address (part fs1 pid)) a + length d)"
    if "confined pid ?u fs1" for fs1
    using confined_extent[OF confined_trans[OF c that]] fit d by (auto simp: touchable_def same_extent_def)
  have "confined pid ?u (snd (attempt id (backup_if_first_unit so pid a len ?u) (\<lambda>_ fs.
         attempt id (write_element so pid a ?h d fs) (\<lambda>_ fs.
         (Inr (), upd_part pid (\<lambda>p. p\<lparr>latest_element_address := a, latest_element_record_id := rid,
                      latest_element_len := len, has_first_element := True\<rparr>) fs)))))"
    by (intro confined_attempt rdu confined_backup_if confined_write_element t)
      (auto intro!: confined_upd_part simp: same_extent_def)
  with c show ?thesis unfolding place_element_def Let_def by (rule confined_trans)
qed

lemma confined_store_element:
  assumes rd: "fs_ready pid fs" and co: "cursor_ok (part fs pid)" and "element_len < 65536"
    and pid: "partition_id (metadata (part fs pid)) = pid"
  shows "confined pid fs (snd (filesystem_store_element so pid element_data element_len fs))"
proof -
  let ?p = "part fs pid"
  let ?len = "if pid_dynamic pid then element_len else first_element_len (metadata ?p)"
  obtain a rid px where np: "next_position pid ?len ?p = (a, rid, px)" by (metis prod_cases3)
  have wp: "well_placed pid ?p" using rd by (simp add: fs_ready_def)
  then have len: "?len < 65536" using assms(3) by (simp add: well_placed_def Let_def)
  note b = next_position_bounds[OF np wp co len]
  show ?thesis
  proof (cases "a + header_len_at pid (first_element_address ?p) a + ?len \<le> first_element_address ?p + partition_size (metadata ?p)")
    case False
    then show ?thesis by (simp add: filesystem_store_element_def Let_def np b)
  next
    case True
    have place: "confined pid fs2 (snd (place_element so pid a rid px (take ?len element_data) ?len fs2))"
      if "confined pid fs fs1" "confined pid fs1 fs2" "fs_ready pid fs2" for fs1 fs2
      using confined_extent[OF confined_trans[OF that(1,2)]] pid b(1) True
      by (intro confined_place_element that(3)) (auto simp: same_extent_def)
    have clr: "confined pid fs1 (snd (clear_stale_successor so pid a rid ?len fs1))"
      if "confined pid fs fs1" "fs_ready pid fs1" for fs1
      using confined_extent[OF that(1)] b(1,2) len by (intro confined_clear_stale that(2)) (auto simp: same_extent_def)
    have "confined pid fs (snd (attempt internal (filesystem_check_iterator_conflict so pid a ?len fs) (\<lambda>_ fs.
             attempt id (clear_stale_successor so pid a rid ?len fs) (\<lambda>_ fs.
             place_element so pid a rid px (take ?len element_data) ?len fs))))"
      by (intro confined_attempt rd confined_conflict clr place)
    with True show ?thesis
      unfolding filesystem_store_element_def Let_def np prod.case b(5,6) by simp
  qed
qed

subsection \<open>A storage module is left clean unless an operation reports an internal error\<close>

definition tidy :: "'s filesystem \<Rightarrow> ('a, 's filesystem) outcome \<Rightarrow> bool" where
  "tidy fs r \<longleftrightarrow> (clean (storage fs) \<and> fst r \<noteq> Inl NRF_ERROR_INTERNAL \<longrightarrow> clean (storage (snd r)))"

definition tidy_success :: "'s filesystem \<Rightarrow> ('a, 's filesystem) outcome \<Rightarrow> bool" where
  "tidy_success fs r \<longleftrightarrow> (clean (storage fs) \<and> (\<exists>x. fst r = Inr x) \<longrightarrow> clean (storage (snd r)))"

lemma tidyI [intro]: "tidy fs r \<Longrightarrow> tidy_success fs r"
  by (auto simp: tidy_def tidy_success_def)

lemma tidy_return [simp]: "tidy fs (r, fs)" "tidy fs (r, upd_part pid f fs)" "tidy fs (r, upd_iter pid g fs)"
  by (simp_all add: tidy_def)

lemma tidy_trans: "clean (storage fs) \<longrightarrow> clean (storage fs1) \<Longrightarrow> tidy fs1 r \<Longrightarrow> tidy fs r"
  by (simp add: tidy_def)

lemma tidy_internal:
  assumes "fs_ready pid fs" and "confined pid fs (snd r)" and "tidy_success fs r"
    and "\<And>x fs1. r = (Inr x, fs1) \<Longrightarrow> confined pid fs fs1 \<Longrightarrow> fs_ready pid fs1 \<Longrightarrow> tidy fs1 (k x fs1)"
  shows "tidy fs (attempt internal r k)"
proof (cases r)
  case (Pair r0 fs1)
  with assms(1,2) have "confined pid fs fs1" "fs_ready pid fs1" by (auto dest: confined_ready)
  with Pair assms(3,4) show ?thesis by (cases r0) (auto simp: tidy_def tidy_success_def)
qed

lemma tidy_case:
  assumes "fs_ready pid fs" and "confined pid fs (snd r)" and "tidy fs r"
    and "\<And>x fs1. r = (Inr x, fs1) \<Longrightarrow> confined pid fs fs1 \<Longrightarrow> fs_ready pid fs1 \<Longrightarrow> tidy fs1 (k x fs1)"
    and "\<And>e fs1. r = (Inl e, fs1) \<Longrightarrow> e \<noteq> NRF_ERROR_INTERNAL \<Longrightarrow> tidy fs1 (l e fs1)"
    and "\<And>fs1. r = (Inl NRF_ERROR_INTERNAL, fs1) \<Longrightarrow> fst (l NRF_ERROR_INTERNAL fs1) = Inl NRF_ERROR_INTERNAL"
  shows "tidy fs (case r of (Inl e, fs1) \<Rightarrow> l e fs1 | (Inr x, fs1) \<Rightarrow> k x fs1)"
proof (cases r)
  case (Pair r0 fs1)
  with assms(1,2) have c: "confined pid fs fs1" "fs_ready pid fs1" by (auto dest: confined_ready)
  show ?thesis
  proof (cases r0)
    case (Inl e)
    with Pair assms(3,5,6) show ?thesis by (cases "e = NRF_ERROR_INTERNAL") (auto simp: tidy_def)
  next
    case (Inr x)
    with Pair c assms(3,4) show ?thesis by (auto simp: tidy_def)
  qed
qed

lemma tidy_id:
  assumes "fs_ready pid fs" and "confined pid fs (snd r)" and "tidy fs r"
    and "\<And>x fs1. r = (Inr x, fs1) \<Longrightarrow> confined pid fs fs1 \<Longrightarrow> fs_ready pid fs1 \<Longrightarrow> tidy fs1 (k x fs1)"
  shows "tidy fs (attempt id r k)"
  unfolding attempt_def by (rule tidy_case[OF assms]) auto

lemma tidy_read:
  assumes "fs_ready pid fs"
  shows "tidy fs (fs_read so a n fs)"
proof -
  obtain r s' where r: "so_read so a n (storage fs) = (r, s')" by fastforce
  from read_frame[OF _ this] assms show ?thesis by (simp add: fs_ready_def fs_call_def r tidy_def)
qed

lemma tidy_store:
  assumes "a + length bs < 4294967296"
  shows "tidy_success fs (fs_store so a bs fs)"
  using store_law[OF _ assms] by (auto simp: tidy_success_def fs_call_def split: prod.splits)

lemma tidy_clear:
  assumes "a + n < 4294967296"
  shows "tidy_success fs (fs_call (so_clear so a n) fs)"
  using clear_law[OF _ assms] by (auto simp: tidy_success_def fs_call_def split: prod.splits)

lemma tidy_store_verified:
  assumes "fs_ready pid fs" and "touchable pid (part fs pid) a (length bs)"
  shows "tidy fs (store_verified so a bs fs)"
proof -
  have "a + length bs < 4294967296" using touchable_no_wrap[OF assms] size_bound by simp
  then show ?thesis unfolding store_verified_def using assms
    by (intro tidy_internal[of pid] confined_store confined_read tidy_store) (auto intro!: tidyI tidy_read)
qed

lemma tidy_read_first_header:
  assumes "fs_ready pid fs"
  shows "tidy fs (read_first_header so pid a fs)"
  using assms unfolding read_first_header_def by (intro tidy_internal[of pid] confined_read tidyI tidy_read) auto

lemma tidy_backup:
  assumes "fs_ready pid fs" and "a + length bs \<le> SWAP_PAGE_SIZE" and "0 < length bs"
  shows "tidy fs (filesystem_backup_first_element_header so a bs fs)"
proof -
  let ?n = "uend (a + length bs - 1) + 1 - ustart a"
  note b = ready_addresses(4,5)[OF assms(1)] size_bound
  note u = swap_units[OF assms]
  have nw: "u32_add a (length bs) = a + length bs" "a + length bs < 4294967296" using assms(2) b by simp_all
  have un: "u32_sub (u32_add (uend (a + length bs - 1)) 1) (ustart a) = ?n" "ustart a + ?n \<le> swap_end"
    "ustart a + ?n < 4294967296" "u32_sub a (ustart a) = a - ustart a"
    using u b assms(2) nw by simp_all
  have page: "touchable pid (part fs2 pid) (ustart a) (length (overwrite page (a - ustart a) bs))"
    if "fs_read so (ustart a) ?n fs1 = (Inr page, fs2)" "fs_ready pid fs1" for fs1 fs2 page
    using fs_read_length[OF that un(3)] u un(2) by (simp add: touchable_def)
  have inner: "tidy fs1 (case so_limits so a (length bs) (storage fs1) of
        Inl _ \<Rightarrow> (Inl NRF_ERROR_INTERNAL, fs1)
      | Inr (start_unit, end_unit) \<Rightarrow>
          attempt internal (fs_read so start_unit (u32_sub (u32_add end_unit 1) start_unit) fs1)
            (\<lambda>tmp_swap_page. store_verified so start_unit (overwrite tmp_swap_page (u32_sub a start_unit) bs)))"
    if rd: "fs_ready pid fs1" for fs1
    unfolding swap_units(4)[OF rd assms(2,3)] sum.case prod.case un(1,4)
    by (intro tidy_internal[of pid] confined_read rd un tidyI tidy_read[of pid] tidy_store_verified[of pid] page[OF _ rd])
  show ?thesis
    unfolding filesystem_backup_first_element_header_def nw(1) Let_def
    using assms(1,2) nw(2) by (auto intro!: tidy_internal[of pid] confined_read tidyI tidy_read inner)
qed

lemma tidy_read_element_header:
  assumes "fs_ready pid fs"
  shows "tidy fs (filesystem_read_element_header so pid a fs)"
proof (cases "a = first_element_address (part fs pid)")
  case False
  with assms header_len_bounds[of pid] show ?thesis
    by (auto simp: filesystem_read_element_header_def intro!: tidy_internal[of pid] confined_read tidyI tidy_read)
next
  case True
  have sw: "filesystem_get_swap_page_address_of_partition pid + 20 < 4294967296"
    using swap_address_bound[OF assms(1)] by (simp add: SWAP_PAGE_SIZE_def)
  show ?thesis unfolding filesystem_read_element_header_def if_P[OF True]
  proof (rule tidy_id[OF assms(1) confined_read_first_header[OF assms] tidy_read_first_header[OF assms]], clarsimp, goal_cases)
    case (1 tmp md h fs1)
    note rd1 = 1(3) and c1 = 1(2)
    show ?case
    proof (rule tidy_id[OF rd1 confined_read_first_header[OF rd1] tidy_read_first_header[OF rd1]], clarsimp, goal_cases)
      case (1 tmp' md' h' fs2)
      have "touchable pid (part fs2 pid) a (length tmp')"
        using read_first_header_result[OF 1(1) rd1 sw] touchable_first[OF 1(3)] True
          confined_extent[OF confined_trans[OF c1 1(2)]] by (simp add: same_extent_def)
      with 1 show ?case
        by (intro tidy_id[of pid] confined_store_verified tidy_store_verified) auto
    qed
  qed
qed

lemma tidy_next:
  assumes "fs_ready pid fs"
  shows "tidy fs (filesystem_get_next_element_header so pid cur rid len fs)"
  using assms unfolding filesystem_get_next_element_header_def Let_def
  by (auto intro!: tidy_id[of pid] confined_read_element_header tidy_read_element_header)

lemma tidy_clear_stale:
  assumes "fs_ready pid fs" and "first_element_address (part fs pid) \<le> a" and "a \<le> so_get_size so" and "len < 65536"
  shows "tidy fs (clear_stale_successor so pid a rid len fs)"
proof -
  have "tidy fs1 (attempt internal (fs_call (so_clear so b (filesystem_get_element_header_len pid)) fs1) (\<lambda>_ fs. (Inr (), fs)))"
    if n: "filesystem_get_next_element_header so pid a rid len fs = (Inr (b, h), fs1)" and "a < b"
      and c: "confined pid fs fs1" for b h fs1
  proof -
    have rd: "fs_ready pid fs1" using c assms(1) by (rule confined_ready)
    have "touchable pid (part fs1 pid) b (filesystem_get_element_header_len pid)"
      using next_result[OF n assms(1,3,4)] that assms(2) confined_extent[OF c]
      by (auto simp: touchable_def same_extent_def)
    moreover from touchable_no_wrap[OF rd this] size_bound have "b + filesystem_get_element_header_len pid < 4294967296" by simp
    ultimately show ?thesis using rd by (auto intro!: tidy_internal[of pid] confined_clear tidy_clear)
  qed
  moreover have "confined pid fs (snd (filesystem_get_next_element_header so pid a rid len fs))"
    by (rule confined_next[OF assms(1)])
  ultimately show ?thesis unfolding clear_stale_successor_def
    using tidy_next[OF assms(1), of a rid len]
    by (auto split: prod.splits sum.splits if_splits intro: tidy_trans simp: tidy_def)
qed

lemma tidy_validity:
  assumes "fs_ready pid fs"
  shows "tidy fs (filesystem_iterator_check_validity so pid fs)"
  using assms unfolding filesystem_iterator_check_validity_def Let_def
  by (auto intro!: tidy_case[of pid] confined_read_element_header tidy_read_element_header)

lemma tidy_conflict:
  assumes "fs_ready pid fs"
  shows "tidy fs (filesystem_check_iterator_conflict so pid a len fs)"
  using assms unfolding filesystem_check_iterator_conflict_def Let_def
  by (intro tidy_case[of pid] confined_validity tidy_validity) (auto split: sum.splits)

lemma tidy_backup_if:
  assumes "fs_ready pid fs"
  shows "tidy fs (backup_if_first_unit so pid a len fs)"
proof -
  have "confined pid fs (snd (filesystem_backup_first_element_header so
          (filesystem_get_swap_page_address_of_partition pid)
          (filesystem_serialize_metadata md @ filesystem_serialize_element_header pid h) fs))"
    "tidy fs (filesystem_backup_first_element_header so
          (filesystem_get_swap_page_address_of_partition pid)
          (filesystem_serialize_metadata md @ filesystem_serialize_element_header pid h) fs)" for md h
    using swap_address_bound[OF assms]
    by (intro confined_backup[OF assms] tidy_backup[OF assms]; simp add: PARTITION_METADATA_SIZE_def)+
  then show ?thesis unfolding backup_if_first_unit_def
    using assms by (auto split: sum.splits intro!: tidy_internal[of pid])
qed

subsection \<open>What a successful store leaves in the storage\<close>

lemma fs_store_effect:
  assumes "fs_store so a bs fs = (Inr (), fs')" and "clean (storage fs)" and "a + length bs < 4294967296"
  shows "clean (storage fs')" "map (cont (storage fs')) [a..<a + length bs] = bs"
    "\<forall>x < a. cont (storage fs') x = cont (storage fs) x" "fs' = fs\<lparr>storage := storage fs'\<rparr>"
    "a + length bs \<le> so_get_size so"
proof -
  from assms(1) obtain s' where s': "so_store so a bs (storage fs) = (Inr (), s')" "fs' = fs\<lparr>storage := s'\<rparr>"
    by (auto simp: fs_call_eq)
  from store_law[OF assms(2,3) s'(1)]
  show "clean (storage fs')" "map (cont (storage fs')) [a..<a + length bs] = bs"
    "\<forall>x < a. cont (storage fs') x = cont (storage fs) x" "fs' = fs\<lparr>storage := storage fs'\<rparr>"
    "a + length bs \<le> so_get_size so"
    by (simp_all add: s'(2))
qed

lemma store_verified_effect:
  assumes "store_verified so a bs fs = (Inr (), fs')" and "clean (storage fs)" and "a + length bs < 4294967296"
  shows "clean (storage fs')" "map (cont (storage fs')) [a..<a + length bs] = bs"
    "\<forall>x < a. cont (storage fs') x = cont (storage fs) x" "fs' = fs\<lparr>storage := storage fs'\<rparr>"
proof -
  from assms(1)[unfolded store_verified_def] obtain fs1 rd where
    1: "fs_store so a bs fs = (Inr (), fs1)" and 2: "fs_read so a (length bs) fs1 = (Inr rd, fs')"
    by (auto elim!: attempt_success split: if_splits)
  note e = fs_store_effect[OF 1 assms(2,3)]
  obtain s' where s': "fs' = fs1\<lparr>storage := s'\<rparr>" "clean s'" "cont s' = cont (storage fs1)"
    by (rule fs_read_result[OF 2 clean_ready[OF e(1)] assms(3)]) (use e(1) in blast)
  show "clean (storage fs')" "map (cont (storage fs')) [a..<a + length bs] = bs"
    "\<forall>x < a. cont (storage fs') x = cont (storage fs) x"
    using s' e by simp_all
  from e(4) have "fs1\<lparr>storage := s'\<rparr> = fs\<lparr>storage := s'\<rparr>" by (cases fs, cases fs1) simp
  then show "fs' = fs\<lparr>storage := storage fs'\<rparr>" by (simp add: s'(1))
qed

text \<open>The bytes of the header in front of the data of an element.\<close>

definition header_bytes :: "nat \<Rightarrow> partition \<Rightarrow> nat \<Rightarrow> partition_element_header \<Rightarrow> byte list" where
  "header_bytes pid p a h =
     (if a = first_element_address p
      then filesystem_serialize_metadata (metadata p) @ filesystem_serialize_element_header pid h
      else filesystem_serialize_element_header pid h)"

lemma length_header_bytes [simp]: "length (header_bytes pid p a h) = header_len_at pid (first_element_address p) a"
  by (simp add: header_bytes_def header_len_at_def PARTITION_METADATA_SIZE_def)

definition stored_at :: "nat \<Rightarrow> 's filesystem \<Rightarrow> nat \<Rightarrow> partition_element_header \<Rightarrow> byte list \<Rightarrow> bool" where
  "stored_at pid fs a h d \<longleftrightarrow>
     (let hb = header_bytes pid (part fs pid) a h in
      map (cont (storage fs)) [a..<a + length hb] = hb
      \<and> map (cont (storage fs)) [a + length hb..<a + length hb + length d] = d)"

lemma write_element_effect:
  assumes "write_element so pid a h d fs = (Inr (), fs')" and "clean (storage fs)"
    and "a + header_len_at pid (first_element_address (part fs pid)) a + length d < 4294967296"
  shows "clean (storage fs')" "stored_at pid fs' a h d" "fs' = fs\<lparr>storage := storage fs'\<rparr>"
proof -
  let ?hb = "header_bytes pid (part fs pid) a h"
  have ua: "u32_add a (length ?hb) = a + length ?hb" using assms(3) by simp
  from assms(1)[unfolded write_element_def Let_def header_bytes_def[symmetric] ua] obtain fs1 where
    1: "store_verified so a ?hb fs = (Inr (), fs1)" and 2: "fs_store so (a + length ?hb) d fs1 = (Inr (), fs')"
    by (auto elim!: attempt_success)
  have n1: "a + length ?hb < 4294967296" "a + length ?hb + length d < 4294967296" using assms(3) by simp_all
  note e1 = store_verified_effect[OF 1 assms(2) n1(1)]
  note e2 = fs_store_effect[OF 2 e1(1) n1(2)]
  show "clean (storage fs')" by (rule e2(1))
  have fs': "fs' = fs\<lparr>storage := storage fs'\<rparr>"
  proof -
    have "fs1\<lparr>storage := storage fs'\<rparr> = fs\<lparr>storage := storage fs'\<rparr>" by (subst e1(4)) simp
    then show ?thesis using e2(4) by simp
  qed
  then show "fs' = fs\<lparr>storage := storage fs'\<rparr>" .
  from fs' have part: "part fs' pid = part fs pid" by (metis part_storage)
  have "map (cont (storage fs')) [a..<a + length ?hb] = map (cont (storage fs1)) [a..<a + length ?hb]"
    using e2(3) by simp
  with e1(2) e2(2) show "stored_at pid fs' a h d" by (simp add: stored_at_def Let_def part)
qed

subsection \<open>Reading a stored element back\<close>

abbreviation live :: "'s filesystem \<Rightarrow> bool" where
  "live fs \<equiv> reads_succeed so (storage fs)"

lemma fs_read_cases:
  assumes "ready (storage fs)" and "a + n \<le> so_get_size so"
  obtains (ok) s' where "fs_read so a n fs = (Inr (map (cont (storage fs)) [a..<a + n]), fs\<lparr>storage := s'\<rparr>)"
      "ready s'" "cont s' = cont (storage fs)" "live fs \<longrightarrow> reads_succeed so s'"
    | (failed) e s' where "fs_read so a n fs = (Inl e, fs\<lparr>storage := s'\<rparr>)" "\<not> live fs"
proof -
  have nw: "a + n < 4294967296" using assms(2) size_bound by simp
  obtain r fs' where r: "fs_read so a n fs = (r, fs')" by fastforce
  obtain s' where s': "fs' = fs\<lparr>storage := s'\<rparr>" "ready s'" "cont s' = cont (storage fs)"
    "\<And>bs. r = Inr bs \<Longrightarrow> bs = map (cont (storage fs)) [a..<a + n]"
    by (rule fs_read_result[OF r assms(1) nw]) simp
  show thesis
  proof (cases r)
    case (Inl e)
    have "so_read so a n (storage fs) = (Inl e, s')" using r s'(1) Inl
      by (cases fs) (auto simp: fs_call_def split: prod.splits)
    with assms have "\<not> live fs" by (auto elim: reads_succeedD[of so "storage fs" a n])
    then show thesis using failed r Inl s'(1) by simp
  next
    case (Inr bs)
    have "so_read so a n (storage fs) = (Inr bs, s')" using r s'(1) Inr
      by (cases fs) (auto simp: fs_call_def split: prod.splits)
    with assms have "live fs \<longrightarrow> reads_succeed so s'" by (auto elim: reads_succeedD[of so "storage fs" a n])
    then show thesis using ok r s' Inr by simp
  qed
qed

definition first_header_ok :: "nat \<Rightarrow> partition \<Rightarrow> partition_element_header \<Rightarrow> bool" where
  "first_header_ok pid p h \<longleftrightarrow> metadata_ok (metadata p)
     \<and> header_crc (metadata p) = crc16_compute (drop 2 (filesystem_serialize_metadata (metadata p) @ filesystem_serialize_element_header pid h)) None"

text \<open>The outcome of a read of the header of a stored element.\<close>

definition reads_header :: "'s filesystem \<Rightarrow> (partition_element_header, 's filesystem) outcome \<Rightarrow> partition_element_header \<Rightarrow> bool" where
  "reads_header fs r h \<longleftrightarrow> (\<exists>s'. r = (Inr h, fs\<lparr>storage := s'\<rparr>) \<and> ready s' \<and> cont s' = cont (storage fs)
       \<and> (live fs \<longrightarrow> reads_succeed so s'))
     \<or> (fst r = Inl NRF_ERROR_INTERNAL \<and> \<not> live fs)"

lemma read_first_header_cases:
  assumes rd: "ready (storage fs)"
    and sz: "a + (PARTITION_METADATA_SIZE + filesystem_get_element_header_len pid) \<le> so_get_size so"
    and bytes: "map (cont (storage fs)) [a..<a + (PARTITION_METADATA_SIZE + filesystem_get_element_header_len pid)] = mb @ hb"
    and len: "length mb = PARTITION_METADATA_SIZE"
  obtains (ok) s' where "read_first_header so pid a fs =
        (Inr (mb @ hb, filesystem_deserialize_metadata mb, filesystem_deserialize_element_header pid hb), fs\<lparr>storage := s'\<rparr>)"
      "ready s'" "cont s' = cont (storage fs)" "live fs \<longrightarrow> reads_succeed so s'"
    | (failed) fs' where "read_first_header so pid a fs = (Inl NRF_ERROR_INTERNAL, fs')" "\<not> live fs"
proof -
  let ?m = PARTITION_METADATA_SIZE and ?hl = "filesystem_get_element_header_len pid"
  have split: "[a..<a + (?m + ?hl)] = [a..<a + ?m] @ [a + ?m..<a + ?m + ?hl]"
    using upt_add_eq_append[of a "a + ?m" ?hl] by (simp add: add.assoc)
  have parts: "map (cont (storage fs)) [a..<a + ?m] = mb" "map (cont (storage fs)) [a + ?m..<a + ?m + ?hl] = hb"
    using bytes len unfolding split by (simp_all add: append_eq_append_conv)
  have ua: "u32_add a ?m = a + ?m" using sz size_bound by simp
  from rd sz have "a + ?m \<le> so_get_size so" by simp
  with rd show thesis
  proof (cases rule: fs_read_cases)
    case (failed e s')
    then show thesis by (intro that(2)) (simp_all add: read_first_header_def)
  next
    case (ok s1)
    have r2: "ready (storage (fs\<lparr>storage := s1\<rparr>))" "a + ?m + ?hl \<le> so_get_size so" using ok sz by simp_all
    then show thesis
    proof (cases rule: fs_read_cases)
      case (failed e s')
      with ok ua show thesis by (intro that(2)) (simp_all add: read_first_header_def)
    next
      case (ok s2)
      with \<open>fs_read so a ?m fs = _\<close> \<open>cont s1 = _\<close> \<open>live fs \<longrightarrow> reads_succeed so s1\<close> ua parts show thesis
        by (intro that(1)[of s2]) (simp_all add: read_first_header_def)
    qed
  qed
qed

lemma read_stored_header:
  assumes rd: "fs_ready pid fs" and st: "stored_at pid fs a h d"
    and sz: "a + header_len_at pid (first_element_address (part fs pid)) a \<le> so_get_size so"
    and ok: "header_ok h" and fst: "a = first_element_address (part fs pid) \<Longrightarrow> first_header_ok pid (part fs pid) h"
  shows "reads_header fs (filesystem_read_element_header so pid a fs) (header_stored pid h)"
proof (cases "a = first_element_address (part fs pid)")
  case False
  let ?hl = "filesystem_get_element_header_len pid"
  have bytes: "map (cont (storage fs)) [a..<a + ?hl] = filesystem_serialize_element_header pid h"
    using st False by (simp add: stored_at_def header_bytes_def Let_def header_len_at_def)
  have "ready (storage fs)" "a + ?hl \<le> so_get_size so"
    using rd sz False by (simp_all add: fs_ready_def header_len_at_def)
  then show ?thesis
    by (cases rule: fs_read_cases)
      (use False bytes element_header_roundtrip[OF ok, of pid "[]"] in
        \<open>auto simp: filesystem_read_element_header_def reads_header_def\<close>)
next
  case True
  let ?p = "part fs pid" and ?n = "PARTITION_METADATA_SIZE + filesystem_get_element_header_len pid"
  note fh = fst[OF True, unfolded first_header_ok_def]
  have bytes: "map (cont (storage fs)) [a..<a + ?n] =
      filesystem_serialize_metadata (metadata ?p) @ filesystem_serialize_element_header pid h"
    using st True by (simp add: stored_at_def header_bytes_def Let_def header_len_at_def PARTITION_METADATA_SIZE_def)
  have md: "filesystem_deserialize_metadata (filesystem_serialize_metadata (metadata ?p)) = metadata ?p"
    using metadata_roundtrip[of "metadata ?p" "[]"] fh by simp
  have rest: "metadata_matches pid (metadata ?p) (metadata ?p)" by (simp add: metadata_matches_def)
  have id: "upd_part pid (\<lambda>p. p\<lparr>metadata := metadata ?p\<rparr>) (fs\<lparr>storage := s'\<rparr>) = fs\<lparr>storage := s'\<rparr>" for s'
    by (simp add: upd_part_def part_def)
  have "ready (storage fs)" "a + ?n \<le> so_get_size so" using rd sz True by (simp_all add: fs_ready_def header_len_at_def)
  then show ?thesis using bytes length_serialize_metadata[of "metadata ?p", folded PARTITION_METADATA_SIZE_def]
  proof (cases rule: read_first_header_cases)
    case (ok s')
    with True fh md rest id element_header_roundtrip[OF \<open>header_ok h\<close>, of pid "[]"] show ?thesis
      by (auto simp: filesystem_read_element_header_def reads_header_def)
  next
    case (failed fs')
    with True show ?thesis by (simp add: filesystem_read_element_header_def reads_header_def)
  qed
qed

text \<open>The state after a successful store of \<open>d\<close>, as the latest element of the partition.\<close>

definition written :: "nat \<Rightarrow> 's filesystem \<Rightarrow> partition_element_header \<Rightarrow> byte list \<Rightarrow> bool" where
  "written pid fs h d \<longleftrightarrow>
     (let p = part fs pid; a = latest_element_address p in
      clean (storage fs) \<and> has_first_element p \<and> stored_at pid fs a h d \<and> header_ok h
      \<and> latest_element_len p = length d \<and> latest_element_record_id p = record_id h \<and> element_crc h = crc16_compute d None
      \<and> first_element_address p \<le> a
      \<and> a + header_len_at pid (first_element_address p) a + length d \<le> first_element_address p + partition_size (metadata p)
      \<and> (a = first_element_address p \<longrightarrow> first_header_ok pid p h))"

lemma first_header_ok_new:
  assumes "pid < 65536" and "partition_size (metadata p) < 4294967296" and "len < 65536"
    and "first_element_address p < 4294967296" and "latest_element_address p < 4294967296"
  shows "first_header_ok pid (p\<lparr>metadata := first_element_metadata pid len h p, first_element_header := h'\<rparr>) h"
  using assms
  by (simp add: first_header_ok_def first_element_metadata_def Let_def metadata_ok_def filesystem_serialize_metadata_def)

lemma place_element_effect:
  assumes pl: "place_element so pid a rid px d len fs = (Inr (), fs')" and cl: "clean (storage fs)"
    and rd: "fs_ready pid fs" and pid: "partition_id (metadata (part fs pid)) = pid" "pid < 65536"
    and len: "\<not> pid_dynamic pid \<longrightarrow> len = first_element_len (metadata (part fs pid))" "length d = len" "len < 65536"
    and fit: "first_element_address (part fs pid) \<le> a"
      "a + header_len_at pid (first_element_address (part fs pid)) a + len \<le> first_element_address (part fs pid) + partition_size (metadata (part fs pid))"
    and b: "rid < 65536" "px < 65536" "latest_element_address (part fs pid) < 4294967296"
  shows "written pid fs' \<lparr>record_id = rid, previous_len_XOR_cur_len = px, element_crc = crc16_compute d None\<rparr> d"
proof -
  let ?h = "\<lparr>record_id = rid, previous_len_XOR_cur_len = px, element_crc = crc16_compute d None\<rparr>"
  let ?p = "part fs pid"
  let ?upd = "\<lambda>p. p\<lparr>metadata := first_element_metadata pid len ?h p, first_element_header := ?h\<rparr>"
  define u where "u = (if a = first_element_address ?p then upd_part pid ?upd fs else fs)"
  have ix: "pid_index pid < length (partitions fs)" using rd by (simp add: fs_ready_def)
  have pu: "part u pid = (if a = first_element_address ?p then ?upd ?p else ?p)"
    using ix by (simp add: u_def part_upd_part)
  have c: "confined pid fs u" using pid len by (auto simp: u_def intro!: confined_upd_part same_extent_first_metadata)
  have rdu: "fs_ready pid u" by (rule confined_ready[OF c rd])
  from pl[unfolded place_element_def Let_def] obtain fs1 fs2 where
    1: "backup_if_first_unit so pid a len u = (Inr (), fs1)"
    and 2: "write_element so pid a ?h d fs1 = (Inr (), fs2)"
    and 3: "fs' = upd_part pid (\<lambda>p. p\<lparr>latest_element_address := a, latest_element_record_id := rid,
                latest_element_len := len, has_first_element := True\<rparr>) fs2"
    by (auto elim!: attempt_success simp: u_def)
  have p1: "part fs1 pid = part u pid"
    using only_storage_part[OF only_storage_backup_if[of u so pid a len], of pid] 1 by simp
  have ext: "same_extent pid ?p (part u pid)" by (rule confined_extent[OF c])
  have cl1: "clean (storage fs1)" using tidy_backup_if[OF rdu, of a len] 1 cl by (auto simp: tidy_def u_def split: if_splits)
  have sz: "first_element_address ?p + partition_size (metadata ?p) \<le> so_get_size so" using ready_addresses[OF rd] by simp
  have nw: "a + header_len_at pid (first_element_address (part fs1 pid)) a + length d < 4294967296"
    using fit(2) sz size_bound ext len(2) p1 by (simp add: same_extent_def)
  note e = write_element_effect[OF 2 cl1 nw]
  have p2: "part fs2 pid = part u pid" "length (partitions fs2) = length (partitions fs)"
  proof -
    have "part fs2 pid = part fs1 pid \<and> partitions fs2 = partitions fs1" using e(3) by (cases fs1, cases fs2) (auto simp: part_def)
    moreover have "partitions fs1 = partitions u"
      using only_storage_part[OF only_storage_backup_if[of u so pid a len], of pid] 1 by simp
    ultimately show "part fs2 pid = part u pid" "length (partitions fs2) = length (partitions fs)"
      using p1 by (auto simp: u_def)
  qed
  have p': "part fs' pid = (part u pid)\<lparr>latest_element_address := a, latest_element_record_id := rid,
                latest_element_len := len, has_first_element := True\<rparr>"
    unfolding 3 using ix p2 by (simp add: part_upd_part)
  have "header_bytes pid (part fs' pid) a ?h = header_bytes pid (part fs2 pid) a ?h" "storage fs' = storage fs2"
    by (simp add: header_bytes_def p' p2(1)) (simp add: 3)
  then have "stored_at pid fs' a ?h d" using e(2) by (simp only: stored_at_def)
  moreover have "first_header_ok pid (part fs' pid) ?h" if "a = first_element_address ?p"
  proof -
    have "first_header_ok pid (part u pid) ?h"
      unfolding pu using that by (simp, intro first_header_ok_new) (use pid len b sz size_bound fit in auto)
    then show ?thesis by (simp add: first_header_ok_def p')
  qed
  moreover have "header_ok ?h" using b by (simp add: header_ok_def)
  moreover have "clean (storage fs')" using e(1) by (simp add: 3)
  ultimately show ?thesis
    using fit len ext by (simp add: written_def Let_def p' same_extent_def)
qed

lemma store_element_written:
  assumes st: "filesystem_store_element so pid element_data element_len fs = (Inr (), fs')"
    and cl: "clean (storage fs)" and rd: "fs_ready pid fs" and co: "cursor_ok (part fs pid)"
    and el: "element_len < 65536" "element_len \<le> length element_data"
      "\<not> pid_dynamic pid \<longrightarrow> first_element_len (metadata (part fs pid)) \<le> length element_data"
    and pid: "partition_id (metadata (part fs pid)) = pid" "pid < 65536"
  shows "\<exists>h. written pid fs' h (take (if pid_dynamic pid then element_len else first_element_len (metadata (part fs pid))) element_data)
    \<and> record_id h = (if has_first_element (part fs pid) then increment_record_id (latest_element_record_id (part fs pid))
                     else latest_element_record_id (part fs pid))"
proof -
  let ?p = "part fs pid"
  let ?len = "if pid_dynamic pid then element_len else first_element_len (metadata ?p)"
  obtain a rid px where np: "next_position pid ?len ?p = (a, rid, px)" by (metis prod_cases3)
  have wp: "well_placed pid ?p" using rd by (simp add: fs_ready_def)
  then have len: "?len < 65536" using el by (simp add: well_placed_def Let_def)
  note b = next_position_bounds[OF np wp co len]
  let ?fit = "a + header_len_at pid (first_element_address ?p) a + ?len \<le> first_element_address ?p + partition_size (metadata ?p)"
  from st[unfolded filesystem_store_element_def Let_def np prod.case b(5,6)] obtain fs1 fs2 where
    1: "filesystem_check_iterator_conflict so pid a ?len fs = (Inr (), fs1)"
    and 2: "clear_stale_successor so pid a rid ?len fs1 = (Inr (), fs2)"
    and 3: "place_element so pid a rid px (take ?len element_data) ?len fs2 = (Inr (), fs')" and fit: ?fit
    by (auto elim!: attempt_success split: if_splits)
  have c1: "confined pid fs fs1" using confined_conflict[OF rd, of a ?len] 1 by simp
  have rd1: "fs_ready pid fs1" by (rule confined_ready[OF c1 rd])
  have a1: "first_element_address (part fs1 pid) \<le> a" using confined_extent[OF c1] b(1) by (simp add: same_extent_def)
  have c2: "confined pid fs1 fs2" using confined_clear_stale[OF rd1 a1 b(2) len, of rid] 2 by simp
  have rd2: "fs_ready pid fs2" by (rule confined_ready[OF c2 rd1])
  have cl2: "clean (storage fs2)"
    using tidy_conflict[OF rd, of a ?len] 1 cl tidy_clear_stale[OF rd1 a1 b(2) len, of rid] 2 by (simp add: tidy_def)
  note ext = confined_extent[OF confined_trans[OF c1 c2]]
  have ck: "cursors_kept fs fs2"
    using cursors_kept_conflict[of fs so pid a ?len] 1 cursors_kept_clear_stale[of fs1 so pid a rid ?len] 2
    by (auto intro: cursors_kept_trans)
  have lat: "latest_element_address (part fs2 pid) < 4294967296"
    using cursors_kept_fields(1)[OF ck, of pid] co ready_addresses(2)[OF rd] size_bound by (simp add: cursor_ok_def)
  have dl: "length (take ?len element_data) = ?len" using el by simp
  have "written pid fs' \<lparr>record_id = rid, previous_len_XOR_cur_len = px, element_crc = crc16_compute (take ?len element_data) None\<rparr>
      (take ?len element_data)"
    by (rule place_element_effect[OF 3 cl2 rd2 _ pid(2) _ dl len _ _ b(3,4) lat])
      (use ext pid fit b(1) in \<open>auto simp: same_extent_def\<close>)
  moreover have "rid = (if has_first_element ?p then increment_record_id (latest_element_record_id ?p) else latest_element_record_id ?p)"
    using np by (auto simp: next_position_def Let_def split: if_splits)
  ultimately show ?thesis by force
qed

text \<open>An iterator that stands on a stored element.\<close>

definition iterator_on :: "nat \<Rightarrow> 's filesystem \<Rightarrow> nat \<Rightarrow> partition_element_header \<Rightarrow> nat \<Rightarrow> bool" where
  "iterator_on pid fs a h len \<longleftrightarrow> iter fs pid =
     \<lparr>cur_element_address = a, cur_element_len = len, cur_element_header = header_stored pid h,
      iterator_valid = ITERATOR_VALID_NUMBER\<rparr>"

lemma header_not_changed [simp]: "\<not> header_changed pid h h"
  by (simp add: header_changed_def)

lemma stored_at_storage:
  "cont s = cont (storage fs) \<Longrightarrow> stored_at pid (fs\<lparr>storage := s\<rparr>) a h d = stored_at pid fs a h d"
  by (simp add: stored_at_def)

lemma stored_at_upd_iter [simp]: "stored_at pid (upd_iter q f fs) a h d = stored_at pid fs a h d"
  by (simp add: stored_at_def)

lemma fs_ready_upd_iter [simp]: "fs_ready pid (upd_iter q f fs) = fs_ready pid fs"
  by (simp add: fs_ready_def)

lemma fs_ready_storage_update: "fs_ready pid fs \<Longrightarrow> ready s \<Longrightarrow> fs_ready pid (fs\<lparr>storage := s\<rparr>)"
  by (simp add: fs_ready_def)

text \<open>An element of the partition as the code stored it: its place, header and data.\<close>

definition element_ok :: "nat \<Rightarrow> 's filesystem \<Rightarrow> nat \<Rightarrow> partition_element_header \<Rightarrow> byte list \<Rightarrow> bool" where
  "element_ok pid fs a h d \<longleftrightarrow> stored_at pid fs a h d \<and> header_ok h \<and> element_crc h = crc16_compute d None
     \<and> first_element_address (part fs pid) \<le> a
     \<and> a + header_len_at pid (first_element_address (part fs pid)) a + length d
         \<le> first_element_address (part fs pid) + partition_size (metadata (part fs pid))
     \<and> (a = first_element_address (part fs pid) \<longrightarrow> first_header_ok pid (part fs pid) h)"

lemma written_element: "written pid fs h d \<Longrightarrow> element_ok pid fs (latest_element_address (part fs pid)) h d"
  by (simp add: written_def element_ok_def Let_def)

lemma element_ok_storage:
  "cont s = cont (storage fs) \<Longrightarrow> element_ok pid (fs\<lparr>storage := s\<rparr>) a h d = element_ok pid fs a h d"
  by (simp add: element_ok_def stored_at_storage)

lemma element_ok_upd_iter [simp]: "element_ok pid (upd_iter q f fs) a h d = element_ok pid fs a h d"
  by (simp add: element_ok_def)

lemma read_element_header_ok_element:
  assumes "fs_ready pid fs" and "element_ok pid fs a h d"
  shows "reads_header fs (filesystem_read_element_header so pid a fs) (header_stored pid h)"
  using assms ready_addresses(2)[OF assms(1)]
  by (intro read_stored_header) (auto simp: element_ok_def)

lemma iterator_init_latest:
  assumes rd: "fs_ready pid fs" and w: "written pid fs h d" and r: "filesystem_iterator_init so pid fs = (res, fs')"
  shows "(res = Inr () \<and> iterator_on pid fs' (latest_element_address (part fs pid)) h (length d)
      \<and> fs_ready pid fs' \<and> element_ok pid fs' (latest_element_address (part fs pid)) h d
      \<and> part fs' pid = part fs pid \<and> (live fs \<longrightarrow> live fs'))
    \<or> (res = Inl NRF_ERROR_INTERNAL \<and> \<not> live fs)"
proof -
  let ?a = "latest_element_address (part fs pid)"
  have hf: "has_first_element (part fs pid)" and len: "latest_element_len (part fs pid) = length d"
    using w by (simp_all add: written_def Let_def)
  have ix: "pid_index pid < length (partition_iterators fs)" using rd by (simp add: fs_ready_def)
  define fs1 where "fs1 = upd_iter pid (\<lambda>i. i\<lparr>cur_element_address := ?a, cur_element_len := latest_element_len (part fs pid)\<rparr>)
      (upd_iter pid (\<lambda>i. i\<lparr>iterator_valid := 0\<rparr>) fs)"
  have it1: "cur_element_address (iter fs1 pid) = ?a" "cur_element_len (iter fs1 pid) = length d"
    using ix by (simp_all add: fs1_def iter_upd_iter len)
  have rd1: "fs_ready pid fs1" and e1: "element_ok pid fs1 ?a h d"
    using rd written_element[OF w] by (simp_all add: fs1_def)
  have eq: "filesystem_iterator_init so pid fs = (case filesystem_read_element_header so pid ?a fs1 of
        (Inl e, fs) \<Rightarrow> (Inl (if e = NRF_ERROR_NOT_FOUND then NRF_ERROR_INVALID_STATE else e), fs)
      | (Inr h, fs) \<Rightarrow> (Inr (), upd_iter pid (\<lambda>i. i\<lparr>cur_element_header := h, iterator_valid := ITERATOR_VALID_NUMBER\<rparr>) fs))"
    unfolding filesystem_iterator_init_def Let_def part_upd_iter using hf it1(1) by (simp add: fs1_def)
  from read_element_header_ok_element[OF rd1 e1, unfolded reads_header_def] show ?thesis
  proof (elim disjE exE conjE)
    fix s'
    assume h: "filesystem_read_element_header so pid ?a fs1 = (Inr (header_stored pid h), fs1\<lparr>storage := s'\<rparr>)"
      "ready s'" "cont s' = cont (storage fs1)" "live fs1 \<longrightarrow> reads_succeed so s'"
    from r[unfolded eq h(1)] have fs': "res = Inr ()"
      "fs' = upd_iter pid (\<lambda>i. i\<lparr>cur_element_header := header_stored pid h, iterator_valid := ITERATOR_VALID_NUMBER\<rparr>) (fs1\<lparr>storage := s'\<rparr>)"
      by simp_all
    have "length (partition_iterators fs1) = length (partition_iterators fs)" by (simp add: fs1_def)
    then have "iterator_on pid fs' ?a h (length d)"
      using ix it1 by (simp add: iterator_on_def fs' iter_upd_iter)
    moreover have "element_ok pid fs' ?a h d" "fs_ready pid fs'"
      using e1 rd1 h by (simp_all add: fs' element_ok_storage fs_ready_storage_update)
    moreover have "part fs' pid = part fs pid" by (simp add: fs' fs1_def)
    moreover have "live fs \<longrightarrow> live fs'" using h(4) by (simp add: fs' fs1_def)
    ultimately show ?thesis using fs'(1) by simp
  next
    assume "fst (filesystem_read_element_header so pid ?a fs1) = Inl NRF_ERROR_INTERNAL" "\<not> live fs1"
    moreover have "live fs1 = live fs" by (simp add: fs1_def)
    ultimately show ?thesis using r[unfolded eq] by (auto split: prod.splits sum.splits)
  qed
qed

lemma iterator_read_on:
  assumes rd: "fs_ready pid fs" and hf: "has_first_element (part fs pid)"
    and on: "iterator_on pid fs a h (length d)" and e: "element_ok pid fs a h d"
    and r: "filesystem_iterator_read_element so pid fs = (res, fs')"
  shows "res = Inr (d, length d, record_id h) \<or> (res = Inl NRF_ERROR_INTERNAL \<and> \<not> live fs)"
proof -
  from read_element_header_ok_element[OF rd e, unfolded reads_header_def] show ?thesis
  proof (elim disjE exE conjE)
    fix s'
    assume h: "filesystem_read_element_header so pid a fs = (Inr (header_stored pid h), fs\<lparr>storage := s'\<rparr>)"
      "ready s'" "cont s' = cont (storage fs)" "live fs \<longrightarrow> reads_succeed so s'"
    let ?fs = "fs\<lparr>storage := s'\<rparr>"
    let ?l = "header_len_at pid (first_element_address (part fs pid)) a"
    have v: "filesystem_iterator_check_validity so pid fs = (Inr (), ?fs)"
      using on hf h(1) by (simp add: filesystem_iterator_check_validity_def iterator_on_def)
    have lim: "a + ?l + length d \<le> so_get_size so" using e ready_addresses(2)[OF rd] by (simp add: element_ok_def)
    then have ua: "u32_add a ?l = a + ?l" using size_bound by simp
    have bytes: "map (cont s') [a + ?l..<a + ?l + length d] = d"
      using e h(3) by (simp add: element_ok_def stored_at_def Let_def)
    have "ready (storage ?fs)" using h(2) by simp
    then show ?thesis using lim
    proof (cases rule: fs_read_cases)
      case (ok s2)
      with r v on ua bytes e show ?thesis
        by (simp add: filesystem_iterator_read_element_def iterator_on_def header_stored_def element_ok_def Let_def split: if_splits)
    next
      case (failed e s2)
      with r v on ua h(4) show ?thesis
        by (simp add: filesystem_iterator_read_element_def iterator_on_def Let_def)
    qed
  next
    assume "fst (filesystem_read_element_header so pid a fs) = Inl NRF_ERROR_INTERNAL" "\<not> live fs"
    then have "fst (filesystem_iterator_check_validity so pid fs) = Inl NRF_ERROR_INTERNAL"
      using on hf by (auto simp: filesystem_iterator_check_validity_def iterator_on_def split: prod.splits sum.splits)
    with r \<open>\<not> live fs\<close> show ?thesis
      by (cases "filesystem_iterator_check_validity so pid fs") (simp add: filesystem_iterator_read_element_def)
  qed
qed

subsection \<open>The remaining operations\<close>

lemma confined_iterator_init:
  assumes "fs_ready pid fs"
  shows "confined pid fs (snd (filesystem_iterator_init so pid fs))"
proof -
  let ?u1 = "upd_iter pid (\<lambda>i. i\<lparr>iterator_valid := 0\<rparr>) fs"
  let ?u2 = "upd_iter pid (\<lambda>i. i\<lparr>cur_element_address := latest_element_address (part ?u1 pid),
      cur_element_len := latest_element_len (part ?u1 pid)\<rparr>) ?u1"
  have rd: "fs_ready pid ?u2" using assms by simp
  have c: "confined pid fs ?u2" by (rule confined_trans[OF confined_upd_iter confined_upd_iter])
  have "confined pid ?u2 (snd (case filesystem_read_element_header so pid (cur_element_address (iter ?u2 pid)) ?u2 of
      (Inl e, fs) \<Rightarrow> (Inl (if e = NRF_ERROR_NOT_FOUND then NRF_ERROR_INVALID_STATE else e), fs)
    | (Inr h, fs) \<Rightarrow> (Inr (), upd_iter pid (\<lambda>i. i\<lparr>cur_element_header := h, iterator_valid := ITERATOR_VALID_NUMBER\<rparr>) fs)))"
    by (intro confined_case rd confined_read_element_header) auto
  with c have "confined pid fs (snd (case filesystem_read_element_header so pid (cur_element_address (iter ?u2 pid)) ?u2 of
      (Inl e, fs) \<Rightarrow> (Inl (if e = NRF_ERROR_NOT_FOUND then NRF_ERROR_INVALID_STATE else e), fs)
    | (Inr h, fs) \<Rightarrow> (Inr (), upd_iter pid (\<lambda>i. i\<lparr>cur_element_header := h, iterator_valid := ITERATOR_VALID_NUMBER\<rparr>) fs)))"
    by (rule confined_trans)
  then show ?thesis unfolding filesystem_iterator_init_def Let_def by auto
qed

lemma confined_iterator_next:
  assumes "fs_ready pid fs"
  shows "confined pid fs (snd (filesystem_iterator_next so pid fs))"
  using assms unfolding filesystem_iterator_next_def Let_def
  by (auto intro!: confined_attempt confined_validity confined_next)

lemma confined_iterator_previous:
  assumes "fs_ready pid fs"
  shows "confined pid fs (snd (filesystem_iterator_previous so pid fs))"
  using assms unfolding filesystem_iterator_previous_def Let_def
  by (auto intro!: confined_attempt confined_validity confined_previous)

lemma confined_iterator_read:
  assumes "fs_ready pid fs"
  shows "confined pid fs (snd (filesystem_iterator_read_element so pid fs))"
  using assms unfolding filesystem_iterator_read_element_def Let_def
  by (auto intro!: confined_attempt confined_validity confined_read)

lemma confined_clear_partition:
  assumes "fs_ready pid fs"
  shows "confined pid fs (snd (filesystem_clear_partition so pid fs))"
proof -
  let ?blank = "replicate (PARTITION_METADATA_SIZE + filesystem_get_element_header_len pid) (0xFF :: byte)"
  let ?start = "first_element_address (part fs pid)"
  have rest: "confined pid fs1 (snd (attempt internal (filesystem_backup_first_element_header so
            (filesystem_get_swap_page_address_of_partition pid) ?blank fs1) (\<lambda>_ fs.
        attempt id (store_verified so ?start ?blank fs) (\<lambda>_ fs.
        (Inr (), upd_part pid (\<lambda>p. p\<lparr>has_first_element := False, first_element_address := ?start,
           latest_element_address := ?start, latest_element_record_id := rid, latest_element_len := 0\<rparr>) fs)))))"
    if c: "confined pid fs fs1" and rd: "fs_ready pid fs1" for rid fs1
  proof (intro confined_attempt rd confined_backup confined_store_verified)
    show "filesystem_get_swap_page_address_of_partition pid + length ?blank \<le> SWAP_PAGE_SIZE" "0 < length ?blank"
      using swap_address_bound[OF rd] by (simp_all add: PARTITION_METADATA_SIZE_def)
    fix fs2 assume c2: "confined pid fs1 fs2" and rd2: "fs_ready pid fs2"
    note e2 = confined_extent[OF confined_trans[OF c c2]]
    show "touchable pid (part fs2 pid) ?start (length ?blank)"
      using touchable_first[OF rd2] e2 by (simp add: same_extent_def)
    fix fs3 assume c3: "confined pid fs2 fs3"
    from confined_extent[OF c3] e2 show "confined pid fs3 (snd (Inr (), upd_part pid (\<lambda>p. p\<lparr>has_first_element := False,
        first_element_address := ?start, latest_element_address := ?start, latest_element_record_id := rid,
        latest_element_len := 0\<rparr>) fs3))"
      by (auto intro!: confined_upd_part simp: same_extent_def)
  qed
  show ?thesis unfolding filesystem_clear_partition_def Let_def
    by (intro confined_case assms confined_read_element_header) (auto intro!: rest)
qed

text \<open>The search for the latest element stays in the partition and ends on a position inside it.\<close>

definition position_ok :: "nat \<Rightarrow> 's filesystem \<Rightarrow> nat \<Rightarrow> nat \<Rightarrow> nat \<Rightarrow> bool" where
  "position_ok pid fs a rid len \<longleftrightarrow> first_element_address (part fs pid) \<le> a
     \<and> a \<le> first_element_address (part fs pid) + partition_size (metadata (part fs pid)) \<and> rid < 65536 \<and> len < 65536"

lemma position_ok_confined: "confined pid fs fs' \<Longrightarrow> position_ok pid fs' a rid len = position_ok pid fs a rid len"
  using confined_extent by (simp add: position_ok_def same_extent_def)

lemma find_latest_loop_confined:
  assumes "fs_ready pid fs" and "position_ok pid fs a rid len" and "elen < 65536"
    and "find_latest_loop so pid elen a rid len fs = (e, (a', rid', len'), fs')"
  shows "confined pid fs fs' \<and> position_ok pid fs a' rid' len'"
  using assms(1,2,4)
proof (induction "4294967296 - a" arbitrary: a rid len fs e a' rid' len' fs' rule: less_induct)
  case less
  obtain r fs1 where n: "filesystem_get_next_element_header so pid a rid len fs = (r, fs1)" by fastforce
  have c: "confined pid fs fs1" using confined_next[OF less.prems(1), of a rid len] n by simp
  note rd1 = confined_ready[OF c less.prems(1)]
  from less.prems(2) have al: "a \<le> so_get_size so" "len < 65536"
    using ready_addresses(2)[OF less.prems(1)] by (auto simp: position_ok_def)
  show ?case
  proof (cases r)
    case (Inl x)
    with less.prems n c show ?thesis by (subst (asm) find_latest_loop.simps) simp
  next
    case (Inr ah)
    obtain b h where ah: "ah = (b, h)" by (cases ah)
    let ?len = "if pid_dynamic pid then len XOR previous_len_XOR_cur_len h else elen"
    note nr = next_result[OF n[unfolded Inr ah] less.prems(1) al]
    show ?thesis
    proof (cases "b \<le> a \<or> 4294967296 \<le> b")
      case True
      with less.prems n c Inr ah show ?thesis by (subst (asm) find_latest_loop.simps) auto
    next
      case False
      with less.prems(3) n Inr ah have k: "find_latest_loop so pid elen b (record_id h) ?len fs1 = (e, (a', rid', len'), fs')"
        by (subst (asm) find_latest_loop.simps) simp
      have "position_ok pid fs b (record_id h) ?len"
        using nr False less.prems(2) assms(3) by (auto simp: position_ok_def header_ok_def xor_less_65536)
      then have "position_ok pid fs1 b (record_id h) ?len" using position_ok_confined[OF c] by simp
      moreover have "4294967296 - b < 4294967296 - a" using False by linarith
      ultimately have "confined pid fs1 fs' \<and> position_ok pid fs1 a' rid' len'" using less.hyps[OF _ rd1 _ k] by blast
      with c show ?thesis using position_ok_confined[OF c] by (auto intro: confined_trans)
    qed
  qed
qed

lemma find_latest_confined:
  assumes "fs_ready pid fs" and "first_element_len (metadata (part fs pid)) < 65536"
    and "filesystem_find_latest_element_address so pid fs = ((e, a, outs), fs')"
  shows "confined pid fs fs'
    \<and> (case outs of None \<Rightarrow> a = first_element_address (part fs pid) \<and> e \<noteq> NRF_SUCCESS | Some (rid, len) \<Rightarrow> position_ok pid fs a rid len)"
proof -
  let ?s = "first_element_address (part fs pid)"
  obtain r fs1 where n: "filesystem_read_element_header so pid ?s fs = (r, fs1)" by fastforce
  have c: "confined pid fs fs1" using confined_read_element_header[OF assms(1), of ?s] n by simp
  note rd1 = confined_ready[OF c assms(1)]
  show ?thesis
  proof (cases r)
    case (Inl x)
    have "x \<noteq> NRF_SUCCESS" using n Inl
      by (auto simp: filesystem_read_element_header_def read_first_header_def store_verified_def elim!: attempt_error split: if_splits)
    with assms(3) n c Inl show ?thesis by (simp add: filesystem_find_latest_element_address_def)
  next
    case (Inr h)
    obtain e' a' rid' len' fs2 where l: "find_latest_loop so pid (first_element_len (metadata (part fs pid))) ?s (record_id h)
        (first_element_len (metadata (part fs pid))) fs1 = (e', (a', rid', len'), fs2)" by (metis prod_cases3)
    have "position_ok pid fs ?s (record_id h) (first_element_len (metadata (part fs pid)))"
      using assms(2) read_element_header_ok[OF n[unfolded Inr]] by (simp add: position_ok_def header_ok_def)
    then have "confined pid fs1 fs2 \<and> position_ok pid fs1 a' rid' len'"
      using find_latest_loop_confined[OF rd1 _ assms(2) l] position_ok_confined[OF c] by simp
    with assms(3) n Inr l c show ?thesis
      by (auto simp: filesystem_find_latest_element_address_def position_ok_confined[OF c] intro: confined_trans split: if_splits)
  qed
qed

end

end
