(* ===== verification/FS_Layout.thy ===== *)
theory FS_Layout
  imports FS_Correct
begin

text \<open>
  The layout invariant of the filesystem: the registered partitions lie one behind the other on
  whole storage units, behind the swap page and inside the storage.  Registration establishes it
  for the new partition, and every operation on a partition keeps it.
\<close>

definition part_end :: "partition \<Rightarrow> nat" where
  "part_end p = first_element_address p + partition_size (metadata p)"

lemma pid_index_small: "i < MAX_NUMBER_OF_PARTITIONS \<Longrightarrow> pid_index i = i"
  by (simp add: pid_index_def MAX_NUMBER_OF_PARTITIONS_def take_bit_nat_eq_self)

context storage_device
begin

definition slot_ok :: "nat \<Rightarrow> partition \<Rightarrow> bool" where
  "slot_ok i p \<longleftrightarrow> (let pid = partition_id (metadata p) in
     pid_index pid = i \<and> pid < 65536 \<and> well_placed pid p \<and> cursor_ok p)"

definition fs_layout :: "'s filesystem \<Rightarrow> bool" where
  "fs_layout fs \<longleftrightarrow> ready (storage fs) \<and> SWAP_PAGE_SIZE \<le> so_get_size so
     \<and> length (partitions fs) = MAX_NUMBER_OF_PARTITIONS \<and> length (partition_iterators fs) = MAX_NUMBER_OF_PARTITIONS
     \<and> number_of_partitions fs \<le> MAX_NUMBER_OF_PARTITIONS
     \<and> swap_end \<le> next_free_address fs \<and> next_free_address fs \<le> so_get_size so
     \<and> (\<forall>i < number_of_partitions fs. slot_ok i (partitions fs ! i) \<and> part_end (partitions fs ! i) \<le> next_free_address fs)
     \<and> (\<forall>i j. i < j \<and> j < number_of_partitions fs \<longrightarrow> part_end (partitions fs ! i) \<le> first_element_address (partitions fs ! j))"

lemma layout_ready:
  assumes "fs_layout fs" and "registered_in fs pid"
  shows "fs_ready pid fs" "cursor_ok (part fs pid)" "pid < 65536"
  using assms by (auto simp: fs_layout_def registered_in_def fs_ready_def slot_ok_def part_def Let_def)

lemma confined_slots:
  assumes "confined pid fs fs'" and "i < MAX_NUMBER_OF_PARTITIONS" and "i \<noteq> pid_index pid"
  shows "partitions fs' ! i = partitions fs ! i"
proof -
  have "pid_index i \<noteq> pid_index pid" using assms by (simp add: pid_index_small)
  with assms(1) have "part fs' i = part fs i" by (simp add: confined_def)
  then show ?thesis using assms(2) by (simp add: part_def pid_index_small)
qed

lemma layout_confined:
  assumes lay: "fs_layout fs" and reg: "registered_in fs pid" and c: "confined pid fs fs'" and co: "cursor_ok (part fs' pid)"
  shows "fs_layout fs' \<and> registered_in fs' pid"
proof -
  note rd = layout_ready(1)[OF lay reg]
  note rd' = confined_ready[OF c rd]
  have ext: "same_extent pid (part fs pid) (part fs' pid)" by (rule confined_extent[OF c])
  have slot: "slot_ok i (partitions fs' ! i) \<and> part_end (partitions fs' ! i) = part_end (partitions fs ! i)
      \<and> first_element_address (partitions fs' ! i) = first_element_address (partitions fs ! i)"
    if i: "i < number_of_partitions fs" for i
  proof (cases "i = pid_index pid")
    case True
    have "slot_ok i (part fs pid)" using lay i True by (simp add: fs_layout_def part_def)
    with ext co rd' reg have "slot_ok i (part fs' pid)"
      by (simp add: slot_ok_def same_extent_def registered_in_def fs_ready_def Let_def)
    with ext True show ?thesis by (simp add: part_def same_extent_def part_end_def)
  next
    case False
    with i lay confined_slots[OF c, of i] show ?thesis by (simp add: fs_layout_def)
  qed
  have "number_of_partitions fs' = number_of_partitions fs" "next_free_address fs' = next_free_address fs"
    "length (partitions fs') = length (partitions fs)" "length (partition_iterators fs') = length (partition_iterators fs)"
    "ready (storage fs')"
    using c rd by (simp_all add: confined_def)
  with lay slot have "fs_layout fs'" by (auto simp: fs_layout_def)
  moreover have "registered_in fs' pid" using reg ext c by (simp add: registered_in_def same_extent_def confined_def)
  ultimately show ?thesis by simp
qed

subsection \<open>Registration\<close>

lemma available_size_result:
  assumes "filesystem_compute_available_size so start required fs = Inr available" and "ready (storage fs)"
  shows "ustart start = start" "0 < available" "start + available \<le> so_get_size so"
    "uend (start + available - 1) = start + available - 1"
proof -
  define n where "n = (if so_get_size so - start > required then required else so_get_size so - start)"
  define u where "u = uend (start + n - 1)"
  from assms(1) have st: "start < so_get_size so" "required \<noteq> 0"
    by (auto simp: filesystem_compute_available_size_def split: if_splits)
  have sub: "u32_sub (so_get_size so) start = so_get_size so - start" using st size_bound by simp
  have n: "0 < n" "start + n \<le> so_get_size so" using st by (auto simp: n_def)
  have lim: "so_limits so start n (storage fs) = Inr (ustart start, u)"
    using limits_law[of "storage fs" start n] assms(2) n size_bound by (simp add: u_def)
  have e: "start + n - 1 < so_get_size so" using n by simp
  have ue: "start + n - 1 \<le> u" "u < so_get_size so" "uend u = u"
    using unit_around[OF e] unit_idem(1)[OF e] by (simp_all add: u_def)
  from assms(1) st lim sub have *: "ustart start = start" "available = u32_add (u32_sub u (ustart start)) 1"
    by (auto simp: filesystem_compute_available_size_def Let_def n_def split: if_splits)
  have "u32_sub u start = u - start" using ue n size_bound by (intro u32_sub_id) linarith+
  moreover have "u32_add (u - start) 1 = u - start + 1" using ue size_bound by (intro u32_add_id) linarith
  ultimately have "available = u - start + 1" using * by simp
  then show "ustart start = start" "0 < available" "start + available \<le> so_get_size so"
    "uend (start + available - 1) = start + available - 1"
    using * ue n by auto
qed

text \<open>
  The states a registration goes through: the array entry has been written, and the calls on the
  new partition have been confined to it.
\<close>

lemma layout_unregistered:
  assumes lay: "fs_layout fs" and n: "number_of_partitions fs < MAX_NUMBER_OF_PARTITIONS"
    and pid: "pid_index pid = number_of_partitions fs" and c: "confined pid (upd_part pid f fs) fs'"
    and rd: "ready (storage fs')"
  shows "fs_layout fs'" "\<forall>i < number_of_partitions fs. partitions fs' ! i = partitions fs ! i"
proof -
  have slots: "\<forall>i < number_of_partitions fs. partitions fs' ! i = partitions fs ! i"
  proof (intro allI impI)
    fix i assume "i < number_of_partitions fs"
    with n pid confined_slots[OF c, of i] show "partitions fs' ! i = partitions fs ! i"
      by (simp add: upd_part_def)
  qed
  then show "\<forall>i < number_of_partitions fs. partitions fs' ! i = partitions fs ! i" .
  from c have "number_of_partitions fs' = number_of_partitions fs" "next_free_address fs' = next_free_address fs"
    "length (partitions fs') = length (partitions fs)" "length (partition_iterators fs') = length (partition_iterators fs)"
    by (simp_all add: confined_def)
  with lay slots rd show "fs_layout fs'" by (auto simp: fs_layout_def)
qed

lemma layout_register:
  assumes lay: "fs_layout fs" and lay': "fs_layout fs'" and n: "number_of_partitions fs' = number_of_partitions fs"
    "number_of_partitions fs < MAX_NUMBER_OF_PARTITIONS" and nf: "next_free_address fs' = next_free_address fs"
    and pid: "pid_index pid = number_of_partitions fs" "pid < 65536" "partition_id (metadata (part fs' pid)) = pid"
    and wp: "well_placed pid (part fs' pid)" and co: "cursor_ok (part fs' pid)"
    and at: "first_element_address (part fs' pid) = next_free_address fs" "partition_size (metadata (part fs' pid)) = available"
  shows "fs_layout (fs'\<lparr>next_free_address := next_free_address fs + available, number_of_partitions := number_of_partitions fs + 1\<rparr>)"
proof -
  let ?n = "number_of_partitions fs" and ?p = "part fs' pid"
  have p: "partitions fs' ! ?n = ?p" by (simp add: part_def pid)
  have slot: "slot_ok ?n ?p" using pid wp co by (simp add: slot_ok_def)
  have lim: "next_free_address fs + available \<le> so_get_size so" using wp at by (simp add: well_placed_def Let_def)
  show ?thesis
    using lay' n nf p slot lim at
    by (auto simp: fs_layout_def less_Suc_eq part_end_def)
qed

lemma first_len_width: "first_element_len (filesystem_deserialize_metadata t) < 65536"
  by (simp add: filesystem_deserialize_metadata_def be16_less)

lemma read_first_header_decoded:
  assumes "read_first_header so pid a fs = (Inr (tmp, md, h), fs')"
  shows "only_storage fs fs' \<and> first_element_len md < 65536"
proof -
  have "only_storage fs (snd (read_first_header so pid a fs))"
    unfolding read_first_header_def by (intro only_storage_attempt only_storage_call) auto
  with assms show ?thesis
    by (auto simp: read_first_header_def first_len_width elim!: attempt_success)
qed

lemma read_header_first_len:
  assumes "filesystem_read_element_header so pid (first_element_address (part fs pid)) fs = (Inr h, fs')"
    and "pid_index pid < length (partitions fs)"
  shows "first_element_len (metadata (part fs' pid)) < 65536"
proof -
  have upd: "first_element_len (metadata (part (upd_part pid (\<lambda>p. p\<lparr>metadata := md\<rparr>) fs1) pid)) < 65536"
    if "only_storage fs fs1" "first_element_len md < 65536" for md fs1
    using that assms(2) only_storage_part[OF that(1), of pid] by (simp add: part_upd_part)
  have sv: "only_storage fs1 fs2" if "store_verified so a bs fs1 = (Inr (), fs2)" for a bs fs1 fs2
    using only_storage_store_verified[of fs1 so a bs] that by simp
  show ?thesis
    using assms(1) unfolding filesystem_read_element_header_def
    by (auto elim!: attempt_success split: if_splits intro!: upd
        dest!: read_first_header_decoded sv) (meson only_storage_trans)
qed

text \<open>The entry of the partition array that a registration writes is placed correctly.\<close>

lemma new_partition_placed:
  assumes lay: "fs_layout fs" and n: "number_of_partitions fs < MAX_NUMBER_OF_PARTITIONS"
    and av: "filesystem_compute_available_size so (next_free_address fs) required fs = Inr available"
    and sz: "PARTITION_METADATA_SIZE + filesystem_get_element_header_len pid \<le> available"
    and el: "elen < 65536" and pid: "pid_index pid = number_of_partitions fs"
  defines "u \<equiv> upd_part pid (new_partition pid (next_free_address fs) available elen) fs"
  shows "fs_ready pid u" "cursor_ok (part u pid)" "partition_id (metadata (part u pid)) = pid"
    "first_element_address (part u pid) = next_free_address fs" "partition_size (metadata (part u pid)) = available"
proof -
  have rd: "ready (storage fs)" using lay by (simp add: fs_layout_def)
  note a = available_size_result[OF av rd]
  have p: "part u pid = new_partition pid (next_free_address fs) available elen (part fs pid)"
    using lay n pid by (simp add: u_def part_upd_part fs_layout_def)
  show "fs_ready pid u" using lay n pid a sz el
    by (simp add: fs_ready_def p well_placed_def new_partition_def Let_def fs_layout_def) (simp add: u_def)
  show "cursor_ok (part u pid)" "partition_id (metadata (part u pid)) = pid"
    "first_element_address (part u pid) = next_free_address fs" "partition_size (metadata (part u pid)) = available"
    by (simp_all add: p new_partition_def cursor_ok_def)
qed

lemma registration_steps:
  assumes lay: "fs_layout fs" and n: "number_of_partitions fs < MAX_NUMBER_OF_PARTITIONS"
    and pid: "pid_index pid = number_of_partitions fs" "pid < 65536"
    and u: "fs_ready pid (upd_part pid f fs)" "partition_id (metadata (part (upd_part pid f fs) pid)) = pid"
      "first_element_address (part (upd_part pid f fs) pid) = next_free_address fs"
      "partition_size (metadata (part (upd_part pid f fs) pid)) = available"
    and c: "confined pid (upd_part pid f fs) fs'"
  defines "fs'' \<equiv> fs'\<lparr>next_free_address := u32_add (next_free_address fs) available,
      number_of_partitions := number_of_partitions fs' + 1\<rparr>"
  shows "fs_layout fs'" "\<forall>i < number_of_partitions fs. partitions fs' ! i = partitions fs ! i"
    "\<forall>x. swap_end \<le> x \<and> x < next_free_address fs \<longrightarrow> cont (storage fs') x = cont (storage fs) x"
    "cursor_ok (part fs' pid) \<Longrightarrow> fs_layout fs'' \<and> registered_in fs'' pid
      \<and> first_element_address (part fs'' pid) = next_free_address fs \<and> partition_size (metadata (part fs'' pid)) = available
      \<and> number_of_partitions fs'' = number_of_partitions fs + 1 \<and> next_free_address fs'' = next_free_address fs + available"
proof -
  note rd' = confined_ready[OF c u(1)]
  show lay': "fs_layout fs'" and "\<forall>i < number_of_partitions fs. partitions fs' ! i = partitions fs ! i"
    using layout_unregistered[OF lay n pid(1) c] rd' by (simp_all add: fs_ready_def)
  show "\<forall>x. swap_end \<le> x \<and> x < next_free_address fs \<longrightarrow> cont (storage fs') x = cont (storage fs) x"
    using c u by (auto simp: confined_def part_range_def)
  assume co: "cursor_ok (part fs' pid)"
  have ext: "partition_id (metadata (part fs' pid)) = pid" "first_element_address (part fs' pid) = next_free_address fs"
    "partition_size (metadata (part fs' pid)) = available"
    using confined_extent[OF c] u by (simp_all add: same_extent_def)
  have nn: "number_of_partitions fs' = number_of_partitions fs" "next_free_address fs' = next_free_address fs"
    using c by (simp_all add: confined_def)
  have "next_free_address fs + available \<le> so_get_size so" using ready_addresses(2)[OF u(1)] u by simp
  then have nf: "u32_add (next_free_address fs) available = next_free_address fs + available" using size_bound by simp
  have "fs_layout fs''" unfolding fs''_def nf nn(1)
    by (rule layout_register[OF lay lay' nn(1) n nn(2) pid ext(1) _ co ext(2,3)]) (use rd' in \<open>simp add: fs_ready_def\<close>)
  moreover have "registered_in fs'' pid" using pid ext(1) nn by (simp add: registered_in_def fs''_def part_def)
  ultimately show "fs_layout fs'' \<and> registered_in fs'' pid
      \<and> first_element_address (part fs'' pid) = next_free_address fs \<and> partition_size (metadata (part fs'' pid)) = available
      \<and> number_of_partitions fs'' = number_of_partitions fs + 1 \<and> next_free_address fs'' = next_free_address fs + available"
    using ext nn nf by (simp add: fs''_def part_def)
qed

text \<open>What a registration leaves behind, whatever its outcome.\<close>

definition registration_post :: "'s filesystem \<Rightarrow> nat \<Rightarrow> (nat \<times> nat, 's filesystem) outcome \<Rightarrow> bool" where
  "registration_post fs pid r \<longleftrightarrow> (let fs' = snd r in
     fs_layout fs' \<and> (\<forall>i < number_of_partitions fs. partitions fs' ! i = partitions fs ! i)
     \<and> (\<forall>x. swap_end \<le> x \<and> x < next_free_address fs \<longrightarrow> cont (storage fs') x = cont (storage fs) x)
     \<and> (\<forall>q granted. fst r = Inr (q, granted) \<longrightarrow> q = pid \<and> registered_in fs' pid
         \<and> first_element_address (part fs' pid) = next_free_address fs \<and> partition_size (metadata (part fs' pid)) = granted
         \<and> number_of_partitions fs' = number_of_partitions fs + 1 \<and> next_free_address fs' = next_free_address fs + granted))"

lemma recover_confined:
  assumes rd: "fs_ready pid fs" and co: "cursor_ok (part fs pid)" and start: "start = first_element_address (part fs pid)"
    and r: "recover_latest so pid start fs = (res, fs')"
  shows "confined pid fs fs' \<and> (res = Inr () \<longrightarrow> cursor_ok (part fs' pid))"
proof -
  obtain r1 fs1 where h: "filesystem_read_element_header so pid start fs = (r1, fs1)" by fastforce
  have c1: "confined pid fs fs1" using confined_read_element_header[OF rd, of start] h by simp
  have ck: "cursors_kept fs fs1" using cursors_kept_read_header[of fs so pid start] h by simp
  note rd1 = confined_ready[OF c1 rd]
  note e1 = confined_extent[OF c1]
  have ix: "pid_index pid < length (partitions fs)" "pid_index pid < length (partitions fs1)"
    using rd rd1 by (simp_all add: fs_ready_def)
  show ?thesis
  proof (cases r1)
    case (Inl e)
    have "cursor_ok (part fs1 pid)"
      using co e1 cursors_kept_fields[OF ck, of pid] by (simp add: cursor_ok_def same_extent_def)
    with r h Inl c1 ix show ?thesis
      by (auto simp: recover_latest_def part_upd_part cursor_ok_def same_extent_def
          intro!: confined_trans[OF c1] confined_upd_part split: if_splits)
  next
    case (Inr hd)
    have "first_element_len (metadata (part fs1 pid)) < 65536"
      using read_header_first_len h Inr start ix(1) by simp
    moreover obtain e a outs fs2 where f: "filesystem_find_latest_element_address so pid fs1 = ((e, a, outs), fs2)"
      by (metis prod.collapse)
    ultimately have fl: "confined pid fs1 fs2"
      "case outs of None \<Rightarrow> e \<noteq> NRF_SUCCESS | Some (rid, len) \<Rightarrow> position_ok pid fs1 a rid len"
      using find_latest_confined[OF rd1] by (auto split: option.splits)
    let ?f = "\<lambda>p. case outs of None \<Rightarrow> p\<lparr>latest_element_address := a\<rparr>
        | Some (rid, len) \<Rightarrow> p\<lparr>latest_element_address := a, latest_element_record_id := rid, latest_element_len := u16 len\<rparr>"
    have ext: "same_extent pid p (?f p)" for p by (auto simp: same_extent_def split: option.splits)
    note c2 = confined_trans[OF c1 fl(1)]
    have ix2: "pid_index pid < length (partitions fs2)" using confined_ready[OF c2 rd] by (simp add: fs_ready_def)
    have co2: "cursor_ok (?f (part fs2 pid))" if "e = NRF_SUCCESS"
      using fl(2) that confined_extent[OF fl(1)] by (auto simp: cursor_ok_def position_ok_def same_extent_def split: option.splits)
    have c3: "confined pid fs (upd_part pid ?f fs2)" by (rule confined_trans[OF c2 confined_upd_part], rule ext)
    from r h Inr f have fs': "(e \<noteq> NRF_SUCCESS \<and> res = Inl e \<and> fs' = upd_part pid ?f fs2)
      \<or> (e = NRF_SUCCESS \<and> fs' = upd_part pid (\<lambda>p. p\<lparr>has_first_element := True\<rparr>) (upd_part pid ?f fs2))"
      by (auto simp: recover_latest_def Let_def split: if_splits)
    then show ?thesis
    proof (elim disjE conjE)
      assume s: "e = NRF_SUCCESS" "fs' = upd_part pid (\<lambda>p. p\<lparr>has_first_element := True\<rparr>) (upd_part pid ?f fs2)"
      have "cursor_ok (part fs' pid)" using co2[OF s(1)] ix2 by (simp add: s(2) part_upd_part cursor_ok_def)
      moreover have "confined pid fs fs'"
        unfolding s(2) by (rule confined_trans[OF c3 confined_upd_part]) (simp add: same_extent_def)
      ultimately show ?thesis by simp
    qed (use c3 in simp)
  qed
qed

lemma register_result:
  assumes lay: "fs_layout fs" and el: "element_len < 65536"
  shows "registration_post fs (registered_id (number_of_partitions fs) is_dynamic enable_crc)
    (filesystem_register_partition so required is_dynamic enable_crc element_len fs)"
proof -
  let ?n = "number_of_partitions fs" and ?el = "if is_dynamic then 0 else element_len" and ?s = "next_free_address fs"
  define pid where "pid = registered_id ?n is_dynamic enable_crc"
  define r where "r = filesystem_register_partition so required is_dynamic enable_crc element_len fs"
  have "registration_post fs pid r"
  proof (cases "?n < MAX_NUMBER_OF_PARTITIONS \<and> (is_dynamic \<or> element_len \<noteq> 0)
      \<and> (\<exists>v. filesystem_compute_available_size so ?s required fs = Inr v)")
    case False
    then have "snd r = fs \<and> (\<exists>e. fst r = Inl e)"
      by (auto simp: r_def filesystem_register_partition_def Let_def split: sum.splits)
    with lay show ?thesis by (auto simp: registration_post_def)
  next
    case True
    then obtain available where n: "?n < MAX_NUMBER_OF_PARTITIONS" and av: "filesystem_compute_available_size so ?s required fs = Inr available"
      and st: "is_dynamic \<or> element_len \<noteq> 0" by auto
    note pf = registered_id_facts[OF n, of is_dynamic enable_crc, folded pid_def]
    let ?new = "new_partition pid ?s available ?el"
    define u where "u = upd_part pid ?new fs"
    show ?thesis
    proof (cases "available < PARTITION_METADATA_SIZE + filesystem_get_element_header_len pid + ?el")
      case True
      then have "r = (Inl NRF_ERROR_NO_MEM, u)"
        using n av st by (auto simp: r_def filesystem_register_partition_def Let_def u_def pid_def)
      moreover have "fs_layout u" "\<forall>i < ?n. partitions u ! i = partitions fs ! i"
        using layout_unregistered[OF lay n pf(1), of ?new u] lay by (simp_all add: u_def fs_layout_def)
      ultimately show ?thesis by (simp add: registration_post_def u_def)
    next
      case False
      have np: "fs_ready pid u" "cursor_ok (part u pid)" "partition_id (metadata (part u pid)) = pid"
        "first_element_address (part u pid) = ?s" "partition_size (metadata (part u pid)) = available"
        using new_partition_placed[OF lay n av _ _ pf(1), of ?el] False el by (simp_all add: u_def)
      note steps = registration_steps[OF lay n pf(1,4) np(1,3,4,5)[unfolded u_def], folded u_def]
      obtain e fs2 where rc: "recover_latest so pid ?s u = (e, fs2)" by fastforce
      have r: "r = attempt id (recover_latest so pid ?s u) (\<lambda>_ fs1. (Inr (pid, available),
          fs1\<lparr>next_free_address := u32_add ?s available, number_of_partitions := number_of_partitions fs1 + 1\<rparr>))"
        using False n av st by (auto simp: r_def filesystem_register_partition_def Let_def u_def pid_def)
      note c = recover_confined[OF np(1,2) np(4)[symmetric] rc]
      show ?thesis
      proof (cases e)
        case (Inl x)
        with r rc steps(1-3)[of fs2] c show ?thesis by (simp add: registration_post_def Let_def)
      next
        case (Inr y)
        with c have "cursor_ok (part fs2 pid)" by simp
        with r rc steps[of fs2] c Inr show ?thesis by (auto simp: registration_post_def Let_def)
      qed
    qed
  qed
  then show ?thesis by (simp add: pid_def r_def)
qed

subsection \<open>Every call keeps the layout\<close>

text \<open>The position of the latest element after a call: as before, or inside the partition.\<close>

definition cursor_same :: "partition \<Rightarrow> partition \<Rightarrow> bool" where
  "cursor_same p q \<longleftrightarrow> latest_element_address q = latest_element_address p
     \<and> latest_element_len q = latest_element_len p \<and> latest_element_record_id q = latest_element_record_id p"

lemma cursors_kept_same: "cursors_kept fs fs' \<Longrightarrow> cursor_same (part fs pid) (part fs' pid)"
  by (simp add: cursor_same_def cursors_kept_fields)

lemma cursor_same_ok: "cursor_same p q \<Longrightarrow> same_extent pid p q \<Longrightarrow> cursor_ok p \<Longrightarrow> cursor_ok q"
  by (simp add: cursor_same_def same_extent_def cursor_ok_def)

lemma cursor_same_trans: "cursor_same p q \<Longrightarrow> cursor_same q r \<Longrightarrow> cursor_same p r"
  by (simp add: cursor_same_def)

lemma layout_step_same:
  assumes "fs_layout fs" and "registered_in fs pid" and "confined pid fs fs'" and "cursor_same (part fs pid) (part fs' pid)"
  shows "fs_layout fs' \<and> registered_in fs' pid"
  using layout_confined[OF assms(1-3)] cursor_same_ok[OF assms(4) confined_extent[OF assms(3)]] layout_ready(2)[OF assms(1,2)]
  by simp

lemma place_element_cursor:
  assumes "place_element so pid a rid px d len fs = (r, fs')" and "pid_index pid < length (partitions fs)"
  shows "cursor_same (part fs pid) (part fs' pid)
    \<or> latest_element_address (part fs' pid) = a \<and> latest_element_record_id (part fs' pid) = rid \<and> latest_element_len (part fs' pid) = len"
proof -
  let ?h = "\<lparr>record_id = rid, previous_len_XOR_cur_len = px, element_crc = crc16_compute d None\<rparr>"
  define u where "u = (if a = first_element_address (part fs pid)
    then upd_part pid (\<lambda>p. p\<lparr>metadata := first_element_metadata pid len ?h p, first_element_header := ?h\<rparr>) fs else fs)"
  have su: "cursor_same (part fs pid) (part u pid)" and lu: "length (partitions u) = length (partitions fs)"
    using assms(2) by (auto simp: u_def cursor_same_def part_upd_part)
  have w: "only_storage fs1 (snd (write_element so pid a ?h d fs1))" for fs1
    unfolding write_element_def Let_def by (intro only_storage_attempt only_storage_store_verified only_storage_call) auto
  define rw where "rw = attempt id (backup_if_first_unit so pid a len u) (\<lambda>_. write_element so pid a ?h d)"
  have os: "only_storage u (snd rw)"
    unfolding rw_def by (intro only_storage_attempt only_storage_backup_if w)
  have eq: "(r, fs') = attempt id rw (\<lambda>_ fs. (Inr (), upd_part pid (\<lambda>p. p\<lparr>latest_element_address := a, latest_element_record_id := rid,
                      latest_element_len := len, has_first_element := True\<rparr>) fs))"
    using assms(1) unfolding place_element_def Let_def rw_def u_def[symmetric]
    by (auto simp: attempt_def split: prod.splits sum.splits)
  have "part fs' pid \<in> {part u pid, (part u pid)\<lparr>latest_element_address := a, latest_element_record_id := rid,
                      latest_element_len := len, has_first_element := True\<rparr>}"
    using part_after_update[OF os] eq assms(2) lu by (metis snd_conv)
  with su show ?thesis by (auto simp: cursor_same_def)
qed

lemma store_element_cursor:
  assumes lay: "fs_layout fs" and reg: "registered_in fs pid" and el: "element_len < 65536"
  shows "cursor_ok (part (snd (filesystem_store_element so pid element_data element_len fs)) pid)"
proof -
  let ?p = "part fs pid" and ?fs' = "snd (filesystem_store_element so pid element_data element_len fs)"
  define len where "len = (if pid_dynamic pid then element_len else first_element_len (metadata ?p))"
  note rd = layout_ready(1)[OF lay reg] and co = layout_ready(2)[OF lay reg]
  have pid: "partition_id (metadata ?p) = pid" using reg by (simp add: registered_in_def)
  note ext = confined_extent[OF confined_store_element[OF rd co el pid, of element_data]]
  obtain a rid px where np: "next_position pid len ?p = (a, rid, px)" by (metis prod_cases3)
  have wp: "well_placed pid ?p" using rd by (simp add: fs_ready_def)
  then have ll: "len < 65536" using el by (simp add: len_def well_placed_def Let_def)
  note b = next_position_bounds[OF np wp co ll]
  have "cursor_same ?p (part ?fs' pid) \<or> a + header_len_at pid (first_element_address ?p) a + len \<le> part_end ?p
      \<and> latest_element_address (part ?fs' pid) = a \<and> latest_element_record_id (part ?fs' pid) = rid \<and> latest_element_len (part ?fs' pid) = len"
  proof -
    obtain r1 fs1 where 1: "filesystem_check_iterator_conflict so pid a len fs = (r1, fs1)" by fastforce
    obtain r2 fs2 where 2: "clear_stale_successor so pid a rid len fs1 = (r2, fs2)" by fastforce
    obtain r3 fs3 where 3: "place_element so pid a rid px (take len element_data) len fs2 = (r3, fs3)" by fastforce
    have k1: "cursors_kept fs fs1" using cursors_kept_conflict[of fs so pid a len] 1 by simp
    have k2: "cursors_kept fs fs2" using cursors_kept_clear_stale[of fs1 so pid a rid len] 2 k1 by (auto intro: cursors_kept_trans)
    have c1: "confined pid fs fs1" using confined_conflict[OF rd, of a len] 1 by simp
    have a1: "first_element_address (part fs1 pid) \<le> a" using confined_extent[OF c1] b(1) by (simp add: same_extent_def)
    have c2: "confined pid fs1 fs2" using confined_clear_stale[OF confined_ready[OF c1 rd] a1 b(2) ll, of rid] 2 by simp
    have ix: "pid_index pid < length (partitions fs2)"
      using confined_ready[OF c2 confined_ready[OF c1 rd]] by (simp add: fs_ready_def)
    note p3 = place_element_cursor[OF 3 ix]
    have same: "cursor_same ?p (part fs1 pid)" "cursor_same ?p (part fs2 pid)" using k1 k2 cursors_kept_same by blast+
    have "?fs' \<in> {fs, fs1, fs2} \<or> ?fs' = fs3 \<and> a + header_len_at pid (first_element_address ?p) a + len \<le> part_end ?p"
      unfolding filesystem_store_element_def Let_def len_def[symmetric] np prod.case b(5,6)
      by (cases r1; cases r2) (auto simp: 1 2 3 part_end_def)
    then show ?thesis using same p3 by (auto simp: cursor_same_def)
  qed
  then show ?thesis
  proof (elim disjE conjE)
    assume "cursor_same ?p (part ?fs' pid)"
    from cursor_same_ok[OF this ext co] show ?thesis .
  qed (use ext b ll in \<open>simp add: cursor_ok_def same_extent_def part_end_def\<close>)
qed

lemma clear_partition_cursor:
  assumes lay: "fs_layout fs" and reg: "registered_in fs pid"
  shows "cursor_ok (part (snd (filesystem_clear_partition so pid fs)) pid)"
proof -
  let ?p = "part fs pid" and ?fs' = "snd (filesystem_clear_partition so pid fs)"
  let ?s = "first_element_address ?p"
  let ?blank = "replicate (PARTITION_METADATA_SIZE + filesystem_get_element_header_len pid) (0xFF :: byte)"
  note rd = layout_ready(1)[OF lay reg] and co = layout_ready(2)[OF lay reg]
  note ext = confined_extent[OF confined_clear_partition[OF rd]]
  let ?rest = "\<lambda>rid fs. attempt internal (filesystem_backup_first_element_header so
            (filesystem_get_swap_page_address_of_partition pid) ?blank fs) (\<lambda>_ fs.
        attempt id (store_verified so ?s ?blank fs) (\<lambda>_ fs.
        (Inr (), upd_part pid (\<lambda>p. p\<lparr>has_first_element := False, first_element_address := ?s,
           latest_element_address := ?s, latest_element_record_id := rid, latest_element_len := 0\<rparr>) fs)))"
  obtain r1 fs1 where 1: "filesystem_read_element_header so pid ?s fs = (r1, fs1)" by fastforce
  have k1: "cursor_same ?p (part fs1 pid)" using cursors_kept_same[OF cursors_kept_read_header[of fs so pid ?s]] 1 by simp
  have ix: "pid_index pid < length (partitions fs1)"
    using confined_ready[OF _ rd, of fs1] confined_read_element_header[OF rd, of ?s] 1 by (simp add: fs_ready_def)
  have rest: "cursor_same ?p (part (snd (?rest rid fs1)) pid) \<or> latest_element_address (part (snd (?rest rid fs1)) pid) = ?s
      \<and> latest_element_record_id (part (snd (?rest rid fs1)) pid) = rid \<and> latest_element_len (part (snd (?rest rid fs1)) pid) = 0" for rid
  proof -
    let ?bk = "filesystem_backup_first_element_header so (filesystem_get_swap_page_address_of_partition pid) ?blank fs1"
    let ?g = "\<lambda>p. p\<lparr>has_first_element := False, first_element_address := ?s,
           latest_element_address := ?s, latest_element_record_id := rid, latest_element_len := 0\<rparr>"
    have "?rest rid fs1 = attempt id (attempt internal ?bk (\<lambda>_. store_verified so ?s ?blank)) (\<lambda>_ fs. (Inr (), upd_part pid ?g fs))"
      by (auto simp: attempt_def split: prod.splits sum.splits)
    moreover have "only_storage fs1 (snd (attempt internal ?bk (\<lambda>_. store_verified so ?s ?blank)))"
      by (intro only_storage_attempt only_storage_backup only_storage_store_verified)
    ultimately have "part (snd (?rest rid fs1)) pid \<in> {part fs1 pid, ?g (part fs1 pid)}"
      using part_after_update[OF _ ix] by metis
    then show ?thesis using k1 by (auto simp: cursor_same_def)
  qed
  have "cursor_same ?p (part ?fs' pid) \<or> latest_element_address (part ?fs' pid) = ?s
      \<and> latest_element_record_id (part ?fs' pid) < 65536 \<and> latest_element_len (part ?fs' pid) = 0"
  proof (cases r1)
    case (Inl e)
    then have "?fs' = fs1 \<or> ?fs' = snd (?rest 1 fs1)" by (simp add: filesystem_clear_partition_def 1 Let_def)
    with rest[of 1] k1 show ?thesis by auto
  next
    case (Inr h)
    then have "?fs' = snd (?rest (increment_record_id (record_id h)) fs1)" by (simp add: filesystem_clear_partition_def 1 Let_def)
    with rest[of "increment_record_id (record_id h)"] valid_rid_less[OF valid_rid_increment] show ?thesis by auto
  qed
  then show ?thesis
  proof (elim disjE conjE)
    assume "cursor_same ?p (part ?fs' pid)"
    from cursor_same_ok[OF this ext co] show ?thesis .
  qed (use ext in \<open>simp add: cursor_ok_def same_extent_def\<close>)
qed

lemma iterator_init_cursor: "cursor_same (part fs pid) (part (snd (filesystem_iterator_init so pid fs)) pid)"
proof -
  let ?u1 = "upd_iter pid (\<lambda>i. i\<lparr>iterator_valid := 0\<rparr>) fs"
  let ?u2 = "upd_iter pid (\<lambda>i. i\<lparr>cur_element_address := latest_element_address (part ?u1 pid),
      cur_element_len := latest_element_len (part ?u1 pid)\<rparr>) ?u1"
  obtain r fs1 where r: "filesystem_read_element_header so pid (cur_element_address (iter ?u2 pid)) ?u2 = (r, fs1)" by fastforce
  have "cursor_same (part fs pid) (part fs1 pid)"
    using cursors_kept_same[OF cursors_kept_read_header[of ?u2 so pid "cur_element_address (iter ?u2 pid)"], of pid] r by simp
  then show ?thesis
    by (cases r) (auto simp: filesystem_iterator_init_def Let_def r[simplified] cursor_same_def)
qed

lemma cursor_same_attempt:
  assumes "cursor_same (part fs pid) (part (snd r) pid)"
    and "\<And>x fs1. r = (Inr x, fs1) \<Longrightarrow> cursor_same (part fs1 pid) (part (snd (k x fs1)) pid)"
  shows "cursor_same (part fs pid) (part (snd (attempt f r k)) pid)"
  using assms by (cases r; cases "fst r") (auto intro: cursor_same_trans)

lemma cursor_same_upd_iter [simp]: "cursor_same (part fs q) (part (upd_iter pid f fs) q)" "cursor_same p p"
  by (simp_all add: cursor_same_def)

lemma iterator_calls_cursor:
  "cursor_same (part fs pid) (part (snd (filesystem_iterator_next so pid fs)) pid)"
  "cursor_same (part fs pid) (part (snd (filesystem_iterator_previous so pid fs)) pid)"
  "cursor_same (part fs pid) (part (snd (filesystem_iterator_read_element so pid fs)) pid)"
  unfolding filesystem_iterator_next_def filesystem_iterator_previous_def filesystem_iterator_read_element_def Let_def
  by (auto split: prod.splits intro!: cursor_same_attempt cursors_kept_same[OF cursors_kept_validity]
      cursors_kept_same[OF cursors_kept_next] cursors_kept_same[OF cursors_kept_previous] cursors_kept_same[OF cursors_kept_call])

theorem layout_step:
  assumes "fs_step so fs fs'" and "fs_layout fs"
  shows "fs_layout fs'"
  using assms
proof (induction rule: fs_step.induct)
  case (step_register element_len fs required is_dynamic enable_crc)
  from register_result[OF step_register(2,1)] show ?case by (simp add: registration_post_def Let_def)
next
  case (step_store fs pid element_len element_data)
  note rd = layout_ready[OF step_store(3,1)]
  have "partition_id (metadata (part fs pid)) = pid" using step_store(1) by (simp add: registered_in_def)
  from layout_confined[OF step_store(3,1) confined_store_element[OF rd(1,2) step_store(2) this]
      store_element_cursor[OF step_store(3,1,2)]] show ?case by simp
next
  case (step_clear fs pid)
  from layout_confined[OF step_clear(2,1) confined_clear_partition[OF layout_ready(1)[OF step_clear(2,1)]]
      clear_partition_cursor[OF step_clear(2,1)]] show ?case by simp
next
  case (step_iterator_init fs pid)
  from layout_step_same[OF step_iterator_init(2,1) confined_iterator_init iterator_init_cursor] layout_ready(1)[OF step_iterator_init(2,1)]
  show ?case by simp
next
  case (step_iterator_next fs pid)
  from layout_step_same[OF step_iterator_next(2,1) confined_iterator_next iterator_calls_cursor(1)] layout_ready(1)[OF step_iterator_next(2,1)]
  show ?case by simp
next
  case (step_iterator_previous fs pid)
  from layout_step_same[OF step_iterator_previous(2,1) confined_iterator_previous iterator_calls_cursor(2)]
    layout_ready(1)[OF step_iterator_previous(2,1)]
  show ?case by simp
next
  case (step_iterator_read fs pid)
  from layout_step_same[OF step_iterator_read(2,1) confined_iterator_read iterator_calls_cursor(3)] layout_ready(1)[OF step_iterator_read(2,1)]
  show ?case by simp
next
  case (step_iterator_invalidate fs pid)
  from layout_step_same[OF step_iterator_invalidate(2,1) confined_upd_iter cursor_same_upd_iter(1)] show ?case
    by (simp add: filesystem_iterator_invalidate_def)
qed

text \<open>The start: initialising leaves an empty layout.\<close>

lemma layout_init:
  assumes "filesystem_init so fs = (Inr (), fs')" and "SWAP_PAGE_SIZE \<le> so_get_size so"
    and "length (partitions fs) = MAX_NUMBER_OF_PARTITIONS" and "length (partition_iterators fs) = MAX_NUMBER_OF_PARTITIONS"
  shows "fs_layout fs' \<and> clean (storage fs') \<and> cont (storage fs') = cont (storage fs) \<and> number_of_partitions fs' = 0
    \<and> next_free_address fs' = swap_end"
proof -
  from assms(1) obtain s' where i: "so_init so (storage fs) = (Inr (), s')"
    and r: "filesystem_reset so (fs\<lparr>storage := s'\<rparr>) = (Inr (), fs')"
    unfolding filesystem_init_def by (auto elim!: attempt_success simp: fs_call_eq)
  from init_law[OF i] have cl: "clean s'" "cont s' = cont (storage fs)" by simp_all
  have pos: "0 < SWAP_PAGE_SIZE" "SWAP_PAGE_SIZE < 4294967296" by (simp_all add: SWAP_PAGE_SIZE_def)
  have lim: "so_limits so 0 SWAP_PAGE_SIZE s' = Inr (ustart 0, uend (SWAP_PAGE_SIZE - 1))"
    using limits_law[OF clean_ready[OF cl(1)], of 0 SWAP_PAGE_SIZE] assms(2) pos by simp
  have se: "swap_end \<le> so_get_size so" "u32_add (uend (SWAP_PAGE_SIZE - 1)) 1 = swap_end"
    using swap_end_bounds[OF assms(2)] size_bound by (simp_all add: swap_end_def)
  have "fs' = fs\<lparr>storage := s', number_of_partitions := 0, next_free_address := swap_end\<rparr>"
    using r lim se by (simp add: filesystem_reset_def)
  with cl clean_ready[OF cl(1)] se assms show ?thesis by (simp add: fs_layout_def)
qed

theorem layout_reachable:
  assumes "fs_reachable so fs" and "SWAP_PAGE_SIZE \<le> so_get_size so"
  shows "fs_layout fs"
  using assms(1)
proof (induction rule: fs_reachable.induct)
  case (booted fs0 fs)
  then show ?case using layout_init assms(2) by (simp add: fs_arrays_def)
qed (rule layout_step)

end

end
