(* ===== verification/Storage.thy ===== *)
theory Storage
  imports Filesystem
begin

text \<open>
  \<^verbatim>\<open>incl/storage_lib.c\<close>: several storage modules behind one linear address space.  The tables of
  function pointers of the file are a list of records of functions; an operation is split along
  the module boundaries and passed to the modules in order.
\<close>

section \<open>Modules and state\<close>

record 's storage_module =
  sm_init :: "'s \<Rightarrow> (unit, 's) outcome"
  sm_read :: "nat \<Rightarrow> nat \<Rightarrow> 's \<Rightarrow> (byte list, 's) outcome"
  sm_store :: "nat \<Rightarrow> byte list \<Rightarrow> 's \<Rightarrow> (unit, 's) outcome"
  sm_get_size :: nat
  sm_get_unit_size :: nat
  sm_clear :: "nat \<Rightarrow> nat \<Rightarrow> 's \<Rightarrow> (unit, 's) outcome"

text \<open>The static array \<open>storage_sizes\<close> has one cell per module.\<close>

record 's storage_state =
  storage_sizes :: "nat \<Rightarrow> nat"
  modules :: 's

definition sizes_of :: "'s storage_module list \<Rightarrow> 's storage_state \<Rightarrow> nat list" where
  "sizes_of ms st = map (storage_sizes st) [0..<length ms]"

definition on_modules :: "('s \<Rightarrow> ('a, 's) outcome) \<Rightarrow> 's storage_state \<Rightarrow> ('a, 's storage_state) outcome" where
  "on_modules f st = (case f (modules st) of (r, s) \<Rightarrow> (r, st\<lparr>modules := s\<rparr>))"

section \<open>Splitting\<close>

text \<open>
  The loop of \<open>storage_split_to_storage_modules\<close>: for every module the address inside it, the
  offset of its part in the data, and the length of the part (0 when it has none).
\<close>

fun split_loop :: "nat \<Rightarrow> nat \<Rightarrow> nat \<Rightarrow> nat \<Rightarrow> nat list \<Rightarrow> (nat \<times> nat \<times> nat) list" where
  "split_loop address tmp_address tmp_length cumulated_size [] = []"
| "split_loop address tmp_address tmp_length cumulated_size (sz # szs) =
     (let next_size = u32_add cumulated_size sz
      in if tmp_address \<ge> cumulated_size \<and> tmp_address < next_size \<and> tmp_length > 0
         then let len = (if u32_add tmp_address tmp_length \<le> next_size then tmp_length else u32_sub next_size tmp_address)
              in (u32_sub tmp_address cumulated_size, u32_sub tmp_address address, len)
                   # split_loop address (u32_add tmp_address len) (u32_sub tmp_length len) next_size szs
         else (0, 0, 0) # split_loop address tmp_address tmp_length next_size szs)"

definition storage_split_to_storage_modules :: "nat \<Rightarrow> nat \<Rightarrow> nat list \<Rightarrow> (nat \<times> nat \<times> nat) list" where
  "storage_split_to_storage_modules address length_data sizes = split_loop address address length_data 0 sizes"

section \<open>Operations\<close>

definition storage_get_size :: "'s storage_module list \<Rightarrow> nat" where
  "storage_get_size ms = foldl (\<lambda>n m. u32_add n (sm_get_size m)) 0 ms"

fun init_loop :: "'s storage_module list \<Rightarrow> nat \<Rightarrow> 's storage_state \<Rightarrow> (unit, 's storage_state) outcome" where
  "init_loop [] i st = (Inr (), st)"
| "init_loop (m # ms) i st =
     attempt internal (on_modules (sm_init m) (st\<lparr>storage_sizes := (storage_sizes st)(i := sm_get_size m)\<rparr>)) (\<lambda>_ st.
     init_loop ms (i + 1) st)"

definition storage_init :: "'s storage_module list \<Rightarrow> 's storage_state \<Rightarrow> (unit, 's storage_state) outcome" where
  "storage_init ms st = init_loop ms 0 st"

fun store_loop :: "'s storage_module list \<Rightarrow> (nat \<times> nat \<times> nat) list \<Rightarrow> byte list \<Rightarrow> 's storage_state
    \<Rightarrow> (unit, 's storage_state) outcome" where
  "store_loop (m # ms) ((a, off, len) # ps) data st =
     (if len = 0 then store_loop ms ps data st
      else attempt id (on_modules (sm_store m a (take len (drop off data))) st) (\<lambda>_ st. store_loop ms ps data st))"
| "store_loop _ _ data st = (Inr (), st)"

definition storage_store :: "'s storage_module list \<Rightarrow> nat \<Rightarrow> byte list \<Rightarrow> 's storage_state \<Rightarrow> (unit, 's storage_state) outcome" where
  "storage_store ms address data st =
     (if u32_add address (length data) > storage_get_size ms then (Inl NRF_ERROR_INVALID_PARAM, st)
      else if length data = 0 then (Inr (), st)
      else store_loop ms (storage_split_to_storage_modules address (length data) (sizes_of ms st)) data st)"

text \<open>
  A read fills the caller's buffer module by module.  Cells no module fills (only an address that
  wraps around \<open>2^32\<close> has such) keep what the buffer held, shown as 0 here.
\<close>

fun read_loop :: "'s storage_module list \<Rightarrow> (nat \<times> nat \<times> nat) list \<Rightarrow> byte list \<Rightarrow> 's storage_state
    \<Rightarrow> (byte list, 's storage_state) outcome" where
  "read_loop (m # ms) ((a, off, len) # ps) buf st =
     (if len = 0 then read_loop ms ps buf st
      else attempt id (on_modules (sm_read m a len) st) (\<lambda>bs st. read_loop ms ps (overwrite buf off bs) st))"
| "read_loop _ _ buf st = (Inr buf, st)"

definition storage_read :: "'s storage_module list \<Rightarrow> nat \<Rightarrow> nat \<Rightarrow> 's storage_state \<Rightarrow> (byte list, 's storage_state) outcome" where
  "storage_read ms address length_data st =
     (if u32_add address length_data > storage_get_size ms then (Inl NRF_ERROR_INVALID_PARAM, st)
      else if length_data = 0 then (Inr [], st)
      else read_loop ms (storage_split_to_storage_modules address length_data (sizes_of ms st)) (replicate length_data 0) st)"

fun clear_loop :: "'s storage_module list \<Rightarrow> (nat \<times> nat \<times> nat) list \<Rightarrow> 's storage_state \<Rightarrow> (unit, 's storage_state) outcome" where
  "clear_loop (m # ms) ((a, off, len) # ps) st =
     (if len = 0 then clear_loop ms ps st
      else attempt id (on_modules (sm_clear m a len) st) (\<lambda>_ st. clear_loop ms ps st))"
| "clear_loop _ _ st = (Inr (), st)"

definition storage_clear :: "'s storage_module list \<Rightarrow> nat \<Rightarrow> nat \<Rightarrow> 's storage_state \<Rightarrow> (unit, 's storage_state) outcome" where
  "storage_clear ms address len st =
     (if u32_add address len > storage_get_size ms then (Inl NRF_ERROR_INVALID_PARAM, st)
      else if len = 0 then (Inr (), st)
      else clear_loop ms (storage_split_to_storage_modules address len (sizes_of ms st)) st)"

text \<open>
  The loop of \<open>storage_get_unit_address_limits\<close> leaves at the module of the last byte.  The
  outputs it does not reach stay what the caller's variables were, shown as 0.
\<close>

fun limits_loop :: "nat \<Rightarrow> nat \<Rightarrow> nat \<Rightarrow> nat \<times> nat \<Rightarrow> (nat \<times> nat) list \<Rightarrow> nat \<times> nat" where
  "limits_loop address end_address cumulated_size out [] = out"
| "limits_loop address end_address cumulated_size (s, e) ((sz, unit_size) # szs) =
     (let next_size = u32_add cumulated_size sz;
          s' = (if address \<ge> cumulated_size \<and> address < next_size
                then u32_add (u32_sub address cumulated_size div unit_size * unit_size) cumulated_size else s)
      in if end_address \<ge> cumulated_size \<and> end_address < next_size
         then (s', u32_add (u32_sub ((u32_sub end_address cumulated_size div unit_size + 1) * unit_size) 1) cumulated_size)
         else limits_loop address end_address next_size (s', e) szs)"

definition storage_get_unit_address_limits ::
  "'s storage_module list \<Rightarrow> nat \<Rightarrow> nat \<Rightarrow> 's storage_state \<Rightarrow> ret_code + nat \<times> nat" where
  "storage_get_unit_address_limits ms address length_data st =
     (if u32_add address length_data > storage_get_size ms then Inl NRF_ERROR_INVALID_PARAM
      else if length_data = 0 then Inl NRF_ERROR_INVALID_PARAM
      else Inr (limits_loop address (u32_sub (u32_add address length_data) 1) 0 (0, 0)
             (zip (sizes_of ms st) (map sm_get_unit_size ms))))"

text \<open>The entry points the filesystem calls.\<close>

definition storage_lib :: "'s storage_module list \<Rightarrow> 's storage_state storage_ops" where
  "storage_lib ms = \<lparr>so_init = storage_init ms, so_read = storage_read ms, so_store = storage_store ms,
     so_clear = storage_clear ms, so_limits = storage_get_unit_address_limits ms, so_get_size = storage_get_size ms\<rparr>"

section \<open>Modules with separate states\<close>

text \<open>The two modules of the badge have their own global variables: a pair of states.\<close>

definition on_fst :: "('a \<Rightarrow> ('x, 'a) outcome) \<Rightarrow> 'a \<times> 'b \<Rightarrow> ('x, 'a \<times> 'b) outcome" where
  "on_fst f s = (case f (fst s) of (r, t) \<Rightarrow> (r, (t, snd s)))"

definition on_snd :: "('b \<Rightarrow> ('x, 'b) outcome) \<Rightarrow> 'a \<times> 'b \<Rightarrow> ('x, 'a \<times> 'b) outcome" where
  "on_snd f s = (case f (snd s) of (r, t) \<Rightarrow> (r, (fst s, t)))"

definition module_fst :: "'a storage_module \<Rightarrow> ('a \<times> 'b) storage_module" where
  "module_fst m = \<lparr>sm_init = on_fst (sm_init m), sm_read = (\<lambda>a n. on_fst (sm_read m a n)),
     sm_store = (\<lambda>a d. on_fst (sm_store m a d)), sm_get_size = sm_get_size m,
     sm_get_unit_size = sm_get_unit_size m, sm_clear = (\<lambda>a n. on_fst (sm_clear m a n))\<rparr>"

definition module_snd :: "'b storage_module \<Rightarrow> ('a \<times> 'b) storage_module" where
  "module_snd m = \<lparr>sm_init = on_snd (sm_init m), sm_read = (\<lambda>a n. on_snd (sm_read m a n)),
     sm_store = (\<lambda>a d. on_snd (sm_store m a d)), sm_get_size = sm_get_size m,
     sm_get_unit_size = sm_get_unit_size m, sm_clear = (\<lambda>a n. on_snd (sm_clear m a n))\<rparr>"

lemma module_fst_simps [simp]:
  "sm_init (module_fst m) = on_fst (sm_init m)"
  "sm_read (module_fst m) a n = on_fst (sm_read m a n)"
  "sm_store (module_fst m) a d = on_fst (sm_store m a d)"
  "sm_clear (module_fst m) a n = on_fst (sm_clear m a n)"
  "sm_get_size (module_fst m) = sm_get_size m"
  "sm_get_unit_size (module_fst m) = sm_get_unit_size m"
  by (simp_all add: module_fst_def)

lemma module_snd_simps [simp]:
  "sm_init (module_snd m) = on_snd (sm_init m)"
  "sm_read (module_snd m) a n = on_snd (sm_read m a n)"
  "sm_store (module_snd m) a d = on_snd (sm_store m a d)"
  "sm_clear (module_snd m) a n = on_snd (sm_clear m a n)"
  "sm_get_size (module_snd m) = sm_get_size m"
  "sm_get_unit_size (module_snd m) = sm_get_unit_size m"
  by (simp_all add: module_snd_def)

end
