(* ===== verification/Storage_Correct.thy ===== *)
theory Storage_Correct
  imports Storage FS_Correct
begin

text \<open>
  What the storage module promises the filesystem, derived from what its modules promise: two
  modules that keep the contract of a module, one behind the other, are a storage device.
\<close>

section \<open>The contract of a module\<close>

locale storage_module_laws =
  fixes m :: "'s storage_module"
    and mcont :: "'s \<Rightarrow> nat \<Rightarrow> byte"
    and mclean :: "'s \<Rightarrow> bool"
  assumes msize: "sm_get_size m < 1073741824"
    and munit: "0 < sm_get_unit_size m" "sm_get_unit_size m dvd sm_get_size m"
    and minit: "sm_init m s = (Inr (), s') \<Longrightarrow> mclean s' \<and> mcont s' = mcont s"
    and mread_frame: "sm_read m a n s = (r, s') \<Longrightarrow> (mclean s \<longrightarrow> mclean s') \<and> mcont s' = mcont s"
    and mread: "0 < n \<Longrightarrow> a + n \<le> sm_get_size m \<Longrightarrow> sm_read m a n s = (Inr bs, s') \<Longrightarrow> bs = map (mcont s) [a..<a + n]"
    and mstore_frame: "d \<noteq> [] \<Longrightarrow> a + length d \<le> sm_get_size m \<Longrightarrow> sm_store m a d s = (res, s') \<Longrightarrow>
      x div sm_get_unit_size m < a div sm_get_unit_size m \<or> (a + length d - 1) div sm_get_unit_size m < x div sm_get_unit_size m \<Longrightarrow>
      mcont s' x = mcont s x"
    and mstore: "mclean s \<Longrightarrow> d \<noteq> [] \<Longrightarrow> a + length d \<le> sm_get_size m \<Longrightarrow> sm_store m a d s = (Inr (), s') \<Longrightarrow>
      mclean s' \<and> map (mcont s') [a..<a + length d] = d \<and> (\<forall>x < a. mcont s' x = mcont s x)"
    and mclear_frame: "0 < n \<Longrightarrow> a + n \<le> sm_get_size m \<Longrightarrow> sm_clear m a n s = (res, s') \<Longrightarrow>
      x div sm_get_unit_size m < a div sm_get_unit_size m \<or> (a + n - 1) div sm_get_unit_size m < x div sm_get_unit_size m \<Longrightarrow>
      mcont s' x = mcont s x"
    and mclear: "mclean s \<Longrightarrow> 0 < n \<Longrightarrow> a + n \<le> sm_get_size m \<Longrightarrow> sm_clear m a n s = (Inr (), s') \<Longrightarrow>
      mclean s' \<and> (\<forall>x. a \<le> x \<and> x < a + n \<longrightarrow> mcont s' x = 0xFF) \<and> (\<forall>x < a. mcont s' x = mcont s x)"

section \<open>Splitting over two modules\<close>

lemma split_two:
  assumes "0 < n" and "a + n \<le> n1 + n2" and "n1 + n2 < 4294967296"
  shows "storage_split_to_storage_modules a n [n1, n2] =
    [if a < n1 then (a, 0, min n (n1 - a)) else (0, 0, 0),
     if n1 < a + n then (max a n1 - n1, max a n1 - a, a + n - max a n1) else (0, 0, 0)]"
proof (cases "a < n1")
  case True
  then show ?thesis
    using assms by (auto simp: storage_split_to_storage_modules_def Let_def min_def max_def)
next
  case False
  then show ?thesis
    using assms by (auto simp: storage_split_to_storage_modules_def Let_def max_def)
qed

lemma split_loop_length: "length (split_loop address tmp l c szs) = length szs"
  by (induction szs arbitrary: tmp l c) (simp_all add: Let_def)

lemma split_length: "length (storage_split_to_storage_modules a n szs) = length szs"
  by (simp add: storage_split_to_storage_modules_def split_loop_length)

lemma split_outside:
  assumes "n1 + n2 < 4294967296" and "n1 + n2 \<le> a"
  shows "storage_split_to_storage_modules a n [n1, n2] = [(0, 0, 0), (0, 0, 0)]"
  using assms by (auto simp: storage_split_to_storage_modules_def Let_def)

text \<open>The loops on the last module.\<close>

lemma last_loops:
  "store_loop [m] [(a, off, len)] d =
     (\<lambda>st. if len = 0 then (Inr (), st) else on_modules (sm_store m a (take len (drop off d))) st)"
  "clear_loop [m] [(a, off, len)] = (\<lambda>st. if len = 0 then (Inr (), st) else on_modules (sm_clear m a len) st)"
  "read_loop [m] [(a, off, len)] buf = (\<lambda>st. if len = 0 then (Inr buf, st)
     else attempt id (on_modules (sm_read m a len) st) (\<lambda>bs st. (Inr (overwrite buf off bs), st)))"
  by (auto simp: fun_eq_iff attempt_def split: prod.splits sum.splits)

text \<open>What an operation of two parts does to the two module states.\<close>

lemma two_steps:
  assumes "attempt id (if c1 then on_modules (on_fst f1) st else (Inr (), st)) (\<lambda>_ st.
      if c2 then on_modules (on_snd f2) st else (Inr (), st)) = (res, st')"
  obtains s1 s2 where "st' = st\<lparr>modules := (s1, s2)\<rparr>"
    and "if c1 then \<exists>r. f1 (fst (modules st)) = (r, s1) \<and> (res = Inr () \<longrightarrow> r = Inr ()) else s1 = fst (modules st)"
    and "c2 \<and> (\<exists>r. f2 (snd (modules st)) = (r, s2) \<and> (res = Inr () \<longrightarrow> r = Inr ()))
      \<or> (\<not> c2 \<or> res \<noteq> Inr ()) \<and> s2 = snd (modules st)"
  using assms
  by (cases "f1 (fst (modules st))"; cases "fst (f1 (fst (modules st)))"; cases "f2 (snd (modules st))")
    (auto simp: on_modules_def on_fst_def on_snd_def split: if_splits)

lemma unit_before: "(x :: nat) < a div u * u \<Longrightarrow> x div u < a div u"
  by (simp add: less_mult_imp_div_less)

lemma unit_behind:
  fixes x e u :: nat
  assumes "0 < u" and "(e div u + 1) * u - 1 < x"
  shows "e div u < x div u"
proof -
  have "(e div u + 1) * u \<le> x" using assms(2) by linarith
  then have "e div u + 1 \<le> x div u" using assms(1) by (simp add: less_eq_div_iff_mult_less_eq)
  then show ?thesis by simp
qed

section \<open>Two modules\<close>

locale two_modules =
  fst: storage_module_laws m1 mcont1 mclean1 + snd: storage_module_laws m2 mcont2 mclean2
  for m1 :: "'a storage_module" and mcont1 mclean1 and m2 :: "'b storage_module" and mcont2 mclean2
begin

abbreviation "ms \<equiv> [module_fst m1, module_snd m2]"
abbreviation "n1 \<equiv> sm_get_size m1"
abbreviation "n2 \<equiv> sm_get_size m2"
abbreviation "u1 \<equiv> sm_get_unit_size m1"
abbreviation "u2 \<equiv> sm_get_unit_size m2"

definition scont :: "('a \<times> 'b) storage_state \<Rightarrow> nat \<Rightarrow> byte" where
  "scont st x = (if x < n1 then mcont1 (fst (modules st)) x else mcont2 (snd (modules st)) (x - n1))"

definition sready :: "('a \<times> 'b) storage_state \<Rightarrow> bool" where
  "sready st \<longleftrightarrow> storage_sizes st 0 = n1 \<and> storage_sizes st 1 = n2"

definition sclean :: "('a \<times> 'b) storage_state \<Rightarrow> bool" where
  "sclean st \<longleftrightarrow> sready st \<and> mclean1 (fst (modules st)) \<and> mclean2 (snd (modules st))"

definition sustart :: "nat \<Rightarrow> nat" where
  "sustart a = (if a < n1 then a div u1 * u1 else n1 + (a - n1) div u2 * u2)"

definition suend :: "nat \<Rightarrow> nat" where
  "suend a = (if a < n1 then (a div u1 + 1) * u1 - 1 else n1 + ((a - n1) div u2 + 1) * u2 - 1)"

lemma total_size: "storage_get_size ms = n1 + n2" "n1 + n2 < 2147483648"
  using fst.msize snd.msize by (simp_all add: storage_get_size_def)

lemma sizes_ready: "sready st \<Longrightarrow> sizes_of ms st = [n1, n2]"
  by (simp add: sizes_of_def sready_def numeral_2_eq_2)

text \<open>An operation on the whole is one on the first module followed by one on the second.\<close>

lemma split_ready:
  assumes "sready st" and "0 < n" and "a + n \<le> n1 + n2"
  shows "storage_split_to_storage_modules a n (sizes_of ms st) =
    [if a < n1 then (a, 0, min n (n1 - a)) else (0, 0, 0),
     if n1 < a + n then (max a n1 - n1, max a n1 - a, a + n - max a n1) else (0, 0, 0)]"
  using split_two[OF assms(2,3)] sizes_ready[OF assms(1)] total_size(2) by simp

lemma second_part:
  fixes a n :: nat
  assumes "n1 < a + n" and "0 < n"
  shows "max a n1 - a = n1 - a" "a + n - max a n1 = n - (n1 - a)" "0 < n - (n1 - a)"
  using assms by auto

lemma store_eq:
  assumes "sready st" and "d \<noteq> []" and "a + length d \<le> n1 + n2"
  shows "storage_store ms a d st =
    attempt id (if a < n1 then on_modules (on_fst (sm_store m1 a (take (n1 - a) d))) st else (Inr (), st)) (\<lambda>_ st.
      if n1 < a + length d then on_modules (on_snd (sm_store m2 (max a n1 - n1) (drop (n1 - a) d))) st else (Inr (), st))"
proof -
  have u: "u32_add a (length d) = a + length d" using assms(3) total_size(2) by simp
  have "storage_store ms a d st = store_loop ms (storage_split_to_storage_modules a (length d) (sizes_of ms st)) d st"
    using assms u by (simp add: storage_store_def total_size(1))
  also have "\<dots> = attempt id (if a < n1 then on_modules (on_fst (sm_store m1 a (take (n1 - a) d))) st else (Inr (), st)) (\<lambda>_ st.
      if n1 < a + length d then on_modules (on_snd (sm_store m2 (max a n1 - n1) (drop (n1 - a) d))) st else (Inr (), st))"
    using assms(2) second_part[of a "length d"]
    by (auto simp: split_ready[OF assms(1) _ assms(3)] last_loops)
  finally show ?thesis .
qed

lemma clear_eq:
  assumes "sready st" and "0 < n" and "a + n \<le> n1 + n2"
  shows "storage_clear ms a n st =
    attempt id (if a < n1 then on_modules (on_fst (sm_clear m1 a (min n (n1 - a)))) st else (Inr (), st)) (\<lambda>_ st.
      if n1 < a + n then on_modules (on_snd (sm_clear m2 (max a n1 - n1) (n - (n1 - a)))) st else (Inr (), st))"
proof -
  have u: "u32_add a n = a + n" using assms(3) total_size(2) by simp
  show ?thesis
    using assms second_part[of a n]
    by (auto simp: storage_clear_def total_size(1) u split_ready[OF assms] last_loops)
qed

lemma read_eq:
  assumes "sready st" and "0 < n" and "a + n \<le> n1 + n2"
  shows "storage_read ms a n st =
    attempt id (if a < n1 then on_modules (on_fst (sm_read m1 a (min n (n1 - a)))) st else (Inr [], st)) (\<lambda>xs st.
      attempt id (if n1 < a + n then on_modules (on_snd (sm_read m2 (max a n1 - n1) (n - (n1 - a)))) st else (Inr [], st)) (\<lambda>ys st.
        (Inr (overwrite (overwrite (replicate n 0) 0 xs) (n1 - a) ys), st)))"
proof -
  have u: "u32_add a n = a + n" using assms(3) total_size(2) by simp
  have o: "overwrite zs k [] = zs" for zs :: "byte list" and k by (simp add: overwrite_def)
  show ?thesis
    using assms second_part[of a n]
    by (auto simp: storage_read_def total_size(1) u split_ready[OF assms] o last_loops)
qed

lemma first_units:
  assumes "0 < n" and "a < n1" and "x < n1" and x: "x < sustart a \<or> suend (a + n - 1) < x"
  shows "x div u1 < a div u1 \<or> (a + min n (n1 - a) - 1) div u1 < x div u1"
  using x
proof
  assume "x < sustart a"
  then show ?thesis using assms(2) unit_before[of x a u1] by (simp add: sustart_def)
next
  assume g: "suend (a + n - 1) < x"
  have e: "a + n - 1 < n1" using g assms(3) by (auto simp: suend_def split: if_splits)
  then have "min n (n1 - a) = n" using assms(1,2) by simp
  moreover have "(a + n - 1) div u1 < x div u1"
    using g e fst.munit(1) by (intro unit_behind) (simp_all add: suend_def)
  ultimately show ?thesis by simp
qed

lemma second_units:
  assumes "0 < n" and n: "n1 < a + n" and "\<not> x < n1" and x: "x < sustart a \<or> suend (a + n - 1) < x"
  shows "(x - n1) div u2 < (max a n1 - n1) div u2
    \<or> (max a n1 - n1 + (n - (n1 - a)) - 1) div u2 < (x - n1) div u2"
  using x
proof
  assume s: "x < sustart a"
  have an: "\<not> a < n1"
  proof
    assume "a < n1"
    then have "sustart a \<le> a" by (simp add: sustart_def)
    with s \<open>a < n1\<close> assms(3) show False by simp
  qed
  with s assms(3) show ?thesis
    using unit_before[of "x - n1" "a - n1" u2] by (simp add: sustart_def max_def)
next
  assume g: "suend (a + n - 1) < x"
  have e: "\<not> a + n - 1 < n1" "max a n1 - n1 + (n - (n1 - a)) - 1 = a + n - 1 - n1" using n assms(1) by (auto simp: max_def)
  define y where "y = a + n - 1 - n1"
  have "n1 + ((y div u2 + 1) * u2) - 1 < x" using g e(1) by (simp add: suend_def y_def)
  then have "(y div u2 + 1) * u2 - 1 < x - n1" using snd.munit(1) by (cases u2) auto
  then have "y div u2 < (x - n1) div u2" by (rule unit_behind[OF snd.munit(1)])
  then show ?thesis unfolding e(2) y_def by simp
qed

text \<open>Two operations that change only the units of their ranges change only the units of the whole range.\<close>

lemma frame_two:
  assumes "0 < n" and st': "st' = st\<lparr>modules := (s1, s2)\<rparr>" and x: "x < sustart a \<or> suend (a + n - 1) < x"
    and f1: "\<And>y. a < n1 \<Longrightarrow> y div u1 < a div u1 \<or> (a + min n (n1 - a) - 1) div u1 < y div u1 \<Longrightarrow> mcont1 s1 y = mcont1 (fst (modules st)) y"
    and f1': "\<not> a < n1 \<Longrightarrow> s1 = fst (modules st)"
    and f2: "\<And>y. n1 < a + n \<Longrightarrow> y div u2 < (max a n1 - n1) div u2 \<or> (max a n1 - n1 + (n - (n1 - a)) - 1) div u2 < y div u2
      \<Longrightarrow> mcont2 s2 y = mcont2 (snd (modules st)) y"
    and f2': "\<not> n1 < a + n \<Longrightarrow> s2 = snd (modules st)"
  shows "scont st' x = scont st x"
  using first_units[OF assms(1) _ _ x] second_units[OF assms(1) _ _ x] f1 f1' f2 f2' st'
  by (cases "x < n1"; cases "a < n1"; cases "n1 < a + n") (auto simp: scont_def)

lemma store_frame_two:
  assumes "sready st" and "a + length bs < 4294967296" and "storage_store ms a bs st = (res, st')"
  shows "sready st' \<and> (\<forall>x. bs = [] \<or> x < sustart a \<or> suend (a + length bs - 1) < x \<longrightarrow> scont st' x = scont st x)"
proof (cases "bs \<noteq> [] \<and> a + length bs \<le> n1 + n2")
  case False
  then have "st' = st" using assms total_size by (cases bs) (auto simp: storage_store_def split: if_splits)
  with assms(1) show ?thesis by simp
next
  case True
  then have ne: "bs \<noteq> []" "a + length bs \<le> n1 + n2" by auto
  from assms(3)[unfolded store_eq[OF assms(1) ne]]
  obtain s1 s2 where st': "st' = st\<lparr>modules := (s1, s2)\<rparr>"
    and 1: "if a < n1 then \<exists>r. sm_store m1 a (take (n1 - a) bs) (fst (modules st)) = (r, s1) \<and> (res = Inr () \<longrightarrow> r = Inr ()) else s1 = fst (modules st)"
    and 2: "n1 < a + length bs \<and> (\<exists>r. sm_store m2 (max a n1 - n1) (drop (n1 - a) bs) (snd (modules st)) = (r, s2) \<and> (res = Inr () \<longrightarrow> r = Inr ()))
      \<or> (\<not> n1 < a + length bs \<or> res \<noteq> Inr ()) \<and> s2 = snd (modules st)"
    by (rule two_steps)
  have "scont st' x = scont st x" if x: "x < sustart a \<or> suend (a + length bs - 1) < x" for x
  proof (rule frame_two[OF _ st' x])
    show "mcont1 s1 y = mcont1 (fst (modules st)) y"
      if "a < n1" "y div u1 < a div u1 \<or> (a + min (length bs) (n1 - a) - 1) div u1 < y div u1" for y
      using 1 that fst.mstore_frame[of "take (n1 - a) bs" a] ne by auto
    show "mcont2 s2 y = mcont2 (snd (modules st)) y"
      if n: "n1 < a + length bs" and y: "y div u2 < (max a n1 - n1) div u2
        \<or> (max a n1 - n1 + (length bs - (n1 - a)) - 1) div u2 < y div u2" for y
      using 2
    proof (elim disjE conjE exE)
      fix r assume r: "sm_store m2 (max a n1 - n1) (drop (n1 - a) bs) (snd (modules st)) = (r, s2)"
      show ?thesis by (rule snd.mstore_frame[OF _ _ r]) (use n ne length_greater_0_conv[of bs] y in \<open>auto simp: max_def simp del: length_greater_0_conv\<close>)
    qed auto
  qed (use 1 2 ne in auto)
  with ne st' assms(1) show ?thesis by (auto simp: sready_def)
qed

lemma clear_frame_two:
  assumes "sready st" and "a + n < 4294967296" and "storage_clear ms a n st = (res, st')"
  shows "sready st' \<and> (\<forall>x. n = 0 \<or> x < sustart a \<or> suend (a + n - 1) < x \<longrightarrow> scont st' x = scont st x)"
proof (cases "0 < n \<and> a + n \<le> n1 + n2")
  case False
  then have "st' = st" using assms total_size by (cases n) (auto simp: storage_clear_def split: if_splits)
  with assms(1) show ?thesis by simp
next
  case True
  then have ne: "0 < n" "a + n \<le> n1 + n2" by auto
  from assms(3)[unfolded clear_eq[OF assms(1) ne]]
  obtain s1 s2 where st': "st' = st\<lparr>modules := (s1, s2)\<rparr>"
    and 1: "if a < n1 then \<exists>r. sm_clear m1 a (min n (n1 - a)) (fst (modules st)) = (r, s1) \<and> (res = Inr () \<longrightarrow> r = Inr ()) else s1 = fst (modules st)"
    and 2: "n1 < a + n \<and> (\<exists>r. sm_clear m2 (max a n1 - n1) (n - (n1 - a)) (snd (modules st)) = (r, s2) \<and> (res = Inr () \<longrightarrow> r = Inr ()))
      \<or> (\<not> n1 < a + n \<or> res \<noteq> Inr ()) \<and> s2 = snd (modules st)"
    by (rule two_steps)
  have "scont st' x = scont st x" if x: "x < sustart a \<or> suend (a + n - 1) < x" for x
  proof (rule frame_two[OF ne(1) st' x])
    show "mcont1 s1 y = mcont1 (fst (modules st)) y"
      if "a < n1" "y div u1 < a div u1 \<or> (a + min n (n1 - a) - 1) div u1 < y div u1" for y
      using 1 that fst.mclear_frame[of "min n (n1 - a)" a] ne by auto
    show "mcont2 s2 y = mcont2 (snd (modules st)) y"
      if n: "n1 < a + n" and y: "y div u2 < (max a n1 - n1) div u2
        \<or> (max a n1 - n1 + (n - (n1 - a)) - 1) div u2 < y div u2" for y
      using 2
    proof (elim disjE conjE exE)
      fix r assume r: "sm_clear m2 (max a n1 - n1) (n - (n1 - a)) (snd (modules st)) = (r, s2)"
      show ?thesis by (rule snd.mclear_frame[OF _ _ r]) (use n ne y in \<open>auto simp: max_def\<close>)
    qed auto
  qed (use 1 2 in auto)
  with ne st' assms(1) show ?thesis by (auto simp: sready_def)
qed

lemma store_law_two:
  assumes "sclean st" and "a + length bs < 4294967296" and "storage_store ms a bs st = (Inr (), st')"
  shows "sclean st' \<and> a + length bs \<le> n1 + n2 \<and> map (scont st') [a..<a + length bs] = bs \<and> (\<forall>x < a. scont st' x = scont st x)"
proof (cases "bs = []")
  case True
  then show ?thesis using assms total_size by (auto simp: storage_store_def split: if_splits)
next
  case ne: False
  have r: "sready st" using assms(1) by (simp add: sclean_def)
  have le: "a + length bs \<le> n1 + n2" using assms(2,3) total_size by (auto simp: storage_store_def split: if_splits)
  from assms(3)[unfolded store_eq[OF r ne le]]
  obtain s1 s2 where st': "st' = st\<lparr>modules := (s1, s2)\<rparr>"
    and 1: "if a < n1 then sm_store m1 a (take (n1 - a) bs) (fst (modules st)) = (Inr (), s1) else s1 = fst (modules st)"
    and 2: "if n1 < a + length bs then sm_store m2 (max a n1 - n1) (drop (n1 - a) bs) (snd (modules st)) = (Inr (), s2) else s2 = snd (modules st)"
    by (rule two_steps) (auto split: if_splits)
  have c1: "mclean1 s1 \<and> (a < n1 \<longrightarrow> map (mcont1 s1) [a..<a + min (length bs) (n1 - a)] = take (n1 - a) bs) \<and> (\<forall>x < a. mcont1 s1 x = mcont1 (fst (modules st)) x)"
    using 1 fst.mstore[of "fst (modules st)" "take (n1 - a) bs" a s1] assms(1) ne by (auto simp: sclean_def split: if_splits)
  have c2: "mclean2 s2 \<and> (n1 < a + length bs \<longrightarrow> map (mcont2 s2) [max a n1 - n1..<max a n1 - n1 + (length bs - (n1 - a))] = drop (n1 - a) bs)
     \<and> (\<forall>x < max a n1 - n1. mcont2 s2 x = mcont2 (snd (modules st)) x)"
    using 2 snd.mstore[of "snd (modules st)" "drop (n1 - a) bs" "max a n1 - n1" s2] assms(1) ne le
    by (auto simp: sclean_def max_def split: if_splits)
  have p: "scont st' x = bs ! (x - a)" if x: "a \<le> x" "x < a + length bs" for x
  proof (cases "x < n1")
    case True
    with x have "x - a < min (length bs) (n1 - a)" by auto
    moreover from True x c1 have "map (mcont1 s1) [a..<a + min (length bs) (n1 - a)] ! (x - a) = take (n1 - a) bs ! (x - a)" by simp
    ultimately show ?thesis using True x by (simp add: scont_def st')
  next
    case False
    define k l j where "k = max a n1 - n1" and "l = length bs - (n1 - a)" and "j = x - max a n1"
    from False x have n: "n1 < a + length bs" "j < l" by (auto simp: j_def l_def)
    with c2 have "map (mcont2 s2) [k..<k + l] ! j = drop (n1 - a) bs ! j" by (simp add: k_def l_def)
    then have "mcont2 s2 (k + j) = bs ! (n1 - a + j)" using n by (simp add: l_def)
    moreover have "k + j = x - n1" "n1 - a + j = x - a" using False x by (auto simp: k_def j_def max_def)
    ultimately show ?thesis using False by (simp add: scont_def st')
  qed
  have "map (scont st') [a..<a + length bs] = bs" by (rule nth_equalityI) (simp_all add: p)
  moreover have "scont st' x = scont st x" if "x < a" for x
    using c1 c2 that by (auto simp: scont_def st' max_def)
  ultimately show ?thesis using r c1 c2 le by (simp add: sclean_def sready_def st')
qed

lemma clear_law_two:
  assumes "sclean st" and "a + n < 4294967296" and "storage_clear ms a n st = (Inr (), st')"
  shows "sclean st' \<and> a + n \<le> n1 + n2 \<and> (\<forall>x. a \<le> x \<and> x < a + n \<longrightarrow> scont st' x = 0xFF) \<and> (\<forall>x < a. scont st' x = scont st x)"
proof (cases "n = 0")
  case True
  then show ?thesis using assms total_size by (auto simp: storage_clear_def split: if_splits)
next
  case ne: False
  have r: "sready st" using assms(1) by (simp add: sclean_def)
  have le: "a + n \<le> n1 + n2" using assms(2,3) total_size by (auto simp: storage_clear_def split: if_splits)
  from assms(3)[unfolded clear_eq[OF r _ le, unfolded neq0_conv[symmetric], OF ne]]
  obtain s1 s2 where st': "st' = st\<lparr>modules := (s1, s2)\<rparr>"
    and 1: "if a < n1 then sm_clear m1 a (min n (n1 - a)) (fst (modules st)) = (Inr (), s1) else s1 = fst (modules st)"
    and 2: "if n1 < a + n then sm_clear m2 (max a n1 - n1) (n - (n1 - a)) (snd (modules st)) = (Inr (), s2) else s2 = snd (modules st)"
    by (rule two_steps) (auto split: if_splits)
  have c1: "mclean1 s1 \<and> (a < n1 \<longrightarrow> (\<forall>x. a \<le> x \<and> x < a + min n (n1 - a) \<longrightarrow> mcont1 s1 x = 0xFF)) \<and> (\<forall>x < a. mcont1 s1 x = mcont1 (fst (modules st)) x)"
    using 1 fst.mclear[of "fst (modules st)" "min n (n1 - a)" a s1] assms(1) ne by (auto simp: sclean_def split: if_splits)
  have c2: "mclean2 s2 \<and> (n1 < a + n \<longrightarrow> (\<forall>x. max a n1 - n1 \<le> x \<and> x < max a n1 - n1 + (n - (n1 - a)) \<longrightarrow> mcont2 s2 x = 0xFF))
     \<and> (\<forall>x < max a n1 - n1. mcont2 s2 x = mcont2 (snd (modules st)) x)"
    using 2 snd.mclear[of "snd (modules st)" "n - (n1 - a)" "max a n1 - n1" s2] assms(1) ne le
    by (auto simp: sclean_def max_def split: if_splits)
  have "scont st' x = 0xFF" if "a \<le> x" "x < a + n" for x
  proof (cases "x < n1")
    case True
    with c1 that show ?thesis by (simp add: scont_def st')
  next
    case False
    with that have "n1 < a + n" "max a n1 - n1 \<le> x - n1" "x - n1 < max a n1 - n1 + (n - (n1 - a))" by auto
    with c2 False show ?thesis by (simp add: scont_def st')
  qed
  moreover have "scont st' x = scont st x" if "x < a" for x
    using c1 c2 that by (auto simp: scont_def st' max_def)
  ultimately show ?thesis using r c1 c2 le by (simp add: sclean_def sready_def st')
qed

text \<open>Reads change nothing, whatever the address, and a successful one returns the bytes.\<close>

lemma on_modules_read:
  "on_modules (on_fst (sm_read m1 a n)) st = (r, st') \<Longrightarrow>
     storage_sizes st' = storage_sizes st \<and> (mclean1 (fst (modules st)) \<longrightarrow> mclean1 (fst (modules st')))
     \<and> mcont1 (fst (modules st')) = mcont1 (fst (modules st)) \<and> snd (modules st') = snd (modules st)"
  "on_modules (on_snd (sm_read m2 a n)) st = (r, st') \<Longrightarrow>
     storage_sizes st' = storage_sizes st \<and> (mclean2 (snd (modules st)) \<longrightarrow> mclean2 (snd (modules st')))
     \<and> mcont2 (snd (modules st')) = mcont2 (snd (modules st)) \<and> fst (modules st') = fst (modules st)"
  by (auto simp: on_modules_def on_fst_def on_snd_def split: prod.splits dest: fst.mread_frame snd.mread_frame)

definition unchanged :: "('a \<times> 'b) storage_state \<Rightarrow> ('a \<times> 'b) storage_state \<Rightarrow> bool" where
  "unchanged st st' \<longleftrightarrow> (sready st \<longrightarrow> sready st') \<and> (sclean st \<longrightarrow> sclean st') \<and> scont st' = scont st"

lemma unchanged_attempt:
  assumes "unchanged st (snd r)" and "\<And>x st1. r = (Inr x, st1) \<Longrightarrow> unchanged st1 (snd (k x st1))"
  shows "unchanged st (snd (attempt f r k))"
  using assms by (cases r; cases "fst r") (auto simp: unchanged_def)

lemma unchanged_read:
  "unchanged st (snd (on_modules (on_fst (sm_read m1 a n)) st))"
  "unchanged st (snd (on_modules (on_snd (sm_read m2 a n)) st))"
  using on_modules_read(1)[of a n st "fst (on_modules (on_fst (sm_read m1 a n)) st)" "snd (on_modules (on_fst (sm_read m1 a n)) st)"]
    on_modules_read(2)[of a n st "fst (on_modules (on_snd (sm_read m2 a n)) st)" "snd (on_modules (on_snd (sm_read m2 a n)) st)"]
  by (auto simp: unchanged_def sready_def sclean_def scont_def fun_eq_iff)

lemma unchanged_refl [simp]: "unchanged st st"
  by (simp add: unchanged_def)

lemma unchanged_loop: "unchanged st (snd (read_loop ms [(a1, o1, l1), (a2, o2, l2)] buf st))"
  by (auto simp: last_loops intro!: unchanged_attempt unchanged_read)

lemma read_frame_two: "sready st \<Longrightarrow> unchanged st (snd (storage_read ms a n st))"
proof -
  assume r: "sready st"
  obtain p1 p2 where "storage_split_to_storage_modules a n [n1, n2] = [p1, p2]"
    using split_length[of a n "[n1, n2]"] by (auto simp: length_Suc_conv numeral_2_eq_2)
  then show ?thesis using unchanged_loop sizes_ready[OF r] by (cases p1; cases p2) (auto simp: storage_read_def simp del: read_loop.simps)
qed

lemma read_law_two:
  assumes "sready st" and "a + n < 4294967296" and "storage_read ms a n st = (Inr bs, st')"
  shows "a + n \<le> n1 + n2 \<and> bs = map (scont st) [a..<a + n]"
proof (cases "n = 0")
  case True
  then show ?thesis using assms total_size by (auto simp: storage_read_def split: if_splits)
next
  case ne: False
  have le: "a + n \<le> n1 + n2" using assms(2,3) total_size by (auto simp: storage_read_def split: if_splits)
  from assms(3)[unfolded read_eq[OF assms(1) _ le, unfolded neq0_conv[symmetric], OF ne]]
  obtain xs ys st1 st2 where 1: "(if a < n1 then on_modules (on_fst (sm_read m1 a (min n (n1 - a)))) st else (Inr [], st)) = (Inr xs, st1)"
    and 2: "(if n1 < a + n then on_modules (on_snd (sm_read m2 (max a n1 - n1) (n - (n1 - a)))) st1 else (Inr [], st1)) = (Inr ys, st2)"
    and bs: "bs = overwrite (overwrite (replicate n 0) 0 xs) (n1 - a) ys"
    by (auto elim!: attempt_success)
  have s: "snd (modules st1) = snd (modules st)"
    using 1 by (auto split: if_splits dest: on_modules_read(1))
  have sf: "k + l \<le> n1 \<Longrightarrow> map (mcont1 (fst (modules st))) [k..<k + l] = map (scont st) [k..<k + l]" for k l
    by (simp add: scont_def)
  have xs: "xs = (if a < n1 then map (scont st) [a..<a + min n (n1 - a)] else [])"
    using 1 fst.mread[of "min n (n1 - a)" a "fst (modules st)" xs] ne
    by (auto simp: on_modules_def on_fst_def sf split: if_splits prod.splits)
  have sh: "map (mcont2 (snd (modules st))) [k..<k + l] = map (scont st) [n1 + k..<n1 + k + l]" for k l
    by (rule nth_equalityI) (simp_all add: scont_def)
  have ys: "ys = (if n1 < a + n then map (scont st) [max a n1..<a + n] else [])"
  proof (cases "n1 < a + n")
    case True
    then obtain s2 where "sm_read m2 (max a n1 - n1) (n - (n1 - a)) (snd (modules st)) = (Inr ys, s2)"
      using 2 s by (auto simp: on_modules_def on_snd_def split: prod.splits)
    then have "ys = map (mcont2 (snd (modules st))) [max a n1 - n1..<max a n1 - n1 + (n - (n1 - a))]"
      by (rule snd.mread[rotated 2]) (use True ne le in \<open>auto simp: max_def\<close>)
    moreover have "n1 + (max a n1 - n1) = max a n1" "n1 + (max a n1 - n1) + (n - (n1 - a)) = a + n" using True ne by (auto simp: max_def)
    ultimately show ?thesis using True unfolding sh by simp
  qed (use 2 in simp)
  have "bs = map (scont st) [a..<a + n]"
  proof (cases "a < n1 \<and> n1 < a + n")
    case True
    then have "[a..<a + n] = [a..<n1] @ [n1..<a + n]" by (intro upt_split) auto
    moreover have "min n (n1 - a) = n1 - a" "max a n1 = n1" using True by auto
    ultimately show ?thesis unfolding bs xs ys using True by (simp add: overwrite_def)
  next
    case False
    with ne show ?thesis unfolding bs xs ys by (auto simp: overwrite_def max_def)
  qed
  with le show ?thesis by simp
qed

lemma unit_inside:
  fixes a u n :: nat
  assumes "a < n" and "u dvd n" and "0 < u"
  shows "(a div u + 1) * u \<le> n" "a < (a div u + 1) * u"
proof -
  from assms(2) obtain k where k: "n = k * u" by (metis dvd_def mult.commute)
  then have "a div u < k" using assms(1) by (simp add: less_mult_imp_div_less)
  then have "(a div u + 1) * u \<le> k * u" by (intro mult_le_mono1) simp
  with k show "(a div u + 1) * u \<le> n" by simp
  show "a < (a div u + 1) * u" using assms(3) by (simp add: dividend_less_div_times add.commute)
qed

lemma unit_around_two:
  assumes "a < n1 + n2"
  shows "sustart a \<le> a \<and> a \<le> suend a \<and> suend a < n1 + n2"
proof (cases "a < n1")
  case True
  with unit_inside[OF True fst.munit(2,1)] show ?thesis by (auto simp: sustart_def suend_def)
next
  case False
  define y where "y = a - n1"
  have y: "y < n2" "a = n1 + y" using False assms by (auto simp: y_def)
  with unit_inside[OF y(1) snd.munit(2,1)] show ?thesis by (auto simp: sustart_def suend_def)
qed

lemma limits_two:
  assumes "sready st" and "a + n < 4294967296"
  shows "storage_get_unit_address_limits ms a n st =
    (if 0 < n \<and> a + n \<le> n1 + n2 then Inr (sustart a, suend (a + n - 1)) else Inl NRF_ERROR_INVALID_PARAM)"
proof (cases "0 < n \<and> a + n \<le> n1 + n2")
  case False
  then show ?thesis using assms(2) total_size by (auto simp: storage_get_unit_address_limits_def)
next
  case True
  define e where "e = a + n - 1"
  have e: "a \<le> e" "e < n1 + n2" using True by (auto simp: e_def)
  have "storage_get_unit_address_limits ms a n st = Inr (limits_loop a e 0 (0, 0) [(n1, u1), (n2, u2)])"
    using True assms total_size by (simp add: storage_get_unit_address_limits_def sizes_ready e_def)
  moreover have "limits_loop a e 0 (0, 0) [(n1, u1), (n2, u2)] = (sustart a, suend e)"
  proof (cases "e < n1")
    case en: True
    define p where "p = (e div u1 + 1) * u1"
    have p: "p \<le> n1" "e < p" using unit_inside[OF en fst.munit(2,1)] by (simp_all add: p_def)
    have pe: "u1 + e div u1 * u1 = p" by (simp add: p_def)
    define q where "q = a div u1 * u1"
    have q: "q \<le> a" by (simp add: q_def)
    show ?thesis using en e(1) total_size(2) p q by (simp add: Let_def sustart_def suend_def pe q_def[symmetric])
  next
    case en: False
    define y where "y = e - n1"
    have y: "y < n2" "e = n1 + y" using en e by (auto simp: y_def)
    define p where "p = (y div u2 + 1) * u2"
    have p: "p \<le> n2" "y < p" using unit_inside[OF y(1) snd.munit(2,1)] by (simp_all add: p_def)
    have pe: "u2 + y div u2 * u2 = p" by (simp add: p_def)
    define q where "q = a div u1 * u1"
    have q: "q \<le> a" by (simp add: q_def)
    define r where "r = (a - n1) div u2 * u2"
    have r: "r \<le> a - n1" by (simp add: r_def)
    show ?thesis using en e y p q r total_size(2)
      by (simp add: Let_def sustart_def suend_def pe q_def[symmetric] r_def[symmetric])
  qed
  ultimately show ?thesis using True by (simp add: e_def)
qed

lemma init_two:
  assumes "storage_init ms st = (Inr (), st')"
  shows "sclean st' \<and> scont st' = scont st"
proof -
  from assms obtain s1 s2 where "sm_init m1 (fst (modules st)) = (Inr (), s1)" "sm_init m2 (snd (modules st)) = (Inr (), s2)"
    "st' = st\<lparr>storage_sizes := (storage_sizes st)(0 := n1, 1 := n2), modules := (s1, s2)\<rparr>"
    by (auto simp: storage_init_def on_modules_def on_fst_def on_snd_def split: prod.splits elim!: attempt_success)
  with fst.minit snd.minit show ?thesis by (auto simp: sclean_def sready_def scont_def fun_eq_iff)
qed

lemma unit_start_same:
  fixes a x u :: nat
  assumes "0 < u" and "a div u * u \<le> x" and "x < (a div u + 1) * u"
  shows "x div u = a div u"
  using assms by (metis div_nat_eqI mult.commute Suc_eq_plus1)

lemma unit_same_two:
  assumes "a < n1 + n2" and "sustart a \<le> x" and "x \<le> suend a"
  shows "sustart x = sustart a \<and> suend x = suend a"
proof (cases "a < n1")
  case True
  note i = unit_inside[OF True fst.munit(2,1)]
  have x: "a div u1 * u1 \<le> x" "x < (a div u1 + 1) * u1" using assms(2,3) True i by (auto simp: sustart_def suend_def)
  with i(1) have "x < n1" by simp
  with unit_start_same[OF fst.munit(1) x] True show ?thesis by (simp add: sustart_def suend_def)
next
  case False
  define y z where "y = a - n1" and "z = x - n1"
  have y: "y < n2" "a = n1 + y" using False assms by (auto simp: y_def)
  note i = unit_inside[OF y(1) snd.munit(2,1)]
  have x: "\<not> x < n1" using assms(2) y by (simp add: sustart_def)
  then have z: "x = n1 + z" by (simp add: z_def)
  have "y div u2 * u2 \<le> z" "z < (y div u2 + 1) * u2" using assms(2,3) y i z by (auto simp: sustart_def suend_def)
  from unit_start_same[OF snd.munit(1) this] y z show ?thesis by (simp add: sustart_def suend_def)
qed

text \<open>The storage module is a storage device of the filesystem.\<close>

lemma lib_simps:
  "so_init (storage_lib ms) = storage_init ms" "so_read (storage_lib ms) = storage_read ms"
  "so_store (storage_lib ms) = storage_store ms" "so_clear (storage_lib ms) = storage_clear ms"
  "so_limits (storage_lib ms) = storage_get_unit_address_limits ms" "so_get_size (storage_lib ms) = n1 + n2"
  by (simp_all add: storage_lib_def total_size(1))

lemma read_frame_eq:
  "sready st \<Longrightarrow> storage_read ms a n st = (r, st') \<Longrightarrow> sready st' \<and> (sclean st \<longrightarrow> sclean st') \<and> scont st' = scont st"
  using read_frame_two[of st a n] by (simp add: unchanged_def)

lemma device: "storage_device (storage_lib ms) scont sready sclean sustart suend"
proof (rule storage_device.intro, unfold lib_simps)
  show "n1 + n2 < 2147483648" by (rule total_size)
  show "sclean st \<Longrightarrow> sready st" for st by (simp add: sclean_def)
qed (fact unit_around_two unit_same_two limits_two init_two read_frame_eq read_law_two store_frame_two store_law_two
    clear_frame_two clear_law_two)+

end

sublocale two_modules \<subseteq> storage_device "storage_lib ms" scont sready sclean sustart suend
  by (rule device)

end
