(* ===== verification/Flash_Driver.thy ===== *)
theory Flash_Driver
  imports OB_Prelude
begin

text \<open>
  The flash driver \<^verbatim>\<open>incl/flash_lib.c\<close> over Nordic's fstorage library.  The library is a parameter
  of the model: its calls, the event it delivers while the driver waits (none if the timeout of
  1000 ms passes first), and the words of the flash area as the processor sees them.
\<close>

section \<open>The fstorage library\<close>

datatype fs_ret =
    FS_SUCCESS
  | FS_ERR_NOT_INITIALIZED
  | FS_ERR_INVALID_CFG
  | FS_ERR_NULL_ARG
  | FS_ERR_INVALID_ARG
  | FS_ERR_INVALID_ADDR
  | FS_ERR_UNALIGNED_ADDR
  | FS_ERR_QUEUE_FULL
  | FS_ERR_OPERATION_TIMEOUT
  | FS_ERR_INTERNAL

text \<open>Addresses are word offsets from \<open>fs_config.p_start_addr\<close>.\<close>

record 'd fstorage =
  fsto_init :: "'d \<Rightarrow> fs_ret \<times> 'd"
  fsto_erase :: "nat \<Rightarrow> nat \<Rightarrow> 'd \<Rightarrow> fs_ret \<times> 'd"
  fsto_store :: "nat \<Rightarrow> 32 word list \<Rightarrow> 'd \<Rightarrow> fs_ret \<times> 'd"
  fsto_wait :: "'d \<Rightarrow> fs_ret option \<times> 'd"
  fsto_word :: "'d \<Rightarrow> nat \<Rightarrow> 32 word"

section \<open>State and configuration\<close>

text \<open>The page size of the nRF51 and the number of pages of a build without debug output.\<close>

definition FLASH_PAGE_SIZE_WORDS :: nat where
  "FLASH_PAGE_SIZE_WORDS = 256"

definition FLASH_NUM_PAGES :: nat where
  "FLASH_NUM_PAGES = 70"

text \<open>The bits of \<open>flash_operation\<close>, and the state of the library.\<close>

record 'd flash =
  op_store :: bool
  op_erase :: bool
  err_store :: bool
  err_erase :: bool
  fdev :: 'd

section \<open>Operations\<close>

definition fs_evt_handler :: "fs_ret \<Rightarrow> 'd flash \<Rightarrow> 'd flash" where
  "fs_evt_handler result fl =
     (if result = FS_SUCCESS then fl\<lparr>op_erase := False, op_store := False\<rparr>
      else fl\<lparr>err_erase := (err_erase fl \<or> op_erase fl), op_erase := False,
              err_store := (err_store fl \<or> op_store fl), op_store := False\<rparr>)"

definition flash_init :: "'d fstorage \<Rightarrow> 'd flash \<Rightarrow> (unit, 'd flash) outcome" where
  "flash_init F fl = (case fsto_init F (fdev fl) of (status, d) \<Rightarrow>
     (if status \<noteq> FS_SUCCESS then Inl NRF_ERROR_INTERNAL else Inr (), fl\<lparr>fdev := d\<rparr>))"

definition address_of_page :: "nat \<Rightarrow> nat" where
  "address_of_page page_num = page_num * FLASH_PAGE_SIZE_WORDS"

text \<open>The translation of the library's status of a call.\<close>

definition fs_status :: "fs_ret \<Rightarrow> ret_code" where
  "fs_status status =
     (if status = FS_ERR_QUEUE_FULL then NRF_ERROR_BUSY
      else if status = FS_ERR_NOT_INITIALIZED \<or> status = FS_ERR_INVALID_CFG then NRF_ERROR_INTERNAL
      else NRF_ERROR_INVALID_PARAM)"

definition flash_erase_bkgnd :: "'d fstorage \<Rightarrow> nat \<Rightarrow> nat \<Rightarrow> 'd flash \<Rightarrow> (unit, 'd flash) outcome" where
  "flash_erase_bkgnd F page_num num_pages fl =
     (if op_store fl \<or> op_erase fl then (Inl NRF_ERROR_BUSY, fl)
      else case fsto_erase F (address_of_page page_num) num_pages (fdev fl) of (status, d) \<Rightarrow>
        if status \<noteq> FS_SUCCESS
        then (Inl (fs_status status), fl\<lparr>err_erase := False, op_erase := False, fdev := d\<rparr>)
        else (Inr (), fl\<lparr>op_erase := True, err_erase := False, fdev := d\<rparr>))"

text \<open>Waiting for the end of an operation: the event, if it comes in time, runs the handler.\<close>

definition flash_wait :: "'d fstorage \<Rightarrow> 'd flash \<Rightarrow> 'd flash" where
  "flash_wait F fl = (case fsto_wait F (fdev fl) of
       (None, d) \<Rightarrow> fl\<lparr>fdev := d\<rparr>
     | (Some result, d) \<Rightarrow> fs_evt_handler result (fl\<lparr>fdev := d\<rparr>))"

definition flash_erase :: "'d fstorage \<Rightarrow> nat \<Rightarrow> nat \<Rightarrow> 'd flash \<Rightarrow> (unit, 'd flash) outcome" where
  "flash_erase F page_num num_pages fl =
     attempt id (flash_erase_bkgnd F page_num num_pages fl) (\<lambda>_ fl.
     let fl = flash_wait F fl
     in if op_erase fl then (Inl NRF_ERROR_TIMEOUT, fl\<lparr>op_erase := False\<rparr>)
        else if err_erase fl then (Inl NRF_ERROR_TIMEOUT, fl)
        else (Inr (), fl))"

definition flash_store_bkgnd :: "'d fstorage \<Rightarrow> nat \<Rightarrow> 32 word list \<Rightarrow> 'd flash \<Rightarrow> (unit, 'd flash) outcome" where
  "flash_store_bkgnd F word_num words fl =
     (if op_store fl \<or> op_erase fl then (Inl NRF_ERROR_BUSY, fl)
      else case fsto_store F word_num words (fdev fl) of (status, d) \<Rightarrow>
        if status \<noteq> FS_SUCCESS
        then (Inl (fs_status status), fl\<lparr>err_store := False, op_store := False, fdev := d\<rparr>)
        else (Inr (), fl\<lparr>op_store := True, err_store := False, fdev := d\<rparr>))"

definition flash_store :: "'d fstorage \<Rightarrow> nat \<Rightarrow> 32 word list \<Rightarrow> 'd flash \<Rightarrow> (unit, 'd flash) outcome" where
  "flash_store F word_num words fl =
     attempt id (flash_store_bkgnd F word_num words fl) (\<lambda>_ fl.
     let fl = flash_wait F fl
     in if op_store fl then (Inl NRF_ERROR_TIMEOUT, fl\<lparr>op_store := False\<rparr>)
        else if err_store fl then (Inl NRF_ERROR_TIMEOUT, fl)
        else (Inr (), fl))"

definition flash_read :: "'d fstorage \<Rightarrow> nat \<Rightarrow> nat \<Rightarrow> 'd flash \<Rightarrow> ret_code + 32 word list" where
  "flash_read F word_num length_words fl =
     (if u32_add word_num length_words > FLASH_PAGE_SIZE_WORDS * FLASH_NUM_PAGES then Inl NRF_ERROR_INVALID_PARAM
      else Inr (map (fsto_word F (fdev fl)) [word_num..<word_num + length_words]))"

section \<open>What the driver relies on\<close>

text \<open>
  The documented behaviour of the library and of NOR flash: an erase sets the words of the pages
  to all ones, a store clears the bits that are zero in the written words, each reported by an
  event with \<open>FS_SUCCESS\<close>; a call touches no word outside its range, whatever happens, and is
  over when the driver stops waiting for it.
\<close>

locale fstorage_laws =
  fixes F :: "'d fstorage"
  assumes init_words: "fsto_init F d = (st, d') \<Longrightarrow> fsto_word F d' = fsto_word F d"
    and erase_frame: "fsto_erase F a n d = (st, d1) \<Longrightarrow> fsto_wait F d1 = (ev, d2) \<Longrightarrow>
      w < a \<or> a + n * FLASH_PAGE_SIZE_WORDS \<le> w \<Longrightarrow> fsto_word F d1 w = fsto_word F d w \<and> fsto_word F d2 w = fsto_word F d w"
    and erase_done: "fsto_erase F a n d = (FS_SUCCESS, d1) \<Longrightarrow> fsto_wait F d1 = (Some FS_SUCCESS, d2) \<Longrightarrow>
      a \<le> w \<Longrightarrow> w < a + n * FLASH_PAGE_SIZE_WORDS \<Longrightarrow> fsto_word F d2 w = - 1"
    and store_frame: "fsto_store F a ws d = (st, d1) \<Longrightarrow> fsto_wait F d1 = (ev, d2) \<Longrightarrow>
      w < a \<or> a + length ws \<le> w \<Longrightarrow> fsto_word F d1 w = fsto_word F d w \<and> fsto_word F d2 w = fsto_word F d w"
    and store_done: "fsto_store F a ws d = (FS_SUCCESS, d1) \<Longrightarrow> fsto_wait F d1 = (Some FS_SUCCESS, d2) \<Longrightarrow>
      i < length ws \<Longrightarrow> fsto_word F d2 (a + i) = fsto_word F d (a + i) AND ws ! i"
begin

abbreviation fword :: "'d flash \<Rightarrow> nat \<Rightarrow> 32 word" where
  "fword fl \<equiv> fsto_word F (fdev fl)"

lemma flash_wait_dev: "fdev (flash_wait F fl) = snd (fsto_wait F (fdev fl))"
  by (auto simp: flash_wait_def fs_evt_handler_def split: prod.splits option.splits)

lemma flash_erase_frame:
  assumes "flash_erase F p n fl = (r, fl')" and "w < p * FLASH_PAGE_SIZE_WORDS \<or> (p + n) * FLASH_PAGE_SIZE_WORDS \<le> w"
  shows "fword fl' w = fword fl w"
proof -
  obtain st d1 where e: "fsto_erase F (address_of_page p) n (fdev fl) = (st, d1)" by fastforce
  obtain ev d2 where w: "fsto_wait F d1 = (ev, d2)" by fastforce
  have "w < address_of_page p \<or> address_of_page p + n * FLASH_PAGE_SIZE_WORDS \<le> w"
    using assms(2) by (simp add: address_of_page_def algebra_simps)
  from erase_frame[OF e w this] assms(1) e w show ?thesis
    by (auto simp: flash_erase_def flash_erase_bkgnd_def Let_def flash_wait_dev split: if_splits)
qed

lemma flash_erase_done:
  assumes "flash_erase F p n fl = (Inr (), fl')" and "p * FLASH_PAGE_SIZE_WORDS \<le> w" and "w < (p + n) * FLASH_PAGE_SIZE_WORDS"
  shows "fword fl' w = - 1"
proof -
  obtain st d1 where e: "fsto_erase F (address_of_page p) n (fdev fl) = (st, d1)" by fastforce
  obtain ev d2 where w: "fsto_wait F d1 = (ev, d2)" by fastforce
  have ok: "st = FS_SUCCESS" "ev = Some FS_SUCCESS" "fdev fl' = d2"
    using assms(1) e w
    by (auto simp: flash_erase_def flash_erase_bkgnd_def Let_def flash_wait_def fs_evt_handler_def split: if_splits option.splits)
  have "address_of_page p \<le> w" "w < address_of_page p + n * FLASH_PAGE_SIZE_WORDS"
    using assms(2,3) by (simp_all add: address_of_page_def algebra_simps)
  with erase_done e w ok show ?thesis by simp
qed

lemma flash_store_frame:
  assumes "flash_store F a ws fl = (r, fl')" and "w < a \<or> a + length ws \<le> w"
  shows "fword fl' w = fword fl w"
proof -
  obtain st d1 where e: "fsto_store F a ws (fdev fl) = (st, d1)" by fastforce
  obtain ev d2 where w: "fsto_wait F d1 = (ev, d2)" by fastforce
  from store_frame[OF e w assms(2)] assms(1) e w show ?thesis
    by (auto simp: flash_store_def flash_store_bkgnd_def Let_def flash_wait_dev split: if_splits)
qed

lemma flash_store_done:
  assumes "flash_store F a ws fl = (Inr (), fl')"
  shows "fword fl' w = (if a \<le> w \<and> w < a + length ws then fword fl w AND ws ! (w - a) else fword fl w)"
proof (cases "a \<le> w \<and> w < a + length ws")
  case True
  obtain st d1 where e: "fsto_store F a ws (fdev fl) = (st, d1)" by fastforce
  obtain ev d2 where w: "fsto_wait F d1 = (ev, d2)" by fastforce
  have ok: "st = FS_SUCCESS" "ev = Some FS_SUCCESS" "fdev fl' = d2"
    using assms e w
    by (auto simp: flash_store_def flash_store_bkgnd_def Let_def flash_wait_def fs_evt_handler_def split: if_splits option.splits)
  have "w - a < length ws" using True by linarith
  with store_done[of a ws "fdev fl" d1 d2 "w - a"] e w ok True show ?thesis by simp
next
  case False
  then show ?thesis using flash_store_frame[OF assms, of w] by auto
qed

end

end
