(* ===== verification/Storage1.thy ===== *)
theory Storage1
  imports Flash_Driver
begin

text \<open>
  \<^verbatim>\<open>incl/storage1_lib.c\<close>: byte storage in the internal flash.  Bytes are packed into words, a page
  is erased only when needed (a table remembers the end addresses of recent stores, behind which
  the page is known to be blank), and the bytes in front of a store survive the erase of their
  page.
\<close>

section \<open>State\<close>

definition STORAGE1_LAST_STORED_ELEMENT_ADDRESSES_SIZE :: nat where
  "STORAGE1_LAST_STORED_ELEMENT_ADDRESSES_SIZE = 15"

definition WORDS_BUF_SIZE :: nat where
  "WORDS_BUF_SIZE = 100"

definition storage1_get_unit_size :: nat where
  "storage1_get_unit_size = FLASH_PAGE_SIZE_WORDS * 4"

definition storage1_get_size :: nat where
  "storage1_get_size = FLASH_PAGE_SIZE_WORDS * FLASH_NUM_PAGES * 4"

text \<open>An entry of the table is an address, or -1 when it is unused.\<close>

record 'd storage1 =
  last_stored_element_addresses :: "int list"
  init_done :: bool
  flash :: "'d flash"

definition on_flash :: "('d flash \<Rightarrow> ('a, 'd flash) outcome) \<Rightarrow> 'd storage1 \<Rightarrow> ('a, 'd storage1) outcome" where
  "on_flash f s = (case f (flash s) of (r, fl) \<Rightarrow> (r, s\<lparr>flash := fl\<rparr>))"

section \<open>Words and bytes\<close>

text \<open>The little-endian view of a word as four bytes, and back (\<open>memcpy\<close> to and from words).\<close>

definition word_byte :: "32 word \<Rightarrow> nat \<Rightarrow> byte" where
  "word_byte w i = ucast (drop_bit (8 * i) w)"

definition word_of_bytes :: "byte \<Rightarrow> byte \<Rightarrow> byte \<Rightarrow> byte \<Rightarrow> 32 word" where
  "word_of_bytes b0 b1 b2 b3 = ucast b0 OR push_bit 8 (ucast b1) OR push_bit 16 (ucast b2) OR push_bit 24 (ucast b3)"

fun bytes_to_words :: "byte list \<Rightarrow> 32 word list" where
  "bytes_to_words (b0 # b1 # b2 # b3 # bs) = word_of_bytes b0 b1 b2 b3 # bytes_to_words bs"
| "bytes_to_words _ = []"

definition words_to_bytes :: "32 word list \<Rightarrow> byte list" where
  "words_to_bytes ws = concat (map (\<lambda>w. map (word_byte w) [0..<4]) ws)"

section \<open>Pages\<close>

definition storage1_get_page_address :: "nat \<Rightarrow> nat" where
  "storage1_get_page_address byte_address =
     (if byte_address \<ge> storage1_get_size then 0 else byte_address div (FLASH_PAGE_SIZE_WORDS * 4))"

definition storage1_get_page_number :: "nat \<Rightarrow> nat \<Rightarrow> nat" where
  "storage1_get_page_number byte_address byte_length =
     (if u32_add byte_address byte_length > storage1_get_size then 0
      else if byte_length = 0 then 0
      else u32_sub (storage1_get_page_address (u32_sub (u32_add byte_address byte_length) 1) + 1)
                   (storage1_get_page_address byte_address))"

text \<open>
  The first loop of \<open>storage1_compute_pages_to_erase\<close>: entries on the first page are dropped,
  and one that lies before the address spares the erase of that page; entries on the following
  pages are dropped.
\<close>

fun erase_scan :: "nat \<Rightarrow> nat \<Rightarrow> nat \<Rightarrow> nat \<times> nat \<Rightarrow> int list \<Rightarrow> (nat \<times> nat) \<times> int list" where
  "erase_scan address start_page num_pages er [] = (er, [])"
| "erase_scan address start_page num_pages er (l # ls) =
     (let page = storage1_get_page_address (nat l);
          er' = (if l \<noteq> - 1 \<and> page = start_page \<and> l < int address then (start_page + 1, num_pages - 1) else er);
          l' = (if l \<noteq> - 1 \<and> start_page \<le> page \<and> page < start_page + num_pages then - 1 else l);
          (er'', ls') = erase_scan address start_page num_pages er' ls
      in (er'', l' # ls'))"

text \<open>The second loop: the slot of the new end address, the first unused one or else the closest below it.\<close>

fun slot_scan :: "int \<Rightarrow> nat \<Rightarrow> nat \<Rightarrow> int \<Rightarrow> int list \<Rightarrow> nat" where
  "slot_scan lst i index min_diff [] = index"
| "slot_scan lst i index min_diff (l # ls) =
     (if l = - 1 then i
      else if l < lst \<and> lst - l < min_diff then slot_scan lst (i + 1) i (lst - l) ls
      else slot_scan lst (i + 1) index min_diff ls)"

definition storage1_compute_pages_to_erase :: "nat \<Rightarrow> nat \<Rightarrow> int list \<Rightarrow> (ret_code + nat \<times> nat) \<times> int list" where
  "storage1_compute_pages_to_erase address length_data table =
     (if u32_add address length_data > storage1_get_size then (Inl NRF_ERROR_INVALID_PARAM, table)
      else if length_data = 0 then (Inr (0, 0), table)
      else
        let start_page = storage1_get_page_address address;
            num_pages = storage1_get_page_number address length_data;
            (er, table) = erase_scan address start_page num_pages (start_page, num_pages) table;
            lst = int (u32_sub (u32_add address length_data) 1)
        in if nat lst mod storage1_get_unit_size = storage1_get_unit_size - 1 then (Inr er, table)
           else (Inr er, table[slot_scan lst 0 0 (int storage1_get_size) table := lst]))"

section \<open>Bytes stored as words\<close>

definition storage1_compute_word_aligned_addresses :: "nat \<Rightarrow> nat \<Rightarrow> nat \<times> nat \<times> nat" where
  "storage1_compute_word_aligned_addresses address length_data =
     (if length_data = 0 then (0, 0, 0)
      else if address div 4 = (address + length_data - 1) div 4 \<and> address mod 4 \<noteq> 0 \<and> (address + length_data) mod 4 \<noteq> 0
      then (0, length_data, 0)
      else let lead = ((address div 4 + 1) * 4 - address) mod 4;
               final = ((address + length_data) - ((address + length_data) div 4) * 4) mod 4
           in (lead, if length_data \<ge> final + lead then length_data - (final + lead) else 0, final))"

text \<open>The loop over full word buffers: \<open>k\<close> more buffers of \<open>ws\<close>, starting with number \<open>i\<close>.\<close>

fun store_blocks :: "'d fstorage \<Rightarrow> nat \<Rightarrow> 32 word list \<Rightarrow> nat \<Rightarrow> nat \<Rightarrow> 'd flash \<Rightarrow> (unit, 'd flash) outcome" where
  "store_blocks F waddr ws 0 i fl = (Inr (), fl)"
| "store_blocks F waddr ws (Suc k) i fl =
     attempt id (flash_store F (waddr + i * WORDS_BUF_SIZE) (take WORDS_BUF_SIZE (drop (i * WORDS_BUF_SIZE) ws)) fl) (\<lambda>_ fl.
     store_blocks F waddr ws k (i + 1) fl)"

definition store_words :: "'d fstorage \<Rightarrow> nat \<Rightarrow> 32 word list \<Rightarrow> 'd flash \<Rightarrow> (unit, 'd flash) outcome" where
  "store_words F waddr ws fl =
     (let n = length ws div WORDS_BUF_SIZE in
      attempt id (store_blocks F waddr ws n 0 fl) (\<lambda>_ fl.
      if length ws mod WORDS_BUF_SIZE > 0
      then flash_store F (waddr + n * WORDS_BUF_SIZE) (drop (n * WORDS_BUF_SIZE) ws) fl
      else (Inr (), fl)))"

text \<open>One word with the data bytes at positions \<open>lo\<close> up to \<open>hi\<close> and 0xFF elsewhere.\<close>

definition padded_word :: "nat \<Rightarrow> nat \<Rightarrow> byte list \<Rightarrow> 32 word" where
  "padded_word lo hi d =
     (let b = (\<lambda>i. if lo \<le> i \<and> i < hi then d ! (i - lo) else 0xFF) in word_of_bytes (b 0) (b 1) (b 2) (b 3))"

definition storage1_store_uint8_as_uint32 :: "'d fstorage \<Rightarrow> nat \<Rightarrow> byte list \<Rightarrow> 'd flash \<Rightarrow> (unit, 'd flash) outcome" where
  "storage1_store_uint8_as_uint32 F address data fl =
     (if u32_add address (length data) > storage1_get_size then (Inl NRF_ERROR_INVALID_PARAM, fl)
      else if length data = 0 then (Inr (), fl)
      else
        let (lead, mid, final) = storage1_compute_word_aligned_addresses address (length data)
        in attempt id
             (if mid > 0 then
                if mid < 4 then flash_store F (address div 4) [padded_word (address mod 4) ((address mod 4 + mid) mod 4) data] fl
                else store_words F ((address + lead) div 4) (bytes_to_words (take (mid div 4 * 4) (drop lead data))) fl
              else (Inr (), fl)) (\<lambda>_ fl.
           attempt id
             (if lead > 0 then flash_store F (address div 4) [padded_word (4 - lead) 4 data] fl else (Inr (), fl)) (\<lambda>_ fl.
           if final > 0
           then flash_store F ((address + lead + mid) div 4) [padded_word 0 final (drop (lead + mid) data)] fl
           else (Inr (), fl))))"

section \<open>Bytes read from words\<close>

definition on_words :: "ret_code + 'a \<Rightarrow> ('a \<Rightarrow> ret_code + 'b) \<Rightarrow> ret_code + 'b" where
  "on_words r k = (case r of Inl e \<Rightarrow> Inl e | Inr x \<Rightarrow> k x)"

fun read_blocks :: "'d fstorage \<Rightarrow> nat \<Rightarrow> nat \<Rightarrow> nat \<Rightarrow> 'd flash \<Rightarrow> ret_code + byte list" where
  "read_blocks F waddr 0 i fl = Inr []"
| "read_blocks F waddr (Suc k) i fl =
     on_words (flash_read F (waddr + i * WORDS_BUF_SIZE) WORDS_BUF_SIZE fl) (\<lambda>ws.
     on_words (read_blocks F waddr k (i + 1) fl) (\<lambda>bs. Inr (words_to_bytes ws @ bs)))"

definition read_words :: "'d fstorage \<Rightarrow> nat \<Rightarrow> nat \<Rightarrow> 'd flash \<Rightarrow> ret_code + byte list" where
  "read_words F waddr length_words fl =
     (let n = length_words div WORDS_BUF_SIZE in
      on_words (read_blocks F waddr n 0 fl) (\<lambda>bs.
      if length_words mod WORDS_BUF_SIZE > 0
      then on_words (flash_read F (waddr + n * WORDS_BUF_SIZE) (length_words mod WORDS_BUF_SIZE) fl) (\<lambda>ws.
           Inr (bs @ words_to_bytes ws))
      else Inr bs))"

definition storage1_read_uint32_as_uint8 :: "'d fstorage \<Rightarrow> nat \<Rightarrow> nat \<Rightarrow> 'd flash \<Rightarrow> ret_code + byte list" where
  "storage1_read_uint32_as_uint8 F address length_data fl =
     (if u32_add address length_data > storage1_get_size then Inl NRF_ERROR_INVALID_PARAM
      else if length_data = 0 then Inr []
      else
        let (lead, mid, final) = storage1_compute_word_aligned_addresses address length_data
        in on_words
             (if mid > 0 then
                if mid < 4 then on_words (flash_read F (address div 4) 1 fl) (\<lambda>ws.
                  Inr (map (word_byte (ws ! 0)) [address mod 4..<(address mod 4 + mid) mod 4]))
                else read_words F ((address + lead) div 4) (mid div 4) fl
              else Inr []) (\<lambda>middle.
           on_words
             (if lead > 0 then on_words (flash_read F (address div 4) 1 fl) (\<lambda>ws.
                Inr (map (word_byte (ws ! 0)) [4 - lead..<4]))
              else Inr []) (\<lambda>leading.
           on_words
             (if final > 0 then on_words (flash_read F ((address + lead + mid) div 4) 1 fl) (\<lambda>ws.
                Inr (map (word_byte (ws ! 0)) [0..<final]))
              else Inr []) (\<lambda>ending.
           Inr (leading @ middle @ ending)))))"

section \<open>The interface\<close>

definition storage1_init :: "'d fstorage \<Rightarrow> 'd storage1 \<Rightarrow> (unit, 'd storage1) outcome" where
  "storage1_init F s =
     (let s = s\<lparr>last_stored_element_addresses := replicate STORAGE1_LAST_STORED_ELEMENT_ADDRESSES_SIZE (- 1)\<rparr>
      in if init_done s then (Inr (), s)
         else attempt id (on_flash (flash_init F) s) (\<lambda>_ s. (Inr (), s\<lparr>init_done := True\<rparr>)))"

definition storage1_store :: "'d fstorage \<Rightarrow> nat \<Rightarrow> byte list \<Rightarrow> 'd storage1 \<Rightarrow> (unit, 'd storage1) outcome" where
  "storage1_store F address data s =
     (if u32_add address (length data) > storage1_get_size then (Inl NRF_ERROR_INVALID_PARAM, s)
      else if length data = 0 then (Inr (), s)
      else
        let start_page = storage1_get_page_address address;
            first_byte = start_page * FLASH_PAGE_SIZE_WORDS * 4;
            backup_len = u32_sub address first_byte
        in if backup_len > FLASH_PAGE_SIZE_WORDS * 4 then (Inl NRF_ERROR_INTERNAL, s)
           else case (if backup_len > 0 then storage1_read_uint32_as_uint8 F first_byte backup_len (flash s) else Inr []) of
             Inl e \<Rightarrow> (Inl e, s)
           | Inr backup_data \<Rightarrow>
               (case storage1_compute_pages_to_erase address (length data) (last_stored_element_addresses s) of
                  (Inl e, table) \<Rightarrow> (Inl e, s\<lparr>last_stored_element_addresses := table\<rparr>)
                | (Inr (erase_start, erase_num), table) \<Rightarrow>
                    let s = s\<lparr>last_stored_element_addresses := table\<rparr>
                    in attempt id (if erase_num > 0 then on_flash (flash_erase F erase_start erase_num) s else (Inr (), s)) (\<lambda>_ s.
                       attempt id (if backup_len > 0 \<and> erase_start = start_page
                                   then on_flash (storage1_store_uint8_as_uint32 F first_byte backup_data) s
                                   else (Inr (), s)) (\<lambda>_ s.
                       on_flash (storage1_store_uint8_as_uint32 F address data) s))))"

definition storage1_read :: "'d fstorage \<Rightarrow> nat \<Rightarrow> nat \<Rightarrow> 'd storage1 \<Rightarrow> (byte list, 'd storage1) outcome" where
  "storage1_read F address length_data s =
     (if u32_add address length_data > storage1_get_size then (Inl NRF_ERROR_INVALID_PARAM, s)
      else if length_data = 0 then (Inr [], s)
      else (storage1_read_uint32_as_uint8 F address length_data (flash s), s))"

text \<open>Clearing writes 0xFF in pieces of 128 bytes.\<close>

function storage1_clear :: "'d fstorage \<Rightarrow> nat \<Rightarrow> nat \<Rightarrow> 'd storage1 \<Rightarrow> (unit, 'd storage1) outcome" where
  "storage1_clear F address len s =
     (if len = 0 then (Inr (), s)
      else if len \<ge> 128
      then attempt id (storage1_store F address (replicate 128 0xFF) s) (\<lambda>_ s. storage1_clear F (u32_add address 128) (len - 128) s)
      else storage1_store F address (replicate len 0xFF) s)"
  by pat_completeness auto
termination
  by (relation "measure (\<lambda>(F, address, len, s). len)") auto

end
