(* ===== verification/Storage1_Correct.thy ===== *)
theory Storage1_Correct
  imports Storage1
begin

text \<open>
  The flash storage keeps the contract of a storage module: what was stored is read back, bytes
  in front of a store survive it even when their page is erased, and no other page is touched.
\<close>

section \<open>Bytes of words\<close>

lemma word_byte_bit: "bit (word_byte w i) k \<longleftrightarrow> k < 8 \<and> bit w (8 * i + k)"
  by (auto simp: word_byte_def bit_simps dest: bit_imp_le_length)

lemma word_byte_and [simp]: "word_byte (v AND w) i = word_byte v i AND word_byte w i"
  by (rule bit_word_eqI) (simp add: word_byte_bit bit_simps)

lemma word_byte_ones [simp]: "i < 4 \<Longrightarrow> word_byte (- 1) i = 0xFF"
proof -
  assume "i < 4"
  have "(0xFF :: byte) = - 1" by simp
  moreover have "word_byte (- 1) i = - 1"
    by (rule bit_word_eqI) (use \<open>i < 4\<close> in \<open>simp add: word_byte_bit bit_simps\<close>)
  ultimately show ?thesis by simp
qed

lemma less_4_cases: "(i :: nat) < 4 \<Longrightarrow> i = 0 \<or> i = 1 \<or> i = 2 \<or> i = 3"
  by auto

lemma word_byte_of_bytes:
  assumes "i < 4"
  shows "word_byte (word_of_bytes b0 b1 b2 b3) i = (if i = 0 then b0 else if i = 1 then b1 else if i = 2 then b2 else b3)"
proof (rule bit_word_eqI)
  fix k assume "k < LENGTH(8)"
  then have k: "k < 8" by simp
  have nb: "\<not> bit b j" if "8 \<le> j" for b :: byte and j using that bit_imp_le_length[of b j] by auto
  from less_4_cases[OF assms] show "bit (word_byte (word_of_bytes b0 b1 b2 b3) i) k
      = bit (if i = 0 then b0 else if i = 1 then b1 else if i = 2 then b2 else b3) k"
    using k by (elim disjE) (auto simp: word_byte_bit word_of_bytes_def bit_simps nb)
qed

lemma length_bytes_to_words [simp]: "length (bytes_to_words bs) = length bs div 4"
  by (induction bs rule: bytes_to_words.induct) auto

lemma bytes_to_words_byte:
  assumes "4 * k + i < length bs" and "i < 4" and "4 dvd length bs"
  shows "word_byte (bytes_to_words bs ! k) i = bs ! (4 * k + i)"
  using assms
proof (induction bs arbitrary: k rule: bytes_to_words.induct)
  case (1 b0 b1 b2 b3 bs)
  have dvd: "4 dvd length bs" using 1(4) unfolding list.size by presburger
  show ?case
  proof (cases k)
    case 0
    with 1(3) less_4_cases[OF 1(3)] show ?thesis by (auto simp: word_byte_of_bytes)
  next
    case (Suc j)
    have "4 * Suc j + i = Suc (Suc (Suc (Suc (4 * j + i))))" by simp
    with Suc 1(1)[of j] 1(2,3) dvd show ?thesis by simp
  qed
qed (auto dest: dvd_imp_le)

lemma length_words_to_bytes [simp]: "length (words_to_bytes ws) = 4 * length ws"
  by (induction ws) (simp_all add: words_to_bytes_def)

lemma words_to_bytes_append [simp]: "words_to_bytes (xs @ ys) = words_to_bytes xs @ words_to_bytes ys"
  by (simp add: words_to_bytes_def)

lemma padded_word_byte:
  assumes "i < 4"
  shows "word_byte (padded_word lo hi d) i = (if lo \<le> i \<and> i < hi then d ! (i - lo) else 0xFF)"
  using assms less_4_cases[OF assms] by (auto simp: padded_word_def Let_def word_byte_of_bytes)

section \<open>Word alignment\<close>

text \<open>The three parts of a byte range: inside one word, or with an aligned middle.\<close>

lemma word_aligned_cases:
  assumes "0 < n" and "storage1_compute_word_aligned_addresses a n = (lead, mid, final)"
  obtains (inside) "lead = 0" "mid = n" "final = 0" "mid < 4" "a mod 4 + n < 4"
    | (aligned) "lead + mid + final = n" "4 dvd a + lead" "4 dvd mid" "lead < 4" "final < 4"
        "lead = 0 \<or> a mod 4 + lead = 4"
proof (cases "a div 4 = (a + n - 1) div 4 \<and> a mod 4 \<noteq> 0 \<and> (a + n) mod 4 \<noteq> 0")
  case True
  with assms have "lead = 0" "mid = n" "final = 0"
    by (simp_all add: storage1_compute_word_aligned_addresses_def)
  moreover have "a mod 4 + n < 4"
  proof -
    have "a + n - 1 = 4 * (a div 4) + (a + n - 1) mod 4" using True mult_div_mod_eq[of 4 "a + n - 1"] by simp
    moreover have "a = 4 * (a div 4) + a mod 4" by simp
    ultimately have "a mod 4 + n = (a + n - 1) mod 4 + 1" using assms(1) by linarith
    moreover have "(a + n - 1) mod 4 + 1 \<noteq> 4"
    proof
      assume "(a + n - 1) mod 4 + 1 = 4"
      then have "Suc (a + n - 1) mod 4 = 0" by (simp only: mod_Suc) simp
      with True assms(1) show False by simp
    qed
    moreover have "(a + n - 1) mod 4 < 4" by simp
    ultimately show ?thesis by linarith
  qed
  ultimately show thesis by (intro inside) linarith+
next
  case False
  obtain q r where a: "a = 4 * q + r" "r < 4" by (rule that[of "a div 4" "a mod 4"]) simp_all
  obtain q' r' where an: "a + n = 4 * q' + r'" "r' < 4" by (rule that[of "(a + n) div 4" "(a + n) mod 4"]) simp_all
  have ad: "a div 4 = q" "a mod 4 = r" "(a + n) div 4 = q'" "(a + n) mod 4 = r'" using a an by auto
  have l: "((a div 4 + 1) * 4 - a) mod 4 = (if r = 0 then 0 else 4 - r)" unfolding ad using a by auto
  have f: "((a + n) - ((a + n) div 4) * 4) mod 4 = r'" unfolding ad using an by auto
  have d: "lead = (if r = 0 then 0 else 4 - r)" "final = r'" "mid = (if n \<ge> r' + lead then n - (r' + lead) else 0)"
    using assms False unfolding storage1_compute_word_aligned_addresses_def l f by (auto simp: Let_def)
  have le: "r' + lead \<le> n"
  proof (cases "r = 0 \<or> r' = 0")
    case True
    with d(1) a an assms(1) show ?thesis by (elim disjE) (auto, presburger+)
  next
    case False
    with \<open>\<not> (_ \<and> _ \<and> _)\<close> ad have "q \<noteq> (a + n - 1) div 4" by auto
    moreover have "(a + n - 1) div 4 = q'" using an False by auto
    ultimately have "q < q'" using a an assms(1) by auto
    with d False a an show ?thesis by auto
  qed
  have al: "a + lead = 4 * (if r = 0 then q else q + 1)" using a d by auto
  have "a + lead + mid = 4 * q'" using le d an by auto
  then have "4 dvd mid" using al by (metis dvd_add_right_iff dvd_triv_left)
  with al le d a(2) an(2) ad show thesis by (intro aligned) auto
qed

section \<open>The table of end addresses\<close>

definition entry_page :: "int \<Rightarrow> nat" where
  "entry_page l = storage1_get_page_address (nat l)"

lemma erase_scan_pages:
  assumes "erase_scan a sp np er t = (er', t')"
  shows "er' = er \<or> (er' = (sp + 1, np - 1) \<and> (\<exists>l \<in> set t. l \<noteq> - 1 \<and> entry_page l = sp \<and> l < int a))"
  using assms
proof (induction t arbitrary: er er' t')
  case (Cons l ls)
  let ?er = "if l \<noteq> - 1 \<and> entry_page l = sp \<and> l < int a then (sp + 1, np - 1) else er"
  obtain ls' where sc: "erase_scan a sp np ?er ls = (er', ls')"
    using Cons.prems by (auto simp: Let_def entry_page_def split: prod.splits)
  from Cons.IH[OF this] show ?case by (auto split: if_splits)
qed simp

lemma erase_scan_table:
  assumes "erase_scan a sp np er t = (er', t')"
  shows "set t' \<subseteq> {- 1} \<union> {l \<in> set t. \<not> (sp \<le> entry_page l \<and> entry_page l < sp + np)}" "length t' = length t"
proof -
  have "set t' \<subseteq> {- 1} \<union> {l \<in> set t. \<not> (sp \<le> entry_page l \<and> entry_page l < sp + np)} \<and> length t' = length t"
    using assms
  proof (induction t arbitrary: er er' t')
    case (Cons l ls)
    obtain er1 ls' where sc: "erase_scan a sp np er1 ls = (er', ls')"
      and t': "t' = (if l \<noteq> - 1 \<and> sp \<le> entry_page l \<and> entry_page l < sp + np then - 1 else l) # ls'"
      using Cons.prems by (auto simp: Let_def entry_page_def split: prod.splits)
    from Cons.IH[OF sc] show ?case unfolding t' by auto
  qed simp
  then show "set t' \<subseteq> {- 1} \<union> {l \<in> set t. \<not> (sp \<le> entry_page l \<and> entry_page l < sp + np)}" "length t' = length t"
    by simp_all
qed

lemma storage1_sizes:
  "storage1_get_size = 71680" "storage1_get_unit_size = 1024" "FLASH_PAGE_SIZE_WORDS * FLASH_NUM_PAGES = 17920"
  "FLASH_PAGE_SIZE_WORDS = 256"
  by (simp_all add: storage1_get_size_def storage1_get_unit_size_def FLASH_PAGE_SIZE_WORDS_def FLASH_NUM_PAGES_def)

lemma page_address: "x < 71680 \<Longrightarrow> storage1_get_page_address x = x div 1024"
  by (simp add: storage1_get_page_address_def storage1_sizes)

lemma page_number:
  assumes "0 < n" and "a + n \<le> 71680"
  shows "storage1_get_page_number a n = (a + n - 1) div 1024 + 1 - a div 1024"
proof -
  have "a div 1024 \<le> (a + n - 1) div 1024" using assms by (intro div_le_mono) linarith
  moreover have "(a + n - 1) div 1024 < 71680" using assms by (simp add: less_mult_imp_div_less)
  ultimately show ?thesis
    using assms by (simp add: storage1_get_page_number_def storage1_sizes page_address)
qed

text \<open>The outcome of the computation of the pages to erase, for a range inside the storage.\<close>

lemma pages_to_erase:
  assumes "0 < n" and "a + n \<le> 71680" and "storage1_compute_pages_to_erase a n t = (r, t')"
  defines "sp \<equiv> a div 1024" and "np \<equiv> (a + n - 1) div 1024 + 1 - a div 1024"
  shows "(r = Inr (sp, np) \<or> r = Inr (sp + 1, np - 1) \<and> (\<exists>l \<in> set t. l \<noteq> - 1 \<and> entry_page l = sp \<and> l < int a))"
    "set t' \<subseteq> {- 1, int (a + n - 1)} \<union> {l \<in> set t. \<not> (sp \<le> entry_page l \<and> entry_page l < sp + np)}"
proof -
  obtain er t1 where sc: "erase_scan a sp np (sp, np) t = (er, t1)" by fastforce
  have nw: "u32_add a n = a + n" "u32_sub (a + n) 1 = a + n - 1" using assms(1,2) by simp_all
  have eq: "storage1_compute_pages_to_erase a n t = (if (a + n - 1) mod 1024 = 1023 then (Inr er, t1)
      else (Inr er, t1[slot_scan (int (a + n - 1)) 0 0 (int storage1_get_size) t1 := int (a + n - 1)]))"
  proof -
    have pg: "storage1_get_page_address a = sp" "storage1_get_page_number a n = np"
      using assms(1,2) page_number[OF assms(1,2)] by (simp_all add: page_address sp_def np_def)
    have "\<not> a + n > storage1_get_size" "n \<noteq> 0" using assms(1,2) by (simp_all add: storage1_sizes)
    then show ?thesis
      unfolding storage1_compute_pages_to_erase_def nw(1) pg Let_def sc prod.case nw(2) nat_int
      by (simp add: storage1_sizes)
  qed
  then have r: "r = Inr er" "t' = t1 \<or> (\<exists>i. t' = t1[i := int (a + n - 1)])" using assms(3) by (auto split: if_splits)
  show "(r = Inr (sp, np) \<or> r = Inr (sp + 1, np - 1) \<and> (\<exists>l \<in> set t. l \<noteq> - 1 \<and> entry_page l = sp \<and> l < int a))"
    using erase_scan_pages[OF sc] r(1) by auto
  have "set t' \<subseteq> insert (int (a + n - 1)) (set t1)" using r(2) set_update_subset_insert by fastforce
  then show "set t' \<subseteq> {- 1, int (a + n - 1)} \<union> {l \<in> set t. \<not> (sp \<le> entry_page l \<and> entry_page l < sp + np)}"
    using erase_scan_table(1)[OF sc] by auto
qed

context fstorage_laws
begin

definition fbyte :: "'d flash \<Rightarrow> nat \<Rightarrow> byte" where
  "fbyte fl x = word_byte (fword fl (x div 4)) (x mod 4)"

section \<open>Storing words\<close>

lemma store_blocks_done:
  assumes "store_blocks F waddr ws k i fl = (Inr (), fl')" and "(i + k) * WORDS_BUF_SIZE \<le> length ws"
  shows "fword fl' w = (if waddr + i * WORDS_BUF_SIZE \<le> w \<and> w < waddr + (i + k) * WORDS_BUF_SIZE
    then fword fl w AND ws ! (w - waddr) else fword fl w)"
  using assms
proof (induction k arbitrary: i fl)
  case 0
  then show ?case by auto
next
  case (Suc k)
  let ?b = "take WORDS_BUF_SIZE (drop (i * WORDS_BUF_SIZE) ws)"
  from Suc.prems(1) obtain fl1 where 1: "flash_store F (waddr + i * WORDS_BUF_SIZE) ?b fl = (Inr (), fl1)"
    and 2: "store_blocks F waddr ws k (i + 1) fl1 = (Inr (), fl')"
    by (auto elim!: attempt_success)
  have len: "length ?b = WORDS_BUF_SIZE" using Suc.prems(2) by (simp add: algebra_simps)
  have p2: "(i + 1 + k) * WORDS_BUF_SIZE \<le> length ws" using Suc.prems(2) by simp
  have nth: "?b ! (w - (waddr + i * WORDS_BUF_SIZE)) = ws ! (w - waddr)"
    if "waddr + i * WORDS_BUF_SIZE \<le> w" "w < waddr + i * WORDS_BUF_SIZE + WORDS_BUF_SIZE"
    using that p2 by (simp add: algebra_simps)
  define p q where "p = waddr + i * WORDS_BUF_SIZE" and "q = waddr + (i + 1 + k) * WORDS_BUF_SIZE"
  have e: "waddr + (i + 1) * WORDS_BUF_SIZE = p + WORDS_BUF_SIZE" "waddr + (i + Suc k) * WORDS_BUF_SIZE = q"
    "p + WORDS_BUF_SIZE \<le> q" by (simp_all add: p_def q_def algebra_simps)
  show ?case
    using Suc.IH[OF 2 p2] flash_store_done[OF 1, of w] nth e(3)
    unfolding len e(1,2) p_def[symmetric] q_def[symmetric] by (cases "p \<le> w"; cases "w < p + WORDS_BUF_SIZE"; cases "w < q") auto
qed

lemma store_words_done:
  assumes "store_words F waddr ws fl = (Inr (), fl')"
  shows "fword fl' w = (if waddr \<le> w \<and> w < waddr + length ws then fword fl w AND ws ! (w - waddr) else fword fl w)"
proof -
  let ?n = "length ws div WORDS_BUF_SIZE"
  from assms obtain fl1 where 1: "store_blocks F waddr ws ?n 0 fl = (Inr (), fl1)"
    and 2: "(if length ws mod WORDS_BUF_SIZE > 0
      then flash_store F (waddr + ?n * WORDS_BUF_SIZE) (drop (?n * WORDS_BUF_SIZE) ws) fl1 else (Inr (), fl1)) = (Inr (), fl')"
    unfolding store_words_def Let_def by (auto elim!: attempt_success)
  note b = store_blocks_done[OF 1, of w, simplified]
  show ?thesis
  proof (cases "length ws mod WORDS_BUF_SIZE > 0")
    case True
    then have "flash_store F (waddr + ?n * WORDS_BUF_SIZE) (drop (?n * WORDS_BUF_SIZE) ws) fl1 = (Inr (), fl')" using 2 by simp
    note e = flash_store_done[OF this, of w]
    define m where "m = ?n * WORDS_BUF_SIZE"
    have "m \<le> length ws" by (simp add: m_def)
    with e b show ?thesis unfolding m_def[symmetric] by (auto split: if_splits)
  next
    case False
    then have "?n * WORDS_BUF_SIZE = length ws" by (metis div_mult_mod_eq add.right_neutral gr0I)
    with b 2 False show ?thesis by auto
  qed
qed

lemma store_blocks_frame:
  assumes "store_blocks F waddr ws k i fl = (r, fl')" and "(i + k) * WORDS_BUF_SIZE \<le> length ws"
    and "w < waddr \<or> waddr + length ws \<le> w"
  shows "fword fl' w = fword fl w"
  using assms
proof (induction k arbitrary: i fl)
  case (Suc k)
  let ?b = "take WORDS_BUF_SIZE (drop (i * WORDS_BUF_SIZE) ws)"
  obtain r1 fl1 where 1: "flash_store F (waddr + i * WORDS_BUF_SIZE) ?b fl = (r1, fl1)" by fastforce
  have p2: "(i + 1 + k) * WORDS_BUF_SIZE \<le> length ws" using Suc.prems(2) by simp
  then have "i * WORDS_BUF_SIZE + length ?b \<le> length ws" by (simp add: algebra_simps)
  then have f1: "fword fl1 w = fword fl w" using flash_store_frame[OF 1, of w] Suc.prems(3) by linarith
  show ?case
  proof (cases r1)
    case (Inl e)
    with Suc.prems(1) 1 f1 show ?thesis by simp
  next
    case (Inr x)
    with Suc.prems(1) 1 have "store_blocks F waddr ws k (i + 1) fl1 = (r, fl')" by simp
    from Suc.IH[OF this p2 Suc.prems(3)] f1 show ?thesis by simp
  qed
qed simp

lemma store_words_frame:
  assumes "store_words F waddr ws fl = (r, fl')" and "w < waddr \<or> waddr + length ws \<le> w"
  shows "fword fl' w = fword fl w"
proof -
  let ?n = "length ws div WORDS_BUF_SIZE"
  obtain r1 fl1 where 1: "store_blocks F waddr ws ?n 0 fl = (r1, fl1)" by fastforce
  have f1: "fword fl1 w = fword fl w" by (rule store_blocks_frame[OF 1 _ assms(2)]) simp
  show ?thesis
  proof (cases r1)
    case (Inl e)
    with assms(1) 1 f1 show ?thesis by (simp add: store_words_def)
  next
    case (Inr x)
    have "w < waddr + ?n * WORDS_BUF_SIZE \<or> waddr + ?n * WORDS_BUF_SIZE + length (drop (?n * WORDS_BUF_SIZE) ws) \<le> w"
      using assms(2) by auto
    with assms(1) 1 Inr f1 flash_store_frame[of "waddr + ?n * WORDS_BUF_SIZE" "drop (?n * WORDS_BUF_SIZE) ws" fl1 r fl' w]
    show ?thesis by (auto simp: store_words_def Let_def split: if_splits)
  qed
qed

section \<open>Storing bytes\<close>

text \<open>The bytes of a range are combined with the data by AND, as flash does; no other byte changes.\<close>

definition and_effect :: "'d flash \<Rightarrow> 'd flash \<Rightarrow> nat \<Rightarrow> byte list \<Rightarrow> bool" where
  "and_effect fl fl' a d \<longleftrightarrow>
     (\<forall>x. fbyte fl' x = (if a \<le> x \<and> x < a + length d then fbyte fl x AND d ! (x - a) else fbyte fl x))"

lemma and_effect_Nil [simp]: "and_effect fl fl a []"
  by (auto simp: and_effect_def)

lemma and_effect_append:
  assumes "and_effect fl fl1 a d1" and "and_effect fl1 fl2 (a + length d1) d2"
  shows "and_effect fl fl2 a (d1 @ d2)"
  using assms unfolding and_effect_def by (auto simp: nth_append)

lemma and_effect_swap:
  assumes "and_effect fl fl1 (a + length d1) d2" and "and_effect fl1 fl2 a d1"
  shows "and_effect fl fl2 a (d1 @ d2)"
  using assms unfolding and_effect_def by (auto simp: nth_append)

lemma and_ff [simp]: "(b :: byte) AND 0xFF = b"
proof -
  have "(0xFF :: byte) = - 1" by simp
  then show ?thesis by (simp only: and.right_neutral)
qed

lemma ff_and [simp]: "0xFF AND (b :: byte) = b"
  using and_ff[of b] by (simp only: and.commute)

lemma padded_word_effect:
  assumes "flash_store F k [padded_word lo hi d] fl = (Inr (), fl')" and "lo \<le> hi" and "hi \<le> 4" and "hi - lo \<le> length d"
  shows "and_effect fl fl' (4 * k + lo) (take (hi - lo) d)"
  unfolding and_effect_def
proof
  fix x :: nat
  have m: "x mod 4 < 4" by simp
  have w: "fbyte fl' x = (if x div 4 = k then fbyte fl x AND word_byte (padded_word lo hi d) (x mod 4) else fbyte fl x)"
    using flash_store_done[OF assms(1), of "x div 4"] by (auto simp: fbyte_def)
  show "fbyte fl' x = (if 4 * k + lo \<le> x \<and> x < 4 * k + lo + length (take (hi - lo) d)
      then fbyte fl x AND take (hi - lo) d ! (x - (4 * k + lo)) else fbyte fl x)"
  proof (cases "x div 4 = k")
    case True
    then have x: "x = 4 * k + x mod 4" using mult_div_mod_eq[of 4 x] by simp
    show ?thesis unfolding w using True assms(2-4)
      by (subst (3 4 5) x) (auto simp: padded_word_byte[OF m])
  next
    case False
    then have "\<not> (4 * k + lo \<le> x \<and> x < 4 * k + lo + (hi - lo))" using assms(2,3) by auto
    then show ?thesis unfolding w using False by auto
  qed
qed

lemma store_words_effect:
  assumes "store_words F k (bytes_to_words d) fl = (Inr (), fl')" and "4 dvd length d"
  shows "and_effect fl fl' (4 * k) d"
  unfolding and_effect_def
proof
  fix x :: nat
  obtain n where n: "length d = 4 * n" using assms(2) by auto
  have w: "fbyte fl' x = (if k \<le> x div 4 \<and> x div 4 < k + n
      then fbyte fl x AND word_byte (bytes_to_words d ! (x div 4 - k)) (x mod 4) else fbyte fl x)"
    using store_words_done[OF assms(1), of "x div 4"] by (simp add: fbyte_def n)
  have iff: "(k \<le> x div 4 \<and> x div 4 < k + n) = (4 * k \<le> x \<and> x < 4 * k + length d)" unfolding n by auto
  have "word_byte (bytes_to_words d ! (x div 4 - k)) (x mod 4) = d ! (x - 4 * k)" if "4 * k \<le> x \<and> x < 4 * k + length d"
  proof -
    have "4 * (x div 4 - k) + x mod 4 = x - 4 * k" using that by (metis diff_mult_distrib2 mult_div_mod_eq add.commute diff_add_assoc2 nat_mult_le_cancel_disj that iff)
    moreover from this have "4 * (x div 4 - k) + x mod 4 < length d" using that by linarith
    ultimately show ?thesis using bytes_to_words_byte[of "x div 4 - k" "x mod 4" d] assms(2) by simp
  qed
  then show "fbyte fl' x = (if 4 * k \<le> x \<and> x < 4 * k + length d then fbyte fl x AND d ! (x - 4 * k) else fbyte fl x)"
    unfolding w iff by simp
qed

lemma store_bytes_done:
  assumes "storage1_store_uint8_as_uint32 F a d fl = (Inr (), fl')" and "a + length d \<le> storage1_get_size"
  shows "and_effect fl fl' a d"
proof (cases "d = []")
  case True
  with assms(1) show ?thesis by (auto simp: storage1_store_uint8_as_uint32_def split: if_splits)
next
  case False
  have nw: "u32_add a (length d) = a + length d" using assms(2) by (simp add: storage1_sizes)
  obtain l m f where al: "storage1_compute_word_aligned_addresses a (length d) = (l, m, f)" by (metis prod_cases3)
  from assms False al nw obtain fl1 fl2 where
    1: "(if m > 0 then if m < 4 then flash_store F (a div 4) [padded_word (a mod 4) ((a mod 4 + m) mod 4) d] fl
         else store_words F ((a + l) div 4) (bytes_to_words (take (m div 4 * 4) (drop l d))) fl else (Inr (), fl)) = (Inr (), fl1)"
    and 2: "(if l > 0 then flash_store F (a div 4) [padded_word (4 - l) 4 d] fl1 else (Inr (), fl1)) = (Inr (), fl2)"
    and 3: "(if f > 0 then flash_store F ((a + l + m) div 4) [padded_word 0 f (drop (l + m) d)] fl2 else (Inr (), fl2)) = (Inr (), fl')"
    unfolding storage1_store_uint8_as_uint32_def Let_def by (auto elim!: attempt_success simp: Let_def)
  have a4: "4 * (a div 4) + a mod 4 = a" by simp
  from False have "0 < length d" by simp
  from this al show ?thesis
  proof (cases rule: word_aligned_cases)
    case inside
    with 1 2 3 False have st: "flash_store F (a div 4) [padded_word (a mod 4) (a mod 4 + length d) d] fl = (Inr (), fl')" by simp
    show ?thesis using padded_word_effect[OF st] inside a4 by simp
  next
    case aligned
    have mid: "and_effect fl fl1 (a + l) (take m (drop l d))"
    proof (cases "m > 0")
      case True
      with aligned(3) have "4 \<le> m" by (auto dest: dvd_imp_le)
      moreover have md: "m div 4 * 4 = m" using aligned(3) by simp
      ultimately have st: "store_words F ((a + l) div 4) (bytes_to_words (take m (drop l d))) fl = (Inr (), fl1)" using 1 by simp
      have "length (take m (drop l d)) = m" using aligned(1) by simp
      then have "4 dvd length (take m (drop l d))" using aligned(3) by simp
      from store_words_effect[OF st this] show ?thesis using aligned(2) by simp
    qed (use 1 in simp)
    have lead: "and_effect fl1 fl2 a (take l d)"
    proof (cases "l > 0")
      case True
      with 2 have st: "flash_store F (a div 4) [padded_word (4 - l) 4 d] fl1 = (Inr (), fl2)" by simp
      have "4 * (a div 4) + (4 - l) = a" using aligned(4,6) True a4 by linarith
      with padded_word_effect[OF st] aligned(1,4) True show ?thesis by simp
    qed (use 2 in simp)
    have final: "and_effect fl2 fl' (a + l + m) (drop (l + m) d)"
    proof (cases "f > 0")
      case True
      with 3 have st: "flash_store F ((a + l + m) div 4) [padded_word 0 f (drop (l + m) d)] fl2 = (Inr (), fl')" by simp
      have "4 dvd a + l + m" using aligned(2,3) by simp
      then have "4 * ((a + l + m) div 4) + 0 = a + l + m" by simp
      with padded_word_effect[OF st] aligned(1,5) True show ?thesis by simp
    qed (use 3 aligned in simp)
    have len: "length (take l d) = l" "length (take l d @ take m (drop l d)) = l + m" using aligned(1) by simp_all
    have "and_effect fl fl2 a (take l d @ take m (drop l d))"
      by (rule and_effect_swap[OF _ lead]) (use mid in \<open>simp only: len\<close>)
    then have "and_effect fl fl' a ((take l d @ take m (drop l d)) @ drop (l + m) d)"
      by (rule and_effect_append) (use final in \<open>simp only: len add.assoc\<close>)
    moreover have "(take l d @ take m (drop l d)) @ drop (l + m) d = d"
      by (metis append_take_drop_id take_add)
    ultimately show ?thesis by simp
  qed
qed

lemma store_bytes_frame:
  assumes "storage1_store_uint8_as_uint32 F a d fl = (r, fl')" and "a + length d \<le> storage1_get_size" and "d \<noteq> []"
    and "w < a div 4 \<or> (a + length d - 1) div 4 < w"
  shows "fword fl' w = fword fl w"
proof -
  have nw: "u32_add a (length d) = a + length d" using assms(2) by (simp add: storage1_sizes)
  obtain l m f where al: "storage1_compute_word_aligned_addresses a (length d) = (l, m, f)" by (metis prod_cases3)
  obtain r1 fl1 where 1: "(if m > 0 then if m < 4 then flash_store F (a div 4) [padded_word (a mod 4) ((a mod 4 + m) mod 4) d] fl
         else store_words F ((a + l) div 4) (bytes_to_words (take (m div 4 * 4) (drop l d))) fl else (Inr (), fl)) = (r1, fl1)" by fastforce
  obtain r2 fl2 where 2: "(if l > 0 then flash_store F (a div 4) [padded_word (4 - l) 4 d] fl1 else (Inr (), fl1)) = (r2, fl2)" by fastforce
  obtain r3 fl3 where 3: "(if f > 0 then flash_store F ((a + l + m) div 4) [padded_word 0 f (drop (l + m) d)] fl2 else (Inr (), fl2)) = (r3, fl3)" by fastforce
  from assms(3) have n0: "0 < length d" by simp
  have lm: "l + m + f = length d"
    by (rule word_aligned_cases[OF n0 al]) auto
  have le: "a div 4 \<le> (a + length d - 1) div 4" using n0 by (intro div_le_mono) linarith
  have first: "w < a div 4 \<or> a div 4 + length [z] \<le> w" for z :: "32 word" using assms(4) le by auto
  have f1: "fword fl1 w = fword fl w"
  proof (cases "m \<ge> 4")
    case True
    have al2: "4 dvd a + l" "4 dvd m" by (rule word_aligned_cases[OF n0 al]; use True in simp)+
    have "m \<le> length (drop l d)" using lm by simp
    then have len: "length (bytes_to_words (take (m div 4 * 4) (drop l d))) = m div 4" using al2 by simp
    have "(a + l) div 4 + m div 4 = (a + l + m) div 4" using al2 by (simp add: div_plus_div_distrib_dvd_left)
    moreover have "(a + l + m - 1) div 4 < (a + l + m) div 4"
    proof -
      have "4 dvd a + l + m" using al2 by simp
      then obtain q where "a + l + m = 4 * q" by auto
      with True show ?thesis by (cases q) auto
    qed
    moreover have "(a + l + m - 1) div 4 \<le> (a + length d - 1) div 4" using lm by (intro div_le_mono) linarith
    moreover have "(a + l + m) div 4 \<le> (a + l + m - 1) div 4 + 1" by presburger
    moreover have "a div 4 \<le> (a + l) div 4" by (intro div_le_mono) simp
    ultimately have "w < (a + l) div 4 \<or> (a + l) div 4 + length (bytes_to_words (take (m div 4 * 4) (drop l d))) \<le> w"
      unfolding len using assms(4) by linarith
    with 1 True show ?thesis by (auto dest: store_words_frame)
  qed (use 1 flash_store_frame[OF _ first] in \<open>auto split: if_splits\<close>)
  have f2: "fword fl2 w = fword fl1 w" using 2 flash_store_frame[OF _ first] by (auto split: if_splits)
  have f3: "fword fl3 w = fword fl2 w"
  proof (cases "f > 0")
    case True
    have "(a + l + m) div 4 \<le> (a + length d - 1) div 4" "a div 4 \<le> (a + l + m) div 4"
      using lm True by (auto intro!: div_le_mono)
    then have "w < (a + l + m) div 4 \<or> (a + l + m) div 4 + length [z] \<le> w" for z :: "32 word" using assms(4) by auto
    with True 3 flash_store_frame show ?thesis by fastforce
  qed (use 3 in simp)
  have "fl' \<in> {fl1, fl2, fl3}"
    using assms(1,3) nw assms(2) al 1 2 3 unfolding storage1_store_uint8_as_uint32_def Let_def
    by (cases r1; cases r2) auto
  with f1 f2 f3 show ?thesis by auto
qed

section \<open>Reading bytes\<close>

lemma on_words_simps [simp]: "on_words (Inl e) k = Inl e" "on_words (Inr x) k = k x"
  by (simp_all add: on_words_def)

lemma flash_read_ok:
  "w + n \<le> 17920 \<Longrightarrow> flash_read F w n fl = Inr (map (fword fl) [w..<w + n])"
  by (simp add: flash_read_def storage1_sizes(3))

lemma word_bytes: "map (word_byte (fword fl k)) [i..<j] = map (fbyte fl) [4 * k + i..<4 * k + j]" if "j \<le> 4"
proof (rule nth_equalityI)
  fix t assume "t < length (map (word_byte (fword fl k)) [i..<j])"
  then have t: "i + t < j" by simp
  then have "(4 * k + i + t) div 4 = k" "(4 * k + i + t) mod 4 = i + t" using that by (simp_all add: add.assoc)
  then show "map (word_byte (fword fl k)) [i..<j] ! t = map (fbyte fl) [4 * k + i..<4 * k + j] ! t"
    using t by (simp add: fbyte_def)
qed simp

lemma words_to_bytes_fwords: "words_to_bytes (map (fword fl) [k..<k + n]) = map (fbyte fl) [4 * k..<4 * (k + n)]"
proof (induction n)
  case (Suc n)
  have up: "[4 * k..<4 * (k + Suc n)] = [4 * k..<4 * (k + n)] @ [4 * (k + n)..<4 * (k + n) + 4]"
    using upt_split[of "4 * k" "4 * (k + n)" "4 * (k + Suc n)"] by (simp add: add.commute)
  have "[k..<k + Suc n] = [k..<k + n] @ [k + n]" by simp
  then have "words_to_bytes (map (fword fl) [k..<k + Suc n])
      = words_to_bytes (map (fword fl) [k..<k + n]) @ words_to_bytes [fword fl (k + n)]"
    by (simp only: map_append words_to_bytes_append list.map)
  also have "words_to_bytes [fword fl (k + n)] = map (fbyte fl) [4 * (k + n)..<4 * (k + n) + 4]"
    using word_bytes[of 4 fl "k + n" 0] by (simp add: words_to_bytes_def)
  finally show ?case unfolding Suc.IH up map_append .
qed (simp add: words_to_bytes_def)

lemma read_blocks_ok:
  "waddr + (i + k) * WORDS_BUF_SIZE \<le> 17920 \<Longrightarrow>
   read_blocks F waddr k i fl = Inr (map (fbyte fl) [4 * (waddr + i * WORDS_BUF_SIZE)..<4 * (waddr + (i + k) * WORDS_BUF_SIZE)])"
proof (induction k arbitrary: i)
  case (Suc k)
  let ?p = "waddr + i * WORDS_BUF_SIZE" and ?q = "waddr + (i + Suc k) * WORDS_BUF_SIZE"
  have eq: "waddr + (i + 1) * WORDS_BUF_SIZE = ?p + WORDS_BUF_SIZE" "waddr + (i + 1 + k) * WORDS_BUF_SIZE = ?q"
    by (simp_all add: algebra_simps)
  have le: "?p + WORDS_BUF_SIZE \<le> ?q" by (simp add: algebra_simps)
  have rd: "flash_read F ?p WORDS_BUF_SIZE fl = Inr (map (fword fl) [?p..<?p + WORDS_BUF_SIZE])"
    by (rule flash_read_ok) (use le Suc.prems in linarith)
  have ih: "read_blocks F waddr k (i + 1) fl = Inr (map (fbyte fl) [4 * (?p + WORDS_BUF_SIZE)..<4 * ?q])"
    using Suc.IH[of "i + 1"] Suc.prems unfolding eq by simp
  have "[4 * ?p..<4 * ?q] = [4 * ?p..<4 * (?p + WORDS_BUF_SIZE)] @ [4 * (?p + WORDS_BUF_SIZE)..<4 * ?q]"
    using le upt_add_eq_append[of "4 * ?p" "4 * (?p + WORDS_BUF_SIZE)" "4 * ?q - 4 * (?p + WORDS_BUF_SIZE)"] by simp
  then show ?case
    unfolding read_blocks.simps rd ih on_words_simps words_to_bytes_fwords by simp
qed simp

lemma read_words_ok:
  assumes "waddr + n \<le> 17920"
  shows "read_words F waddr n fl = Inr (map (fbyte fl) [4 * waddr..<4 * (waddr + n)])"
proof -
  define m where "m = n div WORDS_BUF_SIZE * WORDS_BUF_SIZE"
  have mn: "m \<le> n" "n mod WORDS_BUF_SIZE = n - m" by (simp_all add: m_def minus_div_mult_eq_mod)
  have b: "read_blocks F waddr (n div WORDS_BUF_SIZE) 0 fl = Inr (map (fbyte fl) [4 * waddr..<4 * (waddr + m)])"
    using read_blocks_ok[of waddr 0 "n div WORDS_BUF_SIZE"] mn(1) assms unfolding m_def by simp
  have r: "flash_read F (waddr + m) (n - m) fl = Inr (map (fword fl) [waddr + m..<waddr + m + (n - m)])"
    using flash_read_ok[of "waddr + m" "n - m"] mn(1) assms by simp
  have "[4 * waddr..<4 * (waddr + n)] = [4 * waddr..<4 * (waddr + m)] @ [4 * (waddr + m)..<4 * (waddr + n)]"
    using mn(1) by (intro upt_split) simp_all
  then show ?thesis
    unfolding read_words_def Let_def b on_words_simps m_def[symmetric] mn(2) r words_to_bytes_fwords
    using mn(1) by (cases "m = n") auto
qed

lemma read_bytes_ok:
  assumes "a + n \<le> storage1_get_size"
  shows "storage1_read_uint32_as_uint8 F a n fl = Inr (map (fbyte fl) [a..<a + n])"
proof (cases "n = 0")
  case True
  then show ?thesis using assms by (simp add: storage1_read_uint32_as_uint8_def storage1_sizes)
next
  case False
  have nw: "u32_add a n = a + n" using assms by (simp add: storage1_sizes)
  obtain l m f where al: "storage1_compute_word_aligned_addresses a n = (l, m, f)" by (metis prod_cases3)
  have a4: "4 * (a div 4) + a mod 4 = a" by simp
  have w1: "flash_read F k 1 fl = Inr (map (fword fl) [k..<k + 1])" if "k < 17920" for k
    by (rule flash_read_ok) (use that in simp)
  have hd: "map (fword fl) [k..<k + 1] ! 0 = fword fl k" for k by simp
  have ad: "a div 4 < 17920" using assms False by (simp add: storage1_sizes less_mult_imp_div_less)
  from False have "0 < n" by simp
  from this al show ?thesis
  proof (cases rule: word_aligned_cases)
    case inside
    have "map (word_byte (fword fl (a div 4))) [a mod 4..<a mod 4 + n] = map (fbyte fl) [a..<a + n]"
      using word_bytes[of "a mod 4 + n" fl "a div 4" "a mod 4"] inside(5) a4 by (simp add: add.assoc[symmetric])
    with inside False assms nw w1[OF ad] show ?thesis
      unfolding storage1_read_uint32_as_uint8_def al by simp
  next
    case aligned
    have mid: "(if m > 0 then if m < 4 then on_words (flash_read F (a div 4) 1 fl) (\<lambda>ws.
            Inr (map (word_byte (ws ! 0)) [a mod 4..<(a mod 4 + m) mod 4]))
          else read_words F ((a + l) div 4) (m div 4) fl else Inr []) = Inr (map (fbyte fl) [a + l..<a + l + m])"
    proof (cases "m > 0")
      case True
      with aligned(3) have "4 \<le> m" by (auto dest: dvd_imp_le)
      moreover have e: "4 * ((a + l) div 4) = a + l" "4 * ((a + l) div 4 + m div 4) = a + l + m"
        using aligned(2,3) by simp_all
      moreover have "(a + l) div 4 + m div 4 \<le> 17920" using e(2) aligned(1) assms by (simp add: storage1_sizes)
      ultimately show ?thesis using read_words_ok[of "(a + l) div 4" "m div 4" fl] True by simp
    qed simp
    have lead: "(if l > 0 then on_words (flash_read F (a div 4) 1 fl) (\<lambda>ws. Inr (map (word_byte (ws ! 0)) [4 - l..<4])) else Inr [])
        = Inr (map (fbyte fl) [a..<a + l])"
    proof (cases "l > 0")
      case True
      have "4 * (a div 4) + (4 - l) = a" "4 * (a div 4) + 4 = a + l" using aligned(4,6) True a4 by linarith+
      with True w1[OF ad] word_bytes[of 4 fl "a div 4" "4 - l"] show ?thesis by simp
    qed simp
    have final: "(if f > 0 then on_words (flash_read F ((a + l + m) div 4) 1 fl) (\<lambda>ws. Inr (map (word_byte (ws ! 0)) [0..<f])) else Inr [])
        = Inr (map (fbyte fl) [a + l + m..<a + n])"
    proof (cases "f > 0")
      case True
      have e: "4 * ((a + l + m) div 4) = a + l + m" using aligned(2,3) by simp
      have "(a + l + m) div 4 < 17920" using aligned(1) True assms by (simp add: storage1_sizes less_mult_imp_div_less)
      from w1[OF this] e word_bytes[of f fl "(a + l + m) div 4" 0] aligned(1,5) True show ?thesis by (simp add: add.assoc)
    qed (use aligned in simp)
    have "[a..<a + n] = [a..<a + l] @ [a + l..<a + l + m] @ [a + l + m..<a + n]"
      using aligned(1) upt_add_eq_append[of a "a + l" "m + f"] upt_add_eq_append[of "a + l" "a + l + m" f] by (simp add: add.assoc)
    with False assms nw show ?thesis
      unfolding storage1_read_uint32_as_uint8_def al Let_def prod.case mid lead final on_words_simps by simp
  qed
qed

section \<open>Stores with page management\<close>

lemma flash_erase_bytes:
  assumes "flash_erase F p n fl = (Inr (), fl')"
  shows "fbyte fl' x = (if p \<le> x div 1024 \<and> x div 1024 < p + n then 0xFF else fbyte fl x)"
proof -
  have d: "x div 1024 = x div 4 div 256" by (simp add: div_mult2_eq[symmetric])
  have iff: "(p \<le> x div 1024 \<and> x div 1024 < p + n) = (p * 256 \<le> x div 4 \<and> x div 4 < (p + n) * 256)"
    unfolding d by (simp add: less_eq_div_iff_mult_less_eq div_less_iff_less_mult)
  show ?thesis
    using flash_erase_done[OF assms, of "x div 4"] flash_erase_frame[OF assms, of "x div 4"]
    unfolding iff storage1_sizes(4) fbyte_def by (auto simp: not_le not_less)
qed

lemma flash_erase_bytes_frame:
  assumes "flash_erase F p n fl = (r, fl')" and "\<not> (p \<le> x div 1024 \<and> x div 1024 < p + n)"
  shows "fbyte fl' x = fbyte fl x"
proof -
  have d: "x div 1024 = x div 4 div 256" by (simp add: div_mult2_eq[symmetric])
  have "x div 4 < p * 256 \<or> (p + n) * 256 \<le> x div 4"
    using assms(2) unfolding d by (auto simp: less_eq_div_iff_mult_less_eq div_less_iff_less_mult not_le not_less)
  with flash_erase_frame[OF assms(1), of "x div 4"] show ?thesis by (simp add: storage1_sizes(4) fbyte_def)
qed

lemma store_bytes_page_frame:
  assumes "storage1_store_uint8_as_uint32 F a d fl = (r, fl')" and "a + length d \<le> 71680" and "d \<noteq> []"
    and "x div 1024 < a div 1024 \<or> (a + length d - 1) div 1024 < x div 1024"
  shows "fbyte fl' x = fbyte fl x"
proof -
  have d: "y div 1024 = y div 4 div 256" for y :: nat by (simp add: div_mult2_eq[symmetric])
  have "x div 4 < a div 4 \<or> (a + length d - 1) div 4 < x div 4"
    using assms(4) unfolding d by (meson div_le_mono not_le)
  with store_bytes_frame[OF assms(1) _ assms(3), of "x div 4"] assms(2) show ?thesis
    by (simp add: fbyte_def storage1_sizes)
qed

text \<open>The table tells the truth: behind a recorded end address the page is blank.\<close>

definition table_ok :: "'d storage1 \<Rightarrow> bool" where
  "table_ok s \<longleftrightarrow> (\<forall>l \<in> set (last_stored_element_addresses s). l \<noteq> - 1 \<longrightarrow>
     0 \<le> l \<and> l < 71680 \<and> (\<forall>x. l < int x \<and> x div 1024 = nat l div 1024 \<longrightarrow> fbyte (flash s) x = 0xFF))"

definition s1byte :: "'d storage1 \<Rightarrow> nat \<Rightarrow> byte" where
  "s1byte s x = fbyte (flash s) x"

lemma on_flash_eq: "on_flash f s = (r, s') \<longleftrightarrow> (\<exists>fl. f (flash s) = (r, fl) \<and> s' = s\<lparr>flash := fl\<rparr>)"
  by (auto simp: on_flash_def split: prod.splits)

text \<open>The steps of a store inside the storage.\<close>

definition store_steps :: "nat \<Rightarrow> byte list \<Rightarrow> nat \<Rightarrow> nat \<Rightarrow> 'd storage1 \<Rightarrow> byte list \<Rightarrow> (unit, 'd storage1) outcome" where
  "store_steps a d e_start e_num s backup =
     attempt id (if e_num > 0 then on_flash (flash_erase F e_start e_num) s else (Inr (), s)) (\<lambda>_ s.
     attempt id (if a - a div 1024 * 1024 > 0 \<and> e_start = a div 1024
                 then on_flash (storage1_store_uint8_as_uint32 F (a div 1024 * 1024) backup) s
                 else (Inr (), s)) (\<lambda>_ s.
     on_flash (storage1_store_uint8_as_uint32 F a d) s))"

lemma storage1_store_steps:
  assumes "d \<noteq> []" and "a + length d \<le> 71680"
    and "storage1_compute_pages_to_erase a (length d) (last_stored_element_addresses s) = (Inr (e_start, e_num), t')"
  shows "storage1_store F a d s = store_steps a d e_start e_num (s\<lparr>last_stored_element_addresses := t'\<rparr>)
    (map (fbyte (flash s)) [a div 1024 * 1024..<a])"
proof -
  let ?b = "a div 1024 * 1024"
  have l0: "length d \<noteq> 0" using assms(1) by simp
  with assms(2) have ls: "length d \<noteq> 0" "a < 71680" by linarith+
  have b: "?b \<le> a" "a - ?b < 1024" "a div 1024 * FLASH_PAGE_SIZE_WORDS * 4 = ?b" "storage1_get_page_address a = a div 1024"
    using ls(2) by (simp_all add: page_address storage1_sizes(4) mult.assoc)
  have sub: "u32_sub a ?b = a - ?b" using b(1) ls(2) by (intro u32_sub_id) simp_all
  have rd: "(if a - ?b > 0 then storage1_read_uint32_as_uint8 F ?b (a - ?b) (flash s) else Inr []) = Inr (map (fbyte (flash s)) [?b..<a])"
    using read_bytes_ok[of ?b "a - ?b" "flash s"] b(1) ls(2) by (simp add: storage1_sizes)
  have c: "(u32_add a (length d) > storage1_get_size) = False" "(a - ?b > FLASH_PAGE_SIZE_WORDS * 4) = False" "(length d = 0) = False"
    using assms(2) b(2) ls(1) by (simp_all add: storage1_sizes)
  show ?thesis
    unfolding storage1_store_def Let_def b(3) b(4) sub rd sum.case assms(3) prod.case store_steps_def c if_False by (rule refl)
qed

text \<open>A successful store: the data are in place, the bytes in front are kept, the rest of the pages is blank.\<close>

lemma store_steps_done:
  assumes ok: "store_steps a d e_start e_num s (map (fbyte (flash s)) [a div 1024 * 1024..<a]) = (Inr (), s')"
    and d: "d \<noteq> []" "a + length d \<le> 71680"
    and er: "(e_start, e_num) = (a div 1024, (a + length d - 1) div 1024 + 1 - a div 1024)
      \<or> (e_start, e_num) = (a div 1024 + 1, (a + length d - 1) div 1024 - a div 1024)
        \<and> (\<forall>x. x div 1024 = a div 1024 \<and> a \<le> x \<longrightarrow> fbyte (flash s) x = 0xFF)"
  shows "fbyte (flash s') x =
    (if a div 1024 \<le> x div 1024 \<and> x div 1024 \<le> (a + length d - 1) div 1024
     then if x < a then fbyte (flash s) x else if x < a + length d then d ! (x - a) else 0xFF
     else fbyte (flash s) x)"
    and "last_stored_element_addresses s' = last_stored_element_addresses s"
proof -
  let ?b = "a div 1024 * 1024" and ?lp = "(a + length d - 1) div 1024" and ?sp = "a div 1024"
  have n0: "0 < length d" using d(1) by simp
  have sl: "?sp \<le> ?lp" using n0 by (intro div_le_mono) linarith
  from ok[unfolded store_steps_def] obtain s1 s2 where
    1: "(if e_num > 0 then on_flash (flash_erase F e_start e_num) s else (Inr (), s)) = (Inr (), s1)"
    and 2: "(if a - ?b > 0 \<and> e_start = ?sp then on_flash (storage1_store_uint8_as_uint32 F ?b (map (fbyte (flash s)) [?b..<a])) s1
        else (Inr (), s1)) = (Inr (), s2)"
    and 3: "on_flash (storage1_store_uint8_as_uint32 F a d) s2 = (Inr (), s')"
    by (auto elim!: attempt_success)
  show "last_stored_element_addresses s' = last_stored_element_addresses s"
    using 1 2 3 by (auto simp: on_flash_eq split: if_splits)
  have b: "?b \<le> a" by simp
  have e1: "fbyte (flash s1) y = (if e_start \<le> y div 1024 \<and> y div 1024 < e_start + e_num then 0xFF else fbyte (flash s) y)" for y
    using 1 flash_erase_bytes by (cases "e_num > 0") (auto simp: on_flash_eq)
  have e2: "fbyte (flash s2) y = (if a - ?b > 0 \<and> e_start = ?sp \<and> ?b \<le> y \<and> y < a
      then fbyte (flash s1) y AND fbyte (flash s) y else fbyte (flash s1) y)" for y
  proof (cases "a - ?b > 0 \<and> e_start = ?sp")
    case True
    with 2 obtain fl where st: "storage1_store_uint8_as_uint32 F ?b (map (fbyte (flash s)) [?b..<a]) (flash s1) = (Inr (), fl)"
      "s2 = s1\<lparr>flash := fl\<rparr>" by (auto simp: on_flash_eq)
    have "and_effect (flash s1) fl ?b (map (fbyte (flash s)) [?b..<a])"
      by (rule store_bytes_done[OF st(1)]) (use b d(2) in \<open>simp add: storage1_sizes\<close>)
    with True st(2) b show ?thesis by (auto simp: and_effect_def)
  qed (use 2 in auto)
  obtain fl where st: "storage1_store_uint8_as_uint32 F a d (flash s2) = (Inr (), fl)" "s' = s2\<lparr>flash := fl\<rparr>"
    using 3 by (auto simp: on_flash_eq)
  have "and_effect (flash s2) fl a d" by (rule store_bytes_done[OF st(1)]) (use d(2) in \<open>simp add: storage1_sizes\<close>)
  then have e3: "fbyte (flash s') x = (if a \<le> x \<and> x < a + length d then fbyte (flash s2) x AND d ! (x - a) else fbyte (flash s2) x)"
    by (simp add: and_effect_def st(2))
  have pg: "x div 1024 = ?sp \<Longrightarrow> ?b \<le> x" "x < a \<Longrightarrow> x div 1024 \<le> ?sp"
    by (metis div_times_less_eq_dividend) (simp add: div_le_mono)
  have pl: "x < a + length d \<Longrightarrow> a \<le> x \<Longrightarrow> ?sp \<le> x div 1024 \<and> x div 1024 \<le> ?lp"
    by (auto intro!: div_le_mono)
  have pre: "fbyte (flash s2) x = (if ?sp \<le> x div 1024 \<and> x div 1024 \<le> ?lp
     then if x < a then fbyte (flash s) x else 0xFF else fbyte (flash s) x)"
    using er
  proof (elim disjE conjE)
    assume A: "(e_start, e_num) = (?sp, ?lp + 1 - ?sp)"
    then have en: "e_start = ?sp" "?sp + e_num = ?lp + 1" using sl by auto
    have inb: "x div 1024 = ?sp" if "?b \<le> x" "x < a"
      using that pg(2) by (meson le_antisym less_eq_div_iff_mult_less_eq zero_less_numeral)
    show ?thesis
    proof (cases "x < a")
      case True
      show ?thesis
      proof (cases "?sp \<le> x div 1024")
        case sp: True
        with pg(2)[OF True] have "x div 1024 = ?sp" by simp
        moreover from this have "?b \<le> x" by (rule pg(1))
        ultimately show ?thesis unfolding e2 e1 en using True sl by simp
      next
        case sp: False
        then have "\<not> ?b \<le> x" using inb True by auto
        with sp show ?thesis unfolding e2 e1 en(1) by simp
      qed
    next
      case False
      then show ?thesis unfolding e2 e1 en by (auto simp: less_Suc_eq_le)
    qed
  next
    assume B: "(e_start, e_num) = (?sp + 1, ?lp - ?sp)" and blank: "\<forall>x. x div 1024 = ?sp \<and> a \<le> x \<longrightarrow> fbyte (flash s) x = 0xFF"
    then have en: "e_start = ?sp + 1" "?sp + 1 + e_num = ?lp + 1" using sl by auto
    have "?sp + 1 \<le> x div 1024 \<Longrightarrow> \<not> x < a" using pg(2) by linarith
    with blank show ?thesis unfolding e2 e1 en by (auto simp: not_less)
  qed
  show "fbyte (flash s') x =
    (if ?sp \<le> x div 1024 \<and> x div 1024 \<le> ?lp
     then if x < a then fbyte (flash s) x else if x < a + length d then d ! (x - a) else 0xFF
     else fbyte (flash s) x)"
    unfolding e3 pre using pl by auto
qed

lemma table_blank:
  assumes "table_ok s" and "l \<in> set (last_stored_element_addresses s)" and "l \<noteq> - 1" and "entry_page l = a div 1024" and "l < int a"
    and "x div 1024 = a div 1024" and "a \<le> x"
  shows "fbyte (flash s) x = 0xFF"
proof -
  from assms(1-3) have l: "0 \<le> l" "l < 71680"
    "\<forall>x. l < int x \<and> x div 1024 = nat l div 1024 \<longrightarrow> fbyte (flash s) x = 0xFF" by (auto simp: table_ok_def)
  then have "entry_page l = nat l div 1024" by (simp add: entry_page_def page_address)
  with l(3) assms(4-7) show ?thesis by simp
qed

lemma storage1_store_done:
  assumes ok: "storage1_store F a d s = (Inr (), s')" and t: "table_ok s" and d: "d \<noteq> []" "a + length d \<le> 71680"
  shows "s1byte s' x =
    (if a div 1024 \<le> x div 1024 \<and> x div 1024 \<le> (a + length d - 1) div 1024
     then if x < a then s1byte s x else if x < a + length d then d ! (x - a) else 0xFF
     else s1byte s x)"
    and "table_ok s'"
proof -
  let ?sp = "a div 1024" and ?lp = "(a + length d - 1) div 1024"
  have n0: "0 < length d" using d(1) by simp
  have sl: "?sp \<le> ?lp" using n0 by (intro div_le_mono) linarith
  obtain r t' where pe: "storage1_compute_pages_to_erase a (length d) (last_stored_element_addresses s) = (r, t')" by fastforce
  note pp = pages_to_erase[OF n0 d(2) pe]
  obtain e_start e_num where r: "r = Inr (e_start, e_num)" using pp(1) by auto
  let ?s = "s\<lparr>last_stored_element_addresses := t'\<rparr>"
  have er: "(e_start, e_num) = (?sp, ?lp + 1 - ?sp) \<or> (e_start, e_num) = (?sp + 1, ?lp - ?sp)
        \<and> (\<forall>x. x div 1024 = ?sp \<and> a \<le> x \<longrightarrow> fbyte (flash ?s) x = 0xFF)"
    using pp(1) r table_blank[OF t] by auto
  have st: "store_steps a d e_start e_num ?s (map (fbyte (flash ?s)) [?sp * 1024..<a]) = (Inr (), s')"
    using ok storage1_store_steps[OF d pe[unfolded r]] by simp
  note fin = store_steps_done[OF st d er]
  show eff: "s1byte s' x =
    (if ?sp \<le> x div 1024 \<and> x div 1024 \<le> ?lp
     then if x < a then s1byte s x else if x < a + length d then d ! (x - a) else 0xFF
     else s1byte s x)" for x
    using fin(1)[of x] by (simp add: s1byte_def)
  show "table_ok s'" unfolding table_ok_def
  proof (intro ballI impI)
    fix l assume l: "l \<in> set (last_stored_element_addresses s')" "l \<noteq> - 1"
    then have "l \<in> set t'" using fin(2) by simp
    with pp(2) l(2) consider "l = int (a + length d - 1)" | "l \<in> set (last_stored_element_addresses s)" "\<not> (?sp \<le> entry_page l \<and> entry_page l \<le> ?lp)"
      using sl by fastforce
    then show "0 \<le> l \<and> l < 71680 \<and> (\<forall>x. l < int x \<and> x div 1024 = nat l div 1024 \<longrightarrow> fbyte (flash s') x = 0xFF)"
    proof cases
      case 1
      have "fbyte (flash s') x = 0xFF" if "l < int x" "x div 1024 = nat l div 1024" for x
      proof -
        have "a + length d \<le> x" "x div 1024 = ?lp" using that 1 n0 by auto
        with eff[of x] sl show ?thesis by (simp add: s1byte_def)
      qed
      moreover have "a + length d - 1 < 71680" using n0 d(2) by linarith
      then have "0 \<le> l \<and> l < 71680" unfolding 1 by linarith
      ultimately show ?thesis by blast
    next
      case 2
      with t l(2) have tl: "0 \<le> l" "l < 71680" "\<forall>x. l < int x \<and> x div 1024 = nat l div 1024 \<longrightarrow> fbyte (flash s) x = 0xFF"
        by (auto simp: table_ok_def)
      then have "entry_page l = nat l div 1024" by (simp add: entry_page_def page_address)
      with 2(2) have "fbyte (flash s') x = fbyte (flash s) x" if "x div 1024 = nat l div 1024" for x
        using eff[of x] that by (auto simp: s1byte_def)
      with tl show ?thesis by auto
    qed
  qed
qed

text \<open>Whatever the outcome, a store touches no byte outside its pages.\<close>

definition pages_only :: "nat \<Rightarrow> nat \<Rightarrow> 'd storage1 \<Rightarrow> 'd storage1 \<Rightarrow> bool" where
  "pages_only sp lp s s' \<longleftrightarrow> (\<forall>x. x div 1024 < sp \<or> lp < x div 1024 \<longrightarrow> s1byte s' x = s1byte s x)"

lemma pages_only_refl [simp]: "pages_only sp lp s s"
  by (simp add: pages_only_def)

lemma pages_only_trans: "pages_only sp lp s s1 \<Longrightarrow> pages_only sp lp s1 s2 \<Longrightarrow> pages_only sp lp s s2"
  by (simp add: pages_only_def)

lemma pages_only_attempt:
  assumes "pages_only sp lp s (snd r)" and "\<And>x s1. r = (Inr x, s1) \<Longrightarrow> pages_only sp lp s1 (snd (k x s1))"
  shows "pages_only sp lp s (snd (attempt f r k))"
  using assms by (cases r; cases "fst r") (auto intro: pages_only_trans)

lemma pages_only_erase:
  assumes "sp \<le> p" and "p + n \<le> lp + 1"
  shows "pages_only sp lp s (snd (on_flash (flash_erase F p n) s))"
proof -
  obtain r fl where e: "flash_erase F p n (flash s) = (r, fl)" by fastforce
  have "fbyte fl x = fbyte (flash s) x" if "x div 1024 < sp \<or> lp < x div 1024" for x
    by (rule flash_erase_bytes_frame[OF e]) (use that assms in linarith)
  then show ?thesis by (simp add: on_flash_def e pages_only_def s1byte_def)
qed

lemma pages_only_store:
  assumes "d \<noteq> []" and "a + length d \<le> 71680" and "sp \<le> a div 1024" and "(a + length d - 1) div 1024 \<le> lp"
  shows "pages_only sp lp s (snd (on_flash (storage1_store_uint8_as_uint32 F a d) s))"
proof -
  obtain r fl where e: "storage1_store_uint8_as_uint32 F a d (flash s) = (r, fl)" by fastforce
  have "fbyte fl x = fbyte (flash s) x" if "x div 1024 < sp \<or> lp < x div 1024" for x
    by (rule store_bytes_page_frame[OF e assms(2,1)]) (use that assms(3,4) in linarith)
  then show ?thesis by (simp add: on_flash_def e pages_only_def s1byte_def)
qed

lemma storage1_store_frame:
  assumes d: "d \<noteq> []" "a + length d \<le> 71680"
  shows "pages_only (a div 1024) ((a + length d - 1) div 1024) s (snd (storage1_store F a d s))"
proof -
  let ?sp = "a div 1024"
  define lp where "lp = (a + length d - 1) div 1024"
  have n0: "0 < length d" using d(1) by simp
  have sl: "?sp \<le> lp" unfolding lp_def using n0 by (intro div_le_mono) linarith
  obtain r t' where pe: "storage1_compute_pages_to_erase a (length d) (last_stored_element_addresses s) = (r, t')" by fastforce
  note pp = pages_to_erase[OF n0 d(2) pe]
  obtain e_start e_num where r: "r = Inr (e_start, e_num)" using pp(1) by auto
  have er: "?sp \<le> e_start" "e_start + e_num \<le> lp + 1" using pp(1) r sl by (auto simp: lp_def)
  let ?s = "s\<lparr>last_stored_element_addresses := t'\<rparr>" and ?bk = "map (fbyte (flash s)) [?sp * 1024..<a]"
  have bk: "pages_only ?sp lp s1 (snd (on_flash (storage1_store_uint8_as_uint32 F (?sp * 1024) ?bk) s1))"
    if "a - ?sp * 1024 > 0" for s1
  proof (rule pages_only_store)
    show "?bk \<noteq> []" using that by simp
    show "?sp * 1024 + length ?bk \<le> 71680" using d(2) by simp
    show "?sp \<le> ?sp * 1024 div 1024" by simp
    have "?sp * 1024 + length ?bk - 1 \<le> a + length d - 1" using n0 by simp
    then show "(?sp * 1024 + length ?bk - 1) div 1024 \<le> lp" unfolding lp_def by (rule div_le_mono)
  qed
  have "pages_only ?sp lp ?s (snd (store_steps a d e_start e_num ?s ?bk))"
    unfolding store_steps_def
    by (intro pages_only_attempt) (auto intro: pages_only_erase[OF er] bk pages_only_store[OF d _ eq_refl[OF lp_def[symmetric]]])
  moreover have "pages_only ?sp lp s ?s" by (simp add: pages_only_def s1byte_def)
  ultimately show ?thesis unfolding lp_def[symmetric] using storage1_store_steps[OF d pe[unfolded r]] by (auto intro: pages_only_trans)
qed

end

end
