(* ===== verification/Eeprom_Driver.thy ===== *)
theory Eeprom_Driver
  imports OB_Prelude
begin

text \<open>
  The driver of the external EEPROM, \<^verbatim>\<open>incl/eeprom_lib.c\<close>, with the blocking transfers of
  \<^verbatim>\<open>incl/spi_lib.c\<close> it uses.  Nordic's SPI peripheral driver and the EEPROM chip behind it are the
  parameter of the model: a transfer of bytes, up to its completion event.
\<close>

section \<open>The SPI bus and the chip\<close>

text \<open>
  \<open>bus_transfer tx rx_len\<close> is \<open>nrf_drv_spi_transfer\<close>: a return code, and for an accepted transfer
  the received bytes and the state when the event \<open>NRF_DRV_SPI_EVENT_DONE\<close> arrives, which the
  driver documentation promises for every accepted transfer.
\<close>

record 'e spi_bus =
  bus_init :: "'e \<Rightarrow> ret_code \<times> 'e"
  bus_transfer :: "byte list \<Rightarrow> nat \<Rightarrow> 'e \<Rightarrow> ret_code \<times> byte list \<times> 'e"

datatype spi_operation = SPI_NO_OPERATION | SPI_TRANSMIT_OPERATION | SPI_TRANSMIT_RECEIVE_OPERATION

datatype eeprom_operation = EEPROM_NO_OPERATION | EEPROM_STORE_OPERATION | EEPROM_READ_OPERATION

record 'e eeprom =
  spi_operation :: spi_operation
  ss_pin_active :: bool
  eeprom_operation :: eeprom_operation
  bus :: 'e

section \<open>Blocking SPI transfers\<close>

text \<open>The event handler of the peripheral releases the slave-select pin and ends the operation.\<close>

definition spi_event_done :: "'e eeprom \<Rightarrow> 'e eeprom" where
  "spi_event_done e = e\<lparr>ss_pin_active := False, spi_operation := SPI_NO_OPERATION\<rparr>"

definition spi_init :: "'e spi_bus \<Rightarrow> 'e eeprom \<Rightarrow> (unit, 'e eeprom) outcome" where
  "spi_init B e = (case bus_init B (bus e) of (ret, d) \<Rightarrow>
     if ret = NRF_ERROR_INVALID_PARAM then (Inl ret, e\<lparr>bus := d\<rparr>)
     else (Inr (), e\<lparr>ss_pin_active := False, bus := d\<rparr>))"

definition spi_transmit :: "'e spi_bus \<Rightarrow> byte list \<Rightarrow> 'e eeprom \<Rightarrow> (unit, 'e eeprom) outcome" where
  "spi_transmit B tx_data e =
     (if spi_operation e \<noteq> SPI_NO_OPERATION then (Inl NRF_ERROR_BUSY, e)
      else let e = e\<lparr>spi_operation := SPI_TRANSMIT_OPERATION, ss_pin_active := True\<rparr>
           in case bus_transfer B tx_data 0 (bus e) of (ret, rx, d) \<Rightarrow>
                if ret \<noteq> NRF_SUCCESS
                then (Inl ret, e\<lparr>ss_pin_active := False, spi_operation := SPI_NO_OPERATION, bus := d\<rparr>)
                else (Inr (), spi_event_done (e\<lparr>bus := d\<rparr>)))"

definition spi_transmit_receive :: "'e spi_bus \<Rightarrow> byte list \<Rightarrow> nat \<Rightarrow> 'e eeprom \<Rightarrow> (byte list, 'e eeprom) outcome" where
  "spi_transmit_receive B tx_data rx_data_len e =
     (if spi_operation e \<noteq> SPI_NO_OPERATION then (Inl NRF_ERROR_BUSY, e)
      else let e = e\<lparr>spi_operation := SPI_TRANSMIT_RECEIVE_OPERATION, ss_pin_active := True\<rparr>
           in case bus_transfer B tx_data rx_data_len (bus e) of (ret, rx, d) \<Rightarrow>
                if ret \<noteq> NRF_SUCCESS
                then (Inl ret, e\<lparr>ss_pin_active := False, spi_operation := SPI_NO_OPERATION, bus := d\<rparr>)
                else (Inr rx, spi_event_done (e\<lparr>bus := d\<rparr>)))"

section \<open>Commands and status\<close>

definition CMD_WREN :: byte where "CMD_WREN = 6"
definition CMD_RDSR :: byte where "CMD_RDSR = 5"
definition CMD_WRSR :: byte where "CMD_WRSR = 1"
definition CMD_WRITE :: byte where "CMD_WRITE = 2"
definition CMD_READ :: byte where "CMD_READ = 3"

definition EEPROM_SIZE :: nat where "EEPROM_SIZE = 1024 * 256"
definition EEPROM_PAGE_SIZE :: nat where "EEPROM_PAGE_SIZE = 128"

text \<open>The status byte is 0x01, busy, when the transfer is refused.\<close>

definition eeprom_read_status :: "'e spi_bus \<Rightarrow> 'e eeprom \<Rightarrow> (ret_code \<times> byte) \<times> 'e eeprom" where
  "eeprom_read_status B e = (case spi_transmit_receive B [CMD_RDSR] 2 e of
       (Inl _, e) \<Rightarrow> ((NRF_ERROR_BUSY, 1), e)
     | (Inr rx, e) \<Rightarrow> ((NRF_SUCCESS, rx ! 1), e))"

definition eeprom_is_busy :: "'e spi_bus \<Rightarrow> 'e eeprom \<Rightarrow> bool \<times> 'e eeprom" where
  "eeprom_is_busy B e = (case eeprom_read_status B e of ((ret, status), e) \<Rightarrow> (ret \<noteq> NRF_SUCCESS \<or> bit status 0, e))"

definition eeprom_get_operation :: "'e spi_bus \<Rightarrow> 'e eeprom \<Rightarrow> eeprom_operation \<times> 'e eeprom" where
  "eeprom_get_operation B e = (case eeprom_is_busy B e of (busy, e) \<Rightarrow>
     let opn = (if busy then if eeprom_operation e = EEPROM_NO_OPERATION then EEPROM_STORE_OPERATION else eeprom_operation e
                else EEPROM_NO_OPERATION)
     in (opn, e\<lparr>eeprom_operation := opn\<rparr>))"

text \<open>
  The wait loops poll until the chip is idle or 500 ms have passed; \<open>polls\<close> is the number of
  polls that fit into that time.  After the loop the operation is read once more.
\<close>

fun eeprom_poll :: "'e spi_bus \<Rightarrow> nat \<Rightarrow> 'e eeprom \<Rightarrow> 'e eeprom" where
  "eeprom_poll B 0 e = snd (eeprom_get_operation B e)"
| "eeprom_poll B (Suc n) e =
     (case eeprom_get_operation B e of (opn, e) \<Rightarrow> if opn = EEPROM_NO_OPERATION then e else eeprom_poll B n e)"

definition eeprom_wait :: "'e spi_bus \<Rightarrow> nat \<Rightarrow> 'e eeprom \<Rightarrow> (unit, 'e eeprom) outcome" where
  "eeprom_wait B polls e =
     (case eeprom_get_operation B (eeprom_poll B polls e) of (opn, e) \<Rightarrow>
        if opn \<noteq> EEPROM_NO_OPERATION then (Inl NRF_ERROR_TIMEOUT, e\<lparr>eeprom_operation := EEPROM_NO_OPERATION\<rparr>)
        else (Inr (), e))"

definition eeprom_write_enable :: "'e spi_bus \<Rightarrow> nat \<Rightarrow> 'e eeprom \<Rightarrow> (unit, 'e eeprom) outcome" where
  "eeprom_write_enable B polls e =
     attempt (\<lambda>_. NRF_ERROR_BUSY) (spi_transmit B [CMD_WREN] e) (\<lambda>_ e. eeprom_wait B polls e)"

definition eeprom_global_unprotect :: "'e spi_bus \<Rightarrow> nat \<Rightarrow> 'e eeprom \<Rightarrow> (unit, 'e eeprom) outcome" where
  "eeprom_global_unprotect B polls e =
     attempt id (eeprom_write_enable B polls e) (\<lambda>_ e.
     case spi_transmit B [CMD_WRSR, 0] e of (ret, e) \<Rightarrow>
       attempt id (eeprom_wait B polls e) (\<lambda>_ e.
       (case ret of Inl _ \<Rightarrow> Inl NRF_ERROR_BUSY | Inr _ \<Rightarrow> Inr (), e)))"

definition eeprom_init :: "'e spi_bus \<Rightarrow> nat \<Rightarrow> 'e eeprom \<Rightarrow> (unit, 'e eeprom) outcome" where
  "eeprom_init B polls e =
     attempt (\<lambda>_. NRF_ERROR_INTERNAL) (spi_init B e) (\<lambda>_ e. eeprom_global_unprotect B polls e)"

section \<open>Storing and reading\<close>

definition tx_header :: "byte \<Rightarrow> nat \<Rightarrow> byte list" where
  "tx_header cmd a = [cmd, word_of_nat (drop_bit 16 a), word_of_nat (drop_bit 8 a), word_of_nat a]"

definition step_len :: "nat \<Rightarrow> nat \<Rightarrow> nat" where
  "step_len a len = (let n = (a div EEPROM_PAGE_SIZE + 1) * EEPROM_PAGE_SIZE - a in if len > n then n else len)"

definition spi_error :: "ret_code \<Rightarrow> ret_code" where
  "spi_error ret = (if ret = NRF_ERROR_INVALID_ADDR then NRF_ERROR_INVALID_PARAM else ret)"

text \<open>Every error leaves the loops with the operation reset.\<close>

definition reset_on_error :: "('a, 'e eeprom) outcome \<Rightarrow> ('a, 'e eeprom) outcome" where
  "reset_on_error r = (case r of (Inl x, e) \<Rightarrow> (Inl x, e\<lparr>eeprom_operation := EEPROM_NO_OPERATION\<rparr>) | _ \<Rightarrow> r)"

lemma step_len_pos: "0 < len \<Longrightarrow> 0 < step_len a len"
proof -
  have "a div 128 * 128 + a mod 128 = a" "a mod 128 < 128" by simp_all
  then have "a < (a div 128 + 1) * 128" by (simp add: algebra_simps)
  then show "0 < len \<Longrightarrow> 0 < step_len a len" by (simp add: step_len_def Let_def EEPROM_PAGE_SIZE_def)
qed

function eeprom_store_loop :: "'e spi_bus \<Rightarrow> nat \<Rightarrow> nat \<Rightarrow> byte list \<Rightarrow> 'e eeprom \<Rightarrow> (unit, 'e eeprom) outcome" where
  "eeprom_store_loop B polls a tx_data e =
     (if tx_data = [] then (Inr (), e)
      else
        let n = step_len a (length tx_data)
        in attempt id (reset_on_error (eeprom_write_enable B polls (e\<lparr>eeprom_operation := EEPROM_STORE_OPERATION\<rparr>))) (\<lambda>_ e.
           attempt spi_error (reset_on_error (spi_transmit B (tx_header CMD_WRITE a @ take n tx_data) e)) (\<lambda>_ e.
           attempt id (eeprom_wait B polls e) (\<lambda>_ e.
           eeprom_store_loop B polls (a + n) (drop n tx_data) e))))"
  by pat_completeness auto
termination
  by (relation "measure (\<lambda>(B, polls, a, tx_data, e). length tx_data)") (use step_len_pos in auto)

definition eeprom_store :: "'e spi_bus \<Rightarrow> nat \<Rightarrow> nat \<Rightarrow> byte list \<Rightarrow> 'e eeprom \<Rightarrow> (unit, 'e eeprom) outcome" where
  "eeprom_store B polls address tx_data e =
     (if u32_add address (length tx_data) > EEPROM_SIZE then (Inl NRF_ERROR_INVALID_PARAM, e)
      else case eeprom_get_operation B e of (opn, e) \<Rightarrow>
        if opn \<noteq> EEPROM_NO_OPERATION then (Inl NRF_ERROR_BUSY, e)
        else eeprom_store_loop B polls address tx_data e)"

function eeprom_read_loop :: "'e spi_bus \<Rightarrow> nat \<Rightarrow> nat \<Rightarrow> nat \<Rightarrow> 'e eeprom \<Rightarrow> (byte list, 'e eeprom) outcome" where
  "eeprom_read_loop B polls a len e =
     (if len = 0 then (Inr [], e)
      else
        let n = step_len a len
        in attempt spi_error (reset_on_error (spi_transmit_receive B (tx_header CMD_READ a) (4 + n)
               (e\<lparr>eeprom_operation := EEPROM_READ_OPERATION\<rparr>))) (\<lambda>rx e.
           attempt id (eeprom_wait B polls e) (\<lambda>_ e.
           attempt id (eeprom_read_loop B polls (a + n) (len - n) e) (\<lambda>bs e.
           (Inr (take n (drop 4 rx) @ bs), e)))))"
  by pat_completeness auto
termination
  by (relation "measure (\<lambda>(B, polls, a, len, e). len)") (use step_len_pos in auto)

definition eeprom_read :: "'e spi_bus \<Rightarrow> nat \<Rightarrow> nat \<Rightarrow> nat \<Rightarrow> 'e eeprom \<Rightarrow> (byte list, 'e eeprom) outcome" where
  "eeprom_read B polls address len e =
     (if u32_add address len > EEPROM_SIZE then (Inl NRF_ERROR_INVALID_PARAM, e)
      else case eeprom_get_operation B e of (opn, e) \<Rightarrow>
        if opn \<noteq> EEPROM_NO_OPERATION then (Inl NRF_ERROR_BUSY, e)
        else eeprom_read_loop B polls address len e)"

section \<open>What the driver relies on\<close>

text \<open>
  The documented behaviour of the chip: only a write command changes the memory, and only inside
  the range it names; a write command to an idle, write-enabled chip that stays inside one page
  stores its bytes; a read command to an idle chip returns the bytes; the chip is idle when the
  status register says so, and a write-enable to an idle chip is remembered until the next write.
\<close>

locale eeprom_chip =
  fixes B :: "'e spi_bus"
    and mem :: "'e \<Rightarrow> nat \<Rightarrow> byte"
    and idle :: "'e \<Rightarrow> bool"
    and wel :: "'e \<Rightarrow> bool"
  assumes init_mem: "bus_init B d = (st, d') \<Longrightarrow> mem d' = mem d"
    and other_mem: "bus_transfer B tx n d = (st, rx, d') \<Longrightarrow> hd tx \<noteq> CMD_WRITE \<Longrightarrow> mem d' = mem d"
    and status: "bus_transfer B [CMD_RDSR] 2 d = (NRF_SUCCESS, rx, d') \<Longrightarrow> \<not> bit (rx ! 1) 0 \<Longrightarrow> idle d'"
    and status_wel: "bus_transfer B [CMD_RDSR] 2 d = (st, rx, d') \<Longrightarrow> wel d \<Longrightarrow> wel d'"
    and wren: "idle d \<Longrightarrow> bus_transfer B [CMD_WREN] 0 d = (NRF_SUCCESS, rx, d') \<Longrightarrow> wel d'"
    and write_frame: "bus_transfer B (tx_header CMD_WRITE a @ bs) 0 d = (st, rx, d') \<Longrightarrow> a + length bs \<le> EEPROM_SIZE \<Longrightarrow>
      x < a \<or> a + length bs \<le> x \<Longrightarrow> length bs \<le> step_len a (length bs) \<Longrightarrow> mem d' x = mem d x"
    and write_done: "idle d \<Longrightarrow> wel d \<Longrightarrow> bus_transfer B (tx_header CMD_WRITE a @ bs) 0 d = (NRF_SUCCESS, rx, d') \<Longrightarrow>
      a + length bs \<le> EEPROM_SIZE \<Longrightarrow> length bs \<le> step_len a (length bs) \<Longrightarrow> i < length bs \<Longrightarrow> mem d' (a + i) = bs ! i"
    and read_done: "idle d \<Longrightarrow> bus_transfer B (tx_header CMD_READ a) (4 + n) d = (NRF_SUCCESS, rx, d') \<Longrightarrow>
      a + n \<le> EEPROM_SIZE \<Longrightarrow> length rx = 4 + n \<and> (\<forall>i < n. rx ! (4 + i) = mem d (a + i))"
begin

definition ebyte :: "'e eeprom \<Rightarrow> nat \<Rightarrow> byte" where
  "ebyte e = mem (bus e)"

lemma cmd_distinct [simp]: "CMD_WREN \<noteq> CMD_WRITE" "CMD_RDSR \<noteq> CMD_WRITE" "CMD_WRSR \<noteq> CMD_WRITE" "CMD_READ \<noteq> CMD_WRITE"
  by (simp_all add: CMD_WREN_def CMD_RDSR_def CMD_WRSR_def CMD_READ_def CMD_WRITE_def)

text \<open>Calls that leave the memory as it is.\<close>

lemma transmit_mem: "hd tx \<noteq> CMD_WRITE \<Longrightarrow> ebyte (snd (spi_transmit B tx e)) = ebyte e"
  by (auto simp: spi_transmit_def Let_def ebyte_def spi_event_done_def split: prod.splits dest: other_mem)

lemma transmit_receive_mem: "hd tx \<noteq> CMD_WRITE \<Longrightarrow> ebyte (snd (spi_transmit_receive B tx n e)) = ebyte e"
  by (auto simp: spi_transmit_receive_def Let_def ebyte_def spi_event_done_def split: prod.splits dest: other_mem)

lemma get_operation_mem: "ebyte (snd (eeprom_get_operation B e)) = ebyte e"
  using transmit_receive_mem[of "[CMD_RDSR]" 2 e]
  by (auto simp: eeprom_get_operation_def eeprom_is_busy_def eeprom_read_status_def Let_def ebyte_def split: prod.splits sum.splits)

lemma poll_mem: "ebyte (eeprom_poll B n e) = ebyte e"
proof (induction n arbitrary: e)
  case (Suc n)
  then show ?case using get_operation_mem[of e] by (auto split: prod.splits)
qed (simp add: get_operation_mem)

lemma wait_mem: "ebyte (snd (eeprom_wait B n e)) = ebyte e"
  using get_operation_mem[of "eeprom_poll B n e"] poll_mem[of n e]
  by (auto simp: eeprom_wait_def ebyte_def split: prod.splits)

text \<open>A poll that reports no operation leaves the chip idle; polling keeps a write-enable.\<close>

lemma get_operation_idle: "eeprom_get_operation B e = (EEPROM_NO_OPERATION, e') \<Longrightarrow> idle (bus e')"
  by (auto simp: eeprom_get_operation_def eeprom_is_busy_def eeprom_read_status_def spi_transmit_receive_def
      Let_def spi_event_done_def split: prod.splits sum.splits if_splits dest: status)

lemma get_operation_wel: "wel (bus e) \<Longrightarrow> wel (bus (snd (eeprom_get_operation B e)))"
  by (auto simp: eeprom_get_operation_def eeprom_is_busy_def eeprom_read_status_def spi_transmit_receive_def
      Let_def spi_event_done_def split: prod.splits sum.splits if_splits dest: status_wel)

lemma poll_wel: "wel (bus e) \<Longrightarrow> wel (bus (eeprom_poll B n e))"
proof (induction n arbitrary: e)
  case (Suc n)
  then show ?case using get_operation_wel[of e] by (auto split: prod.splits)
qed (simp add: get_operation_wel)

lemma wait_idle: "eeprom_wait B n e = (Inr (), e') \<Longrightarrow> idle (bus e')"
  by (auto simp: eeprom_wait_def split: prod.splits if_splits dest: get_operation_idle)

lemma wait_wel: "eeprom_wait B n e = (Inr (), e') \<Longrightarrow> wel (bus e) \<Longrightarrow> wel (bus e')"
  using get_operation_wel[of "eeprom_poll B n e"] poll_wel[of e n]
  by (auto simp: eeprom_wait_def split: prod.splits if_splits)

lemma write_enable_mem: "ebyte (snd (eeprom_write_enable B n e)) = ebyte e"
proof -
  obtain r e1 where "spi_transmit B [CMD_WREN] e = (r, e1)" by fastforce
  with transmit_mem[of "[CMD_WREN]" e] wait_mem[of n e1] show ?thesis
    by (cases r) (simp_all add: eeprom_write_enable_def)
qed

lemma write_enable_done:
  assumes "eeprom_write_enable B n e = (Inr (), e')" and "idle (bus e)"
  shows "idle (bus e')" "wel (bus e')"
proof -
  from assms(1) obtain e1 where 1: "spi_transmit B [CMD_WREN] e = (Inr (), e1)" and 2: "eeprom_wait B n e1 = (Inr (), e')"
    unfolding eeprom_write_enable_def by (auto elim!: attempt_success)
  have "wel (bus e1)" using 1 assms(2) by (auto simp: spi_transmit_def Let_def spi_event_done_def split: prod.splits if_splits dest: wren)
  with 2 show "idle (bus e')" "wel (bus e')" by (auto dest: wait_idle wait_wel)
qed

lemma step_len_le: "step_len a len \<le> len"
  by (simp add: step_len_def Let_def)

lemma step_len_idem: "step_len a (step_len a len) = step_len a len"
  by (simp add: step_len_def Let_def)

lemma reset_bus: "bus (snd (reset_on_error r)) = bus (snd r)"
  by (auto simp: reset_on_error_def split: prod.splits sum.splits)

lemma reset_success: "reset_on_error r = (Inr x, e) \<longleftrightarrow> r = (Inr x, e)"
  by (auto simp: reset_on_error_def split: prod.splits sum.splits)

text \<open>A whole store: outside its range nothing changes, and on success the data are there.\<close>

lemma write_page_frame:
  assumes "n = step_len a (length d)" and "a + length d \<le> EEPROM_SIZE" and "x < a \<or> a + length d \<le> x"
  shows "ebyte (snd (spi_transmit B (tx_header CMD_WRITE a @ take n d) e)) x = ebyte e x"
proof -
  have l: "length (take n d) = n" using assms(1) step_len_le[of a "length d"] by simp
  have f: "mem d' x = mem e' x" if "bus_transfer B (tx_header CMD_WRITE a @ take n d) 0 e' = (st, rx, d')" for st rx d' e'
    by (rule write_frame[OF that])
      (use assms step_len_le[of a "length d"] step_len_idem[of a "length d"] l in auto)
  then show ?thesis
    by (auto simp: spi_transmit_def Let_def ebyte_def spi_event_done_def split: prod.splits)
qed

lemma store_loop_frame:
  assumes "a + length d \<le> EEPROM_SIZE" and "x < a \<or> a + length d \<le> x"
  shows "ebyte (snd (eeprom_store_loop B polls a d e)) x = ebyte e x"
  using assms
proof (induction "length d" arbitrary: a d e rule: less_induct)
  case less
  show ?case
  proof (cases "d = []")
    case False
    define n where "n = step_len a (length d)"
    have n: "0 < n" "n \<le> length d" using False step_len_pos[of "length d" a] step_len_le[of a "length d"] by (simp_all add: n_def)
    let ?e0 = "e\<lparr>eeprom_operation := EEPROM_STORE_OPERATION\<rparr>"
    obtain r1 e1 where 1: "reset_on_error (eeprom_write_enable B polls ?e0) = (r1, e1)" by fastforce
    obtain r2 e2 where 2: "reset_on_error (spi_transmit B (tx_header CMD_WRITE a @ take n d) e1) = (r2, e2)" by fastforce
    obtain r3 e3 where 3: "eeprom_wait B polls e2 = (r3, e3)" by fastforce
    have b1: "ebyte e1 = ebyte e" using reset_bus[of "eeprom_write_enable B polls ?e0"] write_enable_mem[of polls ?e0] 1
      by (simp add: ebyte_def)
    have b2: "ebyte e2 x = ebyte e1 x"
      using write_page_frame[OF n_def less.prems(1,2), of e1] reset_bus[of "spi_transmit B (tx_header CMD_WRITE a @ take n d) e1"] 2
      by (simp add: ebyte_def)
    have b3: "ebyte e3 = ebyte e2" using wait_mem[of polls e2] 3 by simp
    have ih: "ebyte (snd (eeprom_store_loop B polls (a + n) (drop n d) e3)) x = ebyte e3 x"
      by (rule less.hyps) (use n less.prems in auto)
    have "eeprom_store_loop B polls a d e = attempt id (r1, e1) (\<lambda>_ e. attempt spi_error
        (reset_on_error (spi_transmit B (tx_header CMD_WRITE a @ take n d) e)) (\<lambda>_ e.
           attempt id (eeprom_wait B polls e) (\<lambda>_ e. eeprom_store_loop B polls (a + n) (drop n d) e)))"
      using False 1 by (subst eeprom_store_loop.simps) (simp add: Let_def n_def[symmetric])
    then show ?thesis using b1 b2 b3 ih 2 3 by (cases r1; cases r2; cases r3) simp_all
  qed simp
qed

lemma store_loop_done:
  assumes "eeprom_store_loop B polls a d e = (Inr (), e')" and "a + length d \<le> EEPROM_SIZE" and "idle (bus e)" and "i < length d"
  shows "ebyte e' (a + i) = d ! i"
  using assms
proof (induction "length d" arbitrary: a d e i rule: less_induct)
  case less
  define n where "n = step_len a (length d)"
  from less.prems(4) have "d \<noteq> []" "0 < length d" by auto
  then have n: "0 < n" "n \<le> length d" using step_len_pos[of "length d" a] step_len_le[of a "length d"] by (simp_all add: n_def)
  let ?e0 = "e\<lparr>eeprom_operation := EEPROM_STORE_OPERATION\<rparr>"
  from less.prems(1) \<open>d \<noteq> []\<close> obtain e1 e2 e3 where
    1: "eeprom_write_enable B polls ?e0 = (Inr (), e1)" and 2: "spi_transmit B (tx_header CMD_WRITE a @ take n d) e1 = (Inr (), e2)"
    and 3: "eeprom_wait B polls e2 = (Inr (), e3)" and 4: "eeprom_store_loop B polls (a + n) (drop n d) e3 = (Inr (), e')"
    by (subst (asm) eeprom_store_loop.simps) (auto simp: Let_def n_def[symmetric] reset_success elim!: attempt_success)
  note w = write_enable_done[OF 1, simplified, OF less.prems(3)]
  have l: "length (take n d) = n" using n(2) by simp
  have b2: "ebyte e2 (a + j) = d ! j" if "j < n" for j
  proof -
    obtain rx d' where t: "bus_transfer B (tx_header CMD_WRITE a @ take n d) 0 (bus e1) = (NRF_SUCCESS, rx, d')" "bus e2 = d'"
      using 2 by (auto simp: spi_transmit_def Let_def spi_event_done_def split: prod.splits if_splits)
    have "mem d' (a + j) = take n d ! j"
      by (rule write_done[OF w t(1)]) (use that n less.prems(2) l step_len_idem[of a "length d"] in \<open>auto simp: n_def\<close>)
    with that t(2) show ?thesis by (simp add: ebyte_def)
  qed
  have b3: "ebyte e3 = ebyte e2" "idle (bus e3)" using wait_mem[of polls e2] 3 wait_idle[OF 3] by simp_all
  show ?case
  proof (cases "i < n")
    case True
    have "ebyte e' (a + i) = ebyte e3 (a + i)"
      using store_loop_frame[of "a + n" "drop n d" "a + i" polls e3] 4 True less.prems(2) n by simp
    with b2[OF True] b3(1) show ?thesis by simp
  next
    case False
    have "ebyte e' (a + n + (i - n)) = drop n d ! (i - n)"
      by (rule less.hyps[OF _ 4]) (use n False less.prems b3 in auto)
    with False less.prems(4) n show ?thesis by simp
  qed
qed

lemma eeprom_store_frame:
  assumes "eeprom_store B polls a d e = (r, e')" and "a + length d \<le> EEPROM_SIZE" and "x < a \<or> a + length d \<le> x"
  shows "ebyte e' x = ebyte e x"
proof -
  obtain opn e1 where g: "eeprom_get_operation B e = (opn, e1)" by fastforce
  have "ebyte e1 = ebyte e" using get_operation_mem[of e] g by simp
  with assms(1) g store_loop_frame[OF assms(2,3), of polls e1] show ?thesis
    by (auto simp: eeprom_store_def split: if_splits)
qed

lemma eeprom_store_done:
  assumes "eeprom_store B polls a d e = (Inr (), e')" and "a + length d \<le> EEPROM_SIZE" and "i < length d"
  shows "ebyte e' (a + i) = d ! i"
proof -
  from assms(1) obtain e1 where "eeprom_get_operation B e = (EEPROM_NO_OPERATION, e1)"
    "eeprom_store_loop B polls a d e1 = (Inr (), e')"
    by (auto simp: eeprom_store_def split: if_splits prod.splits)
  with store_loop_done[OF _ assms(2) _ assms(3)] get_operation_idle show ?thesis by blast
qed

lemma read_loop_result:
  assumes "eeprom_read_loop B polls a len e = (r, e')" and "a + len \<le> EEPROM_SIZE" and "idle (bus e)"
  shows "ebyte e' = ebyte e \<and> (\<forall>bs. r = Inr bs \<longrightarrow> bs = map (ebyte e) [a..<a + len])"
  using assms
proof (induction len arbitrary: a e r e' rule: less_induct)
  case (less len)
  show ?case
  proof (cases "len = 0")
    case True
    with less.prems(1) show ?thesis by (subst (asm) eeprom_read_loop.simps) auto
  next
    case False
    define n where "n = step_len a len"
    have n: "0 < n" "n \<le> len" using False step_len_pos[of len a] step_len_le[of a len] by (simp_all add: n_def)
    let ?e0 = "e\<lparr>eeprom_operation := EEPROM_READ_OPERATION\<rparr>"
    obtain r1 e1 where 1: "reset_on_error (spi_transmit_receive B (tx_header CMD_READ a) (4 + n) ?e0) = (r1, e1)" by fastforce
    obtain r2 e2 where 2: "eeprom_wait B polls e1 = (r2, e2)" by fastforce
    obtain r3 e3 where 3: "eeprom_read_loop B polls (a + n) (len - n) e2 = (r3, e3)" by fastforce
    have b1: "ebyte e1 = ebyte e"
      using transmit_receive_mem[of "tx_header CMD_READ a" "4 + n" ?e0] 1
        reset_bus[of "spi_transmit_receive B (tx_header CMD_READ a) (4 + n) ?e0"] by (simp add: ebyte_def tx_header_def)
    have b2: "ebyte e2 = ebyte e1" using wait_mem[of polls e1] 2 by simp
    have eq: "(r, e') = attempt spi_error (r1, e1) (\<lambda>rx e. attempt id (eeprom_wait B polls e) (\<lambda>_ e.
        attempt id (eeprom_read_loop B polls (a + n) (len - n) e) (\<lambda>bs e. (Inr (take n (drop 4 rx) @ bs), e))))"
      using less.prems(1) False 1 by (subst (asm) eeprom_read_loop.simps) (simp add: Let_def n_def[symmetric])
    show ?thesis
    proof (cases "\<exists>rx. r1 = Inr rx \<and> r2 = Inr ()")
      case False
      then show ?thesis using eq 2 b1 b2 by (cases r1; cases r2) auto
    next
      case True
      then obtain rx where rx: "r1 = Inr rx" "r2 = Inr ()" by blast
      have ih: "ebyte e3 = ebyte e2 \<and> (\<forall>bs. r3 = Inr bs \<longrightarrow> bs = map (ebyte e2) [a + n..<a + n + (len - n)])"
        by (rule less.IH[OF _ 3]) (use n less.prems wait_idle[of polls e1 e2] 2 rx in auto)
      have "take n (drop 4 rx) = map (ebyte e) [a..<a + n]"
      proof -
        obtain d' where t: "bus_transfer B (tx_header CMD_READ a) (4 + n) (bus ?e0) = (NRF_SUCCESS, rx, d')"
          using 1 rx(1) by (auto simp: reset_success spi_transmit_receive_def Let_def split: prod.splits if_splits)
        from read_done[OF _ t] less.prems(2,3) n have "length rx = 4 + n \<and> (\<forall>i < n. rx ! (4 + i) = mem (bus e) (a + i))" by simp
        then show ?thesis by (auto intro!: nth_equalityI simp: ebyte_def)
      qed
      moreover have "[a..<a + len] = [a..<a + n] @ [a + n..<a + n + (len - n)]" using n upt_split[of a "a + n" "a + len"] by simp
      ultimately show ?thesis using eq 2 3 rx ih b1 b2 by (cases r3) auto
    qed
  qed
qed

lemma eeprom_read_result:
  assumes "eeprom_read B polls a len e = (r, e')" and "a + len \<le> EEPROM_SIZE"
  shows "ebyte e' = ebyte e \<and> (\<forall>bs. r = Inr bs \<longrightarrow> bs = map (ebyte e) [a..<a + len])"
proof -
  obtain opn e1 where g: "eeprom_get_operation B e = (opn, e1)" by fastforce
  have b: "ebyte e1 = ebyte e" using get_operation_mem[of e] g by simp
  show ?thesis
  proof (cases "opn = EEPROM_NO_OPERATION")
    case True
    have "u32_add a len = a + len" using assms(2) by (simp add: EEPROM_SIZE_def)
    with assms g True have "eeprom_read_loop B polls a len e1 = (r, e')" by (auto simp: eeprom_read_def split: if_splits)
    from read_loop_result[OF this assms(2)] get_operation_idle g True b show ?thesis by simp
  next
    case False
    with assms(1) g b show ?thesis by (auto simp: eeprom_read_def split: if_splits)
  qed
qed

lemma ebyte_attempt:
  assumes "ebyte (snd r) = ebyte e" and "\<And>x e1. r = (Inr x, e1) \<Longrightarrow> ebyte (snd (k x e1)) = ebyte e1"
  shows "ebyte (snd (attempt f r k)) = ebyte e"
  using assms by (cases r; cases "fst r") auto

lemma ebyte_operation [simp]: "ebyte (e\<lparr>eeprom_operation := opn\<rparr>) = ebyte e"
  by (simp add: ebyte_def)

lemma ebyte_reset: "ebyte (snd (reset_on_error r)) = ebyte (snd r)"
  using reset_bus[of r] by (simp add: ebyte_def)

lemma read_loop_mem: "ebyte (snd (eeprom_read_loop B polls a len e)) = ebyte e"
proof (induction len arbitrary: a e rule: less_induct)
  case (less len)
  show ?case
  proof (cases "len = 0")
    case False
    define n where "n = step_len a len"
    have n: "len - n < len" using False step_len_pos[of len a] by (simp add: n_def)
    have t: "ebyte (snd (reset_on_error (spi_transmit_receive B (tx_header CMD_READ a) (4 + n)
               (e\<lparr>eeprom_operation := EEPROM_READ_OPERATION\<rparr>)))) = ebyte e"
      using transmit_receive_mem[of "tx_header CMD_READ a"] by (simp add: ebyte_reset tx_header_def)
    show ?thesis
      by (subst eeprom_read_loop.simps)
        (use False n t in \<open>auto simp: Let_def n_def[symmetric] simp del: eeprom_read_loop.simps intro!: ebyte_attempt wait_mem less.IH\<close>)
  qed simp
qed

lemma eeprom_read_mem: "ebyte (snd (eeprom_read B polls a len e)) = ebyte e"
  using get_operation_mem[of e] by (auto simp: eeprom_read_def read_loop_mem simp del: eeprom_read_loop.simps split: prod.splits)

lemma eeprom_init_mem: "ebyte (snd (eeprom_init B polls e)) = ebyte e"
proof -
  have i: "ebyte (snd (spi_init B e)) = ebyte e"
    by (auto simp: spi_init_def ebyte_def split: prod.splits dest: init_mem)
  have u: "ebyte (snd (eeprom_global_unprotect B polls e1)) = ebyte e1" for e1
    unfolding eeprom_global_unprotect_def
  proof (rule ebyte_attempt[OF write_enable_mem])
    fix x e2
    obtain r e3 where t: "spi_transmit B [CMD_WRSR, 0] e2 = (r, e3)" by fastforce
    have "ebyte e3 = ebyte e2" using transmit_mem[of "[CMD_WRSR, 0]" e2] t by simp
    moreover have "ebyte (snd (attempt id (eeprom_wait B polls e3) (\<lambda>_ e. (case r of Inl _ \<Rightarrow> Inl NRF_ERROR_BUSY | Inr _ \<Rightarrow> Inr (), e)))) = ebyte e3"
      by (rule ebyte_attempt[OF wait_mem]) simp
    ultimately show "ebyte (snd (case spi_transmit B [CMD_WRSR, 0] e2 of (ret, e) \<Rightarrow> attempt id (eeprom_wait B polls e)
        (\<lambda>_ e. (case ret of Inl _ \<Rightarrow> Inl NRF_ERROR_BUSY | Inr _ \<Rightarrow> Inr (), e)))) = ebyte e2" by (simp add: t)
  qed
  show ?thesis unfolding eeprom_init_def by (rule ebyte_attempt[OF i u])
qed

end

end
