(* ===== verification/Storage2.thy ===== *)
theory Storage2
  imports Eeprom_Driver
begin

text \<open>
  \<^verbatim>\<open>incl/storage2_lib.c\<close>: byte storage in the external EEPROM, a thin layer over the driver with
  units of one byte.
\<close>

record 'e storage2 =
  storage2_init_done :: bool
  eeprom :: "'e eeprom"

definition on_eeprom :: "('e eeprom \<Rightarrow> ('a, 'e eeprom) outcome) \<Rightarrow> 'e storage2 \<Rightarrow> ('a, 'e storage2) outcome" where
  "on_eeprom f s = (case f (eeprom s) of (r, e) \<Rightarrow> (r, s\<lparr>eeprom := e\<rparr>))"

definition storage2_init :: "'e spi_bus \<Rightarrow> nat \<Rightarrow> 'e storage2 \<Rightarrow> (unit, 'e storage2) outcome" where
  "storage2_init B polls s =
     (if storage2_init_done s then (Inr (), s)
      else attempt id (on_eeprom (eeprom_init B polls) s) (\<lambda>_ s. (Inr (), s\<lparr>storage2_init_done := True\<rparr>)))"

definition storage2_get_unit_size :: nat where
  "storage2_get_unit_size = 1"

definition storage2_get_size :: nat where
  "storage2_get_size = EEPROM_SIZE"

definition storage2_store :: "'e spi_bus \<Rightarrow> nat \<Rightarrow> nat \<Rightarrow> byte list \<Rightarrow> 'e storage2 \<Rightarrow> (unit, 'e storage2) outcome" where
  "storage2_store B polls address data s =
     (if u32_add address (length data) > storage2_get_size then (Inl NRF_ERROR_INVALID_PARAM, s)
      else if length data = 0 then (Inr (), s)
      else on_eeprom (eeprom_store B polls address data) s)"

definition storage2_read :: "'e spi_bus \<Rightarrow> nat \<Rightarrow> nat \<Rightarrow> nat \<Rightarrow> 'e storage2 \<Rightarrow> (byte list, 'e storage2) outcome" where
  "storage2_read B polls address length_data s =
     (if u32_add address length_data > storage2_get_size then (Inl NRF_ERROR_INVALID_PARAM, s)
      else if length_data = 0 then (Inr [], s)
      else on_eeprom (eeprom_read B polls address length_data) s)"

function storage2_clear :: "'e spi_bus \<Rightarrow> nat \<Rightarrow> nat \<Rightarrow> nat \<Rightarrow> 'e storage2 \<Rightarrow> (unit, 'e storage2) outcome" where
  "storage2_clear B polls address len s =
     (if len = 0 then (Inr (), s)
      else if len \<ge> 128
      then attempt id (storage2_store B polls address (replicate 128 0xFF) s) (\<lambda>_ s.
             storage2_clear B polls (u32_add address 128) (len - 128) s)
      else storage2_store B polls address (replicate len 0xFF) s)"
  by pat_completeness auto
termination
  by (relation "measure (\<lambda>(B, polls, address, len, s). len)") auto

end
