(* ===== verification/Storage_Stack.thy ===== *)
theory Storage_Stack
  imports Storage_Correct Storage1_Correct Storage2
begin

text \<open>
  The storage of the badge: the EEPROM module and behind it the flash module, combined by
  \<^verbatim>\<open>incl/storage_lib.c\<close>.  Both modules keep the contract of a module, so that every theorem about
  the filesystem holds on this stack down to the SPI bus and the flash library.
\<close>

section \<open>The tables of function pointers\<close>

definition storage1_module :: "'d fstorage \<Rightarrow> 'd storage1 storage_module" where
  "storage1_module F = \<lparr>sm_init = storage1_init F, sm_read = storage1_read F, sm_store = storage1_store F,
     sm_get_size = storage1_get_size, sm_get_unit_size = storage1_get_unit_size, sm_clear = storage1_clear F\<rparr>"

definition storage2_module :: "'e spi_bus \<Rightarrow> nat \<Rightarrow> 'e storage2 storage_module" where
  "storage2_module B polls = \<lparr>sm_init = storage2_init B polls, sm_read = storage2_read B polls, sm_store = storage2_store B polls,
     sm_get_size = storage2_get_size, sm_get_unit_size = storage2_get_unit_size, sm_clear = storage2_clear B polls\<rparr>"

definition badge_storage :: "'d fstorage \<Rightarrow> 'e spi_bus \<Rightarrow> nat \<Rightarrow> ('e storage2 \<times> 'd storage1) storage_state storage_ops" where
  "badge_storage F B polls = storage_lib [module_fst (storage2_module B polls), module_snd (storage1_module F)]"

lemma storage1_module_simps [simp]:
  "sm_init (storage1_module F) = storage1_init F" "sm_read (storage1_module F) = storage1_read F"
  "sm_store (storage1_module F) = storage1_store F" "sm_clear (storage1_module F) = storage1_clear F"
  "sm_get_size (storage1_module F) = 71680" "sm_get_unit_size (storage1_module F) = 1024"
  by (simp_all add: storage1_module_def storage1_sizes)

lemma storage2_module_simps [simp]:
  "sm_init (storage2_module B polls) = storage2_init B polls" "sm_read (storage2_module B polls) = storage2_read B polls"
  "sm_store (storage2_module B polls) = storage2_store B polls" "sm_clear (storage2_module B polls) = storage2_clear B polls"
  "sm_get_size (storage2_module B polls) = 262144" "sm_get_unit_size (storage2_module B polls) = 1"
  by (simp_all add: storage2_module_def storage2_get_size_def EEPROM_SIZE_def storage2_get_unit_size_def)

section \<open>Clearing in pieces\<close>

text \<open>Both modules clear by storing 0xFF in pieces of 128 bytes.\<close>

function clear_pieces :: "(nat \<Rightarrow> byte list \<Rightarrow> 's \<Rightarrow> (unit, 's) outcome) \<Rightarrow> nat \<Rightarrow> nat \<Rightarrow> 's \<Rightarrow> (unit, 's) outcome" where
  "clear_pieces store address len s =
     (if len = 0 then (Inr (), s)
      else if len \<ge> 128
      then attempt id (store address (replicate 128 0xFF) s) (\<lambda>_ s. clear_pieces store (u32_add address 128) (len - 128) s)
      else store address (replicate len 0xFF) s)"
  by pat_completeness auto
termination
  by (relation "measure (\<lambda>(store, address, len, s). len)") auto

lemma storage1_clear_pieces: "storage1_clear F a n s = clear_pieces (storage1_store F) a n s"
proof (induction n arbitrary: a s rule: less_induct)
  case (less n)
  show ?case
    by (subst storage1_clear.simps, subst clear_pieces.simps)
      (auto simp: attempt_def less.IH simp del: storage1_clear.simps clear_pieces.simps split: prod.splits sum.splits)
qed

lemma storage2_clear_pieces: "storage2_clear B p a n s = clear_pieces (storage2_store B p) a n s"
proof (induction n arbitrary: a s rule: less_induct)
  case (less n)
  show ?case
    by (subst storage2_clear.simps, subst clear_pieces.simps)
      (auto simp: attempt_def less.IH simp del: storage2_clear.simps clear_pieces.simps split: prod.splits sum.splits)
qed

text \<open>The pieces: a first one of at most 128 bytes, then the rest.\<close>

lemma clear_pieces_step:
  assumes "0 < n" and "a + n < 4294967296"
  shows "clear_pieces store a n s =
    attempt id (store a (replicate (min n 128) 0xFF) s) (\<lambda>_ s. clear_pieces store (a + min n 128) (n - min n 128) s)"
proof (cases "128 \<le> n")
  case True
  have "u32_add a 128 = a + 128" using True assms(2) by simp
  then show ?thesis using True by (subst clear_pieces.simps) (simp del: clear_pieces.simps add: min_def)
next
  case False
  have z: "clear_pieces store b 0 = (\<lambda>t. (Inr (), t))" for b by (simp add: fun_eq_iff)
  have "attempt id r (\<lambda>_ s. (Inr (), s)) = r" for r :: "(unit, 'a) outcome"
    by (auto simp: attempt_def split: prod.splits sum.splits)
  with False assms show ?thesis by (subst clear_pieces.simps) (simp del: clear_pieces.simps add: min_def z)
qed

declare clear_pieces.simps [simp del] storage1_clear.simps [simp del] storage2_clear.simps [simp del]

locale piece_store =
  fixes store :: "nat \<Rightarrow> byte list \<Rightarrow> 's \<Rightarrow> (unit, 's) outcome"
    and c :: "'s \<Rightarrow> nat \<Rightarrow> byte"
    and ok :: "'s \<Rightarrow> bool"
    and size unit :: nat
  assumes sizes: "size < 1073741824" "0 < unit"
    and frame: "d \<noteq> [] \<Longrightarrow> a + length d \<le> size \<Longrightarrow> store a d s = (r, s') \<Longrightarrow>
      x div unit < a div unit \<or> (a + length d - 1) div unit < x div unit \<Longrightarrow> c s' x = c s x"
    and stored: "ok s \<Longrightarrow> d \<noteq> [] \<Longrightarrow> a + length d \<le> size \<Longrightarrow> store a d s = (Inr (), s') \<Longrightarrow>
      ok s' \<and> map (c s') [a..<a + length d] = d \<and> (\<forall>x < a. c s' x = c s x)"
begin

lemma pieces_frame:
  assumes "0 < n" and "a + n \<le> size" and "clear_pieces store a n s = (r, s')"
    and "x div unit < a div unit \<or> (a + n - 1) div unit < x div unit"
  shows "c s' x = c s x"
  using assms
proof (induction n arbitrary: a s rule: less_induct)
  case (less n)
  define k where "k = min n 128"
  have k: "0 < k" "k \<le> n" using less.prems(1) by (simp_all add: k_def)
  obtain r1 s1 where 1: "store a (replicate k 0xFF) s = (r1, s1)" by fastforce
  have le: "(a + k - 1) div unit \<le> (a + n - 1) div unit" "a div unit \<le> (a + k) div unit"
    using k by (auto intro!: div_le_mono)
  have c1: "c s1 x = c s x" by (rule frame[OF _ _ 1]) (use k less.prems(2,4) le in auto)
  have eq: "(r, s') = attempt id (r1, s1) (\<lambda>_ s. clear_pieces store (a + k) (n - k) s)"
    using less.prems(1,2,3) sizes clear_pieces_step[of n a store s] 1 by (simp add: k_def)
  show ?case
  proof (cases "r1 = Inr () \<and> k < n")
    case True
    then have "clear_pieces store (a + k) (n - k) s1 = (r, s')" using eq by simp
    moreover have "x div unit < (a + k) div unit \<or> (a + k + (n - k) - 1) div unit < x div unit" using less.prems(4) le k by auto
    ultimately have "c s' x = c s1 x" using True k less.prems(2) by (intro less.IH[of "n - k" "a + k"]) auto
    with c1 show ?thesis by simp
  next
    case False
    then have "s' = s1" using eq k by (cases r1) (auto simp: clear_pieces.simps)
    with c1 show ?thesis by simp
  qed
qed

lemma pieces_done:
  assumes "0 < n" and "a + n \<le> size" and "clear_pieces store a n s = (Inr (), s')" and "ok s"
  shows "ok s' \<and> (\<forall>x. a \<le> x \<and> x < a + n \<longrightarrow> c s' x = 0xFF) \<and> (\<forall>x < a. c s' x = c s x)"
  using assms
proof (induction n arbitrary: a s rule: less_induct)
  case (less n)
  define k where "k = min n 128"
  have k: "0 < k" "k \<le> n" using less.prems(1) by (simp_all add: k_def)
  obtain s1 where 1: "store a (replicate k 0xFF) s = (Inr (), s1)" and 2: "clear_pieces store (a + k) (n - k) s1 = (Inr (), s')"
    using less.prems(1,2,3) sizes clear_pieces_step[of n a store s] by (auto simp: k_def elim!: attempt_success)
  have d: "ok s1" "map (c s1) [a..<a + k] = replicate k 0xFF" "\<forall>x < a. c s1 x = c s x"
    using stored[OF less.prems(4) _ _ 1] k less.prems(2) by auto
  have f: "c s1 x = 0xFF" if "a \<le> x" "x < a + k" for x
  proof -
    have "map (c s1) [a..<a + k] ! (x - a) = 0xFF" unfolding d(2) using that by simp
    with that show ?thesis by simp
  qed
  show ?case
  proof (cases "k < n")
    case True
    then have "ok s' \<and> (\<forall>x. a + k \<le> x \<and> x < a + k + (n - k) \<longrightarrow> c s' x = 0xFF) \<and> (\<forall>x < a + k. c s' x = c s1 x)"
      using k less.prems(2) d(1) by (intro less.IH[OF _ _ _ 2]) auto
    with d(3) f k show ?thesis by (auto simp: not_less) (metis not_le)
  next
    case False
    then have "s' = s1" "n = k" using 2 k by (auto simp: clear_pieces.simps)
    with d f show ?thesis by auto
  qed
qed

end

section \<open>The modules keep their contract\<close>

context eeprom_chip
begin

definition s2byte :: "'e storage2 \<Rightarrow> nat \<Rightarrow> byte" where
  "s2byte s = ebyte (eeprom s)"

lemma on_eeprom_eq: "on_eeprom f s = (r, s') \<longleftrightarrow> (\<exists>e. f (eeprom s) = (r, e) \<and> s' = s\<lparr>eeprom := e\<rparr>)"
  by (auto simp: on_eeprom_def split: prod.splits)

lemma storage2_store_frame:
  assumes "a + length d \<le> 262144" and "storage2_store B polls a d s = (r, s')" and "x < a \<or> a + length d \<le> x"
  shows "s2byte s' x = s2byte s x"
  using assms eeprom_store_frame[of polls a d]
  by (auto simp: storage2_store_def on_eeprom_eq s2byte_def EEPROM_SIZE_def split: if_splits)

lemma storage2_store_done:
  assumes "d \<noteq> []" and "a + length d \<le> 262144" and "storage2_store B polls a d s = (Inr (), s')"
  shows "map (s2byte s') [a..<a + length d] = d"
proof (rule nth_equalityI)
  fix i assume i: "i < length (map (s2byte s') [a..<a + length d])"
  have sz: "storage2_get_size = 262144" "EEPROM_SIZE = 262144" by (simp_all add: storage2_get_size_def EEPROM_SIZE_def)
  have "u32_add a (length d) = a + length d" using assms(2) by simp
  then obtain e where "eeprom_store B polls a d (eeprom s) = (Inr (), e)" "s' = s\<lparr>eeprom := e\<rparr>"
    using assms sz by (auto simp: storage2_store_def on_eeprom_eq)
  with eeprom_store_done i assms(2) sz show "map (s2byte s') [a..<a + length d] ! i = d ! i" by (simp add: s2byte_def)
qed simp

lemma storage2_pieces: "piece_store (storage2_store B polls) s2byte (\<lambda>_. True) 262144 1"
proof
  fix d :: "byte list" and a s r s' x
  assume d: "d \<noteq> []" "a + length d \<le> 262144"
  show "s2byte s' x = s2byte s x" if "storage2_store B polls a d s = (r, s')"
    "x div 1 < a div 1 \<or> (a + length d - 1) div 1 < x div 1"
    by (rule storage2_store_frame[OF d(2) that(1)]) (use that(2) in auto)
  show "True \<and> map (s2byte s') [a..<a + length d] = d \<and> (\<forall>x<a. s2byte s' x = s2byte s x)"
    if "storage2_store B polls a d s = (Inr (), s')"
    using storage2_store_done[OF d that] storage2_store_frame[OF d(2) that] by simp
qed simp_all

lemma storage2_laws: "storage_module_laws (storage2_module B polls) s2byte (\<lambda>_. True)"
proof -
  note pf = piece_store.pieces_frame[OF storage2_pieces] and pd = piece_store.pieces_done[OF storage2_pieces]
  note sf = piece_store.frame[OF storage2_pieces] and sd = piece_store.stored[OF storage2_pieces]
  show ?thesis
  proof (rule storage_module_laws.intro, unfold storage2_module_simps storage2_clear_pieces)
    fix s s' :: "'e storage2" and r a n
    show "True \<and> s2byte s' = s2byte s" if "storage2_init B polls s = (Inr (), s')"
      using that eeprom_init_mem[of polls "eeprom s"]
      by (auto simp: storage2_init_def on_eeprom_def s2byte_def split: if_splits prod.splits elim!: attempt_success)
    show "(True \<longrightarrow> True) \<and> s2byte s' = s2byte s" if "storage2_read B polls a n s = (r, s')"
      using that eeprom_read_mem[of polls a n "eeprom s"]
      by (auto simp: storage2_read_def on_eeprom_eq s2byte_def split: if_splits)
  next
    fix n a s bs s' assume n: "0 < n" "a + n \<le> 262144" and r: "storage2_read B polls a n s = (Inr bs, s')"
    have sz: "storage2_get_size = 262144" "EEPROM_SIZE = 262144" by (simp_all add: storage2_get_size_def EEPROM_SIZE_def)
    have "u32_add a n = a + n" using n by simp
    with n r sz obtain e where "eeprom_read B polls a n (eeprom s) = (Inr bs, e)"
      by (auto simp: storage2_read_def on_eeprom_eq)
    with eeprom_read_result n sz show "bs = map (s2byte s) [a..<a + n]" by (auto simp: s2byte_def)
  next
    fix s a n s'
    show "True \<and> (\<forall>x. a \<le> x \<and> x < a + n \<longrightarrow> s2byte s' x = 0xFF) \<and> (\<forall>x<a. s2byte s' x = s2byte s x)"
      if "True" "0 < n" "a + n \<le> 262144" "clear_pieces (storage2_store B polls) a n s = (Inr (), s')"
      using pd[OF that(2-4)] by simp
  qed (fact pf sf sd | simp)+
qed

end

context fstorage_laws
begin

lemma storage1_pieces: "piece_store (storage1_store F) s1byte table_ok 71680 1024"
proof
  fix d :: "byte list" and a s r s' x
  assume d: "d \<noteq> []" "a + length d \<le> 71680"
  show "s1byte s' x = s1byte s x" if "storage1_store F a d s = (r, s')"
    "x div 1024 < a div 1024 \<or> (a + length d - 1) div 1024 < x div 1024"
    using storage1_store_frame[OF d, of s] that by (auto simp: pages_only_def)
  show "table_ok s' \<and> map (s1byte s') [a..<a + length d] = d \<and> (\<forall>x<a. s1byte s' x = s1byte s x)"
    if t: "table_ok s" "storage1_store F a d s = (Inr (), s')"
  proof -
    note e = storage1_store_done[OF t(2,1) d]
    have p: "s1byte s' x = d ! (x - a)" if "a \<le> x" "x < a + length d" for x
    proof -
      have "a div 1024 \<le> x div 1024" "x div 1024 \<le> (a + length d - 1) div 1024" using that by (auto intro!: div_le_mono)
      with e(1)[of x] that show ?thesis by simp
    qed
    have "map (s1byte s') [a..<a + length d] = d" by (rule nth_equalityI) (simp_all add: p)
    with e show ?thesis by auto
  qed
qed simp_all

lemma storage1_init_law:
  assumes "storage1_init F s = (Inr (), s')"
  shows "table_ok s' \<and> s1byte s' = s1byte s"
proof -
  from assms have "last_stored_element_addresses s' = replicate 15 (- 1)" and "fbyte (flash s') = fbyte (flash s)"
    by (auto simp: storage1_init_def Let_def on_flash_def flash_init_def STORAGE1_LAST_STORED_ELEMENT_ADDRESSES_SIZE_def
        fbyte_def fun_eq_iff split: if_splits prod.splits elim!: attempt_success dest: init_words)
  then show ?thesis by (simp add: table_ok_def s1byte_def fun_eq_iff)
qed

lemma storage1_laws: "storage_module_laws (storage1_module F) s1byte table_ok"
proof -
  note pf = piece_store.pieces_frame[OF storage1_pieces] and pd = piece_store.pieces_done[OF storage1_pieces]
  note sf = piece_store.frame[OF storage1_pieces] and sd = piece_store.stored[OF storage1_pieces]
  show ?thesis
  proof (rule storage_module_laws.intro, unfold storage1_module_simps storage1_clear_pieces)
    fix s s' :: "'d storage1" and r a n
    show "(table_ok s \<longrightarrow> table_ok s') \<and> s1byte s' = s1byte s" if "storage1_read F a n s = (r, s')"
      using that by (auto simp: storage1_read_def split: if_splits)
  next
    fix n a s bs s' assume n: "0 < n" "a + n \<le> 71680" and r: "storage1_read F a n s = (Inr bs, s')"
    have "u32_add a n = a + n" using n by simp
    with n r read_bytes_ok[of a n "flash s"] show "bs = map (s1byte s) [a..<a + n]"
      by (auto simp: storage1_read_def storage1_sizes s1byte_def)
  next
    fix s a n s'
    show "table_ok s' \<and> (\<forall>x. a \<le> x \<and> x < a + n \<longrightarrow> s1byte s' x = 0xFF) \<and> (\<forall>x<a. s1byte s' x = s1byte s x)"
      if "table_ok s" "0 < n" "a + n \<le> 71680" "clear_pieces (storage1_store F) a n s = (Inr (), s')"
      using pd[OF that(2-4,1)] .
  qed (fact pf sf sd storage1_init_law | simp)+
qed

end

section \<open>The stack\<close>

text \<open>Flash library and EEPROM chip together: the hardware of the badge.\<close>

locale badge_hardware = fstorage_laws F + eeprom_chip B mem idle wel
  for F :: "'d fstorage" and B :: "'e spi_bus" and mem idle wel +
  fixes polls :: nat
begin

lemma stack_laws: "two_modules (storage2_module B polls) s2byte (\<lambda>_. True) (storage1_module F) s1byte table_ok"
  by (intro two_modules.intro storage2_laws storage1_laws)

end

sublocale badge_hardware \<subseteq> stack: two_modules "storage2_module B polls" s2byte "\<lambda>_. True" "storage1_module F" s1byte table_ok
  by (rule stack_laws)

end
