(* ===== verification/Sim_Hardware.thy ===== *)
theory Sim_Hardware
  imports Storage_Stack
begin

text \<open>
  Simulated hardware: a flash library that completes every operation at once, and an EEPROM that
  is never busy.  They keep the documented behaviour the drivers rely on, and run the model on
  concrete inputs.
\<close>

section \<open>Flash\<close>

type_synonym sim_words = "nat \<Rightarrow> 32 word"

definition sim_erase :: "nat \<Rightarrow> nat \<Rightarrow> sim_words \<Rightarrow> sim_words" where
  "sim_erase a n d = (\<lambda>w. if a \<le> w \<and> w < a + n * FLASH_PAGE_SIZE_WORDS then - 1 else d w)"

definition sim_program :: "nat \<Rightarrow> 32 word list \<Rightarrow> sim_words \<Rightarrow> sim_words" where
  "sim_program a ws d = (\<lambda>w. if a \<le> w \<and> w < a + length ws then d w AND ws ! (w - a) else d w)"

definition sim_flash :: "sim_words fstorage" where
  "sim_flash = \<lparr>fsto_init = (\<lambda>d. (FS_SUCCESS, d)), fsto_erase = (\<lambda>a n d. (FS_SUCCESS, sim_erase a n d)),
     fsto_store = (\<lambda>a ws d. (FS_SUCCESS, sim_program a ws d)), fsto_wait = (\<lambda>d. (Some FS_SUCCESS, d)), fsto_word = id\<rparr>"

lemma sim_flash_laws: "fstorage_laws sim_flash"
  by unfold_locales (auto simp: sim_flash_def sim_program_def sim_erase_def)

lemma sim_flash_erase:
  "\<not> op_store fl \<Longrightarrow> \<not> op_erase fl \<Longrightarrow> flash_erase sim_flash p n fl =
     (Inr (), fl\<lparr>err_erase := False, op_erase := False, op_store := False, fdev := sim_erase (address_of_page p) n (fdev fl)\<rparr>)"
  by (simp add: flash_erase_def flash_erase_bkgnd_def flash_wait_def fs_evt_handler_def sim_flash_def Let_def)

lemma sim_flash_store:
  "\<not> op_store fl \<Longrightarrow> \<not> op_erase fl \<Longrightarrow> flash_store sim_flash a ws fl =
     (Inr (), fl\<lparr>err_store := False, op_erase := False, op_store := False, fdev := sim_program a ws (fdev fl)\<rparr>)"
  by (simp add: flash_store_def flash_store_bkgnd_def flash_wait_def fs_evt_handler_def sim_flash_def Let_def)

section \<open>EEPROM\<close>

record sim_chip =
  cells :: "nat \<Rightarrow> byte"
  write_enabled :: bool

text \<open>The address of a command: three bytes, the most significant first.\<close>

definition command_address :: "byte list \<Rightarrow> nat" where
  "command_address tx = unat (tx ! 1) * 65536 + unat (tx ! 2) * 256 + unat (tx ! 3)"

definition sim_write :: "nat \<Rightarrow> byte list \<Rightarrow> (nat \<Rightarrow> byte) \<Rightarrow> nat \<Rightarrow> byte" where
  "sim_write a bs m = (\<lambda>x. if a \<le> x \<and> x < a + length bs then bs ! (x - a) else m x)"

definition sim_transfer :: "byte list \<Rightarrow> nat \<Rightarrow> sim_chip \<Rightarrow> ret_code \<times> byte list \<times> sim_chip" where
  "sim_transfer tx n d = (NRF_SUCCESS,
     if hd tx = CMD_READ then replicate 4 0 @ map (\<lambda>i. cells d (command_address tx + i)) [0..<n - 4] else replicate n 0,
     if hd tx = CMD_WREN then d\<lparr>write_enabled := True\<rparr>
     else if hd tx = CMD_WRITE \<and> write_enabled d
     then d\<lparr>cells := sim_write (command_address tx) (drop 4 tx) (cells d), write_enabled := False\<rparr>
     else if hd tx = CMD_WRSR then d\<lparr>write_enabled := False\<rparr> else d)"

definition sim_bus :: "sim_chip spi_bus" where
  "sim_bus = \<lparr>bus_init = (\<lambda>d. (NRF_SUCCESS, d)), bus_transfer = sim_transfer\<rparr>"

lemma command_address_header:
  assumes "a < 16777216"
  shows "command_address (tx_header cmd a @ bs) = a"
proof -
  have "unat (word_of_nat (drop_bit 16 a) :: byte) = a div 65536"
    using assms by (simp add: unat_of_nat drop_bit_eq_div less_mult_imp_div_less)
  moreover have "unat (word_of_nat (drop_bit 8 a) :: byte) = a div 256 mod 256" "unat (word_of_nat a :: byte) = a mod 256"
    by (simp_all add: unat_of_nat drop_bit_eq_div)
  moreover have "a div 65536 * 65536 + a div 256 mod 256 * 256 + a mod 256 = a"
  proof -
    define q where "q = a div 256"
    have "a div 65536 = q div 256" using div_mult2_eq[of a 256 256] by (simp add: q_def)
    moreover have "q div 256 * 256 + q mod 256 = q" "q * 256 + a mod 256 = a" by (simp_all add: q_def)
    ultimately show ?thesis unfolding q_def[symmetric] by linarith
  qed
  ultimately show ?thesis by (simp add: command_address_def tx_header_def)
qed

lemma commands_distinct:
  "CMD_WRITE \<noteq> CMD_WREN" "CMD_WRITE \<noteq> CMD_RDSR" "CMD_WRITE \<noteq> CMD_READ" "CMD_READ \<noteq> CMD_WREN" "CMD_READ \<noteq> CMD_WRITE"
  "CMD_READ \<noteq> CMD_WRSR" "CMD_RDSR \<noteq> CMD_WRSR" "CMD_RDSR \<noteq> CMD_READ" "CMD_RDSR \<noteq> CMD_WREN" "CMD_RDSR \<noteq> CMD_WRITE"
  "CMD_WREN \<noteq> CMD_READ" "CMD_WRSR \<noteq> CMD_READ" "CMD_WRSR \<noteq> CMD_WREN" "CMD_WRSR \<noteq> CMD_WRITE"
  by (simp_all add: CMD_WREN_def CMD_RDSR_def CMD_READ_def CMD_WRITE_def CMD_WRSR_def)

lemma sim_commands:
  "a < 16777216 \<Longrightarrow> sim_transfer (tx_header CMD_WRITE a @ bs) 0 d = (NRF_SUCCESS, [],
     if write_enabled d then d\<lparr>cells := sim_write a bs (cells d), write_enabled := False\<rparr> else d)"
  "a < 16777216 \<Longrightarrow> sim_transfer (tx_header CMD_READ a) (4 + n) d =
     (NRF_SUCCESS, replicate 4 0 @ map (cells d) [a..<a + n], d)"
  "sim_transfer [CMD_RDSR] n d = (NRF_SUCCESS, replicate n 0, d)"
  "sim_transfer [CMD_WREN] n d = (NRF_SUCCESS, replicate n 0, d\<lparr>write_enabled := True\<rparr>)"
  "sim_transfer [CMD_WRSR, b] n d = (NRF_SUCCESS, replicate n 0, d\<lparr>write_enabled := False\<rparr>)"
proof -
  have hd: "hd (tx_header c a @ bs) = c" "drop 4 (tx_header c a @ bs) = bs" for c
    by (simp_all add: tx_header_def)
  show "a < 16777216 \<Longrightarrow> sim_transfer (tx_header CMD_WRITE a @ bs) 0 d = (NRF_SUCCESS, [],
     if write_enabled d then d\<lparr>cells := sim_write a bs (cells d), write_enabled := False\<rparr> else d)"
    unfolding sim_transfer_def hd by (simp add: command_address_header commands_distinct)
  assume "a < 16777216"
  then have "command_address (tx_header CMD_READ a) = a" using command_address_header[of a CMD_READ "[]"] by simp
  moreover have "map (\<lambda>i. cells d (a + i)) [0..<n] = map (cells d) [a..<a + n]" by (rule nth_equalityI) simp_all
  moreover have "hd (tx_header CMD_READ a) = CMD_READ" by (simp add: tx_header_def)
  ultimately show "sim_transfer (tx_header CMD_READ a) (4 + n) d = (NRF_SUCCESS, replicate 4 0 @ map (cells d) [a..<a + n], d)"
    by (simp add: sim_transfer_def commands_distinct)
qed (simp_all add: sim_transfer_def commands_distinct)

lemma sim_bus_laws: "eeprom_chip sim_bus cells (\<lambda>_. True) write_enabled"
proof (unfold_locales, goal_cases)
  case (6 a bs d st rx d' x)
  then show ?case by (auto simp: sim_bus_def EEPROM_SIZE_def sim_commands sim_write_def)
next
  case (7 d a bs rx d' i)
  then show ?case by (auto simp: sim_bus_def EEPROM_SIZE_def sim_commands sim_write_def)
next
  case (8 d a n rx d')
  then show ?case by (auto simp: sim_bus_def EEPROM_SIZE_def sim_commands nth_append)
qed (auto simp: sim_bus_def sim_transfer_def commands_distinct)

interpretation sim: badge_hardware sim_flash sim_bus cells "\<lambda>_. True" write_enabled 3
  by (intro badge_hardware.intro sim_flash_laws sim_bus_laws)

section \<open>The storage of a running badge\<close>

definition sim_eeprom :: "(nat \<Rightarrow> byte) \<Rightarrow> sim_chip eeprom" where
  "sim_eeprom m = \<lparr>spi_operation = SPI_NO_OPERATION, ss_pin_active = False, eeprom_operation = EEPROM_NO_OPERATION,
     bus = \<lparr>cells = m, write_enabled = False\<rparr>\<rparr>"

definition sim_storage :: "(nat \<Rightarrow> byte) \<Rightarrow> (sim_chip storage2 \<times> sim_words storage1) storage_state" where
  "sim_storage m = \<lparr>storage_sizes = (\<lambda>_. 0)(0 := 262144, 1 := 71680),
     modules = (\<lparr>storage2_init_done = True, eeprom = sim_eeprom m\<rparr>,
       \<lparr>last_stored_element_addresses = replicate 15 (- 1), init_done = True,
        flash = \<lparr>op_store = False, op_erase = False, err_store = False, err_erase = False, fdev = (\<lambda>_. - 1)\<rparr>\<rparr>)\<rparr>"

abbreviation sim_ops :: "(sim_chip storage2 \<times> sim_words storage1) storage_state storage_ops" where
  "sim_ops \<equiv> badge_storage sim_flash sim_bus 3"

text \<open>The chip is never busy.\<close>

lemma sim_get_operation:
  "spi_operation e = SPI_NO_OPERATION \<Longrightarrow>
    eeprom_get_operation sim_bus e = (EEPROM_NO_OPERATION, e\<lparr>ss_pin_active := False, eeprom_operation := EEPROM_NO_OPERATION\<rparr>)"
  by (simp add: eeprom_get_operation_def eeprom_is_busy_def eeprom_read_status_def spi_transmit_receive_def Let_def
      sim_bus_def sim_commands spi_event_done_def numeral_2_eq_2)

lemma sim_wait:
  "spi_operation e = SPI_NO_OPERATION \<Longrightarrow>
    eeprom_wait sim_bus (Suc n) e = (Inr (), e\<lparr>ss_pin_active := False, eeprom_operation := EEPROM_NO_OPERATION\<rparr>)"
  by (simp add: eeprom_wait_def sim_get_operation)

lemma sim_write_Nil [simp]: "sim_write a [] m = m"
  by (auto simp: sim_write_def fun_eq_iff)

lemma sim_write_split: "n \<le> length d \<Longrightarrow> sim_write (a + n) (drop n d) (sim_write a (take n d) m) = sim_write a d m"
  by (auto simp: sim_write_def fun_eq_iff)

lemma sim_store_loop:
  assumes "a + length d \<le> 262144"
  shows "eeprom_store_loop sim_bus (Suc p) a d (sim_eeprom m) = (Inr (), sim_eeprom (sim_write a d m))"
  using assms
proof (induction "length d" arbitrary: a d m rule: less_induct)
  case less
  show ?case
  proof (cases "d = []")
    case False
    define n where "n = step_len a (length d)"
    have n: "0 < n" "n \<le> length d" using False step_len_pos[of "length d" a] by (simp_all add: n_def step_len_def Let_def)
    have ih: "eeprom_store_loop sim_bus (Suc p) (a + n) (drop n d) (sim_eeprom m') = (Inr (), sim_eeprom (sim_write (a + n) (drop n d) m'))" for m'
      by (rule less.hyps) (use n less.prems in auto)
    have a: "a < 16777216" using less.prems by simp
    have st: "bus_transfer sim_bus = sim_transfer" by (simp add: sim_bus_def)
    show ?thesis
      by (subst eeprom_store_loop.simps)
        (use False n a sim_write_split[OF n(2)] in \<open>simp add: n_def[symmetric] Let_def reset_on_error_def eeprom_write_enable_def spi_transmit_def
          spi_event_done_def sim_eeprom_def[of m] st sim_commands sim_wait ih[unfolded sim_eeprom_def] sim_eeprom_def
          del: eeprom_store_loop.simps\<close>)
  qed (simp add: sim_eeprom_def)
qed

lemma sim_read_loop:
  assumes "a + len \<le> 262144"
  shows "eeprom_read_loop sim_bus (Suc p) a len (sim_eeprom m) = (Inr (map m [a..<a + len]), sim_eeprom m)"
  using assms
proof (induction len arbitrary: a rule: less_induct)
  case (less len)
  show ?case
  proof (cases "len = 0")
    case False
    define n where "n = step_len a len"
    have n: "0 < n" "n \<le> len" using False step_len_pos[of len a] by (simp_all add: n_def step_len_def Let_def)
    have ih: "eeprom_read_loop sim_bus (Suc p) (a + n) (len - n) (sim_eeprom m) = (Inr (map m [a + n..<a + len]), sim_eeprom m)"
      using less.IH[of "len - n" "a + n"] n less.prems by simp
    have up: "[a..<a + len] = [a..<a + n] @ [a + n..<a + len]" using n by (intro upt_split) auto
    have a: "a < 16777216" using less.prems False by simp
    have st: "bus_transfer sim_bus = sim_transfer" by (simp add: sim_bus_def)
    show ?thesis
      by (subst eeprom_read_loop.simps)
        (use False a in \<open>simp add: n_def[symmetric] Let_def reset_on_error_def spi_transmit_receive_def
          spi_event_done_def st sim_commands sim_wait ih[unfolded sim_eeprom_def] sim_eeprom_def up
          del: eeprom_read_loop.simps\<close>)
  qed simp
qed

text \<open>Reads and stores in the EEPROM part of the storage.\<close>

lemma sim_ready: "sim.stack.sready (sim_storage m)"
  by (simp add: sim.stack.sready_def sim_storage_def)

lemma sim_eeprom_get: "eeprom_get_operation sim_bus (sim_eeprom m) = (EEPROM_NO_OPERATION, sim_eeprom m)"
  by (simp add: sim_get_operation sim_eeprom_def)

lemma sim_eeprom_store:
  "a + length d \<le> 262144 \<Longrightarrow> eeprom_store sim_bus 3 a d (sim_eeprom m) = (Inr (), sim_eeprom (sim_write a d m))"
  using sim_store_loop[of a d 2 m]
  by (simp add: eeprom_store_def sim_eeprom_get EEPROM_SIZE_def numeral_3_eq_3 numeral_2_eq_2 del: eeprom_store_loop.simps)

lemma sim_eeprom_read:
  "a + n \<le> 262144 \<Longrightarrow> eeprom_read sim_bus 3 a n (sim_eeprom m) = (Inr (map m [a..<a + n]), sim_eeprom m)"
  using sim_read_loop[of a n 2 m]
  by (simp add: eeprom_read_def sim_eeprom_get EEPROM_SIZE_def numeral_3_eq_3 numeral_2_eq_2 del: eeprom_read_loop.simps)

lemma sim_store:
  assumes "a + length d \<le> 262144" and "d \<noteq> []"
  shows "so_store sim_ops a d (sim_storage m) = (Inr (), sim_storage (sim_write a d m))"
proof -
  have al: "a < 262144" using assms by (cases d) auto
  have "u32_add a (length d) = a + length d" using assms by simp
  then have "storage2_store sim_bus 3 a d \<lparr>storage2_init_done = True, eeprom = sim_eeprom m\<rparr>
      = (Inr (), \<lparr>storage2_init_done = True, eeprom = sim_eeprom (sim_write a d m)\<rparr>)"
    using assms by (simp add: storage2_store_def storage2_get_size_def EEPROM_SIZE_def on_eeprom_def sim_eeprom_store)
  then show ?thesis
    unfolding badge_storage_def sim.stack.lib_simps using assms al
    by (subst sim.stack.store_eq[OF sim_ready]) (auto simp: on_modules_def on_fst_def sim_storage_def split: prod.splits)
qed

lemma sim_module_read:
  assumes "a + n \<le> 262144" and "0 < n"
  shows "on_modules (on_fst (storage2_read sim_bus 3 a n)) (sim_storage m) = (Inr (map m [a..<a + n]), sim_storage m)"
proof -
  have "u32_add a n = a + n" using assms by simp
  then have "storage2_read sim_bus 3 a n \<lparr>storage2_init_done = True, eeprom = sim_eeprom m\<rparr>
      = (Inr (map m [a..<a + n]), \<lparr>storage2_init_done = True, eeprom = sim_eeprom m\<rparr>)"
    using assms by (simp add: storage2_read_def storage2_get_size_def EEPROM_SIZE_def on_eeprom_def sim_eeprom_read)
  then show ?thesis by (simp add: on_modules_def on_fst_def sim_storage_def)
qed

lemma sim_read:
  assumes "a + n \<le> 262144" and "0 < n"
  shows "so_read sim_ops a n (sim_storage m) = (Inr (map m [a..<a + n]), sim_storage m)"
  unfolding badge_storage_def sim.stack.lib_simps using assms sim_module_read[OF assms, of m]
  by (subst sim.stack.read_eq[OF sim_ready]) (auto simp: overwrite_def)

lemma sim_flash_read:
  assumes "a + n \<le> 71680" and "0 < n"
  shows "\<exists>bs. on_modules (on_snd (storage1_read sim_flash a n)) (sim_storage m) = (Inr bs, sim_storage m)"
proof -
  have "u32_add a n = a + n" using assms by simp
  with assms sim.read_bytes_ok[of a n] show ?thesis
    by (auto simp: on_modules_def on_snd_def storage1_read_def storage1_sizes sim_storage_def)
qed

lemma sim_read_any:
  assumes "a + n \<le> 333824"
  shows "\<exists>bs. so_read sim_ops a n (sim_storage m) = (Inr bs, sim_storage m)"
proof (cases "n = 0")
  case True
  with assms show ?thesis by (auto simp: badge_storage_def sim.stack.lib_simps storage_read_def sim.stack.total_size)
next
  case False
  then have n: "0 < n" by simp
  have le: "a + n \<le> sim.stack.n1 + sim.stack.n2" using assms by simp
  obtain bs where "a < 262144 \<Longrightarrow> on_modules (on_fst (storage2_read sim_bus 3 a (min n (262144 - a)))) (sim_storage m) = (Inr bs, sim_storage m)"
    using sim_module_read[of a "min n (262144 - a)" m] n by (cases "a < 262144") auto
  moreover have "max a 262144 - 262144 + (n - (262144 - a)) \<le> 71680" "262144 < a + n \<Longrightarrow> 0 < n - (262144 - a)"
    using n assms by (auto simp: max_def)
  then obtain cs where "262144 < a + n \<Longrightarrow>
      on_modules (on_snd (storage1_read sim_flash (max a 262144 - 262144) (n - (262144 - a)))) (sim_storage m) = (Inr cs, sim_storage m)"
    using sim_flash_read[of "max a 262144 - 262144" "n - (262144 - a)" m] by (cases "262144 < a + n") auto
  ultimately show ?thesis
    unfolding badge_storage_def sim.stack.lib_simps
    by (subst sim.stack.read_eq[OF sim_ready n le]) (cases "a < 262144"; cases "262144 < a + n"; simp)
qed

lemma sim_limits:
  assumes "a + n \<le> 262144" and "0 < n"
  shows "so_limits sim_ops a n (sim_storage m) = Inr (a, a + n - 1)"
  using assms sim.stack.limits_law[OF sim_ready, of a n m]
  by (auto simp: badge_storage_def sim.stack.sustart_def sim.stack.suend_def sim.stack.lib_simps)

lemma sim_get_size: "so_get_size sim_ops = 333824"
  by (simp add: badge_storage_def sim.stack.lib_simps)

lemma sim_flash_store_run:
  obtains s' where "storage1_store sim_flash 4 [1, 2, 3, 4] (snd (modules (sim_storage m))) = (Inr (), s')"
proof -
  define s where "s = snd (modules (sim_storage m))"
  have sc: "erase_scan a p n er (replicate k (- 1)) = (er, replicate k (- 1))" for a p n er k
    by (induction k) (simp_all add: Let_def)
  have "storage1_get_page_number 4 4 = 1" using page_number[of 4 4] by simp
  then have "\<exists>t. storage1_compute_pages_to_erase 4 4 (last_stored_element_addresses s) = (Inr (0, 1), t)"
    by (simp add: s_def sim_storage_def storage1_compute_pages_to_erase_def storage1_sizes page_address sc Let_def)
  then obtain t where t: "storage1_compute_pages_to_erase 4 4 (last_stored_element_addresses s) = (Inr (0, 1), t)" by blast
  have w: "storage1_compute_word_aligned_addresses 4 4 = (0, 4, 0)" "storage1_compute_word_aligned_addresses 0 4 = (0, 4, 0)"
    by (simp_all add: storage1_compute_word_aligned_addresses_def)
  have "storage1_read_uint32_as_uint8 sim_flash 0 4 (flash s) = Inr (map (sim.fbyte (flash s)) [0..<4])"
    using sim.read_bytes_ok[of 0 4 "flash s"] by (simp add: storage1_sizes)
  moreover have "flash s = \<lparr>op_store = False, op_erase = False, err_store = False, err_erase = False, fdev = (\<lambda>_. - 1)\<rparr>"
    by (simp add: s_def sim_storage_def)
  moreover define d :: "byte list" where "d = [1, 2, 3, 4]"
  have "length d = 4" by (simp add: d_def)
  moreover have "length (bytes_to_words d) = 1" "\<And>f. length (bytes_to_words (map f [0..<4])) = 1"
    by (simp_all add: d_def eval_nat_numeral upt_conv_Cons)
  ultimately have "\<exists>s'. storage1_store sim_flash 4 d s = (Inr (), s')"
    using t by (simp add: storage1_store_def storage1_sizes page_address FLASH_PAGE_SIZE_WORDS_def on_flash_def sim_flash_erase
        storage1_store_uint8_as_uint32_def w store_words_def WORDS_BUF_SIZE_def sim_flash_store Let_def)
  then show thesis using that by (auto simp: s_def d_def)
qed

end
