(* ===== verification/Sim_Runs.thy ===== *)
theory Sim_Runs
  imports FS_Layout Sim_Hardware
begin

text \<open>
  Runs of the filesystem on the simulated badge: start, registration of partitions, and a store.
  They show that the hypotheses of the theorems about reachable states can hold.
\<close>

section \<open>The filesystem before the start\<close>

definition sim_partition :: partition where
  "sim_partition = \<lparr>metadata = \<lparr>header_crc = 0, partition_id = 0, partition_size = 0, first_element_len = 0, last_element_address = 0\<rparr>,
     first_element_address = 0, has_first_element = False,
     first_element_header = \<lparr>record_id = 0, previous_len_XOR_cur_len = 0, element_crc = 0\<rparr>,
     latest_element_address = 0, latest_element_record_id = 0, latest_element_len = 0\<rparr>"
definition sim_iterator :: partition_iterator where
  "sim_iterator = \<lparr>cur_element_address = 0, cur_element_len = 0,
     cur_element_header = \<lparr>record_id = 0, previous_len_XOR_cur_len = 0, element_crc = 0\<rparr>, iterator_valid = 0\<rparr>"
definition sim_power_on :: "(sim_chip storage2 \<times> sim_words storage1) storage_state filesystem" where
  "sim_power_on = \<lparr>number_of_partitions = 0, partitions = replicate 20 sim_partition, partition_iterators = replicate 20 sim_iterator,
     next_free_address = 0, storage = sim_storage (\<lambda>_. 0xFF)\<rparr>"
text \<open>The states of a run: after the start, with one partition, with two.\<close>

definition sim_booted :: "(sim_chip storage2 \<times> sim_words storage1) storage_state filesystem" where "sim_booted = sim_power_on\<lparr>next_free_address := SWAP_PAGE_SIZE\<rparr>"
lemma sim_init: "so_init sim_ops (sim_storage m) = (Inr (), sim_storage m)"
  by (simp add: badge_storage_def sim.stack.lib_simps storage_init_def on_modules_def on_fst_def on_snd_def sim_storage_def
   storage2_init_def storage1_init_def STORAGE1_LAST_STORED_ELEMENT_ADDRESSES_SIZE_def fun_upd_twist)
lemma sim_boot: "filesystem_init sim_ops sim_power_on = (Inr (), sim_booted)"
  by (simp add: filesystem_init_def fs_call_def sim_power_on_def sim_init filesystem_reset_def sim_limits SWAP_PAGE_SIZE_def sim_booted_def)




lemma read_back: "map (sim_write a bs m) [a..<a + length bs] = bs"
  by (rule nth_equalityI) (simp_all add: sim_write_def)

lemma sim_store_verified:
  assumes "storage fs = sim_storage m" and "a + length bs \<le> 262144" and "bs \<noteq> []"
  shows "store_verified sim_ops a bs fs = (Inr (), fs\<lparr>storage := sim_storage (sim_write a bs m)\<rparr>)"
  using assms by (simp add: store_verified_def fs_call_def sim_store sim_read read_back)
lemmas run_defs = filesystem_register_partition_def filesystem_compute_available_size_def
     sim_get_size sim_limits MAX_NUMBER_OF_PARTITIONS_def Let_def registered_id_def new_partition_def upd_part_def part_def pid_index_def
     PARTITION_METADATA_SIZE_def filesystem_get_element_header_len_def pid_dynamic_def pid_has_crc_def recover_latest_def
     filesystem_read_element_header_def read_first_header_def fs_call_def sim_read filesystem_get_swap_page_address_of_partition_def
  metadata_matches_def filesystem_deserialize_metadata_def be16_def be32_def SWAP_PAGE_SIZE_def
definition sim_registered :: "(sim_chip storage2 \<times> sim_words storage1) storage_state filesystem" where
  "sim_registered = sim_booted\<lparr>number_of_partitions := 1, next_free_address := 500,
     partitions := (replicate 20 sim_partition)[0 := new_partition 0 400 100 2 sim_partition]\<rparr>"

definition sim_two :: "(sim_chip storage2 \<times> sim_words storage1) storage_state filesystem" where
  "sim_two = sim_registered\<lparr>number_of_partitions := 2, next_free_address := 600,
     partitions := (partitions sim_registered)[1 := new_partition 1 500 100 2 sim_partition]\<rparr>"

lemma sim_register: "filesystem_register_partition sim_ops 100 False False 2 sim_booted = (Inr (0, 100), sim_registered)"
  by (simp add: run_defs sim_booted_def sim_power_on_def sim_registered_def sim_partition_def)

lemma sim_register_two: "filesystem_register_partition sim_ops 100 False False 2 sim_registered = (Inr (1, 100), sim_two)"
  by (simp add: run_defs sim_booted_def sim_power_on_def sim_registered_def sim_two_def sim_partition_def)

lemma attempt_weak_cong: "r = r' \<Longrightarrow> attempt f r k = attempt f r' k" by simp
lemma sim_next: "filesystem_get_next_element_header sim_ops 0 400 1 2 sim_registered = (Inl NRF_ERROR_NOT_FOUND, sim_registered)"
  by (simp add: filesystem_get_next_element_header_def increment_record_id_def filesystem_deserialize_element_header_def header_len_at_def
   run_defs sim_booted_def sim_power_on_def sim_registered_def sim_partition_def cong: attempt_weak_cong)

lemma reg_fields: "part sim_registered 0 = new_partition 0 400 100 2 sim_partition" "storage sim_registered = sim_storage (\<lambda>_. 0xFF)"
  "iter sim_registered 0 = sim_iterator"
  by (simp_all add: sim_registered_def part_def iter_def pid_index_def sim_booted_def sim_power_on_def)

lemma sim_conflict: "filesystem_check_iterator_conflict sim_ops 0 400 2 sim_registered = (Inr (), sim_registered)"
  by (simp add: filesystem_check_iterator_conflict_def filesystem_iterator_check_validity_def reg_fields sim_iterator_def new_partition_def Let_def ITERATOR_VALID_NUMBER_def)

lemma sim_backup:
  assumes "storage fs = sim_storage m" and "a + length bs \<le> SWAP_PAGE_SIZE" and "bs \<noteq> []"
  shows "\<exists>m'. filesystem_backup_first_element_header sim_ops a bs fs = (Inr (), fs\<lparr>storage := sim_storage m'\<rparr>)"
proof -
  have l: "a + length bs \<le> 262144" "u32_add a (length bs) = a + length bs" "length (overwrite (map m [a..<a + length bs]) 0 bs) = length bs"
    using assms(2) by (simp_all add: SWAP_PAGE_SIZE_def overwrite_def)
  have p: "0 < length bs" using assms(3) by simp
  have u: "u32_sub (u32_add (a + length bs - 1) 1) a = length bs" "u32_sub a a = 0" using l(1) p by simp_all
  have o: "overwrite (map m [a..<a + length bs]) 0 bs = bs" by (simp add: overwrite_def)
  show ?thesis
  proof (cases "bs = map m [a..<a + length bs]")
    case True
    with assms l p show ?thesis
      by (auto simp: filesystem_backup_first_element_header_def fs_call_def sim_read simp del: length_greater_0_conv intro!: exI[of _ m])
  next
    case False
    with assms l u p o show ?thesis
      by (auto simp: filesystem_backup_first_element_header_def fs_call_def sim_read sim_limits Let_def sim_store_verified[where m = m]
          simp del: length_greater_0_conv)
  qed
qed

lemma sim_write_element:
  assumes "storage fs = sim_storage m" and "a + 20 + length d \<le> 262144" and "d \<noteq> []"
  shows "\<exists>m'. write_element sim_ops pid a h d fs = (Inr (), fs\<lparr>storage := sim_storage m'\<rparr>)"
proof -
  define tmp where "tmp = (if a = first_element_address (part fs pid)
    then filesystem_serialize_metadata (metadata (part fs pid)) @ filesystem_serialize_element_header pid h
    else filesystem_serialize_element_header pid h)"
  have l: "length tmp \<le> 20" "tmp \<noteq> []"
    by (auto simp: tmp_def filesystem_get_element_header_len_def simp flip: length_greater_0_conv)
  have u: "u32_add a (length tmp) = a + length tmp" using l(1) assms(2) by simp
  show ?thesis
    unfolding write_element_def tmp_def[symmetric] Let_def u
    using assms l by (auto simp: sim_store_verified[where m = m] fs_call_def sim_store)
qed

lemma sim_place:
  assumes "storage fs = sim_storage m" and "a + 20 + length d \<le> 262144" and "d \<noteq> []" and "pid_index pid < 20" and "length d = len"
  obtains m' where "place_element sim_ops pid a rid px d len fs = (Inr (),
    upd_part pid (\<lambda>p. p\<lparr>latest_element_address := a, latest_element_record_id := rid, latest_element_len := len, has_first_element := True\<rparr>)
     ((if a = first_element_address (part fs pid)
       then upd_part pid (\<lambda>p. p\<lparr>metadata := first_element_metadata pid len
              \<lparr>record_id = rid, previous_len_XOR_cur_len = px, element_crc = crc16_compute d None\<rparr> p,
              first_element_header := \<lparr>record_id = rid, previous_len_XOR_cur_len = px, element_crc = crc16_compute d None\<rparr>\<rparr>) fs
       else fs)\<lparr>storage := sim_storage m'\<rparr>))"
proof -
  let ?h = "\<lparr>record_id = rid, previous_len_XOR_cur_len = px, element_crc = crc16_compute d None\<rparr>"
  define fs1 where "fs1 = (if a = first_element_address (part fs pid)
     then upd_part pid (\<lambda>p. p\<lparr>metadata := first_element_metadata pid len ?h p, first_element_header := ?h\<rparr>) fs else fs)"
  have s1: "storage fs1 = sim_storage m" using assms(1) by (simp add: fs1_def)
  have lim: "so_limits sim_ops a (u32_add (filesystem_get_element_header_len pid) len) (storage fs1) = Inr (a, a + (u32_add (filesystem_get_element_header_len pid) len) - 1)"
    unfolding s1 by (rule sim_limits) (use assms in \<open>auto simp: filesystem_get_element_header_len_def\<close>)
  let ?b = "filesystem_serialize_metadata (metadata (part fs1 pid)) @ filesystem_serialize_element_header pid (first_element_header (part fs1 pid))"
  have bl: "length ?b \<le> 20" by (simp add: filesystem_get_element_header_len_def)
  have bk: "filesystem_get_swap_page_address_of_partition pid + length ?b \<le> SWAP_PAGE_SIZE" "?b \<noteq> []"
    using bl assms(4) by (auto simp: filesystem_get_swap_page_address_of_partition_def SWAP_PAGE_SIZE_def simp flip: length_greater_0_conv)
  obtain m1 where b: "backup_if_first_unit sim_ops pid a len fs1 = (Inr (), fs1\<lparr>storage := sim_storage m1\<rparr>)"
  proof (cases "a = first_element_address (part fs1 pid)")
    case True
    with sim_backup[OF s1 bk] lim show thesis by (auto simp: backup_if_first_unit_def intro: that)
  next
    case False
    have "fs1\<lparr>storage := sim_storage m\<rparr> = fs1" using s1 by (cases fs1) simp
    with False lim show thesis by (intro that[of m]) (simp add: backup_if_first_unit_def)
  qed
  obtain m2 where w: "write_element sim_ops pid a ?h d (fs1\<lparr>storage := sim_storage m1\<rparr>) = (Inr (), fs1\<lparr>storage := sim_storage m2\<rparr>)"
    using sim_write_element[of "fs1\<lparr>storage := sim_storage m1\<rparr>" m1 a d pid ?h] assms(2,3) by auto
  show thesis by (rule that[of m2]) (simp add: place_element_def Let_def fs1_def[symmetric] b w)
qed

lemma sim_stored:
  obtains m' where "filesystem_store_element sim_ops 0 [7, 9] 2 sim_registered = (Inr (),
    upd_part 0 (\<lambda>p. p\<lparr>latest_element_address := 400, latest_element_record_id := 1, latest_element_len := 2, has_first_element := True\<rparr>)
     ((upd_part 0 (\<lambda>p. p\<lparr>metadata := first_element_metadata 0 2
              \<lparr>record_id = 1, previous_len_XOR_cur_len = 0, element_crc = crc16_compute [7, 9] None\<rparr> p,
              first_element_header := \<lparr>record_id = 1, previous_len_XOR_cur_len = 0, element_crc = crc16_compute [7, 9] None\<rparr>\<rparr>)
       sim_registered)\<lparr>storage := sim_storage m'\<rparr>))"
proof -
  have f: "first_element_address (part sim_registered 0) = 400" by (simp add: reg_fields new_partition_def)
  obtain m' where p: "place_element sim_ops 0 400 1 0 [7, 9] 2 sim_registered = (Inr (),
    upd_part 0 (\<lambda>p. p\<lparr>latest_element_address := 400, latest_element_record_id := 1, latest_element_len := 2, has_first_element := True\<rparr>)
     ((upd_part 0 (\<lambda>p. p\<lparr>metadata := first_element_metadata 0 2
              \<lparr>record_id = 1, previous_len_XOR_cur_len = 0, element_crc = crc16_compute [7, 9] None\<rparr> p,
              first_element_header := \<lparr>record_id = 1, previous_len_XOR_cur_len = 0, element_crc = crc16_compute [7, 9] None\<rparr>\<rparr>)
       sim_registered)\<lparr>storage := sim_storage m'\<rparr>))"
    by (rule sim_place[OF reg_fields(2), of 400 "[7, 9]" 0 2 1 0]) (simp_all add: f pid_index_def)
  show thesis
    by (rule that[of m'], rule p[THEN sym[THEN trans, THEN sym]])
      (simp add: filesystem_store_element_def reg_fields new_partition_def next_position_def Let_def pid_dynamic_def header_len_at_def
        sim_conflict clear_stale_successor_def sim_next[unfolded One_nat_def] sim_partition_def filesystem_get_element_header_len_def PARTITION_METADATA_SIZE_def pid_has_crc_def)
qed
section \<open>The states of the run are reachable\<close>

lemma sim_reachable_booted: "fs_reachable sim_ops sim_booted"
  by (rule fs_reachable.booted[OF _ sim_boot]) (simp add: fs_arrays_def sim_power_on_def MAX_NUMBER_OF_PARTITIONS_def)

lemma sim_reachable_registered: "fs_reachable sim_ops sim_registered"
proof -
  have "fs_step sim_ops sim_booted (snd (filesystem_register_partition sim_ops 100 False False 2 sim_booted))"
    by (rule fs_step.step_register) simp
  with sim_reachable_booted show ?thesis unfolding sim_register snd_conv by (rule fs_reachable.called)
qed

lemma sim_reachable_two: "fs_reachable sim_ops sim_two"
proof -
  have "fs_step sim_ops sim_registered (snd (filesystem_register_partition sim_ops 100 False False 2 sim_registered))"
    by (rule fs_step.step_register) simp
  with sim_reachable_registered show ?thesis unfolding sim_register_two snd_conv by (rule fs_reachable.called)
qed

lemma sim_registered_in: "registered_in sim_registered 0"
  by (simp add: registered_in_def reg_fields new_partition_def) (simp add: sim_registered_def pid_index_def)

section \<open>Reads of the simulated badge never fail\<close>

lemma sim_reads_succeed: "reads_succeed sim_ops (sim_storage m)"
proof (coinduction arbitrary: m)
  case reads_succeed
  then show ?case using sim_read_any by (fastforce simp: sim_get_size)
qed

end
