(* ===== verification/Badge_FS.thy ===== *)
theory Badge_FS
  imports Sim_Runs
begin

text \<open>
  The filesystem on the storage of the badge: the theorems about \<^verbatim>\<open>incl/filesystem_lib.c\<close> on top of
  \<^verbatim>\<open>incl/storage_lib.c\<close>, \<^verbatim>\<open>incl/storage1_lib.c\<close>, \<^verbatim>\<open>incl/storage2_lib.c\<close> and the two drivers, for every
  flash library and EEPROM that behave as documented.
\<close>

section \<open>The bytes of the storage\<close>

text \<open>The byte behind a storage address: in the EEPROM, or behind it in a word of the flash.\<close>

definition badge_byte :: "('e \<Rightarrow> nat \<Rightarrow> byte) \<Rightarrow> 'd fstorage \<Rightarrow> ('e storage2 \<times> 'd storage1) storage_state \<Rightarrow> nat \<Rightarrow> byte" where
  "badge_byte mem F st x =
     (if x < EEPROM_SIZE then mem (bus (eeprom (fst (modules st)))) x
      else word_byte (fsto_word F (fdev (flash (snd (modules st)))) ((x - EEPROM_SIZE) div 4)) ((x - EEPROM_SIZE) mod 4))"

text \<open>
  Every end address the flash module remembers lies in the flash, and the rest of its page is
  blank.
\<close>

definition blank_behind :: "'d fstorage \<Rightarrow> 'd storage1 \<Rightarrow> bool" where
  "blank_behind F s \<longleftrightarrow> (\<forall>l \<in> set (last_stored_element_addresses s). l \<noteq> - 1 \<longrightarrow> 0 \<le> l \<and> l < int storage1_get_size
     \<and> (\<forall>x. l < int x \<and> x div storage1_get_unit_size = nat l div storage1_get_unit_size \<longrightarrow>
          word_byte (fsto_word F (fdev (flash s)) (x div 4)) (x mod 4) = 0xFF))"

context badge_hardware
begin

lemma scont_byte: "stack.scont st x = badge_byte mem F st x"
  by (simp add: stack.scont_def badge_byte_def s2byte_def ebyte_def s1byte_def fbyte_def EEPROM_SIZE_def)

lemma table_blank_behind: "table_ok s = blank_behind F s"
  by (simp add: table_ok_def blank_behind_def fbyte_def storage1_sizes)

lemma swap_end_eq: "stack.swap_end = SWAP_PAGE_SIZE"
  by (simp add: stack.swap_end_def stack.suend_def SWAP_PAGE_SIZE_def)

lemma ops_eq: "badge_storage F B polls = storage_lib stack.ms"
  by (simp add: badge_storage_def)

lemma size_eq: "so_get_size (badge_storage F B polls) = 333824" "SWAP_PAGE_SIZE \<le> so_get_size (badge_storage F B polls)"
  by (simp_all add: ops_eq stack.lib_simps SWAP_PAGE_SIZE_def)

lemma reachable_layout: "fs_reachable (badge_storage F B polls) fs \<Longrightarrow> stack.fs_layout fs"
  using stack.layout_reachable size_eq(2) by (simp add: ops_eq)

lemma partition_places:
  assumes "fs_reachable (badge_storage F B polls) fs" and "i < j" and "j < number_of_partitions fs"
  shows "SWAP_PAGE_SIZE \<le> first_element_address (partitions fs ! i)
    \<and> part_end (partitions fs ! i) \<le> first_element_address (partitions fs ! j) \<and> part_end (partitions fs ! j) \<le> 333824"
proof -
  note lay = reachable_layout[OF assms(1)]
  have sz: "so_get_size (storage_lib stack.ms) = 333824" using size_eq(1) by (simp add: ops_eq)
  have "i < number_of_partitions fs" using assms by simp
  with lay assms(2,3) have "stack.slot_ok i (partitions fs ! i)" "part_end (partitions fs ! j) \<le> next_free_address fs"
    "next_free_address fs \<le> 333824" "part_end (partitions fs ! i) \<le> first_element_address (partitions fs ! j)"
    unfolding stack.fs_layout_def sz by blast+
  then show ?thesis by (auto simp: stack.slot_ok_def stack.well_placed_def Let_def swap_end_eq)
qed

lemma confined_bytes:
  assumes "stack.confined pid fs fs'" and "fs_reachable (badge_storage F B polls) fs" and "registered_in fs pid"
    and "SWAP_PAGE_SIZE \<le> x" and "x \<notin> part_range (part fs pid)"
  shows "badge_byte mem F (storage fs') x = badge_byte mem F (storage fs) x"
  using assms stack.layout_ready(1)[OF reachable_layout[OF assms(2)] assms(3)]
  by (simp add: stack.confined_def scont_byte swap_end_eq)

lemma step_confined:
  assumes "fs_reachable (badge_storage F B polls) fs" and "registered_in fs pid" and "element_len < 65536"
    and "fs' \<in> {snd (filesystem_store_element (badge_storage F B polls) pid element_data element_len fs),
      snd (filesystem_clear_partition (badge_storage F B polls) pid fs), snd (filesystem_iterator_init (badge_storage F B polls) pid fs),
      snd (filesystem_iterator_next (badge_storage F B polls) pid fs), snd (filesystem_iterator_previous (badge_storage F B polls) pid fs),
      snd (filesystem_iterator_read_element (badge_storage F B polls) pid fs)}"
  shows "stack.confined pid fs fs'"
proof -
  note rd = stack.layout_ready[OF reachable_layout[OF assms(1)] assms(2)]
  have pid: "partition_id (metadata (part fs pid)) = pid" using assms(2) by (simp add: registered_in_def)
  from assms(4) show ?thesis unfolding ops_eq
    using stack.confined_store_element[OF rd(1,2) assms(3) pid] stack.confined_clear_partition[OF rd(1)]
      stack.confined_iterator_init[OF rd(1)] stack.confined_iterator_next[OF rd(1)] stack.confined_iterator_previous[OF rd(1)]
      stack.confined_iterator_read[OF rd(1)] by auto
qed

lemma clean_blank:
  "fs_reachable (badge_storage F B polls) fs \<Longrightarrow> stack.sclean (storage fs) \<longleftrightarrow> blank_behind F (snd (modules (storage fs)))"
  using reachable_layout[of fs] by (simp add: stack.sclean_def stack.fs_layout_def table_blank_behind)

lemma store_and_read:
  assumes re: "fs_reachable (badge_storage F B polls) fs" and reg: "registered_in fs pid"
    and bl: "blank_behind F (snd (modules (storage fs)))"
    and el: "element_len < 65536" "element_len \<le> length element_data"
    and len: "len = (if pid_dynamic pid then element_len else first_element_len (metadata (part fs pid)))" "len \<le> length element_data"
    and st: "filesystem_store_element (badge_storage F B polls) pid element_data element_len fs = (Inr (), fs1)"
  shows "blank_behind F (snd (modules (storage fs1)))"
    and "reads_succeed (badge_storage F B polls) (storage fs1) \<Longrightarrow>
      \<exists>fs2 fs3 rid. filesystem_iterator_init (badge_storage F B polls) pid fs1 = (Inr (), fs2)
        \<and> filesystem_iterator_read_element (badge_storage F B polls) pid fs2 = (Inr (take len element_data, len, rid), fs3)
        \<and> rid = (if has_first_element (part fs pid) then increment_record_id (latest_element_record_id (part fs pid))
                 else latest_element_record_id (part fs pid))"
proof -
  note lay = reachable_layout[OF re]
  note rd = stack.layout_ready[OF lay reg]
  have pid: "partition_id (metadata (part fs pid)) = pid" using reg by (simp add: registered_in_def)
  have cl: "stack.sclean (storage fs)" using clean_blank[OF re] bl by simp
  have sl: "\<not> pid_dynamic pid \<longrightarrow> first_element_len (metadata (part fs pid)) \<le> length element_data" using len by auto
  obtain h where w: "stack.written pid fs1 h (take len element_data)"
    and rid: "record_id h = (if has_first_element (part fs pid) then increment_record_id (latest_element_record_id (part fs pid))
                 else latest_element_record_id (part fs pid))"
    using stack.store_element_written[OF st[unfolded ops_eq] cl rd(1,2) el sl pid rd(3)] len(1) by auto
  have c: "stack.confined pid fs fs1"
    using step_confined[OF re reg el(1), of fs1 element_data] st by simp
  have rd1: "stack.fs_ready pid fs1" by (rule stack.confined_ready[OF c rd(1)])
  show "blank_behind F (snd (modules (storage fs1)))"
    using w by (simp add: stack.written_def Let_def stack.sclean_def table_blank_behind)
  assume live: "reads_succeed (badge_storage F B polls) (storage fs1)"
  obtain r2 fs2 where i: "filesystem_iterator_init (badge_storage F B polls) pid fs1 = (r2, fs2)" by fastforce
  obtain r3 fs3 where r: "filesystem_iterator_read_element (badge_storage F B polls) pid fs2 = (r3, fs3)" by fastforce
  have 2: "r2 = Inr ()" "stack.iterator_on pid fs2 (latest_element_address (part fs1 pid)) h (length (take len element_data))"
    "stack.fs_ready pid fs2" "stack.element_ok pid fs2 (latest_element_address (part fs1 pid)) h (take len element_data)"
    "part fs2 pid = part fs1 pid" "reads_succeed (badge_storage F B polls) (storage fs2)"
    using stack.iterator_init_latest[OF rd1 w i[unfolded ops_eq]] live by (auto simp: ops_eq)
  have hf: "has_first_element (part fs2 pid)" using w 2(5) by (simp add: stack.written_def Let_def)
  have "r3 = Inr (take len element_data, len, record_id h)"
    using stack.iterator_read_on[OF 2(3) hf 2(2,4) r[unfolded ops_eq]] 2(6) len(2) by (auto simp: ops_eq)
  with i r 2(1) rid show "\<exists>fs2 fs3 rid. filesystem_iterator_init (badge_storage F B polls) pid fs1 = (Inr (), fs2)
        \<and> filesystem_iterator_read_element (badge_storage F B polls) pid fs2 = (Inr (take len element_data, len, rid), fs3)
        \<and> rid = (if has_first_element (part fs pid) then increment_record_id (latest_element_record_id (part fs pid))
                 else latest_element_record_id (part fs pid))" by auto
qed

lemma boot_facts:
  assumes "fs_arrays fs0" and "filesystem_init (badge_storage F B polls) fs0 = (Inr (), fs)"
  shows "blank_behind F (snd (modules (storage fs))) \<and> badge_byte mem F (storage fs) = badge_byte mem F (storage fs0)"
  using stack.layout_init[OF assms(2)[unfolded ops_eq] size_eq(2)[unfolded ops_eq]] assms(1)
  by (auto simp: fs_arrays_def stack.sclean_def table_blank_behind fun_eq_iff scont_byte)

lemma storage_store_read:
  assumes "storage_sizes st 0 = 262144" and "storage_sizes st 1 = 71680" and "blank_behind F (snd (modules st))"
    and "a + length d < 4294967296" and "so_store (badge_storage F B polls) a d st = (Inr (), st1)"
    and "so_read (badge_storage F B polls) a (length d) st1 = (Inr bs, st2)"
  shows "bs = d \<and> a + length d \<le> 333824 \<and> (\<forall>x < a. badge_byte mem F st2 x = badge_byte mem F st x)"
proof -
  have cl: "stack.sclean st" using assms(1-3) by (simp add: stack.sclean_def stack.sready_def table_blank_behind)
  note s = stack.store_law[OF cl assms(4) assms(5)[unfolded ops_eq]]
  then have rd: "stack.sready st1" by (simp add: stack.sclean_def)
  note r = stack.read_law[OF rd assms(4) assms(6)[unfolded ops_eq]] and f = stack.read_frame[OF rd assms(6)[unfolded ops_eq]]
  have "so_get_size (storage_lib stack.ms) = 333824" using size_eq(1) by (simp add: ops_eq)
  with s r f show ?thesis by (auto simp: scont_byte[symmetric])
qed

end

section \<open>Theorems on the badge\<close>

text \<open>C11: in every reachable state the registered partitions lie one behind the other, behind the
  swap page and inside the storage: no two of them overlap.\<close>

theorem partitions_never_overlap:
  assumes "badge_hardware F B mem idle wel" and "fs_reachable (badge_storage F B polls) fs"
    and "i < j" and "j < number_of_partitions fs"
  shows "SWAP_PAGE_SIZE \<le> first_element_address (partitions fs ! i)
    \<and> part_end (partitions fs ! i) \<le> first_element_address (partitions fs ! j) \<and> part_end (partitions fs ! j) \<le> 333824"
  by (rule badge_hardware.partition_places[OF assms])

theorem partitions_never_overlap_witness:
  "part_end (partitions sim_two ! 0) \<le> first_element_address (partitions sim_two ! 1)"
  using partitions_never_overlap[OF sim.badge_hardware_axioms sim_reachable_two, of 0 1] by (simp add: sim_two_def)

text \<open>C10: whatever a call on a partition returns, it changes no byte of the storage outside the
  partition and the swap page.\<close>

theorem calls_stay_in_partition:
  assumes "badge_hardware F B mem idle wel" and "fs_reachable (badge_storage F B polls) fs" and "registered_in fs pid"
    and "element_len < 65536" and "SWAP_PAGE_SIZE \<le> x" and "x \<notin> part_range (part fs pid)"
    and "fs' \<in> {snd (filesystem_store_element (badge_storage F B polls) pid element_data element_len fs),
      snd (filesystem_clear_partition (badge_storage F B polls) pid fs), snd (filesystem_iterator_init (badge_storage F B polls) pid fs),
      snd (filesystem_iterator_next (badge_storage F B polls) pid fs), snd (filesystem_iterator_previous (badge_storage F B polls) pid fs),
      snd (filesystem_iterator_read_element (badge_storage F B polls) pid fs)}"
  shows "badge_byte mem F (storage fs') x = badge_byte mem F (storage fs) x"
  by (rule badge_hardware.confined_bytes[OF assms(1) badge_hardware.step_confined[OF assms(1-4,7)] assms(2,3,5,6)])

theorem calls_stay_in_partition_witness:
  "badge_byte cells sim_flash (storage (snd (filesystem_store_element sim_ops 0 [7, 9] 2 sim_registered))) 600 = 0xFF"
proof -
  have "badge_byte cells sim_flash (storage (snd (filesystem_store_element sim_ops 0 [7, 9] 2 sim_registered))) 600
      = badge_byte cells sim_flash (storage sim_registered) 600"
    by (rule calls_stay_in_partition[OF sim.badge_hardware_axioms sim_reachable_registered sim_registered_in, of 2 600 _ "[7, 9]"])
      (simp_all add: SWAP_PAGE_SIZE_def part_range_def reg_fields new_partition_def)
  then show ?thesis by (simp add: badge_byte_def reg_fields sim_storage_def sim_eeprom_def EEPROM_SIZE_def)
qed

text \<open>C1: an element that was stored is what the iterator returns next, with its data, its length
  and the record-id behind that of the element before it, as long as reads succeed.\<close>

theorem stored_element_read_back:
  assumes "badge_hardware F B mem idle wel" and "fs_reachable (badge_storage F B polls) fs" and "registered_in fs pid"
    and "blank_behind F (snd (modules (storage fs)))" and "element_len < 65536" and "element_len \<le> length element_data"
    and "len = (if pid_dynamic pid then element_len else first_element_len (metadata (part fs pid)))" and "len \<le> length element_data"
    and "filesystem_store_element (badge_storage F B polls) pid element_data element_len fs = (Inr (), fs1)"
    and "reads_succeed (badge_storage F B polls) (storage fs1)"
  shows "\<exists>fs2 fs3 rid. filesystem_iterator_init (badge_storage F B polls) pid fs1 = (Inr (), fs2)
    \<and> filesystem_iterator_read_element (badge_storage F B polls) pid fs2 = (Inr (take len element_data, len, rid), fs3)
    \<and> rid = (if has_first_element (part fs pid) then increment_record_id (latest_element_record_id (part fs pid))
             else latest_element_record_id (part fs pid))"
  by (rule badge_hardware.store_and_read(2)[OF assms])

theorem stored_element_read_back_witness:
  "\<exists>fs1 fs2 fs3. filesystem_store_element sim_ops 0 [7, 9] 2 sim_registered = (Inr (), fs1)
    \<and> filesystem_iterator_init sim_ops 0 fs1 = (Inr (), fs2)
    \<and> filesystem_iterator_read_element sim_ops 0 fs2 = (Inr ([7, 9], 2, 1), fs3)"
proof -
  obtain fs1 m where st: "filesystem_store_element sim_ops 0 [7, 9] 2 sim_registered = (Inr (), fs1)" "storage fs1 = sim_storage m"
    by (rule sim_stored) simp
  have "\<exists>fs2 fs3 rid. filesystem_iterator_init sim_ops 0 fs1 = (Inr (), fs2)
    \<and> filesystem_iterator_read_element sim_ops 0 fs2 = (Inr (take 2 [7, 9], 2, rid), fs3)
    \<and> rid = (if has_first_element (part sim_registered 0) then increment_record_id (latest_element_record_id (part sim_registered 0))
             else latest_element_record_id (part sim_registered 0))"
    by (rule stored_element_read_back[OF sim.badge_hardware_axioms sim_reachable_registered sim_registered_in _ _ _ _ _ st(1)
          sim_reads_succeed[of m, folded st(2)]])
      (simp_all add: blank_behind_def reg_fields sim_storage_def pid_dynamic_def new_partition_def)
  with st(1) show ?thesis by (auto simp: reg_fields new_partition_def)
qed

text \<open>C21: starting the filesystem and every successful store leave the table of the flash module
  consistent, and starting it changes no byte of the storage.\<close>

theorem flash_table_stays_consistent:
  assumes hw: "badge_hardware F B mem idle wel" and "fs_arrays fs0" and "filesystem_init (badge_storage F B polls) fs0 = (Inr (), fs)"
    and "fs_reachable (badge_storage F B polls) fs1" and "registered_in fs1 pid" and "blank_behind F (snd (modules (storage fs1)))"
    and "element_len < 65536" and "element_len \<le> length element_data"
    and "pid_dynamic pid \<or> first_element_len (metadata (part fs1 pid)) \<le> length element_data"
    and "filesystem_store_element (badge_storage F B polls) pid element_data element_len fs1 = (Inr (), fs2)"
  shows "blank_behind F (snd (modules (storage fs))) \<and> badge_byte mem F (storage fs) = badge_byte mem F (storage fs0)
    \<and> blank_behind F (snd (modules (storage fs2)))"
proof (intro conjI)
  note i = badge_hardware.boot_facts[OF hw assms(2,3)]
  show "blank_behind F (snd (modules (storage fs)))" "badge_byte mem F (storage fs) = badge_byte mem F (storage fs0)"
    using i by auto
  show "blank_behind F (snd (modules (storage fs2)))"
    by (rule badge_hardware.store_and_read(1)[OF hw assms(4-8) refl _ assms(10)]) (use assms(8,9) in auto)
qed

theorem flash_table_stays_consistent_witness:
  "blank_behind sim_flash (snd (modules (storage sim_booted)))
    \<and> blank_behind sim_flash (snd (modules (storage (snd (filesystem_store_element sim_ops 0 [7, 9] 2 sim_registered)))))"
proof -
  obtain fs1 where st: "filesystem_store_element sim_ops 0 [7, 9] 2 sim_registered = (Inr (), fs1)" by (rule sim_stored)
  have "blank_behind sim_flash (snd (modules (storage sim_booted)))
      \<and> badge_byte cells sim_flash (storage sim_booted) = badge_byte cells sim_flash (storage sim_power_on)
      \<and> blank_behind sim_flash (snd (modules (storage fs1)))"
    by (rule flash_table_stays_consistent[OF sim.badge_hardware_axioms _ sim_boot sim_reachable_registered sim_registered_in _ _ _ _ st])
      (simp_all add: fs_arrays_def sim_power_on_def MAX_NUMBER_OF_PARTITIONS_def blank_behind_def reg_fields sim_storage_def new_partition_def)
  with st show ?thesis by simp
qed

text \<open>C22: data stored through the storage module, across the border of the two memories or not, are
  read back, and every byte in front of them is kept.\<close>

theorem storage_reads_back:
  assumes "badge_hardware F B mem idle wel" and "storage_sizes st 0 = 262144" and "storage_sizes st 1 = 71680"
    and "blank_behind F (snd (modules st))" and "a + length d < 4294967296"
    and "so_store (badge_storage F B polls) a d st = (Inr (), st1)"
    and "so_read (badge_storage F B polls) a (length d) st1 = (Inr bs, st2)"
  shows "bs = d \<and> a + length d \<le> 333824 \<and> (\<forall>x < a. badge_byte mem F st2 x = badge_byte mem F st x)"
  by (rule badge_hardware.storage_store_read[OF assms])

theorem storage_reads_back_witness:
  "so_read sim_ops 5 3 (snd (so_store sim_ops 5 [1, 2, 3] (sim_storage (\<lambda>_. 0)))) = (Inr [1, 2, 3], sim_storage (sim_write 5 [1, 2, 3] (\<lambda>_. 0)))"
proof -
  have r: "so_store sim_ops 5 [1, 2, 3] (sim_storage (\<lambda>_. 0)) = (Inr (), sim_storage (sim_write 5 [1, 2, 3] (\<lambda>_. 0)))"
    by (rule sim_store) simp_all
  obtain bs where s: "so_read sim_ops 5 (length [1, 2, 3 :: byte]) (sim_storage (sim_write 5 [1, 2, 3] (\<lambda>_. 0)))
      = (Inr bs, sim_storage (sim_write 5 [1, 2, 3] (\<lambda>_. 0)))"
    using sim_read_any[of 5 "length [1, 2, 3 :: byte]"] by auto
  have "bs = [1, 2, 3] \<and> 5 + length [1, 2, 3 :: byte] \<le> 333824 \<and> (\<forall>x < 5.
      badge_byte cells sim_flash (sim_storage (sim_write 5 [1, 2, 3] (\<lambda>_. 0))) x = badge_byte cells sim_flash (sim_storage (\<lambda>_. 0)) x)"
    by (rule storage_reads_back[OF sim.badge_hardware_axioms _ _ _ _ r s]) (simp_all add: sim_storage_def blank_behind_def)
  with r s show ?thesis by (simp add: numeral_3_eq_3)
qed

text \<open>C23: a successful store into the flash keeps the bytes in front of the data on its first page,
  writes the data, leaves the rest of its last page blank and touches no other page; the table
  of blank page ends stays true.\<close>

theorem flash_store_effect:
  assumes "fstorage_laws F" and "blank_behind F s" and "d \<noteq> []" and "a + length d \<le> storage1_get_size"
    and "storage1_store F a d s = (Inr (), s')"
  shows "blank_behind F s' \<and> (\<forall>x. word_byte (fsto_word F (fdev (flash s')) (x div 4)) (x mod 4) =
    (if a div storage1_get_unit_size \<le> x div storage1_get_unit_size
        \<and> x div storage1_get_unit_size \<le> (a + length d - 1) div storage1_get_unit_size \<and> a \<le> x
     then if x < a + length d then d ! (x - a) else 0xFF
     else word_byte (fsto_word F (fdev (flash s)) (x div 4)) (x mod 4)))"
proof -
  have t: "fstorage_laws.table_ok F s1 = blank_behind F s1" for s1
    by (simp add: fstorage_laws.table_ok_def[OF assms(1)] fstorage_laws.fbyte_def[OF assms(1)] blank_behind_def storage1_sizes)
  note e = fstorage_laws.storage1_store_done[OF assms(1,5) _ assms(3)] 
  show ?thesis using e assms(2,4)
    by (auto simp: t storage1_sizes fstorage_laws.s1byte_def[OF assms(1)] fstorage_laws.fbyte_def[OF assms(1)])
qed

theorem flash_store_effect_witness:
  "\<exists>s'. storage1_store sim_flash 4 [1, 2, 3, 4] (snd (modules (sim_storage (\<lambda>_. 0)))) = (Inr (), s')
    \<and> blank_behind sim_flash s' \<and> word_byte (fsto_word sim_flash (fdev (flash s')) (6 div 4)) (6 mod 4) = 3"
proof -
  define s where "s = snd (modules (sim_storage (\<lambda>_. 0)))"
  obtain s' where r: "storage1_store sim_flash 4 [1, 2, 3, 4] s = (Inr (), s')" unfolding s_def by (rule sim_flash_store_run)
  have "blank_behind sim_flash s" by (simp add: s_def sim_storage_def blank_behind_def)
  note e = flash_store_effect[OF sim_flash_laws this _ _ r, unfolded storage1_sizes]
  have "blank_behind sim_flash s'" "word_byte (fsto_word sim_flash (fdev (flash s')) (6 div 4)) (6 mod 4) = 3"
    using e[THEN conjunct1] e[THEN conjunct2, rule_format, of 6] by simp_all
  with r show ?thesis by (auto simp: s_def)
qed

text \<open>C24: bytes the EEPROM driver stored are the bytes it reads, page by page, and a store changes
  no byte outside its range.\<close>

theorem eeprom_reads_back:
  assumes "eeprom_chip B mem idle wel" and "a + length d \<le> EEPROM_SIZE" and "eeprom_store B polls a d e = (Inr (), e1)"
    and "eeprom_read B polls a (length d) e1 = (Inr bs, e2)"
  shows "bs = d \<and> (\<forall>x. x < a \<or> a + length d \<le> x \<longrightarrow> mem (bus e2) x = mem (bus e) x)"
proof -
  note r = eeprom_chip.eeprom_read_result[OF assms(1,4,2)] and s = eeprom_chip.eeprom_store_done[OF assms(1,3,2)]
    and f = eeprom_chip.eeprom_store_frame[OF assms(1,3,2)]
  have "bs = d" by (rule nth_equalityI) (use r s in auto)
  with r f show ?thesis by (auto simp: eeprom_chip.ebyte_def[OF assms(1)])
qed

theorem eeprom_reads_back_witness:
  "eeprom_read sim_bus 3 126 4 (snd (eeprom_store sim_bus 3 126 [1, 2, 3, 4] (sim_eeprom (\<lambda>_. 0)))) =
     (Inr [1, 2, 3, 4], sim_eeprom (sim_write 126 [1, 2, 3, 4] (\<lambda>_. 0)))"
proof -
  have s: "eeprom_store sim_bus 3 126 [1, 2, 3, 4] (sim_eeprom (\<lambda>_. 0)) = (Inr (), sim_eeprom (sim_write 126 [1, 2, 3, 4] (\<lambda>_. 0)))"
    by (rule sim_eeprom_store) simp
  obtain bs where r: "eeprom_read sim_bus 3 126 (length [1, 2, 3, 4 :: byte]) (sim_eeprom (sim_write 126 [1, 2, 3, 4] (\<lambda>_. 0))) =
      (Inr bs, sim_eeprom (sim_write 126 [1, 2, 3, 4] (\<lambda>_. 0)))"
    using sim_eeprom_read[of 126 "length [1, 2, 3, 4 :: byte]"] by auto
  have "bs = [1, 2, 3, 4] \<and> (\<forall>x. x < 126 \<or> 126 + length [1, 2, 3, 4 :: byte] \<le> x \<longrightarrow>
      cells (bus (sim_eeprom (sim_write 126 [1, 2, 3, 4] (\<lambda>_. 0)))) x = cells (bus (sim_eeprom (\<lambda>_. 0))) x)"
    by (rule eeprom_reads_back[OF sim_bus_laws _ s r]) (simp add: EEPROM_SIZE_def)
  with s r show ?thesis by (simp add: eval_nat_numeral)
qed

end
