(* ===== verification/FS_Registered.thy ===== *)
theory FS_Registered
  imports FS_Layout
begin

text \<open>
  Partition-ids stay valid: a partition that was registered keeps its id, its extent and, if its
  elements have a fixed length, that length, whatever calls follow.
\<close>

text \<open>A registered partition whose elements have a fixed length \<open>n\<close>, or a dynamic one.\<close>

definition holds_elements :: "'s filesystem \<Rightarrow> nat \<Rightarrow> nat \<Rightarrow> bool" where
  "holds_elements fs pid n \<longleftrightarrow> registered_in fs pid \<and> (\<not> pid_dynamic pid \<longrightarrow> first_element_len (metadata (part fs pid)) = n)"

context storage_device
begin

lemma step_cases:
  assumes "fs_step so fs fs'" and lay: "fs_layout fs"
  obtains (register) required is_dynamic enable_crc element_len where
      "element_len < 65536" "fs' = snd (filesystem_register_partition so required is_dynamic enable_crc element_len fs)"
    | (call) pid where "registered_in fs pid" "confined pid fs fs'"
  using assms(1)
proof (cases rule: fs_step.cases)
  case (step_store pid element_len element_data)
  note rd = layout_ready[OF lay step_store(2)]
  have "partition_id (metadata (part fs pid)) = pid" using step_store(2) by (simp add: registered_in_def)
  then show thesis using call step_store confined_store_element[OF rd(1,2)] by simp
qed (use register call layout_ready(1)[OF lay] confined_clear_partition confined_iterator_init confined_iterator_next
      confined_iterator_previous confined_iterator_read confined_upd_iter in \<open>auto simp: filesystem_iterator_invalidate_def\<close>)

text \<open>What a registration does with the number of partitions and the length of the elements.\<close>

lemma register_shape:
  assumes lay: "fs_layout fs" and el: "element_len < 65536"
    and r: "filesystem_register_partition so required is_dynamic enable_crc element_len fs = (res, fs')"
  shows "number_of_partitions fs \<le> number_of_partitions fs'"
    and "res = Inr (q, granted) \<Longrightarrow> \<not> is_dynamic \<Longrightarrow> first_element_len (metadata (part fs' q)) = element_len"
proof -
  let ?n = "number_of_partitions fs" and ?el = "if is_dynamic then 0 else element_len" and ?s = "next_free_address fs"
  define pid where "pid = registered_id ?n is_dynamic enable_crc"
  have "?n \<le> number_of_partitions fs' \<and> (\<forall>q granted. res = Inr (q, granted) \<longrightarrow> \<not> is_dynamic \<longrightarrow> first_element_len (metadata (part fs' q)) = element_len)"
  proof (cases "?n < MAX_NUMBER_OF_PARTITIONS \<and> (is_dynamic \<or> element_len \<noteq> 0)
      \<and> (\<exists>v. filesystem_compute_available_size so ?s required fs = Inr v)")
    case False
    with r show ?thesis by (auto simp: filesystem_register_partition_def Let_def split: sum.splits if_splits)
  next
    case True
    then obtain available where n: "?n < MAX_NUMBER_OF_PARTITIONS" and av: "filesystem_compute_available_size so ?s required fs = Inr available"
      and st: "is_dynamic \<or> element_len \<noteq> 0" by auto
    note pf = registered_id_facts[OF n, of is_dynamic enable_crc, folded pid_def]
    define u where "u = upd_part pid (new_partition pid ?s available ?el) fs"
    show ?thesis
    proof (cases "available < PARTITION_METADATA_SIZE + filesystem_get_element_header_len pid + ?el")
      case True
      with r n av st show ?thesis by (auto simp: filesystem_register_partition_def Let_def pid_def upd_part_def)
    next
      case False
      have np: "fs_ready pid u" "cursor_ok (part u pid)" "first_element_address (part u pid) = ?s"
        using new_partition_placed[OF lay n av _ _ pf(1), of ?el] False el by (simp_all add: u_def)
      have len: "first_element_len (metadata (part u pid)) = ?el"
        using lay n pf(1) by (simp add: u_def part_upd_part new_partition_def fs_layout_def)
      obtain e fs2 where rc: "recover_latest so pid ?s u = (e, fs2)" by fastforce
      have r': "(res, fs') = attempt id (recover_latest so pid ?s u) (\<lambda>_ fs1. (Inr (pid, available),
          fs1\<lparr>next_free_address := u32_add ?s available, number_of_partitions := number_of_partitions fs1 + 1\<rparr>))"
        using False n av st r by (auto simp: filesystem_register_partition_def Let_def u_def pid_def)
      have c: "confined pid u fs2" using recover_confined[OF np(1,2) np(3)[symmetric] rc] by simp
      have "number_of_partitions fs2 = ?n" using c by (simp add: confined_def u_def upd_part_def)
      moreover have "\<not> is_dynamic \<longrightarrow> first_element_len (metadata (part fs2 pid)) = element_len"
        using confined_extent[OF c] len pf(2) by (simp add: same_extent_def)
      ultimately show ?thesis using r' rc by (cases e) (auto simp: part_def)
    qed
  qed
  then show "number_of_partitions fs \<le> number_of_partitions fs'"
    and "res = Inr (q, granted) \<Longrightarrow> \<not> is_dynamic \<Longrightarrow> first_element_len (metadata (part fs' q)) = element_len" by auto
qed

lemma register_holds:
  assumes lay: "fs_layout fs" and el: "element_len < 65536"
    and r: "filesystem_register_partition so required is_dynamic enable_crc element_len fs = (Inr (q, granted), fs')"
  shows "holds_elements fs' q element_len \<and> pid_dynamic q = is_dynamic \<and> pid_has_crc q = enable_crc \<and> pid_index q = number_of_partitions fs"
proof -
  have n: "number_of_partitions fs < MAX_NUMBER_OF_PARTITIONS"
    using r by (auto simp: filesystem_register_partition_def split: if_splits)
  have post: "q = registered_id (number_of_partitions fs) is_dynamic enable_crc \<and> registered_in fs' q"
    using register_result[OF lay el, of is_dynamic enable_crc required] r by (auto simp: registration_post_def Let_def)
  then show ?thesis
    using registered_id_facts[OF n, of is_dynamic enable_crc] register_shape(2)[OF lay el r] by (auto simp: holds_elements_def)
qed

lemma registered_kept:
  assumes "fs_step so fs fs'" and lay: "fs_layout fs" and h: "holds_elements fs pid n"
  shows "holds_elements fs' pid n"
  using assms(1,2)
proof (cases rule: step_cases)
  case (register required is_dynamic enable_crc element_len)
  let ?r = "filesystem_register_partition so required is_dynamic enable_crc element_len fs"
  have i: "pid_index pid < number_of_partitions fs" using h by (simp add: holds_elements_def registered_in_def)
  have post: "partitions fs' ! pid_index pid = partitions fs ! pid_index pid"
    using register_result[OF lay register(1), of is_dynamic enable_crc required] i register(2)
    by (simp add: registration_post_def Let_def)
  moreover have "number_of_partitions fs \<le> number_of_partitions fs'"
    using register_shape(1)[OF lay register(1), of required is_dynamic enable_crc "fst ?r" fs'] register(2) by simp
  ultimately show ?thesis using h i by (simp add: holds_elements_def registered_in_def part_def)
next
  case (call q)
  show ?thesis
  proof (cases "pid_index q = pid_index pid")
    case True
    then have "q = pid" using h call(1) by (simp add: holds_elements_def registered_in_def part_def)
    then show ?thesis using h confined_extent[OF call(2)] call(2)
      by (auto simp: holds_elements_def registered_in_def same_extent_def confined_def)
  next
    case False
    then have "part fs' pid = part fs pid" using call(2) by (simp add: confined_def)
    then show ?thesis using h call(2) by (simp add: holds_elements_def registered_in_def confined_def)
  qed
qed

end

end
