(* ===== verification/Tinybuf.thy ===== *)
theory Tinybuf
  imports OB_Prelude
begin

text \<open>
  \<^verbatim>\<open>tinybuf/incl/tinybuf.c\<close>: structures are serialised along a table of field descriptions.  A
  structure is a range of bytes of the memory, addressed from its first byte; a table is the
  list of its entries in front of the terminating entry (tables have fewer than 256 entries).
\<close>

section \<open>Field descriptions and streams\<close>

datatype tb_endian = TB_BIG_ENDIAN | TB_LITTLE_ENDIAN

datatype tb_field = TB_FIELD (ftype: nat) (data_offset: nat) (size_offset: int) (size_size: nat) (data_size: nat)
  (array_size: nat) (oneof_tag: nat) (oneof_first: bool) (ptr: "tb_field list")

record tb_ostream =
  obuf :: "byte list"
  obuf_size :: nat
  bytes_written :: nat

record tb_istream =
  ibuf :: "byte list"
  ibuf_size :: nat
  bytes_read :: nat

text \<open>The flags of \<open>tb_field_type_t\<close> and \<open>tb_data_type_t\<close>.\<close>

definition FIELD_REQUIRED :: "tb_field \<Rightarrow> bool" where "FIELD_REQUIRED f \<longleftrightarrow> bit (ftype f) 0"
definition FIELD_OPTIONAL :: "tb_field \<Rightarrow> bool" where "FIELD_OPTIONAL f \<longleftrightarrow> bit (ftype f) 1"
definition FIELD_REPEATED :: "tb_field \<Rightarrow> bool" where "FIELD_REPEATED f \<longleftrightarrow> bit (ftype f) 2"
definition FIELD_FIXED_REPEATED :: "tb_field \<Rightarrow> bool" where "FIELD_FIXED_REPEATED f \<longleftrightarrow> bit (ftype f) 3"
definition FIELD_ONEOF :: "tb_field \<Rightarrow> bool" where "FIELD_ONEOF f \<longleftrightarrow> bit (ftype f) 4"

definition DATA_SCALAR :: "tb_field \<Rightarrow> bool" where
  "DATA_SCALAR f \<longleftrightarrow> bit (ftype f) 5 \<or> bit (ftype f) 6 \<or> bit (ftype f) 7 \<or> bit (ftype f) 8"

definition DATA_MESSAGE :: "tb_field \<Rightarrow> bool" where "DATA_MESSAGE f \<longleftrightarrow> bit (ftype f) 9"

text \<open>Memory, and the two ways to continue after a call that returns 1 or 0.\<close>

type_synonym memory = "int \<Rightarrow> byte"

definition rd :: "memory \<Rightarrow> int \<Rightarrow> nat \<Rightarrow> byte list" where
  "rd m a n = map (\<lambda>i. m (a + int i)) [0..<n]"

definition wr :: "int \<Rightarrow> byte list \<Rightarrow> memory \<Rightarrow> memory" where
  "wr a bs m = (\<lambda>x. if a \<le> x \<and> x < a + int (length bs) then bs ! nat (x - a) else m x)"

definition seq_ok :: "bool \<times> 's \<Rightarrow> ('s \<Rightarrow> bool \<times> 's) \<Rightarrow> bool \<times> 's" where
  "seq_ok r k = (case r of (ok, s) \<Rightarrow> if ok then k s else (False, s))"

text \<open>A loop of calls over a list of addresses that stops at the first failure.\<close>

fun all_ok :: "('a \<Rightarrow> 's \<Rightarrow> bool \<times> 's) \<Rightarrow> 'a list \<Rightarrow> 's \<Rightarrow> bool \<times> 's" where
  "all_ok g [] s = (True, s)"
| "all_ok g (a # as) s = seq_ok (g a s) (all_ok g as)"

section \<open>Endianness\<close>

text \<open>The nRF51 is little-endian, which \<open>test_endianness\<close> finds out at run time.\<close>

definition test_endianness :: tb_endian where
  "test_endianness = TB_LITTLE_ENDIAN"

definition convert_endianness :: "byte list \<Rightarrow> tb_endian \<Rightarrow> byte list" where
  "convert_endianness data desired = (if test_endianness \<noteq> desired then rev data else data)"

text \<open>
  The element count of a repeated field: the bytes in big-endian order, then assembled from the
  last one upwards.
\<close>

definition tb_count :: "byte list \<Rightarrow> nat" where
  "tb_count bs = (let tmp = convert_endianness bs TB_BIG_ENDIAN; n = length bs in
     u32 (foldl (\<lambda>count k. count OR push_bit (8 * k) (unat (tmp ! (n - 1 - k)))) 0 [0..<n]))"

section \<open>Streams\<close>

definition tb_ostream_from_buffer :: "byte list \<Rightarrow> nat \<Rightarrow> tb_ostream" where
  "tb_ostream_from_buffer b n = \<lparr>obuf = b, obuf_size = n, bytes_written = 0\<rparr>"

definition tb_write_to_ostream :: "byte list \<Rightarrow> tb_ostream \<Rightarrow> bool \<times> tb_ostream" where
  "tb_write_to_ostream data os =
     (if u32_add (bytes_written os) (length data) > obuf_size os then (False, os)
      else (True, os\<lparr>obuf := overwrite (obuf os) (bytes_written os) data,
                     bytes_written := u32_add (bytes_written os) (length data)\<rparr>))"

text \<open>The parameter \<open>data_size\<close> is a \<open>uint8_t\<close>.\<close>

definition tb_write_to_ostream_big_endian :: "memory \<Rightarrow> int \<Rightarrow> nat \<Rightarrow> nat \<Rightarrow> tb_endian \<Rightarrow> tb_ostream \<Rightarrow> bool \<times> tb_ostream" where
  "tb_write_to_ostream_big_endian m a dsize len e os =
     all_ok (\<lambda>i. tb_write_to_ostream (convert_endianness (rd m (a + int (u8 dsize * i)) (u8 dsize)) e)) [0..<len] os"

definition tb_istream_from_buffer :: "byte list \<Rightarrow> nat \<Rightarrow> tb_istream" where
  "tb_istream_from_buffer b n = \<lparr>ibuf = b, ibuf_size = n, bytes_read = 0\<rparr>"

text \<open>Reading changes the stream and the memory.\<close>

definition tb_read_from_istream :: "(byte list \<Rightarrow> byte list) \<Rightarrow> int \<Rightarrow> nat \<Rightarrow> tb_istream \<times> memory \<Rightarrow> bool \<times> tb_istream \<times> memory" where
  "tb_read_from_istream conv a len s = (case s of (is, m) \<Rightarrow>
     if u32_add (bytes_read is) len > ibuf_size is then (False, is, m)
     else (True, is\<lparr>bytes_read := u32_add (bytes_read is) len\<rparr>, wr a (conv (take len (drop (bytes_read is) (ibuf is)))) m))"

definition tb_read_from_istream_little_endian ::
  "int \<Rightarrow> nat \<Rightarrow> nat \<Rightarrow> tb_endian \<Rightarrow> tb_istream \<times> memory \<Rightarrow> bool \<times> tb_istream \<times> memory" where
  "tb_read_from_istream_little_endian a dsize len e s =
     all_ok (\<lambda>i. tb_read_from_istream (\<lambda>bs. convert_endianness bs e) (a + int (u8 dsize * i)) (u8 dsize)) [0..<len] s"

section \<open>Encoding\<close>

text \<open>The rest of the table from the first entry of the oneof-field on.\<close>

fun check_oneof_which_tag_validity :: "tb_field list \<Rightarrow> nat \<Rightarrow> bool" where
  "check_oneof_which_tag_validity [] which = False"
| "check_oneof_which_tag_validity (f # fs) which =
     (if oneof_tag f = which then True
      else case fs of
          [] \<Rightarrow> False
        | g # _ \<Rightarrow> if FIELD_ONEOF g \<and> \<not> oneof_first g then check_oneof_which_tag_validity fs which else False)"

text \<open>
  One entry of the table: the part in front of the data (flag, count or tag), and for which
  addresses the data are written.  \<open>one\<close> writes the data at an address.
\<close>

definition encode_field :: "(int \<Rightarrow> tb_ostream \<Rightarrow> bool \<times> tb_ostream) \<Rightarrow> (nat \<Rightarrow> tb_ostream \<Rightarrow> bool \<times> tb_ostream)
    \<Rightarrow> tb_endian \<Rightarrow> tb_field list \<Rightarrow> memory \<Rightarrow> int \<Rightarrow> tb_ostream \<Rightarrow> bool \<times> tb_ostream" where
  "encode_field one many e table m base os =
     (let field = hd table;
          data_ptr = base + int (data_offset field);
          size_ptr = data_ptr + size_offset field
      in if FIELD_REQUIRED field then one data_ptr os
         else if FIELD_OPTIONAL field then
           seq_ok (tb_write_to_ostream (rd m size_ptr (size_size field)) os) (\<lambda>os.
           if m size_ptr \<noteq> 0 then one data_ptr os else (True, os))
         else if FIELD_REPEATED field then
           if size_size field > 4 then (False, os)
           else let count = tb_count (rd m size_ptr (size_size field)) in
             if count > array_size field then (False, os)
             else seq_ok (tb_write_to_ostream_big_endian m size_ptr (size_size field) 1 e os) (many count)
         else if FIELD_FIXED_REPEATED field then many (array_size field) os
         else if FIELD_ONEOF field then
           let which = unat (m size_ptr) in
           seq_ok (if oneof_first field then
                     if \<not> check_oneof_which_tag_validity table which then (False, os)
                     else tb_write_to_ostream (rd m size_ptr (size_size field)) os
                   else (True, os)) (\<lambda>os.
           if which = oneof_tag field then one data_ptr os else (True, os))
         else (False, os))"

lemma ptr_smaller: "size_list size (ptr f) < Suc (size f + n)"
  by (cases f) simp

function tb_encode :: "tb_endian \<Rightarrow> tb_field list \<Rightarrow> memory \<Rightarrow> int \<Rightarrow> tb_ostream \<Rightarrow> bool \<times> tb_ostream" where
  "tb_encode e [] m base os = (True, os)"
| "tb_encode e (field # fs) m base os =
     seq_ok
       (if DATA_SCALAR field then
          encode_field (\<lambda>a. tb_write_to_ostream_big_endian m a (data_size field) 1 e)
            (\<lambda>n. tb_write_to_ostream_big_endian m (base + int (data_offset field)) (data_size field) n e) e (field # fs) m base os
        else if DATA_MESSAGE field then
          encode_field (\<lambda>a. tb_encode e (ptr field) m a)
            (\<lambda>n. all_ok (\<lambda>k. tb_encode e (ptr field) m (base + int (data_offset field) + int (k * data_size field))) [0..<n])
            e (field # fs) m base os
        else (False, os)) (\<lambda>os.
     tb_encode e fs m base os)"
  by pat_completeness auto

termination
  by (relation "measure (\<lambda>(e, fs, m, base, os). size_list size fs)") (auto intro: ptr_smaller)

section \<open>Decoding\<close>

text \<open>The tag of a oneof-field is read back from the structure, where its first entry put it.\<close>

definition decode_field :: "(int \<Rightarrow> tb_istream \<times> memory \<Rightarrow> bool \<times> tb_istream \<times> memory)
    \<Rightarrow> (nat \<Rightarrow> tb_istream \<times> memory \<Rightarrow> bool \<times> tb_istream \<times> memory)
    \<Rightarrow> tb_endian \<Rightarrow> tb_field list \<Rightarrow> int \<Rightarrow> tb_istream \<times> memory \<Rightarrow> bool \<times> tb_istream \<times> memory" where
  "decode_field one many e table base s =
     (let field = hd table;
          data_ptr = base + int (data_offset field);
          size_ptr = data_ptr + size_offset field
      in if FIELD_REQUIRED field then one data_ptr s
         else if FIELD_OPTIONAL field then
           seq_ok (tb_read_from_istream id size_ptr (size_size field) s) (\<lambda>s.
           if snd s size_ptr \<noteq> 0 then one data_ptr s else (True, s))
         else if FIELD_REPEATED field then
           if size_size field > 4 then (False, s)
           else seq_ok (tb_read_from_istream_little_endian size_ptr (size_size field) 1 e s) (\<lambda>s.
             let count = tb_count (rd (snd s) size_ptr (size_size field)) in
             if count > array_size field then (False, s) else many count s)
         else if FIELD_FIXED_REPEATED field then many (array_size field) s
         else if FIELD_ONEOF field then
           seq_ok (if oneof_first field then tb_read_from_istream id size_ptr (size_size field) s else (True, s)) (\<lambda>s.
           let which = unat (snd s size_ptr) in
           if oneof_first field \<and> \<not> check_oneof_which_tag_validity table which then (False, s)
           else if which = oneof_tag field then one data_ptr s else (True, s))
         else (False, s))"

function tb_decode :: "tb_endian \<Rightarrow> tb_field list \<Rightarrow> int \<Rightarrow> tb_istream \<times> memory \<Rightarrow> bool \<times> tb_istream \<times> memory" where
  "tb_decode e [] base s = (True, s)"
| "tb_decode e (field # fs) base s =
     seq_ok
       (if DATA_SCALAR field then
          decode_field (\<lambda>a. tb_read_from_istream_little_endian a (data_size field) 1 e)
            (\<lambda>n. tb_read_from_istream_little_endian (base + int (data_offset field)) (data_size field) n e) e (field # fs) base s
        else if DATA_MESSAGE field then
          decode_field (\<lambda>a. tb_decode e (ptr field) a)
            (\<lambda>n. all_ok (\<lambda>k. tb_decode e (ptr field) (base + int (data_offset field) + int (k * data_size field))) [0..<n])
            e (field # fs) base s
        else (False, s)) (\<lambda>s.
     tb_decode e fs base s)"
  by pat_completeness auto

termination
  by (relation "measure (\<lambda>(e, fs, base, s). size_list size fs)") (auto intro: ptr_smaller)

section \<open>Maximal length\<close>

text \<open>
  A oneof-field counts as its longest entry, and the loop goes on behind its last entry.  In a
  oneof-field that starts with a message, \<open>tmp_len\<close> is computed from the first entry in every
  step of the search; in one that starts with a scalar, from the entry of the step.
\<close>

definition oneof_more :: "tb_field \<Rightarrow> bool" where
  "oneof_more f \<longleftrightarrow> FIELD_ONEOF f \<and> \<not> oneof_first f"

lemma size_list_dropWhile: "size_list g (dropWhile P xs) \<le> size_list g xs"
  by (induction xs) auto

lemma size_dropWhile_less: "size_list g (dropWhile P fs) < Suc (n + size_list g fs)"
  using size_list_dropWhile[of g P fs] by simp

lemma ptr_smaller_takeWhile:
  assumes "f \<in> set (takeWhile P fs)"
  shows "size_list size (ptr f) < Suc (n + size_list size fs)"
proof -
  have "f \<in> set fs" using assms by (rule set_takeWhileD[THEN conjunct1])
  then have "size f < size_list size fs" by (induction fs) auto
  moreover have "size_list size (ptr f) < size f + 1" by (cases f) simp
  ultimately show ?thesis by simp
qed

function max_len_loop :: "nat \<Rightarrow> tb_field list \<Rightarrow> nat" where
  "max_len_loop len [] = len"
| "max_len_loop len (field # fs) =
     (if DATA_SCALAR field then
        if FIELD_REQUIRED field then max_len_loop (u32_add len (data_size field)) fs
        else if FIELD_OPTIONAL field then
          max_len_loop (u32_add (u32_add len (size_size field)) (data_size field)) fs
        else if FIELD_REPEATED field then
          max_len_loop (u32_add (u32_add len (size_size field)) (u32 (array_size field * data_size field))) fs
        else if FIELD_FIXED_REPEATED field then
          max_len_loop (u32_add len (u32 (array_size field * data_size field))) fs
        else if FIELD_ONEOF field then
          max_len_loop (u32_add (u32_add len (size_size field))
            (fold max (map (\<lambda>f. if DATA_MESSAGE f then max_len_loop 0 (ptr f) else data_size f)
               (field # takeWhile oneof_more fs)) 0)) (dropWhile oneof_more fs)
        else max_len_loop len fs
      else if DATA_MESSAGE field then
        if FIELD_REQUIRED field then max_len_loop (u32_add len (max_len_loop 0 (ptr field))) fs
        else if FIELD_OPTIONAL field then
          max_len_loop (u32_add (u32_add len (size_size field)) (max_len_loop 0 (ptr field))) fs
        else if FIELD_REPEATED field then
          max_len_loop (u32_add (u32_add len (size_size field)) (u32 (array_size field * max_len_loop 0 (ptr field)))) fs
        else if FIELD_FIXED_REPEATED field then
          max_len_loop (u32_add len (u32 (array_size field * max_len_loop 0 (ptr field)))) fs
        else if FIELD_ONEOF field then
          max_len_loop (u32_add (u32_add len (size_size field))
            (fold max (map (\<lambda>f. if DATA_MESSAGE field then max_len_loop 0 (ptr field) else data_size f)
               (field # takeWhile oneof_more fs)) 0)) (dropWhile oneof_more fs)
        else max_len_loop len fs
      else max_len_loop len fs)"
  by pat_completeness auto

termination
  by (relation "measure (\<lambda>(len, fs). size_list size fs)")
    (auto intro: ptr_smaller size_dropWhile_less ptr_smaller_takeWhile)

definition tb_get_max_encoded_len :: "tb_field list \<Rightarrow> nat" where
  "tb_get_max_encoded_len fs = max_len_loop 0 fs"

declare tb_encode.simps [simp del] tb_decode.simps [simp del] max_len_loop.simps [simp del]

end
