(* ===== verification/Tinybuf_Correct.thy ===== *)
theory Tinybuf_Correct
  imports Tinybuf
begin

text \<open>
  Decoding inverts encoding.  Both walk the same cells of the structure: \<open>tb_cells\<close> collects the
  cells in the order of the table, and \<open>tb_encode\<close> and \<open>tb_decode\<close> are shown to write and to
  read exactly their bytes.
\<close>

section \<open>Cells\<close>

text \<open>A cell is written as it is (a flag or tag) or in the order of the stream.\<close>

datatype cell = Raw (cell_addr: int) (cell_len: nat) | Conv (cell_addr: int) (cell_len: nat)

definition cell_conv :: "tb_endian \<Rightarrow> cell \<Rightarrow> byte list \<Rightarrow> byte list" where
  "cell_conv e c bs = (case c of Raw _ _ \<Rightarrow> bs | Conv _ _ \<Rightarrow> convert_endianness bs e)"

definition cell_bytes :: "tb_endian \<Rightarrow> memory \<Rightarrow> cell \<Rightarrow> byte list" where
  "cell_bytes e m c = cell_conv e c (rd m (cell_addr c) (cell_len c))"

definition cells_bytes :: "tb_endian \<Rightarrow> memory \<Rightarrow> cell list \<Rightarrow> byte list" where
  "cells_bytes e m cs = concat (map (cell_bytes e m) cs)"

definition covered :: "cell list \<Rightarrow> int set" where
  "covered cs = (\<Union>c\<in>set cs. {cell_addr c ..< cell_addr c + int (cell_len c)})"

definition restore :: "memory \<Rightarrow> cell list \<Rightarrow> memory \<Rightarrow> memory" where
  "restore m cs m0 = (\<lambda>x. if x \<in> covered cs then m x else m0 x)"

definition total_len :: "cell list \<Rightarrow> nat" where
  "total_len cs = sum_list (map cell_len cs)"

lemma length_rd [simp]: "length (rd m a n) = n"
  by (simp add: rd_def)

lemma rd_0 [simp]: "rd m a 0 = []"
  by (simp add: rd_def)

lemma length_convert [simp]: "length (convert_endianness bs e) = length bs"
  by (simp add: convert_endianness_def)

lemma convert_convert [simp]: "convert_endianness (convert_endianness bs e) e = bs"
  by (simp add: convert_endianness_def)

lemma length_cell_bytes [simp]: "length (cell_bytes e m c) = cell_len c"
  by (cases c) (auto simp: cell_bytes_def cell_conv_def)

lemma cell_conv_bytes: "cell_conv e c (cell_bytes e m c) = rd m (cell_addr c) (cell_len c)"
  by (cases c) (auto simp: cell_bytes_def cell_conv_def)

lemma length_cells_bytes [simp]: "length (cells_bytes e m cs) = total_len cs"
  by (induction cs) (auto simp: cells_bytes_def total_len_def)

lemma cells_bytes_simps [simp]:
  "cells_bytes e m [] = []"
  "cells_bytes e m (c # cs) = cell_bytes e m c @ cells_bytes e m cs"
  "cells_bytes e m (cs @ ds) = cells_bytes e m cs @ cells_bytes e m ds"
  by (auto simp: cells_bytes_def)

lemma total_len_simps [simp]:
  "total_len [] = 0"
  "total_len (c # cs) = cell_len c + total_len cs"
  "total_len (cs @ ds) = total_len cs + total_len ds"
  by (auto simp: total_len_def)

lemma covered_simps [simp]:
  "covered [] = {}"
  "covered (c # cs) = {cell_addr c ..< cell_addr c + int (cell_len c)} \<union> covered cs"
  "covered (cs @ ds) = covered cs \<union> covered ds"
  by (auto simp: covered_def)

lemma restore_Nil [simp]: "restore m [] m0 = m0"
  by (simp add: restore_def)

lemma restore_append: "restore m ds (restore m cs m0) = restore m (cs @ ds) m0"
  by (auto simp: restore_def)

lemma wr_rd: "wr a (rd m a n) m0 = (\<lambda>x. if a \<le> x \<and> x < a + int n then m x else m0 x)"
  by (auto simp: wr_def rd_def fun_eq_iff)

lemma wr_cell: "wr (cell_addr c) (rd m (cell_addr c) (cell_len c)) m0 = restore m [c] m0"
  by (auto simp: wr_rd restore_def)

lemma rd_cong: "(\<And>x. a \<le> x \<Longrightarrow> x < a + int n \<Longrightarrow> m x = m' x) \<Longrightarrow> rd m a n = rd m' a n"
  by (auto simp: rd_def)

section \<open>The cells of a structure\<close>

definition then_cells :: "cell list option \<Rightarrow> cell list option \<Rightarrow> cell list option" where
  "then_cells a b = (case a of None \<Rightarrow> None | Some cs \<Rightarrow> map_option ((@) cs) b)"

fun all_cells :: "('a \<Rightarrow> cell list option) \<Rightarrow> 'a list \<Rightarrow> cell list option" where
  "all_cells g [] = Some []"
| "all_cells g (a # as) = then_cells (g a) (all_cells g as)"

lemma all_cells_cong [fundef_cong]:
  "xs = ys \<Longrightarrow> (\<And>x. x \<in> set ys \<Longrightarrow> g x = h x) \<Longrightarrow> all_cells g xs = all_cells h ys"
  by (induction ys arbitrary: xs) auto

definition array_cells :: "int \<Rightarrow> nat \<Rightarrow> nat \<Rightarrow> cell list" where
  "array_cells a dsize n = map (\<lambda>i. Conv (a + int (u8 dsize * i)) (u8 dsize)) [0..<n]"

definition field_cells :: "(int \<Rightarrow> cell list option) \<Rightarrow> (nat \<Rightarrow> cell list option)
    \<Rightarrow> tb_field list \<Rightarrow> memory \<Rightarrow> int \<Rightarrow> cell list option" where
  "field_cells one many table m base =
     (let field = hd table;
          data_ptr = base + int (data_offset field);
          size_ptr = data_ptr + size_offset field
      in if FIELD_REQUIRED field then one data_ptr
         else if FIELD_OPTIONAL field then
           then_cells (Some [Raw size_ptr (size_size field)]) (if m size_ptr \<noteq> 0 then one data_ptr else Some [])
         else if FIELD_REPEATED field then
           if size_size field > 4 then None
           else let count = tb_count (rd m size_ptr (size_size field)) in
             if count > array_size field then None
             else then_cells (Some (array_cells size_ptr (size_size field) 1)) (many count)
         else if FIELD_FIXED_REPEATED field then many (array_size field)
         else if FIELD_ONEOF field then
           let which = unat (m size_ptr) in
           then_cells (if oneof_first field then
                     if \<not> check_oneof_which_tag_validity table which then None
                     else Some [Raw size_ptr (size_size field)]
                   else Some [])
             (if which = oneof_tag field then one data_ptr else Some [])
         else None)"

function tb_cells :: "tb_field list \<Rightarrow> memory \<Rightarrow> int \<Rightarrow> cell list option" where
  "tb_cells [] m base = Some []"
| "tb_cells (field # fs) m base =
     then_cells
       (if DATA_SCALAR field then
          field_cells (\<lambda>a. Some (array_cells a (data_size field) 1))
            (\<lambda>n. Some (array_cells (base + int (data_offset field)) (data_size field) n)) (field # fs) m base
        else if DATA_MESSAGE field then
          field_cells (\<lambda>a. tb_cells (ptr field) m a)
            (\<lambda>n. all_cells (\<lambda>k. tb_cells (ptr field) m (base + int (data_offset field) + int (k * data_size field))) [0..<n])
            (field # fs) m base
        else None)
       (tb_cells fs m base)"
  by pat_completeness auto

termination
  by (relation "measure (\<lambda>(fs, m, base). size_list size fs)") (auto intro: ptr_smaller)

declare tb_cells.simps [simp del]

text \<open>
  An induction rule along the table: the table of a message is smaller than the table that
  contains it.
\<close>

lemma tb_table_induct [case_names Nil Cons]:
  assumes "P []" "\<And>f fs. P (ptr f) \<Longrightarrow> P fs \<Longrightarrow> P (f # fs)"
  shows "P fs"
proof (induction "size_list size fs" arbitrary: fs rule: less_induct)
  case less
  show ?case
  proof (cases fs)
    case (Cons f gs)
    have "size_list size (ptr f) < size_list size fs" "size_list size gs < size_list size fs"
      using Cons ptr_smaller[of f] by auto
    then have "P (f # gs)" by (intro assms(2) less)
    then show ?thesis by (simp add: Cons)
  qed (simp add: assms(1))
qed

section \<open>Encoding writes the cells\<close>

definition write_cells :: "tb_endian \<Rightarrow> memory \<Rightarrow> cell list \<Rightarrow> tb_ostream \<Rightarrow> bool \<times> tb_ostream" where
  "write_cells e m cs = all_ok (\<lambda>c. tb_write_to_ostream (cell_bytes e m c)) cs"

text \<open>\<open>g\<close> writes the cells of \<open>c\<close>, and fails where there are none.\<close>

definition writes :: "tb_endian \<Rightarrow> memory \<Rightarrow> (tb_ostream \<Rightarrow> bool \<times> tb_ostream) \<Rightarrow> cell list option \<Rightarrow> bool" where
  "writes e m g c = (case c of None \<Rightarrow> \<forall>os. \<not> fst (g os) | Some cs \<Rightarrow> g = write_cells e m cs)"

lemma all_ok_append: "all_ok g (xs @ ys) s = seq_ok (all_ok g xs s) (all_ok g ys)"
  by (induction xs arbitrary: s) (auto simp: seq_ok_def split: prod.splits)

lemma seq_ok_fst: "fst (seq_ok r k) \<Longrightarrow> fst r \<and> fst (k (snd r))"
  by (auto simp: seq_ok_def split: prod.splits if_splits)

lemma writes_then:
  assumes "writes e m g a" "writes e m h b"
  shows "writes e m (\<lambda>os. seq_ok (g os) h) (then_cells a b)"
  using assms
  by (auto simp: writes_def then_cells_def write_cells_def all_ok_append dest!: seq_ok_fst split: option.splits)

lemma writes_Nil [simp]: "writes e m (\<lambda>os. (True, os)) (Some [])"
  by (simp add: writes_def write_cells_def fun_eq_iff)

lemma writes_None [simp]: "writes e m (\<lambda>os. (False, os)) None"
  by (simp add: writes_def)

lemma writes_raw [simp]: "writes e m (tb_write_to_ostream (rd m a n)) (Some [Raw a n])"
  by (auto simp: writes_def write_cells_def cell_bytes_def cell_conv_def seq_ok_def fun_eq_iff split: prod.splits)

lemma all_ok_map: "all_ok g (map f xs) s = all_ok (\<lambda>x. g (f x)) xs s"
  by (induction xs arbitrary: s) (auto simp: seq_ok_def split: prod.splits)

lemma writes_array [simp]:
  "writes e m (tb_write_to_ostream_big_endian m a d n e) (Some (array_cells a d n))"
  by (simp add: writes_def write_cells_def array_cells_def tb_write_to_ostream_big_endian_def fun_eq_iff
      all_ok_map cell_bytes_def cell_conv_def)

lemma writes_all:
  assumes "\<And>k. writes e m (g k) (c k)"
  shows "writes e m (all_ok g ks) (all_cells c ks)"
proof (induction ks)
  case Nil
  then show ?case using writes_Nil[of e m] by (simp add: fun_eq_iff writes_def)
next
  case (Cons k ks)
  have "all_ok g (k # ks) = (\<lambda>os. seq_ok (g k os) (all_ok g ks))" by (simp add: fun_eq_iff)
  then show ?case using writes_then[OF assms Cons, of k] by simp
qed

lemma writes_if: "(b \<Longrightarrow> writes e m g c) \<Longrightarrow> (\<not> b \<Longrightarrow> writes e m h d) \<Longrightarrow> writes e m (\<lambda>os. if b then g os else h os) (if b then c else d)"
  by auto

lemma writes_encode_field:
  assumes one: "\<And>a. writes e m (one a) (one' a)" and many: "\<And>n. writes e m (many n) (many' n)"
  shows "writes e m (encode_field one many e table m base) (field_cells one' many' table m base)"
  unfolding encode_field_def[abs_def] field_cells_def Let_def
  by (intro writes_if writes_then one many writes_None writes_Nil writes_raw writes_array)

lemma tb_encode_writes: "writes e m (tb_encode e fs m base) (tb_cells fs m base)"
proof (induction fs arbitrary: base rule: tb_table_induct)
  case Nil
  show ?case using writes_Nil[of e m] by (simp add: writes_def fun_eq_iff tb_encode.simps tb_cells.simps)
next
  case (Cons f fs)
  have eq: "tb_encode e (f # fs) m base = (\<lambda>os. seq_ok
       (if DATA_SCALAR f then
          encode_field (\<lambda>a. tb_write_to_ostream_big_endian m a (data_size f) 1 e)
            (\<lambda>n. tb_write_to_ostream_big_endian m (base + int (data_offset f)) (data_size f) n e) e (f # fs) m base os
        else if DATA_MESSAGE f then
          encode_field (\<lambda>a. tb_encode e (ptr f) m a)
            (\<lambda>n. all_ok (\<lambda>k. tb_encode e (ptr f) m (base + int (data_offset f) + int (k * data_size f))) [0..<n])
            e (f # fs) m base os
        else (False, os)) (tb_encode e fs m base))"
    by (simp add: fun_eq_iff tb_encode.simps)
  show ?case unfolding eq tb_cells.simps
    by (intro writes_then writes_if writes_encode_field writes_array writes_all writes_None Cons.IH)
qed

text \<open>What a successful run of writes leaves in a stream that is not too large.\<close>

definition ostream_ok :: "tb_ostream \<Rightarrow> bool" where
  "ostream_ok os \<longleftrightarrow> bytes_written os \<le> obuf_size os \<and> obuf_size os = length (obuf os) \<and> obuf_size os + 256 \<le> 2 ^ 32"

lemma write_cells_effect:
  assumes "ostream_ok os" "\<forall>c\<in>set cs. cell_len c < 256"
  shows "write_cells e m cs os =
    (if bytes_written os + total_len cs \<le> obuf_size os
     then (True, os\<lparr>obuf := overwrite (obuf os) (bytes_written os) (cells_bytes e m cs),
                    bytes_written := bytes_written os + total_len cs\<rparr>)
     else (False, snd (write_cells e m cs os)))"
  using assms
proof (induction cs arbitrary: os)
  case Nil
  then show ?case by (simp add: write_cells_def overwrite_def ostream_ok_def)
next
  case (Cons c cs)
  show ?case
  proof (cases "bytes_written os + cell_len c \<le> obuf_size os")
    case True
    let ?os = "os\<lparr>obuf := overwrite (obuf os) (bytes_written os) (cell_bytes e m c), bytes_written := bytes_written os + cell_len c\<rparr>"
    have w: "tb_write_to_ostream (cell_bytes e m c) os = (True, ?os)"
      using True Cons.prems by (auto simp: tb_write_to_ostream_def ostream_ok_def)
    have ok: "ostream_ok ?os" using Cons.prems True by (simp add: ostream_ok_def)
    have 1: "write_cells e m (c # cs) os = write_cells e m cs ?os"
      by (simp add: write_cells_def w seq_ok_def)
    have 2: "overwrite (overwrite (obuf os) (bytes_written os) (cell_bytes e m c)) (bytes_written os + cell_len c) (cells_bytes e m cs)
      = overwrite (obuf os) (bytes_written os) (cells_bytes e m (c # cs))"
      using True Cons.prems by (simp add: overwrite_def ostream_ok_def add.assoc add.commute add.left_commute)
    show ?thesis
      using Cons.IH[OF ok] Cons.prems(2) 2 by (auto simp: 1 add.assoc)
  next
    case False
    then have "tb_write_to_ostream (cell_bytes e m c) os = (False, os)"
      using Cons.prems by (simp add: tb_write_to_ostream_def ostream_ok_def)
    then show ?thesis using False by (simp add: write_cells_def seq_ok_def)
  qed
qed

section \<open>Decoding reads the cells\<close>

text \<open>
  The tables the generator emits: flags and tags have a size, and the entries of a oneof-field
  follow its first one directly and refer to the same tag.  \<open>w\<close> is where the tag of the current oneof-field is.
\<close>

definition entry_oneof :: "tb_field \<Rightarrow> bool" where
  "entry_oneof f \<longleftrightarrow> \<not> FIELD_REQUIRED f \<and> \<not> FIELD_OPTIONAL f \<and> \<not> FIELD_REPEATED f \<and> \<not> FIELD_FIXED_REPEATED f \<and> FIELD_ONEOF f"

definition size_pos :: "tb_field \<Rightarrow> int" where
  "size_pos f = int (data_offset f) + size_offset f"

function tb_table_ok :: "int option \<Rightarrow> tb_field list \<Rightarrow> bool" where
  "tb_table_ok w [] = True"
| "tb_table_ok w (f # fs) =
     (size_size f < 256 \<and> (FIELD_OPTIONAL f \<longrightarrow> 0 < size_size f)
      \<and> (entry_oneof f \<longrightarrow> (if oneof_first f then 0 < size_size f else w = Some (size_pos f)))
      \<and> (\<not> DATA_SCALAR f \<longrightarrow> tb_table_ok None (ptr f))
      \<and> tb_table_ok (if entry_oneof f then Some (size_pos f) else None) fs)"
  by pat_completeness auto

termination
  by (relation "measure (\<lambda>(w, fs). size_list size fs)") (auto intro: ptr_smaller)

definition istream_holds :: "tb_endian \<Rightarrow> memory \<Rightarrow> cell list \<Rightarrow> tb_istream \<Rightarrow> bool" where
  "istream_holds e m cs is \<longleftrightarrow> bytes_read is + total_len cs \<le> ibuf_size is \<and> ibuf_size is \<le> length (ibuf is)
     \<and> ibuf_size is < 2 ^ 32 \<and> take (total_len cs) (drop (bytes_read is) (ibuf is)) = cells_bytes e m cs"

definition advance :: "nat \<Rightarrow> tb_istream \<Rightarrow> tb_istream" where
  "advance n is = is\<lparr>bytes_read := bytes_read is + n\<rparr>"

definition agree :: "int set \<Rightarrow> memory \<Rightarrow> memory \<Rightarrow> bool" where
  "agree K m m0 \<longleftrightarrow> (\<forall>x\<in>K. m0 x = m x)"

text \<open>
  From a stream with the bytes of the cells and a memory that agrees with \<open>m\<close> on \<open>K\<close>, \<open>g\<close> reads
  these bytes and gives the cells the contents they have in \<open>m\<close>.
\<close>

definition reads :: "tb_endian \<Rightarrow> memory \<Rightarrow> int set \<Rightarrow> (tb_istream \<times> memory \<Rightarrow> bool \<times> tb_istream \<times> memory) \<Rightarrow> cell list option \<Rightarrow> bool" where
  "reads e m K g c \<longleftrightarrow> (\<forall>cs is m0. c = Some cs \<longrightarrow> istream_holds e m cs is \<longrightarrow> agree K m m0
     \<longrightarrow> g (is, m0) = (True, advance (total_len cs) is, restore m cs m0))"

lemma advance_simps [simp]:
  "advance 0 is = is" "advance i (advance j is) = advance (j + i) is"
  "bytes_read (advance n is) = bytes_read is + n" "ibuf (advance n is) = ibuf is" "ibuf_size (advance n is) = ibuf_size is"
  by (auto simp: advance_def add.assoc)

lemma istream_holds_append:
  "istream_holds e m (cs @ ds) is \<longleftrightarrow> istream_holds e m cs is \<and> istream_holds e m ds (advance (total_len cs) is)"
  (is "?l \<longleftrightarrow> ?r")
proof -
  have "take (total_len cs + total_len ds) (drop (bytes_read is) (ibuf is)) = cells_bytes e m cs @ cells_bytes e m ds
    \<longleftrightarrow> take (total_len cs) (drop (bytes_read is) (ibuf is)) = cells_bytes e m cs
      \<and> take (total_len ds) (drop (bytes_read is + total_len cs) (ibuf is)) = cells_bytes e m ds"
    if "bytes_read is + total_len cs \<le> length (ibuf is)"
    using that by (auto simp: take_add add.commute append_eq_append_conv)
  then show ?thesis by (auto simp: istream_holds_def add.assoc)
qed

lemma agree_restore: "agree K m m0 \<Longrightarrow> agree (K \<union> covered cs) m (restore m cs m0)"
  by (auto simp: agree_def restore_def)

lemma reads_mono: "reads e m K g c \<Longrightarrow> K \<subseteq> L \<Longrightarrow> reads e m L g c"
  by (auto simp: reads_def agree_def subset_eq)

lemma reads_then:
  assumes "reads e m K g a" "\<And>cs. a = Some cs \<Longrightarrow> reads e m (K \<union> covered cs) h b"
  shows "reads e m K (\<lambda>s. seq_ok (g s) h) (then_cells a b)"
  unfolding reads_def
proof (intro allI impI)
  fix cs "is" m0 assume c: "then_cells a b = Some cs" and h: "istream_holds e m cs is" and K: "agree K m m0"
  obtain as bs where ab: "a = Some as" "b = Some bs" "cs = as @ bs"
    using c by (auto simp: then_cells_def split: option.splits)
  show "seq_ok (g (is, m0)) h = (True, advance (total_len cs) is, restore m cs m0)"
    using assms(1) assms(2)[OF ab(1)] ab h agree_restore[OF K] K
    by (auto simp: reads_def seq_ok_def istream_holds_append restore_append)
qed

lemma reads_Nil [simp]: "reads e m K (\<lambda>s. (True, s)) (Some [])"
  by (simp add: reads_def)

lemma reads_None [simp]: "reads e m K g None"
  by (simp add: reads_def)

lemma reads_if:
  assumes "\<And>m0. agree K m m0 \<Longrightarrow> P m0 = P m" "P m \<Longrightarrow> reads e m K g c" "\<not> P m \<Longrightarrow> reads e m K h d"
  shows "reads e m K (\<lambda>s. if P (snd s) then g s else h s) (if P m then c else d)"
  using assms by (auto simp: reads_def)

lemma reads_cong:
  assumes "reads e m K g c" "\<And>is m0. agree K m m0 \<Longrightarrow> h (is, m0) = g (is, m0)"
  shows "reads e m K h c"
  using assms by (simp add: reads_def)

lemma reads_cell:
  assumes "conv = cell_conv e c" "a = cell_addr c" "n = cell_len c"
  shows "reads e m K (tb_read_from_istream conv a n) (Some [c])"
  unfolding reads_def
  by (auto simp: assms tb_read_from_istream_def istream_holds_def cell_conv_bytes wr_cell advance_def)

lemma reads_raw [simp]: "reads e m K (tb_read_from_istream id a n) (Some [Raw a n])"
  by (rule reads_cell) (auto simp: cell_conv_def fun_eq_iff)

lemma reads_all:
  assumes "\<And>k. reads e m {} (g k) (c k)"
  shows "reads e m K (all_ok g ks) (all_cells c ks)"
proof (induction ks arbitrary: K)
  case Nil
  then show ?case by (simp add: reads_def)
next
  case (Cons k ks)
  have "all_ok g (k # ks) = (\<lambda>s. seq_ok (g k s) (all_ok g ks))" by (simp add: fun_eq_iff)
  then show ?case using reads_then[OF reads_mono[OF assms] Cons] by simp
qed

lemma all_cells_singletons: "all_cells (\<lambda>k. Some [f k]) ks = Some (map f ks)"
  by (induction ks) (auto simp: then_cells_def)

lemma reads_array [simp]: "reads e m K (tb_read_from_istream_little_endian a d n e) (Some (array_cells a d n))"
  unfolding tb_read_from_istream_little_endian_def[abs_def] array_cells_def all_cells_singletons[symmetric]
  by (intro reads_all reads_cell) (auto simp: cell_conv_def fun_eq_iff)

lemma covered_array_1: "covered (array_cells a d 1) = {a ..< a + int (u8 d)}"
  by (simp add: array_cells_def)

text \<open>Each kind of entry on its own.\<close>

lemma reads_optional:
  assumes one: "\<And>a. reads e m {} (one a) (one' a)" and n: "0 < n"
  shows "reads e m K (\<lambda>s. seq_ok (tb_read_from_istream id p n s) (\<lambda>s. if snd s p \<noteq> 0 then one a s else (True, s)))
    (then_cells (Some [Raw p n]) (if m p \<noteq> 0 then one' a else Some []))"
proof (rule reads_then[OF reads_raw])
  fix cs assume "Some [Raw p n] = Some cs"
  then have p: "p \<in> covered cs" using n by auto
  show "reads e m (K \<union> covered cs) (\<lambda>s. if snd s p \<noteq> 0 then one a s else (True, s)) (if m p \<noteq> 0 then one' a else Some [])"
    by (rule reads_if[where P = "\<lambda>m. m p \<noteq> 0"]) (use p in \<open>auto simp: agree_def intro: reads_mono[OF one]\<close>)
qed

lemma reads_repeated:
  assumes many: "\<And>n. reads e m {} (many n) (many' n)" and n: "n \<le> 4"
  shows "reads e m K (\<lambda>s. seq_ok (tb_read_from_istream_little_endian p n 1 e s) (\<lambda>s.
      let count = tb_count (rd (snd s) p n) in if count > mx then (False, s) else many count s))
    (let count = tb_count (rd m p n) in if count > mx then None
       else then_cells (Some (array_cells p n 1)) (many' count))"
proof (cases "tb_count (rd m p n) > mx")
  case False
  have "reads e m (K \<union> covered cs) (\<lambda>s. let count = tb_count (rd (snd s) p n) in if count > mx then (False, s) else many count s)
      (many' (tb_count (rd m p n)))" if "Some (array_cells p n 1) = Some cs" for cs
    unfolding reads_def
  proof (intro allI impI)
    fix ds "is" m0 assume d: "many' (tb_count (rd m p n)) = Some ds" "istream_holds e m ds is" "agree (K \<union> covered cs) m m0"
    have "rd m0 p n = rd m p n"
      using d(3) that n by (intro rd_cong) (auto simp: agree_def covered_array_1[simplified])
    then show "(let count = tb_count (rd (snd (is, m0)) p n) in if count > mx then (False, is, m0) else many count (is, m0))
      = (True, advance (total_len ds) is, restore m ds m0)"
      using False many d by (simp add: reads_def agree_def)
  qed
  then show ?thesis using False by (auto simp: Let_def intro!: reads_then[OF reads_array])
qed simp

lemma reads_oneof:
  assumes one: "\<And>a. reads e m {} (one a) (one' a)"
    and tag: "if first then 0 < n else p \<in> K"
  shows "reads e m K (\<lambda>s. seq_ok (if first then tb_read_from_istream id p n s else (True, s)) (\<lambda>s.
      let which = unat (snd s p) in if first \<and> \<not> valid which then (False, s)
      else if which = t then one a s else (True, s)))
    (let which = unat (m p) in then_cells (if first then if \<not> valid which then None else Some [Raw p n] else Some [])
       (if which = t then one' a else Some []))"
proof (cases "first \<and> \<not> valid (unat (m p))")
  case False
  have 1: "reads e m K (\<lambda>s. if first then tb_read_from_istream id p n s else (True, s)) (if first then Some [Raw p n] else Some [])"
    by auto
  have 2: "reads e m (K \<union> covered cs) (\<lambda>s. let which = unat (snd s p) in if first \<and> \<not> valid which then (False, s)
      else if which = t then one a s else (True, s)) (if unat (m p) = t then one' a else Some [])"
    if "(if first then Some [Raw p n] else Some []) = Some cs" for cs
  proof -
    have p: "p \<in> K \<union> covered cs" using tag that by (auto split: if_splits)
    have m: "m0 p = m p" if "agree (K \<union> covered cs) m m0" for m0 using p that by (simp add: agree_def)
    have r: "reads e m (K \<union> covered cs) (\<lambda>s. if unat (snd s p) = t then one a s else (True, s)) (if unat (m p) = t then one' a else Some [])"
      by (rule reads_if[where P = "\<lambda>m. unat (m p) = t"]) (auto simp: m intro: reads_mono[OF one])
    show ?thesis by (rule reads_cong[OF r]) (use False in \<open>auto simp: m Let_def\<close>)
  qed
  have "(let which = unat (m p) in then_cells (if first then if \<not> valid which then None else Some [Raw p n] else Some [])
      (if which = t then one' a else Some []))
    = then_cells (if first then Some [Raw p n] else Some []) (if unat (m p) = t then one' a else Some [])"
    using False by (auto simp: Let_def)
  then show ?thesis using reads_then[OF 1 2] by (simp only:)
qed (simp add: then_cells_def Let_def)

lemma reads_decode_field:
  assumes one: "\<And>a. reads e m {} (one a) (one' a)" and many: "\<And>n. reads e m {} (many n) (many' n)"
    and opt: "FIELD_OPTIONAL (hd table) \<longrightarrow> 0 < size_size (hd table)"
    and oneof: "entry_oneof (hd table) \<longrightarrow> (if oneof_first (hd table) then 0 < size_size (hd table) else base + size_pos (hd table) \<in> K)"
  shows "reads e m K (decode_field one many e table base) (field_cells one' many' table m base)"
proof -
  let ?f = "hd table"
  let ?p = "base + int (data_offset ?f) + size_offset ?f"
  have pos: "?p = base + size_pos ?f" by (simp add: size_pos_def)
  have "reads e m K (one a) (one' a)" "reads e m K (many n) (many' n)" for a n
    using reads_mono[OF one] reads_mono[OF many] by auto
  note r = this reads_optional[where one = one and one' = one', OF one]
    reads_repeated[where many = many and many' = many', OF many] reads_oneof[where one = one and one' = one', OF one]
  consider (a) "FIELD_REQUIRED ?f" | (b) "\<not> FIELD_REQUIRED ?f" "FIELD_OPTIONAL ?f"
    | (c) "\<not> FIELD_REQUIRED ?f" "\<not> FIELD_OPTIONAL ?f" "FIELD_REPEATED ?f"
    | (d) "\<not> FIELD_REQUIRED ?f" "\<not> FIELD_OPTIONAL ?f" "\<not> FIELD_REPEATED ?f" "FIELD_FIXED_REPEATED ?f"
    | (e) "entry_oneof ?f"
    | (f) "\<not> FIELD_REQUIRED ?f" "\<not> FIELD_OPTIONAL ?f" "\<not> FIELD_REPEATED ?f" "\<not> FIELD_FIXED_REPEATED ?f" "\<not> FIELD_ONEOF ?f"
    by (auto simp: entry_oneof_def)
  then show ?thesis
  proof cases
    case c
    show ?thesis
      using r(4)[where n = "size_size ?f" and K = K and p = ?p and mx = "array_size ?f"] c
      by (cases "4 < size_size ?f") (simp_all add: decode_field_def[abs_def] field_cells_def Let_def)
  next
    case e
    then show ?thesis
      using r(5)[where first = "oneof_first ?f" and n = "size_size ?f" and p = ?p and K = K
          and valid = "check_oneof_which_tag_validity table" and t = "oneof_tag ?f" and a = "base + int (data_offset ?f)"] oneof[folded pos]
      by (simp add: decode_field_def[abs_def] field_cells_def entry_oneof_def Let_def)
  qed (use r opt in \<open>simp_all add: decode_field_def[abs_def] field_cells_def Let_def\<close>)
qed

lemma tb_decode_reads:
  assumes "tb_table_ok w fs" "case w of None \<Rightarrow> True | Some p \<Rightarrow> base + p \<in> K"
  shows "reads e m K (tb_decode e fs base) (tb_cells fs m base)"
  using assms
proof (induction fs arbitrary: base K w rule: tb_table_induct)
  case Nil
  show ?case by (simp add: reads_def tb_decode.simps tb_cells.simps)
next
  case (Cons f fs)
  have eq: "tb_decode e (f # fs) base = (\<lambda>s. seq_ok
       (if DATA_SCALAR f then
          decode_field (\<lambda>a. tb_read_from_istream_little_endian a (data_size f) 1 e)
            (\<lambda>n. tb_read_from_istream_little_endian (base + int (data_offset f)) (data_size f) n e) e (f # fs) base s
        else if DATA_MESSAGE f then
          decode_field (\<lambda>a. tb_decode e (ptr f) a)
            (\<lambda>n. all_ok (\<lambda>k. tb_decode e (ptr f) (base + int (data_offset f) + int (k * data_size f))) [0..<n])
            e (f # fs) base s
        else (False, s)) (tb_decode e fs base))"
    by (simp add: fun_eq_iff tb_decode.simps)
  have sub: "reads e m {} (tb_decode e (ptr f) a) (tb_cells (ptr f) m a)" if "\<not> DATA_SCALAR f" for a
    using Cons.IH(1)[of None] Cons.prems(1) that by simp
  have entry: "FIELD_OPTIONAL (hd (f # fs)) \<longrightarrow> 0 < size_size (hd (f # fs))"
    "entry_oneof (hd (f # fs)) \<longrightarrow> (if oneof_first (hd (f # fs)) then 0 < size_size (hd (f # fs)) else base + size_pos (hd (f # fs)) \<in> K)"
    using Cons.prems by auto
  let ?c = "if DATA_SCALAR f then
          field_cells (\<lambda>a. Some (array_cells a (data_size f) 1))
            (\<lambda>n. Some (array_cells (base + int (data_offset f)) (data_size f) n)) (f # fs) m base
        else if DATA_MESSAGE f then
          field_cells (\<lambda>a. tb_cells (ptr f) m a)
            (\<lambda>n. all_cells (\<lambda>k. tb_cells (ptr f) m (base + int (data_offset f) + int (k * data_size f))) [0..<n])
            (f # fs) m base
        else None"
  have tag: "base + size_pos f \<in> K \<union> covered cs" if "entry_oneof f" "?c = Some cs" for cs
    using that Cons.prems
    by (auto simp: field_cells_def entry_oneof_def size_pos_def then_cells_def Let_def split: if_splits option.splits)
  show ?case unfolding eq tb_cells.simps
  proof (rule reads_then)
    show "reads e m K (\<lambda>s. if DATA_SCALAR f then
          decode_field (\<lambda>a. tb_read_from_istream_little_endian a (data_size f) 1 e)
            (\<lambda>n. tb_read_from_istream_little_endian (base + int (data_offset f)) (data_size f) n e) e (f # fs) base s
        else if DATA_MESSAGE f then
          decode_field (\<lambda>a. tb_decode e (ptr f) a)
            (\<lambda>n. all_ok (\<lambda>k. tb_decode e (ptr f) (base + int (data_offset f) + int (k * data_size f))) [0..<n])
            e (f # fs) base s
        else (False, s)) ?c"
      using sub entry by (auto intro!: reads_decode_field reads_all)
    fix cs assume "?c = Some cs"
    then show "reads e m (K \<union> covered cs) (tb_decode e fs base) (tb_cells fs m base)"
      using Cons.prems tag by (intro Cons.IH(2)[where w = "if entry_oneof f then Some (size_pos f) else None"]) (auto split: option.splits)
  qed
qed

section \<open>Cells do not depend on anything else\<close>

text \<open>A copy of the structure that is moved by \<open>d\<close> has the cells of the original, moved by \<open>d\<close>.\<close>

definition moved :: "int \<Rightarrow> memory \<Rightarrow> memory" where
  "moved d m = (\<lambda>x. m (x - d))"

fun move :: "int \<Rightarrow> cell \<Rightarrow> cell" where
  "move d (Raw a n) = Raw (a + d) n"
| "move d (Conv a n) = Conv (a + d) n"

abbreviation move_cells :: "int \<Rightarrow> cell list option \<Rightarrow> cell list option" where
  "move_cells d \<equiv> map_option (map (move d))"

lemma rd_moved [simp]: "rd (moved d m) (a + d) n = rd m a n"
  by (auto simp: rd_def moved_def algebra_simps)

lemma moved_at [simp]: "moved d m (a + d) = m a"
  by (simp add: moved_def)

lemma cell_bytes_move [simp]: "cell_bytes e (moved d m) (move d c) = cell_bytes e m c"
  by (cases c) (auto simp: cell_bytes_def cell_conv_def)

lemma cells_bytes_move [simp]: "cells_bytes e (moved d m) (map (move d) cs) = cells_bytes e m cs"
  by (induction cs) auto

lemma total_len_move [simp]: "total_len (map (move d) cs) = total_len cs"
proof (induction cs)
  case (Cons c cs)
  then show ?case by (cases c) auto
qed simp

lemma covered_move: "x + d \<in> covered (map (move d) cs) \<longleftrightarrow> x \<in> covered cs"
proof (induction cs)
  case (Cons c cs)
  then show ?case by (cases c) auto
qed simp

lemma move_then: "move_cells d (then_cells a b) = then_cells (move_cells d a) (move_cells d b)"
  by (cases a; cases b) (auto simp: then_cells_def)

lemma move_array: "map (move d) (array_cells a k n) = array_cells (a + d) k n"
  by (auto simp: array_cells_def)

lemma move_all: "(\<And>k. c' k = move_cells d (c k)) \<Longrightarrow> all_cells c' ks = move_cells d (all_cells c ks)"
  by (induction ks) (auto simp: move_then)

lemma field_cells_moved:
  assumes "\<And>a. one' (a + d) = move_cells d (one a)" "\<And>n. many' n = move_cells d (many n)"
  shows "field_cells one' many' table (moved d m) (base + d) = move_cells d (field_cells one many table m base)"
proof -
  let ?f = "hd table"
  have 1: "base + d + int (data_offset ?f) = (base + int (data_offset ?f)) + d"
    and 2: "base + int (data_offset ?f) + d + size_offset ?f = (base + int (data_offset ?f) + size_offset ?f) + d" by auto
  show ?thesis
    unfolding field_cells_def Let_def 1 2 moved_at rd_moved
    by (simp add: assms move_then move_array)
qed

lemma tb_cells_moved: "tb_cells fs (moved d m) (base + d) = move_cells d (tb_cells fs m base)"
proof (induction fs arbitrary: base rule: tb_table_induct)
  case (Cons f fs)
  have sub: "tb_cells (ptr f) (moved d m) b = move_cells d (tb_cells (ptr f) m a)" if "b = a + d" for a b
    using Cons.IH(1) that by simp
  show ?case
    unfolding tb_cells.simps move_then Cons.IH(2)
    by (auto intro!: arg_cong2[where f = then_cells] field_cells_moved move_all sub simp: move_array algebra_simps)
qed (simp add: tb_cells.simps)

text \<open>Memories that agree on the cells of one of them have the same cells.\<close>

definition stable :: "memory \<Rightarrow> memory \<Rightarrow> int set \<Rightarrow> cell list option \<Rightarrow> cell list option \<Rightarrow> bool" where
  "stable m m' K c c' \<longleftrightarrow> (\<forall>cs. c = Some cs \<longrightarrow> agree (K \<union> covered cs) m m' \<longrightarrow> c' = Some cs)"

lemma stable_refl [simp]: "stable m m' K c c"
  by (simp add: stable_def)

lemma stable_mono: "stable m m' K c c' \<Longrightarrow> K \<subseteq> L \<Longrightarrow> stable m m' L c c'"
  by (auto simp: stable_def agree_def subset_eq)

lemma stable_then:
  assumes "stable m m' K a a'" "\<And>cs. a = Some cs \<Longrightarrow> agree (K \<union> covered cs) m m' \<Longrightarrow> stable m m' (K \<union> covered cs) b b'"
  shows "stable m m' K (then_cells a b) (then_cells a' b')"
  unfolding stable_def
proof (intro allI impI)
  fix cs assume c: "then_cells a b = Some cs" and ag: "agree (K \<union> covered cs) m m'"
  obtain as bs where ab: "a = Some as" "b = Some bs" "cs = as @ bs"
    using c by (auto simp: then_cells_def split: option.splits)
  have 1: "agree (K \<union> covered as) m m'" using ag ab by (auto simp: agree_def)
  have "a' = Some as" using assms(1) ab 1 by (simp add: stable_def)
  moreover have "b' = Some bs" using assms(2)[OF ab(1) 1] ab ag by (simp add: stable_def Un_assoc)
  ultimately show "then_cells a' b' = Some cs" using ab by (simp add: then_cells_def)
qed

lemma stable_all:
  assumes "\<And>k. stable m m' {} (c k) (c' k)"
  shows "stable m m' K (all_cells c ks) (all_cells c' ks)"
  by (induction ks arbitrary: K) (auto intro!: stable_then stable_mono[OF assms])

lemma stable_field_cells:
  assumes one: "\<And>a. stable m m' {} (one a) (one' a)" and many: "\<And>n. stable m m' {} (many n) (many' n)"
    and opt: "FIELD_OPTIONAL (hd table) \<longrightarrow> 0 < size_size (hd table)"
    and oneof: "entry_oneof (hd table) \<longrightarrow> (if oneof_first (hd table) then 0 < size_size (hd table) else base + size_pos (hd table) \<in> K)"
  shows "stable m m' K (field_cells one many table m base) (field_cells one' many' table m' base)"
proof -
  let ?f = "hd table"
  let ?p = "base + int (data_offset ?f) + size_offset ?f"
  have pos: "?p = base + size_pos ?f" by (simp add: size_pos_def)
  note c = stable_mono[OF one empty_subsetI] stable_mono[OF many empty_subsetI]
  have at: "m' ?p = m ?p" if "agree L m m'" "?p \<in> L" for L using that by (simp add: agree_def)
  consider (a) "FIELD_REQUIRED ?f" | (b) "\<not> FIELD_REQUIRED ?f" "FIELD_OPTIONAL ?f"
    | (c) "\<not> FIELD_REQUIRED ?f" "\<not> FIELD_OPTIONAL ?f" "FIELD_REPEATED ?f"
    | (d) "\<not> FIELD_REQUIRED ?f" "\<not> FIELD_OPTIONAL ?f" "\<not> FIELD_REPEATED ?f" "FIELD_FIXED_REPEATED ?f"
    | (e) "entry_oneof ?f"
    | (f) "\<not> FIELD_REQUIRED ?f" "\<not> FIELD_OPTIONAL ?f" "\<not> FIELD_REPEATED ?f" "\<not> FIELD_FIXED_REPEATED ?f" "\<not> FIELD_ONEOF ?f"
    by (auto simp: entry_oneof_def)
  then show ?thesis
  proof cases
    case b
    have "stable m m' K (then_cells (Some [Raw ?p (size_size ?f)]) (if m ?p \<noteq> 0 then one a else Some []))
       (then_cells (Some [Raw ?p (size_size ?f)]) (if m' ?p \<noteq> 0 then one' a else Some []))" for a
      by (rule stable_then) (use at opt b c in \<open>auto\<close>)
    then show ?thesis using b by (simp add: field_cells_def Let_def)
  next
    case c': c
    let ?n = "size_size ?f"
    have rd: "stable m m' K (if tb_count (rd m ?p ?n) > array_size ?f then None
          else then_cells (Some (array_cells ?p ?n 1)) (many (tb_count (rd m ?p ?n))))
       (if tb_count (rd m' ?p ?n) > array_size ?f then None
          else then_cells (Some (array_cells ?p ?n 1)) (many' (tb_count (rd m' ?p ?n))))" if n: "?n \<le> 4"
      unfolding stable_def
    proof (intro allI impI)
      fix cs assume cs: "(if tb_count (rd m ?p ?n) > array_size ?f then None
          else then_cells (Some (array_cells ?p ?n 1)) (many (tb_count (rd m ?p ?n)))) = Some cs"
        and ag: "agree (K \<union> covered cs) m m'"
      then have "{?p ..< ?p + int ?n} \<subseteq> covered cs"
        using n by (auto simp: then_cells_def array_cells_def split: if_splits option.splits)
      then have "rd m' ?p ?n = rd m ?p ?n" using ag by (intro rd_cong) (auto simp: agree_def)
      moreover have "stable m m' K (then_cells (Some (array_cells ?p ?n 1)) (many (tb_count (rd m ?p ?n))))
         (then_cells (Some (array_cells ?p ?n 1)) (many' (tb_count (rd m ?p ?n))))"
        by (rule stable_then) (use c in auto)
      ultimately show "(if tb_count (rd m' ?p ?n) > array_size ?f then None
          else then_cells (Some (array_cells ?p ?n 1)) (many' (tb_count (rd m' ?p ?n)))) = Some cs"
        using cs ag by (simp add: stable_def split: if_splits)
    qed
    show ?thesis using rd c' by (cases "?n > 4") (simp_all add: field_cells_def Let_def)
  next
    case e
    have "stable m m' K (then_cells (if oneof_first ?f then if \<not> check_oneof_which_tag_validity table (unat (m ?p)) then None
            else Some [Raw ?p (size_size ?f)] else Some []) (if unat (m ?p) = oneof_tag ?f then one a else Some []))
       (then_cells (if oneof_first ?f then if \<not> check_oneof_which_tag_validity table (unat (m' ?p)) then None
            else Some [Raw ?p (size_size ?f)] else Some []) (if unat (m' ?p) = oneof_tag ?f then one' a else Some []))" for a
    proof (rule stable_then)
      show "stable m m' K (if oneof_first ?f then if \<not> check_oneof_which_tag_validity table (unat (m ?p)) then None
            else Some [Raw ?p (size_size ?f)] else Some []) (if oneof_first ?f then if \<not> check_oneof_which_tag_validity table (unat (m' ?p)) then None
            else Some [Raw ?p (size_size ?f)] else Some [])"
        using oneof e at by (auto simp: stable_def)
    qed (use at oneof[folded pos] e c in \<open>auto split: if_splits\<close>)
    then show ?thesis using e by (simp add: field_cells_def entry_oneof_def Let_def)
  qed (use c in \<open>simp_all add: field_cells_def Let_def\<close>)
qed

lemma tb_cells_stable:
  assumes "tb_table_ok w fs" "case w of None \<Rightarrow> True | Some p \<Rightarrow> base + p \<in> K"
  shows "stable m m' K (tb_cells fs m base) (tb_cells fs m' base)"
  using assms
proof (induction fs arbitrary: base K w rule: tb_table_induct)
  case (Cons f fs)
  have sub: "stable m m' {} (tb_cells (ptr f) m a) (tb_cells (ptr f) m' a)" if "\<not> DATA_SCALAR f" for a
    using Cons.IH(1)[of None] Cons.prems(1) that by simp
  have entry: "FIELD_OPTIONAL (hd (f # fs)) \<longrightarrow> 0 < size_size (hd (f # fs))"
    "entry_oneof (hd (f # fs)) \<longrightarrow> (if oneof_first (hd (f # fs)) then 0 < size_size (hd (f # fs)) else base + size_pos (hd (f # fs)) \<in> K)"
    using Cons.prems by auto
  show ?case unfolding tb_cells.simps
  proof (rule stable_then, goal_cases)
    case 1
    show ?case using sub entry by (auto intro!: stable_field_cells stable_all)
  next
    case (2 cs)
    then have "entry_oneof f \<Longrightarrow> base + size_pos f \<in> K \<union> covered cs"
      using Cons.prems
      by (auto simp: field_cells_def entry_oneof_def size_pos_def then_cells_def Let_def split: if_splits option.splits)
    then show ?case
      using Cons.prems by (intro Cons.IH(2)[where w = "if entry_oneof f then Some (size_pos f) else None"]) (auto split: option.splits)
  qed
qed (simp add: tb_cells.simps)

section \<open>Round trip\<close>

definition small :: "cell list option \<Rightarrow> bool" where
  "small c \<longleftrightarrow> (\<forall>cs. c = Some cs \<longrightarrow> (\<forall>c\<in>set cs. cell_len c < 256))"

lemma small_then: "small a \<Longrightarrow> small b \<Longrightarrow> small (then_cells a b)"
  by (auto simp: small_def then_cells_def split: option.splits)

lemma small_all: "(\<And>k. small (c k)) \<Longrightarrow> small (all_cells c ks)"
  by (induction ks) (auto intro!: small_then, simp add: small_def)

lemma small_simps [simp]:
  "small None" "small (Some [])" "small (Some (array_cells a d n))" "small (Some [Raw a n]) \<longleftrightarrow> n < 256"
  by (auto simp: small_def array_cells_def)

lemma small_if: "(b \<Longrightarrow> small c) \<Longrightarrow> (\<not> b \<Longrightarrow> small d) \<Longrightarrow> small (if b then c else d)"
  by simp

lemma small_field_cells:
  assumes "\<And>a. small (one a)" "\<And>n. small (many n)" "size_size (hd table) < 256"
  shows "small (field_cells one many table m base)"
  unfolding field_cells_def Let_def
  by (intro small_if small_then assms small_simps) (use assms(3) in simp_all)

lemma tb_cells_small: "tb_table_ok w fs \<Longrightarrow> small (tb_cells fs m base)"
proof (induction fs arbitrary: w base rule: tb_table_induct)
  case (Cons f fs)
  have sub: "small (tb_cells (ptr f) m a)" if "\<not> DATA_SCALAR f" for a using Cons.IH(1)[of None] Cons.prems that by simp
  have sz: "size_size (hd (f # fs)) < 256" using Cons.prems by simp
  have rest: "small (tb_cells fs m base)" using Cons.IH(2) Cons.prems by auto
  show ?case unfolding tb_cells.simps
    using sub sz rest by (auto intro!: small_then small_field_cells small_all)
qed (simp add: tb_cells.simps)

lemma tb_encode_success:
  assumes "tb_table_ok None fs" "ostream_ok os" "tb_encode e fs m base os = (True, os')"
  obtains cs where "tb_cells fs m base = Some cs" "bytes_written os + total_len cs \<le> obuf_size os"
    "os' = os\<lparr>obuf := overwrite (obuf os) (bytes_written os) (cells_bytes e m cs), bytes_written := bytes_written os + total_len cs\<rparr>"
proof (cases "tb_cells fs m base")
  case None
  then show thesis using tb_encode_writes[of e m fs base] assms(3) by (auto simp: writes_def dest: spec[of _ os])
next
  case (Some cs)
  have "\<forall>c\<in>set cs. cell_len c < 256" using tb_cells_small[OF assms(1), of m base] Some by (simp add: small_def)
  moreover have "write_cells e m cs os = (True, os')"
    using tb_encode_writes[of e m fs base] assms(3) Some by (simp add: writes_def)
  moreover from this have "fst (write_cells e m cs os)" by simp
  ultimately show thesis using write_cells_effect[OF assms(2), of cs e m] that Some
    by (cases "bytes_written os + total_len cs \<le> obuf_size os") auto
qed

lemma tb_encode_by_cells:
  assumes "tb_table_ok None fs" "ostream_ok os" "tb_cells fs m base = Some cs" "bytes_written os + total_len cs \<le> obuf_size os"
  shows "tb_encode e fs m base os
    = (True, os\<lparr>obuf := overwrite (obuf os) (bytes_written os) (cells_bytes e m cs), bytes_written := bytes_written os + total_len cs\<rparr>)"
proof -
  have "\<forall>c\<in>set cs. cell_len c < 256" using tb_cells_small[OF assms(1), of m base] assms(3) by (simp add: small_def)
  then show ?thesis using tb_encode_writes[of e m fs base] assms write_cells_effect[OF assms(2), of cs e m] by (simp add: writes_def)
qed

lemma tb_decode_by_cells:
  assumes "tb_table_ok None fs" "tb_cells fs m base = Some cs" "istream_holds e m cs is"
  shows "tb_decode e fs base (is, m0) = (True, advance (total_len cs) is, restore m cs m0)"
  using tb_decode_reads[OF assms(1), of base "{}" e m] assms by (simp add: reads_def agree_def)

lemma cells_bytes_cong: "agree (covered cs) m m' \<Longrightarrow> cells_bytes e m' cs = cells_bytes e m cs"
proof (induction cs)
  case (Cons c cs)
  have "rd m' (cell_addr c) (cell_len c) = rd m (cell_addr c) (cell_len c)"
    using Cons.prems by (intro rd_cong) (auto simp: agree_def)
  moreover have "agree (covered cs) m m'" using Cons.prems by (auto simp: agree_def)
  ultimately show ?case using Cons.IH by (simp add: cell_bytes_def)
qed simp

end
