(* ===== verification/Tinybuf_Bound.thy ===== *)
theory Tinybuf_Bound
  imports Tinybuf_Correct
begin

text \<open>
  What \<open>tb_get_max_encoded_len\<close> computes: a bound for every encoding, for tables in which a
  oneof-field that starts with a message has its longest entry first.
\<close>

section \<open>The longest encoding\<close>

text \<open>The specification: on unbounded numbers, with every entry of a oneof-field counted as itself.\<close>

function tb_longest :: "tb_field list \<Rightarrow> nat" where
  "tb_longest [] = 0"
| "tb_longest (f # fs) =
     (let one = if DATA_MESSAGE f then tb_longest (ptr f) else data_size f in
      if FIELD_REQUIRED f then one + tb_longest fs
      else if FIELD_OPTIONAL f then size_size f + one + tb_longest fs
      else if FIELD_REPEATED f then size_size f + array_size f * one + tb_longest fs
      else if FIELD_FIXED_REPEATED f then array_size f * one + tb_longest fs
      else size_size f + fold max (map (\<lambda>g. if DATA_MESSAGE g then tb_longest (ptr g) else data_size g)
             (f # takeWhile oneof_more fs)) 0 + tb_longest (dropWhile oneof_more fs))"
  by pat_completeness auto

termination
  by (relation "measure (size_list size)") (auto intro: ptr_smaller size_dropWhile_less ptr_smaller_takeWhile)

declare tb_longest.simps [simp del]

abbreviation entry_len :: "tb_field \<Rightarrow> nat" where
  "entry_len g \<equiv> if DATA_MESSAGE g then tb_longest (ptr g) else data_size g"

text \<open>
  Entries have one data type and one field type, the entries of a oneof-field have different tags,
  and the longest one comes first when the first is a message.
\<close>

function table_regular :: "tb_field list \<Rightarrow> bool" where
  "table_regular [] = True"
| "table_regular (f # fs) \<longleftrightarrow>
     DATA_SCALAR f \<noteq> DATA_MESSAGE f
     \<and> (FIELD_REQUIRED f \<or> FIELD_OPTIONAL f \<or> FIELD_REPEATED f \<or> FIELD_FIXED_REPEATED f) = (\<not> FIELD_ONEOF f)
     \<and> (FIELD_ONEOF f \<longrightarrow> distinct (map oneof_tag (f # takeWhile oneof_more fs)))
     \<and> (FIELD_ONEOF f \<and> oneof_first f \<and> DATA_MESSAGE f \<longrightarrow>
          (\<forall>g\<in>set (takeWhile oneof_more fs). entry_len g \<le> tb_longest (ptr f)))
     \<and> (DATA_MESSAGE f \<longrightarrow> table_regular (ptr f))
     \<and> table_regular fs"
  by pat_completeness auto

termination
  by (relation "measure (size_list size)") (auto intro: ptr_smaller)

lemma tb_group_induct [case_names Nil Cons]:
  assumes "P []"
    and "\<And>f fs. P (ptr f) \<Longrightarrow> P fs \<Longrightarrow> P (dropWhile oneof_more fs)
      \<Longrightarrow> (\<And>g. g \<in> set (takeWhile oneof_more fs) \<Longrightarrow> P (ptr g)) \<Longrightarrow> P (f # fs)"
  shows "P fs"
proof (induction "size_list size fs" arbitrary: fs rule: less_induct)
  case less
  show ?case
  proof (cases fs)
    case (Cons f gs)
    have "size_list size (ptr f) < size_list size fs" "size_list size gs < size_list size fs"
      "size_list size (dropWhile oneof_more gs) < size_list size fs"
      "\<And>g. g \<in> set (takeWhile oneof_more gs) \<Longrightarrow> size_list size (ptr g) < size_list size fs"
      using Cons ptr_smaller[of f] size_dropWhile_less[of size oneof_more gs] ptr_smaller_takeWhile[of _ oneof_more gs "size f"] by auto
    then have "P (f # gs)" by (intro assms(2) less)
    then show ?thesis by (simp add: Cons)
  qed (simp add: assms(1))
qed

lemma table_regular_suffix: "table_regular (gs @ fs) \<Longrightarrow> table_regular fs"
  by (induction gs) auto

lemma table_regular_dropWhile: "table_regular fs \<Longrightarrow> table_regular (dropWhile P fs)"
  using table_regular_suffix[of "takeWhile P fs" "dropWhile P fs"] by simp

lemma tb_table_ok_None: "tb_table_ok w fs \<Longrightarrow> fs = [] \<or> \<not> oneof_more (hd fs) \<Longrightarrow> tb_table_ok None fs"
  by (cases fs) (auto simp: oneof_more_def entry_oneof_def)

lemma tb_table_ok_dropWhile: "tb_table_ok w fs \<Longrightarrow> tb_table_ok None (dropWhile oneof_more fs)"
proof (induction fs arbitrary: w)
  case (Cons f fs)
  then show ?case using tb_table_ok_None[of w "f # fs"] by (cases "oneof_more f") auto
qed simp

lemma table_regular_members:
  assumes "table_regular fs" "g \<in> set fs"
  shows "DATA_SCALAR g \<noteq> DATA_MESSAGE g" "DATA_MESSAGE g \<Longrightarrow> table_regular (ptr g)" "FIELD_ONEOF g = entry_oneof g"
  using assms by (induction fs) (auto simp: entry_oneof_def)

lemma tb_table_ok_members: "tb_table_ok w fs \<Longrightarrow> g \<in> set fs \<Longrightarrow> \<not> DATA_SCALAR g \<Longrightarrow> tb_table_ok None (ptr g)"
  by (induction fs arbitrary: w) auto

lemma fold_max_ge: "x \<in> set xs \<Longrightarrow> x \<le> fold max xs (a :: nat)"
  by (simp add: Max.set_eq_fold[symmetric])

lemma fold_max_start: "a \<le> fold max xs (a :: nat)"
  by (simp add: Max.set_eq_fold[symmetric])

lemma fold_max_const: "fold max (map (\<lambda>_. c) xs) (c :: nat) = c"
  by (induction xs) auto

lemma fold_max_first: "(\<forall>x\<in>set xs. h x \<le> c) \<Longrightarrow> fold max (map h xs) (c :: nat) = c"
  by (induction xs) (auto simp: max_def)

text \<open>The loop computes the specification.\<close>

lemma max_len_loop_longest:
  assumes "tb_table_ok None fs" "table_regular fs" "len + tb_longest fs < 4294967296"
  shows "max_len_loop len fs = len + tb_longest fs"
  using assms
proof (induction fs arbitrary: len rule: tb_group_induct)
  case Nil
  show ?case by (simp add: max_len_loop.simps tb_longest.simps)
next
  case (Cons f fs)
  let ?one = "entry_len f"
  note ok = Cons.prems(1,2)
  have ptr: "max_len_loop 0 (ptr f) = tb_longest (ptr f)" if "DATA_MESSAGE f" "tb_longest (ptr f) < 4294967296"
    using Cons.IH(1)[of 0] ok that by auto
  have rep: "array_size f * max_len_loop 0 (ptr f) = array_size f * tb_longest (ptr f)"
    if "DATA_MESSAGE f" "array_size f * tb_longest (ptr f) < 4294967296"
  proof (cases "array_size f")
    case (Suc k)
    then have "tb_longest (ptr f) < 4294967296" using that(2) by simp
    then show ?thesis using ptr that(1) by simp
  qed simp
  show ?case
  proof (cases "FIELD_ONEOF f")
    case False
    have rest: "max_len_loop k fs = k + tb_longest fs" if "k + tb_longest fs < 4294967296" for k
      using Cons.IH(2)[of k] ok False that by (auto simp: entry_oneof_def)
    consider (a) "FIELD_REQUIRED f" | (b) "\<not> FIELD_REQUIRED f" "FIELD_OPTIONAL f"
      | (c) "\<not> FIELD_REQUIRED f" "\<not> FIELD_OPTIONAL f" "FIELD_REPEATED f"
      | (d) "\<not> FIELD_REQUIRED f" "\<not> FIELD_OPTIONAL f" "\<not> FIELD_REPEATED f" "FIELD_FIXED_REPEATED f"
      using ok(2) False by auto
    then show ?thesis
      by cases (use ok(2) Cons.prems(3) ptr rep rest in \<open>auto simp: max_len_loop.simps(2) tb_longest.simps(2)\<close>)
  next
    case True
    let ?gs = "takeWhile oneof_more fs" and ?mx = "fold max (map entry_len (f # takeWhile oneof_more fs)) 0"
    have first: "oneof_first f" using True ok by (auto simp: entry_oneof_def)
    have lon: "tb_longest (f # fs) = size_size f + ?mx + tb_longest (dropWhile oneof_more fs)"
      using True ok(2) by (simp add: tb_longest.simps(2) Let_def)
    have el: "entry_len g \<le> ?mx" if "g \<in> set (f # ?gs)" for g
      using fold_max_ge[of "entry_len g" "map entry_len (f # ?gs)" 0] that by auto
    have mem: "(if DATA_MESSAGE g then max_len_loop 0 (ptr g) else data_size g) = entry_len g" if g: "g \<in> set (f # ?gs)" for g
    proof (cases "DATA_MESSAGE g")
      case True
      have gm: "g \<in> set (f # fs)" using g set_takeWhileD by fastforce
      have "tb_table_ok None (ptr g)" "table_regular (ptr g)"
        using tb_table_ok_members[OF ok(1) gm] table_regular_members[OF ok(2) gm] True by auto
      moreover have "tb_longest (ptr g) < 4294967296" using el[OF g] Cons.prems(3) lon True by simp
      ultimately show ?thesis using Cons.IH(1)[of 0] Cons.IH(4)[of g 0] g True by auto
    qed simp
    have rest: "max_len_loop k (dropWhile oneof_more fs) = k + tb_longest (dropWhile oneof_more fs)"
      if "k + tb_longest (dropWhile oneof_more fs) < 4294967296" for k
      using Cons.IH(3)[of k] tb_table_ok_dropWhile[of _ fs] table_regular_dropWhile[of fs] ok that by auto
    have step: "max_len_loop len (f # fs) = max_len_loop (u32_add (u32_add len (size_size f)) ?mx) (dropWhile oneof_more fs)"
    proof (cases "DATA_SCALAR f")
      case sc: True
      have eq: "map (\<lambda>f. if DATA_MESSAGE f then max_len_loop 0 (ptr f) else data_size f) (f # ?gs) = map entry_len (f # ?gs)"
        by (rule map_cong) (auto simp: mem simp del: if_split)
      show ?thesis unfolding max_len_loop.simps(2) eq using True sc ok(2) by auto
    next
      case me: False
      then have m: "DATA_MESSAGE f" using ok(2) by auto
      have "\<forall>g\<in>set ?gs. entry_len g \<le> tb_longest (ptr f)" using ok(2) True first m by simp
      from fold_max_first[OF this] have eq: "?mx = tb_longest (ptr f)" using m by simp
      have "fold max (map (\<lambda>g. if DATA_MESSAGE f then max_len_loop 0 (ptr f) else data_size g) (f # ?gs)) 0 = tb_longest (ptr f)"
        using mem[of f] m by (simp add: fold_max_const)
      then show ?thesis unfolding max_len_loop.simps(2) eq using True me m ok(2) by auto
    qed
    show ?thesis unfolding step using Cons.prems(3) lon rest by (simp del: list.map fold.simps)
  qed
qed

section \<open>No encoding is longer\<close>

lemma u8_le: "u8 n \<le> n"
  by (simp add: u8_def)

lemma total_len_array: "total_len (array_cells a d n) \<le> n * d"
  using u8_le[of d] by (simp add: array_cells_def total_len_def o_def sum_list_triv)

lemma all_cells_len:
  assumes "all_cells c ks = Some cs" "\<And>k ds. c k = Some ds \<Longrightarrow> total_len ds \<le> n"
  shows "total_len cs \<le> length ks * n"
  using assms(1)
proof (induction ks arbitrary: cs)
  case (Cons k ks)
  then obtain as bs where "c k = Some as" "all_cells c ks = Some bs" "cs = as @ bs"
    by (auto simp: then_cells_def split: option.splits)
  then show ?case using Cons.IH assms(2)[of k as] by (simp add: add_mono)
qed simp

text \<open>The data of one entry, and of the elements of an array.\<close>

definition data_cells :: "tb_field \<Rightarrow> memory \<Rightarrow> int \<Rightarrow> cell list option" where
  "data_cells f m a = (if DATA_SCALAR f then Some (array_cells a (data_size f) 1) else tb_cells (ptr f) m a)"

definition many_cells :: "tb_field \<Rightarrow> memory \<Rightarrow> int \<Rightarrow> nat \<Rightarrow> cell list option" where
  "many_cells f m a n = (if DATA_SCALAR f then Some (array_cells a (data_size f) n)
     else all_cells (\<lambda>k. tb_cells (ptr f) m (a + int (k * data_size f))) [0..<n])"

lemma then_cells_Nil [simp]: "then_cells (Some []) c = c"
  by (cases c) (auto simp: then_cells_def)

lemma then_cells_SomeE:
  assumes "then_cells a b = Some cs"
  obtains as bs where "a = Some as" "b = Some bs" "cs = as @ bs"
  using assms by (auto simp: then_cells_def split: option.splits)

lemma tb_cells_Cons:
  "DATA_SCALAR f \<noteq> DATA_MESSAGE f \<Longrightarrow> tb_cells (f # fs) m base = then_cells
    (field_cells (data_cells f m) (many_cells f m (base + int (data_offset f))) (f # fs) m base) (tb_cells fs m base)"
  by (auto simp: tb_cells.simps(2) data_cells_def[abs_def] many_cells_def[abs_def])

lemma field_len:
  assumes c: "field_cells one many table m base = Some as" "\<not> FIELD_ONEOF (hd table)"
    and one: "\<And>a ds. one a = Some ds \<Longrightarrow> total_len ds \<le> x" and many: "\<And>n ds. many n = Some ds \<Longrightarrow> total_len ds \<le> n * x"
  shows "total_len as \<le> (if FIELD_REQUIRED (hd table) then x else if FIELD_OPTIONAL (hd table) then size_size (hd table) + x
    else if FIELD_REPEATED (hd table) then size_size (hd table) + array_size (hd table) * x else array_size (hd table) * x)"
proof -
  let ?f = "hd table" let ?p = "base + int (data_offset (hd table)) + size_offset (hd table)"
  let ?n = "tb_count (rd m ?p (size_size ?f))"
  consider (a) "FIELD_REQUIRED ?f" | (b) "\<not> FIELD_REQUIRED ?f" "FIELD_OPTIONAL ?f"
    | (c) "\<not> FIELD_REQUIRED ?f" "\<not> FIELD_OPTIONAL ?f" "FIELD_REPEATED ?f"
    | (d) "\<not> FIELD_REQUIRED ?f" "\<not> FIELD_OPTIONAL ?f" "\<not> FIELD_REPEATED ?f" by auto
  then show ?thesis
  proof cases
    case b
    then show ?thesis using c one by (auto simp: field_cells_def Let_def elim!: then_cells_SomeE split: if_splits)
  next
    case c': c
    then have "then_cells (Some (array_cells ?p (size_size ?f) 1)) (many ?n) = Some as" and n: "?n \<le> array_size ?f"
      using c by (auto simp: field_cells_def Let_def split: if_splits)
    then obtain bs where bs: "many ?n = Some bs" "as = array_cells ?p (size_size ?f) 1 @ bs" by (auto elim!: then_cells_SomeE)
    have "total_len bs \<le> array_size ?f * x" by (rule order_trans[OF many[OF bs(1)] mult_le_mono1[OF n]])
    then show ?thesis using bs c' total_len_array[of ?p "size_size ?f" 1] by simp
  qed (use c one many in \<open>auto simp: field_cells_def Let_def split: if_splits\<close>)
qed

lemma oneof_more_cells:
  assumes "entry_oneof f" "\<not> oneof_first f" "DATA_SCALAR f \<noteq> DATA_MESSAGE f"
  shows "tb_cells (f # fs) m base = then_cells
    (if unat (m (base + size_pos f)) = oneof_tag f then data_cells f m (base + int (data_offset f)) else Some [])
    (tb_cells fs m base)"
  using assms by (simp add: tb_cells_Cons field_cells_def entry_oneof_def size_pos_def add.assoc)

lemma oneof_first_cells:
  assumes "entry_oneof f" "oneof_first f" "DATA_SCALAR f \<noteq> DATA_MESSAGE f" "tb_cells (f # fs) m base = Some cs"
  obtains as bs where "tb_cells fs m base = Some bs" "cs = Raw (base + size_pos f) (size_size f) # as @ bs"
    "(if unat (m (base + size_pos f)) = oneof_tag f then data_cells f m (base + int (data_offset f)) else Some []) = Some as"
proof -
  let ?w = "unat (m (base + size_pos f))"
  have "tb_cells (f # fs) m base = then_cells (then_cells
      (if \<not> check_oneof_which_tag_validity (f # fs) ?w then None else Some [Raw (base + size_pos f) (size_size f)])
      (if ?w = oneof_tag f then data_cells f m (base + int (data_offset f)) else Some [])) (tb_cells fs m base)"
    using assms(1-3)
    by (simp add: tb_cells_Cons field_cells_def entry_oneof_def size_pos_def add.assoc Let_def del: check_oneof_which_tag_validity.simps)
  then obtain xs bs where "then_cells
      (if \<not> check_oneof_which_tag_validity (f # fs) ?w then None else Some [Raw (base + size_pos f) (size_size f)])
      (if ?w = oneof_tag f then data_cells f m (base + int (data_offset f)) else Some []) = Some xs"
    "tb_cells fs m base = Some bs" "cs = xs @ bs"
    using assms(4) by (metis then_cells_SomeE)
  then show thesis
    by (elim then_cells_SomeE) (rule that, auto split: if_splits)
qed

lemma group_len:
  assumes "tb_table_ok (Some p) fs" "table_regular fs" "distinct (map oneof_tag (takeWhile oneof_more fs))"
    and "tb_cells fs m base = Some cs"
    and len: "\<And>g a ds. g \<in> set (takeWhile oneof_more fs) \<Longrightarrow> data_cells g m a = Some ds \<Longrightarrow> total_len ds \<le> mx"
  shows "\<exists>as bs. cs = as @ bs \<and> tb_cells (dropWhile oneof_more fs) m base = Some bs
    \<and> total_len as \<le> (if unat (m (base + p)) \<in> oneof_tag ` set (takeWhile oneof_more fs) then mx else 0)"
  using assms
proof (induction fs arbitrary: cs)
  case (Cons f fs)
  show ?case
  proof (cases "oneof_more f")
    case True
    have f: "entry_oneof f" "\<not> oneof_first f" "DATA_SCALAR f \<noteq> DATA_MESSAGE f" "size_pos f = p"
      using True Cons.prems(1,2) by (auto simp: oneof_more_def entry_oneof_def)
    obtain as cs' where as: "(if unat (m (base + p)) = oneof_tag f then data_cells f m (base + int (data_offset f)) else Some []) = Some as"
      and cs': "tb_cells fs m base = Some cs'" "cs = as @ cs'"
      using Cons.prems(4) oneof_more_cells[OF f(1-3)] f(4) by (auto elim!: then_cells_SomeE)
    have al: "total_len as \<le> (if unat (m (base + p)) = oneof_tag f then mx else 0)"
      using as Cons.prems(5)[of f] True by (auto split: if_splits)
    obtain as' bs where *: "cs' = as' @ bs" "tb_cells (dropWhile oneof_more fs) m base = Some bs"
      "total_len as' \<le> (if unat (m (base + p)) \<in> oneof_tag ` set (takeWhile oneof_more fs) then mx else 0)"
    proof -
      have "tb_table_ok (Some p) fs" "table_regular fs" "distinct (map oneof_tag (takeWhile oneof_more fs))"
        using Cons.prems(1-3) True f by auto
      then show thesis using Cons.IH[OF _ _ _ cs'(1)] Cons.prems(5) True that by auto
    qed
    have "oneof_tag f \<notin> oneof_tag ` set (takeWhile oneof_more fs)" using Cons.prems(3) True by simp
    then have "total_len (as @ as') \<le> (if unat (m (base + p)) \<in> oneof_tag ` set (takeWhile oneof_more (f # fs)) then mx else 0)"
      using *(3) al True by (auto split: if_splits)
    then show ?thesis using * cs' True by (metis append_assoc dropWhile.simps(2))
  qed (use Cons.prems in auto)
qed (auto simp: tb_cells.simps)

lemma tb_cells_longest:
  assumes "tb_table_ok None fs" "table_regular fs" "tb_cells fs m base = Some cs"
  shows "total_len cs \<le> tb_longest fs"
  using assms
proof (induction fs arbitrary: base cs rule: tb_group_induct)
  case (Cons f fs)
  note ok = Cons.prems(1,2)
  have ptr: "total_len ds \<le> tb_longest (ptr f)" if "DATA_MESSAGE f" "tb_cells (ptr f) m a = Some ds" for a ds
    using Cons.IH(1) ok that by auto
  have one: "total_len ds \<le> entry_len f" if "data_cells f m a = Some ds" for a ds
    using ptr that ok(2) total_len_array[of a "data_size f" 1] by (auto simp: data_cells_def split: if_splits)
  have many: "total_len ds \<le> n * entry_len f" if "many_cells f m a n = Some ds" for a n ds
    using ptr that ok(2) total_len_array[of a "data_size f" n] all_cells_len[of _ "[0..<n]" ds "tb_longest (ptr f)"]
    by (auto simp: many_cells_def split: if_splits)
  show ?case
  proof (cases "FIELD_ONEOF f")
    case False
    obtain as bs where c: "field_cells (data_cells f m) (many_cells f m (base + int (data_offset f))) (f # fs) m base = Some as"
      "tb_cells fs m base = Some bs" "cs = as @ bs"
      using Cons.prems(3) tb_cells_Cons[of f] ok(2) by (auto elim!: then_cells_SomeE)
    have rest: "total_len bs \<le> tb_longest fs" using Cons.IH(2) c(2) ok False by (auto simp: entry_oneof_def)
    have "total_len as + tb_longest fs \<le> tb_longest (f # fs)"
      using field_len[OF c(1) _ one many] False ok(2) by (auto simp: tb_longest.simps(2)[of f] Let_def split: if_splits)
    then show ?thesis using rest c(3) by simp
  next
    case True
    let ?mx = "fold max (map entry_len (f # takeWhile oneof_more fs)) 0" let ?w = "unat (m (base + size_pos f))"
    have f: "entry_oneof f" "oneof_first f" "DATA_SCALAR f \<noteq> DATA_MESSAGE f" "tb_table_ok (Some (size_pos f)) fs" "table_regular fs"
      "distinct (map oneof_tag (f # takeWhile oneof_more fs))"
      using True ok by (auto simp: entry_oneof_def)
    have len: "total_len ds \<le> ?mx" if g: "g \<in> set (f # takeWhile oneof_more fs)" "data_cells g m a = Some ds" for g a ds
    proof -
      have "total_len ds \<le> entry_len g"
      proof (cases "DATA_SCALAR g")
        case True
        have "\<not> DATA_MESSAGE g" using table_regular_members(1)[OF ok(2), of g] g(1) True by (auto dest: set_takeWhileD)
        then show ?thesis using total_len_array[of a "data_size g" 1] g(2) True by (simp add: data_cells_def)
      next
        case False
        have gm: "g \<in> set (f # fs)" using g(1) by (auto dest: set_takeWhileD)
        have "tb_cells (ptr g) m a = Some ds" using g(2) False by (simp add: data_cells_def)
        moreover have "DATA_MESSAGE g" using table_regular_members(1)[OF ok(2) gm] False by simp
        moreover have "tb_table_ok None (ptr g)" "table_regular (ptr g)"
          using tb_table_ok_members[OF ok(1) gm False] table_regular_members(2)[OF ok(2) gm] \<open>DATA_MESSAGE g\<close> by auto
        ultimately show ?thesis using Cons.IH(1) Cons.IH(4)[of g] g(1) by auto
      qed
      also have "\<dots> \<le> ?mx" using fold_max_ge[of "entry_len g" "map entry_len (f # takeWhile oneof_more fs)" 0] g(1) by auto
      finally show ?thesis .
    qed
    obtain as bs where c: "tb_cells fs m base = Some bs" "cs = Raw (base + size_pos f) (size_size f) # as @ bs"
      and as: "(if ?w = oneof_tag f then data_cells f m (base + int (data_offset f)) else Some []) = Some as"
      using oneof_first_cells[OF f(1-3) Cons.prems(3)] by blast
    obtain gs rs where r: "bs = gs @ rs" "tb_cells (dropWhile oneof_more fs) m base = Some rs"
      "total_len gs \<le> (if ?w \<in> oneof_tag ` set (takeWhile oneof_more fs) then ?mx else 0)"
    proof -
      have "distinct (map oneof_tag (takeWhile oneof_more fs))" using f(6) by simp
      moreover have "total_len ds \<le> ?mx" if "g \<in> set (takeWhile oneof_more fs)" "data_cells g m a = Some ds" for g a ds
        by (rule len[OF _ that(2)]) (use that(1) in simp)
      ultimately have "\<exists>gs rs. bs = gs @ rs \<and> tb_cells (dropWhile oneof_more fs) m base = Some rs
        \<and> total_len gs \<le> (if ?w \<in> oneof_tag ` set (takeWhile oneof_more fs) then ?mx else 0)"
        by (rule group_len[OF f(4,5) _ c(1)])
      then show thesis using that by blast
    qed
    have "total_len rs \<le> tb_longest (dropWhile oneof_more fs)"
      using Cons.IH(3) r(2) tb_table_ok_dropWhile[OF f(4)] table_regular_dropWhile[OF f(5)] by auto
    moreover have "total_len as + total_len gs \<le> ?mx"
    proof (cases "?w = oneof_tag f")
      case True
      then have "?w \<notin> oneof_tag ` set (takeWhile oneof_more fs)" using f(6) by simp
      then show ?thesis using as r(3) len[of f] True by simp
    qed (use as r(3) in \<open>auto split: if_splits simp del: fold.simps list.map\<close>)
    moreover have "tb_longest (f # fs) = size_size f + ?mx + tb_longest (dropWhile oneof_more fs)"
      using f(1) by (simp add: tb_longest.simps(2) entry_oneof_def Let_def)
    ultimately show ?thesis using c r(1) by (simp del: fold.simps list.map)
  qed
qed (simp add: tb_cells.simps)

end
