(* ===== verification/Messages.thy ===== *)
theory Messages
  imports Tinybuf_Bound
begin

text \<open>
  The messages of \<^verbatim>\<open>incl/common_messages.c\<close> and \<^verbatim>\<open>incl/chunk_messages.c\<close>: the structures of the
  headers and the tables that describe them.  \<open>tb_offsetof\<close> and \<open>tb_membersize\<close> are computed from
  the layout the ARM procedure call standard gives to a structure: every member at the next
  multiple of its alignment, the structure as aligned as its most aligned member.
\<close>

section \<open>Structures\<close>

text \<open>A type is given by its size and its alignment.\<close>

type_synonym ctype = "nat \<times> nat"

definition uint8_t :: ctype where "uint8_t = (1, 1)"
definition int8_t :: ctype where "int8_t = (1, 1)"
definition uint16_t :: ctype where "uint16_t = (2, 2)"
definition int16_t :: ctype where "int16_t = (2, 2)"
definition uint32_t :: ctype where "uint32_t = (4, 4)"
definition cfloat :: ctype where "cfloat = (4, 4)"

definition carray :: "ctype \<Rightarrow> nat \<Rightarrow> ctype" where
  "carray t n = (fst t * n, snd t)"

definition align_up :: "nat \<Rightarrow> nat \<Rightarrow> nat" where
  "align_up a n = (n + (a - 1)) div a * a"

fun member_offsets :: "nat \<Rightarrow> ctype list \<Rightarrow> nat list" where
  "member_offsets off [] = [off]"
| "member_offsets off ((sz, al) # ts) = align_up al off # member_offsets (align_up al off + sz) ts"

definition tb_offsetof :: "ctype list \<Rightarrow> nat \<Rightarrow> nat" where
  "tb_offsetof ts i = member_offsets 0 ts ! i"

definition tb_membersize :: "ctype list \<Rightarrow> nat \<Rightarrow> nat" where
  "tb_membersize ts i = fst (ts ! i)"

definition tb_delta :: "ctype list \<Rightarrow> nat \<Rightarrow> nat \<Rightarrow> int" where
  "tb_delta ts i j = int (tb_offsetof ts i) - int (tb_offsetof ts j)"

definition cstruct :: "ctype list \<Rightarrow> ctype" where
  "cstruct ts = (let al = foldr max (map snd ts) 1 in (align_up al (last (member_offsets 0 ts)), al))"

definition sizeof :: "ctype list \<Rightarrow> nat" where
  "sizeof ts = fst (cstruct ts)"

text \<open>The structures of \<^verbatim>\<open>common_messages.h\<close>, as the lists of their members.\<close>

definition Timestamp :: "ctype list" where "Timestamp = [uint32_t, uint16_t]"
definition BadgeAssignement :: "ctype list" where "BadgeAssignement = [uint16_t, uint8_t]"
definition BatteryData :: "ctype list" where "BatteryData = [cfloat]"
definition MicrophoneData :: "ctype list" where "MicrophoneData = [uint8_t]"
definition ScanDevice :: "ctype list" where "ScanDevice = [uint16_t, int8_t]"
definition ScanResultData :: "ctype list" where "ScanResultData = [cstruct ScanDevice, uint8_t]"
definition AccelerometerData :: "ctype list" where "AccelerometerData = [uint16_t]"
definition AccelerometerRawData :: "ctype list" where "AccelerometerRawData = [carray int16_t 3]"

text \<open>The structures of \<^verbatim>\<open>chunk_messages.h\<close>.\<close>

definition BatteryChunk :: "ctype list" where
  "BatteryChunk = [cstruct Timestamp, cstruct BatteryData]"

definition MicrophoneChunk :: "ctype list" where
  "MicrophoneChunk = [cstruct Timestamp, uint16_t, uint8_t, carray (cstruct MicrophoneData) 114]"

definition ScanSamplingChunk :: "ctype list" where
  "ScanSamplingChunk = [cstruct Timestamp, uint8_t, carray (cstruct ScanResultData) 255]"

definition ScanChunk :: "ctype list" where
  "ScanChunk = [cstruct Timestamp, uint8_t, carray (cstruct ScanResultData) 29]"

definition AccelerometerChunk :: "ctype list" where
  "AccelerometerChunk = [cstruct Timestamp, uint8_t, carray (cstruct AccelerometerData) 100]"

definition AccelerometerInterruptChunk :: "ctype list" where
  "AccelerometerInterruptChunk = [cstruct Timestamp]"

section \<open>Tables\<close>

text \<open>
  The three shapes of entries in these tables: a plain member, a message, and an array whose
  count is another member (with elements of a given size).
\<close>

definition entry_plain :: "nat \<Rightarrow> ctype list \<Rightarrow> nat \<Rightarrow> tb_field" where
  "entry_plain ty st i = TB_FIELD ty (tb_offsetof st i) 0 0 (tb_membersize st i) 0 0 False []"

definition entry_message :: "nat \<Rightarrow> ctype list \<Rightarrow> nat \<Rightarrow> tb_field list \<Rightarrow> tb_field" where
  "entry_message ty st i sub = TB_FIELD ty (tb_offsetof st i) 0 0 (tb_membersize st i) 0 0 False sub"

definition entry_array :: "nat \<Rightarrow> ctype list \<Rightarrow> nat \<Rightarrow> nat \<Rightarrow> nat \<Rightarrow> tb_field list \<Rightarrow> tb_field" where
  "entry_array ty st i cnt elem sub =
     TB_FIELD ty (tb_offsetof st i) (tb_delta st cnt i) 1 elem (tb_membersize st i div elem) 0 False sub"

definition Timestamp_fields :: "tb_field list" where
  "Timestamp_fields = [entry_plain 65 Timestamp 0, entry_plain 65 Timestamp 1]"

definition BadgeAssignement_fields :: "tb_field list" where
  "BadgeAssignement_fields = [entry_plain 65 BadgeAssignement 0, entry_plain 65 BadgeAssignement 1]"

definition BatteryData_fields :: "tb_field list" where
  "BatteryData_fields = [entry_plain 129 BatteryData 0]"

definition MicrophoneData_fields :: "tb_field list" where
  "MicrophoneData_fields = [entry_plain 65 MicrophoneData 0]"

definition ScanDevice_fields :: "tb_field list" where
  "ScanDevice_fields = [entry_plain 65 ScanDevice 0, entry_plain 33 ScanDevice 1]"

definition ScanResultData_fields :: "tb_field list" where
  "ScanResultData_fields = [entry_message 513 ScanResultData 0 ScanDevice_fields, entry_plain 65 ScanResultData 1]"

definition AccelerometerData_fields :: "tb_field list" where
  "AccelerometerData_fields = [entry_plain 65 AccelerometerData 0]"

definition AccelerometerRawData_fields :: "tb_field list" where
  "AccelerometerRawData_fields = [TB_FIELD 40 (tb_offsetof AccelerometerRawData 0) 0 0 (fst int16_t)
     (tb_membersize AccelerometerRawData 0 div fst int16_t) 0 False []]"

definition BatteryChunk_fields :: "tb_field list" where
  "BatteryChunk_fields = [entry_message 513 BatteryChunk 0 Timestamp_fields, entry_message 513 BatteryChunk 1 BatteryData_fields]"

definition MicrophoneChunk_fields :: "tb_field list" where
  "MicrophoneChunk_fields = [entry_message 513 MicrophoneChunk 0 Timestamp_fields, entry_plain 65 MicrophoneChunk 1,
     entry_array 516 MicrophoneChunk 3 2 (sizeof MicrophoneData) MicrophoneData_fields]"

definition ScanSamplingChunk_fields :: "tb_field list" where
  "ScanSamplingChunk_fields = [entry_message 513 ScanSamplingChunk 0 Timestamp_fields,
     entry_array 516 ScanSamplingChunk 2 1 (sizeof ScanResultData) ScanResultData_fields]"

definition ScanChunk_fields :: "tb_field list" where
  "ScanChunk_fields = [entry_message 513 ScanChunk 0 Timestamp_fields,
     entry_array 516 ScanChunk 2 1 (sizeof ScanResultData) ScanResultData_fields]"

definition AccelerometerChunk_fields :: "tb_field list" where
  "AccelerometerChunk_fields = [entry_message 513 AccelerometerChunk 0 Timestamp_fields,
     entry_array 516 AccelerometerChunk 2 1 (sizeof AccelerometerData) AccelerometerData_fields]"

definition AccelerometerInterruptChunk_fields :: "tb_field list" where
  "AccelerometerInterruptChunk_fields = [entry_message 513 AccelerometerInterruptChunk 0 Timestamp_fields]"

section \<open>Their lengths\<close>

lemmas field_flags = FIELD_REQUIRED_def FIELD_OPTIONAL_def FIELD_REPEATED_def FIELD_FIXED_REPEATED_def FIELD_ONEOF_def
  DATA_SCALAR_def DATA_MESSAGE_def entry_oneof_def

text \<open>The kinds of the entries, from the numbers in the tables.\<close>

lemma type_flags:
  "(FIELD_REQUIRED (TB_FIELD 33 a b c d e f g h))" "\<not> (FIELD_OPTIONAL (TB_FIELD 33 a b c d e f g h))" "\<not> (FIELD_REPEATED (TB_FIELD 33 a b c d e f g h))" "\<not> (FIELD_FIXED_REPEATED (TB_FIELD 33 a b c d e f g h))"
  "\<not> (FIELD_ONEOF (TB_FIELD 33 a b c d e f g h))" "(DATA_SCALAR (TB_FIELD 33 a b c d e f g h))" "\<not> (DATA_MESSAGE (TB_FIELD 33 a b c d e f g h))"
  "\<not> (FIELD_REQUIRED (TB_FIELD 40 a b c d e f g h))" "\<not> (FIELD_OPTIONAL (TB_FIELD 40 a b c d e f g h))" "\<not> (FIELD_REPEATED (TB_FIELD 40 a b c d e f g h))" "(FIELD_FIXED_REPEATED (TB_FIELD 40 a b c d e f g h))"
  "\<not> (FIELD_ONEOF (TB_FIELD 40 a b c d e f g h))" "(DATA_SCALAR (TB_FIELD 40 a b c d e f g h))" "\<not> (DATA_MESSAGE (TB_FIELD 40 a b c d e f g h))"
  "(FIELD_REQUIRED (TB_FIELD 65 a b c d e f g h))" "\<not> (FIELD_OPTIONAL (TB_FIELD 65 a b c d e f g h))" "\<not> (FIELD_REPEATED (TB_FIELD 65 a b c d e f g h))" "\<not> (FIELD_FIXED_REPEATED (TB_FIELD 65 a b c d e f g h))"
  "\<not> (FIELD_ONEOF (TB_FIELD 65 a b c d e f g h))" "(DATA_SCALAR (TB_FIELD 65 a b c d e f g h))" "\<not> (DATA_MESSAGE (TB_FIELD 65 a b c d e f g h))"
  "(FIELD_REQUIRED (TB_FIELD 129 a b c d e f g h))" "\<not> (FIELD_OPTIONAL (TB_FIELD 129 a b c d e f g h))" "\<not> (FIELD_REPEATED (TB_FIELD 129 a b c d e f g h))" "\<not> (FIELD_FIXED_REPEATED (TB_FIELD 129 a b c d e f g h))"
  "\<not> (FIELD_ONEOF (TB_FIELD 129 a b c d e f g h))" "(DATA_SCALAR (TB_FIELD 129 a b c d e f g h))" "\<not> (DATA_MESSAGE (TB_FIELD 129 a b c d e f g h))"
  "(FIELD_REQUIRED (TB_FIELD 513 a b c d e f g h))" "\<not> (FIELD_OPTIONAL (TB_FIELD 513 a b c d e f g h))" "\<not> (FIELD_REPEATED (TB_FIELD 513 a b c d e f g h))" "\<not> (FIELD_FIXED_REPEATED (TB_FIELD 513 a b c d e f g h))"
  "\<not> (FIELD_ONEOF (TB_FIELD 513 a b c d e f g h))" "\<not> (DATA_SCALAR (TB_FIELD 513 a b c d e f g h))" "(DATA_MESSAGE (TB_FIELD 513 a b c d e f g h))"
  "\<not> (FIELD_REQUIRED (TB_FIELD 514 a b c d e f g h))" "(FIELD_OPTIONAL (TB_FIELD 514 a b c d e f g h))" "\<not> (FIELD_REPEATED (TB_FIELD 514 a b c d e f g h))" "\<not> (FIELD_FIXED_REPEATED (TB_FIELD 514 a b c d e f g h))"
  "\<not> (FIELD_ONEOF (TB_FIELD 514 a b c d e f g h))" "\<not> (DATA_SCALAR (TB_FIELD 514 a b c d e f g h))" "(DATA_MESSAGE (TB_FIELD 514 a b c d e f g h))"
  "\<not> (FIELD_REQUIRED (TB_FIELD 516 a b c d e f g h))" "\<not> (FIELD_OPTIONAL (TB_FIELD 516 a b c d e f g h))" "(FIELD_REPEATED (TB_FIELD 516 a b c d e f g h))" "\<not> (FIELD_FIXED_REPEATED (TB_FIELD 516 a b c d e f g h))"
  "\<not> (FIELD_ONEOF (TB_FIELD 516 a b c d e f g h))" "\<not> (DATA_SCALAR (TB_FIELD 516 a b c d e f g h))" "(DATA_MESSAGE (TB_FIELD 516 a b c d e f g h))"
  "\<not> (FIELD_REQUIRED (TB_FIELD 528 a b c d e f g h))" "\<not> (FIELD_OPTIONAL (TB_FIELD 528 a b c d e f g h))" "\<not> (FIELD_REPEATED (TB_FIELD 528 a b c d e f g h))" "\<not> (FIELD_FIXED_REPEATED (TB_FIELD 528 a b c d e f g h))"
  "(FIELD_ONEOF (TB_FIELD 528 a b c d e f g h))" "\<not> (DATA_SCALAR (TB_FIELD 528 a b c d e f g h))" "(DATA_MESSAGE (TB_FIELD 528 a b c d e f g h))"
  by (simp_all add: field_flags bit_numeral_rec bit_0)

text \<open>The offsets a C compiler gives to the members.\<close>

lemma field_tables:
  "Timestamp_fields = [TB_FIELD 65 0 0 0 4 0 0 False [], TB_FIELD 65 4 0 0 2 0 0 False []]"
  "BadgeAssignement_fields = [TB_FIELD 65 0 0 0 2 0 0 False [], TB_FIELD 65 2 0 0 1 0 0 False []]"
  "BatteryData_fields = [TB_FIELD 129 0 0 0 4 0 0 False []]"
  "MicrophoneData_fields = [TB_FIELD 65 0 0 0 1 0 0 False []]"
  "ScanDevice_fields = [TB_FIELD 65 0 0 0 2 0 0 False [], TB_FIELD 33 2 0 0 1 0 0 False []]"
  "ScanResultData_fields = [TB_FIELD 513 0 0 0 4 0 0 False ScanDevice_fields, TB_FIELD 65 4 0 0 1 0 0 False []]"
  "AccelerometerData_fields = [TB_FIELD 65 0 0 0 2 0 0 False []]"
  "AccelerometerRawData_fields = [TB_FIELD 40 0 0 0 2 3 0 False []]"
  "BatteryChunk_fields = [TB_FIELD 513 0 0 0 8 0 0 False Timestamp_fields, TB_FIELD 513 8 0 0 4 0 0 False BatteryData_fields]"
  "MicrophoneChunk_fields = [TB_FIELD 513 0 0 0 8 0 0 False Timestamp_fields, TB_FIELD 65 8 0 0 2 0 0 False [],
     TB_FIELD 516 11 (- 1) 1 1 114 0 False MicrophoneData_fields]"
  "ScanSamplingChunk_fields = [TB_FIELD 513 0 0 0 8 0 0 False Timestamp_fields, TB_FIELD 516 10 (- 2) 1 6 255 0 False ScanResultData_fields]"
  "ScanChunk_fields = [TB_FIELD 513 0 0 0 8 0 0 False Timestamp_fields, TB_FIELD 516 10 (- 2) 1 6 29 0 False ScanResultData_fields]"
  "AccelerometerChunk_fields = [TB_FIELD 513 0 0 0 8 0 0 False Timestamp_fields, TB_FIELD 516 10 (- 2) 1 2 100 0 False AccelerometerData_fields]"
  "AccelerometerInterruptChunk_fields = [TB_FIELD 513 0 0 0 8 0 0 False Timestamp_fields]"
  by code_simp+

text \<open>The tables are of the form the theorems on encoding ask for.\<close>

lemma field_tables_ok:
  "tb_table_ok None BadgeAssignement_fields" "table_regular BadgeAssignement_fields"
  "tb_table_ok None BatteryChunk_fields" "table_regular BatteryChunk_fields"
  "tb_table_ok None MicrophoneChunk_fields" "table_regular MicrophoneChunk_fields"
  "tb_table_ok None ScanSamplingChunk_fields" "table_regular ScanSamplingChunk_fields"
  "tb_table_ok None ScanChunk_fields" "table_regular ScanChunk_fields"
  "tb_table_ok None AccelerometerChunk_fields" "table_regular AccelerometerChunk_fields"
  "tb_table_ok None AccelerometerInterruptChunk_fields" "table_regular AccelerometerInterruptChunk_fields"
  by (simp_all add: field_tables type_flags entry_oneof_def)

lemma field_tables_longest:
  "tb_longest BadgeAssignement_fields = 3" "tb_longest BatteryChunk_fields = 10" "tb_longest MicrophoneChunk_fields = 123"
  "tb_longest ScanSamplingChunk_fields = 1027" "tb_longest ScanChunk_fields = 123" "tb_longest AccelerometerChunk_fields = 207"
  "tb_longest AccelerometerInterruptChunk_fields = 6"
  by (simp_all add: field_tables type_flags entry_oneof_def tb_longest.simps)

end
