(* ===== verification/Storer.thy ===== *)
theory Storer
  imports Filesystem Messages
begin

text \<open>
  The storer, \<^verbatim>\<open>incl/storer_lib.c\<close>: the partitions of the badge, and the chunks of data that are
  serialised into them.  The functions take the storage operations of the filesystem and the
  memory with the structure their pointer argument points to; those that write a structure return
  the memory.
\<close>

section \<open>State\<close>

record 's storer =
  sfs :: "'s filesystem"
  serialized_buf :: "byte list"
  partition_id_badge_assignement :: nat
  partition_id_battery_chunks :: nat
  partition_id_microphone_chunks :: nat
  partition_id_scan_chunks :: nat
  partition_id_accelerometer_interrupt_chunks :: nat
  partition_id_accelerometer_chunks :: nat
  microphone_chunks_found_timestamp :: bool
  scan_chunks_found_timestamp :: bool
  battery_chunks_found_timestamp :: bool
  accelerometer_interrupt_chunks_found_timestamp :: bool
  accelerometer_chunks_found_timestamp :: bool

definition STORER_SERIALIZED_BUFFER_SIZE :: nat where "STORER_SERIALIZED_BUFFER_SIZE = 512"
definition STORER_BADGE_ASSIGNEMENT_NUMBER :: nat where "STORER_BADGE_ASSIGNEMENT_NUMBER = 1"
definition STORER_BATTERY_DATA_NUMBER :: nat where "STORER_BATTERY_DATA_NUMBER = 100"
definition STORER_MICROPHONE_DATA_NUMBER :: nat where "STORER_MICROPHONE_DATA_NUMBER = 1340"
definition STORER_SCAN_DATA_NUMBER :: nat where "STORER_SCAN_DATA_NUMBER = 960"
definition STORER_ACCELEROMETER_INTERRUPT_DATA_NUMBER :: nat where "STORER_ACCELEROMETER_INTERRUPT_DATA_NUMBER = 50"
definition STORER_ACCELEROMETER_DATA_NUMBER :: nat where "STORER_ACCELEROMETER_DATA_NUMBER = 50"

definition PARTITION_ELEMENT_HEADER_RECORD_ID_SIZE :: nat where "PARTITION_ELEMENT_HEADER_RECORD_ID_SIZE = 2"
definition PARTITION_ELEMENT_HEADER_PREVIOUS_LEN_XOR_CUR_LEN_SIZE :: nat where "PARTITION_ELEMENT_HEADER_PREVIOUS_LEN_XOR_CUR_LEN_SIZE = 2"
definition PARTITION_ELEMENT_HEADER_ELEMENT_CRC_SIZE :: nat where "PARTITION_ELEMENT_HEADER_ELEMENT_CRC_SIZE = 2"

text \<open>A call into the filesystem.\<close>

definition on_fs :: "('s filesystem \<Rightarrow> ('a, 's filesystem) outcome) \<Rightarrow> 's storer \<Rightarrow> ('a, 's storer) outcome" where
  "on_fs f st = (case f (sfs st) of (r, fs) \<Rightarrow> (r, st\<lparr>sfs := fs\<rparr>))"

section \<open>Partitions\<close>

text \<open>\<open>PARTITION_METADATA_SIZE + number * (element + header)\<close>, in \<open>uint32_t\<close>.\<close>

definition required_size :: "nat \<Rightarrow> nat \<Rightarrow> nat \<Rightarrow> nat" where
  "required_size number len header = u32_add PARTITION_METADATA_SIZE (u32_mul number (u32_add len header))"

definition register :: "'s storage_ops \<Rightarrow> nat \<Rightarrow> bool \<Rightarrow> bool \<Rightarrow> nat \<Rightarrow> (nat \<Rightarrow> 's storer \<Rightarrow> 's storer) \<Rightarrow> 's storer \<Rightarrow> (unit, 's storer) outcome" where
  "register so required is_dynamic enable_crc element_len set_id st =
     attempt id (on_fs (filesystem_register_partition so required is_dynamic enable_crc (u16 element_len)) st) (\<lambda>(pid, _) st.
     (Inr (), set_id pid st))"

definition storer_register_partitions :: "'s storage_ops \<Rightarrow> 's storer \<Rightarrow> (unit, 's storer) outcome" where
  "storer_register_partitions so st =
     (let R = PARTITION_ELEMENT_HEADER_RECORD_ID_SIZE; X = PARTITION_ELEMENT_HEADER_PREVIOUS_LEN_XOR_CUR_LEN_SIZE;
          C = PARTITION_ELEMENT_HEADER_ELEMENT_CRC_SIZE;
          badge_len = tb_get_max_encoded_len BadgeAssignement_fields;
          battery_len = tb_get_max_encoded_len BatteryChunk_fields;
          microphone_len = tb_get_max_encoded_len MicrophoneChunk_fields;
          scan_len = tb_get_max_encoded_len ScanChunk_fields;
          interrupt_len = tb_get_max_encoded_len AccelerometerInterruptChunk_fields;
          accelerometer_len = tb_get_max_encoded_len AccelerometerChunk_fields
      in attempt id (register so (required_size STORER_BADGE_ASSIGNEMENT_NUMBER badge_len (R + C)) False True badge_len
             (\<lambda>p. partition_id_badge_assignement_update (\<lambda>_. p)) st) (\<lambda>_ st.
         attempt id (register so (required_size STORER_BATTERY_DATA_NUMBER battery_len R) False False battery_len
             (\<lambda>p. partition_id_battery_chunks_update (\<lambda>_. p)) st) (\<lambda>_ st.
         attempt id (register so (required_size STORER_MICROPHONE_DATA_NUMBER microphone_len (R + C)) False True microphone_len
             (\<lambda>p. partition_id_microphone_chunks_update (\<lambda>_. p)) st) (\<lambda>_ st.
         attempt id (register so (required_size STORER_SCAN_DATA_NUMBER scan_len (R + X + C)) True True 0
             (\<lambda>p. partition_id_scan_chunks_update (\<lambda>_. p)) st) (\<lambda>_ st.
         attempt id (register so (required_size STORER_ACCELEROMETER_INTERRUPT_DATA_NUMBER interrupt_len (R + C)) False True interrupt_len
             (\<lambda>p. partition_id_accelerometer_interrupt_chunks_update (\<lambda>_. p)) st) (\<lambda>_ st.
         register so (required_size STORER_ACCELEROMETER_DATA_NUMBER accelerometer_len (R + C)) False True accelerometer_len
             (\<lambda>p. partition_id_accelerometer_chunks_update (\<lambda>_. p)) st))))))"

definition storer_init :: "'s storage_ops \<Rightarrow> 's storer \<Rightarrow> (unit, 's storer) outcome" where
  "storer_init so st = attempt id (on_fs (filesystem_init so) st) (\<lambda>_ st. storer_register_partitions so st)"

definition storer_clear :: "'s storage_ops \<Rightarrow> 's storer \<Rightarrow> (unit, 's storer) outcome" where
  "storer_clear so st =
     attempt id (on_fs (filesystem_clear_partition so (partition_id_badge_assignement st)) st) (\<lambda>_ st.
     attempt id (on_fs (filesystem_clear_partition so (partition_id_battery_chunks st)) st) (\<lambda>_ st.
     attempt id (on_fs (filesystem_clear_partition so (partition_id_microphone_chunks st)) st) (\<lambda>_ st.
     attempt id (on_fs (filesystem_clear_partition so (partition_id_scan_chunks st)) st) (\<lambda>_ st.
     attempt id (on_fs (filesystem_clear_partition so (partition_id_accelerometer_interrupt_chunks st)) st) (\<lambda>_ st.
     on_fs (filesystem_clear_partition so (partition_id_accelerometer_chunks st)) st)))))"

section \<open>Timestamps\<close>

text \<open>A timestamp is a pair of seconds and milliseconds; the 64-bit computation cannot overflow.\<close>

definition storer_compare_timestamps :: "nat \<times> nat \<Rightarrow> nat \<times> nat \<Rightarrow> int" where
  "storer_compare_timestamps ts1 ts2 =
     (let t1 = fst ts1 * 1000 + snd ts1; t2 = fst ts2 * 1000 + snd ts2 in
      if t1 > t2 then - 1 else if t2 > t1 then 1 else 0)"

text \<open>The little-endian number at an address, and the timestamp of a message in memory.\<close>

definition rd_uint :: "memory \<Rightarrow> int \<Rightarrow> nat \<Rightarrow> nat" where
  "rd_uint m a n = foldr (\<lambda>b v. unat b + 256 * v) (rd m a n) 0"

definition timestamp_at :: "memory \<Rightarrow> int \<Rightarrow> nat \<times> nat" where
  "timestamp_at m a = (rd_uint m (a + int (tb_offsetof Timestamp 0)) 4, rd_uint m (a + int (tb_offsetof Timestamp 1)) 2)"

section \<open>Storing\<close>

definition store_chunk :: "'s storage_ops \<Rightarrow> nat \<Rightarrow> tb_field list \<Rightarrow> memory \<Rightarrow> int \<Rightarrow> 's storer \<Rightarrow> (unit, 's storer) outcome" where
  "store_chunk so pid message_fields m message st =
     (case tb_encode TB_LITTLE_ENDIAN message_fields m message
             (tb_ostream_from_buffer (serialized_buf st) STORER_SERIALIZED_BUFFER_SIZE) of (encode_status, ostream) \<Rightarrow>
      let st = st\<lparr>serialized_buf := obuf ostream\<rparr> in
      if \<not> encode_status then (Inl NRF_ERROR_INVALID_DATA, st)
      else on_fs (filesystem_store_element so pid (serialized_buf st) (u16 (bytes_written ostream))) st)"

definition storer_clear_badge_assignement :: "'s storage_ops \<Rightarrow> 's storer \<Rightarrow> (unit, 's storer) outcome" where
  "storer_clear_badge_assignement so st = on_fs (filesystem_clear_partition so (partition_id_badge_assignement st)) st"

definition storer_store_badge_assignement :: "'s storage_ops \<Rightarrow> memory \<Rightarrow> int \<Rightarrow> 's storer \<Rightarrow> (unit, 's storer) outcome" where
  "storer_store_badge_assignement so m badge_assignement st =
     store_chunk so (partition_id_badge_assignement st) BadgeAssignement_fields m badge_assignement st"

section \<open>Reading\<close>

text \<open>
  \<open>filesystem_iterator_read_element\<close> writes into \<open>serialized_buf\<close>.  When it fails the buffer holds
  what the failed read delivered, which the filesystem leaves open: \<open>lost\<close> is any such contents.
\<close>

type_synonym 's leftover = "'s filesystem \<Rightarrow> byte list"

definition read_element :: "'s storage_ops \<Rightarrow> 's leftover \<Rightarrow> nat \<Rightarrow> 's storer \<Rightarrow> (nat, 's storer) outcome" where
  "read_element so lost pid st =
     (case filesystem_iterator_read_element so pid (sfs st) of
        (Inr (d, element_len, rid), fs) \<Rightarrow> (Inr element_len, st\<lparr>sfs := fs, serialized_buf := overwrite (serialized_buf st) 0 d\<rparr>)
      | (Inl e, fs) \<Rightarrow> (Inl e, st\<lparr>sfs := fs,
          serialized_buf := overwrite (serialized_buf st) 0 (take (length (serialized_buf st)) (lost (sfs st)))\<rparr>))"

definition invalidate :: "nat \<Rightarrow> 's storer \<Rightarrow> 's storer" where
  "invalidate pid st = st\<lparr>sfs := filesystem_iterator_invalidate pid (sfs st)\<rparr>"

definition memset0 :: "int \<Rightarrow> nat \<Rightarrow> memory \<Rightarrow> memory" where
  "memset0 a n m = wr a (replicate n 0) m"

text \<open>Decoding the element in the buffer into the structure.\<close>

definition decode_element :: "tb_field list \<Rightarrow> nat \<Rightarrow> int \<Rightarrow> memory \<Rightarrow> 's storer \<Rightarrow> bool \<times> memory" where
  "decode_element message_fields element_len message m st =
     (case tb_decode TB_LITTLE_ENDIAN message_fields message (tb_istream_from_buffer (serialized_buf st) element_len, m) of
        (ok, _, m') \<Rightarrow> (ok, m'))"

definition storer_read_badge_assignement ::
  "'s storage_ops \<Rightarrow> 's leftover \<Rightarrow> int \<Rightarrow> memory \<Rightarrow> 's storer \<Rightarrow> (unit, memory \<times> 's storer) outcome" where
  "storer_read_badge_assignement so lost badge_assignement m st =
     (let m = memset0 badge_assignement (sizeof BadgeAssignement) m; pid = partition_id_badge_assignement st in
      case on_fs (filesystem_iterator_init so pid) st of
        (Inl e, st) \<Rightarrow> (Inl e, m, invalidate pid st)
      | (Inr _, st) \<Rightarrow>
          (case read_element so lost pid st of
             (Inl e, st) \<Rightarrow> (Inl e, m, invalidate pid st)
           | (Inr element_len, st) \<Rightarrow>
               let st = invalidate pid st in
               case decode_element BadgeAssignement_fields element_len badge_assignement m st of
                 (ok, m) \<Rightarrow> ((if ok then Inr () else Inl NRF_ERROR_INVALID_DATA), m, st)))"

section \<open>Searching and stepping\<close>

definition code :: "ret_code + 'a \<Rightarrow> ret_code" where
  "code r = (case r of Inl e \<Rightarrow> e | Inr _ \<Rightarrow> NRF_SUCCESS)"

text \<open>
  The search steps back from the latest element until it finds one that is older than the timestamp,
  and then forward again.  The result is the return code, the new value of the flag
  \<open>found_timestamp\<close>, the memory and the state; a search without an end has no result.
\<close>

partial_function (option) find_loop ::
  "'s storage_ops \<Rightarrow> 's leftover \<Rightarrow> nat \<times> nat \<Rightarrow> nat \<Rightarrow> tb_field list \<Rightarrow> int \<Rightarrow> memory \<Rightarrow> 's storer
    \<Rightarrow> (ret_code \<times> bool \<times> memory \<times> 's storer) option" where
  "find_loop so lost timestamp pid message_fields message m st =
     (case read_element so lost pid st of (r, st) \<Rightarrow>
      if \<not> (code r = NRF_ERROR_INVALID_DATA \<or> code r = NRF_SUCCESS) then Some (code r, False, m, invalidate pid st)
      else case (case r of Inl _ \<Rightarrow> (False, m) | Inr element_len \<Rightarrow> decode_element message_fields element_len message m st) of (ok, m) \<Rightarrow>
        if ok \<and> storer_compare_timestamps (timestamp_at m message) timestamp = 1 then
          (case on_fs (filesystem_iterator_next so pid) st of (r, st) \<Rightarrow>
           if \<not> (code r = NRF_ERROR_NOT_FOUND \<or> code r = NRF_SUCCESS) then Some (code r, False, m, invalidate pid st)
           else Some (NRF_SUCCESS, code r = NRF_SUCCESS, m, st))
        else
          (case on_fs (filesystem_iterator_previous so pid) st of (r, st) \<Rightarrow>
           if \<not> (code r = NRF_ERROR_NOT_FOUND \<or> code r = NRF_SUCCESS) then Some (code r, False, m, invalidate pid st)
           else if code r = NRF_ERROR_NOT_FOUND then Some (NRF_SUCCESS, True, m, st)
           else find_loop so lost timestamp pid message_fields message m st))"

definition find_chunk_from_timestamp ::
  "'s storage_ops \<Rightarrow> 's leftover \<Rightarrow> nat \<times> nat \<Rightarrow> nat \<Rightarrow> tb_field list \<Rightarrow> int \<Rightarrow> memory \<Rightarrow> 's storer
    \<Rightarrow> (ret_code \<times> bool \<times> memory \<times> 's storer) option" where
  "find_chunk_from_timestamp so lost timestamp pid message_fields message m st =
     (case on_fs (filesystem_iterator_init so pid) st of
        (Inl e, st) \<Rightarrow> Some (e, False, m, invalidate pid st)
      | (Inr _, st) \<Rightarrow> find_loop so lost timestamp pid message_fields message m st)"

text \<open>The next chunk; elements that are corrupted or cannot be decoded are skipped.\<close>

partial_function (option) get_next_chunk ::
  "'s storage_ops \<Rightarrow> 's leftover \<Rightarrow> nat \<Rightarrow> tb_field list \<Rightarrow> int \<Rightarrow> bool \<Rightarrow> memory \<Rightarrow> 's storer
    \<Rightarrow> (ret_code \<times> bool \<times> memory \<times> 's storer) option" where
  "get_next_chunk so lost pid message_fields message found m st =
     (case (if \<not> found then on_fs (filesystem_iterator_next so pid) st else (Inr (), st)) of (r, st) \<Rightarrow>
      if code r \<noteq> NRF_SUCCESS then Some (code r, found, m, invalidate pid st)
      else case read_element so lost pid st of (r, st) \<Rightarrow>
        if \<not> (code r = NRF_ERROR_INVALID_DATA \<or> code r = NRF_SUCCESS) then Some (code r, False, m, invalidate pid st)
        else case (case r of Inl _ \<Rightarrow> (False, m) | Inr element_len \<Rightarrow> decode_element message_fields element_len message m st) of (ok, m) \<Rightarrow>
          if ok then Some (NRF_SUCCESS, False, m, st)
          else get_next_chunk so lost pid message_fields message False m st)"

definition storer_invalidate_iterators :: "'s storer \<Rightarrow> 's storer" where
  "storer_invalidate_iterators st =
     invalidate (partition_id_microphone_chunks st) (invalidate (partition_id_scan_chunks st)
       (invalidate (partition_id_battery_chunks st) (invalidate (partition_id_accelerometer_interrupt_chunks st)
         (invalidate (partition_id_accelerometer_chunks st) st))))"

section \<open>The chunks\<close>

definition storer_store_accelerometer_chunk :: "'s storage_ops \<Rightarrow> memory \<Rightarrow> int \<Rightarrow> 's storer \<Rightarrow> (unit, 's storer) outcome" where
  "storer_store_accelerometer_chunk so m chunk st = store_chunk so (partition_id_accelerometer_chunks st) AccelerometerChunk_fields m chunk st"

definition storer_find_accelerometer_chunk_from_timestamp ::
  "'s storage_ops \<Rightarrow> 's leftover \<Rightarrow> nat \<times> nat \<Rightarrow> int \<Rightarrow> memory \<Rightarrow> 's storer \<Rightarrow> (ret_code \<times> memory \<times> 's storer) option" where
  "storer_find_accelerometer_chunk_from_timestamp so lost timestamp chunk m st =
     map_option (\<lambda>(ret, found, m, st). (ret, m, st\<lparr>accelerometer_chunks_found_timestamp := found\<rparr>))
       (find_chunk_from_timestamp so lost timestamp (partition_id_accelerometer_chunks st) AccelerometerChunk_fields chunk (memset0 chunk (sizeof AccelerometerChunk) m) st)"

definition storer_get_next_accelerometer_chunk ::
  "'s storage_ops \<Rightarrow> 's leftover \<Rightarrow> int \<Rightarrow> memory \<Rightarrow> 's storer \<Rightarrow> (ret_code \<times> memory \<times> 's storer) option" where
  "storer_get_next_accelerometer_chunk so lost chunk m st =
     map_option (\<lambda>(ret, found, m, st). (ret, m, st\<lparr>accelerometer_chunks_found_timestamp := found\<rparr>))
       (get_next_chunk so lost (partition_id_accelerometer_chunks st) AccelerometerChunk_fields chunk (accelerometer_chunks_found_timestamp st) (memset0 chunk (sizeof AccelerometerChunk) m) st)"

definition storer_store_accelerometer_interrupt_chunk :: "'s storage_ops \<Rightarrow> memory \<Rightarrow> int \<Rightarrow> 's storer \<Rightarrow> (unit, 's storer) outcome" where
  "storer_store_accelerometer_interrupt_chunk so m chunk st = store_chunk so (partition_id_accelerometer_interrupt_chunks st) AccelerometerInterruptChunk_fields m chunk st"

definition storer_find_accelerometer_interrupt_chunk_from_timestamp ::
  "'s storage_ops \<Rightarrow> 's leftover \<Rightarrow> nat \<times> nat \<Rightarrow> int \<Rightarrow> memory \<Rightarrow> 's storer \<Rightarrow> (ret_code \<times> memory \<times> 's storer) option" where
  "storer_find_accelerometer_interrupt_chunk_from_timestamp so lost timestamp chunk m st =
     map_option (\<lambda>(ret, found, m, st). (ret, m, st\<lparr>accelerometer_interrupt_chunks_found_timestamp := found\<rparr>))
       (find_chunk_from_timestamp so lost timestamp (partition_id_accelerometer_interrupt_chunks st) AccelerometerInterruptChunk_fields chunk (memset0 chunk (sizeof AccelerometerInterruptChunk) m) st)"

definition storer_get_next_accelerometer_interrupt_chunk ::
  "'s storage_ops \<Rightarrow> 's leftover \<Rightarrow> int \<Rightarrow> memory \<Rightarrow> 's storer \<Rightarrow> (ret_code \<times> memory \<times> 's storer) option" where
  "storer_get_next_accelerometer_interrupt_chunk so lost chunk m st =
     map_option (\<lambda>(ret, found, m, st). (ret, m, st\<lparr>accelerometer_interrupt_chunks_found_timestamp := found\<rparr>))
       (get_next_chunk so lost (partition_id_accelerometer_interrupt_chunks st) AccelerometerInterruptChunk_fields chunk (accelerometer_interrupt_chunks_found_timestamp st) (memset0 chunk (sizeof AccelerometerInterruptChunk) m) st)"

definition storer_store_battery_chunk :: "'s storage_ops \<Rightarrow> memory \<Rightarrow> int \<Rightarrow> 's storer \<Rightarrow> (unit, 's storer) outcome" where
  "storer_store_battery_chunk so m chunk st = store_chunk so (partition_id_battery_chunks st) BatteryChunk_fields m chunk st"

definition storer_find_battery_chunk_from_timestamp ::
  "'s storage_ops \<Rightarrow> 's leftover \<Rightarrow> nat \<times> nat \<Rightarrow> int \<Rightarrow> memory \<Rightarrow> 's storer \<Rightarrow> (ret_code \<times> memory \<times> 's storer) option" where
  "storer_find_battery_chunk_from_timestamp so lost timestamp chunk m st =
     map_option (\<lambda>(ret, found, m, st). (ret, m, st\<lparr>battery_chunks_found_timestamp := found\<rparr>))
       (find_chunk_from_timestamp so lost timestamp (partition_id_battery_chunks st) BatteryChunk_fields chunk (memset0 chunk (sizeof BatteryChunk) m) st)"

definition storer_get_next_battery_chunk ::
  "'s storage_ops \<Rightarrow> 's leftover \<Rightarrow> int \<Rightarrow> memory \<Rightarrow> 's storer \<Rightarrow> (ret_code \<times> memory \<times> 's storer) option" where
  "storer_get_next_battery_chunk so lost chunk m st =
     map_option (\<lambda>(ret, found, m, st). (ret, m, st\<lparr>battery_chunks_found_timestamp := found\<rparr>))
       (get_next_chunk so lost (partition_id_battery_chunks st) BatteryChunk_fields chunk (battery_chunks_found_timestamp st) (memset0 chunk (sizeof BatteryChunk) m) st)"

definition storer_store_scan_chunk :: "'s storage_ops \<Rightarrow> memory \<Rightarrow> int \<Rightarrow> 's storer \<Rightarrow> (unit, 's storer) outcome" where
  "storer_store_scan_chunk so m chunk st = store_chunk so (partition_id_scan_chunks st) ScanChunk_fields m chunk st"

definition storer_find_scan_chunk_from_timestamp ::
  "'s storage_ops \<Rightarrow> 's leftover \<Rightarrow> nat \<times> nat \<Rightarrow> int \<Rightarrow> memory \<Rightarrow> 's storer \<Rightarrow> (ret_code \<times> memory \<times> 's storer) option" where
  "storer_find_scan_chunk_from_timestamp so lost timestamp chunk m st =
     map_option (\<lambda>(ret, found, m, st). (ret, m, st\<lparr>scan_chunks_found_timestamp := found\<rparr>))
       (find_chunk_from_timestamp so lost timestamp (partition_id_scan_chunks st) ScanChunk_fields chunk (memset0 chunk (sizeof ScanChunk) m) st)"

definition storer_get_next_scan_chunk ::
  "'s storage_ops \<Rightarrow> 's leftover \<Rightarrow> int \<Rightarrow> memory \<Rightarrow> 's storer \<Rightarrow> (ret_code \<times> memory \<times> 's storer) option" where
  "storer_get_next_scan_chunk so lost chunk m st =
     map_option (\<lambda>(ret, found, m, st). (ret, m, st\<lparr>scan_chunks_found_timestamp := found\<rparr>))
       (get_next_chunk so lost (partition_id_scan_chunks st) ScanChunk_fields chunk (scan_chunks_found_timestamp st) (memset0 chunk (sizeof ScanChunk) m) st)"

definition storer_store_microphone_chunk :: "'s storage_ops \<Rightarrow> memory \<Rightarrow> int \<Rightarrow> 's storer \<Rightarrow> (unit, 's storer) outcome" where
  "storer_store_microphone_chunk so m chunk st = store_chunk so (partition_id_microphone_chunks st) MicrophoneChunk_fields m chunk st"

definition storer_find_microphone_chunk_from_timestamp ::
  "'s storage_ops \<Rightarrow> 's leftover \<Rightarrow> nat \<times> nat \<Rightarrow> int \<Rightarrow> memory \<Rightarrow> 's storer \<Rightarrow> (ret_code \<times> memory \<times> 's storer) option" where
  "storer_find_microphone_chunk_from_timestamp so lost timestamp chunk m st =
     map_option (\<lambda>(ret, found, m, st). (ret, m, st\<lparr>microphone_chunks_found_timestamp := found\<rparr>))
       (find_chunk_from_timestamp so lost timestamp (partition_id_microphone_chunks st) MicrophoneChunk_fields chunk (memset0 chunk (sizeof MicrophoneChunk) m) st)"

definition storer_get_next_microphone_chunk ::
  "'s storage_ops \<Rightarrow> 's leftover \<Rightarrow> int \<Rightarrow> memory \<Rightarrow> 's storer \<Rightarrow> (ret_code \<times> memory \<times> 's storer) option" where
  "storer_get_next_microphone_chunk so lost chunk m st =
     map_option (\<lambda>(ret, found, m, st). (ret, m, st\<lparr>microphone_chunks_found_timestamp := found\<rparr>))
       (get_next_chunk so lost (partition_id_microphone_chunks st) MicrophoneChunk_fields chunk (microphone_chunks_found_timestamp st) (memset0 chunk (sizeof MicrophoneChunk) m) st)"

end
