(* ===== verification/Badge_Storer.thy ===== *)
theory Badge_Storer
  imports Badge_FS FS_Registered Storer
begin

text \<open>
  The storer on the storage of the badge: what was stored is what is read back, from the structure
  in memory through the serialisation, the filesystem and both memories.
\<close>

section \<open>States of the storer\<close>

text \<open>
  The partitions with the tables of their messages: a partition of fixed-length elements holds
  elements of the maximal length of its message.
\<close>

definition storer_partitions :: "'s storer \<Rightarrow> (nat \<times> tb_field list) list" where
  "storer_partitions st =
     [(partition_id_badge_assignement st, BadgeAssignement_fields), (partition_id_battery_chunks st, BatteryChunk_fields),
      (partition_id_microphone_chunks st, MicrophoneChunk_fields), (partition_id_scan_chunks st, ScanChunk_fields),
      (partition_id_accelerometer_interrupt_chunks st, AccelerometerInterruptChunk_fields),
      (partition_id_accelerometer_chunks st, AccelerometerChunk_fields)]"

definition storer_ready :: "'s storage_ops \<Rightarrow> 's storer \<Rightarrow> bool" where
  "storer_ready so st \<longleftrightarrow> fs_reachable so (sfs st) \<and> length (serialized_buf st) = STORER_SERIALIZED_BUFFER_SIZE
     \<and> (\<forall>(pid, message_fields) \<in> set (storer_partitions st). holds_elements (sfs st) pid (tb_longest message_fields))"

lemma storer_tables:
  assumes "(pid, message_fields) \<in> set (storer_partitions st)"
  shows "tb_table_ok None message_fields" "table_regular message_fields" "tb_longest message_fields \<le> 207"
  using assms by (auto simp: storer_partitions_def field_tables_ok field_tables_longest)

lemma max_len_longest:
  assumes "tb_table_ok None fs" "table_regular fs" "tb_longest fs \<le> 207"
  shows "tb_get_max_encoded_len fs = tb_longest fs"
  using max_len_loop_longest[OF assms(1,2), of 0] assms(3) by (simp add: tb_get_max_encoded_len_def)

lemma storer_max_lens:
  "tb_get_max_encoded_len BadgeAssignement_fields = 3" "tb_get_max_encoded_len BatteryChunk_fields = 10"
  "tb_get_max_encoded_len MicrophoneChunk_fields = 123" "tb_get_max_encoded_len ScanChunk_fields = 123"
  "tb_get_max_encoded_len AccelerometerInterruptChunk_fields = 6" "tb_get_max_encoded_len AccelerometerChunk_fields = 207"
  by (simp_all add: max_len_longest field_tables_ok field_tables_longest)

section \<open>Reading back\<close>

text \<open>The element in the buffer decodes to the structure it was encoded from.\<close>

lemma decode_stored:
  assumes ok: "tb_table_ok None fs" and cs: "tb_cells fs m src = Some cs"
    and buf: "take (total_len cs) (serialized_buf st) = cells_bytes TB_LITTLE_ENDIAN m cs" "total_len cs \<le> len"
      "len \<le> length (serialized_buf st)" "len < 4294967296"
  shows "decode_element fs len dst m0 st = (True, restore (moved (dst - src) m) (map (move (dst - src)) cs) m0)"
proof -
  let ?d = "dst - src"
  have c: "tb_cells fs (moved ?d m) dst = Some (map (move ?d) cs)" using tb_cells_moved[of fs ?d m src] cs by simp
  have "istream_holds TB_LITTLE_ENDIAN (moved ?d m) (map (move ?d) cs) (tb_istream_from_buffer (serialized_buf st) len)"
    using buf by (simp add: istream_holds_def tb_istream_from_buffer_def)
  from tb_decode_by_cells[OF ok c this, of m0] show ?thesis by (simp add: decode_element_def)
qed

context badge_hardware
begin

text \<open>A registration keeps what was registered and adds a partition.\<close>

lemma register_ready:
  fixes st
  defines "so \<equiv> badge_storage F B polls"
  assumes re: "fs_reachable so (sfs st)" and el: "element_len < 65536"
    and r: "register so required is_dynamic enable_crc element_len set_id st = (Inr (), st')"
  shows "\<exists>pid fs'. st' = set_id pid (st\<lparr>sfs := fs'\<rparr>) \<and> fs_reachable so fs' \<and> holds_elements fs' pid element_len
    \<and> pid_dynamic pid = is_dynamic \<and> (\<forall>q n. holds_elements (sfs st) q n \<longrightarrow> holds_elements fs' q n)"
proof -
  obtain pid granted fs' where f: "filesystem_register_partition so required is_dynamic enable_crc element_len (sfs st) = (Inr (pid, granted), fs')"
    and st': "st' = set_id pid (st\<lparr>sfs := fs'\<rparr>)"
    using r el by (auto simp: register_def on_fs_def elim!: attempt_success split: prod.splits)
  have step: "fs_step so (sfs st) fs'" using fs_step.step_register[OF el, of so "sfs st" required is_dynamic enable_crc] f by simp
  note lay = reachable_layout[OF re[unfolded so_def]]
  have "fs_reachable so fs'" using re step by (rule fs_reachable.called)
  moreover have "holds_elements fs' pid element_len" "pid_dynamic pid = is_dynamic"
    using stack.register_holds[OF lay el f[unfolded so_def ops_eq]] by simp_all
  moreover have "holds_elements fs' q n" if "holds_elements (sfs st) q n" for q n
    by (rule stack.registered_kept[OF step[unfolded so_def ops_eq] lay that])
  ultimately show ?thesis using st' by blast
qed

lemma storer_init_ready:
  fixes st0
  defines "so \<equiv> badge_storage F B polls"
  assumes ar: "fs_arrays (sfs st0)" "length (serialized_buf st0) = STORER_SERIALIZED_BUFFER_SIZE"
    and i: "storer_init so st0 = (Inr (), st)"
  shows "storer_ready so st"
proof -
  obtain s0 s1 s2 s3 s4 s5 where boot: "on_fs (filesystem_init so) st0 = (Inr (), s0)"
    and r1: "register so (required_size STORER_BADGE_ASSIGNEMENT_NUMBER 3 (2 + 2)) False True 3 (\<lambda>p. partition_id_badge_assignement_update (\<lambda>_. p)) s0 = (Inr (), s1)"
    and r2: "register so (required_size STORER_BATTERY_DATA_NUMBER 10 2) False False 10 (\<lambda>p. partition_id_battery_chunks_update (\<lambda>_. p)) s1 = (Inr (), s2)"
    and r3: "register so (required_size STORER_MICROPHONE_DATA_NUMBER 123 (2 + 2)) False True 123 (\<lambda>p. partition_id_microphone_chunks_update (\<lambda>_. p)) s2 = (Inr (), s3)"
    and r4: "register so (required_size STORER_SCAN_DATA_NUMBER 123 (2 + 2 + 2)) True True 0 (\<lambda>p. partition_id_scan_chunks_update (\<lambda>_. p)) s3 = (Inr (), s4)"
    and r5: "register so (required_size STORER_ACCELEROMETER_INTERRUPT_DATA_NUMBER 6 (2 + 2)) False True 6 (\<lambda>p. partition_id_accelerometer_interrupt_chunks_update (\<lambda>_. p)) s4 = (Inr (), s5)"
    and r6: "register so (required_size STORER_ACCELEROMETER_DATA_NUMBER 207 (2 + 2)) False True 207 (\<lambda>p. partition_id_accelerometer_chunks_update (\<lambda>_. p)) s5 = (Inr (), st)"
    using i unfolding storer_init_def storer_register_partitions_def storer_max_lens Let_def
      PARTITION_ELEMENT_HEADER_RECORD_ID_SIZE_def PARTITION_ELEMENT_HEADER_ELEMENT_CRC_SIZE_def PARTITION_ELEMENT_HEADER_PREVIOUS_LEN_XOR_CUR_LEN_SIZE_def
    by (elim attempt_success) auto
  obtain fs0 where s0: "s0 = st0\<lparr>sfs := fs0\<rparr>" "filesystem_init so (sfs st0) = (Inr (), fs0)"
    using boot by (auto simp: on_fs_def split: prod.splits)
  have f0: "fs_reachable so (sfs s0)" using fs_reachable.booted[OF ar(1) s0(2)] s0(1) by simp
  note ready = register_ready[folded so_def]
  from ready[OF f0 _ r1] obtain p1 f1 where p1: "s1 = partition_id_badge_assignement_update (\<lambda>_. p1) (s0\<lparr>sfs := f1\<rparr>)"
    "fs_reachable so f1" "holds_elements f1 p1 3" by auto
  have "fs_reachable so (sfs s1)" using p1(1,2) by simp
  from ready[OF this _ r2] p1(1) obtain p2 f2 where p2: "s2 = partition_id_battery_chunks_update (\<lambda>_. p2) (s1\<lparr>sfs := f2\<rparr>)"
    "fs_reachable so f2" "holds_elements f2 p2 10" "\<And>q n. holds_elements f1 q n \<Longrightarrow> holds_elements f2 q n" by auto
  have "fs_reachable so (sfs s2)" using p2(1,2) by simp
  from ready[OF this _ r3] p2(1) obtain p3 f3 where p3: "s3 = partition_id_microphone_chunks_update (\<lambda>_. p3) (s2\<lparr>sfs := f3\<rparr>)"
    "fs_reachable so f3" "holds_elements f3 p3 123" "\<And>q n. holds_elements f2 q n \<Longrightarrow> holds_elements f3 q n" by auto
  have "fs_reachable so (sfs s3)" using p3(1,2) by simp
  from ready[OF this _ r4] p3(1) obtain p4 f4 where p4: "s4 = partition_id_scan_chunks_update (\<lambda>_. p4) (s3\<lparr>sfs := f4\<rparr>)"
    "fs_reachable so f4" "holds_elements f4 p4 0" "pid_dynamic p4" "\<And>q n. holds_elements f3 q n \<Longrightarrow> holds_elements f4 q n" by auto
  have "fs_reachable so (sfs s4)" using p4(1,2) by simp
  from ready[OF this _ r5] p4(1) obtain p5 f5 where p5: "s5 = partition_id_accelerometer_interrupt_chunks_update (\<lambda>_. p5) (s4\<lparr>sfs := f5\<rparr>)"
    "fs_reachable so f5" "holds_elements f5 p5 6" "\<And>q n. holds_elements f4 q n \<Longrightarrow> holds_elements f5 q n" by auto
  have "fs_reachable so (sfs s5)" using p5(1,2) by simp
  from ready[OF this _ r6] p5(1) obtain p6 f6 where p6: "st = partition_id_accelerometer_chunks_update (\<lambda>_. p6) (s5\<lparr>sfs := f6\<rparr>)"
    "fs_reachable so f6" "holds_elements f6 p6 207" "\<And>q n. holds_elements f5 q n \<Longrightarrow> holds_elements f6 q n" by auto
  have scan: "holds_elements f4 p4 123" using p4(3,4) by (simp add: holds_elements_def)
  have "holds_elements f6 p1 3" "holds_elements f6 p2 10" "holds_elements f6 p3 123" "holds_elements f6 p4 123" "holds_elements f6 p5 6"
    using p1(3) p2(3,4) p3(3,4) p4(5) p5(3,4) p6(4) scan by blast+
  with p1(1) p2(1) p3(1) p4(1) p5(1) p6(1-3) s0(1) ar(2) show ?thesis
    by (simp add: storer_ready_def storer_partitions_def field_tables_longest)
qed

lemma stored_chunk_found:
  fixes lost
  defines "so \<equiv> badge_storage F B polls"
  assumes rd: "storer_ready so st" and bl: "blank_behind F (snd (modules (storage (sfs st))))"
    and p: "(pid, message_fields) \<in> set (storer_partitions st)"
    and st: "store_chunk so pid message_fields m src st = (Inr (), st1)"
    and live: "reads_succeed so (storage (sfs st1))"
  shows "\<exists>cs st2 st3 len. tb_cells message_fields m src = Some cs \<and> on_fs (filesystem_iterator_init so pid) st1 = (Inr (), st2)
    \<and> read_element so lost pid st2 = (Inr len, st3)
    \<and> (\<forall>fs. decode_element message_fields len dst m0 (st3\<lparr>sfs := fs\<rparr>) = (True, restore (moved (dst - src) m) (map (move (dst - src)) cs) m0))"
proof -
  note t = storer_tables[OF p]
  have h: "holds_elements (sfs st) pid (tb_longest message_fields)" and re: "fs_reachable so (sfs st)"
    and bufl: "length (serialized_buf st) = 512"
    using rd p by (auto simp: storer_ready_def STORER_SERIALIZED_BUFFER_SIZE_def)
  let ?os0 = "tb_ostream_from_buffer (serialized_buf st) STORER_SERIALIZED_BUFFER_SIZE"
  obtain ok os where e: "tb_encode TB_LITTLE_ENDIAN message_fields m src ?os0 = (ok, os)" by fastforce
  have ok: "ok" using st e by (auto simp: store_chunk_def Let_def split: if_splits)
  have o: "ostream_ok ?os0" using bufl by (simp add: ostream_ok_def tb_ostream_from_buffer_def STORER_SERIALIZED_BUFFER_SIZE_def)
  have enc: "tb_encode TB_LITTLE_ENDIAN message_fields m src ?os0 = (True, os)" using e ok by simp
  obtain cs where cs: "tb_cells message_fields m src = Some cs"
    and os: "bytes_written os = total_len cs" "obuf os = overwrite (serialized_buf st) 0 (cells_bytes TB_LITTLE_ENDIAN m cs)" "total_len cs \<le> 512"
    by (rule tb_encode_success[OF t(1) o enc]) (auto simp: tb_ostream_from_buffer_def STORER_SERIALIZED_BUFFER_SIZE_def)
  have lon: "total_len cs \<le> tb_longest message_fields" by (rule tb_cells_longest[OF t(1,2) cs])
  have ol: "length (obuf os) = 512" using os bufl by simp
  obtain fs1 where f: "filesystem_store_element so pid (obuf os) (total_len cs) (sfs st) = (Inr (), fs1)"
    and st1: "st1 = st\<lparr>serialized_buf := obuf os, sfs := fs1\<rparr>"
    using st e ok os by (auto simp: store_chunk_def Let_def on_fs_def split: prod.splits)
  define len where "len = (if pid_dynamic pid then total_len cs else first_element_len (metadata (part (sfs st) pid)))"
  have ll: "total_len cs \<le> len" "len \<le> 512" using h lon t(3) os(3) by (auto simp: len_def holds_elements_def)
  have reg: "registered_in (sfs st) pid" using h by (simp add: holds_elements_def)
  obtain fs2 fs3 rid where r: "filesystem_iterator_init so pid fs1 = (Inr (), fs2)"
    "filesystem_iterator_read_element so pid fs2 = (Inr (take len (obuf os), len, rid), fs3)"
    using store_and_read(2)[OF re[unfolded so_def] reg bl _ _ len_def _ f[unfolded so_def]] ll ol lon t(3) os(3) live st1
    unfolding so_def by auto
  have keep: "overwrite (obuf os) 0 (take len (obuf os)) = obuf os" using ll ol by (simp add: overwrite_def)
  let ?st2 = "st1\<lparr>sfs := fs2\<rparr>" let ?st3 = "st1\<lparr>sfs := fs3\<rparr>"
  have 1: "on_fs (filesystem_iterator_init so pid) st1 = (Inr (), ?st2)" using r(1) by (simp add: on_fs_def st1)
  have 2: "read_element so lost pid ?st2 = (Inr len, ?st3)" using r(2) keep by (simp add: read_element_def st1)
  have "take (total_len cs) (obuf os) = cells_bytes TB_LITTLE_ENDIAN m cs"
    using os(2) by (simp add: overwrite_def)
  then have 3: "decode_element message_fields len dst m0 (?st3\<lparr>sfs := fs\<rparr>) = (True, restore (moved (dst - src) m) (map (move (dst - src)) cs) m0)" for fs
    using decode_stored[OF t(1) cs, of "?st3\<lparr>sfs := fs\<rparr>" len dst m0] ll ol by (simp add: st1)
  from cs 1 2 3 show ?thesis by blast
qed

end

end
