(* ===== verification/Protocol_Messages.thy ===== *)
theory Protocol_Messages
  imports Messages
begin

text \<open>
  The messages of \<^verbatim>\<open>incl/stream_messages.c\<close> and of the second version of the protocol between the
  badge and a hub, \<^verbatim>\<open>incl/protocol_messages_02v1.c\<close>, with their structures.
\<close>

section \<open>Stream messages\<close>

definition BatteryStream :: "ctype list" where
  "BatteryStream = [cstruct BatteryData]"

definition MicrophoneStream :: "ctype list" where
  "MicrophoneStream = [cstruct MicrophoneData]"

definition ScanStream :: "ctype list" where
  "ScanStream = [cstruct ScanDevice]"

definition AccelerometerStream :: "ctype list" where
  "AccelerometerStream = [cstruct AccelerometerRawData]"

definition AccelerometerInterruptStream :: "ctype list" where
  "AccelerometerInterruptStream = [cstruct Timestamp]"

definition BatteryStream_fields :: "tb_field list" where
  "BatteryStream_fields = [entry_message 513 BatteryStream 0 BatteryData_fields]"

definition MicrophoneStream_fields :: "tb_field list" where
  "MicrophoneStream_fields = [entry_message 513 MicrophoneStream 0 MicrophoneData_fields]"

definition ScanStream_fields :: "tb_field list" where
  "ScanStream_fields = [entry_message 513 ScanStream 0 ScanDevice_fields]"

definition AccelerometerStream_fields :: "tb_field list" where
  "AccelerometerStream_fields = [entry_message 513 AccelerometerStream 0 AccelerometerRawData_fields]"

definition AccelerometerInterruptStream_fields :: "tb_field list" where
  "AccelerometerInterruptStream_fields = [entry_message 513 AccelerometerInterruptStream 0 Timestamp_fields]"

section \<open>Structures of the protocol\<close>

text \<open>A union is as large and as aligned as its largest and most aligned member.\<close>

definition cunion :: "ctype list \<Rightarrow> ctype" where
  "cunion ts = (let al = foldr max (map snd ts) 1 in (align_up al (foldr max (map fst ts) 0), al))"

definition StatusRequest :: "ctype list" where
  "StatusRequest = [cstruct Timestamp, uint8_t, cstruct BadgeAssignement]"

definition StartMicrophoneRequest :: "ctype list" where
  "StartMicrophoneRequest = [cstruct Timestamp, uint16_t, uint16_t]"

definition StopMicrophoneRequest :: "ctype list" where
  "StopMicrophoneRequest = []"

definition StartScanRequest :: "ctype list" where
  "StartScanRequest = [cstruct Timestamp, uint16_t, uint16_t, uint16_t, uint16_t, uint16_t, uint8_t]"

definition StopScanRequest :: "ctype list" where
  "StopScanRequest = []"

definition StartAccelerometerRequest :: "ctype list" where
  "StartAccelerometerRequest = [cstruct Timestamp, uint16_t, uint8_t, uint8_t, uint16_t, uint16_t]"

definition StopAccelerometerRequest :: "ctype list" where
  "StopAccelerometerRequest = []"

definition StartAccelerometerInterruptRequest :: "ctype list" where
  "StartAccelerometerInterruptRequest = [cstruct Timestamp, uint16_t, uint16_t, uint16_t, uint32_t]"

definition StopAccelerometerInterruptRequest :: "ctype list" where
  "StopAccelerometerInterruptRequest = []"

definition StartBatteryRequest :: "ctype list" where
  "StartBatteryRequest = [cstruct Timestamp, uint16_t, uint32_t]"

definition StopBatteryRequest :: "ctype list" where
  "StopBatteryRequest = []"

definition MicrophoneDataRequest :: "ctype list" where
  "MicrophoneDataRequest = [cstruct Timestamp]"

definition ScanDataRequest :: "ctype list" where
  "ScanDataRequest = [cstruct Timestamp]"

definition AccelerometerDataRequest :: "ctype list" where
  "AccelerometerDataRequest = [cstruct Timestamp]"

definition AccelerometerInterruptDataRequest :: "ctype list" where
  "AccelerometerInterruptDataRequest = [cstruct Timestamp]"

definition BatteryDataRequest :: "ctype list" where
  "BatteryDataRequest = [cstruct Timestamp]"

definition StartMicrophoneStreamRequest :: "ctype list" where
  "StartMicrophoneStreamRequest = [cstruct Timestamp, uint16_t, uint16_t]"

definition StopMicrophoneStreamRequest :: "ctype list" where
  "StopMicrophoneStreamRequest = []"

definition StartScanStreamRequest :: "ctype list" where
  "StartScanStreamRequest = [cstruct Timestamp, uint16_t, uint16_t, uint16_t, uint16_t, uint16_t, uint8_t]"

definition StopScanStreamRequest :: "ctype list" where
  "StopScanStreamRequest = []"

definition StartAccelerometerStreamRequest :: "ctype list" where
  "StartAccelerometerStreamRequest = [cstruct Timestamp, uint16_t, uint8_t, uint8_t, uint16_t, uint16_t]"

definition StopAccelerometerStreamRequest :: "ctype list" where
  "StopAccelerometerStreamRequest = []"

definition StartAccelerometerInterruptStreamRequest :: "ctype list" where
  "StartAccelerometerInterruptStreamRequest = [cstruct Timestamp, uint16_t, uint16_t, uint16_t, uint32_t]"

definition StopAccelerometerInterruptStreamRequest :: "ctype list" where
  "StopAccelerometerInterruptStreamRequest = []"

definition StartBatteryStreamRequest :: "ctype list" where
  "StartBatteryStreamRequest = [cstruct Timestamp, uint16_t, uint32_t]"

definition StopBatteryStreamRequest :: "ctype list" where
  "StopBatteryStreamRequest = []"

definition IdentifyRequest :: "ctype list" where
  "IdentifyRequest = [uint16_t]"

definition TestRequest :: "ctype list" where
  "TestRequest = []"

definition RestartRequest :: "ctype list" where
  "RestartRequest = []"

definition Request :: "ctype list" where
  "Request = [uint8_t,
     cunion [cstruct StatusRequest, cstruct StartMicrophoneRequest, cstruct StopMicrophoneRequest, cstruct StartScanRequest, cstruct StopScanRequest, cstruct StartAccelerometerRequest, cstruct StopAccelerometerRequest, cstruct StartAccelerometerInterruptRequest, cstruct StopAccelerometerInterruptRequest, cstruct StartBatteryRequest, cstruct StopBatteryRequest, cstruct MicrophoneDataRequest, cstruct ScanDataRequest, cstruct AccelerometerDataRequest, cstruct AccelerometerInterruptDataRequest, cstruct BatteryDataRequest, cstruct StartMicrophoneStreamRequest, cstruct StopMicrophoneStreamRequest, cstruct StartScanStreamRequest, cstruct StopScanStreamRequest, cstruct StartAccelerometerStreamRequest, cstruct StopAccelerometerStreamRequest, cstruct StartAccelerometerInterruptStreamRequest, cstruct StopAccelerometerInterruptStreamRequest, cstruct StartBatteryStreamRequest, cstruct StopBatteryStreamRequest, cstruct IdentifyRequest, cstruct TestRequest, cstruct RestartRequest]]"

definition StatusResponse :: "ctype list" where
  "StatusResponse = [uint8_t, uint8_t, uint8_t, uint8_t, uint8_t, uint8_t, cstruct Timestamp, cstruct BatteryData]"

definition StartMicrophoneResponse :: "ctype list" where
  "StartMicrophoneResponse = [cstruct Timestamp]"

definition StartScanResponse :: "ctype list" where
  "StartScanResponse = [cstruct Timestamp]"

definition StartAccelerometerResponse :: "ctype list" where
  "StartAccelerometerResponse = [cstruct Timestamp]"

definition StartAccelerometerInterruptResponse :: "ctype list" where
  "StartAccelerometerInterruptResponse = [cstruct Timestamp]"

definition StartBatteryResponse :: "ctype list" where
  "StartBatteryResponse = [cstruct Timestamp]"

definition MicrophoneDataResponse :: "ctype list" where
  "MicrophoneDataResponse = [uint8_t, cstruct Timestamp, uint16_t, uint8_t, carray (cstruct MicrophoneData) 114]"

definition ScanDataResponse :: "ctype list" where
  "ScanDataResponse = [uint8_t, cstruct Timestamp, uint8_t, carray (cstruct ScanResultData) 29]"

definition AccelerometerDataResponse :: "ctype list" where
  "AccelerometerDataResponse = [uint8_t, cstruct Timestamp, uint8_t, carray (cstruct AccelerometerData) 100]"

definition AccelerometerInterruptDataResponse :: "ctype list" where
  "AccelerometerInterruptDataResponse = [uint8_t, cstruct Timestamp]"

definition BatteryDataResponse :: "ctype list" where
  "BatteryDataResponse = [uint8_t, cstruct Timestamp, cstruct BatteryData]"

definition StreamResponse :: "ctype list" where
  "StreamResponse = [cstruct Timestamp, uint8_t, carray (cstruct BatteryStream) 10, uint8_t,
     carray (cstruct MicrophoneStream) 10, uint8_t, carray (cstruct ScanStream) 10, uint8_t,
     carray (cstruct AccelerometerStream) 10, uint8_t, carray (cstruct AccelerometerInterruptStream) 10]"

definition TestResponse :: "ctype list" where
  "TestResponse = [uint8_t]"

definition Response :: "ctype list" where
  "Response = [uint8_t,
     cunion [cstruct StatusResponse, cstruct StartMicrophoneResponse, cstruct StartScanResponse, cstruct StartAccelerometerResponse, cstruct StartAccelerometerInterruptResponse, cstruct StartBatteryResponse, cstruct MicrophoneDataResponse, cstruct ScanDataResponse, cstruct AccelerometerDataResponse, cstruct AccelerometerInterruptDataResponse, cstruct BatteryDataResponse, cstruct StreamResponse, cstruct TestResponse]]"

section \<open>Tables of the protocol\<close>

text \<open>Two more shapes of entries: an optional message with its flag, and a message of a oneof-field.\<close>

definition entry_optional_message :: "nat \<Rightarrow> ctype list \<Rightarrow> nat \<Rightarrow> nat \<Rightarrow> tb_field list \<Rightarrow> tb_field" where
  "entry_optional_message ty st i flag sub =
     TB_FIELD ty (tb_offsetof st i) (tb_delta st flag i) 1 (tb_membersize st i) 0 0 False sub"

definition entry_oneof_message :: "nat \<Rightarrow> ctype list \<Rightarrow> nat \<Rightarrow> nat \<Rightarrow> nat \<Rightarrow> nat \<Rightarrow> bool \<Rightarrow> tb_field list \<Rightarrow> tb_field" where
  "entry_oneof_message ty st i which n tag is_first sub =
     TB_FIELD ty (tb_offsetof st i) (tb_delta st which i) 1 n 0 tag is_first sub"

definition StatusRequest_fields :: "tb_field list" where
  "StatusRequest_fields = [entry_message 513 StatusRequest 0 Timestamp_fields,
     entry_optional_message 514 StatusRequest 2 1 BadgeAssignement_fields]"

definition StartMicrophoneRequest_fields :: "tb_field list" where
  "StartMicrophoneRequest_fields = [entry_message 513 StartMicrophoneRequest 0 Timestamp_fields, entry_plain 65 StartMicrophoneRequest 1,
     entry_plain 65 StartMicrophoneRequest 2]"

definition StopMicrophoneRequest_fields :: "tb_field list" where
  "StopMicrophoneRequest_fields = []"

definition StartScanRequest_fields :: "tb_field list" where
  "StartScanRequest_fields = [entry_message 513 StartScanRequest 0 Timestamp_fields, entry_plain 65 StartScanRequest 1,
     entry_plain 65 StartScanRequest 2, entry_plain 65 StartScanRequest 3,
     entry_plain 65 StartScanRequest 4, entry_plain 65 StartScanRequest 5,
     entry_plain 65 StartScanRequest 6]"

definition StopScanRequest_fields :: "tb_field list" where
  "StopScanRequest_fields = []"

definition StartAccelerometerRequest_fields :: "tb_field list" where
  "StartAccelerometerRequest_fields = [entry_message 513 StartAccelerometerRequest 0 Timestamp_fields,
     entry_plain 65 StartAccelerometerRequest 1, entry_plain 65 StartAccelerometerRequest 2,
     entry_plain 65 StartAccelerometerRequest 3, entry_plain 65 StartAccelerometerRequest 4,
     entry_plain 65 StartAccelerometerRequest 5]"

definition StopAccelerometerRequest_fields :: "tb_field list" where
  "StopAccelerometerRequest_fields = []"

definition StartAccelerometerInterruptRequest_fields :: "tb_field list" where
  "StartAccelerometerInterruptRequest_fields = [entry_message 513 StartAccelerometerInterruptRequest 0 Timestamp_fields,
     entry_plain 65 StartAccelerometerInterruptRequest 1,
     entry_plain 65 StartAccelerometerInterruptRequest 2,
     entry_plain 65 StartAccelerometerInterruptRequest 3,
     entry_plain 65 StartAccelerometerInterruptRequest 4]"

definition StopAccelerometerInterruptRequest_fields :: "tb_field list" where
  "StopAccelerometerInterruptRequest_fields = []"

definition StartBatteryRequest_fields :: "tb_field list" where
  "StartBatteryRequest_fields = [entry_message 513 StartBatteryRequest 0 Timestamp_fields, entry_plain 65 StartBatteryRequest 1,
     entry_plain 65 StartBatteryRequest 2]"

definition StopBatteryRequest_fields :: "tb_field list" where
  "StopBatteryRequest_fields = []"

definition MicrophoneDataRequest_fields :: "tb_field list" where
  "MicrophoneDataRequest_fields = [entry_message 513 MicrophoneDataRequest 0 Timestamp_fields]"

definition ScanDataRequest_fields :: "tb_field list" where
  "ScanDataRequest_fields = [entry_message 513 ScanDataRequest 0 Timestamp_fields]"

definition AccelerometerDataRequest_fields :: "tb_field list" where
  "AccelerometerDataRequest_fields = [entry_message 513 AccelerometerDataRequest 0 Timestamp_fields]"

definition AccelerometerInterruptDataRequest_fields :: "tb_field list" where
  "AccelerometerInterruptDataRequest_fields = [entry_message 513 AccelerometerInterruptDataRequest 0 Timestamp_fields]"

definition BatteryDataRequest_fields :: "tb_field list" where
  "BatteryDataRequest_fields = [entry_message 513 BatteryDataRequest 0 Timestamp_fields]"

definition StartMicrophoneStreamRequest_fields :: "tb_field list" where
  "StartMicrophoneStreamRequest_fields = [entry_message 513 StartMicrophoneStreamRequest 0 Timestamp_fields,
     entry_plain 65 StartMicrophoneStreamRequest 1, entry_plain 65 StartMicrophoneStreamRequest 2]"

definition StopMicrophoneStreamRequest_fields :: "tb_field list" where
  "StopMicrophoneStreamRequest_fields = []"

definition StartScanStreamRequest_fields :: "tb_field list" where
  "StartScanStreamRequest_fields = [entry_message 513 StartScanStreamRequest 0 Timestamp_fields, entry_plain 65 StartScanStreamRequest 1,
     entry_plain 65 StartScanStreamRequest 2, entry_plain 65 StartScanStreamRequest 3,
     entry_plain 65 StartScanStreamRequest 4, entry_plain 65 StartScanStreamRequest 5,
     entry_plain 65 StartScanStreamRequest 6]"

definition StopScanStreamRequest_fields :: "tb_field list" where
  "StopScanStreamRequest_fields = []"

definition StartAccelerometerStreamRequest_fields :: "tb_field list" where
  "StartAccelerometerStreamRequest_fields = [entry_message 513 StartAccelerometerStreamRequest 0 Timestamp_fields,
     entry_plain 65 StartAccelerometerStreamRequest 1, entry_plain 65 StartAccelerometerStreamRequest 2,
     entry_plain 65 StartAccelerometerStreamRequest 3, entry_plain 65 StartAccelerometerStreamRequest 4,
     entry_plain 65 StartAccelerometerStreamRequest 5]"

definition StopAccelerometerStreamRequest_fields :: "tb_field list" where
  "StopAccelerometerStreamRequest_fields = []"

definition StartAccelerometerInterruptStreamRequest_fields :: "tb_field list" where
  "StartAccelerometerInterruptStreamRequest_fields = [entry_message 513 StartAccelerometerInterruptStreamRequest 0 Timestamp_fields,
     entry_plain 65 StartAccelerometerInterruptStreamRequest 1,
     entry_plain 65 StartAccelerometerInterruptStreamRequest 2,
     entry_plain 65 StartAccelerometerInterruptStreamRequest 3,
     entry_plain 65 StartAccelerometerInterruptStreamRequest 4]"

definition StopAccelerometerInterruptStreamRequest_fields :: "tb_field list" where
  "StopAccelerometerInterruptStreamRequest_fields = []"

definition StartBatteryStreamRequest_fields :: "tb_field list" where
  "StartBatteryStreamRequest_fields = [entry_message 513 StartBatteryStreamRequest 0 Timestamp_fields,
     entry_plain 65 StartBatteryStreamRequest 1, entry_plain 65 StartBatteryStreamRequest 2]"

definition StopBatteryStreamRequest_fields :: "tb_field list" where
  "StopBatteryStreamRequest_fields = []"

definition IdentifyRequest_fields :: "tb_field list" where
  "IdentifyRequest_fields = [entry_plain 65 IdentifyRequest 0]"

definition TestRequest_fields :: "tb_field list" where
  "TestRequest_fields = []"

definition RestartRequest_fields :: "tb_field list" where
  "RestartRequest_fields = []"

definition Request_fields :: "tb_field list" where
  "Request_fields = [entry_oneof_message 528 Request 1 0 (sizeof StatusRequest) 1 True StatusRequest_fields,
     entry_oneof_message 528 Request 1 0 (sizeof StartMicrophoneRequest) 2 False StartMicrophoneRequest_fields,
     entry_oneof_message 528 Request 1 0 (sizeof StopMicrophoneRequest) 3 False StopMicrophoneRequest_fields,
     entry_oneof_message 528 Request 1 0 (sizeof StartScanRequest) 4 False StartScanRequest_fields,
     entry_oneof_message 528 Request 1 0 (sizeof StopScanRequest) 5 False StopScanRequest_fields,
     entry_oneof_message 528 Request 1 0 (sizeof StartAccelerometerRequest) 6 False StartAccelerometerRequest_fields,
     entry_oneof_message 528 Request 1 0 (sizeof StopAccelerometerRequest) 7 False StopAccelerometerRequest_fields,
     entry_oneof_message 528 Request 1 0 (sizeof StartAccelerometerInterruptRequest) 8 False StartAccelerometerInterruptRequest_fields,
     entry_oneof_message 528 Request 1 0 (sizeof StopAccelerometerInterruptRequest) 9 False StopAccelerometerInterruptRequest_fields,
     entry_oneof_message 528 Request 1 0 (sizeof StartBatteryRequest) 10 False StartBatteryRequest_fields,
     entry_oneof_message 528 Request 1 0 (sizeof StopBatteryRequest) 11 False StopBatteryRequest_fields,
     entry_oneof_message 528 Request 1 0 (sizeof MicrophoneDataRequest) 12 False MicrophoneDataRequest_fields,
     entry_oneof_message 528 Request 1 0 (sizeof ScanDataRequest) 13 False ScanDataRequest_fields,
     entry_oneof_message 528 Request 1 0 (sizeof AccelerometerDataRequest) 14 False AccelerometerDataRequest_fields,
     entry_oneof_message 528 Request 1 0 (sizeof AccelerometerInterruptDataRequest) 15 False AccelerometerInterruptDataRequest_fields,
     entry_oneof_message 528 Request 1 0 (sizeof BatteryDataRequest) 16 False BatteryDataRequest_fields,
     entry_oneof_message 528 Request 1 0 (sizeof StartMicrophoneStreamRequest) 17 False StartMicrophoneStreamRequest_fields,
     entry_oneof_message 528 Request 1 0 (sizeof StopMicrophoneStreamRequest) 18 False StopMicrophoneStreamRequest_fields,
     entry_oneof_message 528 Request 1 0 (sizeof StartScanStreamRequest) 19 False StartScanStreamRequest_fields,
     entry_oneof_message 528 Request 1 0 (sizeof StopScanStreamRequest) 20 False StopScanStreamRequest_fields,
     entry_oneof_message 528 Request 1 0 (sizeof StartAccelerometerStreamRequest) 21 False StartAccelerometerStreamRequest_fields,
     entry_oneof_message 528 Request 1 0 (sizeof StopAccelerometerStreamRequest) 22 False StopAccelerometerStreamRequest_fields,
     entry_oneof_message 528 Request 1 0 (sizeof StartAccelerometerInterruptStreamRequest) 23 False StartAccelerometerInterruptStreamRequest_fields,
     entry_oneof_message 528 Request 1 0 (sizeof StopAccelerometerInterruptStreamRequest) 24 False StopAccelerometerInterruptStreamRequest_fields,
     entry_oneof_message 528 Request 1 0 (sizeof StartBatteryStreamRequest) 25 False StartBatteryStreamRequest_fields,
     entry_oneof_message 528 Request 1 0 (sizeof StopBatteryStreamRequest) 26 False StopBatteryStreamRequest_fields,
     entry_oneof_message 528 Request 1 0 (sizeof IdentifyRequest) 27 False IdentifyRequest_fields,
     entry_oneof_message 528 Request 1 0 (sizeof TestRequest) 28 False TestRequest_fields,
     entry_oneof_message 528 Request 1 0 (sizeof RestartRequest) 29 False RestartRequest_fields]"

definition StatusResponse_fields :: "tb_field list" where
  "StatusResponse_fields = [entry_plain 65 StatusResponse 0, entry_plain 65 StatusResponse 1, entry_plain 65 StatusResponse 2,
     entry_plain 65 StatusResponse 3, entry_plain 65 StatusResponse 4, entry_plain 65 StatusResponse 5,
     entry_message 513 StatusResponse 6 Timestamp_fields,
     entry_message 513 StatusResponse 7 BatteryData_fields]"

definition StartMicrophoneResponse_fields :: "tb_field list" where
  "StartMicrophoneResponse_fields = [entry_message 513 StartMicrophoneResponse 0 Timestamp_fields]"

definition StartScanResponse_fields :: "tb_field list" where
  "StartScanResponse_fields = [entry_message 513 StartScanResponse 0 Timestamp_fields]"

definition StartAccelerometerResponse_fields :: "tb_field list" where
  "StartAccelerometerResponse_fields = [entry_message 513 StartAccelerometerResponse 0 Timestamp_fields]"

definition StartAccelerometerInterruptResponse_fields :: "tb_field list" where
  "StartAccelerometerInterruptResponse_fields = [entry_message 513 StartAccelerometerInterruptResponse 0 Timestamp_fields]"

definition StartBatteryResponse_fields :: "tb_field list" where
  "StartBatteryResponse_fields = [entry_message 513 StartBatteryResponse 0 Timestamp_fields]"

definition MicrophoneDataResponse_fields :: "tb_field list" where
  "MicrophoneDataResponse_fields = [entry_plain 65 MicrophoneDataResponse 0, entry_message 513 MicrophoneDataResponse 1 Timestamp_fields,
     entry_plain 65 MicrophoneDataResponse 2,
     entry_array 516 MicrophoneDataResponse 4 3 (sizeof MicrophoneData) MicrophoneData_fields]"

definition ScanDataResponse_fields :: "tb_field list" where
  "ScanDataResponse_fields = [entry_plain 65 ScanDataResponse 0, entry_message 513 ScanDataResponse 1 Timestamp_fields,
     entry_array 516 ScanDataResponse 3 2 (sizeof ScanResultData) ScanResultData_fields]"

definition AccelerometerDataResponse_fields :: "tb_field list" where
  "AccelerometerDataResponse_fields = [entry_plain 65 AccelerometerDataResponse 0,
     entry_message 513 AccelerometerDataResponse 1 Timestamp_fields,
     entry_array 516 AccelerometerDataResponse 3 2 (sizeof AccelerometerData) AccelerometerData_fields]"

definition AccelerometerInterruptDataResponse_fields :: "tb_field list" where
  "AccelerometerInterruptDataResponse_fields = [entry_plain 65 AccelerometerInterruptDataResponse 0,
     entry_message 513 AccelerometerInterruptDataResponse 1 Timestamp_fields]"

definition BatteryDataResponse_fields :: "tb_field list" where
  "BatteryDataResponse_fields = [entry_plain 65 BatteryDataResponse 0, entry_message 513 BatteryDataResponse 1 Timestamp_fields,
     entry_message 513 BatteryDataResponse 2 BatteryData_fields]"

definition StreamResponse_fields :: "tb_field list" where
  "StreamResponse_fields = [entry_message 513 StreamResponse 0 Timestamp_fields,
     entry_array 516 StreamResponse 2 1 (sizeof BatteryStream) BatteryStream_fields,
     entry_array 516 StreamResponse 4 3 (sizeof MicrophoneStream) MicrophoneStream_fields,
     entry_array 516 StreamResponse 6 5 (sizeof ScanStream) ScanStream_fields,
     entry_array 516 StreamResponse 8 7 (sizeof AccelerometerStream) AccelerometerStream_fields,
     entry_array 516 StreamResponse 10 9 (sizeof AccelerometerInterruptStream) AccelerometerInterruptStream_fields]"

definition TestResponse_fields :: "tb_field list" where
  "TestResponse_fields = [entry_plain 65 TestResponse 0]"

definition Response_fields :: "tb_field list" where
  "Response_fields = [entry_oneof_message 528 Response 1 0 (sizeof StatusResponse) 1 True StatusResponse_fields,
     entry_oneof_message 528 Response 1 0 (sizeof StartMicrophoneResponse) 2 False StartMicrophoneResponse_fields,
     entry_oneof_message 528 Response 1 0 (sizeof StartScanResponse) 3 False StartScanResponse_fields,
     entry_oneof_message 528 Response 1 0 (sizeof StartAccelerometerResponse) 4 False StartAccelerometerResponse_fields,
     entry_oneof_message 528 Response 1 0 (sizeof StartAccelerometerInterruptResponse) 5 False StartAccelerometerInterruptResponse_fields,
     entry_oneof_message 528 Response 1 0 (sizeof StartBatteryResponse) 6 False StartBatteryResponse_fields,
     entry_oneof_message 528 Response 1 0 (sizeof MicrophoneDataResponse) 7 False MicrophoneDataResponse_fields,
     entry_oneof_message 528 Response 1 0 (sizeof ScanDataResponse) 8 False ScanDataResponse_fields,
     entry_oneof_message 528 Response 1 0 (sizeof AccelerometerDataResponse) 9 False AccelerometerDataResponse_fields,
     entry_oneof_message 528 Response 1 0 (sizeof AccelerometerInterruptDataResponse) 10 False AccelerometerInterruptDataResponse_fields,
     entry_oneof_message 528 Response 1 0 (sizeof BatteryDataResponse) 11 False BatteryDataResponse_fields,
     entry_oneof_message 528 Response 1 0 (sizeof StreamResponse) 12 False StreamResponse_fields,
     entry_oneof_message 528 Response 1 0 (sizeof TestResponse) 13 False TestResponse_fields]"

section \<open>Facts\<close>

lemmas protocol_structs =
  BatteryStream_def MicrophoneStream_def ScanStream_def AccelerometerStream_def AccelerometerInterruptStream_def
  StatusRequest_def StartMicrophoneRequest_def StopMicrophoneRequest_def StartScanRequest_def StopScanRequest_def
  StartAccelerometerRequest_def StopAccelerometerRequest_def StartAccelerometerInterruptRequest_def
  StopAccelerometerInterruptRequest_def StartBatteryRequest_def StopBatteryRequest_def MicrophoneDataRequest_def
  ScanDataRequest_def AccelerometerDataRequest_def AccelerometerInterruptDataRequest_def BatteryDataRequest_def
  StartMicrophoneStreamRequest_def StopMicrophoneStreamRequest_def StartScanStreamRequest_def StopScanStreamRequest_def
  StartAccelerometerStreamRequest_def StopAccelerometerStreamRequest_def StartAccelerometerInterruptStreamRequest_def
  StopAccelerometerInterruptStreamRequest_def StartBatteryStreamRequest_def StopBatteryStreamRequest_def
  IdentifyRequest_def TestRequest_def RestartRequest_def Request_def StatusResponse_def StartMicrophoneResponse_def
  StartScanResponse_def StartAccelerometerResponse_def StartAccelerometerInterruptResponse_def StartBatteryResponse_def
  MicrophoneDataResponse_def ScanDataResponse_def AccelerometerDataResponse_def AccelerometerInterruptDataResponse_def
  BatteryDataResponse_def StreamResponse_def TestResponse_def Response_def

lemmas protocol_tables =
  BatteryStream_fields_def MicrophoneStream_fields_def ScanStream_fields_def AccelerometerStream_fields_def
  AccelerometerInterruptStream_fields_def StatusRequest_fields_def StartMicrophoneRequest_fields_def
  StopMicrophoneRequest_fields_def StartScanRequest_fields_def StopScanRequest_fields_def
  StartAccelerometerRequest_fields_def StopAccelerometerRequest_fields_def StartAccelerometerInterruptRequest_fields_def
  StopAccelerometerInterruptRequest_fields_def StartBatteryRequest_fields_def StopBatteryRequest_fields_def
  MicrophoneDataRequest_fields_def ScanDataRequest_fields_def AccelerometerDataRequest_fields_def
  AccelerometerInterruptDataRequest_fields_def BatteryDataRequest_fields_def StartMicrophoneStreamRequest_fields_def
  StopMicrophoneStreamRequest_fields_def StartScanStreamRequest_fields_def StopScanStreamRequest_fields_def
  StartAccelerometerStreamRequest_fields_def StopAccelerometerStreamRequest_fields_def
  StartAccelerometerInterruptStreamRequest_fields_def StopAccelerometerInterruptStreamRequest_fields_def
  StartBatteryStreamRequest_fields_def StopBatteryStreamRequest_fields_def IdentifyRequest_fields_def
  TestRequest_fields_def RestartRequest_fields_def StatusResponse_fields_def StartMicrophoneResponse_fields_def
  StartScanResponse_fields_def StartAccelerometerResponse_fields_def StartAccelerometerInterruptResponse_fields_def
  StartBatteryResponse_fields_def MicrophoneDataResponse_fields_def ScanDataResponse_fields_def
  AccelerometerDataResponse_fields_def AccelerometerInterruptDataResponse_fields_def BatteryDataResponse_fields_def
  StreamResponse_fields_def TestResponse_fields_def

lemma prim_types: "uint8_t = (1, 1)" "int8_t = (1, 1)" "uint16_t = (2, 2)" "int16_t = (2, 2)" "uint32_t = (4, 4)" "cfloat = (4, 4)"
  by (simp_all add: uint8_t_def int8_t_def uint16_t_def int16_t_def uint32_t_def cfloat_def)

lemma data_types:
  "cstruct Timestamp = (8, 4)" "cstruct BadgeAssignement = (4, 2)" "cstruct BatteryData = (4, 4)" "cstruct MicrophoneData = (1, 1)"
  "cstruct ScanDevice = (4, 2)" "cstruct ScanResultData = (6, 2)" "cstruct AccelerometerData = (2, 2)"
  "cstruct AccelerometerRawData = (6, 2)"
  by code_simp+

lemma cstruct_eval:
  "cstruct [] = (0, 1)"
  "cstruct (t # ts) = (let al = foldr max (map snd (t # ts)) 1 in (align_up al (last (member_offsets 0 (t # ts))), al))"
  by (simp_all add: cstruct_def align_up_def)

lemmas layout_eval = data_types prim_types protocol_structs cstruct_eval Let_def align_up_def carray_def cunion_def

text \<open>Both oneof-fields start behind the tag, at the next multiple of four.\<close>

lemma union_offsets: "tb_offsetof Request 1 = 4" "tb_offsetof Request 0 = 0" "tb_offsetof Response 1 = 4" "tb_offsetof Response 0 = 0"
  by (simp_all add: tb_offsetof_def layout_eval del: One_nat_def)

lemmas entry_defs = entry_plain_def entry_message_def entry_array_def entry_optional_message_def entry_oneof_message_def

lemma common_tables_ok:
  "tb_table_ok None Timestamp_fields" "tb_table_ok None BadgeAssignement_fields" "tb_table_ok None BatteryData_fields"
  "tb_table_ok None MicrophoneData_fields" "tb_table_ok None ScanDevice_fields" "tb_table_ok None ScanResultData_fields"
  "tb_table_ok None AccelerometerData_fields" "tb_table_ok None AccelerometerRawData_fields"
  by (simp_all add: field_tables type_flags entry_oneof_def)

lemma protocol_tables_ok: "tb_table_ok None Request_fields" "tb_table_ok None Response_fields"
  by (simp_all add: Request_fields_def Response_fields_def protocol_tables common_tables_ok entry_defs type_flags entry_oneof_def
      size_pos_def tb_delta_def union_offsets)

lemma common_longest:
  "max_len_loop n Timestamp_fields = u32_add (u32_add n 4) 2" "max_len_loop n BatteryData_fields = u32_add n 4"
  by (simp_all add: field_tables type_flags entry_oneof_def max_len_loop.simps)

lemma response_max_len: "tb_get_max_encoded_len Response_fields = 17"
  by (simp add: tb_get_max_encoded_len_def Response_fields_def StatusResponse_fields_def entry_defs type_flags entry_oneof_def
      max_len_loop.simps(1) max_len_loop.simps(2)[of _ "TB_FIELD a b c d e f g h i" for a b c d e f g h i] common_longest oneof_more_def tb_membersize_def StatusResponse_def prim_types data_types)

section \<open>Theorems on the serialisation\<close>

text \<open>A status request with a badge assignement, as it lies in memory.\<close>

definition sample_request :: memory where
  "sample_request = (\<lambda>x. if x = 0 \<or> x = 12 then 1 else if x = 4 then 7 else if x = 14 then 42 else if x = 16 then 3 else 0)"

lemma request_offsets: "tb_offsetof StatusRequest 0 = 0" "tb_offsetof StatusRequest 1 = 8" "tb_offsetof StatusRequest 2 = 10"
  by (simp_all add: tb_offsetof_def layout_eval del: One_nat_def)

lemma timestamp_cells: "tb_cells Timestamp_fields m a = Some [Conv a 4, Conv (a + 4) 2]"
  "tb_cells BadgeAssignement_fields m a = Some [Conv a 2, Conv (a + 2) 1]"
  by (simp_all add: field_tables type_flags entry_oneof_def tb_cells.simps field_cells_def array_cells_def then_cells_def)

lemmas tb_cells_entry = tb_cells.simps(1) tb_cells.simps(2)[of "TB_FIELD a b c d e f g h i" for a b c d e f g h i]

lemma oneof_entry_simps [simp]:
  "oneof_tag (entry_oneof_message ty st i w n tag first sub) = tag" "oneof_first (entry_oneof_message ty st i w n tag first sub) = first"
  "ptr (entry_oneof_message ty st i w n tag first sub) = sub" "FIELD_ONEOF (entry_oneof_message 528 st i w n tag first sub)"
  by (simp_all add: entry_oneof_message_def type_flags)

lemma oneof_entry_kind:
  "entry_oneof (entry_oneof_message 528 st i w n tag first sub)" "\<not> DATA_SCALAR (entry_oneof_message 528 st i w n tag first sub)"
  "DATA_MESSAGE (entry_oneof_message 528 st i w n tag first sub)"
  "size_pos (entry_oneof_message 528 st i w n tag first sub) = int (tb_offsetof st w)"
  "data_offset (entry_oneof_message 528 st i w n tag first sub) = tb_offsetof st i"
  "size_size (entry_oneof_message 528 st i w n tag first sub) = 1"
  by (simp_all add: entry_oneof_message_def type_flags entry_oneof_def size_pos_def tb_delta_def)

lemma oneof_entry_cells:
  "tb_cells (entry_oneof_message 528 st i w n tag False sub # fs) m base =
     (if unat (m (base + int (tb_offsetof st w))) = tag
      then then_cells (tb_cells sub m (base + int (tb_offsetof st i))) (tb_cells fs m base) else tb_cells fs m base)"
  by (simp add: oneof_more_cells oneof_entry_kind data_cells_def)

lemma oneof_first_entry_cells:
  assumes "check_oneof_which_tag_validity (entry_oneof_message 528 st i w n tag True sub # fs) (unat (m (base + int (tb_offsetof st w))))"
  shows "tb_cells (entry_oneof_message 528 st i w n tag True sub # fs) m base =
     then_cells (Some [Raw (base + int (tb_offsetof st w)) 1])
       (if unat (m (base + int (tb_offsetof st w))) = tag
        then then_cells (tb_cells sub m (base + int (tb_offsetof st i))) (tb_cells fs m base) else tb_cells fs m base)"
proof -
  let ?f = "entry_oneof_message 528 st i w n tag True sub"
  have "size_offset ?f = int (tb_offsetof st w) - int (tb_offsetof st i)" by (simp add: entry_oneof_message_def tb_delta_def)
  then show ?thesis
    using oneof_entry_kind[of st i w n tag True sub] assms
    by (cases "tb_cells sub m (base + int (tb_offsetof st i))"; cases "tb_cells fs m base")
      (simp_all add: tb_cells.simps(2) field_cells_def entry_oneof_def then_cells_def Let_def del: check_oneof_which_tag_validity.simps)
qed

lemma status_request_cells:
  "tb_cells StatusRequest_fields m a = Some ([Conv a 4, Conv (a + 4) 2, Raw (a + 8) 1]
     @ (if m (a + 8) \<noteq> 0 then [Conv (a + 10) 2, Conv (a + 12) 1] else []))"
  by (simp add: StatusRequest_fields_def entry_message_def entry_optional_message_def type_flags entry_oneof_def tb_cells_entry
      field_cells_def then_cells_def timestamp_cells request_offsets tb_delta_def Let_def add.commute[of 8 a] del: One_nat_def)

lemma sample_request_cells:
  "tb_cells Request_fields sample_request 0 = Some [Raw 0 1, Conv 4 4, Conv 8 2, Raw 12 1, Conv 14 2, Conv 16 1]"
  unfolding Request_fields_def
  by (subst oneof_first_entry_cells)
    (simp_all add: oneof_entry_cells status_request_cells union_offsets sample_request_def then_cells_def tb_cells.simps(1) del: One_nat_def)

lemma sample_request_encodes:
  "\<exists>os. tb_encode e Request_fields sample_request 0 (tb_ostream_from_buffer (replicate 64 0) 64) = (True, os) \<and> bytes_written os = 11"
proof -
  have "ostream_ok (tb_ostream_from_buffer (replicate 64 0) 64)" by (simp add: ostream_ok_def tb_ostream_from_buffer_def)
  from tb_encode_by_cells[OF protocol_tables_ok(1) this sample_request_cells, of e]
  show ?thesis by (simp add: tb_ostream_from_buffer_def)
qed

text \<open>
  C2: a structure that \<open>tb_encode\<close> serialises at all is read back by \<open>tb_decode\<close>, in either byte
  order and into a structure at any other address: the decoder succeeds, consumes exactly the
  bytes written, and makes the cells the table selects (required fields, present optional fields,
  counted array elements, the chosen oneof entry, and the flags, counts and tags) equal to those
  of the source while it keeps every other byte; encoding the copy gives the same bytes again.  The
  encoder stays in front of the end of the buffer and keeps what is behind its output.
\<close>

theorem tb_decode_encode:
  assumes "tb_table_ok None fs" "length b = n" "n + 256 \<le> 2 ^ 32"
    and enc: "tb_encode e fs m src (tb_ostream_from_buffer b n) = (True, os)"
  shows "\<exists>cs m'. bytes_written os \<le> n \<and> drop (bytes_written os) (obuf os) = drop (bytes_written os) b
    \<and> tb_decode e fs dst (tb_istream_from_buffer (obuf os) (bytes_written os), m0)
      = (True, \<lparr>ibuf = obuf os, ibuf_size = bytes_written os, bytes_read = bytes_written os\<rparr>, m')
    \<and> tb_cells fs m src = Some cs
    \<and> (\<forall>x. m' (x + (dst - src)) = (if x \<in> covered cs then m x else m0 (x + (dst - src))))
    \<and> tb_encode e fs m' dst (tb_ostream_from_buffer b n) = (True, os)"
proof -
  let ?d = "dst - src" let ?os = "tb_ostream_from_buffer b n"
  have ok: "ostream_ok ?os" using assms by (simp add: ostream_ok_def tb_ostream_from_buffer_def)
  from tb_encode_success[OF assms(1) ok enc] obtain cs where cs: "tb_cells fs m src = Some cs" "total_len cs \<le> n"
    and os: "os = ?os\<lparr>obuf := overwrite b 0 (cells_bytes e m cs), bytes_written := total_len cs\<rparr>"
    by (auto simp: tb_ostream_from_buffer_def)
  let ?m = "moved ?d m" let ?cs = "map (move ?d) cs" let ?m' = "restore ?m ?cs m0"
  have c: "tb_cells fs ?m dst = Some ?cs" using tb_cells_moved[of fs ?d m src] cs(1) by simp
  have holds: "istream_holds e ?m ?cs (tb_istream_from_buffer (obuf os) (bytes_written os))"
    using cs(2) assms by (simp add: istream_holds_def tb_istream_from_buffer_def os tb_ostream_from_buffer_def overwrite_def)
  have ag: "agree (covered ?cs) ?m ?m'" by (simp add: agree_def restore_def)
  have c': "tb_cells fs ?m' dst = Some ?cs"
    using tb_cells_stable[OF assms(1), of dst "{}" ?m ?m'] c ag by (simp add: stable_def)
  have "tb_encode e fs ?m' dst ?os = (True, os)"
    using tb_encode_by_cells[OF assms(1) ok c', of e] cs(2) cells_bytes_cong[OF ag, of e]
    by (simp add: os tb_ostream_from_buffer_def)
  moreover have "\<forall>x. ?m' (x + ?d) = (if x \<in> covered cs then m x else m0 (x + ?d))"
    by (simp only: restore_def covered_move moved_at) simp
  moreover have "tb_decode e fs dst (tb_istream_from_buffer (obuf os) (bytes_written os), m0)
      = (True, \<lparr>ibuf = obuf os, ibuf_size = bytes_written os, bytes_read = bytes_written os\<rparr>, ?m')"
    using tb_decode_by_cells[OF assms(1) c holds, of m0] by (simp add: advance_def tb_istream_from_buffer_def os tb_ostream_from_buffer_def)
  ultimately show ?thesis
    using cs assms(2) by (intro exI[of _ cs] exI[of _ ?m']) (simp add: os tb_ostream_from_buffer_def overwrite_def)
qed

theorem tb_decode_encode_witness:
  "\<exists>os m'. tb_encode TB_BIG_ENDIAN Request_fields sample_request 0 (tb_ostream_from_buffer (replicate 64 0) 64) = (True, os)
    \<and> tb_decode TB_BIG_ENDIAN Request_fields 100 (tb_istream_from_buffer (obuf os) 11, \<lambda>_. 0)
      = (True, \<lparr>ibuf = obuf os, ibuf_size = 11, bytes_read = 11\<rparr>, m') \<and> m' 114 = 42 \<and> m' 117 = 0"
proof -
  obtain os where os: "tb_encode TB_BIG_ENDIAN Request_fields sample_request 0 (tb_ostream_from_buffer (replicate 64 0) 64) = (True, os)"
    "bytes_written os = 11" using sample_request_encodes by blast
  obtain cs m' where c: "tb_decode TB_BIG_ENDIAN Request_fields 100 (tb_istream_from_buffer (obuf os) 11, \<lambda>_. 0)
      = (True, \<lparr>ibuf = obuf os, ibuf_size = 11, bytes_read = 11\<rparr>, m')" "tb_cells Request_fields sample_request 0 = Some cs"
    "\<forall>x. m' (x + (100 - 0)) = (if x \<in> covered cs then sample_request x else (\<lambda>_. 0) (x + (100 - 0)))"
    using tb_decode_encode[OF protocol_tables_ok(1) _ _ os(1), of 100 "\<lambda>_. 0"] os(2) by auto
  have "m' 114 = 42" "m' 117 = 0"
    using c(2) c(3)[rule_format, of 14] c(3)[rule_format, of 17] by (auto simp: sample_request_cells) (simp_all add: sample_request_def)
  with os(1) c(1) show ?thesis by blast
qed

text \<open>
  C28: the length that \<open>tb_get_max_encoded_len\<close> computes is enough for every valid structure of the
  message: encoding into a buffer of that size succeeds and writes no more, whatever the contents
  of the fields are.  (For tables in which a oneof-field that starts with a message has its longest
  entry first.)
\<close>

theorem tb_max_len_suffices:
  assumes "tb_table_ok None fs" "table_regular fs" "tb_longest fs < 2 ^ 32"
    and "tb_cells fs m src = Some cs" "length b = n" "n + 256 \<le> 2 ^ 32" "tb_get_max_encoded_len fs \<le> n"
  shows "\<exists>os. tb_encode e fs m src (tb_ostream_from_buffer b n) = (True, os) \<and> bytes_written os = total_len cs
    \<and> bytes_written os \<le> tb_get_max_encoded_len fs"
proof -
  have mx: "tb_get_max_encoded_len fs = tb_longest fs"
    using max_len_loop_longest[OF assms(1,2), of 0] assms(3) by (simp add: tb_get_max_encoded_len_def)
  have le: "total_len cs \<le> tb_longest fs" by (rule tb_cells_longest[OF assms(1,2,4)])
  have ok: "ostream_ok (tb_ostream_from_buffer b n)" using assms by (simp add: ostream_ok_def tb_ostream_from_buffer_def)
  show ?thesis
    using tb_encode_by_cells[OF assms(1) ok assms(4), of e] le mx assms(7) by (simp add: tb_ostream_from_buffer_def)
qed

text \<open>A microphone chunk with two samples.\<close>

definition sample_chunk :: memory where
  "sample_chunk = (\<lambda>x. if x = 10 then 2 else if x = 11 then 50 else if x = 12 then 51 else 0)"

lemma sample_chunk_cells:
  "tb_cells MicrophoneChunk_fields sample_chunk 0 = Some [Conv 0 4, Conv 4 2, Conv 8 2, Conv 10 1, Conv 11 1, Conv 12 1]"
proof -
  have "tb_count (rd sample_chunk 10 1) = 2" by (simp add: tb_count_def rd_def sample_chunk_def convert_endianness_def test_endianness_def)
  moreover have "tb_cells MicrophoneData_fields m a = Some [Conv a 1]" for m a
    by (simp add: field_tables type_flags entry_oneof_def tb_cells.simps field_cells_def array_cells_def then_cells_def)
  ultimately show ?thesis
    by (simp add: field_tables(10) type_flags entry_oneof_def tb_cells_entry field_cells_def then_cells_def timestamp_cells
      array_cells_def upt_rec)
qed

theorem tb_max_len_suffices_witness:
  "tb_get_max_encoded_len MicrophoneChunk_fields = 123
    \<and> (\<exists>os. tb_encode TB_LITTLE_ENDIAN MicrophoneChunk_fields sample_chunk 0 (tb_ostream_from_buffer (replicate 123 0) 123) = (True, os)
        \<and> bytes_written os = 11)"
proof -
  have mx: "tb_get_max_encoded_len MicrophoneChunk_fields = 123"
    using max_len_loop_longest[OF field_tables_ok(5,6), of 0] by (simp add: tb_get_max_encoded_len_def field_tables_longest)
  with tb_max_len_suffices[OF field_tables_ok(5,6) _ sample_chunk_cells, of "replicate 123 0" 123 TB_LITTLE_ENDIAN]
  show ?thesis by (auto simp: field_tables_longest)
qed

definition sample_response :: memory where
  "sample_response = (\<lambda>x. if x = 0 then 9 else 5)"

lemma upt_0_1: "[0..<1] = [0]"
  by simp

lemma sample_response_cells: "\<exists>cs. tb_cells Response_fields sample_response 0 = Some cs \<and> 17 < total_len cs \<and> total_len cs < 64"
proof -
  have "tb_count (rd sample_response x 1) = 5" if "x \<noteq> 0" for x
    using that by (simp add: tb_count_def rd_def sample_response_def convert_endianness_def test_endianness_def)
  moreover have "tb_cells AccelerometerData_fields m a = Some [Conv a 2]" for m a
    by (simp add: field_tables type_flags entry_oneof_def tb_cells.simps field_cells_def array_cells_def then_cells_def)
  moreover have off: "tb_offsetof AccelerometerDataResponse 0 = 0" "tb_offsetof AccelerometerDataResponse 1 = 4"
     "tb_offsetof AccelerometerDataResponse 2 = 12" "tb_offsetof AccelerometerDataResponse 3 = 14"
     "tb_membersize AccelerometerDataResponse 0 = 1" "tb_membersize AccelerometerDataResponse 3 = 200"
     "sizeof AccelerometerData = 2"
    by (simp_all add: tb_offsetof_def tb_membersize_def sizeof_def layout_eval del: One_nat_def)
  ultimately have "tb_cells AccelerometerDataResponse_fields sample_response 4
      = Some [Conv 4 1, Conv 8 4, Conv 12 2, Conv 16 1, Conv 18 2, Conv 20 2, Conv 22 2, Conv 24 2, Conv 26 2]"
    by (simp add: AccelerometerDataResponse_fields_def entry_plain_def entry_message_def entry_array_def type_flags entry_oneof_def
      tb_cells_entry field_cells_def then_cells_def timestamp_cells tb_delta_def array_cells_def upt_rec[of _ "numeral k" for k] upt_0_1 del: One_nat_def)
  then show ?thesis
    unfolding Response_fields_def
    by (subst oneof_first_entry_cells)
      (simp_all add: oneof_entry_cells union_offsets sample_response_def then_cells_def tb_cells.simps(1) del: One_nat_def)
qed

text \<open>
  C40: for a oneof-field that starts with a message the computed length is not a bound: there is a
  response of the protocol that is encoded to more bytes than \<open>tb_get_max_encoded_len\<close> announces.
\<close>

theorem response_longer_than_max_len:
  "\<exists>os. tb_encode e Response_fields sample_response 0 (tb_ostream_from_buffer (replicate 64 0) 64) = (True, os)
    \<and> tb_get_max_encoded_len Response_fields < bytes_written os"
proof -
  obtain cs where cs: "tb_cells Response_fields sample_response 0 = Some cs" "17 < total_len cs" "total_len cs < 64"
    using sample_response_cells by blast
  have "ostream_ok (tb_ostream_from_buffer (replicate 64 0) 64)" by (simp add: ostream_ok_def tb_ostream_from_buffer_def)
  from tb_encode_by_cells[OF protocol_tables_ok(2) this cs(1), of e] cs(2,3)
  show ?thesis by (simp add: tb_ostream_from_buffer_def response_max_len)
qed

end
