(* ===== verification/Sim_Storer.thy ===== *)
theory Sim_Storer
  imports Badge_Storer Protocol_Messages
begin

text \<open>
  Runs of the storer on the simulated badge: the start on erased memories, which registers all six
  partitions across both memories, and the first store.
\<close>

section \<open>Erased memories\<close>

abbreviation erased :: "(sim_chip storage2 \<times> sim_words storage1) storage_state" where
  "erased \<equiv> sim_storage (\<lambda>_. 0xFF)"

lemma erased_byte: "badge_byte cells sim_flash erased x = 0xFF"
  by (simp add: badge_byte_def sim_storage_def sim_eeprom_def sim_flash_def word_byte_ones)

lemma erased_read:
  assumes "a + n \<le> 333824"
  shows "so_read sim_ops a n erased = (Inr (replicate n 0xFF), erased)"
proof -
  obtain bs where r: "so_read sim_ops a n erased = (Inr bs, erased)" using sim_read_any[OF assms] by blast
  have "bs = map (badge_byte cells sim_flash erased) [a..<a + n]"
    using sim.stack.read_law[OF sim_ready _ r[unfolded sim.ops_eq]] assms by (simp add: sim.scont_byte)
  then have "bs = replicate n 0xFF" by (intro nth_equalityI) (simp_all add: erased_byte)
  with r show ?thesis by simp
qed

lemma erased_fs_read:
  assumes "storage fs = erased" and "a + n \<le> 333824"
  shows "fs_read sim_ops a n fs = (Inr (replicate n 0xFF), fs)"
proof -
  have "fs\<lparr>storage := erased\<rparr> = fs" using assms(1) by (cases fs) simp
  then show ?thesis using assms by (simp add: fs_call_def erased_read)
qed

lemma erased_limits:
  assumes "0 < n" and "a + n \<le> 333824"
  shows "so_limits sim_ops a n erased = Inr (sim.stack.sustart a, sim.stack.suend (a + n - 1))"
  using assms sim.stack.limits_law[OF sim_ready, of a n] by (simp add: sim.ops_eq sim.stack.lib_simps)

text \<open>There is no first element in erased memory, neither in the partition nor in the swap page.\<close>

lemma erased_first_header:
  assumes "storage fs = erased" and "a + 20 \<le> 333824"
  shows "\<exists>tmp h. read_first_header sim_ops pid a fs = (Inr (tmp,
    \<lparr>header_crc = 65535, partition_id = 65535, partition_size = 4294967295, first_element_len = 65535, last_element_address = 4294967295\<rparr>, h), fs)"
  using assms by (simp add: read_first_header_def erased_fs_read filesystem_get_element_header_len_def PARTITION_METADATA_SIZE_def
      filesystem_deserialize_metadata_def be16_def be32_def)

lemma erased_not_found:
  assumes "storage fs = erased" and "a = first_element_address (part fs pid)" and "a + 20 \<le> 333824" and "pid_index pid < 20"
    and "partition_id (metadata (part fs pid)) \<noteq> 65535"
  shows "filesystem_read_element_header sim_ops pid a fs = (Inl NRF_ERROR_NOT_FOUND, fs)"
proof -
  have s: "filesystem_get_swap_page_address_of_partition pid + 20 \<le> 333824"
    using assms(4) by (simp add: filesystem_get_swap_page_address_of_partition_def)
  obtain t h t' h' where "read_first_header sim_ops pid a fs = (Inr (t,
      \<lparr>header_crc = 65535, partition_id = 65535, partition_size = 4294967295, first_element_len = 65535, last_element_address = 4294967295\<rparr>, h), fs)"
    "read_first_header sim_ops pid (filesystem_get_swap_page_address_of_partition pid) fs = (Inr (t',
      \<lparr>header_crc = 65535, partition_id = 65535, partition_size = 4294967295, first_element_len = 65535, last_element_address = 4294967295\<rparr>, h'), fs)"
    using erased_first_header[OF assms(1,3), of pid] erased_first_header[OF assms(1) s, of pid] by blast
  with assms(2,5) show ?thesis by (auto simp: filesystem_read_element_header_def metadata_matches_def)
qed

section \<open>The start of the storer\<close>

text \<open>A registration grants the units from the next free address to the end of the requested range.\<close>

lemma still_first: "(new_partition pid a n len p)\<lparr>has_first_element := False\<rparr> = new_partition pid a n len p"
  by (cases p) (simp add: new_partition_def)

lemma erased_register:
  fixes enable_crc
  assumes st: "storage fs = erased" and arr: "fs_arrays fs" and k: "number_of_partitions fs < 6" and el: "is_dynamic \<or> element_len \<noteq> 0"
    and req: "PARTITION_METADATA_SIZE + (2 + (if is_dynamic then 2 else 0) + (if enable_crc then 2 else 0)) + element_len \<le> required" "next_free_address fs + required \<le> 333824" "next_free_address fs + 20 \<le> 333824"
    and u: "sim.stack.sustart (next_free_address fs) = next_free_address fs"
    and e: "sim.stack.suend (next_free_address fs + required - 1) + 1 = e" "next_free_address fs + required \<le> e" "e \<le> 333824"
  defines "pid \<equiv> registered_id (number_of_partitions fs) is_dynamic enable_crc"
  shows "\<exists>fs'. filesystem_register_partition sim_ops required is_dynamic enable_crc element_len fs
      = (Inr (pid, e - next_free_address fs), fs') \<and> fs_arrays fs'
    \<and> storage fs' = erased \<and> number_of_partitions fs' = number_of_partitions fs + 1 \<and> next_free_address fs' = e
    \<and> partition_iterators fs' = partition_iterators fs
    \<and> (\<exists>q. partitions fs' = (partitions fs)[number_of_partitions fs :=
          new_partition pid (next_free_address fs) (e - next_free_address fs) (if is_dynamic then 0 else element_len) q])"
proof -
  let ?s = "next_free_address fs" and ?n = "number_of_partitions fs" and ?el = "if is_dynamic then 0 else element_len"
  note id = registered_id_facts[of ?n is_dynamic enable_crc, folded pid_def]
  have n: "?n < MAX_NUMBER_OF_PARTITIONS" using k by (simp add: MAX_NUMBER_OF_PARTITIONS_def)
  have pos: "0 < required" "?s < 333824" using req by (simp_all add: PARTITION_METADATA_SIZE_def)
  define l where "l = sim.stack.suend (?s + required - 1)"
  have l: "e = l + 1" "?s \<le> l" using e pos by (simp_all add: l_def)
  have mn: "(if 333824 - ?s > required then required else 333824 - ?s) = required" using req(2) by auto
  have av: "filesystem_compute_available_size sim_ops ?s required fs = Inr (e - ?s)"
    using pos req(2) st u e(3) l mn erased_limits[OF pos(1) req(2), folded l_def]
    by (simp add: filesystem_compute_available_size_def sim_get_size Let_def)
  define fs1 where "fs1 = upd_part pid (new_partition pid ?s (e - ?s) ?el) fs"
  have pt: "part fs1 pid = new_partition pid ?s (e - ?s) ?el (part fs pid)"
    using arr id(1)[OF n] n by (simp add: fs1_def part_def upd_part_def fs_arrays_def)
  have ff: "filesystem_read_element_header sim_ops pid ?s fs1 = (Inl NRF_ERROR_NOT_FOUND, fs1)"
  proof (rule erased_not_found)
    show "?s + 20 \<le> 333824" by (rule req(3))
    have "pid_index 65535 \<noteq> ?n" using k by (simp add: pid_index_def take_bit_eq_mod)
    then show "partition_id (metadata (part fs1 pid)) \<noteq> 65535" using id(1)[OF n] pt by (auto simp: new_partition_def)
  qed (use st id(1)[OF n] k pt in \<open>simp_all add: fs1_def new_partition_def\<close>)
  have np: "number_of_partitions (upd_part q g f) = number_of_partitions f" "storage (upd_part q g f) = storage f"
    "partition_iterators (upd_part q g f) = partition_iterators f" "next_free_address (upd_part q g f) = next_free_address f"
    for q g and f :: "(sim_chip storage2 \<times> sim_words storage1) storage_state filesystem" by (simp_all add: upd_part_def)
  have avn: "\<not> e - ?s < PARTITION_METADATA_SIZE + filesystem_get_element_header_len pid + ?el"
    using req(1) e(2) id(2,3)[OF n] by (cases is_dynamic; cases enable_crc) (simp_all add: filesystem_get_element_header_len_def)
  let ?fs2 = "upd_part pid (\<lambda>p. p\<lparr>has_first_element := False\<rparr>) fs1"
  have "filesystem_register_partition sim_ops required is_dynamic enable_crc element_len fs = (Inr (pid, e - ?s),
      ?fs2\<lparr>next_free_address := u32_add ?s (e - ?s), number_of_partitions := number_of_partitions ?fs2 + 1\<rparr>)"
    using n el av avn ff by (auto simp: filesystem_register_partition_def Let_def pid_def[symmetric] fs1_def[symmetric] recover_latest_def)
  moreover have "u32_add ?s (e - ?s) = e" using e req(2) by simp
  moreover have "partitions ?fs2 = (partitions fs)[?n := new_partition pid ?s (e - ?s) ?el (part fs pid)]"
    using arr id(1)[OF n] n by (simp only: fs1_def upd_part_def part_def fs_arrays_def) (simp add: still_first)
  ultimately show ?thesis using arr st by (auto simp: np fs1_def fs_arrays_def)
qed

definition erased_at :: "(sim_chip storage2 \<times> sim_words storage1) storage_state storer \<Rightarrow> nat \<Rightarrow> nat \<Rightarrow> bool" where
  "erased_at st k a \<longleftrightarrow> storage (sfs st) = erased \<and> fs_arrays (sfs st) \<and> number_of_partitions (sfs st) = k
     \<and> next_free_address (sfs st) = a \<and> partition_iterators (sfs st) = replicate 20 sim_iterator"

lemma erased_register_storer:
  assumes at: "erased_at st k a" and "k < 6" "is_dynamic \<or> element_len \<noteq> 0" "element_len < 65536"
    and "PARTITION_METADATA_SIZE + (2 + (if is_dynamic then 2 else 0) + (if enable_crc then 2 else 0)) + element_len \<le> required" "a + required \<le> 333824" "a + 20 \<le> 333824"
    and "sim.stack.sustart a = a" "sim.stack.suend (a + required - 1) + 1 = e" "a + required \<le> e" "e \<le> 333824"
  shows "\<exists>fs' q. register sim_ops required is_dynamic enable_crc element_len set_id st
      = (Inr (), set_id (registered_id k is_dynamic enable_crc) (st\<lparr>sfs := fs'\<rparr>)) \<and> erased_at (st\<lparr>sfs := fs'\<rparr>) (k + 1) e
    \<and> partitions fs' = (partitions (sfs st))[k := new_partition (registered_id k is_dynamic enable_crc) a (e - a) (if is_dynamic then 0 else element_len) q]"
proof -
  let ?id = "registered_id k is_dynamic enable_crc"
  obtain fs' q where r: "filesystem_register_partition sim_ops required is_dynamic enable_crc element_len (sfs st) = (Inr (?id, e - a), fs')"
    "fs_arrays fs'" "storage fs' = erased" "number_of_partitions fs' = k + 1" "next_free_address fs' = e"
    "partition_iterators fs' = partition_iterators (sfs st)"
    "partitions fs' = (partitions (sfs st))[k := new_partition ?id a (e - a) (if is_dynamic then 0 else element_len) q]"
    using erased_register[where fs = "sfs st" and is_dynamic = is_dynamic and element_len = element_len and required = required and e = e and enable_crc = enable_crc] assms by (auto simp: erased_at_def)
  from r(1) assms(4) have "register sim_ops required is_dynamic enable_crc element_len set_id st = (Inr (), set_id ?id (st\<lparr>sfs := fs'\<rparr>))"
    by (simp add: register_def on_fs_def)
  with r(2-7) at show ?thesis by (intro exI[of _ fs'] exI[of _ q]) (simp add: erased_at_def)
qed

definition storer_power_on :: "(sim_chip storage2 \<times> sim_words storage1) storage_state storer" where
  "storer_power_on = \<lparr>sfs = sim_power_on, serialized_buf = replicate 512 0, partition_id_badge_assignement = 0, partition_id_battery_chunks = 0,
     partition_id_microphone_chunks = 0, partition_id_scan_chunks = 0, partition_id_accelerometer_interrupt_chunks = 0,
     partition_id_accelerometer_chunks = 0, microphone_chunks_found_timestamp = False, scan_chunks_found_timestamp = False,
     battery_chunks_found_timestamp = False, accelerometer_interrupt_chunks_found_timestamp = False, accelerometer_chunks_found_timestamp = False\<rparr>"

lemma required_sizes:
  "required_size STORER_BADGE_ASSIGNEMENT_NUMBER 3 (2 + 2) = 21" "required_size STORER_BATTERY_DATA_NUMBER 10 2 = 1214"
  "required_size STORER_MICROPHONE_DATA_NUMBER 123 (2 + 2) = 170194" "required_size STORER_SCAN_DATA_NUMBER 123 (2 + 2 + 2) = 123854"
  "required_size STORER_ACCELEROMETER_INTERRUPT_DATA_NUMBER 6 (2 + 2) = 514" "required_size STORER_ACCELEROMETER_DATA_NUMBER 207 (2 + 2) = 10564"
  by (simp_all add: required_size_def STORER_BADGE_ASSIGNEMENT_NUMBER_def STORER_BATTERY_DATA_NUMBER_def STORER_MICROPHONE_DATA_NUMBER_def
      STORER_SCAN_DATA_NUMBER_def STORER_ACCELEROMETER_INTERRUPT_DATA_NUMBER_def STORER_ACCELEROMETER_DATA_NUMBER_def PARTITION_METADATA_SIZE_def)

text \<open>
  The layout of the badge: the six partitions fill the addresses 400 to 308223; that of the scans starts in the
  EEPROM and ends with a page of the flash.
\<close>

lemma storer_starts:
  "\<exists>st q. storer_init sim_ops storer_power_on = (Inr (), st) \<and> erased_at st 6 308224
    \<and> part (sfs st) (registered_id 0 False True) = new_partition (registered_id 0 False True) 400 21 3 q
    \<and> partition_id_badge_assignement st = registered_id 0 False True \<and> length (serialized_buf st) = 512"
proof -
  let ?s0 = "storer_power_on\<lparr>sfs := sim_booted\<rparr>"
  note eval = PARTITION_METADATA_SIZE_def sim.stack.sustart_def sim.stack.suend_def
  have b: "on_fs (filesystem_init sim_ops) storer_power_on = (Inr (), ?s0)"
    by (simp add: on_fs_def storer_power_on_def sim_boot)
  have e0: "erased_at ?s0 0 400"
    by (simp add: erased_at_def sim_booted_def sim_power_on_def SWAP_PAGE_SIZE_def fs_arrays_def MAX_NUMBER_OF_PARTITIONS_def)
  have buf0: "serialized_buf storer_power_on = replicate 512 0" and parts0: "partitions sim_booted = replicate 20 sim_partition"
    by (simp_all add: storer_power_on_def sim_booted_def sim_power_on_def)
  obtain s1 q where r1: "register sim_ops 21 False True 3 (\<lambda>p. partition_id_badge_assignement_update (\<lambda>_. p)) ?s0 = (Inr (), s1)"
    "erased_at s1 1 421" "partitions (sfs s1) ! 0 = new_partition (registered_id 0 False True) 400 21 3 q"
    "partition_id_badge_assignement s1 = registered_id 0 False True" "serialized_buf s1 = replicate 512 0"
  proof -
    obtain fs' q where r: "register sim_ops 21 False True 3 (\<lambda>p. partition_id_badge_assignement_update (\<lambda>_. p)) ?s0
        = (Inr (), partition_id_badge_assignement_update (\<lambda>_. registered_id 0 False True) (?s0\<lparr>sfs := fs'\<rparr>))"
      "erased_at (?s0\<lparr>sfs := fs'\<rparr>) 1 421" "partitions fs' = (partitions (sfs ?s0))[0 := new_partition (registered_id 0 False True) 400 21 3 q]"
      using erased_register_storer[OF e0, where is_dynamic = False and element_len = 3 and required = 21 and e = 421 and enable_crc = True and set_id = "\<lambda>p. partition_id_badge_assignement_update (\<lambda>_. p)"]
      by (simp add: eval) blast
    have "partitions fs' ! 0 = new_partition (registered_id 0 False True) 400 21 3 q" unfolding r(3) by (simp add: parts0)
    with r(2) show thesis by (intro that[OF r(1)]) (simp_all add: erased_at_def buf0)
  qed
  obtain s2 where r2: "register sim_ops 1214 False False 10 (\<lambda>p. partition_id_battery_chunks_update (\<lambda>_. p)) s1 = (Inr (), s2)"
    "erased_at s2 2 1635" "partitions (sfs s2) ! 0 = partitions (sfs s1) ! 0"
    "partition_id_badge_assignement s2 = partition_id_badge_assignement s1" "serialized_buf s2 = serialized_buf s1"
    using erased_register_storer[OF r1(2), where is_dynamic = False and element_len = 10 and required = 1214 and e = 1635 and enable_crc = False and set_id = "\<lambda>p. partition_id_battery_chunks_update (\<lambda>_. p)"]
    by (auto simp: eval erased_at_def)
  obtain s3 where r3: "register sim_ops 170194 False True 123 (\<lambda>p. partition_id_microphone_chunks_update (\<lambda>_. p)) s2 = (Inr (), s3)"
    "erased_at s3 3 171829" "partitions (sfs s3) ! 0 = partitions (sfs s2) ! 0"
    "partition_id_badge_assignement s3 = partition_id_badge_assignement s2" "serialized_buf s3 = serialized_buf s2"
    using erased_register_storer[OF r2(2), where is_dynamic = False and element_len = 123 and required = 170194 and e = 171829 and enable_crc = True and set_id = "\<lambda>p. partition_id_microphone_chunks_update (\<lambda>_. p)"]
    by (auto simp: eval erased_at_def)
  obtain s4 where r4: "register sim_ops 123854 True True 0 (\<lambda>p. partition_id_scan_chunks_update (\<lambda>_. p)) s3 = (Inr (), s4)"
    "erased_at s4 4 295936" "partitions (sfs s4) ! 0 = partitions (sfs s3) ! 0"
    "partition_id_badge_assignement s4 = partition_id_badge_assignement s3" "serialized_buf s4 = serialized_buf s3"
    using erased_register_storer[OF r3(2), where is_dynamic = True and element_len = 0 and required = 123854 and e = 295936 and enable_crc = True and set_id = "\<lambda>p. partition_id_scan_chunks_update (\<lambda>_. p)"]
    by (auto simp: eval erased_at_def)
  obtain s5 where r5: "register sim_ops 514 False True 6 (\<lambda>p. partition_id_accelerometer_interrupt_chunks_update (\<lambda>_. p)) s4 = (Inr (), s5)"
    "erased_at s5 5 296960" "partitions (sfs s5) ! 0 = partitions (sfs s4) ! 0"
    "partition_id_badge_assignement s5 = partition_id_badge_assignement s4" "serialized_buf s5 = serialized_buf s4"
    using erased_register_storer[OF r4(2), where is_dynamic = False and element_len = 6 and required = 514 and e = 296960 and enable_crc = True and set_id = "\<lambda>p. partition_id_accelerometer_interrupt_chunks_update (\<lambda>_. p)"]
    by (auto simp: eval erased_at_def)
  obtain s6 where r6: "register sim_ops 10564 False True 207 (\<lambda>p. partition_id_accelerometer_chunks_update (\<lambda>_. p)) s5 = (Inr (), s6)"
    "erased_at s6 6 308224" "partitions (sfs s6) ! 0 = partitions (sfs s5) ! 0"
    "partition_id_badge_assignement s6 = partition_id_badge_assignement s5" "serialized_buf s6 = serialized_buf s5"
    using erased_register_storer[OF r5(2), where is_dynamic = False and element_len = 207 and required = 10564 and e = 308224 and enable_crc = True and set_id = "\<lambda>p. partition_id_accelerometer_chunks_update (\<lambda>_. p)"]
    by (auto simp: eval erased_at_def)
  have "storer_init sim_ops storer_power_on = (Inr (), s6)"
    unfolding storer_init_def storer_register_partitions_def storer_max_lens Let_def required_sizes
      PARTITION_ELEMENT_HEADER_RECORD_ID_SIZE_def PARTITION_ELEMENT_HEADER_ELEMENT_CRC_SIZE_def PARTITION_ELEMENT_HEADER_PREVIOUS_LEN_XOR_CUR_LEN_SIZE_def
    by (simp only: b r1(1) r2(1) r3(1) r4(1) r5(1) r6(1) attempt_simps)
  moreover have "part (sfs s6) (registered_id 0 False True) = partitions (sfs s6) ! 0"
    using registered_id_facts(1)[of 0 False True] by (simp add: part_def MAX_NUMBER_OF_PARTITIONS_def)
  ultimately show ?thesis using r1 r2 r3 r4 r5 r6 by auto
qed

section \<open>The first store\<close>

lemma erased_no_successor:
  assumes st: "storage fs = erased" and p: "part fs pid = new_partition pid a n len q" and "pid_index pid < 20" and "pid \<noteq> 65535"
    and "a + 30 + k \<le> 333824" "rid < 100"
  shows "clear_stale_successor sim_ops pid a rid k fs = (Inr (), fs)"
proof -
  have a: "first_element_address (part fs pid) = a" "partition_id (metadata (part fs pid)) = pid" by (simp_all add: p new_partition_def)
  have first: "filesystem_read_element_header sim_ops pid a fs = (Inl NRF_ERROR_NOT_FOUND, fs)"
    by (rule erased_not_found[OF st]) (use assms a in simp_all)
  define h where "h = header_len_at pid a a"
  have h: "0 < h" "h \<le> 20"
    by (simp_all add: h_def header_len_at_def PARTITION_METADATA_SIZE_def filesystem_get_element_header_len_def)
  have nx: "u32_add (u32_add a h) k = a + h + k" "a + h + k \<noteq> a" using h assms(5) by simp_all
  have rd: "filesystem_read_element_header sim_ops pid (a + h + k) fs
      = (Inr (filesystem_deserialize_element_header pid (replicate (filesystem_get_element_header_len pid) 0xFF)), fs)"
    using a h assms(5) nx(2)
    by (simp add: filesystem_read_element_header_def erased_fs_read[OF st] filesystem_get_element_header_len_def)
  have "record_id (filesystem_deserialize_element_header pid (replicate (filesystem_get_element_header_len pid) 0xFF)) = 65535"
    by (simp add: filesystem_deserialize_element_header_def filesystem_get_element_header_len_def be16_def Let_def)
  moreover have "increment_record_id rid \<noteq> 65535" using assms(6) by (simp add: increment_record_id_def)
  ultimately have "filesystem_get_next_element_header sim_ops pid a rid k fs = (Inl NRF_ERROR_NOT_FOUND, fs)"
    using rd first a by (simp add: filesystem_get_next_element_header_def Let_def h_def[symmetric] nx(1))
  then show ?thesis by (simp add: clear_stale_successor_def)
qed

lemma erased_first_store:
  assumes st: "storage fs = erased" and p: "part fs pid = new_partition pid a n len q" and it: "iter fs pid = sim_iterator"
    and pid: "pid_index pid < 20" "pid \<noteq> 65535" "\<not> pid_dynamic pid"
    and len: "a + 30 + len \<le> 262144" "0 < len" "14 + filesystem_get_element_header_len pid + len \<le> n" "n < 262144" "len \<le> length d"
  shows "\<exists>fs1 m'. filesystem_store_element sim_ops pid d len fs = (Inr (), fs1) \<and> storage fs1 = sim_storage m'"
proof -
  have a: "first_element_address (part fs pid) = a" "first_element_len (metadata (part fs pid)) = len"
    "partition_size (metadata (part fs pid)) = n" "\<not> has_first_element (part fs pid)" "latest_element_record_id (part fs pid) = 1"
    by (simp_all add: p new_partition_def)
  have c: "filesystem_check_iterator_conflict sim_ops pid a len fs = (Inr (), fs)"
    by (simp add: filesystem_check_iterator_conflict_def filesystem_iterator_check_validity_def it a sim_iterator_def Let_def ITERATOR_VALID_NUMBER_def)
  have cl: "clear_stale_successor sim_ops pid a 1 len fs = (Inr (), fs)"
    by (rule erased_no_successor[OF st p pid(1,2)]) (use len in simp_all)
  have hl: "header_len_at pid a a = 14 + filesystem_get_element_header_len pid" "filesystem_get_element_header_len pid \<le> 6"
    by (simp_all add: header_len_at_def PARTITION_METADATA_SIZE_def filesystem_get_element_header_len_def)
  have "\<exists>fs1 m'. place_element sim_ops pid a 1 0 (take len d) len fs = (Inr (), fs1) \<and> storage fs1 = sim_storage m'"
    by (rule sim_place[OF st, of a "take len d" pid len 1 0]) (use len pid in auto)
  then obtain fs1 m' where pl: "place_element sim_ops pid a 1 0 (take len d) len fs = (Inr (), fs1)" "storage fs1 = sim_storage m'" by blast
  have np: "next_position pid len (part fs pid) = (a, 1, 0)" using a by (simp add: next_position_def Let_def)
  have "\<not> u32_add (u32_add a (header_len_at pid a a)) len > u32_add a n" using len hl by simp
  then have "filesystem_store_element sim_ops pid d len fs = (Inr (), fs1)"
    using pid(3) c cl pl by (simp add: filesystem_store_element_def a np del: One_nat_def)
  with pl(2) show ?thesis by blast
qed

text \<open>The badge assignement 42 in group 3, as it lies in memory.\<close>

definition sample_assignement :: memory where
  "sample_assignement = (\<lambda>x. if x = 0 then 42 else if x = 2 then 3 else 0)"

lemma erased_store_assignement:
  assumes "erased_at st 6 e" and "part (sfs st) (registered_id 0 False True) = new_partition (registered_id 0 False True) 400 21 3 q"
    and "partition_id_badge_assignement st = registered_id 0 False True" and "length (serialized_buf st) = 512"
  shows "\<exists>st1 m'. storer_store_badge_assignement sim_ops sample_assignement 0 st = (Inr (), st1) \<and> storage (sfs st1) = sim_storage m'"
proof -
  let ?pid = "registered_id 0 False True"
  note id = registered_id_facts[of 0 False True]
  have o: "ostream_ok (tb_ostream_from_buffer (serialized_buf st) 512)"
    using assms(4) by (simp add: ostream_ok_def tb_ostream_from_buffer_def)
  obtain os where os: "tb_encode TB_LITTLE_ENDIAN BadgeAssignement_fields sample_assignement 0
      (tb_ostream_from_buffer (serialized_buf st) 512) = (True, os)" "bytes_written os = 3" "length (obuf os) = 512"
    using tb_encode_by_cells[OF field_tables_ok(1) o timestamp_cells(2), where e = TB_LITTLE_ENDIAN] assms(4)
    by (auto simp: tb_ostream_from_buffer_def)
  have "\<exists>fs1 m'. filesystem_store_element sim_ops ?pid (obuf os) 3 (sfs st) = (Inr (), fs1) \<and> storage fs1 = sim_storage m'"
  proof (rule erased_first_store)
    show "storage (sfs st) = erased" using assms(1) by (simp add: erased_at_def)
    show "part (sfs st) ?pid = new_partition ?pid 400 21 3 q" by (rule assms(2))
    show "iter (sfs st) ?pid = sim_iterator"
      using assms(1) id(1) by (simp add: erased_at_def iter_def MAX_NUMBER_OF_PARTITIONS_def)
    show "?pid \<noteq> 65535" by (simp add: registered_id_def set_bit_eq Let_def)
  qed (use id os in \<open>simp_all add: MAX_NUMBER_OF_PARTITIONS_def filesystem_get_element_header_len_def\<close>)
  then show ?thesis
    using os assms(3) by (auto simp: storer_store_badge_assignement_def store_chunk_def STORER_SERIALIZED_BUFFER_SIZE_def on_fs_def Let_def)
qed

end
