(* ===== verification/Storer_Correct.thy ===== *)
theory Storer_Correct
  imports Sim_Storer
begin

text \<open>The theorems on the storer, each with its run on the simulated badge.\<close>

section \<open>The start\<close>

text \<open>
  C25: a successful \<open>storer_init\<close> leaves the storer ready: the filesystem is in a reachable state, and
  every one of the six partitions is registered with elements exactly as long as the longest
  encoding of its message (or with elements of any length).
\<close>

theorem storer_init_makes_ready:
  assumes "badge_hardware F B mem idle wel" and "fs_arrays (sfs st0)" "length (serialized_buf st0) = STORER_SERIALIZED_BUFFER_SIZE"
    and "storer_init (badge_storage F B polls) st0 = (Inr (), st)"
  shows "storer_ready (badge_storage F B polls) st"
  by (rule badge_hardware.storer_init_ready[OF assms])

theorem storer_init_makes_ready_witness:
  "\<exists>st. storer_init sim_ops storer_power_on = (Inr (), st) \<and> storer_ready sim_ops st \<and> next_free_address (sfs st) = 308224"
proof -
  obtain st where st: "storer_init sim_ops storer_power_on = (Inr (), st)" "erased_at st 6 308224" using storer_starts by blast
  have "storer_ready sim_ops st"
    by (rule storer_init_makes_ready[OF sim.badge_hardware_axioms _ _ st(1)])
      (simp_all add: storer_power_on_def fs_arrays_def sim_power_on_def MAX_NUMBER_OF_PARTITIONS_def STORER_SERIALIZED_BUFFER_SIZE_def)
  with st show ?thesis by (auto simp: erased_at_def)
qed

text \<open>A started storer with its first badge assignement.\<close>

lemma sim_assigned:
  "\<exists>st st1 m'. storer_ready sim_ops st \<and> partition_id_badge_assignement st = registered_id 0 False True
    \<and> blank_behind sim_flash (snd (modules (storage (sfs st))))
    \<and> storer_store_badge_assignement sim_ops sample_assignement 0 st = (Inr (), st1) \<and> storage (sfs st1) = sim_storage m'"
proof -
  obtain st q where st: "storer_init sim_ops storer_power_on = (Inr (), st)" "erased_at st 6 308224"
    "part (sfs st) (registered_id 0 False True) = new_partition (registered_id 0 False True) 400 21 3 q"
    "partition_id_badge_assignement st = registered_id 0 False True" "length (serialized_buf st) = 512"
    using storer_starts by blast
  have "storer_ready sim_ops st"
    by (rule sim.storer_init_ready[OF _ _ st(1)])
      (simp_all add: storer_power_on_def fs_arrays_def sim_power_on_def MAX_NUMBER_OF_PARTITIONS_def STORER_SERIALIZED_BUFFER_SIZE_def)
  moreover have "blank_behind sim_flash (snd (modules (storage (sfs st))))"
    using st(2) by (simp add: erased_at_def blank_behind_def sim_storage_def)
  ultimately show ?thesis using erased_store_assignement[OF st(2-5)] st(4) by blast
qed

section \<open>Reading back what was stored\<close>

text \<open>
  C3: a chunk of any kind that the storer stored is the one the storer finds first: the iterator
  starts at it, its element is read and decodes into every structure such that all fields the
  message has are those of the stored structure and no other byte changes, as long as reads of the
  storage succeed.
\<close>

theorem stored_chunk_read_back:
  assumes "badge_hardware F B mem idle wel" and "storer_ready (badge_storage F B polls) st"
    and "blank_behind F (snd (modules (storage (sfs st))))" and "(pid, message_fields) \<in> set (storer_partitions st)"
    and "store_chunk (badge_storage F B polls) pid message_fields m src st = (Inr (), st1)"
    and "reads_succeed (badge_storage F B polls) (storage (sfs st1))"
  shows "\<exists>cs st2 st3 len m'. tb_cells message_fields m src = Some cs
    \<and> on_fs (filesystem_iterator_init (badge_storage F B polls) pid) st1 = (Inr (), st2)
    \<and> read_element (badge_storage F B polls) lost pid st2 = (Inr len, st3)
    \<and> decode_element message_fields len dst m0 st3 = (True, m')
    \<and> (\<forall>x. m' (x + (dst - src)) = (if x \<in> covered cs then m x else m0 (x + (dst - src))))"
proof -
  obtain cs st2 st3 len where r: "tb_cells message_fields m src = Some cs"
    "on_fs (filesystem_iterator_init (badge_storage F B polls) pid) st1 = (Inr (), st2)"
    "read_element (badge_storage F B polls) lost pid st2 = (Inr len, st3)"
    "\<forall>fs. decode_element message_fields len dst m0 (st3\<lparr>sfs := fs\<rparr>) = (True, restore (moved (dst - src) m) (map (move (dst - src)) cs) m0)"
    using badge_hardware.stored_chunk_found[OF assms, of lost dst m0] by blast
  have "decode_element message_fields len dst m0 st3 = (True, restore (moved (dst - src) m) (map (move (dst - src)) cs) m0)"
    using r(4)[rule_format, of "sfs st3"] by simp
  moreover have "\<forall>x. restore (moved (dst - src) m) (map (move (dst - src)) cs) m0 (x + (dst - src))
      = (if x \<in> covered cs then m x else m0 (x + (dst - src)))"
    by (simp only: restore_def covered_move moved_at) simp
  ultimately show ?thesis using r(1-3) by blast
qed

theorem stored_chunk_read_back_witness:
  "\<exists>st pid st1 st2 st3 len m'. store_chunk sim_ops pid BadgeAssignement_fields sample_assignement 0 st = (Inr (), st1)
    \<and> on_fs (filesystem_iterator_init sim_ops pid) st1 = (Inr (), st2) \<and> read_element sim_ops (\<lambda>_. []) pid st2 = (Inr len, st3)
    \<and> decode_element BadgeAssignement_fields len 100 (\<lambda>_. 7) st3 = (True, m') \<and> m' 100 = 42 \<and> m' 102 = 3 \<and> m' 103 = 7"
proof -
  obtain st st1 m1 where s: "storer_ready sim_ops st" "blank_behind sim_flash (snd (modules (storage (sfs st))))"
    "storer_store_badge_assignement sim_ops sample_assignement 0 st = (Inr (), st1)" "storage (sfs st1) = sim_storage m1"
    using sim_assigned by blast
  let ?pid = "partition_id_badge_assignement st"
  have p: "(?pid, BadgeAssignement_fields) \<in> set (storer_partitions st)" by (simp add: storer_partitions_def)
  have st: "store_chunk sim_ops ?pid BadgeAssignement_fields sample_assignement 0 st = (Inr (), st1)"
    using s(3) by (simp add: storer_store_badge_assignement_def)
  obtain cs st2 st3 len m' where r: "tb_cells BadgeAssignement_fields sample_assignement 0 = Some cs"
    "on_fs (filesystem_iterator_init sim_ops ?pid) st1 = (Inr (), st2)" "read_element sim_ops (\<lambda>_. []) ?pid st2 = (Inr len, st3)"
    "decode_element BadgeAssignement_fields len 100 (\<lambda>_. 7) st3 = (True, m')"
    "\<forall>x. m' (x + (100 - 0)) = (if x \<in> covered cs then sample_assignement x else 7)"
    using stored_chunk_read_back[OF sim.badge_hardware_axioms s(1,2) p st sim_reads_succeed[of m1, folded s(4)], of "\<lambda>_. []" 100 "\<lambda>_. 7"] by blast
  have "cs = [Conv 0 2, Conv 2 1]" using r(1) by (simp add: timestamp_cells)
  then have "m' 100 = 42" "m' 102 = 3" "m' 103 = 7"
    using r(5)[rule_format, of 0] r(5)[rule_format, of 2] r(5)[rule_format, of 3] by (simp_all add: sample_assignement_def)
  with st r(2-4) show ?thesis by blast
qed

text \<open>
  C26: a badge assignement that was stored is what \<open>storer_read_badge_assignement\<close> returns: the same
  ID and group, whatever the structure it is read into held before.
\<close>

theorem badge_assignement_read_back:
  assumes "badge_hardware F B mem idle wel" and "storer_ready (badge_storage F B polls) st"
    and "blank_behind F (snd (modules (storage (sfs st))))"
    and "storer_store_badge_assignement (badge_storage F B polls) m src st = (Inr (), st1)"
    and "reads_succeed (badge_storage F B polls) (storage (sfs st1))"
  shows "\<exists>m' st2. storer_read_badge_assignement (badge_storage F B polls) lost dst m0 st1 = (Inr (), m', st2)
    \<and> rd m' dst 3 = rd m src 3"
proof -
  let ?so = "badge_storage F B polls" and ?pid = "partition_id_badge_assignement st" and ?d = "dst - src"
  let ?m0 = "memset0 dst (sizeof BadgeAssignement) m0"
  have p: "(?pid, BadgeAssignement_fields) \<in> set (storer_partitions st)" by (simp add: storer_partitions_def)
  have id: "partition_id_badge_assignement st1 = ?pid"
    using assms(4) by (auto simp: storer_store_badge_assignement_def store_chunk_def on_fs_def Let_def split: prod.splits if_splits)
  have s: "store_chunk ?so ?pid BadgeAssignement_fields m src st = (Inr (), st1)"
    using assms(4) by (simp add: storer_store_badge_assignement_def)
  obtain cs st2 st3 len where r: "tb_cells BadgeAssignement_fields m src = Some cs"
    "on_fs (filesystem_iterator_init ?so ?pid) st1 = (Inr (), st2)" "read_element ?so lost ?pid st2 = (Inr len, st3)"
    "\<forall>fs. decode_element BadgeAssignement_fields len dst ?m0 (st3\<lparr>sfs := fs\<rparr>) = (True, restore (moved ?d m) (map (move ?d) cs) ?m0)"
    using badge_hardware.stored_chunk_found[OF assms(1-3) p s assms(5), of lost dst ?m0] by blast
  have "storer_read_badge_assignement ?so lost dst m0 st1 = (Inr (), restore (moved ?d m) (map (move ?d) cs) ?m0, invalidate ?pid st3)"
    using r(2-4) by (simp add: storer_read_badge_assignement_def id invalidate_def Let_def)
  moreover have "rd (restore (moved ?d m) (map (move ?d) cs) ?m0) dst 3 = rd m src 3"
  proof -
    have "cs = [Conv src 2, Conv (src + 2) 1]"
      using r(1) by (simp add: field_tables type_flags tb_cells.simps field_cells_def array_cells_def then_cells_def)
    then have "restore (moved ?d m) (map (move ?d) cs) ?m0 (src + int i + ?d) = m (src + int i)" if "i < 3" for i
      using that by (simp only: restore_def covered_move moved_at) auto
    then show ?thesis by (auto simp: rd_def algebra_simps)
  qed
  ultimately show ?thesis by blast
qed

theorem badge_assignement_read_back_witness:
  "\<exists>st st1 st2 m'. storer_store_badge_assignement sim_ops sample_assignement 0 st = (Inr (), st1)
    \<and> storer_read_badge_assignement sim_ops (\<lambda>_. []) 100 (\<lambda>_. 7) st1 = (Inr (), m', st2) \<and> rd m' 100 3 = [42, 0, 3]"
proof -
  obtain st st1 m1 where s: "storer_ready sim_ops st" "blank_behind sim_flash (snd (modules (storage (sfs st))))"
    "storer_store_badge_assignement sim_ops sample_assignement 0 st = (Inr (), st1)" "storage (sfs st1) = sim_storage m1"
    using sim_assigned by blast
  have "rd sample_assignement 0 3 = [42, 0, 3]" by (simp add: rd_def sample_assignement_def eval_nat_numeral)
  with badge_assignement_read_back[OF sim.badge_hardware_axioms s(1-3) sim_reads_succeed[of m1, folded s(4)], of "\<lambda>_. []" 100 "\<lambda>_. 7"] s(3)
  show ?thesis by auto
qed

end
