(* ===== verification/Tinybuf_Safety.thy ===== *)
theory Tinybuf_Safety
  imports Protocol_Messages
begin

text \<open>
  Memory safety of the serialisation on every input: an encoder that fails half way has written
  inside its buffer only, and a decoder that is fed arbitrary bytes reads inside its buffer and
  writes inside the structure only.
\<close>

section \<open>Encoding\<close>

text \<open>\<open>g\<close> keeps the buffer and never moves behind its end, whether it succeeds or not.\<close>

definition writes_inside :: "(tb_ostream \<Rightarrow> bool \<times> tb_ostream) \<Rightarrow> bool" where
  "writes_inside g \<longleftrightarrow> (\<forall>os. ostream_ok os \<longrightarrow> ostream_ok (snd (g os)) \<and> obuf_size (snd (g os)) = obuf_size os
     \<and> bytes_written os \<le> bytes_written (snd (g os)))"

lemma inside_refl [simp]: "writes_inside (\<lambda>os. (b, os))"
  by (simp add: writes_inside_def)

lemma inside_seq: "writes_inside g \<Longrightarrow> writes_inside h \<Longrightarrow> writes_inside (\<lambda>os. seq_ok (g os) h)"
  unfolding writes_inside_def seq_ok_def by (auto split: prod.splits) (metis prod.sel(2) order_trans)+

lemma inside_if: "writes_inside g \<Longrightarrow> writes_inside h \<Longrightarrow> writes_inside (\<lambda>os. if b then g os else h os)"
  by (cases b) simp_all

lemma inside_all: "(\<And>k. writes_inside (g k)) \<Longrightarrow> writes_inside (all_ok g ks)"
proof (induction ks)
  case (Cons k ks)
  have "all_ok g (k # ks) = (\<lambda>os. seq_ok (g k os) (all_ok g ks))" by (simp add: fun_eq_iff)
  with inside_seq[OF Cons.prems Cons.IH[OF Cons.prems]] show ?case by simp
qed (simp add: writes_inside_def)

lemma inside_write: "length d < 256 \<Longrightarrow> writes_inside (tb_write_to_ostream d)"
  by (auto simp: writes_inside_def tb_write_to_ostream_def ostream_ok_def)

lemma inside_array: "writes_inside (tb_write_to_ostream_big_endian m a d n e)"
  unfolding tb_write_to_ostream_big_endian_def[abs_def] by (intro inside_all inside_write) simp

lemma inside_encode_field:
  assumes one: "\<And>a. writes_inside (one a)" and many: "\<And>n. writes_inside (many n)" and sz: "size_size (hd table) < 256"
  shows "writes_inside (encode_field one many e table m base)"
  unfolding encode_field_def[abs_def] Let_def
  by (intro inside_if inside_seq one many inside_refl inside_array inside_write) (simp add: sz)+

lemma tb_encode_inside: "tb_table_ok w fs \<Longrightarrow> writes_inside (tb_encode e fs m base)"
proof (induction fs arbitrary: w base rule: tb_table_induct)
  case Nil
  show ?case by (simp add: writes_inside_def tb_encode.simps)
next
  case (Cons f fs)
  have sub: "writes_inside (tb_encode e (ptr f) m a)" if "\<not> DATA_SCALAR f" for a using Cons.IH(1)[of None] Cons.prems that by simp
  have sz: "size_size (hd (f # fs)) < 256" using Cons.prems by simp
  have rest: "writes_inside (tb_encode e fs m base)" using Cons.IH(2) Cons.prems by auto
  have eq: "tb_encode e (f # fs) m base = (\<lambda>os. seq_ok
       (if DATA_SCALAR f then
          encode_field (\<lambda>a. tb_write_to_ostream_big_endian m a (data_size f) 1 e)
            (\<lambda>n. tb_write_to_ostream_big_endian m (base + int (data_offset f)) (data_size f) n e) e (f # fs) m base os
        else if DATA_MESSAGE f then
          encode_field (\<lambda>a. tb_encode e (ptr f) m a)
            (\<lambda>n. all_ok (\<lambda>k. tb_encode e (ptr f) m (base + int (data_offset f) + int (k * data_size f))) [0..<n])
            e (f # fs) m base os
        else (False, os)) (tb_encode e fs m base))"
    by (simp add: fun_eq_iff tb_encode.simps)
  show ?case unfolding eq
    by (rule inside_seq[OF _ rest], cases "DATA_SCALAR f")
      (auto intro!: inside_if inside_encode_field inside_array inside_all sub simp: sz[simplified])
qed

section \<open>Decoding\<close>

text \<open>The bytes a decoder may write for a table: the ranges of its entries.\<close>

function footprint :: "tb_field list \<Rightarrow> int \<Rightarrow> int set" where
  "footprint [] base = {}"
| "footprint (f # fs) base =
     {base + size_pos f ..< base + size_pos f + int (size_size f)}
     \<union> (if DATA_SCALAR f
        then {base + int (data_offset f) ..< base + int (data_offset f) + int (u8 (data_size f) * max 1 (array_size f))}
        else (\<Union>k\<in>set [0..<max 1 (array_size f)]. footprint (ptr f) (base + int (data_offset f) + int (k * data_size f))))
     \<union> footprint fs base"
  by pat_completeness auto

termination
  by (relation "measure (\<lambda>(fs, base). size_list size fs)") (auto intro: ptr_smaller)

declare footprint.simps [simp del]

definition istream_ok :: "tb_istream \<Rightarrow> bool" where
  "istream_ok is \<longleftrightarrow> bytes_read is \<le> ibuf_size is \<and> ibuf_size is \<le> length (ibuf is) \<and> ibuf_size is + 256 \<le> 2 ^ 32"

definition reads_inside :: "int set \<Rightarrow> (tb_istream \<times> memory \<Rightarrow> bool \<times> tb_istream \<times> memory) \<Rightarrow> bool" where
  "reads_inside A g \<longleftrightarrow> (\<forall>is m. istream_ok is \<longrightarrow> (case g (is, m) of (_, is', m') \<Rightarrow>
     istream_ok is' \<and> ibuf is' = ibuf is \<and> ibuf_size is' = ibuf_size is \<and> bytes_read is \<le> bytes_read is' \<and> (\<forall>x. x \<notin> A \<longrightarrow> m' x = m x)))"

lemma reads_inside_mono: "reads_inside A g \<Longrightarrow> A \<subseteq> C \<Longrightarrow> reads_inside C g"
  unfolding reads_inside_def by (fastforce split: prod.splits)

lemma reads_inside_refl [simp]: "reads_inside A (\<lambda>s. (b, s))"
  by (simp add: reads_inside_def)

lemma reads_inside_seq:
  assumes "reads_inside A g" "reads_inside A h"
  shows "reads_inside A (\<lambda>s. seq_ok (g s) h)"
  unfolding reads_inside_def
proof (intro allI impI)
  fix "is" m assume i: "istream_ok is"
  obtain b is1 m1 where 1: "g (is, m) = (b, is1, m1)" by (metis prod.collapse)
  obtain c is2 m2 where 2: "h (is1, m1) = (c, is2, m2)" by (metis prod.collapse)
  have g: "istream_ok is1 \<and> ibuf is1 = ibuf is \<and> ibuf_size is1 = ibuf_size is \<and> bytes_read is \<le> bytes_read is1 \<and> (\<forall>x. x \<notin> A \<longrightarrow> m1 x = m x)"
    using assms(1)[unfolded reads_inside_def, rule_format, OF i, of m] 1 by simp
  have "istream_ok is2 \<and> ibuf is2 = ibuf is1 \<and> ibuf_size is2 = ibuf_size is1 \<and> bytes_read is1 \<le> bytes_read is2 \<and> (\<forall>x. x \<notin> A \<longrightarrow> m2 x = m1 x)"
    using assms(2)[unfolded reads_inside_def, rule_format, of is1 m1] g 2 by simp
  with g 1 2 show "case seq_ok (g (is, m)) h of (_, is', m') \<Rightarrow> istream_ok is' \<and> ibuf is' = ibuf is \<and> ibuf_size is' = ibuf_size is
      \<and> bytes_read is \<le> bytes_read is' \<and> (\<forall>x. x \<notin> A \<longrightarrow> m' x = m x)"
    by (simp add: seq_ok_def)
qed

lemma reads_inside_if:
  assumes "reads_inside A g" "reads_inside A h"
  shows "reads_inside A (\<lambda>s. if P s then g s else h s)"
  using assms by (auto simp: reads_inside_def)

lemma reads_inside_all: "(\<And>k. k \<in> set ks \<Longrightarrow> reads_inside A (g k)) \<Longrightarrow> reads_inside A (all_ok g ks)"
proof (induction ks)
  case (Cons k ks)
  have "all_ok g (k # ks) = (\<lambda>s. seq_ok (g k s) (all_ok g ks))" by (simp add: fun_eq_iff)
  with reads_inside_seq[of A "g k" "all_ok g ks"] Cons show ?case by simp
qed (simp add: reads_inside_def)

lemma reads_inside_read:
  assumes "len < 256" "{a ..< a + int len} \<subseteq> A" "\<And>bs. length (conv bs) = length bs"
  shows "reads_inside A (tb_read_from_istream conv a len)"
  using assms by (auto simp: reads_inside_def tb_read_from_istream_def istream_ok_def wr_def subset_eq)

lemma reads_inside_array:
  assumes "{a ..< a + int (u8 d * n)} \<subseteq> A"
  shows "reads_inside A (tb_read_from_istream_little_endian a d n e)"
  unfolding tb_read_from_istream_little_endian_def[abs_def]
proof (intro reads_inside_all reads_inside_read)
  fix i assume "i \<in> set [0..<n]"
  then have "u8 d * i + u8 d \<le> u8 d * n" by (metis atLeastLessThan_iff atLeastLessThan_upt mult_Suc_right add.commute Suc_leI mult_le_mono2)
  then have "int (u8 d * i) + int (u8 d) \<le> int (u8 d * n)" by linarith
  then have "{a + int (u8 d * i) ..< a + int (u8 d * i) + int (u8 d)} \<subseteq> {a ..< a + int (u8 d * n)}"
    by (auto simp del: of_nat_mult)
  then show "{a + int (u8 d * i) ..< a + int (u8 d * i) + int (u8 d)} \<subseteq> A" using assms by blast
qed simp_all

text \<open>The range of one entry, its data alone or as an array.\<close>

lemma reads_inside_decode_field:
  assumes one: "\<And>a. a = base + int (data_offset (hd table)) \<Longrightarrow> reads_inside A (one a)"
    and many: "\<And>n. n \<le> array_size (hd table) \<Longrightarrow> reads_inside A (many n)"
    and sz: "size_size (hd table) < 256"
    and A: "{base + size_pos (hd table) ..< base + size_pos (hd table) + int (size_size (hd table))} \<subseteq> A"
  shows "reads_inside A (decode_field one many e table base)"
proof -
  let ?f = "hd table" and ?p = "base + int (data_offset (hd table)) + size_offset (hd table)"
  have pos: "{?p ..< ?p + int (size_size ?f)} \<subseteq> A" using A by (simp add: size_pos_def add.assoc)
  have rd: "reads_inside A (tb_read_from_istream id ?p (size_size ?f))" by (rule reads_inside_read[OF sz pos]) simp
  have cnt: "reads_inside A (tb_read_from_istream_little_endian ?p (size_size ?f) 1 e)"
    by (rule reads_inside_array) (use pos sz in simp)
  have rep: "reads_inside A (\<lambda>s. let count = tb_count (rd (snd s) ?p (size_size ?f)) in
      if count > array_size ?f then (False, s) else many count s)"
    using many by (auto simp: reads_inside_def Let_def)
  show ?thesis
    unfolding decode_field_def[abs_def] Let_def
    by (intro reads_inside_if reads_inside_seq one many reads_inside_refl rd cnt rep[unfolded Let_def] refl order_refl)
qed

lemma tb_decode_inside: "tb_table_ok w fs \<Longrightarrow> reads_inside (footprint fs base) (tb_decode e fs base)"
proof (induction fs arbitrary: w base rule: tb_table_induct)
  case Nil
  show ?case by (simp add: reads_inside_def tb_decode.simps)
next
  case (Cons f fs)
  let ?A = "footprint (f # fs) base" and ?a = "base + int (data_offset f)"
  have sub: "reads_inside (footprint (ptr f) a) (tb_decode e (ptr f) a)" if "\<not> DATA_SCALAR f" for a
    using Cons.IH(1)[of None] Cons.prems that by simp
  have elem: "reads_inside ?A (tb_decode e (ptr f) (?a + int (k * data_size f)))" if "\<not> DATA_SCALAR f" "k < max 1 (array_size f)" for k
    by (rule reads_inside_mono[OF sub[OF that(1)]]) (use that in \<open>auto simp: footprint.simps\<close>)
  have arr: "reads_inside ?A (tb_read_from_istream_little_endian ?a (data_size f) n e)" if "DATA_SCALAR f" "n \<le> max 1 (array_size f)" for n
  proof (rule reads_inside_array)
    have "u8 (data_size f) * n \<le> u8 (data_size f) * max 1 (array_size f)" using that(2) by (rule mult_le_mono2)
    then have "int (u8 (data_size f) * n) \<le> int (u8 (data_size f) * max 1 (array_size f))" by linarith
    then have "{?a ..< ?a + int (u8 (data_size f) * n)} \<subseteq> {?a ..< ?a + int (u8 (data_size f) * max 1 (array_size f))}"
      by (auto simp del: of_nat_mult)
    also have "\<dots> \<subseteq> ?A" unfolding footprint.simps(2) using that(1) by auto
    finally show "{?a ..< ?a + int (u8 (data_size f) * n)} \<subseteq> ?A" .
  qed
  have sz: "size_size (hd (f # fs)) < 256" and
    tag: "{base + size_pos (hd (f # fs)) ..< base + size_pos (hd (f # fs)) + int (size_size (hd (f # fs)))} \<subseteq> ?A"
    using Cons.prems by (auto simp: footprint.simps)
  have rest: "reads_inside ?A (tb_decode e fs base)"
    by (rule reads_inside_mono[of "footprint fs base"]) (use Cons.IH(2) Cons.prems in \<open>auto simp: footprint.simps\<close>)
  have eq: "tb_decode e (f # fs) base = (\<lambda>s. seq_ok
       (if DATA_SCALAR f then
          decode_field (\<lambda>a. tb_read_from_istream_little_endian a (data_size f) 1 e)
            (\<lambda>n. tb_read_from_istream_little_endian ?a (data_size f) n e) e (f # fs) base s
        else if DATA_MESSAGE f then
          decode_field (\<lambda>a. tb_decode e (ptr f) a)
            (\<lambda>n. all_ok (\<lambda>k. tb_decode e (ptr f) (?a + int (k * data_size f))) [0..<n])
            e (f # fs) base s
        else (False, s)) (tb_decode e fs base))"
    by (simp add: fun_eq_iff tb_decode.simps)
  show ?case unfolding eq
  proof (rule reads_inside_seq[OF _ rest], cases "DATA_SCALAR f", goal_cases)
    case 1
    then show ?case using arr sz tag by (auto intro!: reads_inside_decode_field)
  next
    case 2
    have one: "reads_inside ?A (tb_decode e (ptr f) a)" if "a = base + int (data_offset (hd (f # fs)))" for a
      using elem[OF 2, of 0] that by simp
    have many: "reads_inside ?A (all_ok (\<lambda>k. tb_decode e (ptr f) (?a + int (k * data_size f))) [0..<n])" if "n \<le> array_size (hd (f # fs))" for n
      by (rule reads_inside_all) (use elem[OF 2] that in auto)
    from reads_inside_decode_field[OF one many sz tag] 2 show ?case by (auto intro!: reads_inside_if)
  qed
qed

section \<open>The structures of the protocol\<close>

text \<open>All ranges of a table lie inside a structure of \<open>n\<close> bytes; the elements of an array of messages are \<open>data_size\<close> bytes apart.\<close>

function table_fits :: "tb_field list \<Rightarrow> nat \<Rightarrow> bool" where
  "table_fits [] n = True"
| "table_fits (f # fs) n =
     (0 \<le> size_pos f \<and> size_pos f + int (size_size f) \<le> int n
      \<and> (if DATA_SCALAR f then data_offset f + u8 (data_size f) * max 1 (array_size f) \<le> n
         else table_fits (ptr f) (data_size f) \<and> data_offset f + max 1 (array_size f) * data_size f \<le> n)
      \<and> table_fits fs n)"
  by pat_completeness auto

termination
  by (relation "measure (\<lambda>(fs, n). size_list size fs)") (auto intro: ptr_smaller)

lemma footprint_fits: "table_fits fs n \<Longrightarrow> footprint fs base \<subseteq> {base ..< base + int n}"
proof (induction fs arbitrary: base n rule: tb_table_induct)
  case (Cons f fs)
  let ?a = "base + int (data_offset f)"
  have elem: "footprint (ptr f) (?a + int (k * data_size f)) \<subseteq> {base ..< base + int n}" if "\<not> DATA_SCALAR f" "k < max 1 (array_size f)" for k
  proof -
    have "k * data_size f + data_size f \<le> max 1 (array_size f) * data_size f"
      using that(2) by (metis Suc_leI add.commute mult_Suc mult_le_mono1)
    then have "data_offset f + (k * data_size f + data_size f) \<le> n" using Cons.prems that(1) by simp
    then have "int (data_offset f) + int (k * data_size f) + int (data_size f) \<le> int n" by linarith
    then show ?thesis
      using Cons.IH(1)[of "data_size f" "?a + int (k * data_size f)"] Cons.prems that(1) by (fastforce simp del: of_nat_mult)
  qed
  have scalar: "{?a ..< ?a + int (u8 (data_size f) * max 1 (array_size f))} \<subseteq> {base ..< base + int n}" if "DATA_SCALAR f"
  proof -
    have "data_offset f + u8 (data_size f) * max 1 (array_size f) \<le> n" using Cons.prems that by simp
    then have "int (data_offset f) + int (u8 (data_size f) * max 1 (array_size f)) \<le> int n" by linarith
    then show ?thesis by (auto simp del: of_nat_mult)
  qed
  have "{base + size_pos f ..< base + size_pos f + int (size_size f)} \<subseteq> {base ..< base + int n}" using Cons.prems by auto
  moreover have "footprint fs base \<subseteq> {base ..< base + int n}" using Cons.IH(2) Cons.prems by simp
  moreover have "(if DATA_SCALAR f then {?a ..< ?a + int (u8 (data_size f) * max 1 (array_size f))}
      else (\<Union>k\<in>set [0..<max 1 (array_size f)]. footprint (ptr f) (?a + int (k * data_size f)))) \<subseteq> {base ..< base + int n}"
  proof (cases "DATA_SCALAR f")
    case True
    then show ?thesis using scalar by (simp only: if_True)
  next
    case False
    show ?thesis unfolding if_not_P[OF False]
    proof (rule UN_least)
      fix k assume "k \<in> set [0..<max 1 (array_size f)]"
      then have "k < max 1 (array_size f)" by (simp only: set_upt atLeastLessThan_iff)
      then show "footprint (ptr f) (?a + int (k * data_size f)) \<subseteq> {base ..< base + int n}" by (rule elem[OF False])
    qed
  qed
  ultimately show ?case unfolding footprint.simps(2) by (intro Un_least)
qed (simp add: footprint.simps)

lemmas fit_eval = entry_defs layout_eval tb_offsetof_def tb_membersize_def sizeof_def tb_delta_def type_flags size_pos_def

lemma common_fit:
  "table_fits Timestamp_fields 8" "table_fits BadgeAssignement_fields 4" "table_fits BatteryData_fields 4" "table_fits MicrophoneData_fields 1"
  "table_fits ScanDevice_fields 4" "table_fits ScanResultData_fields 6" "table_fits AccelerometerData_fields 2"
  "table_fits AccelerometerRawData_fields 6"
  by (simp_all add: field_tables type_flags size_pos_def)

lemma request_fits: "table_fits Request_fields (sizeof Request)"
  by (simp add: Request_fields_def protocol_tables common_fit fit_eval del: One_nat_def)

section \<open>Theorems\<close>

text \<open>
  C27: whatever the structure in memory holds, and whether \<open>tb_encode\<close> succeeds or gives up half way, it
  has written inside its buffer only: the buffer keeps its length and the count of written bytes
  never exceeds it.
\<close>

theorem tb_encode_stays_in_buffer:
  assumes "tb_table_ok None fs" "length b = n" "n + 256 \<le> 2 ^ 32"
    and "tb_encode e fs m base (tb_ostream_from_buffer b n) = (ok, os)"
  shows "bytes_written os \<le> n \<and> length (obuf os) = n"
  using tb_encode_inside[OF assms(1), of e m base] assms(2-4)
  by (auto simp: writes_inside_def ostream_ok_def tb_ostream_from_buffer_def dest: spec[of _ "tb_ostream_from_buffer b n"])

theorem tb_encode_stays_in_buffer_witness:
  "length (obuf (snd (tb_encode TB_BIG_ENDIAN Request_fields sample_request 0 (tb_ostream_from_buffer [1, 2, 3] 3)))) = 3"
proof -
  obtain ok os where e: "tb_encode TB_BIG_ENDIAN Request_fields sample_request 0 (tb_ostream_from_buffer [1, 2, 3] 3) = (ok, os)" by fastforce
  from tb_encode_stays_in_buffer[OF protocol_tables_ok(1) _ _ e] e show ?thesis by simp
qed

text \<open>
  C4: the decoder of the requests is safe on every input: any bytes that arrive, of any length,
  are decoded without a read behind the received bytes and without a write outside the request
  structure, whether they are accepted or not.
\<close>

theorem decode_request_is_safe:
  assumes "length b = n" "n + 256 \<le> 2 ^ 32"
    and "tb_decode e Request_fields base (tb_istream_from_buffer b n, m) = (ok, is', m')"
  shows "bytes_read is' \<le> n \<and> ibuf is' = b \<and> (\<forall>x. x < base \<or> base + int (sizeof Request) \<le> x \<longrightarrow> m' x = m x)"
proof -
  have i: "istream_ok (tb_istream_from_buffer b n)" using assms(1,2) by (simp add: istream_ok_def tb_istream_from_buffer_def)
  have r: "istream_ok is' \<and> ibuf is' = b \<and> ibuf_size is' = n \<and> (\<forall>x. x \<notin> footprint Request_fields base \<longrightarrow> m' x = m x)"
    using tb_decode_inside[OF protocol_tables_ok(1), of base e, unfolded reads_inside_def, rule_format, OF i, of m] assms(3)
    by (simp add: tb_istream_from_buffer_def)
  have "m' x = m x" if "x < base \<or> base + int (sizeof Request) \<le> x" for x
    using r footprint_fits[OF request_fits, of base] that by fastforce
  with r show ?thesis by (auto simp: istream_ok_def)
qed

theorem decode_request_is_safe_witness:
  "snd (snd (tb_decode TB_BIG_ENDIAN Request_fields 0 (tb_istream_from_buffer [99, 1, 2] 3, \<lambda>_. 7))) (- 1) = 7"
proof -
  obtain ok is' m' where e: "tb_decode TB_BIG_ENDIAN Request_fields 0 (tb_istream_from_buffer [99, 1, 2] 3, \<lambda>_. 7) = (ok, is', m')" by (metis prod.collapse)
  from decode_request_is_safe[OF _ _ e] e show ?thesis by simp
qed

end
