(* ===== verification/Chunk_Fifo.thy ===== *)
theory Chunk_Fifo
  imports OB_Prelude
begin

text \<open>
  The chunk FIFO of \<^verbatim>\<open>incl/chunk_fifo_lib.c\<close>: a ring of \<open>chunk_num + 1\<close> slots in one byte
  buffer.  The open functions hand out pointers into the buffer, modelled by byte offsets, and
  the close functions publish or consume the slot.  The structure, every function of the file,
  an invariant, and the guarantee the header states: a chunk that has not been consumed is
  never handed to the writer.
\<close>

section \<open>The structure and its operations\<close>

record chunk_fifo =
  chunk_num :: nat
  chunk_size :: nat
  additional_info_size :: nat
  p_chunk_fifo_buf :: "byte list"
  chunk_read_pos :: nat
  chunk_write_pos :: nat
  chunk_open_read :: bool
  chunk_open_write :: bool

definition chunk_fifo_init :: "nat \<Rightarrow> nat \<Rightarrow> nat \<Rightarrow> byte list option \<Rightarrow> ret_code + chunk_fifo" where
  "chunk_fifo_init num csize isize buf =
     (case buf of
        None \<Rightarrow> Inl NRF_ERROR_INVALID_PARAM
      | Some b \<Rightarrow>
          if num = 0 then Inl NRF_ERROR_INVALID_PARAM
          else Inr \<lparr>chunk_num = num, chunk_size = csize, additional_info_size = isize,
                    p_chunk_fifo_buf = b, chunk_read_pos = 0, chunk_write_pos = 0,
                    chunk_open_read = False, chunk_open_write = False\<rparr>)"

text \<open>
  The offsets of the chunk and of its additional info in slot \<open>pos\<close>: the index expressions of
  the two open functions, computed in \<open>uint32_t\<close>.
\<close>

definition chunk_offset :: "chunk_fifo \<Rightarrow> nat \<Rightarrow> nat" where
  "chunk_offset f pos = u32_mul pos (u32_add (chunk_size f) (additional_info_size f))"

definition info_offset :: "chunk_fifo \<Rightarrow> nat \<Rightarrow> nat" where
  "info_offset f pos = u32_add (chunk_size f) (chunk_offset f pos)"

definition chunk_fifo_read_open :: "chunk_fifo \<Rightarrow> (nat \<times> nat, chunk_fifo) outcome" where
  "chunk_fifo_read_open f =
     (if chunk_read_pos f \<noteq> chunk_write_pos f
      then (Inr (chunk_offset f (chunk_read_pos f), info_offset f (chunk_read_pos f)),
            f\<lparr>chunk_open_read := True\<rparr>)
      else (Inl NRF_ERROR_NOT_FOUND, f))"

definition chunk_fifo_read_close :: "chunk_fifo \<Rightarrow> chunk_fifo" where
  "chunk_fifo_read_close f =
     (if \<not> chunk_open_read f then f
      else let f = f\<lparr>chunk_open_read := False\<rparr> in
        if chunk_read_pos f = chunk_write_pos f then f
        else f\<lparr>chunk_read_pos := u8 ((chunk_read_pos f + 1) mod (chunk_num f + 1))\<rparr>)"

definition chunk_fifo_write_open :: "chunk_fifo \<Rightarrow> (nat \<times> nat) \<times> chunk_fifo" where
  "chunk_fifo_write_open f =
     ((chunk_offset f (chunk_write_pos f), info_offset f (chunk_write_pos f)),
      f\<lparr>chunk_open_write := True\<rparr>)"

definition chunk_fifo_write_close :: "chunk_fifo \<Rightarrow> chunk_fifo" where
  "chunk_fifo_write_close f =
     (if \<not> chunk_open_write f then f
      else let f = f\<lparr>chunk_open_write := False\<rparr> in
        if (chunk_write_pos f + 1) mod (chunk_num f + 1) = chunk_read_pos f then f
        else f\<lparr>chunk_write_pos := u8 ((chunk_write_pos f + 1) mod (chunk_num f + 1))\<rparr>)"

definition chunk_fifo_get_number_of_chunks :: "chunk_fifo \<Rightarrow> nat" where
  "chunk_fifo_get_number_of_chunks f =
     (if chunk_write_pos f \<ge> chunk_read_pos f then u8 (chunk_write_pos f - chunk_read_pos f)
      else u8 ((chunk_num f + 1) - (chunk_read_pos f - chunk_write_pos f)))"

text \<open>The client's stores through the pointers it was given.\<close>

definition chunk_store :: "chunk_fifo \<Rightarrow> nat \<Rightarrow> byte list \<Rightarrow> chunk_fifo" where
  "chunk_store f off bs = f\<lparr>p_chunk_fifo_buf := overwrite (p_chunk_fifo_buf f) off bs\<rparr>"

section \<open>Well-formedness and the queue of slots\<close>

definition slot_size :: "chunk_fifo \<Rightarrow> nat" where
  "slot_size f = chunk_size f + additional_info_size f"

definition chk_wf :: "chunk_fifo \<Rightarrow> bool" where
  "chk_wf f \<longleftrightarrow> 0 < chunk_num f \<and> chunk_num f < 256 \<and>
     (chunk_num f + 1) * slot_size f \<le> length (p_chunk_fifo_buf f) \<and>
     (chunk_num f + 1) * slot_size f < 4294967296 \<and>
     chunk_read_pos f \<le> chunk_num f \<and> chunk_write_pos f \<le> chunk_num f"

definition chk_count :: "chunk_fifo \<Rightarrow> nat" where
  "chk_count f = (chunk_write_pos f + (chunk_num f + 1) - chunk_read_pos f) mod (chunk_num f + 1)"

text \<open>The finished, not yet consumed slots, oldest first, and the bytes of a slot.\<close>

definition chk_slots :: "chunk_fifo \<Rightarrow> nat list" where
  "chk_slots f = map (\<lambda>i. (chunk_read_pos f + i) mod (chunk_num f + 1)) [0..<chk_count f]"

definition slot_bytes :: "chunk_fifo \<Rightarrow> nat \<Rightarrow> byte list" where
  "slot_bytes f pos = take (slot_size f) (drop (pos * slot_size f) (p_chunk_fifo_buf f))"

definition chk_queue :: "chunk_fifo \<Rightarrow> byte list list" where
  "chk_queue f = map (slot_bytes f) (chk_slots f)"

lemma chk_count_eq:
  assumes "chk_wf f"
  shows "chk_count f = (if chunk_read_pos f \<le> chunk_write_pos f then chunk_write_pos f - chunk_read_pos f
                        else chunk_write_pos f + (chunk_num f + 1) - chunk_read_pos f)"
  unfolding chk_count_def using assms by (intro ring_distance) (auto simp: chk_wf_def)

lemma length_chk_slots [simp]: "length (chk_slots f) = chk_count f"
  by (simp add: chk_slots_def)

lemma chk_count_le: "chk_wf f \<Longrightarrow> chk_count f \<le> chunk_num f"
  by (auto simp: chk_count_eq chk_wf_def)

lemma chk_slots_le: "chk_wf f \<Longrightarrow> p \<in> set (chk_slots f) \<Longrightarrow> p \<le> chunk_num f"
  by (auto simp: chk_slots_def less_Suc_eq_le[symmetric])

lemma chk_write_pos_eq:
  "chk_wf f \<Longrightarrow> chunk_write_pos f = (chunk_read_pos f + chk_count f) mod (chunk_num f + 1)"
proof -
  assume wf: "chk_wf f"
  have "(chunk_write_pos f + (chunk_num f + 1)) mod (chunk_num f + 1) = chunk_write_pos f"
    unfolding mod_add_self2 using wf by (simp add: chk_wf_def)
  with wf show ?thesis by (auto simp: chk_count_eq chk_wf_def)
qed

text \<open>The slot the writer works on is never one of the unconsumed slots.\<close>

lemma chk_writer_slot_free:
  assumes wf: "chk_wf f"
  shows "chunk_write_pos f \<notin> set (chk_slots f)"
proof
  assume "chunk_write_pos f \<in> set (chk_slots f)"
  then obtain i where i: "i < chk_count f"
      "chunk_write_pos f = (chunk_read_pos f + i) mod (chunk_num f + 1)"
    by (auto simp: chk_slots_def)
  with chk_write_pos_eq[OF wf] chk_count_le[OF wf]
    ring_index_inj[of i "chunk_num f + 1" "chk_count f" "chunk_read_pos f"]
  show False by simp
qed

lemma chk_slots_distinct: "chk_wf f \<Longrightarrow> distinct (chk_slots f)"
  unfolding chk_slots_def distinct_map inj_on_def
proof (intro conjI ballI impI)
  fix i j
  assume "chk_wf f" and "i \<in> set [0..<chk_count f]" and "j \<in> set [0..<chk_count f]"
    and "(chunk_read_pos f + i) mod (chunk_num f + 1) = (chunk_read_pos f + j) mod (chunk_num f + 1)"
  then show "i = j"
    using chk_count_le[of f] by (intro ring_index_inj[of i "chunk_num f + 1" j]) auto
qed simp

lemma chk_number_of_chunks: "chk_wf f \<Longrightarrow> chunk_fifo_get_number_of_chunks f = length (chk_slots f)"
  by (auto simp: chunk_fifo_get_number_of_chunks_def chk_count_eq chk_wf_def)

lemma chk_slots_empty_iff: "chk_wf f \<Longrightarrow> chk_slots f = [] \<longleftrightarrow> chunk_read_pos f = chunk_write_pos f"
  using length_chk_slots[of f]
  by (auto simp: chk_count_eq chk_wf_def chk_slots_def simp del: length_chk_slots split: if_splits)

lemma chk_offsets:
  assumes wf: "chk_wf f" and "pos \<le> chunk_num f"
  shows "chunk_offset f pos = pos * slot_size f"
    and "info_offset f pos = pos * slot_size f + chunk_size f"
    and "pos * slot_size f + slot_size f \<le> length (p_chunk_fifo_buf f)"
proof -
  have le: "pos * slot_size f + slot_size f \<le> (chunk_num f + 1) * slot_size f"
    using mult_le_mono1[OF assms(2), of "slot_size f"] by simp
  moreover have cs: "chunk_size f \<le> slot_size f" by (simp add: slot_size_def)
  moreover have sum: "(chunk_num f + 1) * slot_size f < 4294967296" using wf by (simp add: chk_wf_def)
  ultimately have small: "pos * slot_size f < 4294967296" "slot_size f < 4294967296"
      "pos * slot_size f + chunk_size f < 4294967296"
    by linarith+
  have add: "u32_add (chunk_size f) (additional_info_size f) = slot_size f"
    using small(2) by (simp add: slot_size_def)
  show "chunk_offset f pos = pos * slot_size f"
    unfolding chunk_offset_def add using small(1) by simp
  then show "info_offset f pos = pos * slot_size f + chunk_size f"
    unfolding info_offset_def using small(3) by (simp add: add.commute)
  show "pos * slot_size f + slot_size f \<le> length (p_chunk_fifo_buf f)"
    using le wf unfolding chk_wf_def by linarith
qed

section \<open>Each operation on the queue of slots\<close>

lemma chk_flag_irrelevant [simp]:
  "chk_wf (f\<lparr>chunk_open_read := b\<rparr>) = chk_wf f" "chk_wf (f\<lparr>chunk_open_write := b\<rparr>) = chk_wf f"
  "chk_slots (f\<lparr>chunk_open_read := b\<rparr>) = chk_slots f" "chk_slots (f\<lparr>chunk_open_write := b\<rparr>) = chk_slots f"
  "slot_bytes (f\<lparr>chunk_open_read := b\<rparr>) = slot_bytes f"
  "slot_bytes (f\<lparr>chunk_open_write := b\<rparr>) = slot_bytes f"
  by (simp_all add: chk_wf_def chk_slots_def chk_count_def slot_size_def slot_bytes_def fun_eq_iff)

lemma chk_pos_irrelevant [simp]:
  "slot_bytes (f\<lparr>chunk_read_pos := r\<rparr>) = slot_bytes f"
  "slot_bytes (f\<lparr>chunk_write_pos := w\<rparr>) = slot_bytes f"
  by (simp_all add: slot_bytes_def slot_size_def fun_eq_iff)

lemma ring_succ_le: "(p + 1) mod (n + 1) \<le> (n :: nat)"
  using mod_less_divisor[of "n + 1" "p + 1"] by linarith

lemma chk_succ_u8: "chk_wf f \<Longrightarrow> u8 ((p + 1) mod (chunk_num f + 1)) = (p + 1) mod (chunk_num f + 1)"
  using ring_succ_le[of p "chunk_num f"] unfolding chk_wf_def by (intro u8_id) linarith

lemma chk_read_close_eq:
  assumes wf: "chk_wf f" and "chunk_open_read f"
  shows "chk_slots (chunk_fifo_read_close f) = tl (chk_slots f)"
    and "chk_wf (chunk_fifo_read_close f)"
    and "slot_bytes (chunk_fifo_read_close f) = slot_bytes f"
proof -
  let ?f = "f\<lparr>chunk_open_read := False\<rparr>"
  let ?r = "(chunk_read_pos f + 1) mod (chunk_num f + 1)"
  show "slot_bytes (chunk_fifo_read_close f) = slot_bytes f"
    by (auto simp: chunk_fifo_read_close_def Let_def)
  show "chk_wf (chunk_fifo_read_close f)"
    using wf ring_succ_le[of "chunk_read_pos f" "chunk_num f"] chk_succ_u8[OF wf, of "chunk_read_pos f"]
    by (auto simp: chunk_fifo_read_close_def Let_def chk_wf_def slot_size_def)
  show "chk_slots (chunk_fifo_read_close f) = tl (chk_slots f)"
  proof (cases "chunk_read_pos f = chunk_write_pos f")
    case True
    with wf have "chk_slots f = []" by (simp add: chk_slots_empty_iff)
    with True assms(2) show ?thesis by (simp add: chunk_fifo_read_close_def)
  next
    case False
    have r: "?r = (if chunk_read_pos f = chunk_num f then 0 else chunk_read_pos f + 1)"
      using wf by (auto simp: chk_wf_def)
    have wf': "chk_wf (f\<lparr>chunk_read_pos := ?r\<rparr>)"
      using wf ring_succ_le[of "chunk_read_pos f" "chunk_num f"] by (simp add: chk_wf_def slot_size_def)
    have cnt: "chk_count (f\<lparr>chunk_read_pos := ?r\<rparr>) = chk_count f - 1"
      using False wf r unfolding chk_count_eq[OF wf'] chk_count_eq[OF wf]
      by (auto simp: chk_wf_def split: if_splits)
    have "chk_slots (f\<lparr>chunk_read_pos := ?r\<rparr>) = tl (chk_slots f)"
    proof (rule nth_equalityI)
      show "length (chk_slots (f\<lparr>chunk_read_pos := ?r\<rparr>)) = length (tl (chk_slots f))"
        using cnt by simp
      fix i assume "i < length (chk_slots (f\<lparr>chunk_read_pos := ?r\<rparr>))"
      with cnt have "Suc i < chk_count f" "i < chk_count f - Suc 0" by simp_all
      with cnt show "chk_slots (f\<lparr>chunk_read_pos := ?r\<rparr>) ! i = tl (chk_slots f) ! i"
        by (simp add: nth_tl chk_slots_def mod_simps del: upt_Suc)
    qed
    moreover have "chk_slots (f\<lparr>chunk_open_read := False, chunk_read_pos := ?r\<rparr>) = chk_slots (f\<lparr>chunk_read_pos := ?r\<rparr>)"
      by (simp add: chk_slots_def chk_count_def)
    ultimately show ?thesis
      using False assms(2) chk_succ_u8[OF wf, of "chunk_read_pos f"]
      by (simp add: chunk_fifo_read_close_def Let_def)
  qed
qed

lemma chk_full_iff:
  assumes "chk_wf f"
  shows "(chunk_write_pos f + 1) mod (chunk_num f + 1) = chunk_read_pos f \<longleftrightarrow> chk_count f = chunk_num f"
proof -
  have "(chunk_write_pos f + 1) mod (chunk_num f + 1) = (if chunk_write_pos f = chunk_num f then 0 else chunk_write_pos f + 1)"
    using assms by (auto simp: chk_wf_def)
  with assms show ?thesis
    by (auto simp: chk_count_eq chk_wf_def simp del: mod_Suc_eq split: if_splits)
qed

lemma chk_write_close_eq:
  assumes wf: "chk_wf f" and "chunk_open_write f"
  shows "chk_slots (chunk_fifo_write_close f) =
      (if chk_count f = chunk_num f then chk_slots f else chk_slots f @ [chunk_write_pos f])"
    and "chk_wf (chunk_fifo_write_close f)"
    and "slot_bytes (chunk_fifo_write_close f) = slot_bytes f"
proof -
  let ?w = "(chunk_write_pos f + 1) mod (chunk_num f + 1)"
  show "slot_bytes (chunk_fifo_write_close f) = slot_bytes f"
    by (auto simp: chunk_fifo_write_close_def Let_def)
  show "chk_wf (chunk_fifo_write_close f)"
    using wf ring_succ_le[of "chunk_write_pos f" "chunk_num f"] chk_succ_u8[OF wf, of "chunk_write_pos f"]
    by (auto simp: chunk_fifo_write_close_def Let_def chk_wf_def slot_size_def)
  show "chk_slots (chunk_fifo_write_close f) =
      (if chk_count f = chunk_num f then chk_slots f else chk_slots f @ [chunk_write_pos f])"
  proof (cases "chk_count f = chunk_num f")
    case True
    with chk_full_iff[OF wf] assms(2) show ?thesis by (simp add: chunk_fifo_write_close_def)
  next
    case False
    have w: "?w = (if chunk_write_pos f = chunk_num f then 0 else chunk_write_pos f + 1)"
      using wf by (auto simp: chk_wf_def)
    have wf': "chk_wf (f\<lparr>chunk_write_pos := ?w\<rparr>)"
      using wf ring_succ_le[of "chunk_write_pos f" "chunk_num f"] by (simp add: chk_wf_def slot_size_def)
    have cnt: "chk_count (f\<lparr>chunk_write_pos := ?w\<rparr>) = chk_count f + 1"
      using False wf w unfolding chk_count_eq[OF wf'] chk_count_eq[OF wf]
      by (auto simp: chk_wf_def split: if_splits)
    have "chk_slots (f\<lparr>chunk_write_pos := ?w\<rparr>) = chk_slots f @ [chunk_write_pos f]"
      unfolding chk_slots_def cnt using chk_write_pos_eq[OF wf] by simp
    moreover have "chk_slots (f\<lparr>chunk_open_write := False, chunk_write_pos := ?w\<rparr>) = chk_slots (f\<lparr>chunk_write_pos := ?w\<rparr>)"
      by (simp add: chk_slots_def chk_count_def)
    ultimately show ?thesis
      using False assms(2) chk_full_iff[OF wf] chk_succ_u8[OF wf, of "chunk_write_pos f"]
      by (simp add: chunk_fifo_write_close_def Let_def)
  qed
qed

text \<open>Stores through the writer's pointer touch no unconsumed slot.\<close>

lemma chk_store_wf:
  assumes "chk_wf f" and "length bs \<le> slot_size f" and "pos \<le> chunk_num f"
  shows "chk_wf (chunk_store f (chunk_offset f pos) bs)"
  using assms chk_offsets(1,3)[OF assms(1,3)] by (simp add: chunk_store_def chk_wf_def slot_size_def)

lemma chk_store_other_slot:
  assumes wf: "chk_wf f" and len: "length bs \<le> slot_size f"
    and pos: "pos \<le> chunk_num f" and p: "p \<le> chunk_num f" and ne: "p \<noteq> pos"
  shows "slot_bytes (chunk_store f (chunk_offset f pos) bs) p = slot_bytes f p"
proof -
  let ?n = "slot_size f" and ?buf = "p_chunk_fifo_buf f"
  have fit: "pos * ?n + length bs \<le> length ?buf" using chk_offsets(3)[OF wf pos] len by simp
  have pn: "p * ?n + ?n \<le> length ?buf" by (rule chk_offsets(3)[OF wf p])
  have apart: "p * ?n + ?n \<le> pos * ?n \<or> pos * ?n + ?n \<le> p * ?n"
  proof (cases "p < pos")
    case True
    then have "(p + 1) * ?n \<le> pos * ?n" by (intro mult_le_mono1) simp
    then show ?thesis by simp
  next
    case False
    with ne have "(pos + 1) * ?n \<le> p * ?n" by (intro mult_le_mono1) simp
    then show ?thesis by simp
  qed
  have "take ?n (drop (p * ?n) (overwrite ?buf (pos * ?n) bs)) = take ?n (drop (p * ?n) ?buf)"
  proof (rule nth_equalityI)
    show "length (take ?n (drop (p * ?n) (overwrite ?buf (pos * ?n) bs))) = length (take ?n (drop (p * ?n) ?buf))"
      using fit by simp
    fix i assume "i < length (take ?n (drop (p * ?n) (overwrite ?buf (pos * ?n) bs)))"
    with fit pn have i: "i < ?n" "p * ?n + i < length ?buf" by simp_all
    with apart len have "\<not> (pos * ?n \<le> p * ?n + i \<and> p * ?n + i < pos * ?n + length bs)" by linarith
    with i fit show "take ?n (drop (p * ?n) (overwrite ?buf (pos * ?n) bs)) ! i = take ?n (drop (p * ?n) ?buf) ! i"
      by (auto simp: nth_overwrite)
  qed
  then show ?thesis
    by (simp add: slot_bytes_def chunk_store_def slot_size_def[symmetric] chk_offsets(1)[OF wf pos])
      (simp add: slot_size_def)
qed

lemma chk_store_queue:
  assumes wf: "chk_wf f" and len: "length bs \<le> slot_size f"
  shows "chk_queue (chunk_store f (chunk_offset f (chunk_write_pos f)) bs) = chk_queue f"
proof -
  let ?g = "chunk_store f (chunk_offset f (chunk_write_pos f)) bs"
  have "chk_slots ?g = chk_slots f" by (simp add: chk_slots_def chk_count_def chunk_store_def)
  moreover have "slot_bytes ?g p = slot_bytes f p" if "p \<in> set (chk_slots f)" for p
    using that chk_writer_slot_free[OF wf] chk_slots_le[OF wf that] wf
    by (intro chk_store_other_slot[OF wf len]) (auto simp: chk_wf_def)
  ultimately show ?thesis by (simp add: chk_queue_def)
qed

lemma chk_read_open_hd:
  assumes wf: "chk_wf f" and ro: "chunk_fifo_read_open f = (Inr (c, i), f')"
  shows "\<exists>q. chk_queue f = take (slot_size f) (drop c (p_chunk_fifo_buf f)) # q"
    and "c + chunk_size f = i" and "c + slot_size f \<le> length (p_chunk_fifo_buf f)"
proof -
  from ro have ne: "chunk_read_pos f \<noteq> chunk_write_pos f"
      and c: "c = chunk_offset f (chunk_read_pos f)" and i: "i = info_offset f (chunk_read_pos f)"
    by (auto simp: chunk_fifo_read_open_def split: if_splits)
  have rp: "chunk_read_pos f \<le> chunk_num f" using wf by (simp add: chk_wf_def)
  from ne wf have "0 < chk_count f"
    using chk_slots_empty_iff[OF wf] by (cases "chk_count f") (auto simp: chk_slots_def)
  then have "[0..<chk_count f] = 0 # [1..<chk_count f]" by (simp add: upt_conv_Cons)
  with rp have "\<exists>q. chk_slots f = chunk_read_pos f # q" by (simp add: chk_slots_def)
  then show "\<exists>q. chk_queue f = take (slot_size f) (drop c (p_chunk_fifo_buf f)) # q"
    by (auto simp: chk_queue_def slot_bytes_def c chk_offsets(1)[OF wf rp])
  show "c + chunk_size f = i" "c + slot_size f \<le> length (p_chunk_fifo_buf f)"
    using chk_offsets[OF wf rp] by (simp_all add: c i)
qed

section \<open>Runs of a producer and a consumer\<close>

text \<open>
  \<open>chk_run f outs ins f'\<close>: some interleaving of the four operations and of stores through the
  writer's pointer while a write is open leads from \<open>f\<close> to \<open>f'\<close>; \<open>outs\<close> are the chunks consumed
  by \<open>chunk_fifo_read_close\<close> and \<open>ins\<close> the chunks published by \<open>chunk_fifo_write_close\<close>.
\<close>

inductive chk_run :: "chunk_fifo \<Rightarrow> byte list list \<Rightarrow> byte list list \<Rightarrow> chunk_fifo \<Rightarrow> bool" where
  run_start: "chk_run f [] [] f"
| run_read_open: "chk_run f outs ins g \<Longrightarrow> chk_run f outs ins (snd (chunk_fifo_read_open g))"
| run_read_close: "chk_run f outs ins g \<Longrightarrow>
    chk_run f (outs @ (if chunk_open_read g then take 1 (chk_queue g) else [])) ins (chunk_fifo_read_close g)"
| run_write_open: "chk_run f outs ins g \<Longrightarrow> chk_run f outs ins (snd (chunk_fifo_write_open g))"
| run_write_store: "chk_run f outs ins g \<Longrightarrow> chunk_open_write g \<Longrightarrow> length bs \<le> slot_size g \<Longrightarrow>
    chk_run f outs ins (chunk_store g (chunk_offset g (chunk_write_pos g)) bs)"
| run_write_close: "chk_run f outs ins g \<Longrightarrow>
    chk_run f outs
      (ins @ (if chunk_open_write g \<and> chk_count g < chunk_num g then [slot_bytes g (chunk_write_pos g)] else []))
      (chunk_fifo_write_close g)"

lemma chk_run_wf: "chk_run f outs ins g \<Longrightarrow> chk_wf f \<Longrightarrow> chk_wf g"
proof (induction rule: chk_run.induct)
  case (run_read_close f outs ins g)
  then show ?case
    by (cases "chunk_open_read g") (auto simp: chk_read_close_eq, simp add: chunk_fifo_read_close_def)
next
  case (run_write_close f outs ins g)
  then show ?case
    by (cases "chunk_open_write g") (auto simp: chk_write_close_eq, simp add: chunk_fifo_write_close_def)
next
  case (run_write_store f outs ins g bs)
  then show ?case by (intro chk_store_wf) (auto simp: chk_wf_def)
qed (auto simp: chunk_fifo_read_open_def chunk_fifo_write_open_def)

lemma chk_run_queue:
  "chk_run f outs ins g \<Longrightarrow> chk_wf f \<Longrightarrow> outs @ chk_queue g = chk_queue f @ ins"
proof (induction rule: chk_run.induct)
  case (run_read_open f outs ins g)
  then show ?case by (auto simp: chunk_fifo_read_open_def chk_queue_def)
next
  case (run_read_close f outs ins g)
  note wf = chk_run_wf[OF run_read_close.hyps run_read_close.prems]
  show ?case
  proof (cases "chunk_open_read g")
    case True
    then have "chk_queue (chunk_fifo_read_close g) = tl (chk_queue g)"
      by (simp add: chk_queue_def chk_read_close_eq[OF wf True] map_tl)
    with True run_read_close show ?thesis by (cases "chk_queue g") auto
  next
    case False
    with run_read_close show ?thesis by (simp add: chunk_fifo_read_close_def)
  qed
next
  case (run_write_store f outs ins g bs)
  with chk_store_queue[OF chk_run_wf[OF run_write_store.hyps(1) run_write_store.prems]] show ?case by simp
next
  case (run_write_close f outs ins g)
  note wf = chk_run_wf[OF run_write_close.hyps run_write_close.prems]
  show ?case
  proof (cases "chunk_open_write g")
    case True
    have "chk_queue (chunk_fifo_write_close g) =
        chk_queue g @ (if chk_count g < chunk_num g then [slot_bytes g (chunk_write_pos g)] else [])"
      using chk_count_le[OF wf] by (simp add: chk_queue_def chk_write_close_eq[OF wf True])
    with True run_write_close show ?thesis by simp
  next
    case False
    with run_write_close show ?thesis by (simp add: chunk_fifo_write_close_def)
  qed
qed (simp_all add: chunk_fifo_write_open_def chk_queue_def)

section \<open>Properties\<close>

text \<open>
  C9: Whatever the interleaving of producer and consumer, the chunks consumed followed by the
  chunks still queued are exactly the chunks that were queued followed by the published ones,
  byte for byte and in order: nothing unread is overwritten, lost or duplicated.
\<close>

theorem chunk_fifo_no_loss:
  assumes "chk_wf f" and "chk_run f outs ins g"
  shows "outs @ chk_queue g = chk_queue f @ ins \<and> chk_wf g"
  using chk_run_queue[OF assms(2,1)] chk_run_wf[OF assms(2,1)] by simp

theorem chunk_fifo_no_loss_witness:
  "\<exists>f outs ins g. chunk_fifo_init 1 1 0 (Some [0, 0]) = Inr f \<and> chk_run f outs ins g
     \<and> outs @ chk_queue g = chk_queue f @ ins \<and> ins = [[7]]"
proof -
  let ?f = "\<lparr>chunk_num = 1, chunk_size = 1, additional_info_size = 0, p_chunk_fifo_buf = [0, 0],
     chunk_read_pos = 0, chunk_write_pos = 0, chunk_open_read = False, chunk_open_write = False\<rparr>"
  let ?g1 = "snd (chunk_fifo_write_open ?f)"
  let ?g2 = "chunk_store ?g1 (chunk_offset ?g1 (chunk_write_pos ?g1)) [7]"
  have i: "chunk_fifo_init 1 1 0 (Some [0, 0]) = Inr ?f" by (simp add: chunk_fifo_init_def)
  have wf: "chk_wf ?f" by (simp add: chk_wf_def slot_size_def)
  have g1: "chk_run ?f [] [] ?g1" by (rule run_write_open[OF run_start])
  have g2: "chk_run ?f [] [] ?g2"
    by (rule run_write_store[OF g1]) (simp_all add: chunk_fifo_write_open_def slot_size_def)
  have "[] @ (if chunk_open_write ?g2 \<and> chk_count ?g2 < chunk_num ?g2 then [slot_bytes ?g2 (chunk_write_pos ?g2)] else []) = [[7]]"
    by (simp add: chunk_store_def chunk_fifo_write_open_def chk_count_def slot_bytes_def slot_size_def
        overwrite_def chunk_offset_def u32_mul_def)
  with run_write_close[OF g2] have r: "chk_run ?f [] [[7]] (chunk_fifo_write_close ?g2)" by simp
  from chunk_fifo_no_loss[OF wf r] i r show ?thesis by blast
qed

text \<open>
  C31: An opened read hands out the oldest published chunk: the chunk and its additional info
  are the two parts of that slot, inside the buffer; with no chunk the call reports
  \<open>NRF_ERROR_NOT_FOUND\<close> and changes nothing.
\<close>

theorem chunk_fifo_read_open_oldest:
  assumes "chk_wf f"
  shows "case chunk_fifo_read_open f of
      (Inl e, f') \<Rightarrow> e = NRF_ERROR_NOT_FOUND \<and> f' = f \<and> chk_queue f = []
    | (Inr (c, i), f') \<Rightarrow> chk_queue f \<noteq> [] \<and> i = c + chunk_size f \<and> c + slot_size f \<le> length (p_chunk_fifo_buf f)
        \<and> take (slot_size f) (drop c (p_chunk_fifo_buf f)) = hd (chk_queue f) \<and> chk_queue f' = chk_queue f"
proof (cases "chunk_read_pos f = chunk_write_pos f")
  case True
  with assms show ?thesis
    by (simp add: chunk_fifo_read_open_def chk_queue_def chk_slots_empty_iff)
next
  case False
  then obtain c i where ro: "chunk_fifo_read_open f = (Inr (c, i), f\<lparr>chunk_open_read := True\<rparr>)"
    by (simp add: chunk_fifo_read_open_def)
  from chk_read_open_hd[OF assms ro] ro show ?thesis by (auto simp: chk_queue_def)
qed

theorem chunk_fifo_read_open_oldest_witness:
  "\<exists>c i f'. chunk_fifo_read_open \<lparr>chunk_num = 1, chunk_size = 1, additional_info_size = 0,
       p_chunk_fifo_buf = [7, 0], chunk_read_pos = 0, chunk_write_pos = 1, chunk_open_read = False,
       chunk_open_write = False\<rparr> = (Inr (c, i), f') \<and> chk_queue f' = [[7]]"
proof -
  let ?f = "\<lparr>chunk_num = 1, chunk_size = 1, additional_info_size = 0,
       p_chunk_fifo_buf = [7, 0], chunk_read_pos = 0, chunk_write_pos = 1, chunk_open_read = False,
       chunk_open_write = False\<rparr>"
  have wf: "chk_wf ?f" by (simp add: chk_wf_def slot_size_def)
  have q: "chk_queue ?f = [[7]]"
    by (simp add: chk_queue_def chk_slots_def chk_count_def slot_bytes_def slot_size_def mod_Suc)
  show ?thesis
    using chunk_fifo_read_open_oldest[OF wf] q by (auto simp: chunk_fifo_read_open_def)
qed

end
