(* ===== verification/Processing.thy ===== *)
theory Processing
  imports Chunk_Fifo Storer "HOL-Library.Multiset"
begin

text \<open>
  The processing of the sampled data, \<^verbatim>\<open>incl/processing_lib.c\<close>: the handlers that the scheduler runs
  after a chunk was published.  A handler stores the chunks of its FIFO until the FIFO is empty; it
  puts itself into the scheduler again when the storage is busy.
\<close>

section \<open>Sorting a scan\<close>

definition SCAN_BEACON_ID_THRESHOLD :: nat where "SCAN_BEACON_ID_THRESHOLD = 16000"
definition SCAN_PRIORITIZED_BEACONS :: nat where "SCAN_PRIORITIZED_BEACONS = 4"
definition SCAN_CHUNK_DATA_SIZE :: nat where "SCAN_CHUNK_DATA_SIZE = 29"

text \<open>A \<open>ScanResultData\<close> is the list of the bytes of the structure.\<close>

type_synonym scan_result = "byte list"

definition scan_device_ID :: "scan_result \<Rightarrow> nat" where
  "scan_device_ID r = unat (r ! 0) + 256 * unat (r ! 1)"

definition scan_device_rssi :: "scan_result \<Rightarrow> int" where
  "scan_device_rssi r = sint (r ! 2)"

definition is_beacon :: "scan_result \<Rightarrow> bool" where
  "is_beacon r \<longleftrightarrow> scan_device_ID r \<ge> SCAN_BEACON_ID_THRESHOLD"

definition compare_by_beacon :: "scan_result \<Rightarrow> scan_result \<Rightarrow> int" where
  "compare_by_beacon a b =
     (if is_beacon a \<and> \<not> is_beacon b then - 1 else if \<not> is_beacon a \<and> is_beacon b then 1 else 0)"

definition compare_by_RSSI :: "scan_result \<Rightarrow> scan_result \<Rightarrow> int" where
  "compare_by_RSSI a b =
     (if scan_device_rssi a > scan_device_rssi b then - 1 else if scan_device_rssi a < scan_device_rssi b then 1 else 0)"

text \<open>
  \<open>qsort\<close> of the C library is a parameter: the standard leaves the order of equal elements open.
\<close>

type_synonym qsort_fun = "(scan_result \<Rightarrow> scan_result \<Rightarrow> int) \<Rightarrow> scan_result list \<Rightarrow> scan_result list"

definition sort_scan :: "qsort_fun \<Rightarrow> scan_result list \<Rightarrow> scan_result list" where
  "sort_scan qsort data =
     (let count = length data;
          num_beacons = length (filter is_beacon data);
          data = qsort compare_by_beacon data;
          data = qsort compare_by_RSSI (take num_beacons data) @ drop num_beacons data;
          prioritized_beacons = (if num_beacons > SCAN_PRIORITIZED_BEACONS then SCAN_PRIORITIZED_BEACONS else num_beacons);
          n = count - num_beacons
      in take prioritized_beacons data @ qsort compare_by_RSSI (take n (drop prioritized_beacons data))
           @ drop (prioritized_beacons + n) data)"

section \<open>The handlers\<close>

datatype processing_event = PROCESS_ACCELEROMETER | PROCESS_ACCELEROMETER_INTERRUPT | PROCESS_BATTERY | PROCESS_MICROPHONE | PROCESS_SCAN

text \<open>
  The state the handlers share: the FIFOs of the sampling module, the storer, the buffer for the
  conversion of a scan, and the events handed to the scheduler, the latest first.
\<close>

record 's processing =
  accelerometer_chunk_fifo :: chunk_fifo
  accelerometer_interrupt_chunk_fifo :: chunk_fifo
  battery_chunk_fifo :: chunk_fifo
  microphone_chunk_fifo :: chunk_fifo
  scan_sampling_chunk_fifo :: chunk_fifo
  scan_chunk :: "byte list"
  pstorer :: "'s storer"
  sched_events :: "processing_event list"

definition app_sched_event_put :: "processing_event \<Rightarrow> 's processing \<Rightarrow> 's processing" where
  "app_sched_event_put e p = p\<lparr>sched_events := e # sched_events p\<rparr>"

text \<open>The memory a pointer into a buffer points to; addresses are offsets.\<close>

definition buf_mem :: "byte list \<Rightarrow> memory" where
  "buf_mem b = (\<lambda>x. if 0 \<le> x \<and> nat x < length b then b ! nat x else 0)"

type_synonym 's chunk_storer = "memory \<Rightarrow> int \<Rightarrow> 's storer \<Rightarrow> (unit, 's storer) outcome"

text \<open>The loop of a handler; the first component of the result is whether it has to run again.\<close>

partial_function (option) process_loop :: "'s chunk_storer \<Rightarrow> chunk_fifo \<Rightarrow> 's storer \<Rightarrow> (bool \<times> chunk_fifo \<times> 's storer) option" where
  "process_loop store f st =
     (case chunk_fifo_read_open f of
        (Inl _, f) \<Rightarrow> Some (False, f, st)
      | (Inr (chunk, _), f) \<Rightarrow>
          (case store (buf_mem (p_chunk_fifo_buf f)) (int chunk) st of (r, st) \<Rightarrow>
           if r = Inl NRF_ERROR_INTERNAL then Some (True, f, st)
           else process_loop store (chunk_fifo_read_close f) st))"

definition reschedule :: "bool \<Rightarrow> processing_event \<Rightarrow> 's processing \<Rightarrow> 's processing" where
  "reschedule again e p = (if again then app_sched_event_put e p else p)"

definition processing_process_accelerometer_chunk :: "'s storage_ops \<Rightarrow> 's processing \<Rightarrow> 's processing option" where
  "processing_process_accelerometer_chunk so p =
     map_option (\<lambda>(again, f, st). reschedule again PROCESS_ACCELEROMETER (p\<lparr>accelerometer_chunk_fifo := f, pstorer := st\<rparr>))
       (process_loop (storer_store_accelerometer_chunk so) (accelerometer_chunk_fifo p) (pstorer p))"

definition processing_process_accelerometer_interrupt_chunk :: "'s storage_ops \<Rightarrow> 's processing \<Rightarrow> 's processing option" where
  "processing_process_accelerometer_interrupt_chunk so p =
     map_option (\<lambda>(again, f, st). reschedule again PROCESS_ACCELEROMETER_INTERRUPT (p\<lparr>accelerometer_interrupt_chunk_fifo := f, pstorer := st\<rparr>))
       (process_loop (storer_store_accelerometer_interrupt_chunk so) (accelerometer_interrupt_chunk_fifo p) (pstorer p))"

definition processing_process_battery_chunk :: "'s storage_ops \<Rightarrow> 's processing \<Rightarrow> 's processing option" where
  "processing_process_battery_chunk so p =
     map_option (\<lambda>(again, f, st). reschedule again PROCESS_BATTERY (p\<lparr>battery_chunk_fifo := f, pstorer := st\<rparr>))
       (process_loop (storer_store_battery_chunk so) (battery_chunk_fifo p) (pstorer p))"

definition processing_process_microphone_chunk :: "'s storage_ops \<Rightarrow> 's processing \<Rightarrow> 's processing option" where
  "processing_process_microphone_chunk so p =
     map_option (\<lambda>(again, f, st). reschedule again PROCESS_MICROPHONE (p\<lparr>microphone_chunk_fifo := f, pstorer := st\<rparr>))
       (process_loop (storer_store_microphone_chunk so) (microphone_chunk_fifo p) (pstorer p))"

text \<open>
  A scan: the members of the structures at their offsets, the results as the elements of the array
  of the chunk that starts at offset \<open>c\<close>.
\<close>

definition scan_count_at :: "byte list \<Rightarrow> nat \<Rightarrow> nat" where
  "scan_count_at b c = unat (b ! (c + tb_offsetof ScanSamplingChunk 1))"

definition scan_results_at :: "byte list \<Rightarrow> nat \<Rightarrow> nat \<Rightarrow> scan_result list" where
  "scan_results_at b c n = map (\<lambda>i. take (sizeof ScanResultData) (drop (c + tb_offsetof ScanSamplingChunk 2 + i * sizeof ScanResultData) b)) [0..<n]"

text \<open>Sorting and cutting a scan with more results than a stored chunk can hold.\<close>

definition shorten_scan :: "qsort_fun \<Rightarrow> nat \<Rightarrow> byte list \<Rightarrow> byte list" where
  "shorten_scan qsort c b =
     (let n = scan_count_at b c in
      if n > SCAN_CHUNK_DATA_SIZE
      then (overwrite b (c + tb_offsetof ScanSamplingChunk 2) (concat (sort_scan qsort (scan_results_at b c n))))
             [c + tb_offsetof ScanSamplingChunk 1 := of_nat SCAN_CHUNK_DATA_SIZE]
      else b)"

text \<open>The conversion into the stored chunk: timestamp, count and the results one by one.\<close>

definition convert_scan :: "byte list \<Rightarrow> nat \<Rightarrow> byte list \<Rightarrow> byte list" where
  "convert_scan b c sc =
     (let sc = overwrite sc (tb_offsetof ScanChunk 0) (take (sizeof Timestamp) (drop c b));
          sc = sc[tb_offsetof ScanChunk 1 := b ! (c + tb_offsetof ScanSamplingChunk 1)]
      in fold (\<lambda>i sc. overwrite sc (tb_offsetof ScanChunk 2 + i * sizeof ScanResultData) (scan_results_at b c (i + 1) ! i))
           [0..<scan_count_at b c] sc)"

partial_function (option) scan_loop ::
  "qsort_fun \<Rightarrow> 's chunk_storer \<Rightarrow> chunk_fifo \<Rightarrow> byte list \<Rightarrow> 's storer \<Rightarrow> (bool \<times> chunk_fifo \<times> byte list \<times> 's storer) option" where
  "scan_loop qsort store f sc st =
     (case chunk_fifo_read_open f of
        (Inl _, f) \<Rightarrow> Some (False, f, sc, st)
      | (Inr (chunk, _), f) \<Rightarrow>
          let f = f\<lparr>p_chunk_fifo_buf := shorten_scan qsort chunk (p_chunk_fifo_buf f)\<rparr>;
              sc = convert_scan (p_chunk_fifo_buf f) chunk sc
          in case store (buf_mem sc) 0 st of (r, st) \<Rightarrow>
           if r = Inl NRF_ERROR_INTERNAL then Some (True, f, sc, st)
           else scan_loop qsort store (chunk_fifo_read_close f) sc st)"

definition processing_process_scan_sampling_chunk :: "qsort_fun \<Rightarrow> 's storage_ops \<Rightarrow> 's processing \<Rightarrow> 's processing option" where
  "processing_process_scan_sampling_chunk qsort so p =
     map_option (\<lambda>(again, f, sc, st). reschedule again PROCESS_SCAN (p\<lparr>scan_sampling_chunk_fifo := f, scan_chunk := sc, pstorer := st\<rparr>))
       (scan_loop qsort (storer_store_scan_chunk so) (scan_sampling_chunk_fifo p) (scan_chunk p) (pstorer p))"

section \<open>What the handlers do with their FIFO\<close>

text \<open>
  The specification of a handler on the list of the published slots: they are stored in order, the
  loop stops at the first one for which the storage is busy, and that one stays.
\<close>

fun drain :: "(nat \<Rightarrow> 't \<Rightarrow> (unit, 't) outcome) \<Rightarrow> nat list \<Rightarrow> 't \<Rightarrow> bool \<times> nat list \<times> 't" where
  "drain g [] st = (False, [], st)"
| "drain g (c # cs) st = (case g c st of (r, st) \<Rightarrow> if r = Inl NRF_ERROR_INTERNAL then (True, c # cs, st) else drain g cs st)"

lemma read_open_slots:
  assumes wf: "chk_wf f" and sl: "chk_slots f = p # ps"
  shows "chunk_fifo_read_open f = (Inr (chunk_offset f p, info_offset f p), f\<lparr>chunk_open_read := True\<rparr>)"
proof -
  have ne: "chunk_read_pos f \<noteq> chunk_write_pos f" using chk_slots_empty_iff[OF wf] sl by auto
  have c: "0 < chk_count f" using sl length_chk_slots[of f] by simp
  have "p = chk_slots f ! 0" using sl by simp
  also have "\<dots> = chunk_read_pos f" using c wf by (simp add: chk_slots_def chk_wf_def)
  finally show ?thesis using ne by (simp add: chunk_fifo_read_open_def)
qed

lemma read_close_offsets:
  "p_chunk_fifo_buf (chunk_fifo_read_close f) = p_chunk_fifo_buf f" "chunk_offset (chunk_fifo_read_close f) = chunk_offset f"
  "slot_size (chunk_fifo_read_close f) = slot_size f"
  by (simp_all add: chunk_fifo_read_close_def chunk_offset_def[abs_def] slot_size_def Let_def)

lemma open_read_offset [simp]: "chunk_offset (f\<lparr>chunk_open_read := b\<rparr>) = chunk_offset f"
  "slot_size (f\<lparr>chunk_open_read := b\<rparr>) = slot_size f"
  by (simp_all add: chunk_offset_def[abs_def] slot_size_def)

lemma process_loop_drains:
  assumes "chk_wf f"
  shows "\<exists>again f' st'. process_loop store f st = Some (again, f', st') \<and> chk_wf f' \<and> p_chunk_fifo_buf f' = p_chunk_fifo_buf f
    \<and> drain (\<lambda>p. store (buf_mem (p_chunk_fifo_buf f)) (int (chunk_offset f p))) (chk_slots f) st = (again, chk_slots f', st')"
  using assms
proof (induction "chk_slots f" arbitrary: f st)
  case Nil
  then have "chunk_fifo_read_open f = (Inl NRF_ERROR_NOT_FOUND, f)"
    using chk_slots_empty_iff[OF Nil.prems] by (simp add: chunk_fifo_read_open_def)
  then show ?case using Nil by (subst process_loop.simps) (auto simp: Nil.hyps[symmetric])
next
  case (Cons p ps)
  let ?f = "f\<lparr>chunk_open_read := True\<rparr>" and ?m = "buf_mem (p_chunk_fifo_buf f)"
  obtain r st1 where r: "store ?m (int (chunk_offset f p)) st = (r, st1)" by fastforce
  note o = read_open_slots[OF Cons.prems Cons.hyps(2)[symmetric]]
  have wf: "chk_wf ?f" using Cons.prems by simp
  note cl = chk_read_close_eq[OF wf, simplified]
  have sl: "ps = chk_slots (chunk_fifo_read_close ?f)" using cl(1) Cons.hyps(2) by (metis list.sel(3))
  from Cons.hyps(1)[OF sl cl(2), of st1]
  show ?case
    by (subst process_loop.simps) (auto simp: o r Cons.hyps(2)[symmetric] read_close_offsets sl[symmetric] Cons.prems)
qed

section \<open>What the sort does\<close>

text \<open>What the C standard promises of \<open>qsort\<close> for a comparison that orders its arguments.\<close>

definition orders :: "('a \<Rightarrow> 'a \<Rightarrow> int) \<Rightarrow> bool" where
  "orders cmp \<longleftrightarrow> (\<forall>a b. cmp a b \<le> 0 \<or> cmp b a \<le> 0) \<and> (\<forall>a b c. cmp a b \<le> 0 \<longrightarrow> cmp b c \<le> 0 \<longrightarrow> cmp a c \<le> 0)"

locale c_qsort =
  fixes qsort :: qsort_fun
  assumes qsort_perm: "mset (qsort cmp xs) = mset xs"
    and qsort_sorted: "orders cmp \<Longrightarrow> sorted_wrt (\<lambda>a b. cmp a b \<le> 0) (qsort cmp xs)"
begin

lemma qsort_length [simp]: "length (qsort cmp xs) = length xs"
  by (rule mset_eq_length[OF qsort_perm])

lemma qsort_set [simp]: "set (qsort cmp xs) = set xs"
  by (rule mset_eq_setD[OF qsort_perm])

end

lemma orders_comparisons: "orders compare_by_beacon" "orders compare_by_RSSI"
  by (auto simp: orders_def compare_by_beacon_def compare_by_RSSI_def split: if_splits)

lemma RSSI_le: "compare_by_RSSI a b \<le> 0 \<longleftrightarrow> scan_device_rssi b \<le> scan_device_rssi a"
  by (simp add: compare_by_RSSI_def)

lemma beacons_first:
  "sorted_wrt (\<lambda>a b. compare_by_beacon a b \<le> 0) xs \<Longrightarrow> xs = filter is_beacon xs @ filter (\<lambda>r. \<not> is_beacon r) xs"
proof (induction xs)
  case (Cons x xs)
  then have ih: "xs = filter is_beacon xs @ filter (\<lambda>r. \<not> is_beacon r) xs" by simp
  show ?case
  proof (cases "is_beacon x")
    case False
    with Cons.prems have "filter is_beacon xs = []" by (auto simp: filter_empty_conv compare_by_beacon_def split: if_splits)
    with ih False show ?thesis by simp
  qed (use ih in simp)
qed simp

definition stronger_first :: "scan_result list \<Rightarrow> bool" where
  "stronger_first xs \<longleftrightarrow> sorted_wrt (\<lambda>a b. scan_device_rssi b \<le> scan_device_rssi a) xs"

context c_qsort
begin

lemma sort_scan_parts:
  fixes xs
  defines "nb \<equiv> length (filter is_beacon xs)"
  obtains bs cs where "mset (bs @ cs) = mset xs" "length bs = nb" "\<forall>b\<in>set bs. is_beacon b" "\<forall>c\<in>set cs. \<not> is_beacon c" "stronger_first bs"
    "sort_scan qsort xs = take (min 4 nb) bs @ qsort compare_by_RSSI (take (length xs - nb) (drop (min 4 nb) bs @ cs))
       @ drop (min 4 nb + (length xs - nb)) (bs @ cs)"
proof -
  define ys where "ys = qsort compare_by_beacon xs"
  have m: "mset ys = mset xs" by (simp add: ys_def qsort_perm)
  have ys: "ys = filter is_beacon ys @ filter (\<lambda>r. \<not> is_beacon r) ys"
    using qsort_sorted[OF orders_comparisons(1)] by (intro beacons_first) (simp add: ys_def)
  have "length (filter is_beacon ys) = nb" unfolding nb_def using m by (metis mset_filter size_mset)
  with ys have t: "take nb ys = filter is_beacon ys" "drop nb ys = filter (\<lambda>r. \<not> is_beacon r) ys"
    by (metis append_eq_conv_conj)+
  define bs where "bs = qsort compare_by_RSSI (take nb ys)"
  define cs where "cs = drop nb ys"
  have l: "length bs = nb" using \<open>length (filter is_beacon ys) = nb\<close> t by (simp add: bs_def)
  have p: "(if 4 < nb then 4 else nb) = min 4 nb" by simp
  show thesis
  proof (rule that[OF _ l])
    have "mset (bs @ cs) = mset (take nb ys @ drop nb ys)" by (simp only: bs_def cs_def qsort_perm mset_append)
    also have "\<dots> = mset xs" by (simp only: append_take_drop_id m)
    finally show "mset (bs @ cs) = mset xs" .
    show "\<forall>b\<in>set bs. is_beacon b" "\<forall>c\<in>set cs. \<not> is_beacon c" using t by (simp_all add: bs_def cs_def)
    show "stronger_first bs" using qsort_sorted[OF orders_comparisons(2)] by (simp add: bs_def stronger_first_def RSSI_le)
    show "sort_scan qsort xs = take (min 4 nb) bs @ qsort compare_by_RSSI (take (length xs - nb) (drop (min 4 nb) bs @ cs))
       @ drop (min 4 nb + (length xs - nb)) (bs @ cs)"
      unfolding sort_scan_def Let_def nb_def[symmetric] ys_def[symmetric] bs_def[symmetric] cs_def[symmetric]
        SCAN_PRIORITIZED_BEACONS_def p by (simp add: l)
  qed
qed

lemma sort_scan_front:
  fixes xs
  defines "p \<equiv> min 4 (length (filter is_beacon xs))"
  shows "mset (sort_scan qsort xs) = mset xs" and "stronger_first (take p (sort_scan qsort xs))"
    and "r \<in> set (take p (sort_scan qsort xs)) \<Longrightarrow> is_beacon r"
    and "r \<in> set (take p (sort_scan qsort xs)) \<Longrightarrow> s \<in> set (drop p (sort_scan qsort xs)) \<Longrightarrow> is_beacon s
      \<Longrightarrow> scan_device_rssi s \<le> scan_device_rssi r"
    and "length (filter is_beacon xs) \<le> 4 \<Longrightarrow> stronger_first (drop p (sort_scan qsort xs))"
proof -
  obtain bs cs where b: "mset (bs @ cs) = mset xs" "length bs = length (filter is_beacon xs)" "\<forall>b\<in>set bs. is_beacon b"
      "\<forall>c\<in>set cs. \<not> is_beacon c" "stronger_first bs"
    and e: "sort_scan qsort xs = take p bs @ qsort compare_by_RSSI (take (length xs - length bs) (drop p bs @ cs))
       @ drop (p + (length xs - length bs)) (bs @ cs)"
    unfolding p_def by (rule sort_scan_parts[of xs]) simp
  let ?n = "length xs - length bs"
  have p: "p \<le> length bs" by (simp add: p_def b(2))
  have rest: "drop p bs @ cs = take ?n (drop p bs @ cs) @ drop (p + ?n) (bs @ cs)"
  proof -
    have "drop p (bs @ cs) = drop p bs @ cs" using p by simp
    then have "drop (p + ?n) (bs @ cs) = drop ?n (drop p bs @ cs)" by (metis drop_drop add.commute)
    then show ?thesis by (simp only: append_take_drop_id)
  qed
  have "mset (sort_scan qsort xs) = mset (take p bs) + mset (take ?n (drop p bs @ cs) @ drop (p + ?n) (bs @ cs))"
    unfolding e by (simp only: mset_append qsort_perm)
  also have "\<dots> = mset (bs @ cs)" unfolding rest[symmetric] by (metis append_assoc append_take_drop_id mset_append)
  finally show "mset (sort_scan qsort xs) = mset xs" using b(1) by simp
  have tk: "take p (sort_scan qsort xs) = take p bs" and dr: "drop p (sort_scan qsort xs)
      = qsort compare_by_RSSI (take ?n (drop p bs @ cs)) @ drop (p + ?n) (bs @ cs)"
    unfolding e using p by simp_all
  show "stronger_first (take p (sort_scan qsort xs))" using b(5) by (simp add: tk stronger_first_def sorted_wrt_take)
  show "is_beacon r" if "r \<in> set (take p (sort_scan qsort xs))" using that b(3) tk by (metis in_set_takeD)
  show "scan_device_rssi s \<le> scan_device_rssi r" if "r \<in> set (take p (sort_scan qsort xs))" "s \<in> set (drop p (sort_scan qsort xs))" "is_beacon s"
  proof -
    have "s \<in> set (take ?n (drop p bs @ cs) @ drop (p + ?n) (bs @ cs))" using that(2) unfolding dr by simp
    then have "s \<in> set (drop p bs)" using that(3) b(4) unfolding rest[symmetric] by auto
    moreover have "sorted_wrt (\<lambda>a b. scan_device_rssi b \<le> scan_device_rssi a) (take p bs @ drop p bs)" using b(5) by (simp add: stronger_first_def)
    ultimately show ?thesis using that(1) tk unfolding sorted_wrt_append by auto
  qed
  show "stronger_first (drop p (sort_scan qsort xs))" if "length (filter is_beacon xs) \<le> 4"
  proof -
    have "p = length bs" "?n = length cs" using that b(2) mset_eq_length[OF b(1)] by (auto simp: p_def)
    then have "drop p (sort_scan qsort xs) = qsort compare_by_RSSI cs" unfolding dr by simp
    then show ?thesis using qsort_sorted[OF orders_comparisons(2), of cs] by (simp add: stronger_first_def RSSI_le)
  qed
qed

end

section \<open>Theorems\<close>

text \<open>An implementation of \<open>qsort\<close>: insertion.\<close>

fun insert_by :: "('a \<Rightarrow> 'a \<Rightarrow> int) \<Rightarrow> 'a \<Rightarrow> 'a list \<Rightarrow> 'a list" where
  "insert_by cmp x [] = [x]"
| "insert_by cmp x (y # ys) = (if cmp x y \<le> 0 then x # y # ys else y # insert_by cmp x ys)"

definition insertion_qsort :: "('a \<Rightarrow> 'a \<Rightarrow> int) \<Rightarrow> 'a list \<Rightarrow> 'a list" where
  "insertion_qsort cmp xs = foldr (insert_by cmp) xs []"

lemma insert_by_mset: "mset (insert_by cmp x ys) = add_mset x (mset ys)"
  by (induction ys) auto

lemma insert_by_sorted:
  assumes o: "orders cmp"
  shows "sorted_wrt (\<lambda>a b. cmp a b \<le> 0) ys \<Longrightarrow> sorted_wrt (\<lambda>a b. cmp a b \<le> 0) (insert_by cmp x ys)"
proof (induction ys)
  case (Cons y ys)
  have s: "set (insert_by cmp x ys) = insert x (set ys)" using mset_eq_setD[of "insert_by cmp x ys" "x # ys"] by (simp add: insert_by_mset)
  show ?case
  proof (cases "cmp x y \<le> 0")
    case True
    with Cons.prems o show ?thesis unfolding orders_def by auto
  next
    case False
    with o have "cmp y x \<le> 0" unfolding orders_def by blast
    with False Cons s show ?thesis by auto
  qed
qed simp

interpretation insertion: c_qsort insertion_qsort
proof
  show "mset (insertion_qsort cmp xs) = mset xs" for cmp :: "scan_result \<Rightarrow> scan_result \<Rightarrow> int" and xs
    by (induction xs) (auto simp: insertion_qsort_def insert_by_mset)
  show "sorted_wrt (\<lambda>a b. cmp a b \<le> 0) (insertion_qsort cmp xs)" if "orders cmp" for cmp :: "scan_result \<Rightarrow> scan_result \<Rightarrow> int" and xs
    by (induction xs) (auto simp: insertion_qsort_def insert_by_sorted[OF that])
qed

lemma length_concat_const: "\<forall>x\<in>set xs. length x = k \<Longrightarrow> length (concat xs) = k * length xs"
  by (induction xs) auto

lemma scan_layout:
  "sizeof ScanResultData = 6" "tb_offsetof ScanSamplingChunk 1 = 8" "tb_offsetof ScanSamplingChunk 2 = 10" "sizeof ScanSamplingChunk = 1540"
  by code_simp+

lemmas scan_sizes = scan_layout scan_layout[unfolded One_nat_def]

text \<open>The bytes of a scan in two buffers, and what the handler of the scans makes of them.\<close>

definition same_scan_bytes :: "nat \<Rightarrow> byte list \<Rightarrow> byte list \<Rightarrow> bool" where
  "same_scan_bytes c b b' \<longleftrightarrow> c + sizeof ScanSamplingChunk \<le> length b \<and> c + sizeof ScanSamplingChunk \<le> length b'
     \<and> (\<forall>x < sizeof ScanSamplingChunk. b ! (c + x) = b' ! (c + x))"

lemma same_scan_take:
  assumes "same_scan_bytes c b b'" and "k + n \<le> 1540"
  shows "take n (drop (c + k) b) = take n (drop (c + k) b')"
proof (rule nth_equalityI)
  have "n \<le> length b - (c + k)" "n \<le> length b' - (c + k)" using assms unfolding same_scan_bytes_def scan_sizes by linarith+
  then show "length (take n (drop (c + k) b)) = length (take n (drop (c + k) b'))" by simp
  fix x assume "x < length (take n (drop (c + k) b))"
  then show "take n (drop (c + k) b) ! x = take n (drop (c + k) b') ! x"
    using assms by (simp add: same_scan_bytes_def scan_sizes add.assoc)
qed

lemma same_scan_results:
  assumes "same_scan_bytes c b b'"
  shows "scan_count_at b c = scan_count_at b' c" and "n \<le> 255 \<Longrightarrow> scan_results_at b c n = scan_results_at b' c n"
  using assms same_scan_take[OF assms, of "10 + i * 6" 6 for i]
  by (auto simp: scan_count_at_def scan_results_at_def same_scan_bytes_def scan_sizes add.assoc)

lemma scan_count_le: "scan_count_at b c \<le> 255"
  unfolding scan_count_at_def scan_sizes using unat_byte_less[of "b ! (c + 8)"] by linarith

lemma sorted_scan_length:
  assumes q: "c_qsort qsort" and c: "c + sizeof ScanSamplingChunk \<le> length b" and n: "n \<le> 255"
  shows "length (concat (sort_scan qsort (scan_results_at b c n))) = 6 * n"
proof -
  have fit: "c + 10 + i * 6 + 6 \<le> length b" if "i < n" for i using that n c by (simp add: scan_sizes)
  have el: "\<forall>r\<in>set (scan_results_at b c n). length r = 6" using fit le_diff_conv2 by (fastforce simp: scan_results_at_def scan_sizes min_def)
  have m: "mset (sort_scan qsort (scan_results_at b c n)) = mset (scan_results_at b c n)" by (rule c_qsort.sort_scan_front(1)[OF q])
  have "length (sort_scan qsort (scan_results_at b c n)) = n" using mset_eq_length[OF m] by (simp add: scan_results_at_def)
  then show ?thesis using length_concat_const[of "sort_scan qsort (scan_results_at b c n)" 6] el unfolding mset_eq_setD[OF m] by simp
qed

lemma shorten_scan_nth:
  assumes q: "c_qsort qsort" and c: "c + sizeof ScanSamplingChunk \<le> length b"
  shows "length (shorten_scan qsort c b) = length b" and "x < length b \<Longrightarrow> x < c \<or> c + 1540 \<le> x \<Longrightarrow> shorten_scan qsort c b ! x = b ! x"
    and "same_scan_bytes c b b' \<Longrightarrow> same_scan_bytes c (shorten_scan qsort c b) (shorten_scan qsort c b')"
proof -
  have l: "length (concat (sort_scan qsort (scan_results_at d c (scan_count_at d c)))) = 6 * scan_count_at d c" "10 + 6 * scan_count_at d c \<le> 1540"
    if "c + sizeof ScanSamplingChunk \<le> length d" for d
    using sorted_scan_length[OF q that scan_count_le] scan_count_le[of d c] by simp_all
  have len: "length (shorten_scan qsort c d) = length d" if "c + sizeof ScanSamplingChunk \<le> length d" for d
    using l[OF that] that by (simp add: shorten_scan_def Let_def scan_sizes)
  then show "length (shorten_scan qsort c b) = length b" using c .
  have nth: "shorten_scan qsort c d ! x = (if scan_count_at d c \<le> SCAN_CHUNK_DATA_SIZE then d ! x else if x = c + 8 then of_nat SCAN_CHUNK_DATA_SIZE
      else if c + 10 \<le> x \<and> x < c + 10 + 6 * scan_count_at d c then concat (sort_scan qsort (scan_results_at d c (scan_count_at d c))) ! (x - (c + 10)) else d ! x)"
    if d: "c + sizeof ScanSamplingChunk \<le> length d" and x: "x < length d" for d x
  proof -
    have "c + 10 + length (concat (sort_scan qsort (scan_results_at d c (scan_count_at d c)))) \<le> length d" using l[OF d] d by (simp add: scan_sizes)
    note o = nth_overwrite[OF this x] length_overwrite[OF this]
    show ?thesis using l(1)[OF d] d by (simp add: shorten_scan_def Let_def scan_sizes nth_list_update o)
  qed
  show "shorten_scan qsort c b ! x = b ! x" if "x < length b" "x < c \<or> c + 1540 \<le> x" using l(2)[OF c] that(2) by (auto simp: nth[OF c that(1)])
  show "same_scan_bytes c (shorten_scan qsort c b) (shorten_scan qsort c b')" if w: "same_scan_bytes c b b'"
  proof -
    have c': "c + sizeof ScanSamplingChunk \<le> length b'" using w by (simp add: same_scan_bytes_def)
    note same = same_scan_results(1)[OF w] same_scan_results(2)[OF w scan_count_le, of b' c]
    have "shorten_scan qsort c b ! (c + x) = shorten_scan qsort c b' ! (c + x)" if "x < 1540" for x
    proof -
      have "c + x < length b" "c + x < length b'" using w that by (simp_all add: same_scan_bytes_def scan_sizes)
      then show ?thesis using w that unfolding nth[OF c \<open>c + x < length b\<close>] nth[OF c' \<open>c + x < length b'\<close>] same by (simp add: same_scan_bytes_def scan_sizes)
    qed
    then show ?thesis using w len[OF c] len[OF c'] by (simp add: same_scan_bytes_def scan_sizes)
  qed
qed

lemma convert_scan_cong:
  assumes "same_scan_bytes c b b'"
  shows "convert_scan b c sc = convert_scan b' c sc"
proof -
  have ts: "sizeof Timestamp = 8" by code_simp
  have "take 8 (drop c b) = take 8 (drop c b')" using same_scan_take[OF assms, of 0 8] by simp
  moreover have "b ! (c + 8) = b' ! (c + 8)" using assms by (simp add: same_scan_bytes_def scan_sizes)
  moreover have "fold (\<lambda>i sc. overwrite sc (tb_offsetof ScanChunk 2 + i * 6) (scan_results_at b c (i + 1) ! i)) [0..<scan_count_at b c] x
      = fold (\<lambda>i sc. overwrite sc (tb_offsetof ScanChunk 2 + i * 6) (scan_results_at b' c (i + 1) ! i)) [0..<scan_count_at b c] x" for x
    using same_scan_results(2)[OF assms] scan_count_le[of b c] by (intro fold_cong) auto
  ultimately show ?thesis using same_scan_results(1)[OF assms] by (simp add: convert_scan_def Let_def scan_sizes ts)
qed

text \<open>What the handler does with the scan in a slot of the FIFO: it sorts and cuts it, converts it and hands it to the storer.\<close>

definition store_scan :: "qsort_fun \<Rightarrow> 's chunk_storer \<Rightarrow> chunk_fifo \<Rightarrow> nat \<Rightarrow> byte list \<times> 's storer \<Rightarrow> (unit, byte list \<times> 's storer) outcome" where
  "store_scan qsort store f p x =
     (let sc = convert_scan (shorten_scan qsort (chunk_offset f p) (p_chunk_fifo_buf f)) (chunk_offset f p) (fst x)
      in case store (buf_mem sc) 0 (snd x) of (r, st) \<Rightarrow> (r, (sc, st)))"

lemma drain_cong: "(\<And>c st. c \<in> set cs \<Longrightarrow> g c st = h c st) \<Longrightarrow> drain g cs st = drain h cs st"
  by (induction cs arbitrary: st) (auto split: prod.split)

lemma scan_loop_drains:
  assumes q: "c_qsort qsort" and "chk_wf f" and "sizeof ScanSamplingChunk \<le> slot_size f"
  shows "\<exists>again f' sc' st'. scan_loop qsort store f sc st = Some (again, f', sc', st') \<and> chk_wf f'
    \<and> drain (store_scan qsort store f) (chk_slots f) (sc, st) = (again, chk_slots f', (sc', st'))"
  using assms(2,3)
proof (induction "chk_slots f" arbitrary: f sc st)
  case Nil
  then have "chunk_fifo_read_open f = (Inl NRF_ERROR_NOT_FOUND, f)"
    using chk_slots_empty_iff[OF Nil.prems(1)] by (simp add: chunk_fifo_read_open_def)
  then show ?case using Nil by (subst scan_loop.simps) (auto simp: Nil.hyps[symmetric])
next
  case (Cons p ps)
  note wf = Cons.prems(1)
  let ?c = "chunk_offset f p"
  define f1 where "f1 = f\<lparr>chunk_open_read := True, p_chunk_fifo_buf := shorten_scan qsort ?c (p_chunk_fifo_buf f)\<rparr>"
  define sc1 where "sc1 = convert_scan (p_chunk_fifo_buf f1) ?c sc"
  obtain r st1 where r: "store (buf_mem sc1) 0 st = (r, st1)" by fastforce
  note o = read_open_slots[OF wf Cons.hyps(2)[symmetric]]
  have slots: "x \<le> chunk_num f" if "x \<in> set (p # ps)" for x using chk_slots_le[OF wf, of x] Cons.hyps(2)[symmetric] that by auto
  have fit: "chunk_offset f x + sizeof ScanSamplingChunk \<le> length (p_chunk_fifo_buf f)" if "x \<in> set (p # ps)" for x
    using chk_offsets[OF wf slots[OF that]] Cons.prems(2) by simp
  note sh = shorten_scan_nth[OF q fit[of p]]
  have wf1: "chk_wf f1" using wf sh(1) by (simp add: f1_def chk_wf_def slot_size_def)
  have s1: "chk_slots f1 = chk_slots f" "chunk_open_read f1" "slot_size f1 = slot_size f" "chunk_offset f1 = chunk_offset f"
    by (simp_all add: f1_def chk_slots_def chk_count_def slot_size_def chunk_offset_def[abs_def])
  note cl = chk_read_close_eq[OF wf1 s1(2)]
  let ?f2 = "chunk_fifo_read_close f1"
  have sl: "ps = chk_slots ?f2" using cl(1) s1(1) Cons.hyps(2) by (metis list.sel(3))
  have step: "scan_loop qsort store f sc st = (if r = Inl NRF_ERROR_INTERNAL then Some (True, f1, sc1, st1) else scan_loop qsort store ?f2 sc1 st1)"
    using r by (subst scan_loop.simps) (simp add: o Let_def f1_def sc1_def)
  have head: "store_scan qsort store f p (sc, st) = (r, (sc1, st1))" using r by (simp add: store_scan_def Let_def sc1_def f1_def)
  have rest: "drain (store_scan qsort store ?f2) ps x = drain (store_scan qsort store f) ps x" for x
  proof (rule drain_cong)
    fix y z assume y: "y \<in> set ps"
    have "y \<noteq> p" using chk_slots_distinct[OF wf] Cons.hyps(2)[symmetric] y by auto
    have "chunk_offset f y + 1540 \<le> ?c \<or> ?c + 1540 \<le> chunk_offset f y"
    proof -
      have "y * slot_size f + slot_size f \<le> p * slot_size f \<or> p * slot_size f + slot_size f \<le> y * slot_size f"
        using \<open>y \<noteq> p\<close> mult_le_mono1[of "Suc y" p "slot_size f"] mult_le_mono1[of "Suc p" y "slot_size f"] by (cases "y < p") auto
      then show ?thesis using chk_offsets(1)[OF wf slots, of y] chk_offsets(1)[OF wf slots, of p] y Cons.prems(2) by (auto simp: scan_sizes)
    qed
    then have "same_scan_bytes (chunk_offset f y) (p_chunk_fifo_buf f1) (p_chunk_fifo_buf f)"
      using fit[of y] y sh(1,2) by (auto simp: same_scan_bytes_def f1_def scan_sizes)
    from convert_scan_cong[OF shorten_scan_nth(3)[OF q _ this]] this
    show "store_scan qsort store ?f2 y z = store_scan qsort store f y z"
      by (simp add: store_scan_def read_close_offsets s1(4) same_scan_bytes_def)
  qed
  show ?case
  proof (cases "r = Inl NRF_ERROR_INTERNAL")
    case True
    then show ?thesis using step wf1 s1(1) head Cons.hyps(2)[symmetric] by (intro exI[of _ True]) simp
  next
    case False
    obtain again f' sc' st' where i: "scan_loop qsort store ?f2 sc1 st1 = Some (again, f', sc', st')" "chk_wf f'"
      "drain (store_scan qsort store ?f2) ps (sc1, st1) = (again, chk_slots f', (sc', st'))"
      using Cons.hyps(1)[OF sl cl(2), of sc1 st1] Cons.prems(2) s1(3) by (auto simp: read_close_offsets sl[symmetric])
    then show ?thesis using step False head rest Cons.hyps(2)[symmetric] by simp
  qed
qed

text \<open>
  C18: a handler returns, for every contents of its FIFO and every behaviour of the storer: it hands the
  published chunks to the storer in the order they were published, each once, and consumes them; it
  stops early only when the storage is busy, and then the chunk that was not stored and all behind it
  stay in the FIFO.
\<close>

theorem handler_drains_fifo:
  assumes "chk_wf f"
  shows "\<exists>again f' st'. process_loop store f st = Some (again, f', st') \<and> chk_wf f' \<and> p_chunk_fifo_buf f' = p_chunk_fifo_buf f
    \<and> drain (\<lambda>p. store (buf_mem (p_chunk_fifo_buf f)) (int (chunk_offset f p))) (chk_slots f) st = (again, chk_slots f', st')"
  by (rule process_loop_drains[OF assms])

definition sample_fifo :: chunk_fifo where
  "sample_fifo = \<lparr>chunk_num = 2, chunk_size = 1, additional_info_size = 0, p_chunk_fifo_buf = [7, 9, 0],
     chunk_read_pos = 0, chunk_write_pos = 2, chunk_open_read = False, chunk_open_write = False\<rparr>"

definition busy_on_9 :: "'s chunk_storer" where
  "busy_on_9 m a st = (if m a = 9 then Inl NRF_ERROR_INTERNAL else Inr (), st)"

theorem handler_drains_fifo_witness:
  "\<forall>st :: unit storer. \<exists>f'. process_loop busy_on_9 sample_fifo st = Some (True, f', st) \<and> chk_slots f' = [1]"
proof
  fix st :: "unit storer"
  have wf: "chk_wf sample_fifo" by (simp add: sample_fifo_def chk_wf_def slot_size_def)
  have sl: "chk_slots sample_fifo = [0, 1]" by (simp add: sample_fifo_def chk_slots_def chk_count_def upt_rec)
  obtain again f' st' where h: "process_loop busy_on_9 sample_fifo st = Some (again, f', st')"
    "drain (\<lambda>p. busy_on_9 (buf_mem (p_chunk_fifo_buf sample_fifo)) (int (chunk_offset sample_fifo p))) (chk_slots sample_fifo) st = (again, chk_slots f', st')"
    using handler_drains_fifo[OF wf, of busy_on_9 st] by blast
  have "drain (\<lambda>p. busy_on_9 (buf_mem (p_chunk_fifo_buf sample_fifo)) (int (chunk_offset sample_fifo p))) [0, 1] st = (True, [1], st)"
    by (simp add: busy_on_9_def buf_mem_def sample_fifo_def chunk_offset_def u32_mul_def)
  with h sl show "\<exists>f'. process_loop busy_on_9 sample_fifo st = Some (True, f', st) \<and> chk_slots f' = [1]" by auto
qed

text \<open>
  C32: the handler of the scans returns, for every contents of the chunks and every behaviour of the storage: it takes the published scans in order, each
  one sorted and cut to the 29 results of a stored chunk if it has more, converts them and hands them to the storer; a scan is consumed unless
  \<open>storer_store_scan_chunk\<close> reports that the storage is busy, and then this scan and all behind it stay in the FIFO and the handler is scheduled again.
\<close>

theorem scan_handler_returns:
  assumes "c_qsort qsort" and "chk_wf (scan_sampling_chunk_fifo p)" and "sizeof ScanSamplingChunk \<le> slot_size (scan_sampling_chunk_fifo p)"
  shows "\<exists>p' busy. processing_process_scan_sampling_chunk qsort so p = Some p' \<and> chk_wf (scan_sampling_chunk_fifo p')
    \<and> drain (store_scan qsort (storer_store_scan_chunk so) (scan_sampling_chunk_fifo p)) (chk_slots (scan_sampling_chunk_fifo p)) (scan_chunk p, pstorer p)
        = (busy, chk_slots (scan_sampling_chunk_fifo p'), (scan_chunk p', pstorer p'))
    \<and> sched_events p' = (if busy then PROCESS_SCAN # sched_events p else sched_events p)"
proof -
  obtain again f' sc' st' where "scan_loop qsort (storer_store_scan_chunk so) (scan_sampling_chunk_fifo p) (scan_chunk p) (pstorer p)
      = Some (again, f', sc', st')" "chk_wf f'"
    "drain (store_scan qsort (storer_store_scan_chunk so) (scan_sampling_chunk_fifo p)) (chk_slots (scan_sampling_chunk_fifo p)) (scan_chunk p, pstorer p)
       = (again, chk_slots f', (sc', st'))"
    using scan_loop_drains[OF assms] by blast
  then show ?thesis by (simp add: processing_process_scan_sampling_chunk_def reschedule_def app_sched_event_put_def)
qed

definition scan_fifo :: chunk_fifo where
  "scan_fifo = \<lparr>chunk_num = 1, chunk_size = 1540, additional_info_size = 0, p_chunk_fifo_buf = replicate 3080 30,
     chunk_read_pos = 0, chunk_write_pos = 1, chunk_open_read = False, chunk_open_write = False\<rparr>"

theorem scan_handler_returns_witness:
  "\<forall>so (p :: unit processing). \<exists>p' busy. processing_process_scan_sampling_chunk insertion_qsort so (p\<lparr>scan_sampling_chunk_fifo := scan_fifo\<rparr>) = Some p'
     \<and> chk_slots (scan_sampling_chunk_fifo p') = (if busy then [0] else []) \<and> sched_events p' = (if busy then PROCESS_SCAN # sched_events p else sched_events p)"
proof (intro allI)
  fix so and p :: "unit processing"
  let ?p = "p\<lparr>scan_sampling_chunk_fifo := scan_fifo\<rparr>"
  have wf: "chk_wf (scan_sampling_chunk_fifo ?p)" "sizeof ScanSamplingChunk \<le> slot_size (scan_sampling_chunk_fifo ?p)"
    by (simp_all add: scan_fifo_def chk_wf_def slot_size_def scan_layout)
  have slots: "chk_slots scan_fifo = [0]" by (simp add: scan_fifo_def chk_slots_def chk_count_def mod_Suc)
  obtain p' busy where p': "processing_process_scan_sampling_chunk insertion_qsort so ?p = Some p'" "sched_events p' = (if busy then PROCESS_SCAN # sched_events p else sched_events p)"
    and d: "drain (store_scan insertion_qsort (storer_store_scan_chunk so) scan_fifo) [0] (scan_chunk p, pstorer p)
        = (busy, chk_slots (scan_sampling_chunk_fifo p'), (scan_chunk p', pstorer p'))"
    using scan_handler_returns[OF insertion.c_qsort_axioms wf, of so] by (auto simp: slots simp del: drain.simps cong: if_cong)
  have "chk_slots (scan_sampling_chunk_fifo p') = (if busy then [0] else [])" using d by (auto split: prod.splits if_splits)
  with p' show "\<exists>p' busy. processing_process_scan_sampling_chunk insertion_qsort so ?p = Some p'
     \<and> chk_slots (scan_sampling_chunk_fifo p') = (if busy then [0] else []) \<and> sched_events p' = (if busy then PROCESS_SCAN # sched_events p else sched_events p)"
    by blast
qed

text \<open>
  C19: the sort of a scan loses no result and puts the beacons that are kept in front: the first
  entries, up to four, are beacons, the strongest ones of the scan, the strongest first; and with no
  more than four beacons all other devices follow, the strongest first.
\<close>

theorem sort_scan_prioritises_beacons:
  assumes "c_qsort qsort" and "p = min SCAN_PRIORITIZED_BEACONS (length (filter is_beacon xs))"
  shows "mset (sort_scan qsort xs) = mset xs \<and> stronger_first (take p (sort_scan qsort xs))
    \<and> (\<forall>r \<in> set (take p (sort_scan qsort xs)). is_beacon r
         \<and> (\<forall>s \<in> set (drop p (sort_scan qsort xs)). is_beacon s \<longrightarrow> scan_device_rssi s \<le> scan_device_rssi r))
    \<and> (length (filter is_beacon xs) \<le> SCAN_PRIORITIZED_BEACONS \<longrightarrow> stronger_first (drop p (sort_scan qsort xs)))"
  using c_qsort.sort_scan_front[OF assms(1), where xs = xs] assms(2) unfolding SCAN_PRIORITIZED_BEACONS_def by blast

definition beacon_device :: scan_result where "beacon_device = [0x80, 0x3E, 0xA6, 0, 1, 0]"
definition badge_device :: scan_result where "badge_device = [1, 0, 0xD8, 0, 1, 0]"

lemma devices: "is_beacon beacon_device" "\<not> is_beacon badge_device" "scan_device_rssi beacon_device = - 90" "scan_device_rssi badge_device = - 40"
  by (simp_all add: beacon_device_def badge_device_def is_beacon_def scan_device_ID_def scan_device_rssi_def SCAN_BEACON_ID_THRESHOLD_def)

theorem sort_scan_prioritises_beacons_witness:
  "hd (sort_scan insertion_qsort [badge_device, beacon_device]) = beacon_device \<and> stronger_first (drop 1 (sort_scan insertion_qsort [badge_device, beacon_device]))"
proof -
  let ?s = "sort_scan insertion_qsort [badge_device, beacon_device]"
  have "mset ?s = mset [badge_device, beacon_device] \<and> stronger_first (take 1 ?s) \<and> (\<forall>r \<in> set (take 1 ?s). is_beacon r
      \<and> (\<forall>s \<in> set (drop 1 ?s). is_beacon s \<longrightarrow> scan_device_rssi s \<le> scan_device_rssi r))
    \<and> (length (filter is_beacon [badge_device, beacon_device]) \<le> SCAN_PRIORITIZED_BEACONS \<longrightarrow> stronger_first (drop 1 ?s))"
    by (rule sort_scan_prioritises_beacons[OF insertion.c_qsort_axioms]) (simp add: devices SCAN_PRIORITIZED_BEACONS_def)
  then have m: "mset ?s = mset [badge_device, beacon_device]" and b: "\<forall>r \<in> set (take 1 ?s). is_beacon r" and "stronger_first (drop 1 ?s)"
    by (simp_all add: devices SCAN_PRIORITIZED_BEACONS_def)
  moreover obtain x y where "?s = [x, y]" using mset_eq_length[OF m] by (auto simp: length_Suc_conv numeral_2_eq_2)
  ultimately show ?thesis using mset_eq_setD[OF m] devices(2) by auto
qed

text \<open>
  C37: the documented order does not come about in every scan with more than four beacons and at least one badge in which some beacon is weaker than all
  badges, whatever \<open>qsort\<close> does with equal elements: the devices behind the prioritised beacons, which are to be sorted by strength, are not, since the last
  sort leaves out as many devices at the end as there are beacons that are not prioritised.
\<close>

theorem sort_scan_misses_badges:
  assumes q: "c_qsort qsort" and nb: "SCAN_PRIORITIZED_BEACONS < length (filter is_beacon xs)"
    and badge: "\<exists>r \<in> set xs. \<not> is_beacon r" and weak: "w \<in> set xs" "is_beacon w" "\<forall>r \<in> set xs. \<not> is_beacon r \<longrightarrow> scan_device_rssi w < scan_device_rssi r"
  shows "\<not> stronger_first (drop SCAN_PRIORITIZED_BEACONS (sort_scan qsort xs))"
proof
  assume s: "stronger_first (drop SCAN_PRIORITIZED_BEACONS (sort_scan qsort xs))"
  let ?nb = "length (filter is_beacon xs)" and ?m = "length xs - length (filter is_beacon xs)"
  have p: "min 4 ?nb = 4" "4 < ?nb" using nb by (simp_all add: SCAN_PRIORITIZED_BEACONS_def)
  obtain bs cs where b: "mset (bs @ cs) = mset xs" "length bs = ?nb" "\<forall>b\<in>set bs. is_beacon b" "\<forall>c\<in>set cs. \<not> is_beacon c" "stronger_first bs"
    and e: "sort_scan qsort xs = take 4 bs @ qsort compare_by_RSSI (take ?m (drop 4 bs @ cs)) @ drop (4 + ?m) (bs @ cs)"
    by (rule c_qsort.sort_scan_parts[OF q, of xs, unfolded p(1)])
  have el: "set bs \<union> set cs = set xs" using mset_eq_setD[OF b(1)] by simp
  have "cs \<noteq> []" using badge b(3) el by fastforce
  then obtain cs' c where c: "cs = cs' @ [c]" by (metis rev_exhaust)
  have lb: "bs \<noteq> []" "drop 4 bs \<noteq> []" using b(2) p(2) by auto
  have weakest: "scan_device_rssi (last bs) \<le> scan_device_rssi w"
  proof -
    have "w \<in> set bs" using weak(1,2) el b(4) by blast
    moreover obtain bs' x where bs': "bs = bs' @ [x]" using lb(1) by (metis rev_exhaust)
    ultimately show ?thesis using b(5) by (auto simp: bs' stronger_first_def sorted_wrt_append)
  qed
  let ?X = "drop 4 bs @ cs'"
  have lm: "?m \<le> length ?X" using mset_eq_length[OF b(1)] b(2) p(2) c by simp
  have "drop 4 (bs @ cs) = ?X @ [c]" using p(2) b(2) c by simp
  then have "drop (4 + ?m) (bs @ cs) = drop ?m (?X @ [c])" by (metis add.commute drop_drop)
  then have "drop 4 (sort_scan qsort xs) = (qsort compare_by_RSSI (take ?m ?X) @ drop ?m ?X) @ [c]"
    unfolding e using p(2) b(2) lm c by simp
  moreover have "last bs \<in> set (qsort compare_by_RSSI (take ?m ?X) @ drop ?m ?X)"
  proof -
    have "last bs \<in> set ?X" using lb last_drop[of 4 bs] last_in_set[OF lb(2)] b(2) p(2) by simp
    also have "set ?X = set (take ?m ?X) \<union> set (drop ?m ?X)" by (metis append_take_drop_id set_append)
    finally show ?thesis using c_qsort.qsort_set[OF q] by simp
  qed
  ultimately have "scan_device_rssi c \<le> scan_device_rssi (last bs)"
    using s unfolding SCAN_PRIORITIZED_BEACONS_def stronger_first_def by (simp only: sorted_wrt_append) auto
  moreover have "c \<in> set xs" "\<not> is_beacon c" using el c b(4) by auto
  ultimately show False using weak(3) weakest by fastforce
qed

theorem sort_scan_misses_badges_witness:
  "\<not> stronger_first (drop SCAN_PRIORITIZED_BEACONS (sort_scan insertion_qsort (replicate 5 beacon_device @ replicate 25 badge_device)))"
  by (rule sort_scan_misses_badges[OF insertion.c_qsort_axioms, where w = beacon_device]) (auto simp: devices SCAN_PRIORITIZED_BEACONS_def)

end
