(* ===== verification/Timeout.thy ===== *)
theory Timeout
  imports OB_Prelude
begin

text \<open>
  The software timeouts of \<^verbatim>\<open>incl/timeout_lib.c\<close>: up to twenty countdowns share one timer of the
  SDK.  The clock, the timer and the world the handlers act on are the environment of the module;
  the functions of the environment are parameters.
\<close>

section \<open>State\<close>

definition MAX_NUMBER_OF_TIMEOUTS :: nat where "MAX_NUMBER_OF_TIMEOUTS = 20"
definition MAX_MILLIS_PER_TIMEOUT_TIMER :: nat where "MAX_MILLIS_PER_TIMEOUT_TIMER = 100 * 1000"
definition UINT32_MAX :: nat where "UINT32_MAX = 4294967295"

record 'h timeout =
  remaining_ms :: nat
  timeout_ms :: nat
  active :: bool
  timeout_handler :: "'h option"

record ('h, 'e) timeouts =
  registered_timeouts :: "'h timeout list"
  number_of_registered_timeouts :: nat
  timeout_timer_running :: bool
  timeout_timer_start_ms :: nat
  env :: 'e

text \<open>
  The environment: \<open>systick_get_continuous_millis\<close>, \<open>app_timer_create\<close>, \<open>app_timer_start\<close> (with the
  interval in milliseconds), \<open>app_timer_stop\<close>, and the call of a handler, which may call the
  functions of this module.
\<close>

record ('h, 'e) timeout_env =
  get_millis :: "'e \<Rightarrow> nat \<times> 'e"
  timer_create :: "'e \<Rightarrow> ret_code \<times> 'e"
  timer_start :: "nat \<Rightarrow> 'e \<Rightarrow> ret_code \<times> 'e"
  timer_stop :: "'e \<Rightarrow> 'e"
  call_handler :: "'h \<Rightarrow> ('h, 'e) timeouts \<Rightarrow> ('h, 'e) timeouts"

definition on_env :: "('e \<Rightarrow> 'a \<times> 'e) \<Rightarrow> ('h, 'e) timeouts \<Rightarrow> 'a \<times> ('h, 'e) timeouts" where
  "on_env g s = (case g (env s) of (x, e) \<Rightarrow> (x, s\<lparr>env := e\<rparr>))"

definition upd_timeout :: "nat \<Rightarrow> ('h timeout \<Rightarrow> 'h timeout) \<Rightarrow> ('h, 'e) timeouts \<Rightarrow> ('h, 'e) timeouts" where
  "upd_timeout i g s = s\<lparr>registered_timeouts := (registered_timeouts s)[i := g (registered_timeouts s ! i)]\<rparr>"

section \<open>Operations\<close>

definition timeout_init :: "('h, 'e) timeout_env \<Rightarrow> ('h, 'e) timeouts \<Rightarrow> ret_code \<times> ('h, 'e) timeouts" where
  "timeout_init E s = on_env (timer_create E) (s\<lparr>number_of_registered_timeouts := 0, timeout_timer_running := False\<rparr>)"

definition timeout_register :: "'h option \<Rightarrow> ('h, 'e) timeouts \<Rightarrow> (ret_code + nat) \<times> ('h, 'e) timeouts" where
  "timeout_register handler s =
     (if number_of_registered_timeouts s \<ge> MAX_NUMBER_OF_TIMEOUTS then (Inl NRF_ERROR_NO_MEM, s)
      else let timeout_id = number_of_registered_timeouts s in
        (Inr timeout_id,
         (upd_timeout timeout_id (\<lambda>_. \<lparr>remaining_ms = 0, timeout_ms = 0, active = False, timeout_handler = handler\<rparr>) s)
           \<lparr>number_of_registered_timeouts := number_of_registered_timeouts s + 1\<rparr>))"

fun minimal_loop :: "'h timeout list \<Rightarrow> nat \<Rightarrow> nat" where
  "minimal_loop [] minimal = minimal"
| "minimal_loop (t # ts) minimal =
     minimal_loop ts (if active t \<and> remaining_ms t < minimal then remaining_ms t else minimal)"

definition get_minimal_remaining_ms :: "('h, 'e) timeouts \<Rightarrow> nat" where
  "get_minimal_remaining_ms s =
     (let minimal = minimal_loop (take (number_of_registered_timeouts s) (registered_timeouts s)) UINT32_MAX in
      if minimal = UINT32_MAX then UINT32_MAX
      else let minimal = (if minimal > MAX_MILLIS_PER_TIMEOUT_TIMER then MAX_MILLIS_PER_TIMEOUT_TIMER else minimal)
           in if minimal < 2 then 2 else minimal)"

text \<open>
  The body and the loop from index \<open>i\<close> on.  The bound of the loop is read again in every round, as a
  handler may register timeouts; there are never more than twenty, so that a fuel of twenty-one rounds is
  not used up.
\<close>

definition adapt_one :: "('h, 'e) timeout_env \<Rightarrow> nat \<Rightarrow> nat \<Rightarrow> ('h, 'e) timeouts \<Rightarrow> ('h, 'e) timeouts" where
  "adapt_one E delta i s =
     (let t = registered_timeouts s ! i in
      if active t then
        if remaining_ms t < delta then
          let s = (case timeout_handler t of None \<Rightarrow> s | Some h \<Rightarrow> call_handler E h s)
          in upd_timeout i (active_update (\<lambda>_. False)) s
        else upd_timeout i (\<lambda>t. t\<lparr>remaining_ms := remaining_ms t - delta\<rparr>) s
      else s)"

fun adapt_loop :: "('h, 'e) timeout_env \<Rightarrow> nat \<Rightarrow> nat \<Rightarrow> nat \<Rightarrow> ('h, 'e) timeouts \<Rightarrow> ('h, 'e) timeouts" where
  "adapt_loop E delta i 0 s = s"
| "adapt_loop E delta i (Suc fuel) s =
     (if i < number_of_registered_timeouts s then adapt_loop E delta (i + 1) fuel (adapt_one E delta i s) else s)"

definition adapt_remaining_ms :: "('h, 'e) timeout_env \<Rightarrow> ('h, 'e) timeouts \<Rightarrow> ('h, 'e) timeouts" where
  "adapt_remaining_ms E s =
     (case on_env (get_millis E) s of (now, s) \<Rightarrow>
      adapt_loop E (u32 (u64_sub now (timeout_timer_start_ms s))) 0 (MAX_NUMBER_OF_TIMEOUTS + 1) s)"

text \<open>Starting the timer for the next expiry, at the end of two functions.\<close>

definition arm_timer :: "('h, 'e) timeout_env \<Rightarrow> nat \<Rightarrow> ('h, 'e) timeouts \<Rightarrow> ret_code \<times> ('h, 'e) timeouts" where
  "arm_timer E minimal s =
     (let s = s\<lparr>timeout_timer_running := True\<rparr> in
      case on_env (get_millis E) s of (now, s) \<Rightarrow>
      on_env (timer_start E minimal) (s\<lparr>timeout_timer_start_ms := now\<rparr>))"

definition timeout_timer_callback :: "('h, 'e) timeout_env \<Rightarrow> ('h, 'e) timeouts \<Rightarrow> ('h, 'e) timeouts" where
  "timeout_timer_callback E s =
     (let s = adapt_remaining_ms E (s\<lparr>timeout_timer_running := False\<rparr>);
          minimal = get_minimal_remaining_ms s
      in if minimal < UINT32_MAX then snd (arm_timer E minimal s) else s)"

definition timeout_start :: "('h, 'e) timeout_env \<Rightarrow> nat \<Rightarrow> nat \<Rightarrow> ('h, 'e) timeouts \<Rightarrow> ret_code \<times> ('h, 'e) timeouts" where
  "timeout_start E timeout_id ms s =
     (if timeout_id \<ge> number_of_registered_timeouts s then (NRF_ERROR_INVALID_PARAM, s)
      else if ms = 0 then (NRF_SUCCESS, upd_timeout timeout_id (active_update (\<lambda>_. False)) s)
      else
        let s = (if timeout_timer_running s
                 then (adapt_remaining_ms E (s\<lparr>env := timer_stop E (env s)\<rparr>))\<lparr>timeout_timer_running := False\<rparr> else s);
            s = upd_timeout timeout_id (\<lambda>t. t\<lparr>timeout_ms := ms, remaining_ms := ms, active := True\<rparr>) s;
            minimal = get_minimal_remaining_ms s
        in if minimal < UINT32_MAX then arm_timer E minimal s else (NRF_SUCCESS, s))"

definition timeout_stop :: "('h, 'e) timeout_env \<Rightarrow> nat \<Rightarrow> ('h, 'e) timeouts \<Rightarrow> ('h, 'e) timeouts" where
  "timeout_stop E timeout_id s =
     (if timeout_id \<ge> number_of_registered_timeouts s then s
      else
        let s = upd_timeout timeout_id (active_update (\<lambda>_. False)) s;
            found_active = list_ex active (take (number_of_registered_timeouts s) (registered_timeouts s))
        in if \<not> found_active then s\<lparr>timeout_timer_running := False, env := timer_stop E (env s)\<rparr> else s)"

definition timeout_reset :: "('h, 'e) timeout_env \<Rightarrow> nat \<Rightarrow> ('h, 'e) timeouts \<Rightarrow> ('h, 'e) timeouts" where
  "timeout_reset E timeout_id s =
     (if active (registered_timeouts s ! timeout_id)
      then snd (timeout_start E timeout_id (timeout_ms (registered_timeouts s ! timeout_id)) s) else s)"

section \<open>The world of the timeouts\<close>

lemma u64_sub_le: "b \<le> a \<Longrightarrow> u32 (u64_sub a b) \<le> a - b"
  using mod_less_eq_dividend[of "a - b" "2 ^ 64"] mod_less_eq_dividend[of "(a - b) mod 2 ^ 64" "2 ^ 32"]
  by (simp add: u32_def u64_sub_mod)

text \<open>What a handler may do with the timeouts: stop some of them.\<close>

definition only_stopped :: "('h, 'e) timeouts \<Rightarrow> ('h, 'e) timeouts \<Rightarrow> bool" where
  "only_stopped s s' \<longleftrightarrow> number_of_registered_timeouts s' = number_of_registered_timeouts s
     \<and> timeout_timer_start_ms s' = timeout_timer_start_ms s \<and> (timeout_timer_running s' \<longrightarrow> timeout_timer_running s)
     \<and> length (registered_timeouts s') = length (registered_timeouts s)
     \<and> (\<forall>i < length (registered_timeouts s). timeout_ms (registered_timeouts s' ! i) = timeout_ms (registered_timeouts s ! i)
         \<and> timeout_handler (registered_timeouts s' ! i) = timeout_handler (registered_timeouts s ! i)
         \<and> remaining_ms (registered_timeouts s' ! i) = remaining_ms (registered_timeouts s ! i)
         \<and> (active (registered_timeouts s' ! i) \<longrightarrow> active (registered_timeouts s ! i)))"

lemma only_stopped_refl [simp]: "only_stopped s s"
  by (simp add: only_stopped_def)

lemma only_stopped_env [simp]: "only_stopped s (s\<lparr>env := e\<rparr>)" "only_stopped s (s\<lparr>timeout_timer_running := False\<rparr>)"
  by (simp_all add: only_stopped_def)

lemma only_stopped_trans: "only_stopped s t \<Longrightarrow> only_stopped t u \<Longrightarrow> only_stopped s u"
  by (simp add: only_stopped_def)

lemma only_stopped_deactivate [simp]: "only_stopped s (upd_timeout i (active_update (\<lambda>_. False)) s)"
  by (cases "i < length (registered_timeouts s)") (auto simp: only_stopped_def upd_timeout_def nth_list_update)

lemma timeout_stop_only: "only_stopped s (timeout_stop E i s)"
proof -
  let ?u = "upd_timeout i (active_update (\<lambda>_. False)) s"
  have "only_stopped s ?u" by simp
  moreover have "only_stopped ?u (?u\<lparr>timeout_timer_running := False, env := timer_stop E (env ?u)\<rparr>)" by (simp add: only_stopped_def)
  ultimately show ?thesis unfolding timeout_stop_def Let_def by (auto intro: only_stopped_trans simp del: only_stopped_deactivate)
qed

text \<open>
  A world whose clock never runs backwards and whose handlers only stop timeouts.  \<open>calls\<close> are the calls of handlers so far, each with its time.
\<close>

locale timeout_world =
  fixes E :: "('h, 'e) timeout_env"
    and time_of :: "'e \<Rightarrow> nat"
    and calls :: "'e \<Rightarrow> (nat \<times> 'h) list"
  assumes millis_law: "get_millis E e = (t, e') \<Longrightarrow> time_of e \<le> t \<and> t \<le> time_of e'" "get_millis E e = (t, e') \<Longrightarrow> calls e' = calls e"
    and create_law: "timer_create E e = (r, e') \<Longrightarrow> time_of e \<le> time_of e'" "timer_create E e = (r, e') \<Longrightarrow> calls e' = calls e"
    and start_law: "timer_start E ms e = (r, e') \<Longrightarrow> time_of e \<le> time_of e'" "timer_start E ms e = (r, e') \<Longrightarrow> calls e' = calls e"
    and stop_law: "time_of e \<le> time_of (timer_stop E e)" "calls (timer_stop E e) = calls e"
    and handler_law: "only_stopped s (call_handler E h s) \<and> time_of (env s) \<le> time_of (env (call_handler E h s))"
      "calls (env (call_handler E h s)) = calls (env s) @ [(time_of (env s), h)]"

text \<open>
  Runs of the module: calls of its functions, expiries of a running timer, and time that passes.
  \<open>started i\<close> is the time of the latest call that started timeout \<open>i\<close>.
\<close>

inductive timeout_run :: "('h, 'e) timeout_env \<Rightarrow> ('e \<Rightarrow> nat) \<Rightarrow> ('h, 'e) timeouts \<Rightarrow> (nat \<Rightarrow> nat) \<Rightarrow> bool"
  for E :: "('h, 'e) timeout_env" and time_of where
  run_init: "length (registered_timeouts s0) = MAX_NUMBER_OF_TIMEOUTS \<Longrightarrow> timeout_timer_start_ms s0 \<le> time_of (env s0) \<Longrightarrow>
    timeout_init E s0 = (r, s) \<Longrightarrow> timeout_run E time_of s started"
| run_register: "timeout_run E time_of s started \<Longrightarrow> timeout_run E time_of (snd (timeout_register h s)) started"
| run_start: "timeout_run E time_of s started \<Longrightarrow> timeout_run E time_of (snd (timeout_start E i ms s)) (started(i := time_of (env s)))"
| run_stop: "timeout_run E time_of s started \<Longrightarrow> timeout_run E time_of (timeout_stop E i s) started"
| run_reset: "timeout_run E time_of s started \<Longrightarrow> i < number_of_registered_timeouts s \<Longrightarrow>
    timeout_run E time_of (timeout_reset E i s) (if active (registered_timeouts s ! i) then started(i := time_of (env s)) else started)"
| run_callback: "timeout_run E time_of s started \<Longrightarrow> timeout_timer_running s \<Longrightarrow> timeout_run E time_of (timeout_timer_callback E s) started"
| run_wait: "timeout_run E time_of s started \<Longrightarrow> time_of (env s) \<le> time_of e \<Longrightarrow> timeout_run E time_of (s\<lparr>env := e\<rparr>) started"

text \<open>No timeout counts down faster than the clock.\<close>

definition counts_from :: "nat \<Rightarrow> (nat \<Rightarrow> nat) \<Rightarrow> ('h, 'e) timeouts \<Rightarrow> nat set \<Rightarrow> bool" where
  "counts_from base started s I \<longleftrightarrow> (\<forall>i \<in> I. i < number_of_registered_timeouts s \<longrightarrow> active (registered_timeouts s ! i) \<longrightarrow>
     started i + timeout_ms (registered_timeouts s ! i) \<le> base + remaining_ms (registered_timeouts s ! i))"

definition timeouts_wf :: "('h, 'e) timeouts \<Rightarrow> bool" where
  "timeouts_wf s \<longleftrightarrow> length (registered_timeouts s) = MAX_NUMBER_OF_TIMEOUTS \<and> number_of_registered_timeouts s \<le> MAX_NUMBER_OF_TIMEOUTS"

lemma counts_stopped: "only_stopped s s' \<Longrightarrow> timeouts_wf s \<Longrightarrow> counts_from b started s I \<Longrightarrow> counts_from b started s' I"
  by (auto simp: counts_from_def only_stopped_def timeouts_wf_def)

lemma counts_mono: "counts_from b started s I \<Longrightarrow> b \<le> c \<Longrightarrow> counts_from c started s I"
  by (fastforce simp: counts_from_def)

lemma wf_stopped: "only_stopped s s' \<Longrightarrow> timeouts_wf s \<Longrightarrow> timeouts_wf s'"
  by (simp add: only_stopped_def timeouts_wf_def)

lemma counts_Un: "counts_from b started s (I \<union> J) \<longleftrightarrow> counts_from b started s I \<and> counts_from b started s J"
  by (auto simp: counts_from_def)

context timeout_world
begin

lemma adapt_one_counts:
  assumes wf: "timeouts_wf s" and i: "i < number_of_registered_timeouts s"
    and past: "counts_from now started s {..<i}" and todo: "counts_from start started s {i..}" and le: "start \<le> now" "delta \<le> now - start"
  shows "counts_from now started (adapt_one E delta i s) {..<Suc i} \<and> counts_from start started (adapt_one E delta i s) {Suc i..}
    \<and> timeouts_wf (adapt_one E delta i s) \<and> number_of_registered_timeouts (adapt_one E delta i s) = number_of_registered_timeouts s
    \<and> timeout_timer_start_ms (adapt_one E delta i s) = timeout_timer_start_ms s
    \<and> (timeout_timer_running (adapt_one E delta i s) \<longrightarrow> timeout_timer_running s) \<and> time_of (env s) \<le> time_of (env (adapt_one E delta i s))"
proof -
  let ?t = "registered_timeouts s ! i"
  have il: "i < length (registered_timeouts s)" using wf i by (simp add: timeouts_wf_def)
  consider (off) "\<not> active ?t" | (fire) "active ?t" "remaining_ms ?t < delta" | (count) "active ?t" "delta \<le> remaining_ms ?t" by linarith
  then show ?thesis
  proof cases
    case off
    then show ?thesis using assms by (auto simp: adapt_one_def counts_from_def less_Suc_eq)
  next
    case fire
    let ?s1 = "case timeout_handler ?t of None \<Rightarrow> s | Some h \<Rightarrow> call_handler E h s"
    have h: "only_stopped s ?s1 \<and> time_of (env s) \<le> time_of (env ?s1)" using handler_law(1) by (cases "timeout_handler ?t") auto
    let ?s2 = "upd_timeout i (active_update (\<lambda>_. False)) ?s1"
    have e: "adapt_one E delta i s = ?s2" using fire by (simp add: adapt_one_def Let_def)
    have os: "only_stopped s ?s2" using only_stopped_trans[OF h[THEN conjunct1] only_stopped_deactivate] .
    have "\<not> active (registered_timeouts ?s2 ! i)" using h il by (simp add: upd_timeout_def only_stopped_def)
    moreover have "counts_from now started ?s2 {..<i}" "counts_from start started ?s2 {i..}"
      using counts_stopped[OF os wf] past todo by blast+
    moreover have "env ?s2 = env ?s1" by (simp add: upd_timeout_def)
    ultimately show ?thesis unfolding e using wf_stopped[OF os wf] os h
      by (auto simp: counts_from_def less_Suc_eq only_stopped_def)
  next
    case count
    let ?s2 = "upd_timeout i (\<lambda>t. t\<lparr>remaining_ms := remaining_ms t - delta\<rparr>) s"
    have e: "adapt_one E delta i s = ?s2" using count by (simp add: adapt_one_def Let_def)
    have "started i + timeout_ms ?t \<le> start + remaining_ms ?t" using todo i count(1) by (simp add: counts_from_def)
    then have "started i + timeout_ms ?t \<le> now + (remaining_ms ?t - delta)" using le count(2) by linarith
    then show ?thesis unfolding e using wf past todo il
      by (auto simp: counts_from_def upd_timeout_def nth_list_update less_Suc_eq timeouts_wf_def)
  qed
qed

lemma adapt_loop_counts:
  assumes "timeouts_wf s" "counts_from now started s {..<i}" "counts_from start started s {i..}" "start \<le> now" "delta \<le> now - start"
    "number_of_registered_timeouts s \<le> i + fuel"
  shows "counts_from now started (adapt_loop E delta i fuel s) UNIV \<and> timeouts_wf (adapt_loop E delta i fuel s)
    \<and> number_of_registered_timeouts (adapt_loop E delta i fuel s) = number_of_registered_timeouts s
    \<and> timeout_timer_start_ms (adapt_loop E delta i fuel s) = timeout_timer_start_ms s
    \<and> (timeout_timer_running (adapt_loop E delta i fuel s) \<longrightarrow> timeout_timer_running s)
    \<and> time_of (env s) \<le> time_of (env (adapt_loop E delta i fuel s))"
  using assms
proof (induction fuel arbitrary: i s)
  case (Suc fuel)
  show ?case
  proof (cases "i < number_of_registered_timeouts s")
    case True
    note o = adapt_one_counts[OF Suc.prems(1) True Suc.prems(2-5)]
    from Suc.IH[of "adapt_one E delta i s" "Suc i"] o Suc.prems(4-6) show ?thesis using True by auto
  next
    case False
    then show ?thesis using Suc.prems by (auto simp: counts_from_def)
  qed
qed (auto simp: counts_from_def)

lemma adapt_counts:
  assumes "timeouts_wf s" "counts_from (timeout_timer_start_ms s) started s UNIV" "timeout_timer_start_ms s \<le> time_of (env s)"
  shows "counts_from (time_of (env (adapt_remaining_ms E s))) started (adapt_remaining_ms E s) UNIV \<and> timeouts_wf (adapt_remaining_ms E s)
    \<and> number_of_registered_timeouts (adapt_remaining_ms E s) = number_of_registered_timeouts s
    \<and> timeout_timer_start_ms (adapt_remaining_ms E s) = timeout_timer_start_ms s
    \<and> (timeout_timer_running (adapt_remaining_ms E s) \<longrightarrow> timeout_timer_running s)
    \<and> time_of (env s) \<le> time_of (env (adapt_remaining_ms E s))"
proof -
  obtain now e where m: "get_millis E (env s) = (now, e)" by fastforce
  let ?s = "s\<lparr>env := e\<rparr>" and ?d = "u32 (u64_sub now (timeout_timer_start_ms s))"
  have t: "time_of (env s) \<le> now" "now \<le> time_of e" using millis_law(1)[OF m] by auto
  have eq: "adapt_remaining_ms E s = adapt_loop E ?d 0 (MAX_NUMBER_OF_TIMEOUTS + 1) ?s"
    by (simp add: adapt_remaining_ms_def on_env_def m)
  have wf: "timeouts_wf ?s" and n: "number_of_registered_timeouts ?s \<le> 0 + (MAX_NUMBER_OF_TIMEOUTS + 1)"
    using assms(1) by (simp_all add: timeouts_wf_def)
  have c: "counts_from now started ?s {..<0}" "counts_from (timeout_timer_start_ms s) started ?s {0..}"
    using assms(2) by (simp_all add: counts_from_def)
  have le: "timeout_timer_start_ms s \<le> now" using t assms(3) by simp
  have d: "?d \<le> now - timeout_timer_start_ms s" by (rule u64_sub_le[OF le])
  note l = adapt_loop_counts[OF wf c le d n]
  let ?L = "adapt_loop E ?d 0 (MAX_NUMBER_OF_TIMEOUTS + 1) ?s"
  have tl: "time_of e \<le> time_of (env ?L)" using l by simp
  have "counts_from (time_of (env ?L)) started ?L UNIV" by (rule counts_mono[OF l[THEN conjunct1]]) (use t tl in linarith)
  moreover have "time_of (env s) \<le> time_of (env ?L)" using t tl by linarith
  ultimately show ?thesis unfolding eq using l by simp
qed

text \<open>The invariant of the runs.\<close>

definition on_time :: "('h, 'e) timeouts \<Rightarrow> (nat \<Rightarrow> nat) \<Rightarrow> bool" where
  "on_time s started \<longleftrightarrow> timeouts_wf s \<and> timeout_timer_start_ms s \<le> time_of (env s)
     \<and> counts_from (if timeout_timer_running s then timeout_timer_start_ms s else time_of (env s)) started s UNIV
     \<and> (\<forall>i < number_of_registered_timeouts s. active (registered_timeouts s ! i) \<longrightarrow>
          remaining_ms (registered_timeouts s ! i) < UINT32_MAX \<longrightarrow> timeout_timer_running s)"

end

lemma minimal_loop_less: "minimal_loop ts m < k \<longleftrightarrow> m < k \<or> (\<exists>t \<in> set ts. active t \<and> remaining_ms t < k)"
  by (induction ts arbitrary: m) auto

lemma minimal_less:
  "get_minimal_remaining_ms s < UINT32_MAX \<longleftrightarrow>
     (\<exists>t \<in> set (take (number_of_registered_timeouts s) (registered_timeouts s)). active t \<and> remaining_ms t < UINT32_MAX)"
proof -
  let ?m = "minimal_loop (take (number_of_registered_timeouts s) (registered_timeouts s)) UINT32_MAX"
  have "?m < UINT32_MAX \<longleftrightarrow> (\<exists>t \<in> set (take (number_of_registered_timeouts s) (registered_timeouts s)). active t \<and> remaining_ms t < UINT32_MAX)"
    by (simp add: minimal_loop_less)
  moreover have "?m \<le> UINT32_MAX"
    using minimal_loop_less[of "take (number_of_registered_timeouts s) (registered_timeouts s)" UINT32_MAX "UINT32_MAX + 1"] by simp
  ultimately show ?thesis
    by (auto simp: get_minimal_remaining_ms_def Let_def UINT32_MAX_def MAX_MILLIS_PER_TIMEOUT_TIMER_def)
qed

lemma minimal_wf:
  "timeouts_wf s \<Longrightarrow> get_minimal_remaining_ms s < UINT32_MAX \<longleftrightarrow>
     (\<exists>i < number_of_registered_timeouts s. active (registered_timeouts s ! i) \<and> remaining_ms (registered_timeouts s ! i) < UINT32_MAX)"
  unfolding minimal_less timeouts_wf_def by (simp flip: nth_image add: Bex_def)

context timeout_world
begin

lemma arm_on_time:
  assumes "timeouts_wf s" "counts_from (time_of (env s)) started s UNIV"
  shows "on_time (snd (arm_timer E ms s)) started"
proof -
  obtain now e where m: "get_millis E (env s) = (now, e)" by fastforce
  obtain r e' where st: "timer_start E ms e = (r, e')" by fastforce
  have "counts_from now started s UNIV" by (rule counts_mono[OF assms(2)]) (use millis_law(1)[OF m] in simp)
  then show ?thesis
    using assms(1) millis_law(1)[OF m] start_law(1)[OF st]
    by (simp add: arm_timer_def on_env_def m st on_time_def timeouts_wf_def counts_from_def)
qed

text \<open>The end of \<open>timeout_start\<close> and of the callback.\<close>

lemma rearm_on_time:
  assumes "timeouts_wf s" "counts_from (time_of (env s)) started s UNIV" "timeout_timer_start_ms s \<le> time_of (env s)"
  shows "on_time (if get_minimal_remaining_ms s < UINT32_MAX then snd (arm_timer E ms s) else s\<lparr>timeout_timer_running := False\<rparr>) started"
proof (cases "get_minimal_remaining_ms s < UINT32_MAX")
  case True
  then show ?thesis using arm_on_time[OF assms(1,2)] by simp
next
  case False
  with assms minimal_wf[OF assms(1)] show ?thesis by (auto simp: on_time_def timeouts_wf_def counts_from_def)
qed

lemma stopped_on_time:
  assumes "on_time s started" "only_stopped s s'" "time_of (env s) \<le> time_of (env s')"
    and "timeout_timer_running s' \<or> \<not> timeout_timer_running s \<or> (\<forall>i < number_of_registered_timeouts s'. \<not> active (registered_timeouts s' ! i))"
  shows "on_time s' started"
proof -
  have wf: "timeouts_wf s" "timeouts_wf s'" using assms(1,2) wf_stopped by (auto simp: on_time_def)
  have st: "timeout_timer_start_ms s' \<le> time_of (env s')" using assms(1-3) by (simp add: on_time_def only_stopped_def)
  have c: "counts_from (if timeout_timer_running s then timeout_timer_start_ms s else time_of (env s)) started s' UNIV"
    using assms(1) counts_stopped[OF assms(2) wf(1)] by (simp add: on_time_def)
  have "(if timeout_timer_running s then timeout_timer_start_ms s else time_of (env s)) \<le> time_of (env s')"
    using assms(1,3) by (auto simp: on_time_def)
  note c' = counts_mono[OF c this]
  have "counts_from (if timeout_timer_running s' then timeout_timer_start_ms s' else time_of (env s')) started s' UNIV"
  proof (cases "timeout_timer_running s'")
    case True
    with assms(2) c show ?thesis by (simp add: only_stopped_def)
  qed (use c' in simp)
  moreover have "timeout_timer_running s'" if "i < number_of_registered_timeouts s'" "active (registered_timeouts s' ! i)"
      "remaining_ms (registered_timeouts s' ! i) < UINT32_MAX" for i
  proof -
    have "timeout_timer_running s" using that assms(1,2) wf by (auto simp: only_stopped_def on_time_def timeouts_wf_def)
    with that assms(4) show ?thesis by blast
  qed
  ultimately show ?thesis using wf st by (simp add: on_time_def)
qed

lemma on_time_inactive: "on_time s started \<Longrightarrow> \<not> active (registered_timeouts s ! i) \<Longrightarrow> on_time s (started(i := t))"
  by (auto simp: on_time_def counts_from_def)

lemma start_on_time:
  assumes "on_time s started"
  shows "on_time (snd (timeout_start E i ms s)) (started(i := time_of (env s)))"
proof -
  let ?st = "started(i := time_of (env s))"
  consider (bad) "number_of_registered_timeouts s \<le> i" | (off) "i < number_of_registered_timeouts s" "ms = 0"
    | (on) "i < number_of_registered_timeouts s" "ms \<noteq> 0" by linarith
  then show ?thesis
  proof cases
    case bad
    with assms show ?thesis by (simp add: timeout_start_def on_time_def counts_from_def)
  next
    case off
    have il: "i < length (registered_timeouts s)" using off assms by (simp add: on_time_def timeouts_wf_def)
    have "on_time (upd_timeout i (active_update (\<lambda>_. False)) s) started"
      by (rule stopped_on_time[OF assms only_stopped_deactivate]) (simp_all add: upd_timeout_def)
    moreover have "\<not> active (registered_timeouts (upd_timeout i (active_update (\<lambda>_. False)) s) ! i)" using il by (simp add: upd_timeout_def)
    ultimately show ?thesis using off on_time_inactive by (simp add: timeout_start_def)
  next
    case on
    define s1 where "s1 = (if timeout_timer_running s
      then (adapt_remaining_ms E (s\<lparr>env := timer_stop E (env s)\<rparr>))\<lparr>timeout_timer_running := False\<rparr> else s)"
    have s1: "timeouts_wf s1 \<and> counts_from (time_of (env s1)) started s1 UNIV \<and> timeout_timer_start_ms s1 \<le> time_of (env s1)
      \<and> time_of (env s) \<le> time_of (env s1) \<and> \<not> timeout_timer_running s1 \<and> number_of_registered_timeouts s1 = number_of_registered_timeouts s"
    proof (cases "timeout_timer_running s")
      case True
      let ?u = "s\<lparr>env := timer_stop E (env s)\<rparr>"
      have t: "timeout_timer_start_ms ?u \<le> time_of (env ?u)" "time_of (env s) \<le> time_of (env ?u)"
        using assms stop_law(1)[of "env s"] by (auto simp: on_time_def dest: le_trans)
      have "timeouts_wf ?u" "counts_from (timeout_timer_start_ms ?u) started ?u UNIV"
        using assms True by (simp_all add: on_time_def timeouts_wf_def counts_from_def)
      from adapt_counts[OF this t(1)] t True show ?thesis by (auto simp: s1_def timeouts_wf_def counts_from_def)
    qed (use assms in \<open>simp add: s1_def on_time_def\<close>)
    define s2 where "s2 = upd_timeout i (\<lambda>t. t\<lparr>timeout_ms := ms, remaining_ms := ms, active := True\<rparr>) s1"
    have il: "i < length (registered_timeouts s1)" using on s1 by (simp add: timeouts_wf_def)
    have s2: "timeouts_wf s2" "counts_from (time_of (env s2)) ?st s2 UNIV" "timeout_timer_start_ms s2 \<le> time_of (env s2)" "\<not> timeout_timer_running s2"
      using s1 il by (auto simp: s2_def upd_timeout_def timeouts_wf_def counts_from_def nth_list_update)
    have u: "s2\<lparr>timeout_timer_running := False\<rparr> = s2" using s2(4) by (cases s2) simp
    have "snd (timeout_start E i ms s) = (if get_minimal_remaining_ms s2 < UINT32_MAX then snd (arm_timer E (get_minimal_remaining_ms s2) s2)
        else s2\<lparr>timeout_timer_running := False\<rparr>)"
      using on by (simp add: timeout_start_def Let_def s1_def[symmetric] s2_def[symmetric] u)
    with rearm_on_time[OF s2(1-3)] show ?thesis by simp
  qed
qed

lemma callback_on_time:
  assumes "on_time s started" "timeout_timer_running s"
  shows "on_time (timeout_timer_callback E s) started"
proof -
  let ?u = "s\<lparr>timeout_timer_running := False\<rparr>"
  let ?s = "adapt_remaining_ms E ?u"
  have u: "timeouts_wf ?u" "counts_from (timeout_timer_start_ms ?u) started ?u UNIV" "timeout_timer_start_ms ?u \<le> time_of (env ?u)"
    using assms by (simp_all add: on_time_def timeouts_wf_def counts_from_def)
  note a = adapt_counts[OF u]
  have "timeout_timer_start_ms ?s \<le> time_of (env ?s)" using a u(3) by simp
  moreover have f: "?s\<lparr>timeout_timer_running := False\<rparr> = ?s" using a by (cases ?s) simp
  ultimately show ?thesis
    using rearm_on_time[of ?s started "get_minimal_remaining_ms ?s", unfolded f] a unfolding timeout_timer_callback_def Let_def by blast
qed

lemma run_on_time: "timeout_run E time_of s started \<Longrightarrow> on_time s started"
proof (induction rule: timeout_run.induct)
  case (run_init s0 r s started)
  obtain e where e: "timer_create E (env s0) = (r, e)" "s = s0\<lparr>number_of_registered_timeouts := 0, timeout_timer_running := False, env := e\<rparr>"
    using run_init.hyps(3) by (auto simp: timeout_init_def on_env_def split: prod.splits)
  with run_init.hyps(1,2) create_law(1)[OF e(1)] show ?case by (simp add: on_time_def timeouts_wf_def counts_from_def)
next
  case (run_register s started h)
  show ?case
  proof (cases "number_of_registered_timeouts s < MAX_NUMBER_OF_TIMEOUTS")
    case True
    then show ?thesis using run_register.IH
      by (auto simp: timeout_register_def Let_def on_time_def timeouts_wf_def counts_from_def upd_timeout_def nth_list_update less_Suc_eq)
  qed (use run_register.IH in \<open>simp add: timeout_register_def\<close>)
next
  case (run_stop s started i)
  show ?case
  proof (rule stopped_on_time[OF run_stop.IH timeout_stop_only])
    show "time_of (env s) \<le> time_of (env (timeout_stop E i s))" using stop_law(1)[of "env s"] by (simp add: timeout_stop_def Let_def upd_timeout_def)
    have "timeouts_wf (upd_timeout i (active_update (\<lambda>_. False)) s)" by (rule wf_stopped[of s]) (use run_stop.IH in \<open>simp_all add: on_time_def\<close>)
    then show "timeout_timer_running (timeout_stop E i s) \<or> \<not> timeout_timer_running s
      \<or> (\<forall>j < number_of_registered_timeouts (timeout_stop E i s). \<not> active (registered_timeouts (timeout_stop E i s) ! j))"
      by (auto simp: timeout_stop_def Let_def upd_timeout_def list_ex_iff timeouts_wf_def simp flip: nth_image)
  qed
next
  case (run_wait s started e)
  show ?case by (rule stopped_on_time[OF run_wait.IH]) (use run_wait.hyps in auto)
next
  case (run_start s started i ms)
  show ?case by (rule start_on_time[OF run_start.IH])
next
  case (run_reset s started i)
  then show ?case using start_on_time[OF run_reset.IH] by (simp only: timeout_reset_def split: if_split) simp
next
  case (run_callback s started)
  show ?case by (rule callback_on_time[OF run_callback.IH run_callback.hyps(2)])
qed

end

section \<open>Which handlers are called\<close>

text \<open>The timeouts of a state that an adaptation has left as they were before it, up to the time that remains.\<close>

definition same_timeouts :: "('h, 'e) timeouts \<Rightarrow> ('h, 'e) timeouts \<Rightarrow> bool" where
  "same_timeouts s s' \<longleftrightarrow> number_of_registered_timeouts s' = number_of_registered_timeouts s \<and> length (registered_timeouts s') = length (registered_timeouts s)
     \<and> (\<forall>i < length (registered_timeouts s). timeout_ms (registered_timeouts s' ! i) = timeout_ms (registered_timeouts s ! i)
         \<and> timeout_handler (registered_timeouts s' ! i) = timeout_handler (registered_timeouts s ! i)
         \<and> (active (registered_timeouts s' ! i) \<longrightarrow> active (registered_timeouts s ! i)))"

text \<open>A call is in time if it is that of the handler of an active timeout whose duration has passed since its start.\<close>

definition call_in_time :: "('h, 'e) timeouts \<Rightarrow> (nat \<Rightarrow> nat) \<Rightarrow> nat \<times> 'h \<Rightarrow> bool" where
  "call_in_time s started c \<longleftrightarrow> (\<exists>i < number_of_registered_timeouts s. timeout_handler (registered_timeouts s ! i) = Some (snd c)
     \<and> active (registered_timeouts s ! i) \<and> started i + timeout_ms (registered_timeouts s ! i) < fst c)"

lemma only_stopped_same: "only_stopped s s' \<Longrightarrow> same_timeouts s s'"
  by (simp add: only_stopped_def same_timeouts_def)

lemma same_timeouts_trans: "same_timeouts s t \<Longrightarrow> same_timeouts t u \<Longrightarrow> same_timeouts s u"
  by (simp add: same_timeouts_def)

lemma call_in_time_same: "same_timeouts s t \<Longrightarrow> timeouts_wf s \<Longrightarrow> call_in_time t started c \<Longrightarrow> call_in_time s started c"
  by (auto simp: call_in_time_def same_timeouts_def timeouts_wf_def)

context timeout_world
begin

text \<open>The effect of one round: a call in time, or none and nothing but the timeout itself changed.\<close>

lemma adapt_one_calls:
  assumes wf: "timeouts_wf s" and i: "i < number_of_registered_timeouts s" and todo: "counts_from start started s {i..}"
    and le: "start + delta \<le> time_of (env s)"
  shows "\<exists>new. calls (env (adapt_one E delta i s)) = calls (env s) @ new \<and> (\<forall>c \<in> set new. call_in_time s started c) \<and> same_timeouts s (adapt_one E delta i s)
    \<and> (\<forall>j. i < j \<longrightarrow> j < length (registered_timeouts s) \<longrightarrow> remaining_ms (registered_timeouts (adapt_one E delta i s) ! j) = remaining_ms (registered_timeouts s ! j)
          \<and> (new = [] \<longrightarrow> active (registered_timeouts (adapt_one E delta i s) ! j) = active (registered_timeouts s ! j)))
    \<and> (remaining_ms (registered_timeouts s ! i) < delta \<longrightarrow> \<not> active (registered_timeouts (adapt_one E delta i s) ! i))
    \<and> (active (registered_timeouts s ! i) \<and> remaining_ms (registered_timeouts s ! i) < delta \<longrightarrow> new = map (Pair (time_of (env s))) (case timeout_handler (registered_timeouts s ! i) of None \<Rightarrow> [] | Some h \<Rightarrow> [h]))"
proof -
  let ?t = "registered_timeouts s ! i"
  have il: "i < length (registered_timeouts s)" using wf i by (simp add: timeouts_wf_def)
  consider (off) "\<not> active ?t" | (fire) "active ?t" "remaining_ms ?t < delta" | (count) "active ?t" "delta \<le> remaining_ms ?t" by linarith
  then show ?thesis
  proof cases
    case off
    then show ?thesis by (simp add: adapt_one_def same_timeouts_def)
  next
    case fire
    define s1 where "s1 = (case timeout_handler ?t of None \<Rightarrow> s | Some h \<Rightarrow> call_handler E h s)"
    have os: "only_stopped s s1" using handler_law(1) by (cases "timeout_handler ?t") (auto simp: s1_def)
    have e: "adapt_one E delta i s = upd_timeout i (active_update (\<lambda>_. False)) s1" using fire by (simp add: adapt_one_def Let_def s1_def)
    define new where "new = map (Pair (time_of (env s))) (case timeout_handler ?t of None \<Rightarrow> [] | Some h \<Rightarrow> [h])"
    have "started i + timeout_ms ?t \<le> start + remaining_ms ?t" using todo i fire(1) by (simp add: counts_from_def)
    then have "started i + timeout_ms ?t < time_of (env s)" using fire(2) le by linarith
    then have ok: "\<forall>c \<in> set new. call_in_time s started c" using fire(1) i by (auto simp: new_def call_in_time_def split: option.splits)
    have calls: "calls (env s1) = calls (env s) @ new" using handler_law(2) by (simp add: s1_def new_def split: option.split)
    have quiet: "s1 = s" if "new = []" using that by (simp add: s1_def new_def split: option.splits)
    have "same_timeouts s (adapt_one E delta i s)" unfolding e by (intro only_stopped_same only_stopped_trans[OF os]) simp
    then show ?thesis using ok calls quiet os il fire unfolding e
      by (intro exI[of _ new]) (auto simp: upd_timeout_def only_stopped_def new_def)
  next
    case count
    then show ?thesis using il by (simp add: adapt_one_def Let_def upd_timeout_def same_timeouts_def nth_list_update)
  qed
qed

lemma adapt_loop_calls:
  assumes "timeouts_wf s" "counts_from now started s {..<i}" "counts_from start started s {i..}" "start \<le> now" "delta \<le> now - start" "now \<le> time_of (env s)"
    "number_of_registered_timeouts s \<le> i + fuel"
  shows "\<exists>new. calls (env (adapt_loop E delta i fuel s)) = calls (env s) @ new \<and> (\<forall>c \<in> set new. call_in_time s started c) \<and> same_timeouts s (adapt_loop E delta i fuel s)
    \<and> (\<forall>j. i \<le> j \<longrightarrow> j < number_of_registered_timeouts s \<longrightarrow> remaining_ms (registered_timeouts s ! j) < delta \<longrightarrow> \<not> active (registered_timeouts (adapt_loop E delta i fuel s) ! j)
          \<and> (active (registered_timeouts s ! j) \<and> timeout_handler (registered_timeouts s ! j) \<noteq> None \<longrightarrow> new \<noteq> []))"
  using assms
proof (induction fuel arbitrary: i s)
  case (Suc fuel)
  show ?case
  proof (cases "i < number_of_registered_timeouts s")
    case True
    let ?u = "adapt_one E delta i s"
    note o = adapt_one_counts[OF Suc.prems(1) True Suc.prems(2-5)]
    have le: "start + delta \<le> time_of (env s)" using Suc.prems(4-6) by linarith
    obtain n1 where n1: "calls (env ?u) = calls (env s) @ n1" "\<forall>c \<in> set n1. call_in_time s started c" "same_timeouts s ?u"
      and later: "\<And>j. i < j \<Longrightarrow> j < length (registered_timeouts s) \<Longrightarrow> remaining_ms (registered_timeouts ?u ! j) = remaining_ms (registered_timeouts s ! j)
          \<and> (n1 = [] \<longrightarrow> active (registered_timeouts ?u ! j) = active (registered_timeouts s ! j))"
      and self: "remaining_ms (registered_timeouts s ! i) < delta \<Longrightarrow> \<not> active (registered_timeouts ?u ! i)"
        "active (registered_timeouts s ! i) \<Longrightarrow> remaining_ms (registered_timeouts s ! i) < delta \<Longrightarrow> timeout_handler (registered_timeouts s ! i) \<noteq> None \<Longrightarrow> n1 \<noteq> []"
      using adapt_one_calls[OF Suc.prems(1) True Suc.prems(3) le] by (auto split: option.splits)
    have n: "number_of_registered_timeouts ?u = number_of_registered_timeouts s" "length (registered_timeouts ?u) = length (registered_timeouts s)"
      using n1(3) by (simp_all add: same_timeouts_def)
    have lens: "number_of_registered_timeouts s \<le> length (registered_timeouts s)" using Suc.prems(1) by (simp add: timeouts_wf_def)
    obtain n2 where n2: "calls (env (adapt_loop E delta (Suc i) fuel ?u)) = calls (env ?u) @ n2" "\<forall>c \<in> set n2. call_in_time ?u started c"
        "same_timeouts ?u (adapt_loop E delta (Suc i) fuel ?u)"
      and due: "\<And>j. Suc i \<le> j \<Longrightarrow> j < number_of_registered_timeouts s \<Longrightarrow> remaining_ms (registered_timeouts ?u ! j) < delta \<Longrightarrow>
        \<not> active (registered_timeouts (adapt_loop E delta (Suc i) fuel ?u) ! j)
          \<and> (active (registered_timeouts ?u ! j) \<and> timeout_handler (registered_timeouts ?u ! j) \<noteq> None \<longrightarrow> n2 \<noteq> [])"
      using Suc.IH[of ?u "Suc i"] o Suc.prems(4-7) n by auto
    have eq: "adapt_loop E delta i (Suc fuel) s = adapt_loop E delta (Suc i) fuel ?u" using True by simp
    have dues: "\<not> active (registered_timeouts (adapt_loop E delta (Suc i) fuel ?u) ! j)
        \<and> (active (registered_timeouts s ! j) \<and> timeout_handler (registered_timeouts s ! j) \<noteq> None \<longrightarrow> n1 @ n2 \<noteq> [])"
      if j: "i \<le> j" "j < number_of_registered_timeouts s" "remaining_ms (registered_timeouts s ! j) < delta" for j
    proof (cases "j = i")
      case True
      then show ?thesis using self j n2(3) n lens by (auto simp: same_timeouts_def)
    next
      case False
      then have "i < j" "j < length (registered_timeouts s)" using j lens by auto
      then show ?thesis using later[of j] due[of j] j n1(3) by (auto simp: same_timeouts_def)
    qed
    have "\<forall>c \<in> set (n1 @ n2). call_in_time s started c" using n1(2) n2(2) call_in_time_same[OF n1(3) Suc.prems(1)] by auto
    moreover have "same_timeouts s (adapt_loop E delta (Suc i) fuel ?u)" by (rule same_timeouts_trans[OF n1(3) n2(3)])
    ultimately show ?thesis unfolding eq using n1(1) n2(1) dues by (intro exI[of _ "n1 @ n2"]) simp
  next
    case False
    then show ?thesis by (intro exI[of _ "[]"]) (simp add: same_timeouts_def)
  qed
qed (intro exI[of _ "[]"], simp add: same_timeouts_def)

lemma adapt_calls:
  assumes wf: "timeouts_wf s" and counts: "counts_from (timeout_timer_start_ms s) started s UNIV" and t: "timeout_timer_start_ms s \<le> time_of (env s)"
    and m: "get_millis E (env s) = (now, e)"
  shows "\<exists>new. calls (env (adapt_remaining_ms E s)) = calls (env s) @ new \<and> (\<forall>c \<in> set new. call_in_time s started c)
    \<and> (\<forall>j < number_of_registered_timeouts s. remaining_ms (registered_timeouts s ! j) < u32 (u64_sub now (timeout_timer_start_ms s)) \<longrightarrow>
         \<not> active (registered_timeouts (adapt_remaining_ms E s) ! j)
          \<and> (active (registered_timeouts s ! j) \<and> timeout_handler (registered_timeouts s ! j) \<noteq> None \<longrightarrow> new \<noteq> []))"
proof -
  let ?s = "s\<lparr>env := e\<rparr>" and ?d = "u32 (u64_sub now (timeout_timer_start_ms s))"
  have now: "timeout_timer_start_ms s \<le> now" "now \<le> time_of (env ?s)" using millis_law(1)[OF m] t by simp_all
  have wf': "timeouts_wf ?s" and n: "number_of_registered_timeouts ?s \<le> 0 + (MAX_NUMBER_OF_TIMEOUTS + 1)" using wf by (simp_all add: timeouts_wf_def)
  have c: "counts_from now started ?s {..<0}" "counts_from (timeout_timer_start_ms s) started ?s {0..}" using counts by (simp_all add: counts_from_def)
  have in_time: "call_in_time ?s = (call_in_time s :: (nat \<Rightarrow> nat) \<Rightarrow> nat \<times> 'h \<Rightarrow> bool)" by (simp add: call_in_time_def[abs_def])
  have eq: "adapt_remaining_ms E s = adapt_loop E ?d 0 (MAX_NUMBER_OF_TIMEOUTS + 1) ?s" by (simp add: adapt_remaining_ms_def on_env_def m)
  from adapt_loop_calls[OF wf' c now(1) u64_sub_le[OF now(1)] now(2) n] obtain new
    where new: "calls (env (adapt_remaining_ms E s)) = calls (env s) @ new" "\<forall>c \<in> set new. call_in_time s started c"
      "\<And>j. j < number_of_registered_timeouts s \<Longrightarrow> remaining_ms (registered_timeouts s ! j) < ?d \<Longrightarrow> \<not> active (registered_timeouts (adapt_remaining_ms E s) ! j)
        \<and> (active (registered_timeouts s ! j) \<and> timeout_handler (registered_timeouts s ! j) \<noteq> None \<longrightarrow> new \<noteq> [])"
    unfolding eq in_time using millis_law(2)[OF m] by (auto simp del: adapt_loop.simps)
  then show ?thesis by blast
qed

lemma arm_calls: "calls (env (snd (arm_timer E ms s))) = calls (env s)"
  "registered_timeouts (snd (arm_timer E ms s)) = registered_timeouts s"
  using millis_law(2) start_law(2) by (auto simp: arm_timer_def on_env_def Let_def split: prod.split)

lemma start_calls:
  assumes on: "on_time s started"
  shows "\<exists>new. calls (env (snd (timeout_start E i ms s))) = calls (env s) @ new \<and> (\<forall>c \<in> set new. call_in_time s started c)"
proof (cases "timeout_timer_running s \<and> i < number_of_registered_timeouts s \<and> ms \<noteq> 0")
  case True
  let ?u = "s\<lparr>env := timer_stop E (env s)\<rparr>"
  obtain now e where m: "get_millis E (env ?u) = (now, e)" by fastforce
  have "timeouts_wf ?u" "counts_from (timeout_timer_start_ms ?u) started ?u UNIV" "timeout_timer_start_ms ?u \<le> time_of (env ?u)"
    using on True stop_law(1)[of "env s"] by (auto simp: on_time_def timeouts_wf_def counts_from_def)
  from adapt_calls[OF this m] obtain new where new: "calls (env (adapt_remaining_ms E ?u)) = calls (env s) @ new" "\<forall>c \<in> set new. call_in_time s started c"
    using stop_law(2) by (auto simp: call_in_time_def)
  have "calls (env (snd (timeout_start E i ms s))) = calls (env (adapt_remaining_ms E ?u))"
    using True by (simp add: timeout_start_def Let_def arm_calls upd_timeout_def)
  then show ?thesis using new by auto
next
  case False
  then have "calls (env (snd (timeout_start E i ms s))) = calls (env s)" by (auto simp: timeout_start_def Let_def arm_calls upd_timeout_def)
  then show ?thesis by auto
qed

lemma callback_calls:
  assumes on: "on_time s started" and run: "timeout_timer_running s" and m: "get_millis E (env s) = (now, e)"
  shows "\<exists>new. calls (env (timeout_timer_callback E s)) = calls (env s) @ new \<and> (\<forall>c \<in> set new. call_in_time s started c)
    \<and> (\<forall>j < number_of_registered_timeouts s. remaining_ms (registered_timeouts s ! j) < u32 (u64_sub now (timeout_timer_start_ms s)) \<longrightarrow>
         \<not> active (registered_timeouts (timeout_timer_callback E s) ! j)
          \<and> (active (registered_timeouts s ! j) \<and> timeout_handler (registered_timeouts s ! j) \<noteq> None \<longrightarrow> new \<noteq> []))"
proof -
  let ?u = "s\<lparr>timeout_timer_running := False\<rparr>"
  have u: "timeouts_wf ?u" "counts_from (timeout_timer_start_ms ?u) started ?u UNIV" "timeout_timer_start_ms ?u \<le> time_of (env ?u)" "get_millis E (env ?u) = (now, e)"
    using on run m by (simp_all add: on_time_def timeouts_wf_def counts_from_def)
  have in_time: "call_in_time ?u = (call_in_time s :: (nat \<Rightarrow> nat) \<Rightarrow> nat \<times> 'h \<Rightarrow> bool)" by (simp add: call_in_time_def[abs_def])
  have "calls (env (timeout_timer_callback E s)) = calls (env (adapt_remaining_ms E ?u))"
    "registered_timeouts (timeout_timer_callback E s) = registered_timeouts (adapt_remaining_ms E ?u)"
    by (simp_all add: timeout_timer_callback_def Let_def arm_calls)
  then show ?thesis using adapt_calls[OF u] in_time by simp
qed

end

section \<open>A world with a clock\<close>

text \<open>The environment is the clock and the list of the calls; a handler stops the timeout with its number.\<close>

type_synonym clock = "nat \<times> (nat \<times> nat) list"

definition clock_base :: "(nat, clock) timeout_env" where
  "clock_base = \<lparr>get_millis = (\<lambda>e. (fst e, e)), timer_create = Pair NRF_SUCCESS, timer_start = (\<lambda>_. Pair NRF_SUCCESS),
     timer_stop = id, call_handler = (\<lambda>_ s. s)\<rparr>"

definition clock_env :: "(nat, clock) timeout_env" where
  "clock_env = clock_base\<lparr>call_handler := (\<lambda>h s. timeout_stop clock_base h (s\<lparr>env := (fst (env s), snd (env s) @ [(fst (env s), h)])\<rparr>))\<rparr>"

interpretation clock: timeout_world clock_env fst snd
proof
  fix h and s :: "(nat, clock) timeouts"
  let ?s = "s\<lparr>env := (fst (env s), snd (env s) @ [(fst (env s), h)])\<rparr>"
  have e: "env (timeout_stop clock_base h ?s) = env ?s" by (simp add: clock_base_def timeout_stop_def upd_timeout_def Let_def)
  then show "snd (env (call_handler clock_env h s)) = snd (env s) @ [(fst (env s), h)]" by (simp add: clock_env_def)
  have "only_stopped s (timeout_stop clock_base h ?s)" by (rule only_stopped_trans[OF only_stopped_env(1) timeout_stop_only])
  then show "only_stopped s (call_handler clock_env h s) \<and> fst (env s) \<le> fst (env (call_handler clock_env h s))" using e by (simp add: clock_env_def)
qed (auto simp: clock_env_def clock_base_def)

section \<open>Theorems\<close>

text \<open>
  C14: no handler is called early.  In every run, whatever other timeouts were started, reset, stopped or have expired, each call of a handler in a
  following step (an expiry of the timer, or a start, a reset or a stop) is that of a registered, active timeout with this handler, and more than the
  duration of this timeout has passed, at the time of the call, since the call that started it.  At an expiry of the timer no timeout is missed: one
  whose remaining time is below the time since the timer was started is not active afterwards, and if it has a handler, a handler was called (its own, if
  none called before it in this expiry has stopped it).
\<close>

theorem timeout_never_early:
  assumes "timeout_world E time_of calls" and "timeout_run E time_of s started" and "get_millis E (env s) = (now, e)"
    and "timeout_timer_running s \<and> s' = timeout_timer_callback E s
      \<or> s' \<in> {snd (timeout_start E j ms s), timeout_reset E j s, timeout_stop E j s}"
  shows "\<exists>new. calls (env s') = calls (env s) @ new
    \<and> (\<forall>(t, h) \<in> set new. \<exists>i < number_of_registered_timeouts s. timeout_handler (registered_timeouts s ! i) = Some h
         \<and> active (registered_timeouts s ! i) \<and> started i + timeout_ms (registered_timeouts s ! i) < t)
    \<and> (timeout_timer_running s \<and> s' = timeout_timer_callback E s \<longrightarrow>
        (\<forall>i < number_of_registered_timeouts s. remaining_ms (registered_timeouts s ! i) < u32 (u64_sub now (timeout_timer_start_ms s)) \<longrightarrow>
         \<not> active (registered_timeouts s' ! i)
          \<and> (active (registered_timeouts s ! i) \<and> timeout_handler (registered_timeouts s ! i) \<noteq> None \<longrightarrow> new \<noteq> [])))"
proof -
  have on: "timeout_world.on_time time_of s started" by (rule timeout_world.run_on_time[OF assms(1,2)])
  have spec: "(\<forall>(t, h) \<in> set new. \<exists>i < number_of_registered_timeouts s. timeout_handler (registered_timeouts s ! i) = Some h
      \<and> active (registered_timeouts s ! i) \<and> started i + timeout_ms (registered_timeouts s ! i) < t) \<longleftrightarrow> (\<forall>c \<in> set new. call_in_time s started c)" for new
    by (fastforce simp: call_in_time_def)
  show ?thesis
  proof (cases "timeout_timer_running s \<and> s' = timeout_timer_callback E s")
    case True
    then show ?thesis unfolding spec using timeout_world.callback_calls[OF assms(1) on _ assms(3)] by auto
  next
    case False
    have "\<exists>new. calls (env s') = calls (env s) @ new \<and> (\<forall>c \<in> set new. call_in_time s started c)"
      using assms(4) False timeout_world.start_calls[OF assms(1) on] timeout_world.stop_law(2)[OF assms(1)]
      by (auto simp: timeout_reset_def timeout_stop_def Let_def upd_timeout_def)
    with False show ?thesis unfolding spec by auto
  qed
qed

definition sample_timeouts :: "(nat, clock) timeouts" where
  "sample_timeouts = \<lparr>registered_timeouts = replicate 20 \<lparr>remaining_ms = 0, timeout_ms = 0, active = False, timeout_handler = None\<rparr>,
     number_of_registered_timeouts = 0, timeout_timer_running = False, timeout_timer_start_ms = 0, env = (5, [])\<rparr>"

text \<open>A timeout of one second started at 5 ms, and the timer that expires at 2000 ms: handler 0 is called.\<close>

theorem timeout_never_early_witness:
  "\<exists>s started t. timeout_run clock_env fst s started \<and> snd (env s) = [] \<and> active (registered_timeouts s ! 0)
     \<and> (t, 0) \<in> set (snd (env (timeout_timer_callback clock_env s))) \<and> started 0 + 1000 < t \<and> \<not> active (registered_timeouts (timeout_timer_callback clock_env s) ! 0)"
proof -
  let ?s1 = "snd (timeout_register (Some 0) sample_timeouts)"
  let ?s2 = "snd (timeout_start clock_env 0 1000 ?s1)"
  let ?s = "?s2\<lparr>env := (2000, [])\<rparr>" and ?st = "(\<lambda>_. 0)((0 :: nat) := fst (env ?s1))"
  have "timeout_init clock_env sample_timeouts = (NRF_SUCCESS, sample_timeouts)"
    by (simp add: timeout_init_def on_env_def clock_env_def clock_base_def sample_timeouts_def)
  then have "timeout_run clock_env fst sample_timeouts (\<lambda>_. 0)"
    by (intro run_init) (simp_all add: sample_timeouts_def MAX_NUMBER_OF_TIMEOUTS_def)
  then have r2: "timeout_run clock_env fst ?s2 ?st" by (intro run_start run_register)
  have s1: "?s1 = sample_timeouts\<lparr>registered_timeouts := (registered_timeouts sample_timeouts)
      [0 := \<lparr>remaining_ms = 0, timeout_ms = 0, active = False, timeout_handler = Some 0\<rparr>], number_of_registered_timeouts := 1\<rparr>"
    by (simp add: timeout_register_def MAX_NUMBER_OF_TIMEOUTS_def sample_timeouts_def upd_timeout_def)
  have s2: "?s2 = sample_timeouts\<lparr>registered_timeouts := (registered_timeouts sample_timeouts)
      [0 := \<lparr>remaining_ms = 1000, timeout_ms = 1000, active = True, timeout_handler = Some 0\<rparr>], number_of_registered_timeouts := 1,
      timeout_timer_running := True, timeout_timer_start_ms := 5\<rparr>"
    unfolding s1 by (simp add: timeout_start_def upd_timeout_def get_minimal_remaining_ms_def take_Suc hd_conv_nth UINT32_MAX_def
        MAX_MILLIS_PER_TIMEOUT_TIMER_def arm_timer_def on_env_def clock_env_def clock_base_def sample_timeouts_def Let_def)
  have r: "timeout_run clock_env fst ?s ?st" by (rule run_wait[OF r2]) (simp only: s2, simp add: sample_timeouts_def)
  have a: "active (registered_timeouts ?s ! 0)" "timeout_timer_running ?s" "number_of_registered_timeouts ?s = 1" "timeout_ms (registered_timeouts ?s ! 0) = 1000"
    "timeout_handler (registered_timeouts ?s ! 0) = Some 0" "remaining_ms (registered_timeouts ?s ! 0) < u32 (u64_sub 2000 (timeout_timer_start_ms ?s))"
    by (simp_all only: s2) (simp_all add: sample_timeouts_def u64_sub_def)
  have g: "get_millis clock_env (env ?s) = (2000, (2000, []))" by (simp add: clock_env_def clock_base_def)
  let ?s' = "timeout_timer_callback clock_env ?s"
  obtain new where new: "snd (env ?s') = new" "\<forall>(t, h) \<in> set new. \<exists>i < 1. timeout_handler (registered_timeouts ?s ! i) = Some h
         \<and> active (registered_timeouts ?s ! i) \<and> ?st i + timeout_ms (registered_timeouts ?s ! i) < t"
      "\<not> active (registered_timeouts ?s' ! 0)" "new \<noteq> []"
    using timeout_never_early[OF clock.timeout_world_axioms r g disjI1[OF conjI[OF a(2) refl]]] a by auto
  then obtain t h where c: "(t, h) \<in> set new" by (cases new) auto
  with new(2) a have "h = 0" "?st 0 + 1000 < t" by auto
  with c r a(1) new(1,3) show ?thesis by (intro exI[of _ ?s] exI[of _ ?st] exI[of _ t]) simp
qed

text \<open>
  C33: the interval the timer is started with is that of the shortest remaining time of all active
  timeouts, cut to the range from 2 to 100000 milliseconds, and \<open>UINT32_MAX\<close> if there is no shorter one.
\<close>

theorem minimal_remaining_is_min:
  "get_minimal_remaining_ms s =
     (let shortest = Min (insert UINT32_MAX (remaining_ms ` {t \<in> set (take (number_of_registered_timeouts s) (registered_timeouts s)). active t}))
      in if shortest = UINT32_MAX then UINT32_MAX else max 2 (min MAX_MILLIS_PER_TIMEOUT_TIMER shortest))"
proof -
  have loop: "minimal_loop ts m = Min (insert m (remaining_ms ` {t \<in> set ts. active t}))" for ts :: "'a timeout list" and m
  proof (induction ts arbitrary: m)
    case (Cons t ts)
    let ?R = "remaining_ms ` {t \<in> set ts. active t}"
    show ?case
    proof (cases "active t")
      case True
      then have "remaining_ms ` {u \<in> set (t # ts). active u} = insert (remaining_ms t) ?R" by auto
      moreover have "Min (insert m (insert (remaining_ms t) ?R)) = Min (insert (min m (remaining_ms t)) ?R)"
      proof (cases "?R = {}")
        case False
        then show ?thesis by (simp add: min.assoc del: image_is_empty)
      qed (simp only: Min_insert finite.emptyI finite_insert insert_not_empty Min_singleton simp_thms)
      moreover have "(if remaining_ms t < m then remaining_ms t else m) = min m (remaining_ms t)" by simp
      ultimately show ?thesis using Cons.IH True by simp
    next
      case False
      then have "{u \<in> set (t # ts). active u} = {u \<in> set ts. active u}" by auto
      with False Cons.IH show ?thesis by simp
    qed
  qed simp
  have cut: "(let m = x in if m = UINT32_MAX then UINT32_MAX
      else let m = (if m > MAX_MILLIS_PER_TIMEOUT_TIMER then MAX_MILLIS_PER_TIMEOUT_TIMER else m) in if m < 2 then 2 else m)
    = (let m = x in if m = UINT32_MAX then UINT32_MAX else max 2 (min MAX_MILLIS_PER_TIMEOUT_TIMER m))" for x
    by (auto simp: Let_def MAX_MILLIS_PER_TIMEOUT_TIMER_def)
  show ?thesis unfolding get_minimal_remaining_ms_def cut loop ..
qed

end
