(* ===== verification/Ble_Lib.thy ===== *)
theory Ble_Lib
  imports OB_Prelude
begin

text \<open>
  The part of the Bluetooth module \<^verbatim>\<open>incl/ble_lib.c\<close> that the advertiser calls: setting the advertised data, starting and stopping the advertising,
  the address of the chip and the state of the module.  The SoftDevice and the advertising modules of the SDK are operations on a world.
\<close>

unbundle bit_operations_syntax

section \<open>State\<close>

definition BLE_STATE_INACTIVE :: nat where "BLE_STATE_INACTIVE = 0"
definition BLE_STATE_ADVERTISING :: nat where "BLE_STATE_ADVERTISING = 1"
definition BLE_STATE_CONNECTED :: nat where "BLE_STATE_CONNECTED = 2"
definition BLE_STATE_SCANNING :: nat where "BLE_STATE_SCANNING = 4"
definition ADVERTISING_DEVICE_NAME :: string where "ADVERTISING_DEVICE_NAME = ''HDBDG''"
definition adv_uuids :: "nat list" where "adv_uuids = [0x0001]"

text \<open>
  The structure of the SDK that describes an advertising packet, with the members the module sets; the UUIDs are those of 16 bits, and the manufacturer data
  are the company identifier with the data.
\<close>

datatype ble_advdata_name_type = BLE_ADVDATA_NO_NAME | BLE_ADVDATA_SHORT_NAME | BLE_ADVDATA_FULL_NAME

record ble_advdata =
  name_type :: ble_advdata_name_type
  include_appearance :: bool
  adv_flags :: byte
  uuids_complete :: "nat list"
  p_manuf_specific_data :: "(nat \<times> byte list) option"

record 'e ble_sdk =
  sd_ble_gap_address_get :: "'e \<Rightarrow> byte list"
  ble_advdata_set :: "ble_advdata \<Rightarrow> 'e \<Rightarrow> ret_code \<times> 'e"
  ble_advertising_start :: "'e \<Rightarrow> ret_code \<times> 'e"

record 'e ble_lib =
  ble_state :: nat
  softdevice :: 'e

section \<open>Operations\<close>

definition ble_prepare_advertising_data :: ble_advdata where
  "ble_prepare_advertising_data = \<lparr>name_type = BLE_ADVDATA_FULL_NAME, include_appearance = False, adv_flags = 0x06, uuids_complete = adv_uuids, p_manuf_specific_data = None\<rparr>"

definition ble_set_advertising_custom_advdata :: "'e ble_sdk \<Rightarrow> nat \<Rightarrow> byte list \<Rightarrow> 'e ble_lib \<Rightarrow> ret_code \<times> 'e ble_lib" where
  "ble_set_advertising_custom_advdata B company_identifier custom_advdata s =
     (case ble_advdata_set B (ble_prepare_advertising_data\<lparr>p_manuf_specific_data := Some (company_identifier, custom_advdata)\<rparr>) (softdevice s) of
        (ret, e) \<Rightarrow> (ret, s\<lparr>softdevice := e\<rparr>))"

definition ble_start_advertising :: "'e ble_sdk \<Rightarrow> 'e ble_lib \<Rightarrow> ret_code \<times> 'e ble_lib" where
  "ble_start_advertising B s =
     (case ble_advertising_start B (softdevice s) of (ret, e) \<Rightarrow>
      let s = s\<lparr>softdevice := e\<rparr> in
      if ret \<noteq> NRF_SUCCESS then (ret, s) else (ret, s\<lparr>ble_state := ble_state s OR BLE_STATE_ADVERTISING\<rparr>))"

definition ble_stop_advertising :: "'e ble_lib \<Rightarrow> 'e ble_lib" where
  "ble_stop_advertising s = s\<lparr>ble_state := unset_bit 0 (ble_state s)\<rparr>"

definition ble_get_MAC_address :: "'e ble_sdk \<Rightarrow> 'e ble_lib \<Rightarrow> byte list" where
  "ble_get_MAC_address B s = rev (take 6 (sd_ble_gap_address_get B (softdevice s)))"

definition ble_get_state :: "'e ble_lib \<Rightarrow> nat" where
  "ble_get_state s =
     (if ble_state s AND BLE_STATE_CONNECTED \<noteq> 0 then BLE_STATE_CONNECTED
      else if ble_state s AND BLE_STATE_SCANNING \<noteq> 0 then BLE_STATE_SCANNING
      else if ble_state s AND BLE_STATE_ADVERTISING \<noteq> 0 then BLE_STATE_ADVERTISING else BLE_STATE_INACTIVE)"

section \<open>What the SDK promises\<close>

text \<open>
  The size of an advertising packet: each element has a byte for its length and one for its type; the flags are one byte, the appearance two, a UUID two, and the
  manufacturer data start with two bytes of the company.
\<close>

definition BLE_GAP_ADV_MAX_SIZE :: nat where "BLE_GAP_ADV_MAX_SIZE = 31"

definition advdata_size :: "ble_advdata \<Rightarrow> nat" where
  "advdata_size d = 3 + (if name_type d = BLE_ADVDATA_FULL_NAME then 2 + length ADVERTISING_DEVICE_NAME else 0) + (if include_appearance d then 4 else 0)
     + (if uuids_complete d = [] then 0 else 2 + 2 * length (uuids_complete d))
     + (case p_manuf_specific_data d of None \<Rightarrow> 0 | Some (_, bs) \<Rightarrow> 4 + length bs)"

text \<open>
  \<open>sent\<close> are the data that are advertised: the last ones the SDK has accepted.  It may refuse data for several reasons; because of their size only if they
  do not fit into an advertising packet.
\<close>

locale ble_module =
  fixes B :: "'e ble_sdk" and sent :: "'e \<Rightarrow> ble_advdata"
  assumes set_law: "ble_advdata_set B d e = (r, e') \<Longrightarrow> sent e' = (if r = NRF_SUCCESS then d else sent e)"
    and size_law: "ble_advdata_set B d e = (NRF_ERROR_DATA_SIZE, e') \<Longrightarrow> BLE_GAP_ADV_MAX_SIZE < advdata_size d"
    and address_law: "length (sd_ble_gap_address_get B e) = 6"
begin

lemma set_custom:
  assumes "ble_set_advertising_custom_advdata B company d s = (r, s')" and "length d \<le> 13"
  shows "r \<noteq> NRF_ERROR_DATA_SIZE"
    and "r = NRF_SUCCESS \<Longrightarrow> p_manuf_specific_data (sent (softdevice s')) = Some (company, d) \<and> advdata_size (sent (softdevice s')) \<le> BLE_GAP_ADV_MAX_SIZE"
    and "r \<noteq> NRF_SUCCESS \<Longrightarrow> sent (softdevice s') = sent (softdevice s)"
proof -
  let ?p = "ble_prepare_advertising_data\<lparr>p_manuf_specific_data := Some (company, d)\<rparr>"
  obtain e where e: "ble_advdata_set B ?p (softdevice s) = (r, e)" "softdevice s' = e"
    using assms(1) by (auto simp: ble_set_advertising_custom_advdata_def split: prod.splits)
  have size: "advdata_size ?p \<le> BLE_GAP_ADV_MAX_SIZE"
    using assms(2) by (simp add: advdata_size_def ble_prepare_advertising_data_def ADVERTISING_DEVICE_NAME_def adv_uuids_def BLE_GAP_ADV_MAX_SIZE_def)
  show "r \<noteq> NRF_ERROR_DATA_SIZE" using size_law[of ?p "softdevice s" e] e size by auto
  show "p_manuf_specific_data (sent (softdevice s')) = Some (company, d) \<and> advdata_size (sent (softdevice s')) \<le> BLE_GAP_ADV_MAX_SIZE" if "r = NRF_SUCCESS"
    using set_law[OF e(1)] e(2) that size by simp
  show "sent (softdevice s') = sent (softdevice s)" if "r \<noteq> NRF_SUCCESS" using set_law[OF e(1)] e(2) that by simp
qed

end

end
