(* ===== verification/Advertiser.thy ===== *)
theory Advertiser
  imports Complex_Main Storer Ble_Lib
begin

text \<open>
  What the badge advertises, \<^verbatim>\<open>incl/advertiser_lib.c\<close>: its assignement, its battery voltage and the
  flags of the running data sources, in the manufacturer data of the advertising packets.
\<close>

unbundle bit_operations_syntax

section \<open>State\<close>

definition CUSTOM_COMPANY_IDENTIFIER :: nat where "CUSTOM_COMPANY_IDENTIFIER = 0xFF00"
definition CUSTOM_ADVDATA_LEN :: nat where "CUSTOM_ADVDATA_LEN = 11"
definition ADVERTISING_RESET_ID :: nat where "ADVERTISING_RESET_ID = 0xFFFF"
definition ADVERTISING_RESET_GROUP :: nat where "ADVERTISING_RESET_GROUP = 0xFF"
definition ADVERTISING_DEFAULT_GROUP :: nat where "ADVERTISING_DEFAULT_GROUP = 1"

record custom_advdata =
  battery :: byte
  status_flags :: byte
  adv_ID :: nat
  adv_group :: nat
  MAC :: "byte list"

text \<open>The structure as it lies in memory; its first eleven bytes hold all members.\<close>

definition custom_advdata_bytes :: "custom_advdata \<Rightarrow> byte list" where
  "custom_advdata_bytes d = [battery d, status_flags d, of_nat (adv_ID d), of_nat (adv_ID d div 256), of_nat (adv_group d)] @ MAC d"

record ('s, 'e) advertiser =
  advdata :: custom_advdata
  adv_storer :: "'s storer"
  ble :: "'e ble_lib"

text \<open>Handing the data to the Bluetooth module; its return code is ignored.\<close>

definition publish :: "'e ble_sdk \<Rightarrow> ('s, 'e) advertiser \<Rightarrow> ('s, 'e) advertiser" where
  "publish B a = a\<lparr>ble := snd (ble_set_advertising_custom_advdata B CUSTOM_COMPANY_IDENTIFIER
     (take CUSTOM_ADVDATA_LEN (custom_advdata_bytes (advdata a))) (ble a))\<rparr>"

section \<open>The badge assignement\<close>

text \<open>An assignement is the pair of ID and group; \<open>assignement_mem\<close> is the structure in memory, at address 0.\<close>

definition assignement_mem :: "nat \<times> nat \<Rightarrow> memory" where
  "assignement_mem b = wr 0 [of_nat (fst b), of_nat (fst b div 256), of_nat (snd b), 0] (\<lambda>_. 0)"

definition assignement_at :: "memory \<Rightarrow> int \<Rightarrow> nat \<times> nat" where
  "assignement_at m a = (rd_uint m (a + int (tb_offsetof BadgeAssignement 0)) 2, rd_uint m (a + int (tb_offsetof BadgeAssignement 1)) 1)"

definition read_assignement :: "'s storage_ops \<Rightarrow> 's leftover \<Rightarrow> ('s, 'e) advertiser \<Rightarrow> (ret_code \<times> (nat \<times> nat)) \<times> ('s, 'e) advertiser" where
  "read_assignement so lost a =
     (case storer_read_badge_assignement so lost 0 (\<lambda>_. 0) (adv_storer a) of
        (r, m, st) \<Rightarrow> ((code r, assignement_at m 0), a\<lparr>adv_storer := st\<rparr>))"

definition advertiser_get_default_badge_assignement :: "('s, 'e) advertiser \<Rightarrow> nat \<times> nat" where
  "advertiser_get_default_badge_assignement a = (crc16_compute (take 6 (MAC (advdata a))) None, ADVERTISING_DEFAULT_GROUP)"

definition set_assignement :: "nat \<times> nat \<Rightarrow> ('s, 'e) advertiser \<Rightarrow> ('s, 'e) advertiser" where
  "set_assignement b a = a\<lparr>advdata := (advdata a)\<lparr>adv_ID := fst b, adv_group := snd b\<rparr>\<rparr>"

definition advertiser_init :: "'s storage_ops \<Rightarrow> 's leftover \<Rightarrow> 'e ble_sdk \<Rightarrow> ('s, 'e) advertiser \<Rightarrow> ('s, 'e) advertiser" where
  "advertiser_init so lost B a =
     (let a = a\<lparr>advdata := \<lparr>battery = 0, status_flags = 0, adv_ID = 0, adv_group = 0, MAC = rev (take 6 (ble_get_MAC_address B (ble a)))\<rparr>\<rparr> in
      case read_assignement so lost a of ((ret, stored), a) \<Rightarrow>
      let b = (if ret \<noteq> NRF_SUCCESS then advertiser_get_default_badge_assignement a else stored)
      in publish B (set_assignement b a))"

definition advertiser_set_badge_assignement ::
  "'s storage_ops \<Rightarrow> 's leftover \<Rightarrow> 'e ble_sdk \<Rightarrow> nat \<times> nat \<Rightarrow> ('s, 'e) advertiser \<Rightarrow> ret_code \<times> ('s, 'e) advertiser" where
  "advertiser_set_badge_assignement so lost B b a =
     (let reset = (fst b = ADVERTISING_RESET_ID \<and> snd b = ADVERTISING_RESET_GROUP);
          b = (if reset then advertiser_get_default_badge_assignement a else b);
          a = publish B (set_assignement b a)
      in if reset then
           (case storer_clear_badge_assignement so (adv_storer a) of (r, st) \<Rightarrow> (code r, a\<lparr>adv_storer := st\<rparr>))
         else
           (case read_assignement so lost a of ((ret, stored), a) \<Rightarrow>
            if ret = NRF_ERROR_INVALID_STATE \<or> ret = NRF_ERROR_INVALID_DATA \<or> (ret = NRF_SUCCESS \<and> (fst stored \<noteq> fst b \<or> snd stored \<noteq> snd b))
            then (case storer_store_badge_assignement so (assignement_mem b) 0 (adv_storer a) of (r, st) \<Rightarrow> (code r, a\<lparr>adv_storer := st\<rparr>))
            else if ret = NRF_ERROR_INTERNAL then (NRF_ERROR_INTERNAL, a)
            else (NRF_SUCCESS, a)))"

definition advertiser_get_badge_assignement :: "('s, 'e) advertiser \<Rightarrow> nat \<times> nat" where
  "advertiser_get_badge_assignement a = (adv_ID (advdata a), adv_group (advdata a))"

text \<open>Of the data of another badge: the bytes are copied into a structure.\<close>

definition advertiser_get_badge_assignement_from_advdata :: "byte list \<Rightarrow> nat \<times> nat" where
  "advertiser_get_badge_assignement_from_advdata d =
     (let tmp = take CUSTOM_ADVDATA_LEN d in (unat (tmp ! 2) + 256 * unat (tmp ! 3), unat (tmp ! 4)))"

definition advertiser_get_manuf_data_len :: nat where
  "advertiser_get_manuf_data_len = CUSTOM_ADVDATA_LEN + 2"

section \<open>Advertising, battery and flags\<close>

definition advertiser_start_advertising :: "'e ble_sdk \<Rightarrow> ('s, 'e) advertiser \<Rightarrow> ret_code \<times> ('s, 'e) advertiser" where
  "advertiser_start_advertising B a = (case ble_start_advertising B (ble a) of (r, e) \<Rightarrow> (r, a\<lparr>ble := e\<rparr>))"

definition advertiser_stop_advertising :: "('s, 'e) advertiser \<Rightarrow> ('s, 'e) advertiser" where
  "advertiser_stop_advertising a = a\<lparr>ble := ble_stop_advertising (ble a)\<rparr>"

text \<open>
  The voltage is a single precision number; its product with 100 is exact in double precision, so
  that the value is the rational number itself.  The conversion to \<open>int32_t\<close> cuts off the fraction.
\<close>

definition scaled_battery_voltage :: "rat \<Rightarrow> int" where
  "scaled_battery_voltage voltage =
     (let x = 100 * voltage;
          v = (if x \<ge> 0 then \<lfloor>x\<rfloor> else \<lceil>x\<rceil>) - 100;
          v = (if v < 0 then 0 else v)
      in if v > 255 then 255 else v)"

definition advertiser_set_battery_voltage :: "'e ble_sdk \<Rightarrow> rat \<Rightarrow> ('s, 'e) advertiser \<Rightarrow> ('s, 'e) advertiser" where
  "advertiser_set_battery_voltage B voltage a =
     publish B (a\<lparr>advdata := (advdata a)\<lparr>battery := of_int (scaled_battery_voltage voltage)\<rparr>\<rparr>)"

definition set_flag :: "'e ble_sdk \<Rightarrow> nat \<Rightarrow> bool \<Rightarrow> ('s, 'e) advertiser \<Rightarrow> ('s, 'e) advertiser" where
  "set_flag B n b a = publish B (a\<lparr>advdata := (advdata a)\<lparr>status_flags :=
     (if b then status_flags (advdata a) OR push_bit n 1 else status_flags (advdata a) AND NOT (push_bit n 1))\<rparr>\<rparr>)"

definition get_flag :: "nat \<Rightarrow> ('s, 'e) advertiser \<Rightarrow> bool" where
  "get_flag n a \<longleftrightarrow> status_flags (advdata a) AND push_bit n 1 \<noteq> 0"

definition advertiser_set_status_flag_is_clock_synced :: "'e ble_sdk \<Rightarrow> bool \<Rightarrow> ('s, 'e) advertiser \<Rightarrow> ('s, 'e) advertiser" where
  "advertiser_set_status_flag_is_clock_synced B = set_flag B 0"

definition advertiser_set_status_flag_microphone_enabled :: "'e ble_sdk \<Rightarrow> bool \<Rightarrow> ('s, 'e) advertiser \<Rightarrow> ('s, 'e) advertiser" where
  "advertiser_set_status_flag_microphone_enabled B = set_flag B 1"

definition advertiser_set_status_flag_scan_enabled :: "'e ble_sdk \<Rightarrow> bool \<Rightarrow> ('s, 'e) advertiser \<Rightarrow> ('s, 'e) advertiser" where
  "advertiser_set_status_flag_scan_enabled B = set_flag B 2"

definition advertiser_set_status_flag_accelerometer_enabled :: "'e ble_sdk \<Rightarrow> bool \<Rightarrow> ('s, 'e) advertiser \<Rightarrow> ('s, 'e) advertiser" where
  "advertiser_set_status_flag_accelerometer_enabled B = set_flag B 3"

definition advertiser_set_status_flag_accelerometer_interrupt_enabled :: "'e ble_sdk \<Rightarrow> bool \<Rightarrow> ('s, 'e) advertiser \<Rightarrow> ('s, 'e) advertiser" where
  "advertiser_set_status_flag_accelerometer_interrupt_enabled B = set_flag B 4"

definition advertiser_set_status_flag_battery_enabled :: "'e ble_sdk \<Rightarrow> bool \<Rightarrow> ('s, 'e) advertiser \<Rightarrow> ('s, 'e) advertiser" where
  "advertiser_set_status_flag_battery_enabled B = set_flag B 5"

definition advertiser_get_status_flag_is_clock_synced :: "('s, 'e) advertiser \<Rightarrow> bool" where
  "advertiser_get_status_flag_is_clock_synced = get_flag 0"

definition advertiser_get_status_flag_microphone_enabled :: "('s, 'e) advertiser \<Rightarrow> bool" where
  "advertiser_get_status_flag_microphone_enabled = get_flag 1"

definition advertiser_get_status_flag_scan_enabled :: "('s, 'e) advertiser \<Rightarrow> bool" where
  "advertiser_get_status_flag_scan_enabled = get_flag 2"

definition advertiser_get_status_flag_accelerometer_enabled :: "('s, 'e) advertiser \<Rightarrow> bool" where
  "advertiser_get_status_flag_accelerometer_enabled = get_flag 3"

definition advertiser_get_status_flag_accelerometer_interrupt_enabled :: "('s, 'e) advertiser \<Rightarrow> bool" where
  "advertiser_get_status_flag_accelerometer_interrupt_enabled = get_flag 4"

definition advertiser_get_status_flag_battery_enabled :: "('s, 'e) advertiser \<Rightarrow> bool" where
  "advertiser_get_status_flag_battery_enabled = get_flag 5"

section \<open>Theorems\<close>

definition advdata_wf :: "custom_advdata \<Rightarrow> bool" where
  "advdata_wf d \<longleftrightarrow> adv_ID d < 65536 \<and> adv_group d < 256 \<and> length (MAC d) = 6"

lemma get_set_flag:
  assumes "n < 8" "k < 8"
  shows "get_flag k (set_flag B n b a) = (if k = n then b else get_flag k a)"
proof -
  have "(w AND push_bit k 1 \<noteq> (0 :: byte)) = bit w k" for w :: byte
    by (simp add: push_bit_eq_mult and_exp_eq_0_iff_not_bit)
  then show ?thesis using assms by (auto simp: get_flag_def set_flag_def publish_def bit_simps)
qed

lemma rd_uint_less: "rd_uint m a n < 256 ^ n"
proof -
  have "foldr (\<lambda>b v. unat b + 256 * v) bs 0 < 256 ^ length bs" for bs :: "byte list"
  proof (induction bs)
    case (Cons b bs)
    have "unat b + 256 * x < 256 * p" if "x < p" for x p :: nat using unat_byte_less[of b] that by linarith
    with Cons show ?case by simp
  qed simp
  from this[of "rd m a n"] show ?thesis by (simp add: rd_uint_def rd_def)
qed

lemma assignement_at_less: "fst (assignement_at m a) < 65536" "snd (assignement_at m a) < 256"
  using rd_uint_less[of m _ 2] rd_uint_less[of m _ 1] by (simp_all add: assignement_at_def)

lemma default_wf: "fst (advertiser_get_default_badge_assignement a) < 65536" "snd (advertiser_get_default_badge_assignement a) < 256"
  by (simp_all add: advertiser_get_default_badge_assignement_def crc16_less ADVERTISING_DEFAULT_GROUP_def)

lemma set_assignement_wf:
  "advdata_wf (advdata a) \<Longrightarrow> fst b < 65536 \<Longrightarrow> snd b < 256 \<Longrightarrow> advdata_wf (advdata (set_assignement b a))"
  by (simp add: set_assignement_def advdata_wf_def)

lemma read_assignement_keeps: "read_assignement so lost a = (r, a') \<Longrightarrow> advdata a' = advdata a \<and> ble a' = ble a"
  by (auto simp: read_assignement_def split: prod.splits)

lemma read_assignement_less: "read_assignement so lost a = ((r, b), a') \<Longrightarrow> fst b < 65536 \<and> snd b < 256"
  by (auto simp: read_assignement_def assignement_at_less split: prod.splits)

lemma two_bytes: "x < 65536 \<Longrightarrow> x mod 256 + 256 * (x div 256 mod 256) = (x :: nat)"
proof -
  assume "x < 65536"
  then have "x div 256 < 256" by (intro less_mult_imp_div_less) simp
  then show ?thesis using mult_div_mod_eq[of 256 x] by simp
qed

lemma advertised_assignement:
  "advdata_wf (advdata a) \<Longrightarrow> advertiser_get_badge_assignement_from_advdata (custom_advdata_bytes (advdata a)) = advertiser_get_badge_assignement a"
  by (simp add: advertiser_get_badge_assignement_from_advdata_def advertiser_get_badge_assignement_def
      custom_advdata_bytes_def CUSTOM_ADVDATA_LEN_def advdata_wf_def unat_of_nat take_bit_eq_mod Let_def two_bytes)

text \<open>Every change ends with the publication of the new data, from the state of the Bluetooth module before the change.\<close>

definition published :: "'e ble_sdk \<Rightarrow> ('s, 'e) advertiser \<Rightarrow> ('s, 'e) advertiser \<Rightarrow> bool" where
  "published B a a' \<longleftrightarrow> advdata_wf (advdata a')
     \<and> ble a' = snd (ble_set_advertising_custom_advdata B CUSTOM_COMPANY_IDENTIFIER (custom_advdata_bytes (advdata a')) (ble a))"

lemma publish_published: "advdata_wf (advdata c) \<Longrightarrow> ble c = ble a \<Longrightarrow> published B a (publish B c)"
  by (simp add: published_def publish_def advdata_wf_def custom_advdata_bytes_def CUSTOM_ADVDATA_LEN_def)

lemma init_published:
  assumes "length (sd_ble_gap_address_get B (softdevice (ble a))) = 6"
  shows "published B a (advertiser_init so lost B a)"
proof -
  let ?a1 = "a\<lparr>advdata := \<lparr>battery = 0, status_flags = 0, adv_ID = 0, adv_group = 0, MAC = rev (take 6 (ble_get_MAC_address B (ble a)))\<rparr>\<rparr>"
  obtain ret stored a2 where r: "read_assignement so lost ?a1 = ((ret, stored), a2)" by (metis prod.collapse)
  define c where "c = set_assignement (if ret \<noteq> NRF_SUCCESS then advertiser_get_default_badge_assignement a2 else stored) a2"
  have a2: "advdata_wf (advdata a2)" "ble a2 = ble a" using read_assignement_keeps[OF r] assms by (simp_all add: advdata_wf_def ble_get_MAC_address_def)
  then have "advdata_wf (advdata c)" unfolding c_def using read_assignement_less[OF r] default_wf by (intro set_assignement_wf) auto
  moreover have "ble c = ble a" using a2 by (simp add: c_def set_assignement_def)
  moreover have "advertiser_init so lost B a = publish B c" using r by (simp add: advertiser_init_def Let_def c_def)
  ultimately show ?thesis by (simp add: publish_published)
qed

lemma assignement_published:
  assumes "advdata_wf (advdata a)" and "fst b < 65536" and "snd b < 256"
  shows "published B a (snd (advertiser_set_badge_assignement so lost B b a))"
proof -
  let ?b = "if fst b = ADVERTISING_RESET_ID \<and> snd b = ADVERTISING_RESET_GROUP then advertiser_get_default_badge_assignement a else b"
  let ?c = "publish B (set_assignement ?b a)" and ?a' = "snd (advertiser_set_badge_assignement so lost B b a)"
  have "published B a ?c" using assms default_wf by (intro publish_published set_assignement_wf) (auto simp: set_assignement_def)
  moreover obtain r a2 where r: "read_assignement so lost ?c = (r, a2)" by fastforce
  have "advdata ?a' = advdata ?c \<and> ble ?a' = ble ?c"
    using r read_assignement_keeps[OF r] by (auto simp: advertiser_set_badge_assignement_def Let_def split: prod.splits if_splits)
  ultimately show ?thesis by (simp add: published_def)
qed

lemma assignement_set:
  assumes "b \<noteq> (ADVERTISING_RESET_ID, ADVERTISING_RESET_GROUP)"
  shows "advertiser_get_badge_assignement (snd (advertiser_set_badge_assignement so lost B b a)) = b"
proof -
  let ?c = "publish B (set_assignement b a)"
  have b: "\<not> (fst b = ADVERTISING_RESET_ID \<and> snd b = ADVERTISING_RESET_GROUP)" using assms by (auto simp: prod_eq_iff)
  obtain r a2 where r: "read_assignement so lost ?c = (r, a2)" by fastforce
  have "advdata (snd (advertiser_set_badge_assignement so lost B b a)) = advdata ?c"
    using r read_assignement_keeps[OF r] b by (auto simp: advertiser_set_badge_assignement_def Let_def split: prod.splits if_splits)
  then show ?thesis by (simp add: advertiser_get_badge_assignement_def publish_def set_assignement_def)
qed

lemma change_published:
  assumes "advdata_wf (advdata a)"
  shows "published B a (advertiser_set_battery_voltage B voltage a)" "published B a (set_flag B n f a)"
  using assms unfolding advertiser_set_battery_voltage_def set_flag_def by (auto intro!: publish_published simp: advdata_wf_def)

text \<open>
  C20: the start of the advertiser and every change of its state give the Bluetooth module data of 11 bytes that fit into an advertising packet together with
  name, flags and UUID of the badge.  If the SDK accepts them, they are advertised from then on: they are those of the current state, and another badge
  reads the ID and group this badge has from them.  If the SDK refuses them (never because of their size), the data advertised before stay; the code
  ignores this.  After an assignement other than the one that resets the badge, ID and group are those assigned.
\<close>

theorem advertised_data_are_current:
  fixes a' :: "('s, 'e) advertiser"
  assumes "ble_module B sent" and "advdata_wf (advdata a)" and "fst b < 65536" and "snd b < 256"
    and "a' \<in> {advertiser_init so lost B a, snd (advertiser_set_badge_assignement so lost B b a), advertiser_set_battery_voltage B voltage a, set_flag B n f a}"
    and "r = fst (ble_set_advertising_custom_advdata B CUSTOM_COMPANY_IDENTIFIER (custom_advdata_bytes (advdata a')) (ble a))"
  shows "r \<noteq> NRF_ERROR_DATA_SIZE \<and> length (custom_advdata_bytes (advdata a')) = CUSTOM_ADVDATA_LEN
    \<and> advertiser_get_badge_assignement_from_advdata (custom_advdata_bytes (advdata a')) = advertiser_get_badge_assignement a'
    \<and> (if r = NRF_SUCCESS then p_manuf_specific_data (sent (softdevice (ble a'))) = Some (CUSTOM_COMPANY_IDENTIFIER, custom_advdata_bytes (advdata a'))
         \<and> advdata_size (sent (softdevice (ble a'))) \<le> BLE_GAP_ADV_MAX_SIZE
       else sent (softdevice (ble a')) = sent (softdevice (ble a)))
    \<and> (a' = snd (advertiser_set_badge_assignement so lost B b a) \<and> b \<noteq> (ADVERTISING_RESET_ID, ADVERTISING_RESET_GROUP)
       \<longrightarrow> advertiser_get_badge_assignement a' = b)"
proof -
  have p: "published B a a'" using assms(5) init_published[OF ble_module.address_law[OF assms(1)]] assignement_published[OF assms(2-4)] change_published[OF assms(2)] by blast
  then have wf: "advdata_wf (advdata a')" by (simp add: published_def)
  have len: "length (custom_advdata_bytes (advdata a')) = CUSTOM_ADVDATA_LEN" using wf by (simp add: advdata_wf_def custom_advdata_bytes_def CUSTOM_ADVDATA_LEN_def)
  have "ble_set_advertising_custom_advdata B CUSTOM_COMPANY_IDENTIFIER (custom_advdata_bytes (advdata a')) (ble a) = (r, ble a')"
    using p assms(6) by (simp add: published_def)
  note s = ble_module.set_custom[OF assms(1) this]
  show ?thesis using s len advertised_assignement[OF wf] assignement_set[of b so lost B a] by (simp add: CUSTOM_ADVDATA_LEN_def)
qed

text \<open>A Bluetooth module that keeps the data it was given last, if they fit.\<close>

definition ble_recorder :: "ble_advdata ble_sdk" where
  "ble_recorder = \<lparr>sd_ble_gap_address_get = (\<lambda>_. [1, 2, 3, 4, 5, 6]),
     ble_advdata_set = (\<lambda>d e. if advdata_size d \<le> BLE_GAP_ADV_MAX_SIZE then (NRF_SUCCESS, d) else (NRF_ERROR_DATA_SIZE, e)),
     ble_advertising_start = Pair NRF_SUCCESS\<rparr>"

interpretation recorder: ble_module ble_recorder "\<lambda>d. d"
  by unfold_locales (auto simp: ble_recorder_def split: if_splits)

definition sample_advdata :: custom_advdata where
  "sample_advdata = \<lparr>battery = 7, status_flags = 0, adv_ID = 1, adv_group = 2, MAC = [6, 5, 4, 3, 2, 1]\<rparr>"

theorem advertised_data_are_current_witness:
  "\<forall>so lost (a :: (unit, ble_advdata) advertiser). \<exists>d.
     p_manuf_specific_data (softdevice (ble (snd (advertiser_set_badge_assignement so lost ble_recorder (4711, 9) (a\<lparr>advdata := sample_advdata\<rparr>)))))
       = Some (CUSTOM_COMPANY_IDENTIFIER, d) \<and> advertiser_get_badge_assignement_from_advdata d = (4711, 9)"
proof (intro allI)
  fix so lost and a :: "(unit, ble_advdata) advertiser"
  let ?a = "a\<lparr>advdata := sample_advdata\<rparr>"
  let ?a' = "snd (advertiser_set_badge_assignement so lost ble_recorder (4711, 9) ?a)"
  let ?r = "fst (ble_set_advertising_custom_advdata ble_recorder CUSTOM_COMPANY_IDENTIFIER (custom_advdata_bytes (advdata ?a')) (ble ?a))"
  have wf: "advdata_wf (advdata ?a)" by (simp add: advdata_wf_def sample_advdata_def)
  have "?r = NRF_SUCCESS \<or> ?r = NRF_ERROR_DATA_SIZE" by (simp add: ble_set_advertising_custom_advdata_def ble_recorder_def)
  moreover have "(4711, 9) \<noteq> (ADVERTISING_RESET_ID, ADVERTISING_RESET_GROUP)" by (simp add: ADVERTISING_RESET_ID_def)
  ultimately show "\<exists>d. p_manuf_specific_data (softdevice (ble ?a')) = Some (CUSTOM_COMPANY_IDENTIFIER, d)
      \<and> advertiser_get_badge_assignement_from_advdata d = (4711, 9)"
    using advertised_data_are_current[OF recorder.ble_module_axioms wf, of "(4711, 9)" ?a' so lost _ _ _ ?r] by fastforce
qed

text \<open>The flags of the data sources are independent: setting one shows in its own query and in no other.\<close>

theorem status_flags_independent:
  assumes "setters = [advertiser_set_status_flag_is_clock_synced, advertiser_set_status_flag_microphone_enabled, advertiser_set_status_flag_scan_enabled,
      advertiser_set_status_flag_accelerometer_enabled, advertiser_set_status_flag_accelerometer_interrupt_enabled, advertiser_set_status_flag_battery_enabled]"
    and "getters = [advertiser_get_status_flag_is_clock_synced, advertiser_get_status_flag_microphone_enabled, advertiser_get_status_flag_scan_enabled,
      advertiser_get_status_flag_accelerometer_enabled, advertiser_get_status_flag_accelerometer_interrupt_enabled, advertiser_get_status_flag_battery_enabled]"
    and "n < 6" and "k < 6"
  shows "(getters ! k) ((setters ! n) B b a) = (if k = n then b else (getters ! k) a)"
proof -
  have "setters = map (\<lambda>n B. set_flag B n) [0..<6]"
    unfolding assms(1) by (simp add: upt_rec eval_nat_numeral fun_eq_iff advertiser_set_status_flag_is_clock_synced_def
        advertiser_set_status_flag_microphone_enabled_def advertiser_set_status_flag_scan_enabled_def advertiser_set_status_flag_accelerometer_enabled_def
        advertiser_set_status_flag_accelerometer_interrupt_enabled_def advertiser_set_status_flag_battery_enabled_def)
  moreover have "getters = map get_flag [0..<6]"
    unfolding assms(2) by (simp add: upt_rec eval_nat_numeral fun_eq_iff advertiser_get_status_flag_is_clock_synced_def
        advertiser_get_status_flag_microphone_enabled_def advertiser_get_status_flag_scan_enabled_def advertiser_get_status_flag_accelerometer_enabled_def
        advertiser_get_status_flag_accelerometer_interrupt_enabled_def advertiser_get_status_flag_battery_enabled_def)
  ultimately show ?thesis using assms(3,4) get_set_flag[of n k B b a] by simp
qed

theorem status_flags_independent_witness:
  "\<forall>(B :: unit ble_sdk) b (a :: (unit, unit) advertiser).
     advertiser_get_status_flag_microphone_enabled (advertiser_set_status_flag_battery_enabled B b a) = advertiser_get_status_flag_microphone_enabled a"
proof (intro allI)
  fix B :: "unit ble_sdk" and b and a :: "(unit, unit) advertiser"
  show "advertiser_get_status_flag_microphone_enabled (advertiser_set_status_flag_battery_enabled B b a) = advertiser_get_status_flag_microphone_enabled a"
    using status_flags_independent[OF refl refl, of 5 1 B b a] by simp
qed

text \<open>The advertised voltage fits into its byte and is that of the battery, in steps of 0.01 V above 1 V, rounded down and cut at 3.55 V.\<close>

theorem battery_voltage_in_range:
  "0 \<le> scaled_battery_voltage v \<and> scaled_battery_voltage v \<le> 255
   \<and> (1 \<le> v \<and> v < 3.56 \<longrightarrow> of_int (scaled_battery_voltage v) \<le> 100 * v - 100 \<and> 100 * v - 100 < of_int (scaled_battery_voltage v) + 1)"
proof -
  have "of_int (scaled_battery_voltage v) \<le> 100 * v - 100 \<and> 100 * v - 100 < of_int (scaled_battery_voltage v) + 1" if "1 \<le> v" "v < 3.56"
  proof -
    have "100 \<le> \<lfloor>100 * v\<rfloor>" "\<lfloor>100 * v\<rfloor> < 356" using that by (simp_all add: le_floor_iff floor_less_iff)
    then have "scaled_battery_voltage v = \<lfloor>100 * v\<rfloor> - 100" using that by (simp add: scaled_battery_voltage_def Let_def)
    then show ?thesis by (simp add: algebra_simps) linarith
  qed
  then show ?thesis by (auto simp: scaled_battery_voltage_def Let_def)
qed

theorem battery_voltage_in_range_witness: "of_int (scaled_battery_voltage 3) \<le> 100 * (3 :: rat) - 100"
  using battery_voltage_in_range[of 3] by simp

end
