(* ===== verification/C_Float.thy ===== *)
theory C_Float
  imports Complex_Main "HOL-Library.Log_Nat"
begin

text \<open>
  The single precision arithmetic of the soft-float library the firmware is linked with
  (\<^verbatim>\<open>-mfloat-abi=soft\<close> in the \<^verbatim>\<open>Makefile\<close>): a \<open>float\<close> is the rational number it denotes, and every
  operation is the exact one followed by \<open>f32\<close>, the rounding to the nearest number with 24 significant bits, to
  the even one of two.  The numbers of the modelled code are positive and between \<open>2\<^sup>-\<^sup>6\<^sup>4\<close> and \<open>2\<^sup>6\<^sup>4\<close>, so that
  neither overflow nor subnormal numbers occur and the exponent needs no bounds.
\<close>

section \<open>Rounding\<close>

definition ilog2 :: "rat \<Rightarrow> int" where
  "ilog2 x = (case quotient_of x of (p, q) \<Rightarrow>
     let e = bitlen p - bitlen q in if 2 powi e \<le> x then e else e - 1)"

definition round_even :: "rat \<Rightarrow> int" where
  "round_even r = (let n = \<lfloor>r\<rfloor>; d = r - of_int n in
     if d < 1 / 2 then n else if d > 1 / 2 then n + 1 else if even n then n else n + 1)"

definition f32 :: "rat \<Rightarrow> rat" where
  "f32 x = (if x \<le> 0 then 0 else let u = 2 powi (ilog2 x - 23) in of_int (round_even (x / u)) * u)"

text \<open>The conversion of an unsigned integer, and the one back to an integer, which cuts off the fraction.\<close>

definition float_of_uint :: "nat \<Rightarrow> rat" where
  "float_of_uint n = f32 (of_nat n)"

definition uint_of_float :: "rat \<Rightarrow> nat" where
  "uint_of_float x = nat \<lfloor>x\<rfloor>"

section \<open>Properties of the rounding\<close>

lemma bitlen_range:
  assumes "p > 0"
  shows "2 powi (bitlen p - 1) \<le> (of_int p :: rat)" and "of_int p < (2 powi bitlen p :: rat)"
proof -
  have b: "2 ^ nat (bitlen p - 1) \<le> p \<and> p < 2 ^ nat (bitlen p)" using bitlen_bounds[of p] assms by simp
  have pos: "bitlen p \<ge> 1"
  proof (rule ccontr)
    assume "\<not> bitlen p \<ge> 1"
    then have "nat (bitlen p) = 0" by simp
    then show False using b assms by simp
  qed
  have "(of_int (2 ^ nat (bitlen p - 1)) :: rat) \<le> of_int p" using b by (simp only: of_int_le_iff)
  then show "2 powi (bitlen p - 1) \<le> (of_int p :: rat)" using pos by (simp add: power_int_def)
  have "(of_int p :: rat) < of_int (2 ^ nat (bitlen p))" using b by (simp only: of_int_less_iff)
  then show "of_int p < (2 powi bitlen p :: rat)" using pos by (simp add: power_int_def)
qed

lemma ilog2_range:
  assumes "x > 0"
  shows "2 powi ilog2 x \<le> x" and "x < 2 * 2 powi ilog2 x"
proof -
  obtain p q where pq: "quotient_of x = (p, q)" by fastforce
  have q: "q > 0" and x: "x = of_int p / of_int q"
    using pq quotient_of_denom_pos quotient_of_div by auto
  have p: "p > 0" using assms q unfolding x by (simp add: zero_less_divide_iff)
  let ?e = "bitlen p - bitlen q"
  note P = bitlen_range[OF p] and Q = bitlen_range[OF q]
  have q': "(0 :: rat) < of_int q" "(0 :: rat) < 2 powi (bitlen q - 1)" using q by simp_all
  have "x \<ge> 2 powi (bitlen p - 1) / 2 powi bitlen q"
    unfolding x using P(1) Q(2) q' p by (intro frac_le) auto
  then have lo: "x \<ge> 2 powi (?e - 1)" by (simp add: power_int_diff power_int_add)
  have "x < 2 powi bitlen p / 2 powi (bitlen q - 1)"
    unfolding x using P(2) Q(1) q' p by (intro frac_less) auto
  then have hi: "x < 2 * 2 powi ?e" by (simp add: power_int_diff power_int_add mult.commute)
  show "2 powi ilog2 x \<le> x" using lo by (simp add: ilog2_def pq Let_def)
  have "2 * 2 powi (?e - 1) = (2 powi ?e :: rat)" by (simp add: power_int_diff)
  then show "x < 2 * 2 powi ilog2 x" using hi by (simp add: ilog2_def pq Let_def)
qed

lemma powi_mono_iff: "(2 powi a \<le> (2 powi b :: rat)) \<longleftrightarrow> a \<le> b"
  by (meson linorder_not_le one_less_numeral_iff power_int_increasing power_int_strict_increasing semiring_norm(76) order_less_imp_le)

lemma ilog2_mono:
  assumes "0 < x" and "x \<le> y"
  shows "ilog2 x \<le> ilog2 y"
proof (rule ccontr)
  assume "\<not> ilog2 x \<le> ilog2 y"
  then have "(2 powi (ilog2 y + 1) :: rat) \<le> 2 powi ilog2 x" by (subst powi_mono_iff) simp
  then have "y < x" using ilog2_range[of x] ilog2_range[of y] assms by (simp add: power_int_add)
  then show False using assms by simp
qed

lemma round_even_near: "\<bar>of_int (round_even r) - r\<bar> \<le> 1 / 2"
proof -
  have "of_int \<lfloor>r\<rfloor> \<le> r" "r < of_int \<lfloor>r\<rfloor> + 1" by linarith+
  then show ?thesis unfolding round_even_def Let_def abs_le_iff by (auto split: if_splits) linarith
qed

lemma round_even_int [simp]: "round_even (of_int n) = n"
  by (simp add: round_even_def)

lemma round_even_mono:
  assumes "r \<le> s"
  shows "round_even r \<le> round_even s"
proof (cases "\<lfloor>r\<rfloor> = \<lfloor>s\<rfloor>")
  case True
  then show ?thesis using assms by (simp add: round_even_def Let_def)
next
  case False
  then have "\<lfloor>r\<rfloor> + 1 \<le> \<lfloor>s\<rfloor>" using floor_mono[OF assms] by linarith
  moreover have "round_even r \<le> \<lfloor>r\<rfloor> + 1" by (simp add: round_even_def Let_def)
  moreover have "\<lfloor>s\<rfloor> \<le> round_even s" by (simp add: round_even_def Let_def)
  ultimately show ?thesis by linarith
qed

lemma f32_nonneg [simp]: "0 \<le> f32 x"
proof (cases "x \<le> 0")
  case False
  then have "0 \<le> x / 2 powi (ilog2 x - 23)" by simp
  then have "round_even 0 \<le> round_even (x / 2 powi (ilog2 x - 23))" by (rule round_even_mono)
  then have "0 \<le> round_even (x / 2 powi (ilog2 x - 23))" using round_even_int[of 0] by simp
  then show ?thesis by (simp add: f32_def Let_def)
qed (simp add: f32_def)

text \<open>The relative error of a rounding is at most \<open>2\<^sup>-\<^sup>2\<^sup>4\<close>.\<close>

lemma f32_error:
  assumes "0 \<le> x"
  shows "\<bar>f32 x - x\<bar> \<le> x / 2 ^ 24"
proof (cases "x = 0")
  case False
  then have x: "x > 0" using assms by simp
  let ?u = "2 powi (ilog2 x - 23) :: rat"
  have u: "?u > 0" by simp
  have "f32 x - x = (of_int (round_even (x / ?u)) - x / ?u) * ?u" using x u by (simp add: f32_def Let_def left_diff_distrib)
  then have "\<bar>f32 x - x\<bar> = \<bar>of_int (round_even (x / ?u)) - x / ?u\<bar> * ?u" using u by (simp add: abs_mult)
  also have "\<dots> \<le> 1 / 2 * ?u" using round_even_near u by (intro mult_right_mono) auto
  also have "\<dots> = 2 powi ilog2 x / 2 ^ 24" by (simp add: power_int_diff)
  also have "\<dots> \<le> x / 2 ^ 24" using ilog2_range(1)[OF x] by (intro divide_right_mono) auto
  finally show ?thesis .
qed (simp add: f32_def)

lemma f32_between:
  assumes "0 < x"
  shows "2 powi ilog2 x \<le> f32 x" and "f32 x \<le> 2 * 2 powi ilog2 x"
proof -
  let ?u = "2 powi (ilog2 x - 23) :: rat"
  have u: "?u > 0" by simp
  have e: "2 powi ilog2 x = 2 ^ 23 * ?u" by (simp add: power_int_diff)
  have "round_even (of_int (2 ^ 23)) \<le> round_even (x / ?u)"
    using ilog2_range(1)[OF assms] u unfolding e by (intro round_even_mono) (simp add: pos_le_divide_eq)
  then have lo: "(2 ^ 23 :: rat) \<le> of_int (round_even (x / ?u))" by (simp only: round_even_int) (metis of_int_le_iff of_int_numeral of_int_power)
  have "round_even (x / ?u) \<le> round_even (of_int (2 ^ 24))"
    using ilog2_range(2)[OF assms] u unfolding e by (intro round_even_mono) (simp add: pos_divide_le_eq)
  then have hi: "of_int (round_even (x / ?u)) \<le> (2 ^ 24 :: rat)" by (simp only: round_even_int) (metis of_int_le_iff of_int_numeral of_int_power)
  have "2 ^ 23 * ?u \<le> of_int (round_even (x / ?u)) * ?u" using lo u by (intro mult_right_mono) auto
  then show "2 powi ilog2 x \<le> f32 x" using assms by (simp add: e f32_def Let_def)
  have "of_int (round_even (x / ?u)) * ?u \<le> 2 ^ 24 * ?u" using hi u by (intro mult_right_mono) auto
  then show "f32 x \<le> 2 * 2 powi ilog2 x" using assms by (simp add: e f32_def Let_def)
qed

lemma f32_mono:
  assumes "x \<le> y"
  shows "f32 x \<le> f32 y"
proof (cases "x \<le> 0")
  case True
  then show ?thesis using f32_nonneg[of y] by (simp add: f32_def)
next
  case False
  then have x: "0 < x" and y: "0 < y" using assms by auto
  show ?thesis
  proof (cases "ilog2 x = ilog2 y")
    case True
    have "round_even (x / 2 powi (ilog2 y - 23)) \<le> round_even (y / 2 powi (ilog2 y - 23))"
      using assms by (intro round_even_mono divide_right_mono) auto
    then show ?thesis using x y True by (simp add: f32_def Let_def)
  next
    case False
    then have "ilog2 x + 1 \<le> ilog2 y" using ilog2_mono[OF x assms] by simp
    then have "(2 powi (ilog2 x + 1) :: rat) \<le> 2 powi ilog2 y" by (simp only: powi_mono_iff)
    then show ?thesis using f32_between(2)[OF x] f32_between(1)[OF y] by (simp add: power_int_add)
  qed
qed

text \<open>A number with at most 24 significant bits is not changed.\<close>

lemma ilog2_eqI:
  assumes "2 powi e \<le> x" and "x < 2 * 2 powi e"
  shows "ilog2 x = e"
proof -
  have x: "0 < x" using assms(1) zero_less_power_int[of "2 :: rat" e] by linarith
  have "(2 powi e :: rat) < 2 powi (ilog2 x + 1)" using ilog2_range(2)[OF x] assms by (simp add: power_int_add)
  then have 1: "\<not> ilog2 x + 1 \<le> e" by (simp only: powi_mono_iff[symmetric] not_le)
  have "(2 powi ilog2 x :: rat) < 2 powi (e + 1)" using ilog2_range(1)[OF x] assms by (simp add: power_int_add)
  then have 2: "\<not> e + 1 \<le> ilog2 x" by (simp only: powi_mono_iff[symmetric] not_le)
  show ?thesis using 1 2 by linarith
qed

lemma f32_eval:
  assumes "2 ^ 23 \<le> x / 2 powi k" and "x / 2 powi k < 2 ^ 24"
  shows "f32 x = of_int (round_even (x / 2 powi k)) * 2 powi k"
proof -
  have k: "(0 :: rat) < 2 powi k" by simp
  have "2 ^ 23 * 2 powi k \<le> x" "x < 2 ^ 24 * 2 powi k" using assms k by (simp_all add: pos_le_divide_eq pos_divide_less_eq)
  moreover have "2 powi (k + 23) = (2 ^ 23 * 2 powi k :: rat)" by (simp add: power_int_add)
  ultimately have "ilog2 x = k + 23" by (intro ilog2_eqI) simp_all
  moreover have "0 < 2 ^ 23 * (2 powi k :: rat)" by simp
  then have "0 < x" using \<open>2 ^ 23 * 2 powi k \<le> x\<close> by (rule less_le_trans)
  ultimately show ?thesis by (simp add: f32_def Let_def)
qed

lemma f32_exact:
  assumes "n < 2 ^ 24"
  shows "f32 (of_nat n * 2 powi k) = of_nat n * 2 powi k"
proof (cases "n = 0")
  case False
  let ?x = "of_nat n * 2 powi k :: rat"
  have x: "?x > 0" using False by simp
  have "(of_nat n :: rat) < 2 ^ 24" using assms by (metis of_nat_less_iff of_nat_numeral of_nat_power)
  then have "?x < 2 ^ 24 * 2 powi k" by (intro mult_strict_right_mono) auto
  also have "2 ^ 24 * 2 powi k = (2 powi (k + 24) :: rat)" by (simp add: power_int_add)
  finally have "(2 powi ilog2 ?x :: rat) < 2 powi (k + 24)" by (rule le_less_trans[OF ilog2_range(1)[OF x]])
  then have "\<not> k + 24 \<le> ilog2 ?x" by (simp only: powi_mono_iff[symmetric] not_le)
  then have e: "ilog2 ?x - 23 \<le> k" by simp
  have "?x / 2 powi (ilog2 ?x - 23) = of_nat n * 2 powi (k - (ilog2 ?x - 23))" by (simp add: power_int_diff)
  also have "\<dots> = of_int (int n * 2 ^ nat (k - (ilog2 ?x - 23)))" using e by (simp add: power_int_def)
  finally have *: "?x / 2 powi (ilog2 ?x - 23) = of_int (int n * 2 ^ nat (k - (ilog2 ?x - 23)))" .
  have "f32 ?x = of_int (round_even (?x / 2 powi (ilog2 ?x - 23))) * 2 powi (ilog2 ?x - 23)" using x by (simp add: f32_def Let_def)
  also have "\<dots> = ?x" by (simp only: * round_even_int) (simp only: *[symmetric], simp)
  finally show ?thesis .
qed (simp add: f32_def)

lemma float_of_uint_exact: "n < 2 ^ 24 \<Longrightarrow> float_of_uint n = of_nat n"
  using f32_exact[of n 0] by (simp add: float_of_uint_def)

end
