(* ===== verification/Systick.thy ===== *)
theory Systick
  imports OB_Prelude C_Float
begin

text \<open>
  The clock of the badge, \<^verbatim>\<open>incl/systick_lib.c\<close>: a count of the ticks of the 32768 Hz oscillator that does not
  overflow with the 24 bits of the hardware counter, and a straight line from ticks to the milliseconds of
  a time source outside, whose slope is adapted with every synchronisation.  The counter and the timer of the SDK
  are parameters.
\<close>

section \<open>State\<close>

definition SYSTICK_TIMER_CALLBACK_PERIOD_MS :: nat where "SYSTICK_TIMER_CALLBACK_PERIOD_MS = 100 * 1000"
definition APP_TIMER_CLOCK_FREQ :: nat where "APP_TIMER_CLOCK_FREQ = 32768"
definition CLOCK_FREQ_DEVIATION_HZ :: rat where "CLOCK_FREQ_DEVIATION_HZ = 5"

definition MIN_MILLIS_PER_TICKS :: rat where
  "MIN_MILLIS_PER_TICKS = f32 (1000 / f32 (float_of_uint APP_TIMER_CLOCK_FREQ + CLOCK_FREQ_DEVIATION_HZ))"

definition MAX_MILLIS_PER_TICKS :: rat where
  "MAX_MILLIS_PER_TICKS = f32 (1000 / f32 (float_of_uint APP_TIMER_CLOCK_FREQ - CLOCK_FREQ_DEVIATION_HZ))"

record 'e systick =
  ticks_since_start :: nat
  former_ticks :: nat
  millis_synced :: bool
  millis_offset :: nat
  ticks_at_offset :: nat
  millis_per_ticks :: rat
  millis_per_ticks_default :: rat
  init_done :: bool
  rtc :: 'e

text \<open>The functions of the SDK: the counter, the difference of two of its values, and the timer of the module.\<close>

record 'e rtc_ops =
  app_timer_cnt_get :: "'e \<Rightarrow> nat \<times> 'e"
  app_timer_cnt_diff_compute :: "nat \<Rightarrow> nat \<Rightarrow> nat"
  systick_timer_create :: "'e \<Rightarrow> ret_code \<times> 'e"
  systick_timer_start :: "nat \<Rightarrow> 'e \<Rightarrow> ret_code \<times> 'e"

section \<open>Ticks\<close>

definition systick_callback :: "'e rtc_ops \<Rightarrow> 'e systick \<Rightarrow> 'e systick" where
  "systick_callback R s =
     (case app_timer_cnt_get R (rtc s) of (cur_ticks, e) \<Rightarrow>
      let diff_ticks = app_timer_cnt_diff_compute R cur_ticks (former_ticks s)
      in s\<lparr>rtc := e, former_ticks := cur_ticks, ticks_since_start := u64_add (ticks_since_start s) diff_ticks\<rparr>)"

definition systick_get_ticks_since_start :: "'e rtc_ops \<Rightarrow> 'e systick \<Rightarrow> nat \<times> 'e systick" where
  "systick_get_ticks_since_start R s =
     (case app_timer_cnt_get R (rtc s) of (cur_ticks, e) \<Rightarrow>
      (u64_add (ticks_since_start s) (app_timer_cnt_diff_compute R cur_ticks (former_ticks s)), s\<lparr>rtc := e\<rparr>))"

definition systick_init :: "'e rtc_ops \<Rightarrow> nat \<Rightarrow> 'e systick \<Rightarrow> ret_code \<times> 'e systick" where
  "systick_init R prescaler s =
     (if init_done s then (NRF_SUCCESS, s)
      else
        case app_timer_cnt_get R (rtc s) of (cur_ticks, e) \<Rightarrow>
        let s = s\<lparr>ticks_since_start := 0, former_ticks := cur_ticks, millis_synced := False, millis_offset := 0, rtc := e\<rparr> in
        case systick_get_ticks_since_start R s of (ticks, s) \<Rightarrow>
        let slope = f32 (1000 / float_of_uint ((prescaler + 1) * APP_TIMER_CLOCK_FREQ));
            s = s\<lparr>ticks_at_offset := ticks, millis_per_ticks := slope, millis_per_ticks_default := slope\<rparr>
        in case systick_timer_create R (rtc s) of (ret, e) \<Rightarrow>
           let s = s\<lparr>rtc := e\<rparr> in
           if ret \<noteq> NRF_SUCCESS then (NRF_ERROR_INTERNAL, s)
           else case systick_timer_start R SYSTICK_TIMER_CALLBACK_PERIOD_MS (rtc s) of (ret, e) \<Rightarrow>
             let s = s\<lparr>rtc := e\<rparr> in
             if ret \<noteq> NRF_SUCCESS then (NRF_ERROR_INTERNAL, s) else (NRF_SUCCESS, s\<lparr>init_done := True\<rparr>))"

section \<open>Synchronisation\<close>

text \<open>
  The weight of the moving average, \<open>float alpha = 0.1\<close>, and the slope between the last and the new
  synchronisation, kept within the bounds.
\<close>

definition sync_alpha :: rat where "sync_alpha = f32 (1 / 10)"

definition sync_slope :: "nat \<Rightarrow> nat \<Rightarrow> rat" where
  "sync_slope delta_ticks delta_millis =
     (if delta_ticks = 0 then MAX_MILLIS_PER_TICKS
      else if delta_millis = 0 then MIN_MILLIS_PER_TICKS
      else let new_millis_per_ticks = f32 (float_of_uint delta_millis / float_of_uint delta_ticks)
           in if new_millis_per_ticks < MIN_MILLIS_PER_TICKS then MIN_MILLIS_PER_TICKS
              else if new_millis_per_ticks > MAX_MILLIS_PER_TICKS then MAX_MILLIS_PER_TICKS
              else new_millis_per_ticks)"

definition average_slope :: "rat \<Rightarrow> rat \<Rightarrow> rat" where
  "average_slope new_slope old_slope = f32 (f32 (new_slope * sync_alpha) + f32 (old_slope * f32 (1 - sync_alpha)))"

text \<open>The variable \<open>error_millis\<close> of the source is only printed.\<close>

definition systick_set_millis :: "'e rtc_ops \<Rightarrow> nat \<Rightarrow> nat \<Rightarrow> 'e systick \<Rightarrow> 'e systick" where
  "systick_set_millis R ticks_since_start_at_sync millis_sync s =
     (case systick_get_ticks_since_start R s of (cur_ticks_since_start, s) \<Rightarrow>
      let ticks = (if ticks_since_start_at_sync > cur_ticks_since_start then cur_ticks_since_start else ticks_since_start_at_sync);
          ticks = (if ticks < ticks_at_offset s then ticks_at_offset s else ticks)
      in if \<not> millis_synced s then s\<lparr>millis_offset := millis_sync, ticks_at_offset := ticks, millis_synced := True\<rparr>
         else
           let delta_ticks = (if ticks > ticks_at_offset s then ticks - ticks_at_offset s else 0);
               delta_millis = (if millis_sync > millis_offset s then millis_sync - millis_offset s else 0);
               new_millis_per_ticks = sync_slope delta_ticks delta_millis
           in s\<lparr>millis_per_ticks := average_slope new_millis_per_ticks (millis_per_ticks s),
                millis_offset := millis_sync, ticks_at_offset := ticks\<rparr>)"

definition systick_set_timestamp :: "'e rtc_ops \<Rightarrow> nat \<Rightarrow> nat \<Rightarrow> nat \<Rightarrow> 'e systick \<Rightarrow> 'e systick" where
  "systick_set_timestamp R ticks_since_start_at_sync seconds_sync milliseconds_sync s =
     systick_set_millis R ticks_since_start_at_sync (seconds_sync * 1000 + milliseconds_sync) s"

section \<open>Milliseconds\<close>

definition systick_get_millis :: "'e rtc_ops \<Rightarrow> 'e systick \<Rightarrow> nat \<times> 'e systick" where
  "systick_get_millis R s =
     (case systick_get_ticks_since_start R s of (cur_ticks_since_start, s) \<Rightarrow>
      (u64_add (uint_of_float (f32 (millis_per_ticks s * float_of_uint (u64_sub cur_ticks_since_start (ticks_at_offset s))))) (millis_offset s), s))"

definition systick_get_continuous_millis :: "'e rtc_ops \<Rightarrow> 'e systick \<Rightarrow> nat \<times> 'e systick" where
  "systick_get_continuous_millis R s =
     (case systick_get_ticks_since_start R s of (cur_ticks_since_start, s) \<Rightarrow>
      (uint_of_float (f32 (millis_per_ticks_default s * float_of_uint cur_ticks_since_start)), s))"

definition systick_get_timestamp :: "'e rtc_ops \<Rightarrow> 'e systick \<Rightarrow> (nat \<times> nat) \<times> 'e systick" where
  "systick_get_timestamp R s =
     (case systick_get_millis R s of (millis, s) \<Rightarrow> ((u32 (millis div 1000), u16 (millis mod 1000)), s))"

definition systick_is_synced :: "'e systick \<Rightarrow> bool" where
  "systick_is_synced s = millis_synced s"

text \<open>The busy-wait loop; \<open>irq\<close> stands for the interrupts between two polls, among them the callback of the timer.\<close>

partial_function (option) delay_loop :: "'e rtc_ops \<Rightarrow> ('e systick \<Rightarrow> 'e systick) \<Rightarrow> nat \<Rightarrow> 'e systick \<Rightarrow> 'e systick option" where
  "delay_loop R irq end_millis s =
     (case systick_get_continuous_millis R s of (millis, s) \<Rightarrow>
      if millis < end_millis then delay_loop R irq end_millis (irq s) else Some s)"

definition systick_delay_millis :: "'e rtc_ops \<Rightarrow> ('e systick \<Rightarrow> 'e systick) \<Rightarrow> nat \<Rightarrow> 'e systick \<Rightarrow> 'e systick option" where
  "systick_delay_millis R irq millis s =
     (case systick_get_continuous_millis R s of (now, s) \<Rightarrow> delay_loop R irq (u64_add now millis) s)"

section \<open>Runs of the clock\<close>

text \<open>
  The counter of the SDK, as its documentation describes it: the 24 low bits of the ticks that have passed, and
  differences modulo its width.  \<open>time_of\<close> is the number of ticks since the oscillator was started.
\<close>

locale rtc_world =
  fixes R :: "'e rtc_ops" and time_of :: "'e \<Rightarrow> nat"
  assumes cnt_law: "app_timer_cnt_get R e = (c, e') \<Longrightarrow> c = time_of e mod 2 ^ 24 \<and> time_of e \<le> time_of e'"
    and diff_law: "c < 2 ^ 24 \<Longrightarrow> d < 2 ^ 24 \<Longrightarrow> app_timer_cnt_diff_compute R c d = (c + (2 ^ 24 - d)) mod 2 ^ 24"
    and create_law: "systick_timer_create R e = (r, e') \<Longrightarrow> time_of e \<le> time_of e'"
    and start_law: "systick_timer_start R ms e = (r, e') \<Longrightarrow> time_of e \<le> time_of e'"

text \<open>
  What happens to a started clock: time passes, it is read, the timer expires, and it is synchronised.  The second
  component is the time of the last expiry; an expiry comes within 512 seconds of the last one (the period of
  the timer is 100 seconds).  The label tells the synchronisations.
\<close>

inductive systick_step :: "'e rtc_ops \<Rightarrow> ('e \<Rightarrow> nat) \<Rightarrow> bool \<Rightarrow> 'e systick \<times> nat \<Rightarrow> 'e systick \<times> nat \<Rightarrow> bool"
  for R :: "'e rtc_ops" and time_of where
  step_wait: "time_of (rtc s) \<le> time_of e \<Longrightarrow> systick_step R time_of False (s, T) (s\<lparr>rtc := e\<rparr>, T)"
| step_read: "systick_step R time_of False (s, T) (snd (systick_get_ticks_since_start R s), T)"
| step_callback: "time_of (rtc s) < T + 2 ^ 24 \<Longrightarrow> systick_step R time_of False (s, T) (systick_callback R s, time_of (rtc s))"
| step_sync: "seconds < 2 ^ 32 \<Longrightarrow> ms < 2 ^ 16 \<Longrightarrow>
    systick_step R time_of True (s, T) (systick_set_timestamp R ticks seconds ms s, T)"

inductive systick_run :: "'e rtc_ops \<Rightarrow> ('e \<Rightarrow> nat) \<Rightarrow> nat \<Rightarrow> 'e systick \<times> nat \<Rightarrow> bool"
  for R :: "'e rtc_ops" and time_of and t0 where
  run_init: "\<not> init_done s0 \<Longrightarrow> time_of (rtc s0) = t0 \<Longrightarrow> systick_init R 0 s0 = (NRF_SUCCESS, s) \<Longrightarrow> systick_run R time_of t0 (s, t0)"
| run_step: "systick_run R time_of t0 c \<Longrightarrow> systick_step R time_of l c c' \<Longrightarrow> systick_run R time_of t0 c'"

text \<open>The slope stays within six Hertz of the nominal frequency.\<close>

definition slope_ok :: "rat \<Rightarrow> bool" where
  "slope_ok x \<longleftrightarrow> 1000 / 32774 \<le> x \<and> x \<le> 1000 / 32762"

definition clock_ok :: "('e \<Rightarrow> nat) \<Rightarrow> nat \<Rightarrow> 'e systick \<times> nat \<Rightarrow> bool" where
  "clock_ok time_of t0 c \<longleftrightarrow> (case c of (s, T) \<Rightarrow>
     t0 \<le> T \<and> T \<le> time_of (rtc s) \<and> former_ticks s = T mod 2 ^ 24 \<and> ticks_since_start s = (T - t0) mod 2 ^ 64
     \<and> (time_of (rtc s) - t0 < 2 ^ 64 \<longrightarrow> ticks_at_offset s \<le> time_of (rtc s) - t0)
     \<and> millis_offset s < 2 ^ 43 \<and> slope_ok (millis_per_ticks s) \<and> millis_per_ticks_default s = 1000 / 32768)"

lemma f32_values:
  "f32 (1000 / float_of_uint APP_TIMER_CLOCK_FREQ) = 1000 / 32768"
  "MIN_MILLIS_PER_TICKS = f32 (1000 / 32773)" "MAX_MILLIS_PER_TICKS = f32 (1000 / 32763)"
proof -
  have f: "float_of_uint 32768 = 32768" "float_of_uint 32773 = 32773" "float_of_uint 32763 = 32763"
    by (subst float_of_uint_exact; simp)+
  have "f32 (32768 + 5) = 32773" "f32 (32768 - 5) = 32763" using f by (simp_all add: float_of_uint_def)
  then show "MIN_MILLIS_PER_TICKS = f32 (1000 / 32773)" "MAX_MILLIS_PER_TICKS = f32 (1000 / 32763)"
    by (simp_all only: MIN_MILLIS_PER_TICKS_def MAX_MILLIS_PER_TICKS_def APP_TIMER_CLOCK_FREQ_def f CLOCK_FREQ_DEVIATION_HZ_def)
  have "f32 (of_nat 125 * 2 powi (- 12)) = of_nat 125 * 2 powi (- 12)" by (rule f32_exact) simp
  then show "f32 (1000 / float_of_uint APP_TIMER_CLOCK_FREQ) = 1000 / 32768"
    by (simp add: APP_TIMER_CLOCK_FREQ_def f power_int_minus)
qed

lemma f32_le: "0 \<le> x \<Longrightarrow> f32 x \<le> x + x / 2 ^ 24" and f32_ge: "0 \<le> x \<Longrightarrow> x - x / 2 ^ 24 \<le> f32 x"
  by (drule f32_error, linarith)+

lemma sync_slope_range: "f32 (1000 / 32773) \<le> sync_slope dt dm \<and> sync_slope dt dm \<le> f32 (1000 / 32763)"
proof -
  have "f32 (1000 / 32773) \<le> f32 (1000 / 32763)" by (rule f32_mono) simp
  then show ?thesis by (simp add: sync_slope_def f32_values Let_def)
qed

lemma average_arith:
  fixes p q r a :: rat
  assumes "(1000 / 32773 - 1000 / 32773 / 2 ^ 24) * (1 / 10 - 1 / 10 / 2 ^ 24) \<le> p"
      "p \<le> (1000 / 32763 + 1000 / 32763 / 2 ^ 24) * (1 / 10 + 1 / 10 / 2 ^ 24)"
    and "1000 / 32774 * (9 / 10 - 2 / 10 / 2 ^ 20) \<le> q" "q \<le> 1000 / 32762 * (9 / 10 + 2 / 10 / 2 ^ 20)"
    and "p + q - (p + q) / 2 ^ 24 \<le> r" "r \<le> p + q + (p + q) / 2 ^ 24"
    and "r - r / 2 ^ 24 \<le> a" "a \<le> r + r / 2 ^ 24"
  shows "1000 / 32774 \<le> a \<and> a \<le> 1000 / 32762"
  using assms by (simp add: field_simps)

lemma average_slope_ok:
  assumes new: "f32 (1000 / 32773) \<le> x" "x \<le> f32 (1000 / 32763)" and old: "slope_ok y"
  shows "slope_ok (average_slope x y)"
proof -
  let ?a = sync_alpha and ?b = "f32 (1 - sync_alpha)" and ?e = "1 / 2 ^ 24 :: rat"
  have x: "1000 / 32773 - 1000 / 32773 / 2 ^ 24 \<le> x" "x \<le> 1000 / 32763 + 1000 / 32763 / 2 ^ 24"
    using new f32_ge[of "1000 / 32773"] f32_le[of "1000 / 32763"] by simp_all
  have y: "1000 / 32774 \<le> y" "y \<le> 1000 / 32762" using old by (simp_all add: slope_ok_def)
  have a: "1 / 10 - 1 / 10 / 2 ^ 24 \<le> ?a" "?a \<le> 1 / 10 + 1 / 10 / 2 ^ 24"
    using f32_ge[of "1 / 10"] f32_le[of "1 / 10"] by (simp_all add: sync_alpha_def)
  have b: "1 - ?a - (1 - ?a) / 2 ^ 24 \<le> ?b" "?b \<le> 1 - ?a + (1 - ?a) / 2 ^ 24"
    using f32_ge[of "1 - ?a"] f32_le[of "1 - ?a"] a by simp_all
  have b': "9 / 10 - 2 / 10 / 2 ^ 20 \<le> ?b" "?b \<le> 9 / 10 + 2 / 10 / 2 ^ 20" using a b by (simp_all add: diff_divide_distrib)
  let ?p = "x * ?a" and ?q = "y * ?b"
  have p: "(1000 / 32773 - 1000 / 32773 / 2 ^ 24) * (1 / 10 - 1 / 10 / 2 ^ 24) \<le> ?p"
      "?p \<le> (1000 / 32763 + 1000 / 32763 / 2 ^ 24) * (1 / 10 + 1 / 10 / 2 ^ 24)"
    by (rule mult_mono[OF x(1) a(1)], use x a in simp, simp) (rule mult_mono[OF x(2) a(2)], simp, use a in simp)
  have q: "1000 / 32774 * (9 / 10 - 2 / 10 / 2 ^ 20) \<le> ?q" "?q \<le> 1000 / 32762 * (9 / 10 + 2 / 10 / 2 ^ 20)"
    by (rule mult_mono[OF y(1) b'(1)], use y in simp, simp) (rule mult_mono[OF y(2) b'(2)], simp, use b' in simp)
  have pq: "0 \<le> ?p" "0 \<le> ?q" using p(1) q(1) by simp_all
  let ?s = "f32 ?p + f32 ?q"
  have s: "?p + ?q - (?p + ?q) / 2 ^ 24 \<le> ?s" "?s \<le> ?p + ?q + (?p + ?q) / 2 ^ 24"
    using f32_le[OF pq(1)] f32_ge[OF pq(1)] f32_le[OF pq(2)] f32_ge[OF pq(2)] by (simp_all add: add_divide_distrib)
  have a: "?s - ?s / 2 ^ 24 \<le> average_slope x y" "average_slope x y \<le> ?s + ?s / 2 ^ 24"
    unfolding average_slope_def by (intro f32_ge f32_le add_nonneg_nonneg f32_nonneg)+
  show ?thesis unfolding slope_ok_def by (rule average_arith[OF p q s a])
qed

section \<open>The invariant of a run\<close>

text \<open>Steps without a synchronisation do not change the straight line.\<close>

definition same_line :: "('e \<Rightarrow> nat) \<Rightarrow> 'e systick \<times> nat \<Rightarrow> 'e systick \<times> nat \<Rightarrow> bool" where
  "same_line time_of c c' \<longleftrightarrow> millis_offset (fst c') = millis_offset (fst c) \<and> ticks_at_offset (fst c') = ticks_at_offset (fst c)
     \<and> millis_per_ticks (fst c') = millis_per_ticks (fst c) \<and> time_of (rtc (fst c)) \<le> time_of (rtc (fst c'))"

lemma mod_diff_eq_nat:
  fixes a b n :: nat
  assumes "b \<le> a" and "0 < n"
  shows "(a mod n + (n - b mod n)) mod n = (a - b) mod n"
proof -
  obtain c where a: "a = b + c" using assms(1) le_Suc_ex by blast
  have "(a mod n + (n - b mod n)) mod n = (a + (n - b mod n)) mod n" by (metis mod_add_left_eq)
  also have "\<dots> = (b mod n + (c + (n - b mod n))) mod n" unfolding a by (metis add.assoc mod_add_left_eq)
  also have "b mod n + (c + (n - b mod n)) = c + n" using mod_le_divisor[OF assms(2), of b] by simp
  finally show ?thesis by (simp add: a)
qed

lemma clock_ok_sync:
  assumes "clock_ok time_of t0 (s, T)" and "time_of (rtc s) \<le> time_of (rtc s')"
    and "ticks_at_offset s' \<le> max (ticks_at_offset s) (time_of (rtc s') - t0)" and "millis_offset s' < 2 ^ 43"
    and "slope_ok (millis_per_ticks s')" and "former_ticks s' = former_ticks s" and "ticks_since_start s' = ticks_since_start s"
    and "millis_per_ticks_default s' = millis_per_ticks_default s"
  shows "clock_ok time_of t0 (s', T)"
proof -
  note ok = assms(1)[unfolded clock_ok_def prod.case]
  have "time_of (rtc s) - t0 \<le> time_of (rtc s') - t0" using assms(2) by (rule diff_le_mono)
  then have "ticks_at_offset s' \<le> time_of (rtc s') - t0" if "time_of (rtc s') - t0 < 2 ^ 64"
    using ok that assms(3) le_less_trans by (metis (no_types, lifting) max.bounded_iff le_trans order_refl max_absorb2)
  moreover have "T \<le> time_of (rtc s')" using ok assms(2) by linarith
  ultimately show ?thesis unfolding clock_ok_def prod.case assms(6-8) using ok assms(4,5) by blast
qed

lemma set_millis_eq:
  fixes ticks :: nat
  assumes "systick_get_ticks_since_start R s = (x, s')"
  defines "off \<equiv> max (ticks_at_offset s') (min ticks x)"
  shows "systick_set_millis R ticks m s =
    (if millis_synced s' then s'\<lparr>millis_per_ticks := average_slope (sync_slope (off - ticks_at_offset s') (m - millis_offset s')) (millis_per_ticks s'),
       millis_offset := m, ticks_at_offset := off\<rparr>
     else s'\<lparr>millis_offset := m, ticks_at_offset := off, millis_synced := True\<rparr>)"
proof -
  have 1: "(if ticks > x then x else ticks) = min ticks x" and 2: "(if a < b then b else a) = max b a" for a b :: nat
    by (simp_all add: min_def max_def)
  have 3: "(if a > b then a - b else 0) = a - b" for a b :: nat by simp
  show ?thesis unfolding systick_set_millis_def assms prod.case Let_def 1 2 3 by simp
qed

lemma set_millis_fields:
  assumes "systick_get_ticks_since_start R s = (x, s\<lparr>rtc := e\<rparr>)"
  shows "rtc (systick_set_millis R ticks m s) = e"
    and "former_ticks (systick_set_millis R ticks m s) = former_ticks s"
    and "ticks_since_start (systick_set_millis R ticks m s) = ticks_since_start s"
    and "millis_per_ticks_default (systick_set_millis R ticks m s) = millis_per_ticks_default s"
    and "millis_offset (systick_set_millis R ticks m s) = m"
    and "ticks_at_offset (systick_set_millis R ticks m s) = max (ticks_at_offset s) (min ticks x)"
    and "slope_ok (millis_per_ticks s) \<Longrightarrow> slope_ok (millis_per_ticks (systick_set_millis R ticks m s))"
  using sync_slope_range by (simp_all add: set_millis_eq[OF assms] average_slope_ok)

context rtc_world
begin

lemma get_ticks:
  assumes ok: "clock_ok time_of t0 (s, T)"
  obtains e where "time_of (rtc s) \<le> time_of e"
    and "systick_get_ticks_since_start R s = (((T - t0) + (time_of (rtc s) - T) mod 2 ^ 24) mod 2 ^ 64, s\<lparr>rtc := e\<rparr>)"
    and "systick_callback R s = s\<lparr>rtc := e, former_ticks := time_of (rtc s) mod 2 ^ 24,
      ticks_since_start := ((T - t0) + (time_of (rtc s) - T) mod 2 ^ 24) mod 2 ^ 64\<rparr>"
proof -
  obtain c e where g: "app_timer_cnt_get R (rtc s) = (c, e)" by fastforce
  have c: "c = time_of (rtc s) mod 2 ^ 24" and e: "time_of (rtc s) \<le> time_of e" using cnt_law[OF g] by simp_all
  have d: "app_timer_cnt_diff_compute R c (former_ticks s) = (time_of (rtc s) - T) mod 2 ^ 24"
    using ok mod_diff_eq_nat[of T "time_of (rtc s)" "2 ^ 24"] by (subst diff_law) (simp_all add: clock_ok_def c)
  have "u64_add (ticks_since_start s) n = (T - t0 + n) mod 2 ^ 64" for n
    using ok by (simp add: u64_add_def clock_ok_def mod_add_left_eq)
  then show ?thesis
    by (intro that[OF e]) (simp_all only: systick_get_ticks_since_start_def systick_callback_def g prod.case Let_def d, simp only: c)
qed

lemma ticks_exact:
  assumes "clock_ok time_of t0 (s, T)" and "time_of (rtc s) < T + 2 ^ 24" and "time_of (rtc s) - t0 < 2 ^ 64"
  shows "fst (systick_get_ticks_since_start R s) = time_of (rtc s) - t0"
proof -
  have "(time_of (rtc s) - T) mod 2 ^ 24 = time_of (rtc s) - T" using assms(2) by simp
  then have "T - t0 + (time_of (rtc s) - T) mod 2 ^ 24 = time_of (rtc s) - t0" using assms(1) by (simp add: clock_ok_def)
  then show ?thesis using assms(3) by (rule_tac get_ticks[OF assms(1)]) simp
qed

lemma init_ok:
  assumes "\<not> init_done s0" and "systick_init R 0 s0 = (NRF_SUCCESS, s)"
  shows "clock_ok time_of (time_of (rtc s0)) (s, time_of (rtc s0))"
proof -
  let ?t = "time_of (rtc s0)"
  obtain c e where g: "app_timer_cnt_get R (rtc s0) = (c, e)" by fastforce
  obtain c2 e2 where g2: "app_timer_cnt_get R e = (c2, e2)" by fastforce
  obtain r3 e3 where g3: "systick_timer_create R e2 = (r3, e3)" by fastforce
  obtain r4 e4 where g4: "systick_timer_start R SYSTICK_TIMER_CALLBACK_PERIOD_MS e3 = (r4, e4)" by fastforce
  have le: "?t \<le> time_of e" "time_of e \<le> time_of e2" "time_of e2 \<le> time_of e3" "time_of e3 \<le> time_of e4"
    and c: "c = ?t mod 2 ^ 24" "c2 = time_of e mod 2 ^ 24"
    using cnt_law[OF g] cnt_law[OF g2] create_law[OF g3] start_law[OF g4] by simp_all
  have d: "u64_add 0 (app_timer_cnt_diff_compute R c2 c) = (time_of e - ?t) mod 2 ^ 24"
    using mod_diff_eq_nat[OF le(1), of "2 ^ 24"] by (subst diff_law) (simp_all add: c u64_add_def)
  have d': "(time_of e - ?t) mod 2 ^ 24 \<le> time_of e4 - ?t" using mod_less_eq_dividend[of "time_of e - ?t" "2 ^ 24"] le by linarith
  have "s = s0\<lparr>ticks_since_start := 0, former_ticks := c, millis_synced := False, millis_offset := 0,
      ticks_at_offset := u64_add 0 (app_timer_cnt_diff_compute R c2 c), millis_per_ticks := f32 (1000 / float_of_uint APP_TIMER_CLOCK_FREQ),
      millis_per_ticks_default := f32 (1000 / float_of_uint APP_TIMER_CLOCK_FREQ), rtc := e4, init_done := True\<rparr>"
    using assms by (auto simp: systick_init_def g g2 g3 g4 systick_get_ticks_since_start_def Let_def split: if_splits)
  moreover have "slope_ok (1000 / 32768)" by (simp add: slope_ok_def)
  ultimately show ?thesis using le d' unfolding d f32_values(1) clock_ok_def by (simp add: c)
qed

lemma step_ok:
  assumes "systick_step R time_of l c c'" and "clock_ok time_of t0 c"
  shows "clock_ok time_of t0 c'"
  using assms
proof cases
  case (step_wait s e T)
  then show ?thesis using assms(2) by (auto simp: clock_ok_def)
next
  case (step_read s T)
  have ok: "clock_ok time_of t0 (s, T)" using assms(2) step_read by simp
  show ?thesis by (rule get_ticks[OF ok]) (use ok step_read in \<open>auto simp: clock_ok_def\<close>)
next
  case (step_callback s T)
  have ok: "clock_ok time_of t0 (s, T)" using assms(2) step_callback by simp
  have "(time_of (rtc s) - T) mod 2 ^ 24 = time_of (rtc s) - T" using step_callback by simp
  then have "T - t0 + (time_of (rtc s) - T) mod 2 ^ 24 = time_of (rtc s) - t0" using ok by (simp add: clock_ok_def)
  then show ?thesis by (rule_tac get_ticks[OF ok]) (use ok step_callback in \<open>auto simp: clock_ok_def\<close>)
next
  case (step_sync seconds ms s T ticks)
  have ok: "clock_ok time_of t0 (s, T)" using assms(2) step_sync by simp
  obtain e where e: "time_of (rtc s) \<le> time_of e"
    and g: "systick_get_ticks_since_start R s = (((T - t0) + (time_of (rtc s) - T) mod 2 ^ 24) mod 2 ^ 64, s\<lparr>rtc := e\<rparr>)" (is "_ = (?x, _)")
    by (rule get_ticks[OF ok])
  have "(T - t0) + (time_of (rtc s) - T) mod 2 ^ 24 \<le> (T - t0) + (time_of (rtc s) - T)"
    by (intro add_left_mono mod_less_eq_dividend)
  also have "\<dots> = time_of (rtc s) - t0" using ok by (simp add: clock_ok_def)
  finally have x: "?x \<le> time_of e - t0" using e mod_less_eq_dividend[of "(T - t0) + (time_of (rtc s) - T) mod 2 ^ 24" "2 ^ 64"] by linarith
  have m: "seconds * 1000 + ms < 2 ^ 43" using step_sync by simp
  have o: "max (ticks_at_offset s) (min ticks ?x) \<le> max (ticks_at_offset s) (time_of e - t0)" using x by linarith
  have "clock_ok time_of t0 (systick_set_timestamp R ticks seconds ms s, T)"
    unfolding systick_set_timestamp_def using e o m ok[unfolded clock_ok_def prod.case]
    by (intro clock_ok_sync[OF ok]; elim conjE) (simp_all only: set_millis_fields[OF g])
  then show ?thesis using step_sync by simp
qed

lemma run_ok: "systick_run R time_of t0 c \<Longrightarrow> clock_ok time_of t0 c"
  by (induction rule: systick_run.induct) (auto intro: init_ok step_ok)

lemma step_same_line: "systick_step R time_of False c c' \<Longrightarrow> same_line time_of c c'"
  by (erule systick_step.cases)
    (force dest: cnt_law simp: same_line_def systick_get_ticks_since_start_def systick_callback_def Let_def split: prod.splits)+

lemma steps_same_line: "(systick_step R time_of False)\<^sup>*\<^sup>* c c' \<Longrightarrow> same_line time_of c c'"
  by (induction rule: rtranclp_induct) (auto simp: same_line_def dest: step_same_line)

lemma steps_run: "(systick_step R time_of False)\<^sup>*\<^sup>* c c' \<Longrightarrow> systick_run R time_of t0 c \<Longrightarrow> systick_run R time_of t0 c'"
  by (induction rule: rtranclp_induct) (auto intro: run_step)

lemma line_bounds:
  fixes x :: rat
  assumes "slope_ok x" and "n < 2 ^ 62"
  shows "\<bar>f32 (x * float_of_uint n) - x * of_nat n\<bar> \<le> x * of_nat n / 2 ^ 22"
    and "uint_of_float (f32 (x * float_of_uint n)) < 2 ^ 62"
proof -
  let ?d = "of_nat n :: rat" and ?f = "float_of_uint n" and ?e = "1 / 2 ^ 24 :: rat"
  have x: "0 < x" "x \<le> 1 / 4" using assms(1) by (simp_all add: slope_ok_def)
  have f: "?d - ?d * ?e \<le> ?f" "?f \<le> ?d + ?d * ?e" using f32_le[of ?d] f32_ge[of ?d] by (simp_all add: float_of_uint_def)
  have p: "x * ?d - x * ?d * ?e \<le> x * ?f" "x * ?f \<le> x * ?d + x * ?d * ?e"
    using mult_left_mono[OF f(1), of x] mult_left_mono[OF f(2), of x] x by (simp_all add: algebra_simps)
  have nn: "0 \<le> x * ?f" "0 \<le> x * ?d" using x by (simp_all add: float_of_uint_def)
  have g: "x * ?f - x * ?f * ?e \<le> f32 (x * ?f)" "f32 (x * ?f) \<le> x * ?f + x * ?f * ?e"
    using f32_le[OF nn(1)] f32_ge[OF nn(1)] by simp_all
  show b: "\<bar>f32 (x * ?f) - x * ?d\<bar> \<le> x * ?d / 2 ^ 22" using p g nn unfolding abs_le_iff by (simp add: field_simps)
  have "x * ?d \<le> 1 / 4 * ?d" using x by (intro mult_right_mono) auto
  then have "f32 (x * ?f) \<le> ?d" using b nn unfolding abs_le_iff by (simp add: field_simps)
  then have "nat \<lfloor>f32 (x * ?f)\<rfloor> \<le> n" by (simp add: floor_le_iff nat_le_iff)
  then show "uint_of_float (f32 (x * ?f)) < 2 ^ 62" using assms(2) unfolding uint_of_float_def by linarith
qed

lemma get_millis_value:
  assumes ok: "clock_ok time_of t0 (s, T)" and "time_of (rtc s) < T + 2 ^ 24" and t: "time_of (rtc s) - t0 < 2 ^ 62"
  shows "fst (systick_get_millis R s) =
    uint_of_float (f32 (millis_per_ticks s * float_of_uint (time_of (rtc s) - t0 - ticks_at_offset s))) + millis_offset s"
proof -
  have t': "time_of (rtc s) - t0 < 2 ^ 64" by (rule less_trans[OF t]) simp
  obtain e where e: "systick_get_ticks_since_start R s = (time_of (rtc s) - t0, s\<lparr>rtc := e\<rparr>)"
    using ticks_exact[OF assms(1,2) t'] by (rule_tac get_ticks[OF ok]) auto
  have u: "u64_sub (time_of (rtc s) - t0) (ticks_at_offset s) = time_of (rtc s) - t0 - ticks_at_offset s"
    using ok t' by (intro u64_sub_id) (auto simp: clock_ok_def)
  have "uint_of_float (f32 (millis_per_ticks s * float_of_uint (time_of (rtc s) - t0 - ticks_at_offset s))) < 2 ^ 62"
    using ok t by (intro line_bounds) (auto simp: clock_ok_def)
  moreover have "millis_offset s < 2 ^ 43" using ok by (simp add: clock_ok_def)
  ultimately show ?thesis by (simp add: systick_get_millis_def e u u64_add_id)
qed

end

lemma f32_line_mono: "0 \<le> x \<Longrightarrow> n \<le> m \<Longrightarrow> uint_of_float (f32 (x * float_of_uint n)) \<le> uint_of_float (f32 (x * float_of_uint m))"
  unfolding uint_of_float_def float_of_uint_def by (intro nat_mono floor_mono f32_mono mult_left_mono) simp_all

section \<open>A simulated counter\<close>

definition sample_rtc :: "nat rtc_ops" where
  "sample_rtc = \<lparr>app_timer_cnt_get = (\<lambda>t. (t mod 2 ^ 24, t)), app_timer_cnt_diff_compute = (\<lambda>c d. (c + (2 ^ 24 - d)) mod 2 ^ 24),
     systick_timer_create = (\<lambda>t. (NRF_SUCCESS, t + 1)), systick_timer_start = (\<lambda>ms t. (NRF_SUCCESS, t + 1))\<rparr>"

interpretation sample_rtc: rtc_world sample_rtc "\<lambda>t. t"
  by unfold_locales (auto simp: sample_rtc_def)

definition blank_clock :: "nat \<Rightarrow> nat systick" where
  "blank_clock t = \<lparr>ticks_since_start = 0, former_ticks = 0, millis_synced = False, millis_offset = 0, ticks_at_offset = 0,
     millis_per_ticks = 1000 / 32768, millis_per_ticks_default = 1000 / 32768, init_done = False, rtc = t\<rparr>"

definition sample_clock :: "nat \<Rightarrow> nat systick" where
  "sample_clock t = snd (systick_init sample_rtc 0 (blank_clock t))"

lemma sample_clock_rtc: "systick_init sample_rtc 0 (blank_clock t) = (NRF_SUCCESS, sample_clock t)" "rtc (sample_clock t) = t + 2"
  by (simp_all add: sample_clock_def systick_init_def blank_clock_def sample_rtc_def systick_get_ticks_since_start_def Let_def)

lemma sample_run: "systick_run sample_rtc (\<lambda>t. t) t (sample_clock t, t)"
  by (rule run_init[OF _ _ sample_clock_rtc(1)]) (simp_all add: blank_clock_def)

definition sample_sync :: "nat \<Rightarrow> nat \<Rightarrow> nat \<Rightarrow> nat systick \<Rightarrow> nat systick" where
  "sample_sync t ticks seconds s = systick_set_timestamp sample_rtc ticks seconds 500 (s\<lparr>rtc := t\<rparr>)"

lemma sample_sync_run:
  assumes "systick_run sample_rtc (\<lambda>t. t) t0 (s, T)" and "rtc s \<le> t" and "seconds < 2 ^ 32"
  shows "systick_run sample_rtc (\<lambda>t. t) t0 (sample_sync t ticks seconds s, T)"
proof -
  have "systick_step sample_rtc (\<lambda>t. t) False (s, T) (s\<lparr>rtc := t\<rparr>, T)" using assms(2) by (rule step_wait)
  moreover have "systick_step sample_rtc (\<lambda>t. t) True (s\<lparr>rtc := t\<rparr>, T) (sample_sync t ticks seconds s, T)"
    unfolding sample_sync_def using assms(3) by (intro step_sync) simp_all
  ultimately show ?thesis using assms(1) by (blast intro: run_step)
qed

lemma sample_sync_rtc: "rtc (sample_sync t ticks seconds s) = t"
proof -
  have "systick_get_ticks_since_start sample_rtc (s\<lparr>rtc := t\<rparr>) = (fst (systick_get_ticks_since_start sample_rtc (s\<lparr>rtc := t\<rparr>)), (s\<lparr>rtc := t\<rparr>)\<lparr>rtc := t\<rparr>)"
    by (simp add: systick_get_ticks_since_start_def sample_rtc_def)
  from set_millis_fields(1)[OF this] show ?thesis by (simp add: sample_sync_def systick_set_timestamp_def)
qed

text \<open>
  The resolution of single precision: 24 days after the start the continuous clock stands still for 125 milliseconds and then jumps
  by 256.
\<close>

lemma continuous_millis_jumps:
  defines "s \<equiv> (\<lambda>t. (blank_clock t)\<lparr>ticks_since_start := 2 ^ 36\<rparr>)"
  shows "fst (systick_get_continuous_millis sample_rtc (s 0)) = 2097152000
    \<and> fst (systick_get_continuous_millis sample_rtc (s 4096)) = 2097152000
    \<and> fst (systick_get_continuous_millis sample_rtc (s 4097)) = 2097152256"
proof -
  have *: "fst (systick_get_continuous_millis sample_rtc (s t)) = uint_of_float (f32 (125 / 4096 * f32 (of_nat (2 ^ 36 + t))))"
    if "t < 2 ^ 24" for t
    using that by (simp add: s_def systick_get_continuous_millis_def systick_get_ticks_since_start_def blank_clock_def sample_rtc_def
        u64_add_def float_of_uint_def)
  have fl: "\<lfloor>16777217 / 2 :: rat\<rfloor> = 8388608" "\<lfloor>68719480833 / 8192 :: rat\<rfloor> = 8388608" "\<lfloor>1048576125 / 64 :: rat\<rfloor> = 16384001"
    by (simp_all add: floor_eq_iff)
  have r: "round_even 8388608 = 8388608" "round_even (16777217 / 2) = 8388608" "round_even (68719480833 / 8192) = 8388609"
    "round_even (1048576125 / 64) = 16384002" "round_even 16384000 = 16384000"
    by (simp_all add: round_even_def Let_def fl)
  have "f32 (of_nat (2 ^ 36 + 0)) = 2 ^ 36" "f32 (of_nat (2 ^ 36 + 4096)) = 2 ^ 36" "f32 (of_nat (2 ^ 36 + 4097)) = 8388609 * 2 ^ 13"
    by (subst f32_eval[where k = 13]; simp add: r)+
  moreover have "f32 (125 / 4096 * 2 ^ 36) = 2097152000" "f32 (125 / 4096 * (8388609 * 2 ^ 13)) = 2097152256"
    by (subst f32_eval[where k = 7]; simp add: r)+
  ultimately show ?thesis using *[of 0] *[of 4096] *[of 4097] by (simp add: uint_of_float_def)
qed

section \<open>Theorems\<close>

text \<open>
  C15: In every run of the clock in which the timer of the module expires at least every 512 seconds (its
  period is 100 seconds), the ticks since the start that the module reports are the ticks of the oscillator since the call of
  \<open>systick_init\<close>, whatever the overflows of the 24 bit counter.
\<close>

theorem ticks_are_exact:
  assumes "rtc_world R time_of" and "systick_run R time_of t0 (s, T)"
    and "time_of (rtc s) < T + 2 ^ 24" and "time_of (rtc s) - t0 < 2 ^ 64"
  shows "fst (systick_get_ticks_since_start R s) = time_of (rtc s) - t0"
  using rtc_world.ticks_exact[OF assms(1) rtc_world.run_ok[OF assms(1,2)] assms(3,4)] .

theorem ticks_are_exact_witness:
  "fst (systick_get_ticks_since_start sample_rtc ((sample_clock 16777000)\<lparr>rtc := 16778000\<rparr>)) = 1000"
proof -
  let ?s = "(sample_clock 16777000)\<lparr>rtc := 16778000\<rparr>"
  have "systick_step sample_rtc (\<lambda>t. t) False (sample_clock 16777000, 16777000) (?s, 16777000)"
    by (rule step_wait) (simp add: sample_clock_rtc)
  then have "systick_run sample_rtc (\<lambda>t. t) 16777000 (?s, 16777000)" using sample_run by (rule run_step[rotated])
  then show ?thesis using ticks_are_exact[OF sample_rtc.rtc_world_axioms, of 16777000 ?s 16777000] by simp
qed

text \<open>
  C17: In every run, whatever ticks and timestamps the synchronisations bring, the slope of the clock stays
  within six Hertz of the nominal frequency of 32768 Hertz, in spite of all roundings of the moving average.  The code
  cuts each new value off at \<^verbatim>\<open>CLOCK_FREQ_DEVIATION_HZ\<close>, which is 5; the comment above that constant speaks of a
  deviation of up to 50 Hertz, which this bound excludes.
\<close>

theorem slope_stays_nominal:
  assumes "rtc_world R time_of" and "systick_run R time_of t0 (s, T)"
  shows "1000 / 32774 \<le> millis_per_ticks s \<and> millis_per_ticks s \<le> 1000 / 32762"
  using rtc_world.run_ok[OF assms] by (simp add: clock_ok_def slope_ok_def)

theorem slope_stays_nominal_witness:
  "1000 / 32774 \<le> millis_per_ticks (sample_sync 800000 700000 1020 (sample_sync 100000 99000 1000 (sample_clock 0)))
   \<and> millis_per_ticks (sample_sync 800000 700000 1020 (sample_sync 100000 99000 1000 (sample_clock 0))) \<le> 1000 / 32762"
  by (rule slope_stays_nominal[OF sample_rtc.rtc_world_axioms, of 0 _ 0], (rule sample_sync_run)+)
    (simp_all add: sample_run sample_sync_rtc sample_clock_rtc)

text \<open>
  C16: Between two synchronisations the clock never runs backwards, and what it shows differs from the straight
  line \<open>millis_per_ticks * (ticks - ticks_at_offset) + millis_offset\<close> of the documentation by less than one millisecond
  and four millionths of the time since the last synchronisation.
\<close>

theorem clock_is_monotone_and_accurate:
  assumes "rtc_world R time_of" and "systick_run R time_of t0 (s, T)"
    and "(systick_step R time_of False)\<^sup>*\<^sup>* (s, T) (s', T')"
    and "time_of (rtc s) < T + 2 ^ 24" and "time_of (rtc s') < T' + 2 ^ 24" and "time_of (rtc s') - t0 < 2 ^ 62"
  shows "fst (systick_get_millis R s) \<le> fst (systick_get_millis R s')
    \<and> (let line = millis_per_ticks s' * of_nat (time_of (rtc s') - t0 - ticks_at_offset s')
       in \<bar>of_nat (fst (systick_get_millis R s')) - (of_nat (millis_offset s') + line)\<bar> < 1 + line / 2 ^ 22)"
proof -
  note run' = rtc_world.steps_run[OF assms(1,3,2)]
  note ok = rtc_world.run_ok[OF assms(1,2)] and ok' = rtc_world.run_ok[OF assms(1) run']
  have line: "millis_offset s' = millis_offset s" "ticks_at_offset s' = ticks_at_offset s" "millis_per_ticks s' = millis_per_ticks s"
    "time_of (rtc s) \<le> time_of (rtc s')"
    using rtc_world.steps_same_line[OF assms(1,3)] by (simp_all add: same_line_def)
  have sl: "slope_ok (millis_per_ticks s)" using ok by (simp add: clock_ok_def)
  have t: "time_of (rtc s) - t0 < 2 ^ 62" using line(4) assms(6) by linarith
  let ?n = "time_of (rtc s') - t0 - ticks_at_offset s'"
  let ?f = "f32 (millis_per_ticks s' * float_of_uint ?n)" and ?l = "millis_per_ticks s' * of_nat ?n"
  have v: "fst (systick_get_millis R s') = uint_of_float ?f + millis_offset s'"
    by (rule rtc_world.get_millis_value[OF assms(1) ok' assms(5,6)])
  have "fst (systick_get_millis R s) \<le> fst (systick_get_millis R s')"
    unfolding v rtc_world.get_millis_value[OF assms(1) ok assms(4) t] line(1-3)
    using sl line(4) by (intro add_right_mono f32_line_mono) (auto simp: slope_ok_def)
  moreover have "\<bar>?f - ?l\<bar> \<le> ?l / 2 ^ 22"
    using assms(6) sl line(3) by (intro rtc_world.line_bounds[OF assms(1)]) auto
  moreover have "of_nat (uint_of_float ?f) \<le> ?f" "?f < of_nat (uint_of_float ?f) + 1"
    using f32_nonneg by (simp_all add: uint_of_float_def of_nat_nat) linarith
  ultimately show ?thesis unfolding Let_def v abs_less_iff abs_le_iff of_nat_add by linarith
qed

theorem clock_is_monotone_and_accurate_witness:
  "let s = sample_sync 100000 99000 1000 (sample_clock 0); s' = s\<lparr>rtc := 3376800\<rparr>;
       line = millis_per_ticks s' * of_nat (3376800 - 0 - ticks_at_offset s')
   in fst (systick_get_millis sample_rtc s) \<le> fst (systick_get_millis sample_rtc s')
    \<and> \<bar>of_nat (fst (systick_get_millis sample_rtc s')) - (of_nat (millis_offset s') + line)\<bar> < 1 + line / 2 ^ 22"
proof -
  let ?s = "sample_sync 100000 99000 1000 (sample_clock 0)"
  have "systick_run sample_rtc (\<lambda>t. t) 0 (?s, 0)"
    by (rule sample_sync_run) (simp_all add: sample_run sample_clock_rtc)
  moreover have "(systick_step sample_rtc (\<lambda>t. t) False)\<^sup>*\<^sup>* (?s, 0) (?s\<lparr>rtc := 3376800\<rparr>, 0)"
    by (intro r_into_rtranclp step_wait) (simp add: sample_sync_rtc)
  ultimately show ?thesis
    using clock_is_monotone_and_accurate[OF sample_rtc.rtc_world_axioms, of 0 ?s 0 "?s\<lparr>rtc := 3376800\<rparr>" 0] by (simp add: sample_sync_rtc Let_def)
qed

end
