(* ===== verification/Sources.thy ===== *)
theory Sources
  imports OB_Prelude
begin

text \<open>
  The sources of data and the flags of the sampling configuration (\<^verbatim>\<open>sampling_lib.h\<close>), which the sampling module and the request
  handler share, and numbers as they lie in memory, little end first.
\<close>

datatype source = Microphone | Scan | Accelerometer | Accelerometer_Interrupt | Battery

text \<open>The flags of a sampling configuration, by their bits.\<close>

fun SAMPLING :: "source \<Rightarrow> nat" where
  "SAMPLING Accelerometer = 0"
| "SAMPLING Accelerometer_Interrupt = 2"
| "SAMPLING Battery = 4"
| "SAMPLING Microphone = 6"
| "SAMPLING Scan = 8"

definition STREAMING :: "source \<Rightarrow> nat" where
  "STREAMING src = SAMPLING src + 1"

lemma flags_distinct: "SAMPLING a = SAMPLING b \<longleftrightarrow> a = b" "STREAMING a = STREAMING b \<longleftrightarrow> a = b" "SAMPLING a \<noteq> STREAMING b"
  by (cases a; cases b; simp add: STREAMING_def)+

definition le_bytes :: "nat \<Rightarrow> nat \<Rightarrow> byte list" where
  "le_bytes n v = map (\<lambda>i. of_nat (v div 256 ^ i)) [0..<n]"

definition le_uint :: "byte list \<Rightarrow> nat" where
  "le_uint bs = foldr (\<lambda>b v. unat b + 256 * v) bs 0"

lemma le_bytes_Suc: "le_bytes (Suc k) v = of_nat v # le_bytes k (v div 256)"
proof -
  have "[0..<Suc k] = 0 # map Suc [0..<k]" by (simp add: map_Suc_upt upt_conv_Cons del: upt_Suc)
  then show ?thesis by (simp add: le_bytes_def div_mult2_eq comp_def)
qed

lemma le_uint_bytes: "v < 256 ^ k \<Longrightarrow> le_uint (le_bytes k v) = v"
proof (induction k arbitrary: v)
  case 0
  then show ?case by (simp add: le_bytes_def le_uint_def)
next
  case (Suc k)
  have "v div 256 < 256 ^ k" using Suc.prems by (simp add: less_mult_imp_div_less mult.commute)
  from Suc.IH[OF this] have "le_uint (le_bytes (Suc k) v) = v mod 256 + 256 * (v div 256)"
    by (simp add: le_uint_def le_bytes_Suc unat_of_nat)
  then show ?case by simp
qed

lemma nth_le_bytes: "i < k \<Longrightarrow> le_bytes k v ! i = of_nat (v div 256 ^ i)"
  by (simp add: le_bytes_def)

lemma length_le_bytes [simp]: "length (le_bytes k v) = k"
  by (simp add: le_bytes_def)

end
