(* ===== verification/App_Fifo.thy ===== *)
theory App_Fifo
  imports OB_Prelude
begin

text \<open>
  The byte FIFO of the SDK (\<open>app_fifo\<close>), which is not part of the program.  The program calls its functions
  and also reads and changes the members of its structure; so the structure is a record, the functions are the
  parameter \<open>app_fifo_ops\<close>, and the locale \<open>app_fifo_lib\<close> states what the documentation of the SDK promises of them.
\<close>

unbundle bit_operations_syntax

section \<open>The structure and the functions\<close>

record app_fifo =
  fifo_buf :: "byte list"
  buf_size_mask :: nat
  fifo_read_pos :: nat
  fifo_write_pos :: nat

text \<open>
  \<open>app_fifo_space\<close> and \<open>app_fifo_size\<close> are \<open>app_fifo_write\<close> and \<open>app_fifo_read\<close> with the buffer \<open>NULL\<close>, which only tell the free
  and the used bytes.  The others return the bytes of the transfer.
\<close>

record app_fifo_ops =
  app_fifo_init :: "nat \<Rightarrow> app_fifo \<Rightarrow> ret_code \<times> app_fifo"
  app_fifo_flush :: "app_fifo \<Rightarrow> app_fifo"
  app_fifo_space :: "app_fifo \<Rightarrow> nat"
  app_fifo_size :: "app_fifo \<Rightarrow> nat"
  app_fifo_write :: "byte list \<Rightarrow> app_fifo \<Rightarrow> ret_code \<times> app_fifo"
  app_fifo_read :: "nat \<Rightarrow> app_fifo \<Rightarrow> byte list \<times> app_fifo"
  app_fifo_peek :: "nat \<Rightarrow> app_fifo \<Rightarrow> byte"

text \<open>The byte at an index behind the read position, as the program computes it, and the consumption of bytes.\<close>

definition fifo_byte :: "app_fifo \<Rightarrow> nat \<Rightarrow> byte" where
  "fifo_byte f i = fifo_buf f ! (u32_add (fifo_read_pos f) i AND buf_size_mask f)"

definition fifo_skip :: "nat \<Rightarrow> app_fifo \<Rightarrow> app_fifo" where
  "fifo_skip n f = f\<lparr>fifo_read_pos := u32_add (fifo_read_pos f) n\<rparr>"

section \<open>Contents\<close>

definition fifo_list :: "app_fifo \<Rightarrow> byte list" where
  "fifo_list f = map (fifo_byte f) [0..<u32_sub (fifo_write_pos f) (fifo_read_pos f)]"

definition fifo_cap :: "app_fifo \<Rightarrow> nat" where
  "fifo_cap f = buf_size_mask f + 1"

definition fifo_ok :: "app_fifo \<Rightarrow> bool" where
  "fifo_ok f \<longleftrightarrow> length (fifo_buf f) = fifo_cap f \<and> (\<exists>k \<le> 16. fifo_cap f = 2 ^ k) \<and> fifo_read_pos f < 2 ^ 32 \<and> fifo_write_pos f < 2 ^ 32
     \<and> u32_sub (fifo_write_pos f) (fifo_read_pos f) \<le> fifo_cap f"

lemma and_mask:
  assumes "fifo_ok f"
  shows "n AND buf_size_mask f = n mod fifo_cap f"
proof -
  obtain k where k: "fifo_cap f = 2 ^ k" using assms by (auto simp: fifo_ok_def)
  then have "buf_size_mask f = mask k" by (simp add: fifo_cap_def mask_eq_exp_minus_1)
  then show ?thesis by (simp add: k take_bit_eq_mask[symmetric] take_bit_eq_mod)
qed

lemma fifo_cap_dvd:
  assumes "fifo_ok f"
  shows "fifo_cap f dvd 2 ^ 32" and "0 < fifo_cap f" and "fifo_cap f \<le> 65536"
proof -
  obtain k where k: "fifo_cap f = 2 ^ k" "k \<le> 16" using assms by (auto simp: fifo_ok_def)
  show "fifo_cap f dvd 2 ^ 32" unfolding k(1) by (rule le_imp_power_dvd) (use k in simp)
  show "0 < fifo_cap f" by (simp add: k)
  show "fifo_cap f \<le> 65536" using power_increasing[OF k(2), of "2 :: nat"] by (simp add: k)
qed

lemma mod_add_cancel:
  fixes a i c m :: nat
  assumes "c dvd m"
  shows "(a mod m + i) mod c = (a + i) mod c"
proof -
  have "(a mod m + i) mod c = (a mod m mod c + i) mod c" by (simp only: mod_add_left_eq)
  then show ?thesis by (simp only: mod_mod_cancel[OF assms] mod_add_left_eq)
qed

lemma fifo_byte_mod:
  assumes "fifo_ok f"
  shows "fifo_byte f i = fifo_buf f ! ((fifo_read_pos f + i) mod fifo_cap f)"
proof -
  have "u32_add (fifo_read_pos f) i mod fifo_cap f = (fifo_read_pos f + i) mod fifo_cap f"
    unfolding u32_add_def u32_def using mod_mod_cancel[OF fifo_cap_dvd(1)[OF assms]] by simp
  then show ?thesis by (simp add: fifo_byte_def and_mask[OF assms])
qed

lemma length_fifo_list [simp]: "length (fifo_list f) = u32_sub (fifo_write_pos f) (fifo_read_pos f)"
  by (simp add: fifo_list_def)

lemma nth_fifo_list: "fifo_ok f \<Longrightarrow> i < length (fifo_list f) \<Longrightarrow> fifo_list f ! i = fifo_buf f ! ((fifo_read_pos f + i) mod fifo_cap f)"
  by (simp add: fifo_list_def fifo_byte_mod)

lemma u32_sub_int: "a < 2 ^ 32 \<Longrightarrow> b < 2 ^ 32 \<Longrightarrow> int (u32_sub a b) = (int a - int b) mod 2 ^ 32"
proof -
  assume ab: "a < 2 ^ 32" "b < 2 ^ 32"
  have "int (u32_sub a b) = (int a - int b + 2 ^ 32) mod 2 ^ 32"
    using ab by (simp add: u32_sub_def u32_def zmod_int of_nat_diff algebra_simps)
  then show ?thesis by simp
qed

lemma u32_add_int: "int (u32_add a b) = (int a + int b) mod 2 ^ 32"
  by (simp add: u32_add_def u32_def zmod_int)

text \<open>Moving one of the positions changes the number of bytes by as much.\<close>

lemma u32_sub_skip:
  assumes "w < 2 ^ 32" and "r < 2 ^ 32" and "n \<le> u32_sub w r"
  shows "u32_sub w (u32_add r n) = u32_sub w r - n"
proof -
  have l: "u32_add r n < 2 ^ 32" by (simp add: u32_add_def)
  have "int (u32_sub w (u32_add r n)) = (int w - (int r + int n)) mod 2 ^ 32"
    unfolding u32_sub_int[OF assms(1) l] u32_add_int by (simp add: mod_diff_right_eq)
  also have "\<dots> = ((int w - int r) mod 2 ^ 32 - int n) mod 2 ^ 32" by (simp add: mod_diff_left_eq diff_diff_eq)
  also have "\<dots> = (int (u32_sub w r - n)) mod 2 ^ 32" by (simp only: of_nat_diff[OF assms(3)] u32_sub_int[OF assms(1,2)])
  also have "\<dots> = int (u32_sub w r - n)" using u32_sub_less[of w r] by (intro mod_pos_pos_trivial) (simp_all add: less_imp_diff_less)
  finally show ?thesis by simp
qed

lemma u32_sub_put:
  assumes "w < 2 ^ 32" and "r < 2 ^ 32" and "u32_sub w r + n < 2 ^ 32"
  shows "u32_sub (u32_add w n) r = u32_sub w r + n"
proof -
  have l: "u32_add w n < 2 ^ 32" by (simp add: u32_add_def)
  have "int (u32_sub (u32_add w n) r) = (int w + int n - int r) mod 2 ^ 32"
    unfolding u32_sub_int[OF l assms(2)] u32_add_int by (simp add: mod_diff_left_eq)
  also have "\<dots> = ((int w - int r) mod 2 ^ 32 + int n) mod 2 ^ 32" by (simp only: mod_add_left_eq) (simp add: algebra_simps)
  also have "\<dots> = int (u32_sub w r + n) mod 2 ^ 32" by (simp only: of_nat_add u32_sub_int[OF assms(1,2)])
  also have "\<dots> = int (u32_sub w r + n)" using assms(3) by (intro mod_pos_pos_trivial) auto
  finally show ?thesis by simp
qed

lemma fifo_skip:
  assumes "fifo_ok f" and "n \<le> length (fifo_list f)"
  shows "fifo_list (fifo_skip n f) = drop n (fifo_list f)" and "fifo_ok (fifo_skip n f)" and "fifo_cap (fifo_skip n f) = fifo_cap f"
proof -
  let ?r = "fifo_read_pos f" and ?w = "fifo_write_pos f"
  have rw: "?w < 2 ^ 32" "?r < 2 ^ 32" using assms(1) by (simp_all add: fifo_ok_def)
  have len: "u32_sub ?w (u32_add ?r n) = u32_sub ?w ?r - n" using u32_sub_skip[OF rw] assms(2) by simp
  show ok: "fifo_ok (fifo_skip n f)" using assms(1) len by (auto simp: fifo_ok_def fifo_skip_def fifo_cap_def)
  show "fifo_cap (fifo_skip n f) = fifo_cap f" by (simp add: fifo_cap_def fifo_skip_def)
  have "fifo_byte (fifo_skip n f) i = fifo_byte f (n + i)" for i
  proof -
    have "(u32_add ?r n + i) mod fifo_cap f = (?r + (n + i)) mod fifo_cap f"
      using mod_add_cancel[OF fifo_cap_dvd(1)[OF assms(1)], of "?r + n" i] by (simp add: u32_add_def u32_def add.assoc)
    then show ?thesis unfolding fifo_byte_mod[OF ok] fifo_byte_mod[OF assms(1)] by (simp add: fifo_skip_def fifo_cap_def)
  qed
  then show "fifo_list (fifo_skip n f) = drop n (fifo_list f)"
    by (intro nth_equalityI) (use len in \<open>simp_all add: fifo_list_def fifo_skip_def\<close>)
qed

section \<open>What the SDK documents\<close>

locale app_fifo_lib =
  fixes F :: app_fifo_ops
  assumes init_law: "length (fifo_buf f) = 2 ^ k \<Longrightarrow> k \<le> 16 \<Longrightarrow> app_fifo_init F (2 ^ k) f = (r, f') \<Longrightarrow>
      r = NRF_SUCCESS \<and> fifo_ok f' \<and> fifo_cap f' = 2 ^ k \<and> fifo_list f' = []"
    and flush_law: "fifo_ok f \<Longrightarrow> fifo_ok (app_fifo_flush F f) \<and> fifo_cap (app_fifo_flush F f) = fifo_cap f \<and> fifo_list (app_fifo_flush F f) = []"
    and size_law: "fifo_ok f \<Longrightarrow> app_fifo_size F f = length (fifo_list f)"
    and space_law: "fifo_ok f \<Longrightarrow> app_fifo_space F f = fifo_cap f - length (fifo_list f)"
    and write_law: "fifo_ok f \<Longrightarrow> app_fifo_write F d f = (r, f') \<Longrightarrow> fifo_ok f' \<and> fifo_cap f' = fifo_cap f
      \<and> fifo_list f' = fifo_list f @ take (fifo_cap f - length (fifo_list f)) d
      \<and> (r = NRF_SUCCESS \<longleftrightarrow> length (fifo_list f) < fifo_cap f)"
    and read_law: "fifo_ok f \<Longrightarrow> app_fifo_read F n f = (d, f') \<Longrightarrow> fifo_ok f' \<and> fifo_cap f' = fifo_cap f
      \<and> d = take n (fifo_list f) \<and> fifo_list f' = drop n (fifo_list f)"
    and peek_law: "fifo_ok f \<Longrightarrow> i < length (fifo_list f) \<Longrightarrow> app_fifo_peek F i f = fifo_list f ! i"

section \<open>A simulated FIFO\<close>

definition sim_put :: "app_fifo \<Rightarrow> byte \<Rightarrow> app_fifo" where
  "sim_put f b = f\<lparr>fifo_buf := (fifo_buf f)[fifo_write_pos f mod fifo_cap f := b], fifo_write_pos := u32_add (fifo_write_pos f) 1\<rparr>"

definition sim_fifo :: app_fifo_ops where
  "sim_fifo = \<lparr>app_fifo_init = (\<lambda>n f. (NRF_SUCCESS, f\<lparr>buf_size_mask := n - 1, fifo_read_pos := 0, fifo_write_pos := 0\<rparr>)),
     app_fifo_flush = (\<lambda>f. f\<lparr>fifo_read_pos := fifo_write_pos f\<rparr>),
     app_fifo_space = (\<lambda>f. fifo_cap f - u32_sub (fifo_write_pos f) (fifo_read_pos f)),
     app_fifo_size = (\<lambda>f. u32_sub (fifo_write_pos f) (fifo_read_pos f)),
     app_fifo_write = (\<lambda>d f. let space = fifo_cap f - u32_sub (fifo_write_pos f) (fifo_read_pos f) in
       if space = 0 then (NRF_ERROR_NO_MEM, f) else (NRF_SUCCESS, foldl sim_put f (take space d))),
     app_fifo_read = (\<lambda>n f. (take n (fifo_list f), fifo_skip (min n (length (fifo_list f))) f)),
     app_fifo_peek = (\<lambda>i f. fifo_list f ! i)\<rparr>"

lemma sim_put:
  assumes "fifo_ok f" and "length (fifo_list f) < fifo_cap f"
  shows "fifo_list (sim_put f b) = fifo_list f @ [b]" and "fifo_ok (sim_put f b)" and "fifo_cap (sim_put f b) = fifo_cap f"
proof -
  let ?r = "fifo_read_pos f" and ?w = "fifo_write_pos f" and ?c = "fifo_cap f"
  note c = fifo_cap_dvd[OF assms(1)]
  have rw: "?w < 2 ^ 32" "?r < 2 ^ 32" and lb: "length (fifo_buf f) = ?c" using assms(1) by (simp_all add: fifo_ok_def)
  have len: "u32_sub (u32_add ?w 1) ?r = u32_sub ?w ?r + 1" using u32_sub_put[OF rw, of 1] assms(2) c(3) by simp
  show cap: "fifo_cap (sim_put f b) = ?c" by (simp add: fifo_cap_def sim_put_def)
  show ok: "fifo_ok (sim_put f b)" using assms len by (auto simp: fifo_ok_def cap) (simp_all add: sim_put_def u32_add_def len)
  have w: "?w mod ?c = (?r + u32_sub ?w ?r) mod ?c"
  proof -
    have "int ((?r + u32_sub ?w ?r) mod 2 ^ 32) = int ?w mod 2 ^ 32"
      using u32_sub_int[OF rw] by (simp add: zmod_int mod_add_right_eq)
    then have "(?r + u32_sub ?w ?r) mod 2 ^ 32 = ?w" using rw by simp
    then show ?thesis using mod_mod_cancel[OF c(1)] by metis
  qed
  show "fifo_list (sim_put f b) = fifo_list f @ [b]"
  proof (rule nth_equalityI)
    show l: "length (fifo_list (sim_put f b)) = length (fifo_list f @ [b])" using len by (simp add: sim_put_def)
    fix i assume i: "i < length (fifo_list (sim_put f b))"
    have ne: "(?r + i) mod ?c \<noteq> (?r + u32_sub ?w ?r) mod ?c" if "i < u32_sub ?w ?r"
    proof
      assume "(?r + i) mod ?c = (?r + u32_sub ?w ?r) mod ?c"
      then have "?c dvd (?r + u32_sub ?w ?r) - (?r + i)" by (metis mod_eq_dvd_iff_nat add_le_mono order_refl less_imp_le that)
      then show False using that assms(2) by (auto dest: dvd_imp_le)
    qed
    show "fifo_list (sim_put f b) ! i = (fifo_list f @ [b]) ! i"
    proof (cases "i < u32_sub ?w ?r")
      case True
      then show ?thesis using ne[OF True] nth_fifo_list[OF ok i] nth_fifo_list[OF assms(1), of i] w c(2)
        by (simp add: nth_append cap) (simp add: sim_put_def)
    next
      case False
      then have "i = u32_sub ?w ?r" using i len by (simp add: sim_put_def)
      then show ?thesis using nth_fifo_list[OF ok i] w c(2) lb by (simp add: nth_append cap) (simp add: sim_put_def)
    qed
  qed
qed

lemma sim_puts:
  assumes "fifo_ok f" and "length (fifo_list f) + length d \<le> fifo_cap f"
  shows "fifo_list (foldl sim_put f d) = fifo_list f @ d \<and> fifo_ok (foldl sim_put f d) \<and> fifo_cap (foldl sim_put f d) = fifo_cap f"
  using assms
proof (induction d arbitrary: f)
  case (Cons b d)
  have "length (fifo_list f) < fifo_cap f" using Cons.prems(2) by simp
  note * = sim_put[OF Cons.prems(1) this, of b]
  have "length (fifo_list (sim_put f b)) + length d \<le> fifo_cap (sim_put f b)" unfolding * using Cons.prems(2) by simp
  from Cons.IH[OF *(2) this] show ?case unfolding * by simp
qed simp

interpretation sim_fifo: app_fifo_lib sim_fifo
proof
  fix f f' :: app_fifo and r k n d
  show "length (fifo_buf f) = 2 ^ k \<Longrightarrow> k \<le> 16 \<Longrightarrow> app_fifo_init sim_fifo (2 ^ k) f = (r, f') \<Longrightarrow>
      r = NRF_SUCCESS \<and> fifo_ok f' \<and> fifo_cap f' = 2 ^ k \<and> fifo_list f' = []"
    by (auto simp: sim_fifo_def fifo_ok_def fifo_cap_def fifo_list_def)
  assume ok: "fifo_ok f"
  then show "fifo_ok (app_fifo_flush sim_fifo f) \<and> fifo_cap (app_fifo_flush sim_fifo f) = fifo_cap f \<and> fifo_list (app_fifo_flush sim_fifo f) = []"
    by (auto simp: sim_fifo_def fifo_ok_def fifo_cap_def fifo_list_def)
  show "app_fifo_size sim_fifo f = length (fifo_list f)" "app_fifo_space sim_fifo f = fifo_cap f - length (fifo_list f)"
    by (simp_all add: sim_fifo_def)
  have le: "length (fifo_list f) \<le> fifo_cap f" using ok by (simp add: fifo_ok_def)
  show "app_fifo_write sim_fifo d f = (r, f') \<Longrightarrow> fifo_ok f' \<and> fifo_cap f' = fifo_cap f
      \<and> fifo_list f' = fifo_list f @ take (fifo_cap f - length (fifo_list f)) d \<and> (r = NRF_SUCCESS \<longleftrightarrow> length (fifo_list f) < fifo_cap f)"
    using sim_puts[OF ok, of "take (fifo_cap f - length (fifo_list f)) d"] ok le by (auto simp: sim_fifo_def Let_def split: if_splits)
  show "app_fifo_peek sim_fifo i f = fifo_list f ! i" for i by (simp add: sim_fifo_def)
  fix d show "app_fifo_read sim_fifo n f = (d, f') \<Longrightarrow> fifo_ok f' \<and> fifo_cap f' = fifo_cap f
      \<and> d = take n (fifo_list f) \<and> fifo_list f' = drop n (fifo_list f)"
    using fifo_skip[OF ok, of "min n (length (fifo_list f))"] by (auto simp: sim_fifo_def min_def)
qed

declare length_fifo_list [simp del]

end
