(* ===== verification/Sender.thy ===== *)
theory Sender
  imports App_Fifo
begin

text \<open>
  The sender, \<^verbatim>\<open>incl/sender_lib.c\<close>: bytes of responses wait in a FIFO until a timer hands them to the Bluetooth
  module in packets of 20, and received bytes wait in a second FIFO for the request handler.  Bluetooth, the timer of
  the SDK, the timeouts and the clock are operations on a world; the variant with the disconnect timeout enabled is
  modelled (a build without \<^verbatim>\<open>DEBUG_LOG_ENABLE\<close>).
\<close>

section \<open>State\<close>

definition TRANSMIT_QUEUED_BYTES_PERIOD_MS :: nat where "TRANSMIT_QUEUED_BYTES_PERIOD_MS = 5"
definition TX_FIFO_SIZE :: nat where "TX_FIFO_SIZE = 512"
definition RX_FIFO_SIZE :: nat where "RX_FIFO_SIZE = 128"
definition MAX_BYTES_PER_TRANSMIT :: nat where "MAX_BYTES_PER_TRANSMIT = 20"
definition DISCONNECT_TIMEOUT_MS :: nat where "DISCONNECT_TIMEOUT_MS = 15 * 1000"

record receive_notification =
  notification_len :: nat
  timepoint_ticks :: nat
  timepoint_seconds :: nat
  timepoint_milliseconds :: nat

record 'e sender =
  connected :: bool
  transmitting :: bool
  receive_notification_handler :: "(receive_notification \<Rightarrow> 'e \<Rightarrow> 'e) option"
  tx_fifo :: app_fifo
  rx_fifo :: app_fifo
  disconnect_timeout_id :: nat
  world :: 'e

record 'e sender_env =
  fifo :: app_fifo_ops
  ble_transmit :: "byte list \<Rightarrow> 'e \<Rightarrow> ret_code \<times> 'e"
  ble_disconnect :: "'e \<Rightarrow> 'e"
  ble_set_callbacks :: "'e \<Rightarrow> 'e"
  disconnect_timeout_register :: "'e \<Rightarrow> (ret_code + nat) \<times> 'e"
  disconnect_timeout_start :: "nat \<Rightarrow> nat \<Rightarrow> 'e \<Rightarrow> 'e"
  disconnect_timeout_stop :: "nat \<Rightarrow> 'e \<Rightarrow> 'e"
  disconnect_timeout_reset :: "nat \<Rightarrow> 'e \<Rightarrow> 'e"
  transmit_timer_create :: "'e \<Rightarrow> ret_code \<times> 'e"
  transmit_timer_start :: "nat \<Rightarrow> 'e \<Rightarrow> ret_code \<times> 'e"
  transmit_timer_stop :: "'e \<Rightarrow> 'e"
  continuous_millis :: "'e \<Rightarrow> nat \<times> 'e"
  current_ticks :: "'e \<Rightarrow> nat \<times> 'e"
  current_timestamp :: "'e \<Rightarrow> (nat \<times> nat) \<times> 'e"

definition upd_world :: "('e \<Rightarrow> 'e) \<Rightarrow> 'e sender \<Rightarrow> 'e sender" where
  "upd_world g s = s\<lparr>world := g (world s)\<rparr>"

section \<open>Connection\<close>

definition sender_reset :: "'e sender_env \<Rightarrow> 'e sender \<Rightarrow> 'e sender" where
  "sender_reset E s = s\<lparr>connected := False, transmitting := False,
     tx_fifo := app_fifo_flush (fifo E) (tx_fifo s), rx_fifo := app_fifo_flush (fifo E) (rx_fifo s)\<rparr>"

definition on_connect_callback :: "'e sender_env \<Rightarrow> 'e sender \<Rightarrow> 'e sender" where
  "on_connect_callback E s =
     (upd_world (disconnect_timeout_start E (disconnect_timeout_id s) DISCONNECT_TIMEOUT_MS) (sender_reset E s))\<lparr>connected := True\<rparr>"

definition on_disconnect_callback :: "'e sender_env \<Rightarrow> 'e sender \<Rightarrow> 'e sender" where
  "on_disconnect_callback E s =
     (upd_world (disconnect_timeout_stop E (disconnect_timeout_id s)) (sender_reset E s))\<lparr>connected := False\<rparr>"

definition on_transmit_callback :: "'e sender \<Rightarrow> 'e sender" where
  "on_transmit_callback s = s"

definition sender_disconnect :: "'e sender_env \<Rightarrow> 'e sender \<Rightarrow> 'e sender" where
  "sender_disconnect E s = upd_world (ble_disconnect E) (sender_reset E s)"

section \<open>Interrupts\<close>

definition on_receive_callback :: "'e sender_env \<Rightarrow> byte list \<Rightarrow> 'e sender \<Rightarrow> 'e sender" where
  "on_receive_callback E data s =
     (case current_ticks E (world s) of (ticks, e) \<Rightarrow>
      case current_timestamp E e of ((seconds, milliseconds), e) \<Rightarrow>
      case app_fifo_write (fifo E) data (rx_fifo s) of (_, f) \<Rightarrow>
      let s = s\<lparr>rx_fifo := f, world := e\<rparr>;
          s = (case receive_notification_handler s of None \<Rightarrow> s
               | Some h \<Rightarrow> upd_world (h \<lparr>notification_len = length data, timepoint_ticks = ticks,
                   timepoint_seconds = seconds, timepoint_milliseconds = milliseconds\<rparr>) s)
      in upd_world (disconnect_timeout_reset E (disconnect_timeout_id s)) s)"

definition transmit_queued_bytes :: "'e sender_env \<Rightarrow> 'e sender \<Rightarrow> ret_code \<times> 'e sender" where
  "transmit_queued_bytes E s =
     (if \<not> transmitting s then (NRF_ERROR_INVALID_STATE, upd_world (transmit_timer_stop E) s)
      else
        let remaining_size = app_fifo_size (fifo E) (tx_fifo s);
            s = (if remaining_size = 0 then s\<lparr>transmitting := False\<rparr> else s);
            len = (if remaining_size > MAX_BYTES_PER_TRANSMIT then MAX_BYTES_PER_TRANSMIT else remaining_size)
        in if len > 0 then
             (case ble_transmit E (map (fifo_byte (tx_fifo s)) [0..<len]) (world s) of (ret, e) \<Rightarrow>
              let s = s\<lparr>world := e\<rparr>
              in (ret, if ret = NRF_SUCCESS then s\<lparr>tx_fifo := fifo_skip len (tx_fifo s)\<rparr> else s))
           else (NRF_SUCCESS, upd_world (transmit_timer_stop E) s))"

definition transmit_queued_bytes_timer_callback :: "'e sender_env \<Rightarrow> 'e sender \<Rightarrow> 'e sender" where
  "transmit_queued_bytes_timer_callback E s = snd (transmit_queued_bytes E s)"

text \<open>
  The interrupts.  A busy-wait loop of the main program is interrupted by them; the loops below read them
  from a script, with the interrupts between two polls as one entry.
\<close>

datatype sender_event = Timer_Expired | Data_Received "byte list" | Connected | Disconnected | Disconnect_Timeout

fun handle_event :: "'e sender_env \<Rightarrow> sender_event \<Rightarrow> 'e sender \<Rightarrow> 'e sender" where
  "handle_event E Timer_Expired s = transmit_queued_bytes_timer_callback E s"
| "handle_event E (Data_Received data) s = on_receive_callback E data s"
| "handle_event E Connected s = on_connect_callback E s"
| "handle_event E Disconnected s = on_disconnect_callback E s"
| "handle_event E Disconnect_Timeout s = sender_disconnect E s"

definition handle_events :: "'e sender_env \<Rightarrow> sender_event list \<Rightarrow> 'e sender \<Rightarrow> 'e sender" where
  "handle_events E evs s = fold (handle_event E) evs s"

type_synonym script = "sender_event list list"

section \<open>Interface\<close>

definition sender_init :: "'e sender_env \<Rightarrow> 'e sender \<Rightarrow> ret_code \<times> 'e sender" where
  "sender_init E s =
     (case app_fifo_init (fifo E) TX_FIFO_SIZE (tx_fifo s) of (ret, f) \<Rightarrow>
      let s = s\<lparr>tx_fifo := f\<rparr> in
      if ret \<noteq> NRF_SUCCESS then (NRF_ERROR_INTERNAL, s)
      else case app_fifo_init (fifo E) RX_FIFO_SIZE (rx_fifo s) of (ret, f) \<Rightarrow>
      let s = s\<lparr>rx_fifo := f\<rparr> in
      if ret \<noteq> NRF_SUCCESS then (NRF_ERROR_INTERNAL, s)
      else
        let s = sender_reset E s in
        case disconnect_timeout_register E (world s) of (r, e) \<Rightarrow>
        (case r of Inl _ \<Rightarrow> (NRF_ERROR_INTERNAL, s\<lparr>world := e\<rparr>)
         | Inr i \<Rightarrow>
           let s = upd_world (ble_set_callbacks E) (s\<lparr>disconnect_timeout_id := i, world := e, receive_notification_handler := None\<rparr>)
           in case transmit_timer_create E (world s) of (ret, e) \<Rightarrow> (ret, s\<lparr>world := e\<rparr>)))"

definition sender_set_receive_notification_handler :: "(receive_notification \<Rightarrow> 'e \<Rightarrow> 'e) option \<Rightarrow> 'e sender \<Rightarrow> 'e sender" where
  "sender_set_receive_notification_handler h s = s\<lparr>receive_notification_handler := h\<rparr>"

definition sender_get_received_data_size :: "'e sender_env \<Rightarrow> 'e sender \<Rightarrow> nat" where
  "sender_get_received_data_size E s = app_fifo_size (fifo E) (rx_fifo s)"

definition sender_get_received_data :: "'e sender_env \<Rightarrow> nat \<Rightarrow> 'e sender \<Rightarrow> byte list \<times> 'e sender" where
  "sender_get_received_data E len s =
     (let available_size = sender_get_received_data_size E s;
          len = (if len > available_size then available_size else len)
      in case app_fifo_read (fifo E) len (rx_fifo s) of (data, f) \<Rightarrow> (data, s\<lparr>rx_fifo := f\<rparr>))"

text \<open>The loops; \<open>None\<close> is a loop that is still waiting at the end of the script.\<close>

fun await_loop :: "'e sender_env \<Rightarrow> script \<Rightarrow> nat \<Rightarrow> nat \<Rightarrow> 'e sender \<Rightarrow> ('e sender \<times> script) option" where
  "await_loop E [] len deadline s = None"
| "await_loop E (evs # script) len deadline s =
     (if sender_get_received_data_size E s < len then
        (case continuous_millis E (world s) of (now, e) \<Rightarrow>
         if now \<le> deadline then await_loop E script len deadline (handle_events E evs (s\<lparr>world := e\<rparr>))
         else Some (s\<lparr>world := e\<rparr>, script))
      else Some (s, script))"

definition sender_await_data ::
  "'e sender_env \<Rightarrow> script \<Rightarrow> nat \<Rightarrow> nat \<Rightarrow> 'e sender \<Rightarrow> ((ret_code + byte list) \<times> 'e sender \<times> script) option" where
  "sender_await_data E script len timeout_ms s =
     (if \<not> connected s then Some (Inl NRF_ERROR_INVALID_STATE, s, script)
      else case continuous_millis E (world s) of (start_ms, e) \<Rightarrow>
        case await_loop E script len (u64_add start_ms timeout_ms) (s\<lparr>world := e\<rparr>) of
          None \<Rightarrow> None
        | Some (s, script) \<Rightarrow>
            if sender_get_received_data_size E s < len then Some (Inl NRF_ERROR_TIMEOUT, s, script)
            else case sender_get_received_data E len s of (data, s) \<Rightarrow> Some (Inr data, s, script))"

definition sender_get_transmit_fifo_size :: "'e sender_env \<Rightarrow> 'e sender \<Rightarrow> nat" where
  "sender_get_transmit_fifo_size E s = u32_sub TX_FIFO_SIZE (app_fifo_space (fifo E) (tx_fifo s))"

fun space_loop :: "'e sender_env \<Rightarrow> script \<Rightarrow> nat \<Rightarrow> nat \<Rightarrow> 'e sender \<Rightarrow> (nat \<times> 'e sender \<times> script) option" where
  "space_loop E [] len deadline s = None"
| "space_loop E (evs # script) len deadline s =
     (let available_size = app_fifo_space (fifo E) (tx_fifo s) in
      if len > available_size then
        (case continuous_millis E (world s) of (now, e) \<Rightarrow>
         if now \<le> deadline then space_loop E script len deadline (handle_events E evs (s\<lparr>world := e\<rparr>))
         else Some (available_size, s\<lparr>world := e\<rparr>, script))
      else Some (available_size, s, script))"

text \<open>
  Between the critical region and the test of the flag one entry of the script is handled.  The return code of \<open>app_timer_start\<close> is ignored.
\<close>

definition sender_transmit ::
  "'e sender_env \<Rightarrow> script \<Rightarrow> byte list \<Rightarrow> nat \<Rightarrow> 'e sender \<Rightarrow> (ret_code \<times> 'e sender \<times> script) option" where
  "sender_transmit E script data timeout_ms s =
     (if \<not> connected s then Some (NRF_ERROR_INVALID_STATE, s, script)
      else case continuous_millis E (world s) of (start_ms, e) \<Rightarrow>
        case space_loop E script (length data) (u64_add start_ms timeout_ms) (s\<lparr>world := e\<rparr>) of
          None \<Rightarrow> None
        | Some (available_size, s, script) \<Rightarrow>
            if length data > available_size then Some (NRF_ERROR_NO_MEM, s, script)
            else
              let s = upd_world (disconnect_timeout_reset E (disconnect_timeout_id s)) s in
              case app_fifo_write (fifo E) data (tx_fifo s) of (ret, f) \<Rightarrow>
              let s = s\<lparr>tx_fifo := f\<rparr> in
              if ret \<noteq> NRF_SUCCESS then Some (ret, s, script)
              else
                let (s, script) = (case script of [] \<Rightarrow> (s, []) | evs # script \<Rightarrow> (handle_events E evs s, script))
                in Some (NRF_SUCCESS,
                     if \<not> transmitting s
                     then upd_world (snd \<circ> transmit_timer_start E TRANSMIT_QUEUED_BYTES_PERIOD_MS) (s\<lparr>transmitting := True\<rparr>) else s, script))"

section \<open>The world of the sender\<close>

text \<open>
  \<open>sent\<close> are the bytes Bluetooth has taken over, \<open>timer_on\<close> tells whether the timer runs: what each operation does to them.  A start of the
  timer may fail, e.g. with \<open>NRF_ERROR_NO_MEM\<close> when the queue of timer operations is full.
\<close>

definition quiet :: "('e \<Rightarrow> byte list) \<Rightarrow> ('e \<Rightarrow> bool) \<Rightarrow> ('e \<Rightarrow> 'e) \<Rightarrow> bool" where
  "quiet sent timer_on g \<longleftrightarrow> (\<forall>e. sent (g e) = sent e \<and> timer_on (g e) = timer_on e)"

locale sender_world = app_fifo_lib "fifo E" for E :: "'e sender_env" +
  fixes sent :: "'e \<Rightarrow> byte list" and timer_on :: "'e \<Rightarrow> bool"
  assumes transmit_law: "ble_transmit E d e = (r, e') \<Longrightarrow> sent e' = (if r = NRF_SUCCESS then sent e @ d else sent e) \<and> timer_on e' = timer_on e"
    and start_law: "transmit_timer_start E ms e = (r, e') \<Longrightarrow> sent e' = sent e \<and> timer_on e' = (timer_on e \<or> r = NRF_SUCCESS)"
    and stop_law: "sent (transmit_timer_stop E e) = sent e"
    and quiet_laws: "quiet sent timer_on (ble_disconnect E)" "quiet sent timer_on (ble_set_callbacks E)"
      "quiet sent timer_on (snd \<circ> disconnect_timeout_register E)" "quiet sent timer_on (disconnect_timeout_start E i ms)"
      "quiet sent timer_on (disconnect_timeout_stop E i)" "quiet sent timer_on (disconnect_timeout_reset E i)"
      "quiet sent timer_on (snd \<circ> transmit_timer_create E)" "quiet sent timer_on (snd \<circ> continuous_millis E)"
      "quiet sent timer_on (snd \<circ> current_ticks E)" "quiet sent timer_on (snd \<circ> current_timestamp E)"

definition sender_wf :: "('e \<Rightarrow> byte list) \<Rightarrow> ('e \<Rightarrow> bool) \<Rightarrow> 'e sender \<Rightarrow> bool" where
  "sender_wf sent timer_on s \<longleftrightarrow> fifo_ok (tx_fifo s) \<and> fifo_ok (rx_fifo s) \<and> fifo_cap (tx_fifo s) = TX_FIFO_SIZE \<and> fifo_cap (rx_fifo s) = RX_FIFO_SIZE
     \<and> (\<forall>h n. receive_notification_handler s = Some h \<longrightarrow> quiet sent timer_on (h n))"

text \<open>No byte waits without the timer; this needs that the starts of the timer succeed.\<close>

definition not_stuck :: "'e sender \<Rightarrow> bool" where
  "not_stuck s \<longleftrightarrow> (fifo_list (tx_fifo s) \<noteq> [] \<longrightarrow> transmitting s)"

definition armed :: "('e \<Rightarrow> bool) \<Rightarrow> 'e sender \<Rightarrow> bool" where
  "armed timer_on s \<longleftrightarrow> (transmitting s \<longrightarrow> timer_on (world s))"

definition still :: "('e \<Rightarrow> bool) \<Rightarrow> 'e sender \<Rightarrow> 'e sender \<Rightarrow> bool" where
  "still timer_on s s' \<longleftrightarrow> (not_stuck s \<longrightarrow> not_stuck s') \<and> (armed timer_on s \<longrightarrow> armed timer_on s')"

definition timer_starts :: "'e sender_env \<Rightarrow> bool" where
  "timer_starts E \<longleftrightarrow> (\<forall>ms e. fst (transmit_timer_start E ms e) = NRF_SUCCESS)"

text \<open>What was sent and what waits, in the order of the air.\<close>

definition out :: "('e \<Rightarrow> byte list) \<Rightarrow> 'e sender \<Rightarrow> byte list" where
  "out sent s = sent (world s) @ fifo_list (tx_fifo s)"

text \<open>The interrupts of an established connection.\<close>

fun in_session :: "sender_event \<Rightarrow> bool" where
  "in_session Timer_Expired = True"
| "in_session (Data_Received d) = True"
| "in_session _ = False"

inductive sender_run :: "'e sender_env \<Rightarrow> ('e \<Rightarrow> byte list) \<Rightarrow> ('e \<Rightarrow> bool) \<Rightarrow> 'e sender \<Rightarrow> bool"
  for E :: "'e sender_env" and sent and timer_on where
  run_init: "length (fifo_buf (tx_fifo s0)) = TX_FIFO_SIZE \<Longrightarrow> length (fifo_buf (rx_fifo s0)) = RX_FIFO_SIZE \<Longrightarrow>
    sender_init E s0 = (NRF_SUCCESS, s) \<Longrightarrow> sender_run E sent timer_on s"
| run_handler: "sender_run E sent timer_on s \<Longrightarrow> (\<And>h n. H = Some h \<Longrightarrow> quiet sent timer_on (h n)) \<Longrightarrow>
    sender_run E sent timer_on (sender_set_receive_notification_handler H s)"
| run_event: "sender_run E sent timer_on s \<Longrightarrow> sender_run E sent timer_on (handle_event E ev s)"
| run_transmit: "sender_run E sent timer_on s \<Longrightarrow> sender_transmit E script data ms s = Some (r, s', script') \<Longrightarrow> sender_run E sent timer_on s'"
| run_await: "sender_run E sent timer_on s \<Longrightarrow> sender_await_data E script len ms s = Some (r, s', script') \<Longrightarrow> sender_run E sent timer_on s'"
| run_read: "sender_run E sent timer_on s \<Longrightarrow> sender_run E sent timer_on (snd (sender_get_received_data E len s))"
| run_disconnect: "sender_run E sent timer_on s \<Longrightarrow> sender_run E sent timer_on (sender_disconnect E s)"

text \<open>A session: the calls and interrupts between two changes of the connection, with the data that were accepted.\<close>

inductive sender_session :: "'e sender_env \<Rightarrow> 'e sender \<Rightarrow> 'e sender \<Rightarrow> byte list \<Rightarrow> bool"
  for E :: "'e sender_env" and s0 where
  session_start: "sender_session E s0 s0 []"
| session_event: "sender_session E s0 s acc \<Longrightarrow> in_session ev \<Longrightarrow> sender_session E s0 (handle_event E ev s) acc"
| session_transmit: "sender_session E s0 s acc \<Longrightarrow> list_all (list_all in_session) script \<Longrightarrow>
    sender_transmit E script data ms s = Some (r, s', script') \<Longrightarrow>
    sender_session E s0 s' (if r = NRF_SUCCESS then acc @ data else acc)"
| session_await: "sender_session E s0 s acc \<Longrightarrow> list_all (list_all in_session) script \<Longrightarrow>
    sender_await_data E script len ms s = Some (r, s', script') \<Longrightarrow> sender_session E s0 s' acc"

lemma quietD: "quiet sent timer_on g \<Longrightarrow> sent (g e) = sent e" "quiet sent timer_on g \<Longrightarrow> timer_on (g e) = timer_on e"
  by (simp_all add: quiet_def)

lemma quiet_snd: "quiet sent timer_on (snd \<circ> g) \<Longrightarrow> g e = (x, e') \<Longrightarrow> sent e' = sent e"
  "quiet sent timer_on (snd \<circ> g) \<Longrightarrow> g e = (x, e') \<Longrightarrow> timer_on e' = timer_on e"
  by (metis comp_apply quietD snd_conv)+

text \<open>What an interrupt of a session keeps.\<close>

definition keeps :: "('e \<Rightarrow> byte list) \<Rightarrow> ('e \<Rightarrow> bool) \<Rightarrow> 'e sender \<Rightarrow> 'e sender \<Rightarrow> bool" where
  "keeps sent timer_on s s' \<longleftrightarrow> sender_wf sent timer_on s' \<and> still timer_on s s' \<and> out sent s' = out sent s"

lemma keeps_trans: "keeps sent timer_on s t \<Longrightarrow> keeps sent timer_on t u \<Longrightarrow> keeps sent timer_on s u"
  by (simp add: keeps_def still_def)

context sender_world
begin

lemmas quiet_simps [simp] = quiet_laws(1,2,4-6)[THEN quietD(1)] quiet_laws(1,2,4-6)[THEN quietD(2)] stop_law

lemmas quiet_pairs = quiet_laws(3,7-10)[THEN quiet_snd(1)] quiet_laws(3,7-10)[THEN quiet_snd(2)]

lemma wf_reset: "sender_wf sent timer_on s \<Longrightarrow> sender_wf sent timer_on (sender_reset E s) \<and> fifo_list (tx_fifo (sender_reset E s)) = []"
  using flush_law by (simp add: sender_wf_def sender_reset_def)

lemma keeps_world:
  assumes "sender_wf sent timer_on s" and "sent e = sent (world s)" and "timer_on e = timer_on (world s)"
  shows "keeps sent timer_on s (s\<lparr>world := e\<rparr>)"
  using assms by (simp add: keeps_def sender_wf_def not_stuck_def armed_def still_def out_def)

lemma keeps_timer:
  assumes wf: "sender_wf sent timer_on s"
  shows "keeps sent timer_on s (transmit_queued_bytes_timer_callback E s)"
proof -
  have ok: "fifo_ok (tx_fifo s)" using wf by (simp add: sender_wf_def)
  let ?l = "fifo_list (tx_fifo s)" and ?n = "min MAX_BYTES_PER_TRANSMIT (length (fifo_list (tx_fifo s)))"
  consider (off) "\<not> transmitting s" | (empty) "transmitting s" "?l = []" | (some) "transmitting s" "?l \<noteq> []" by blast
  then show ?thesis
  proof cases
    case off
    then show ?thesis using wf
      by (simp add: transmit_queued_bytes_timer_callback_def transmit_queued_bytes_def keeps_def sender_wf_def not_stuck_def armed_def still_def out_def upd_world_def)
  next
    case empty
    then have "app_fifo_size (fifo E) (tx_fifo s) = 0" using size_law[OF ok] by simp
    then show ?thesis using wf empty
      by (simp add: transmit_queued_bytes_timer_callback_def transmit_queued_bytes_def keeps_def sender_wf_def not_stuck_def armed_def still_def out_def upd_world_def)
  next
    case some
    then have sz: "app_fifo_size (fifo E) (tx_fifo s) = length ?l" "?n > 0" "length ?l \<noteq> 0"
      using size_law[OF ok] by (simp_all add: MAX_BYTES_PER_TRANSMIT_def)
    have n: "(if length ?l > MAX_BYTES_PER_TRANSMIT then MAX_BYTES_PER_TRANSMIT else length ?l) = ?n" by simp
    have b: "map (fifo_byte (tx_fifo s)) [0..<?n] = take ?n ?l" by (simp add: fifo_list_def take_map)
    obtain r e where t: "ble_transmit E (take ?n ?l) (world s) = (r, e)" by fastforce
    have "transmit_queued_bytes_timer_callback E s =
        (if r = NRF_SUCCESS then s\<lparr>world := e, tx_fifo := fifo_skip ?n (tx_fifo s)\<rparr> else s\<lparr>world := e\<rparr>)"
      using some sz by (simp only: transmit_queued_bytes_timer_callback_def transmit_queued_bytes_def sz n Let_def) (simp add: b t)
    then show ?thesis using transmit_law[OF t] some wf fifo_skip[OF ok, of ?n]
      by (simp add: keeps_def sender_wf_def not_stuck_def armed_def still_def out_def)
  qed
qed

lemma keeps_receive:
  assumes wf: "sender_wf sent timer_on s"
  shows "keeps sent timer_on s (on_receive_callback E d s)"
proof -
  obtain t e1 where 1: "current_ticks E (world s) = (t, e1)" by fastforce
  obtain sec ms e2 where 2: "current_timestamp E e1 = ((sec, ms), e2)" by (metis prod.exhaust)
  obtain r f where 3: "app_fifo_write (fifo E) d (rx_fifo s) = (r, f)" by fastforce
  have f: "fifo_ok f \<and> fifo_cap f = fifo_cap (rx_fifo s)" using write_law[OF _ 3] wf by (simp add: sender_wf_def)
  have q: "sent e2 = sent (world s)" "timer_on e2 = timer_on (world s)" using quiet_pairs 1 2 by metis+
  show ?thesis
  proof (cases "receive_notification_handler s")
    case None
    then show ?thesis using wf f q by (simp add: on_receive_callback_def 1 2 3 Let_def keeps_def sender_wf_def not_stuck_def armed_def still_def out_def upd_world_def)
  next
    case (Some h)
    have "quiet sent timer_on (h n)" for n using wf Some by (simp add: sender_wf_def)
    then have "sent (h n e) = sent e" "timer_on (h n e) = timer_on e" for n e by (simp_all add: quiet_def)
    then show ?thesis using Some wf f q
      by (simp add: on_receive_callback_def 1 2 3 Let_def keeps_def sender_wf_def not_stuck_def armed_def still_def out_def upd_world_def)
  qed
qed

lemma event_wf:
  assumes "sender_wf sent timer_on s"
  shows "sender_wf sent timer_on (handle_event E ev s) \<and> still timer_on s (handle_event E ev s)"
  using keeps_timer[OF assms] keeps_receive[OF assms] wf_reset[OF assms]
  by (cases ev) (auto simp: keeps_def on_connect_callback_def on_disconnect_callback_def sender_disconnect_def upd_world_def
      sender_wf_def not_stuck_def armed_def still_def sender_reset_def)

lemma event_keeps: "sender_wf sent timer_on s \<Longrightarrow> in_session ev \<Longrightarrow> keeps sent timer_on s (handle_event E ev s)"
  using keeps_timer keeps_receive by (cases ev) auto

lemma events_wf:
  assumes "sender_wf sent timer_on s"
  shows "sender_wf sent timer_on (handle_events E evs s) \<and> still timer_on s (handle_events E evs s)"
  using assms unfolding handle_events_def
proof (induction evs arbitrary: s)
  case (Cons ev evs)
  then show ?case using event_wf[OF Cons.prems, of ev] Cons.IH[of "handle_event E ev s"] by (auto simp: still_def)
qed (simp add: still_def)

lemma events_keep:
  assumes "sender_wf sent timer_on s" and "list_all in_session evs"
  shows "keeps sent timer_on s (handle_events E evs s)"
  using assms unfolding handle_events_def
proof (induction evs arbitrary: s)
  case (Cons ev evs)
  have k: "keeps sent timer_on s (handle_event E ev s)" using Cons.prems event_keeps by simp
  then have "sender_wf sent timer_on (handle_event E ev s)" by (simp add: keeps_def)
  then show ?case using keeps_trans[OF k Cons.IH] Cons.prems by simp
qed (simp add: keeps_def still_def)

lemma millis_keeps:
  assumes "sender_wf sent timer_on s" and "continuous_millis E (world s) = (t, e)"
  shows "keeps sent timer_on s (s\<lparr>world := e\<rparr>)"
  using quiet_pairs assms by (intro keeps_world) metis+

text \<open>The waiting loops only let the interrupts happen.\<close>

lemma await_loop_inv:
  assumes "await_loop E script len deadline s = Some (s', script')" and "sender_wf sent timer_on s"
  shows "sender_wf sent timer_on s' \<and> still timer_on s s' \<and> (list_all (list_all in_session) script \<longrightarrow> keeps sent timer_on s s')"
  using assms
proof (induction script arbitrary: s)
  case (Cons evs script)
  obtain t e where m: "continuous_millis E (world s) = (t, e)" by fastforce
  have k: "keeps sent timer_on s (s\<lparr>world := e\<rparr>)" by (rule millis_keeps[OF Cons.prems(2) m])
  have wf: "sender_wf sent timer_on (s\<lparr>world := e\<rparr>)" using k by (simp add: keeps_def still_def)
  note ev = events_wf[OF wf, of evs] and kp = events_keep[OF wf, of evs]
  have "await_loop E script len deadline (handle_events E evs (s\<lparr>world := e\<rparr>)) = Some (s', script') \<or> s' = s\<lparr>world := e\<rparr> \<or> s' = s"
    using Cons.prems(1) by (auto simp: m split: if_splits)
  then show ?case using Cons.IH[of "handle_events E evs (s\<lparr>world := e\<rparr>)"] ev kp k wf Cons.prems(2)
    by (auto simp: keeps_def still_def)
qed simp

lemma space_loop_inv:
  assumes "space_loop E script len deadline s = Some (n, s', script')" and "sender_wf sent timer_on s"
  shows "sender_wf sent timer_on s' \<and> still timer_on s s' \<and> n = app_fifo_space (fifo E) (tx_fifo s')
    \<and> (list_all (list_all in_session) script \<longrightarrow> keeps sent timer_on s s' \<and> list_all (list_all in_session) script')"
  using assms
proof (induction script arbitrary: s)
  case (Cons evs script)
  obtain t e where m: "continuous_millis E (world s) = (t, e)" by fastforce
  have k: "keeps sent timer_on s (s\<lparr>world := e\<rparr>)" by (rule millis_keeps[OF Cons.prems(2) m])
  have wf: "sender_wf sent timer_on (s\<lparr>world := e\<rparr>)" using k by (simp add: keeps_def still_def)
  note ev = events_wf[OF wf, of evs] and kp = events_keep[OF wf, of evs]
  have "space_loop E script len deadline (handle_events E evs (s\<lparr>world := e\<rparr>)) = Some (n, s', script')
      \<or> (s' = s\<lparr>world := e\<rparr> \<or> s' = s) \<and> script' = script \<and> n = app_fifo_space (fifo E) (tx_fifo s)"
    using Cons.prems(1) by (auto simp: m Let_def split: if_splits)
  then show ?case using Cons.IH[of "handle_events E evs (s\<lparr>world := e\<rparr>)"] ev kp k wf Cons.prems(2)
    by (auto simp: keeps_def still_def)
qed simp

lemma read_keeps:
  assumes "sender_wf sent timer_on s"
  shows "keeps sent timer_on s (snd (sender_get_received_data E len s))"
proof -
  have "fifo_ok (snd (app_fifo_read (fifo E) n (rx_fifo s))) \<and> fifo_cap (snd (app_fifo_read (fifo E) n (rx_fifo s))) = fifo_cap (rx_fifo s)" for n
    using read_law[of "rx_fifo s" n] assms by (cases "app_fifo_read (fifo E) n (rx_fifo s)") (simp add: sender_wf_def)
  then show ?thesis using assms
    by (simp add: sender_get_received_data_def Let_def keeps_def sender_wf_def not_stuck_def armed_def still_def out_def split: prod.split) (metis snd_conv)
qed

lemma await_inv:
  assumes "sender_await_data E script len ms s = Some (r, s', script')" and "sender_wf sent timer_on s"
  shows "sender_wf sent timer_on s' \<and> still timer_on s s' \<and> (list_all (list_all in_session) script \<longrightarrow> keeps sent timer_on s s')"
proof (cases "connected s")
  case True
  obtain t e where m: "continuous_millis E (world s) = (t, e)" by fastforce
  note k = millis_keeps[OF assms(2) m]
  from assms(1) True m obtain s1 sc where l: "await_loop E script len (u64_add t ms) (s\<lparr>world := e\<rparr>) = Some (s1, sc)"
    and s': "s' = s1 \<or> s' = snd (sender_get_received_data E len s1)"
    by (auto simp: sender_await_data_def split: option.splits prod.splits if_splits)
  note i = await_loop_inv[OF l] k[unfolded keeps_def]
  have w: "sender_wf sent timer_on s1" using i by simp
  show ?thesis using i s' read_keeps[OF w, of len] k by (auto simp: keeps_def still_def)
next
  case False
  then show ?thesis using assms by (simp add: sender_await_data_def keeps_def still_def)
qed

lemma start_timer:
  assumes "sender_wf sent timer_on s"
    and "s' = (if \<not> transmitting s then upd_world (snd \<circ> transmit_timer_start E p) (s\<lparr>transmitting := True\<rparr>) else s)"
  shows "sender_wf sent timer_on s' \<and> not_stuck s' \<and> (timer_starts E \<and> armed timer_on s \<longrightarrow> armed timer_on s') \<and> out sent s' = out sent s"
proof -
  obtain r e where e: "transmit_timer_start E p (world s) = (r, e)" by fastforce
  have "timer_starts E \<Longrightarrow> r = NRF_SUCCESS" using e by (metis fst_conv timer_starts_def)
  then show ?thesis using assms start_law[OF e] by (auto simp: sender_wf_def not_stuck_def armed_def still_def out_def upd_world_def e)
qed

lemma transmit_inv:
  assumes t: "sender_transmit E script data ms s = Some (r, s', script')" and wf: "sender_wf sent timer_on s"
  shows "sender_wf sent timer_on s' \<and> (not_stuck s \<longrightarrow> not_stuck s') \<and> (timer_starts E \<and> armed timer_on s \<longrightarrow> armed timer_on s')
    \<and> (list_all (list_all in_session) script \<longrightarrow> out sent s' = out sent s @ (if r = NRF_SUCCESS then data else []))"
proof (cases "connected s")
  case False
  then show ?thesis using assms by (simp add: sender_transmit_def)
next
  case True
  obtain n e where m: "continuous_millis E (world s) = (n, e)" by fastforce
  note k = millis_keeps[OF wf m]
  from t True m obtain a s1 sc where l: "space_loop E script (length data) (u64_add n ms) (s\<lparr>world := e\<rparr>) = Some (a, s1, sc)"
    by (auto simp: sender_transmit_def split: option.splits)
  note i = space_loop_inv[OF l] k[unfolded keeps_def]
  have w1: "sender_wf sent timer_on s1" using i by simp
  show ?thesis
  proof (cases "length data > a")
    case True
    then show ?thesis using t \<open>connected s\<close> m l i by (auto simp: sender_transmit_def keeps_def still_def)
  next
    case False
    let ?s2 = "upd_world (disconnect_timeout_reset E (disconnect_timeout_id s1)) s1"
    have k2: "keeps sent timer_on s1 ?s2" unfolding upd_world_def using w1 by (intro keeps_world) simp_all
    obtain ret f where wr: "app_fifo_write (fifo E) data (tx_fifo ?s2) = (ret, f)" by fastforce
    let ?s3 = "?s2\<lparr>tx_fifo := f\<rparr>"
    have ok: "fifo_ok (tx_fifo ?s2)" using k2 by (simp add: keeps_def sender_wf_def)
    note W = write_law[OF ok wr]
    have "length data \<le> fifo_cap (tx_fifo ?s2) - length (fifo_list (tx_fifo ?s2))"
      using False i space_law[OF ok] k2 by (simp add: upd_world_def)
    then have f: "fifo_list f = fifo_list (tx_fifo ?s2) @ data" "fifo_ok f" "fifo_cap f = fifo_cap (tx_fifo ?s2)" using W by simp_all
    have w3: "sender_wf sent timer_on ?s3" using k2 f by (simp add: keeps_def sender_wf_def)
    have o3: "out sent ?s3 = out sent s1 @ data" using k2 f by (simp add: keeps_def out_def)
    show ?thesis
    proof (cases "ret = NRF_SUCCESS")
      case False
      then have "data = []" using W \<open>length data \<le> _\<close> by auto
      then have "still timer_on s1 ?s3" using f by (simp add: still_def armed_def not_stuck_def upd_world_def)
      moreover have "s' = ?s3" "r = ret" using t True \<open>\<not> length data > a\<close> False m l wr by (simp_all add: sender_transmit_def Let_def)
      ultimately show ?thesis using w3 o3 i False \<open>data = []\<close> by (auto simp: keeps_def still_def)
    next
      case S: True
      define s4 where "s4 = (case sc of [] \<Rightarrow> ?s3 | evs # _ \<Rightarrow> handle_events E evs ?s3)"
      have w4: "sender_wf sent timer_on s4" using events_wf[OF w3] w3 by (auto simp: s4_def split: list.split)
      have a4: "armed timer_on s1 \<longrightarrow> armed timer_on s4"
        using events_wf[OF w3] by (auto simp: s4_def still_def armed_def upd_world_def split: list.split)
      have o4: "out sent s4 = out sent ?s3" if "list_all (list_all in_session) sc"
        using events_keep[OF w3] that by (auto simp: s4_def keeps_def split: list.split)
      have s': "s' = (if \<not> transmitting s4 then upd_world (snd \<circ> transmit_timer_start E TRANSMIT_QUEUED_BYTES_PERIOD_MS) (s4\<lparr>transmitting := True\<rparr>) else s4)"
        and r: "r = NRF_SUCCESS"
        using t True \<open>\<not> length data > a\<close> S m l wr by (auto simp: sender_transmit_def Let_def s4_def split: list.splits)
      show ?thesis using start_timer[OF w4 s'] o4 o3 a4 i r by (auto simp: keeps_def still_def)
    qed
  qed
qed

lemma transmit_accepts:
  assumes wf: "sender_wf sent timer_on s" and "connected s" and "data \<noteq> []" and fits: "length (fifo_list (tx_fifo s)) + length data \<le> TX_FIFO_SIZE"
  shows "\<exists>s' sc. sender_transmit E (evs # script) data ms s = Some (NRF_SUCCESS, s', sc)"
proof -
  obtain n e where m: "continuous_millis E (world s) = (n, e)" by fastforce
  have ok: "fifo_ok (tx_fifo s)" "fifo_cap (tx_fifo s) = TX_FIFO_SIZE" using wf by (simp_all add: sender_wf_def)
  have sp: "app_fifo_space (fifo E) (tx_fifo s) = TX_FIFO_SIZE - length (fifo_list (tx_fifo s))" using space_law[OF ok(1)] ok by simp
  obtain r f where w: "app_fifo_write (fifo E) data (tx_fifo s) = (r, f)" by fastforce
  have "0 < length data" using assms(3) by simp
  then have "r = NRF_SUCCESS" using write_law[OF ok(1) w] fits ok by linarith
  moreover have "\<not> length data > TX_FIFO_SIZE - length (fifo_list (tx_fifo s))" using fits by linarith
  ultimately show ?thesis using assms(2) by (auto simp: sender_transmit_def m Let_def sp upd_world_def w split: list.split)
qed

lemma init_ok:
  assumes "length (fifo_buf (tx_fifo s0)) = TX_FIFO_SIZE" and "length (fifo_buf (rx_fifo s0)) = RX_FIFO_SIZE" and "sender_init E s0 = (NRF_SUCCESS, s)"
  shows "sender_wf sent timer_on s \<and> not_stuck s \<and> armed timer_on s"
proof -
  have p: "TX_FIFO_SIZE = 2 ^ 9" "RX_FIFO_SIZE = 2 ^ 7" by (simp_all add: TX_FIFO_SIZE_def RX_FIFO_SIZE_def)
  obtain r1 f1 where 1: "app_fifo_init (fifo E) TX_FIFO_SIZE (tx_fifo s0) = (r1, f1)" by fastforce
  obtain r2 f2 where 2: "app_fifo_init (fifo E) RX_FIFO_SIZE (rx_fifo s0) = (r2, f2)" by fastforce
  have f1: "fifo_ok f1 \<and> fifo_cap f1 = TX_FIFO_SIZE" using init_law[of "tx_fifo s0" 9] 1 assms(1) by (simp add: p)
  have f2: "fifo_ok f2 \<and> fifo_cap f2 = RX_FIFO_SIZE" using init_law[of "rx_fifo s0" 7] 2 assms(2) by (simp add: p)
  note fl = flush_law[of f1] flush_law[of f2]
  have "tx_fifo s = app_fifo_flush (fifo E) f1 \<and> rx_fifo s = app_fifo_flush (fifo E) f2 \<and> \<not> transmitting s \<and> receive_notification_handler s = None"
    using assms(3) by (auto simp: sender_init_def 1 2 Let_def sender_reset_def upd_world_def split: if_splits sum.splits prod.splits)
  then show ?thesis using f1 f2 fl by (simp add: sender_wf_def not_stuck_def armed_def still_def)
qed

lemma run_wf: "sender_run E sent timer_on s \<Longrightarrow> sender_wf sent timer_on s \<and> not_stuck s \<and> (timer_starts E \<longrightarrow> armed timer_on s)"
proof (induction rule: sender_run.induct)
  case (run_init s0 s)
  then show ?case using init_ok by blast
next
  case (run_handler s H)
  then show ?case by (simp add: sender_set_receive_notification_handler_def sender_wf_def not_stuck_def armed_def still_def)
next
  case (run_event s ev)
  then show ?case using event_wf[of s ev] by (auto simp: still_def)
next
  case (run_transmit s script data ms r s' script')
  then show ?case using transmit_inv by blast
next
  case (run_await s script len ms r s' script')
  then show ?case using await_inv[of script len ms s r s' script'] by (auto simp: still_def)
next
  case (run_read s len)
  then show ?case using read_keeps[of s len] by (auto simp: keeps_def still_def)
next
  case (run_disconnect s)
  then show ?case using event_wf[of s Disconnect_Timeout] by (auto simp: still_def)
qed

lemma session_out:
  assumes "sender_session E s0 s acc" and "sender_wf sent timer_on s0"
  shows "sender_wf sent timer_on s \<and> out sent s = out sent s0 @ acc"
  using assms(1)
proof (induction rule: sender_session.induct)
  case session_start
  then show ?case using assms(2) by simp
next
  case (session_event s acc ev)
  then show ?case using event_keeps[of s ev] by (simp add: keeps_def still_def)
next
  case (session_transmit s acc script data ms r s' script')
  then show ?case using transmit_inv[of script data ms s r s' script'] by auto
next
  case (session_await s acc script len ms r s' script')
  then show ?case using await_inv[of script len ms s r s' script'] by (auto simp: keeps_def still_def)
qed

lemma timer_sends:
  assumes wf: "sender_wf sent timer_on s" and ns: "not_stuck s" and acc: "\<And>d e. fst (ble_transmit E d e) = NRF_SUCCESS"
  shows "fifo_list (tx_fifo (transmit_queued_bytes_timer_callback E s)) = drop MAX_BYTES_PER_TRANSMIT (fifo_list (tx_fifo s))"
proof (cases "fifo_list (tx_fifo s) = []")
  case True
  have "app_fifo_size (fifo E) (tx_fifo s) = 0" using size_law[of "tx_fifo s"] wf True by (simp add: sender_wf_def)
  then show ?thesis using True by (simp add: transmit_queued_bytes_timer_callback_def transmit_queued_bytes_def upd_world_def)
next
  case False
  let ?l = "length (fifo_list (tx_fifo s))" and ?n = "min MAX_BYTES_PER_TRANSMIT (length (fifo_list (tx_fifo s)))"
  have ok: "fifo_ok (tx_fifo s)" using wf by (simp add: sender_wf_def)
  have t: "transmitting s" using ns False by (simp add: not_stuck_def)
  have n: "(if ?l > MAX_BYTES_PER_TRANSMIT then MAX_BYTES_PER_TRANSMIT else ?l) = ?n" by simp
  have l: "?l \<noteq> 0" "?n > 0" using False by (simp_all add: MAX_BYTES_PER_TRANSMIT_def)
  obtain e where e: "ble_transmit E (map (fifo_byte (tx_fifo s)) [0..<?n]) (world s) = (NRF_SUCCESS, e)" using acc by (metis prod.collapse)
  have "tx_fifo (transmit_queued_bytes_timer_callback E s) = fifo_skip ?n (tx_fifo s)"
    using t l by (simp only: transmit_queued_bytes_timer_callback_def transmit_queued_bytes_def size_law[OF ok] n Let_def) (simp add: e)
  then show ?thesis using fifo_skip(1)[OF ok, of ?n] by (simp add: min_def)
qed

lemma timer_drains:
  assumes "sender_wf sent timer_on s" and "not_stuck s" and acc: "\<And>d e. fst (ble_transmit E d e) = NRF_SUCCESS"
  shows "fifo_list (tx_fifo ((transmit_queued_bytes_timer_callback E ^^ k) s)) = drop (k * MAX_BYTES_PER_TRANSMIT) (fifo_list (tx_fifo s))
    \<and> out sent ((transmit_queued_bytes_timer_callback E ^^ k) s) = out sent s
    \<and> sender_wf sent timer_on ((transmit_queued_bytes_timer_callback E ^^ k) s) \<and> not_stuck ((transmit_queued_bytes_timer_callback E ^^ k) s)"
proof (induction k)
  case (Suc k)
  let ?s = "(transmit_queued_bytes_timer_callback E ^^ k) s"
  have w: "sender_wf sent timer_on ?s" "not_stuck ?s" using Suc by simp_all
  show ?case using Suc keeps_timer[OF w(1)] timer_sends[OF w acc] by (simp add: keeps_def still_def add.commute)
qed (use assms in simp)

end

section \<open>A simulated Bluetooth\<close>

text \<open>The bytes sent, the state of the timer and a clock.\<close>

type_synonym sim_air = "byte list \<times> bool \<times> nat"

definition sim_sender :: "sim_air sender_env" where
  "sim_sender = \<lparr>fifo = sim_fifo, ble_transmit = (\<lambda>d (b, t, c). (NRF_SUCCESS, (b @ d, t, c))), ble_disconnect = id, ble_set_callbacks = id,
     disconnect_timeout_register = (\<lambda>e. (Inr 0, e)), disconnect_timeout_start = (\<lambda>_ _. id), disconnect_timeout_stop = (\<lambda>_. id),
     disconnect_timeout_reset = (\<lambda>_. id), transmit_timer_create = (\<lambda>e. (NRF_SUCCESS, e)),
     transmit_timer_start = (\<lambda>_ (b, t, c). (NRF_SUCCESS, (b, True, c))), transmit_timer_stop = (\<lambda>(b, t, c). (b, False, c)),
     continuous_millis = (\<lambda>(b, t, c). (c, (b, t, c + 1))), current_ticks = (\<lambda>(b, t, c). (32 * c, (b, t, c))),
     current_timestamp = (\<lambda>(b, t, c). ((c div 1000, c mod 1000), (b, t, c)))\<rparr>"

lemma sim_sender_fifo: "fifo sim_sender = sim_fifo"
  by (simp add: sim_sender_def)

interpretation sim_sender: sender_world sim_sender fst "fst \<circ> snd"
proof (rule sender_world.intro)
  show "app_fifo_lib (fifo sim_sender)" unfolding sim_sender_fifo by (rule sim_fifo.app_fifo_lib_axioms)
  show "sender_world_axioms sim_sender fst (fst \<circ> snd)"
    by unfold_locales (auto simp: sim_sender_def quiet_def)
qed

definition sim_badge :: "sim_air sender" where
  "sim_badge = \<lparr>connected = False, transmitting = False, receive_notification_handler = None,
     tx_fifo = \<lparr>fifo_buf = replicate 512 0, buf_size_mask = 0, fifo_read_pos = 0, fifo_write_pos = 0\<rparr>,
     rx_fifo = \<lparr>fifo_buf = replicate 128 0, buf_size_mask = 0, fifo_read_pos = 0, fifo_write_pos = 0\<rparr>,
     disconnect_timeout_id = 0, world = ([], False, 0)\<rparr>"

definition sim_connected :: "sim_air sender" where
  "sim_connected = on_connect_callback sim_sender (snd (sender_init sim_sender sim_badge))"

lemma sim_connected_run: "sender_run sim_sender fst (fst \<circ> snd) sim_connected"
proof -
  have "sender_init sim_sender sim_badge = (NRF_SUCCESS, snd (sender_init sim_sender sim_badge))"
    by (simp add: sender_init_def sim_sender_def sim_fifo_def sender_reset_def upd_world_def Let_def)
  then have "sender_run sim_sender fst (fst \<circ> snd) (snd (sender_init sim_sender sim_badge))"
    by (intro run_init[of sim_badge]) (simp_all add: sim_badge_def TX_FIFO_SIZE_def RX_FIFO_SIZE_def)
  from run_event[OF this, of Connected] show ?thesis by (simp add: sim_connected_def)
qed

lemma sim_connected_empty: "connected sim_connected" "fifo_list (tx_fifo sim_connected) = []" "fst (world sim_connected) = []"
  by (simp_all add: sim_connected_def on_connect_callback_def upd_world_def sender_reset_def sender_init_def sim_sender_def sim_fifo_def Let_def
      sim_badge_def fifo_list_def)

lemma sim_transmit:
  obtains s sc where "sender_transmit sim_sender [[Timer_Expired], [Data_Received [7]]] [1, 2, 3] 100 sim_connected = Some (NRF_SUCCESS, s, sc)"
  using sim_sender.transmit_accepts[of sim_connected "[1, 2, 3]" "[Timer_Expired]" "[[Data_Received [7]]]" 100]
    sim_sender.run_wf[OF sim_connected_run] sim_connected_empty that
  by (simp add: TX_FIFO_SIZE_def) blast

section \<open>Theorems\<close>

text \<open>
  C6: In a connection, whatever the interleaving of calls, busy waiting and interrupts, the bytes Bluetooth has taken over followed by those in
  the transmit FIFO are the bytes of the calls of \<open>sender_transmit\<close> that returned \<open>NRF_SUCCESS\<close>, in order: none is
  lost, repeated or reordered, and a call with an error has queued nothing.
\<close>

theorem session_loses_nothing:
  assumes "sender_world E sent timer_on" and "sender_run E sent timer_on s0" and "sender_session E s0 s acc"
  shows "sent (world s) @ fifo_list (tx_fifo s) = sent (world s0) @ fifo_list (tx_fifo s0) @ acc"
  using sender_world.session_out[OF assms(1,3)] sender_world.run_wf[OF assms(1,2)] by (simp add: out_def)

theorem session_loses_nothing_witness:
  "\<exists>s. sender_session sim_sender sim_connected s [1, 2, 3] \<and> fst (world s) @ fifo_list (tx_fifo s) = [1, 2, 3]"
proof -
  obtain s sc where t: "sender_transmit sim_sender [[Timer_Expired], [Data_Received [7]]] [1, 2, 3] 100 sim_connected = Some (NRF_SUCCESS, s, sc)"
    by (rule sim_transmit)
  have "sender_session sim_sender sim_connected s (if NRF_SUCCESS = NRF_SUCCESS then [] @ [1, 2, 3] else [])"
    by (rule sender_session.session_transmit[OF session_start _ t]) simp
  then have "sender_session sim_sender sim_connected s [1, 2, 3]" by simp
  moreover from session_loses_nothing[OF sim_sender.sender_world_axioms sim_connected_run this]
  have "fst (world s) @ fifo_list (tx_fifo s) = [1, 2, 3]" by (simp add: sim_connected_empty)
  ultimately show ?thesis by blast
qed

text \<open>
  C7: Queued bytes are delivered, provided that no start of the timer fails: in every reachable state in which bytes wait the timer is running, and if
  Bluetooth takes the packets, then so many expiries of the timer that twenty bytes each suffice send all of them, in order, and leave the
  FIFO empty.  The code ignores the return code of \<open>app_timer_start\<close>, so that the proviso is needed.
\<close>

theorem queued_bytes_are_delivered:
  assumes "sender_world E sent timer_on" and "sender_run E sent timer_on s" and starts: "\<forall>ms e. fst (transmit_timer_start E ms e) = NRF_SUCCESS"
    and "\<forall>d e. fst (ble_transmit E d e) = NRF_SUCCESS" and "length (fifo_list (tx_fifo s)) \<le> k * 20"
  shows "(fifo_list (tx_fifo s) = [] \<or> timer_on (world s))
    \<and> fifo_list (tx_fifo ((transmit_queued_bytes_timer_callback E ^^ k) s)) = []
    \<and> sent (world ((transmit_queued_bytes_timer_callback E ^^ k) s)) = sent (world s) @ fifo_list (tx_fifo s)"
proof -
  note w = sender_world.run_wf[OF assms(1,2)]
  have "fifo_list (tx_fifo s) = [] \<or> timer_on (world s)" using w starts by (auto simp: armed_def not_stuck_def timer_starts_def)
  moreover have d: "fifo_list (tx_fifo ((transmit_queued_bytes_timer_callback E ^^ k) s)) = drop (k * MAX_BYTES_PER_TRANSMIT) (fifo_list (tx_fifo s))
      \<and> out sent ((transmit_queued_bytes_timer_callback E ^^ k) s) = out sent s"
    using sender_world.timer_drains[OF assms(1), of s k] w assms(4) by simp
  moreover have "fifo_list (tx_fifo ((transmit_queued_bytes_timer_callback E ^^ k) s)) = []"
    using d assms(5) by (simp add: MAX_BYTES_PER_TRANSMIT_def)
  moreover from this have "sent (world ((transmit_queued_bytes_timer_callback E ^^ k) s)) = sent (world s) @ fifo_list (tx_fifo s)"
    using d unfolding out_def by (metis append_Nil2)
  ultimately show ?thesis by blast
qed

theorem queued_bytes_are_delivered_witness:
  "\<exists>s. sender_run sim_sender fst (fst \<circ> snd) s \<and> fst (world s) @ fifo_list (tx_fifo s) = [1, 2, 3]
     \<and> (fifo_list (tx_fifo s) = [] \<or> (fst \<circ> snd) (world s))
     \<and> fifo_list (tx_fifo ((transmit_queued_bytes_timer_callback sim_sender ^^ 26) s)) = []
     \<and> fst (world ((transmit_queued_bytes_timer_callback sim_sender ^^ 26) s)) = fst (world s) @ fifo_list (tx_fifo s)"
proof -
  obtain s sc where t: "sender_transmit sim_sender [[Timer_Expired], [Data_Received [7]]] [1, 2, 3] 100 sim_connected = Some (NRF_SUCCESS, s, sc)"
    by (rule sim_transmit)
  have run: "sender_run sim_sender fst (fst \<circ> snd) s" by (rule sender_run.run_transmit[OF sim_connected_run t])
  have "fst (world s) @ fifo_list (tx_fifo s) = [1, 2, 3]"
    using sim_sender.transmit_inv[OF t] sim_sender.run_wf[OF sim_connected_run] by (simp add: out_def sim_connected_empty)
  moreover have "\<forall>ms e. fst (transmit_timer_start sim_sender ms e) = NRF_SUCCESS" "\<forall>d e. fst (ble_transmit sim_sender d e) = NRF_SUCCESS"
    by (simp_all add: sim_sender_def)
  moreover have "length (fifo_list (tx_fifo s)) \<le> 26 * 20"
    using sim_sender.run_wf[OF run] by (simp add: sender_wf_def TX_FIFO_SIZE_def fifo_ok_def length_fifo_list)
  ultimately show ?thesis
    using queued_bytes_are_delivered[OF sim_sender.sender_world_axioms run, of 26] run by blast
qed

end
