(* ===== verification/Request_Handler.thy ===== *)
theory Request_Handler
  imports Sources Sender Circular_Fifo Protocol_Messages Storer
begin

text \<open>
  The request handler, \<^verbatim>\<open>incl/request_handler_lib_02v1.c\<close>: it takes the requests of the host out of the received
  bytes, executes them and sends the responses, in functions that the scheduler calls and that put one another into
  the scheduler.  Its variables are the world of the sender, since the sender calls its notification handler.  Clock,
  advertiser, sampling module, storer, battery and self test are operations on the rest of the world.
\<close>

unbundle bit_operations_syntax

section \<open>State\<close>

definition RECEIVE_NOTIFICATION_FIFO_SIZE :: nat where "RECEIVE_NOTIFICATION_FIFO_SIZE = 256"
definition AWAIT_DATA_TIMEOUT_MS :: nat where "AWAIT_DATA_TIMEOUT_MS = 1000"
definition TRANSMIT_DATA_TIMEOUT_MS :: nat where "TRANSMIT_DATA_TIMEOUT_MS = 100"
definition REQUEST_HANDLER_SERIALIZED_BUFFER_SIZE :: nat where "REQUEST_HANDLER_SERIALIZED_BUFFER_SIZE = 512"
definition RESPONSE_MAX_TRANSMIT_RETRIES :: nat where "RESPONSE_MAX_TRANSMIT_RETRIES = 50"

text \<open>The functions that are called through the scheduler or the table of the requests.\<close>

datatype handler =
    Process_Receive_Notification
  | Send_Response
  | Status_Request_Handler
  | Start_Request_Handler source
  | Stop_Request_Handler source
  | Data_Request_Handler source
  | Start_Stream_Request_Handler source
  | Stop_Stream_Request_Handler source
  | Identify_Request_Handler
  | Test_Request_Handler
  | Restart_Request_Handler
  | Status_Response_Handler
  | Start_Response_Handler source
  | Data_Response_Handler source
  | Stream_Response_Handler
  | Test_Response_Handler

text \<open>
  Request, response and chunks are structures in memories of their own, at address 0.  The queue of the scheduler holds
  the functions that were put into it; events of other modules are not shown.
\<close>

record 'w rh =
  request_timepoint_ticks :: nat
  request :: memory
  response_retries :: nat
  response_success_handler :: "handler option"
  response_fail_handler :: "handler option"
  response :: memory
  response_timestamp :: "nat \<times> nat"
  response_clock_status :: bool
  receive_notification_fifo :: app_fifo
  processing_receive_notification :: bool
  processing_response :: bool
  streaming_started :: bool
  rh_serialized_buf :: "byte list"
  chunk :: "source \<Rightarrow> memory"
  stream_fifo :: "source \<Rightarrow> circular_fifo"
  sched_queue :: "handler list"
  rest :: 'w

type_synonym 'w badge = "'w rh sender"

text \<open>The other modules.  \<open>None\<close> is a call that does not return.\<close>

record 'w rh_env =
  io :: "'w sender_env"
  clock_set_timestamp :: "nat \<Rightarrow> nat \<Rightarrow> nat \<Rightarrow> 'w \<Rightarrow> 'w"
  clock_is_synced :: "'w \<Rightarrow> bool"
  clock_get_timestamp :: "'w \<Rightarrow> (nat \<times> nat) \<times> 'w"
  set_clock_synced_flag :: "'w \<Rightarrow> 'w"
  set_badge_assignement :: "nat \<times> nat \<Rightarrow> 'w \<Rightarrow> ret_code \<times> 'w"
  get_badge_assignement :: "'w \<Rightarrow> nat \<times> nat"
  sampling_get_sampling_configuration :: "'w \<Rightarrow> nat"
  sampling_reset_timeouts :: "'w \<Rightarrow> 'w"
  sampling_start_microphone :: "nat \<Rightarrow> nat \<Rightarrow> bool \<Rightarrow> 'w \<Rightarrow> ret_code \<times> 'w"
  sampling_start_scan :: "nat \<Rightarrow> nat \<Rightarrow> nat \<Rightarrow> nat \<Rightarrow> nat \<Rightarrow> nat \<Rightarrow> nat \<Rightarrow> bool \<Rightarrow> 'w \<Rightarrow> ret_code \<times> 'w"
  sampling_start_accelerometer :: "nat \<Rightarrow> nat \<Rightarrow> nat \<Rightarrow> nat \<Rightarrow> nat \<Rightarrow> bool \<Rightarrow> 'w \<Rightarrow> ret_code \<times> 'w"
  sampling_start_accelerometer_interrupt :: "nat \<Rightarrow> nat \<Rightarrow> nat \<Rightarrow> nat \<Rightarrow> bool \<Rightarrow> 'w \<Rightarrow> ret_code \<times> 'w"
  sampling_start_battery :: "nat \<Rightarrow> nat \<Rightarrow> bool \<Rightarrow> 'w \<Rightarrow> ret_code \<times> 'w"
  sampling_stop :: "source \<Rightarrow> bool \<Rightarrow> 'w \<Rightarrow> 'w"
  storer_find_chunk_from_timestamp :: "source \<Rightarrow> nat \<times> nat \<Rightarrow> memory \<Rightarrow> 'w \<Rightarrow> (ret_code \<times> memory \<times> 'w) option"
  storer_get_next_chunk :: "source \<Rightarrow> memory \<Rightarrow> 'w \<Rightarrow> (ret_code \<times> memory \<times> 'w) option"
  invalidate_iterators :: "'w \<Rightarrow> 'w"
  battery_get_voltage :: "'w \<Rightarrow> byte list \<times> 'w"
  selftest_test :: "'w \<Rightarrow> nat \<times> 'w"
  identify_led :: "nat \<Rightarrow> 'w \<Rightarrow> 'w"
  accelerometer_present :: bool

text \<open>The operations of the sender on the whole state: they act on the rest of the world.\<close>

definition lift_pair :: "('w \<Rightarrow> 'a \<times> 'w) \<Rightarrow> 'w rh \<Rightarrow> 'a \<times> 'w rh" where
  "lift_pair g r = (case g (rest r) of (x, w) \<Rightarrow> (x, r\<lparr>rest := w\<rparr>))"

definition lift_io :: "'w sender_env \<Rightarrow> 'w rh sender_env" where
  "lift_io B = \<lparr>fifo = fifo B, ble_transmit = (\<lambda>d. lift_pair (ble_transmit B d)), ble_disconnect = rest_update (ble_disconnect B),
     ble_set_callbacks = rest_update (ble_set_callbacks B), disconnect_timeout_register = lift_pair (disconnect_timeout_register B),
     disconnect_timeout_start = (\<lambda>i ms. rest_update (disconnect_timeout_start B i ms)), disconnect_timeout_stop = (\<lambda>i. rest_update (disconnect_timeout_stop B i)),
     disconnect_timeout_reset = (\<lambda>i. rest_update (disconnect_timeout_reset B i)), transmit_timer_create = lift_pair (transmit_timer_create B),
     transmit_timer_start = (\<lambda>ms. lift_pair (transmit_timer_start B ms)), transmit_timer_stop = rest_update (transmit_timer_stop B),
     continuous_millis = lift_pair (continuous_millis B), current_ticks = lift_pair (current_ticks B),
     current_timestamp = lift_pair (current_timestamp B)\<rparr>"

definition sender_env :: "'w rh_env \<Rightarrow> 'w rh sender_env" where
  "sender_env E = lift_io (io E)"

definition upd_rest :: "('w \<Rightarrow> 'w) \<Rightarrow> 'w badge \<Rightarrow> 'w badge" where
  "upd_rest g s = upd_world (rest_update g) s"

definition on_rest :: "('w \<Rightarrow> 'a \<times> 'w) \<Rightarrow> 'w badge \<Rightarrow> 'a \<times> 'w badge" where
  "on_rest g s = (case g (rest (world s)) of (x, w) \<Rightarrow> (x, upd_rest (\<lambda>_. w) s))"

definition app_sched_event_put :: "handler \<Rightarrow> 'w rh \<Rightarrow> 'w rh" where
  "app_sched_event_put h r = r\<lparr>sched_queue := sched_queue r @ [h]\<rparr>"

definition put_event :: "handler \<Rightarrow> 'w badge \<Rightarrow> 'w badge" where
  "put_event h s = upd_world (app_sched_event_put h) s"

section \<open>Structures in memory\<close>

definition wr_uint :: "int \<Rightarrow> nat \<Rightarrow> nat \<Rightarrow> memory \<Rightarrow> memory" where
  "wr_uint a n v m = wr a (map (\<lambda>i. of_nat (v div 256 ^ i)) [0..<n]) m"

text \<open>A member of the union of a request, and the addresses of the members of the union of the response.\<close>

definition req_uint :: "ctype list \<Rightarrow> nat \<Rightarrow> 'w badge \<Rightarrow> nat" where
  "req_uint st i s = rd_uint (request (world s)) (int (tb_offsetof Request 1 + tb_offsetof st i)) (tb_membersize st i)"

definition req_timestamp :: "ctype list \<Rightarrow> 'w badge \<Rightarrow> nat \<times> nat" where
  "req_timestamp st s = timestamp_at (request (world s)) (int (tb_offsetof Request 1 + tb_offsetof st 0))"

definition resp_at :: "ctype list \<Rightarrow> nat \<Rightarrow> int" where
  "resp_at st i = int (tb_offsetof Response 1 + tb_offsetof st i)"

definition set_resp :: "ctype list \<Rightarrow> nat \<Rightarrow> nat \<Rightarrow> memory \<Rightarrow> memory" where
  "set_resp st i v m = wr_uint (resp_at st i) (tb_membersize st i) v m"

definition set_resp_timestamp :: "ctype list \<Rightarrow> nat \<Rightarrow> nat \<times> nat \<Rightarrow> memory \<Rightarrow> memory" where
  "set_resp_timestamp st i t m =
     wr_uint (resp_at st i + int (tb_offsetof Timestamp 0)) 4 (fst t) (wr_uint (resp_at st i + int (tb_offsetof Timestamp 1)) 2 (snd t) m)"

definition set_resp_type :: "nat \<Rightarrow> memory \<Rightarrow> memory" where
  "set_resp_type tag m = wr_uint (int (tb_offsetof Response 0)) 1 tag m"

definition copy_resp :: "ctype list \<Rightarrow> nat \<Rightarrow> nat \<Rightarrow> memory \<Rightarrow> int \<Rightarrow> memory \<Rightarrow> memory" where
  "copy_resp st i n src a m = wr (resp_at st i) (rd src a n) m"

definition upd_response :: "(memory \<Rightarrow> memory) \<Rightarrow> 'w badge \<Rightarrow> 'w badge" where
  "upd_response g s = upd_world (response_update g) s"

section \<open>Starting and finishing\<close>

definition finish_receive_notification :: "'w badge \<Rightarrow> 'w badge" where
  "finish_receive_notification s = upd_world (processing_receive_notification_update (\<lambda>_. False)) s"

definition finish_and_reschedule_receive_notification :: "'w badge \<Rightarrow> 'w badge" where
  "finish_and_reschedule_receive_notification s =
     put_event Process_Receive_Notification (upd_world (processing_receive_notification_update (\<lambda>_. False)) s)"

definition start_receive_notification :: "handler \<Rightarrow> 'w badge \<Rightarrow> ret_code \<times> 'w badge" where
  "start_receive_notification reschedule_handler s =
     (if processing_receive_notification (world s) then (NRF_ERROR_BUSY, put_event reschedule_handler s)
      else (NRF_SUCCESS, upd_world (processing_receive_notification_update (\<lambda>_. True)) s))"

definition finish_response :: "'w badge \<Rightarrow> 'w badge" where
  "finish_response s = upd_world (processing_response_update (\<lambda>_. False)) s"

definition start_response :: "handler \<Rightarrow> 'w badge \<Rightarrow> ret_code \<times> 'w badge" where
  "start_response reschedule_handler s =
     (if processing_response (world s) then (NRF_ERROR_BUSY, put_event reschedule_handler s)
      else (NRF_SUCCESS, upd_world (processing_response_update (\<lambda>_. True)) s))"

definition flush_notifications :: "'w rh_env \<Rightarrow> 'w badge \<Rightarrow> 'w badge" where
  "flush_notifications E s = upd_world (receive_notification_fifo_update (app_fifo_flush (fifo (sender_env E)))) s"

definition finish_error :: "'w rh_env \<Rightarrow> 'w badge \<Rightarrow> 'w badge" where
  "finish_error E s =
     (let s = sender_disconnect (sender_env E) (flush_notifications E s);
          s = finish_response (finish_receive_notification s)
      in upd_rest (invalidate_iterators E) (upd_world (streaming_started_update (\<lambda>_. False)) s))"

section \<open>The queue of the notifications\<close>

text \<open>A notification as it lies in memory: 24 bytes with its padding.\<close>

definition sizeof_notification :: nat where "sizeof_notification = 24"

definition notification_bytes :: "receive_notification \<Rightarrow> byte list" where
  "notification_bytes n = le_bytes 2 (notification_len n) @ replicate 6 0 @ le_bytes 8 (timepoint_ticks n)
     @ le_bytes 4 (timepoint_seconds n) @ le_bytes 2 (timepoint_milliseconds n) @ replicate 2 0"

definition notification_of :: "byte list \<Rightarrow> receive_notification" where
  "notification_of bs = \<lparr>notification_len = le_uint (take 2 bs), timepoint_ticks = le_uint (take 8 (drop 8 bs)),
     timepoint_seconds = le_uint (take 4 (drop 16 bs)), timepoint_milliseconds = le_uint (take 2 (drop 20 bs))\<rparr>"

text \<open>The function the sender calls in the interrupt of a received packet.\<close>

definition rh_receive_notification_handler :: "app_fifo_ops \<Rightarrow> receive_notification \<Rightarrow> 'w rh \<Rightarrow> 'w rh" where
  "rh_receive_notification_handler F n r =
     (if app_fifo_space F (receive_notification_fifo r) < sizeof_notification then r
      else app_sched_event_put Process_Receive_Notification
        (r\<lparr>receive_notification_fifo := snd (app_fifo_write F (notification_bytes n) (receive_notification_fifo r))\<rparr>))"

definition receive_notification_fifo_peek :: "app_fifo_ops \<Rightarrow> nat \<Rightarrow> app_fifo \<Rightarrow> ret_code + receive_notification" where
  "receive_notification_fifo_peek F index f =
     (if app_fifo_size F f < sizeof_notification * (index + 1) then Inl NRF_ERROR_NOT_FOUND
      else Inr (notification_of (map (\<lambda>i. app_fifo_peek F (i + index * sizeof_notification) f) [0..<sizeof_notification])))"

definition receive_notification_fifo_consume :: "app_fifo_ops \<Rightarrow> app_fifo \<Rightarrow> app_fifo" where
  "receive_notification_fifo_consume F f = snd (app_fifo_read F sizeof_notification f)"

text \<open>The bytes are set in the buffer of the FIFO itself.\<close>

definition fifo_set_bytes :: "nat \<Rightarrow> byte list \<Rightarrow> app_fifo \<Rightarrow> app_fifo" where
  "fifo_set_bytes start bs f =
     f\<lparr>fifo_buf := fold (\<lambda>i buf. buf[u32_add start i AND buf_size_mask f := bs ! i]) [0..<length bs] (fifo_buf f)\<rparr>"

definition receive_notification_fifo_set_receive_notification :: "app_fifo_ops \<Rightarrow> receive_notification \<Rightarrow> nat \<Rightarrow> app_fifo \<Rightarrow> app_fifo" where
  "receive_notification_fifo_set_receive_notification F n index f =
     (if app_fifo_size F f < sizeof_notification * (index + 1) then f
      else fifo_set_bytes (u32_add (fifo_read_pos f) (index * sizeof_notification)) (notification_bytes n) f)"

text \<open>
  The loop over the notifications of a packet; \<open>None\<close> is the end with an error.  There are at most ten notifications in the
  FIFO, so that a fuel of eleven rounds is not used up.
\<close>

fun consume_loop :: "app_fifo_ops \<Rightarrow> nat \<Rightarrow> nat \<Rightarrow> nat \<Rightarrow> app_fifo \<Rightarrow> (nat \<times> app_fifo) option" where
  "consume_loop F 0 consume_len consume_index f = None"
| "consume_loop F (Suc fuel) consume_len consume_index f =
     (if consume_len > 0 then
        (case receive_notification_fifo_peek F consume_index f of
           Inl _ \<Rightarrow> None
         | Inr n \<Rightarrow>
             if notification_len n \<le> consume_len
             then consume_loop F fuel (consume_len - notification_len n) (consume_index + 1) f
             else Some (consume_index, receive_notification_fifo_set_receive_notification F
                    (n\<lparr>notification_len := notification_len n - consume_len\<rparr>) consume_index f))
      else Some (consume_index, f))"

definition CONSUME_FUEL :: nat where "CONSUME_FUEL = 11"

section \<open>Sending a response\<close>

definition set_retries :: "nat \<Rightarrow> handler option \<Rightarrow> 'w badge \<Rightarrow> 'w badge" where
  "set_retries n h s = upd_world (\<lambda>r. r\<lparr>response_retries := n, response_success_handler := h\<rparr>) s"

definition send_response :: "'w rh_env \<Rightarrow> script \<Rightarrow> 'w badge \<Rightarrow> ('w badge \<times> script) option" where
  "send_response E script s =
     (let s = upd_world (response_fail_handler_update (\<lambda>_. Some Send_Response)) s in
      if response_retries (world s) > RESPONSE_MAX_TRANSMIT_RETRIES then Some (finish_error E s, script)
      else
        let s = upd_world (\<lambda>r. r\<lparr>response_retries := u32_add (response_retries r) 1\<rparr>) s in
        case tb_encode TB_BIG_ENDIAN Response_fields (response (world s)) 0
               (tb_ostream_from_buffer (drop 2 (rh_serialized_buf (world s))) (REQUEST_HANDLER_SERIALIZED_BUFFER_SIZE - 2)) of
          (encode_status, ostream) \<Rightarrow>
        let len = bytes_written ostream;
            s = upd_world (\<lambda>r. r\<lparr>rh_serialized_buf := take 2 (rh_serialized_buf r) @ obuf ostream\<rparr>) s
        in if \<not> encode_status then Some (finish_error E s, script)
           else
             let s = upd_world (\<lambda>r. r\<lparr>rh_serialized_buf := [of_nat (u16 len div 256), of_nat (u16 len mod 256)] @ drop 2 (rh_serialized_buf r)\<rparr>) s in
             case sender_transmit (sender_env E) script (take (u32_add len 2) (rh_serialized_buf (world s))) TRANSMIT_DATA_TIMEOUT_MS s of
               None \<Rightarrow> None
             | Some (ret, s, script) \<Rightarrow>
                 if ret = NRF_SUCCESS then
                   let s = (case response_success_handler (world s) of None \<Rightarrow> s | Some h \<Rightarrow> put_event h s)
                   in Some (finish_response s, script)
                 else if ret = NRF_ERROR_NO_MEM then
                   (case response_fail_handler (world s) of
                      Some h \<Rightarrow> Some (put_event h s, script)
                    | None \<Rightarrow> Some (finish_error E s, script))
                 else Some (finish_error E s, script))"

section \<open>Response handlers\<close>

definition status_response_handler :: "'w rh_env \<Rightarrow> script \<Rightarrow> 'w badge \<Rightarrow> ('w badge \<times> script) option" where
  "status_response_handler E script s =
     (case start_response Status_Response_Handler s of (ret, s) \<Rightarrow>
      if ret \<noteq> NRF_SUCCESS then Some (s, script)
      else
        let cfg = sampling_get_sampling_configuration E (rest (world s));
            set = (\<lambda>i src. set_resp StatusResponse i (if bit cfg (SAMPLING src) then 1 else 0));
            s = upd_response (set_resp_type 1) s;
            s = upd_response (set_resp StatusResponse 0 (if response_clock_status (world s) then 1 else 0)) s;
            s = upd_response (set 5 Battery \<circ> set 4 Accelerometer_Interrupt \<circ> set 3 Accelerometer \<circ> set 2 Scan \<circ> set 1 Microphone) s;
            s = upd_response (set_resp_timestamp StatusResponse 6 (response_timestamp (world s))) s
        in case on_rest (battery_get_voltage E) s of (voltage, s) \<Rightarrow>
           let s = upd_response (wr (resp_at StatusResponse 7) voltage) s;
               s = set_retries 0 None s
           in send_response E script (finish_and_reschedule_receive_notification s))"

text \<open>The five responses to a start request have the timestamp only.\<close>

fun start_response_struct :: "source \<Rightarrow> ctype list" where
  "start_response_struct Microphone = StartMicrophoneResponse"
| "start_response_struct Scan = StartScanResponse"
| "start_response_struct Accelerometer = StartAccelerometerResponse"
| "start_response_struct Accelerometer_Interrupt = StartAccelerometerInterruptResponse"
| "start_response_struct Battery = StartBatteryResponse"

fun start_response_tag :: "source \<Rightarrow> nat" where
  "start_response_tag Microphone = 2"
| "start_response_tag Scan = 3"
| "start_response_tag Accelerometer = 4"
| "start_response_tag Accelerometer_Interrupt = 5"
| "start_response_tag Battery = 6"

definition start_response_handler :: "source \<Rightarrow> 'w rh_env \<Rightarrow> script \<Rightarrow> 'w badge \<Rightarrow> ('w badge \<times> script) option" where
  "start_response_handler src E script s =
     (case start_response (Start_Response_Handler src) s of (ret, s) \<Rightarrow>
      if ret \<noteq> NRF_SUCCESS then Some (s, script)
      else
        let s = set_retries 0 None (upd_response (set_resp_type (start_response_tag src)) s);
            s = upd_response (set_resp_timestamp (start_response_struct src) 0 (response_timestamp (world s))) s
        in send_response E script (finish_and_reschedule_receive_notification s))"

definition start_microphone_response_handler :: "'w rh_env \<Rightarrow> script \<Rightarrow> 'w badge \<Rightarrow> ('w badge \<times> script) option" where
  "start_microphone_response_handler = start_response_handler Microphone"

definition start_scan_response_handler :: "'w rh_env \<Rightarrow> script \<Rightarrow> 'w badge \<Rightarrow> ('w badge \<times> script) option" where
  "start_scan_response_handler = start_response_handler Scan"

definition start_accelerometer_response_handler :: "'w rh_env \<Rightarrow> script \<Rightarrow> 'w badge \<Rightarrow> ('w badge \<times> script) option" where
  "start_accelerometer_response_handler = start_response_handler Accelerometer"

definition start_accelerometer_interrupt_response_handler :: "'w rh_env \<Rightarrow> script \<Rightarrow> 'w badge \<Rightarrow> ('w badge \<times> script) option" where
  "start_accelerometer_interrupt_response_handler = start_response_handler Accelerometer_Interrupt"

definition start_battery_response_handler :: "'w rh_env \<Rightarrow> script \<Rightarrow> 'w badge \<Rightarrow> ('w badge \<times> script) option" where
  "start_battery_response_handler = start_response_handler Battery"

text \<open>The data of a chunk in the response, and the response without data that ends a transfer.\<close>

fun data_response_tag :: "source \<Rightarrow> nat" where
  "data_response_tag Microphone = 7"
| "data_response_tag Scan = 8"
| "data_response_tag Accelerometer = 9"
| "data_response_tag Accelerometer_Interrupt = 10"
| "data_response_tag Battery = 11"

definition chunk_at :: "ctype list \<Rightarrow> nat \<Rightarrow> int" where
  "chunk_at st i = int (tb_offsetof st i)"

definition copy_data :: "ctype list \<Rightarrow> nat \<Rightarrow> ctype list \<Rightarrow> nat \<Rightarrow> nat \<Rightarrow> nat \<Rightarrow> memory \<Rightarrow> memory \<Rightarrow> memory" where
  "copy_data rst i cst k max_count elem c m =
     (let count = rd_uint c (chunk_at cst k) 1;
          count = (if count > max_count then max_count else count)
      in copy_resp rst (i + 1) (count * elem) c (chunk_at cst (k + 1)) (set_resp rst i count m))"

fun fill_data :: "source \<Rightarrow> memory \<Rightarrow> memory \<Rightarrow> memory" where
  "fill_data Microphone c m =
     copy_data MicrophoneDataResponse 3 MicrophoneChunk 2 114 (sizeof MicrophoneData) c
       (set_resp MicrophoneDataResponse 2 (rd_uint c (chunk_at MicrophoneChunk 1) 2)
         (copy_resp MicrophoneDataResponse 1 (sizeof Timestamp) c (chunk_at MicrophoneChunk 0) (set_resp MicrophoneDataResponse 0 0 m)))"
| "fill_data Scan c m =
     copy_data ScanDataResponse 2 ScanChunk 1 29 (sizeof ScanResultData) c
       (copy_resp ScanDataResponse 1 (sizeof Timestamp) c (chunk_at ScanChunk 0) (set_resp ScanDataResponse 0 0 m))"
| "fill_data Accelerometer c m =
     copy_data AccelerometerDataResponse 2 AccelerometerChunk 1 100 (sizeof AccelerometerData) c
       (copy_resp AccelerometerDataResponse 1 (sizeof Timestamp) c (chunk_at AccelerometerChunk 0) (set_resp AccelerometerDataResponse 0 0 m))"
| "fill_data Accelerometer_Interrupt c m =
     copy_resp AccelerometerInterruptDataResponse 1 (sizeof Timestamp) c (chunk_at AccelerometerInterruptChunk 0)
       (set_resp AccelerometerInterruptDataResponse 0 0 m)"
| "fill_data Battery c m =
     copy_resp BatteryDataResponse 2 (sizeof BatteryData) c (chunk_at BatteryChunk 1)
       (copy_resp BatteryDataResponse 1 (sizeof Timestamp) c (chunk_at BatteryChunk 0) (set_resp BatteryDataResponse 0 0 m))"

fun end_data :: "source \<Rightarrow> memory \<Rightarrow> memory" where
  "end_data Microphone m = set_resp MicrophoneDataResponse 3 0 (set_resp MicrophoneDataResponse 0 1 m)"
| "end_data Scan m = set_resp ScanDataResponse 2 0 (set_resp ScanDataResponse 0 1 m)"
| "end_data Accelerometer m = set_resp AccelerometerDataResponse 2 0 (set_resp AccelerometerDataResponse 0 1 m)"
| "end_data Accelerometer_Interrupt m = set_resp AccelerometerInterruptDataResponse 0 1 m"
| "end_data Battery m = set_resp BatteryDataResponse 0 1 m"

definition data_response_handler :: "source \<Rightarrow> 'w rh_env \<Rightarrow> script \<Rightarrow> 'w badge \<Rightarrow> ('w badge \<times> script) option" where
  "data_response_handler src E script s =
     (case start_response (Data_Response_Handler src) s of (ret, s) \<Rightarrow>
      if ret \<noteq> NRF_SUCCESS then Some (s, script)
      else
        let s = set_retries 0 (Some (Data_Response_Handler src)) (upd_response (set_resp_type (data_response_tag src)) s) in
        case storer_get_next_chunk E src (chunk (world s) src) (rest (world s)) of
          None \<Rightarrow> None
        | Some (ret, c, w) \<Rightarrow>
            let s = upd_rest (\<lambda>_. w) (upd_world (\<lambda>r. r\<lparr>chunk := (chunk r)(src := c)\<rparr>) s) in
            if ret = NRF_SUCCESS then send_response E script (upd_response (fill_data src c) s)
            else if ret = NRF_ERROR_NOT_FOUND \<or> ret = NRF_ERROR_INVALID_STATE then
              send_response E script (upd_world (response_success_handler_update (\<lambda>_. None)) (upd_response (end_data src) s))
            else Some (put_event (Data_Response_Handler src) s, script))"

definition microphone_data_response_handler :: "'w rh_env \<Rightarrow> script \<Rightarrow> 'w badge \<Rightarrow> ('w badge \<times> script) option" where
  "microphone_data_response_handler = data_response_handler Microphone"

definition scan_data_response_handler :: "'w rh_env \<Rightarrow> script \<Rightarrow> 'w badge \<Rightarrow> ('w badge \<times> script) option" where
  "scan_data_response_handler = data_response_handler Scan"

definition accelerometer_data_response_handler :: "'w rh_env \<Rightarrow> script \<Rightarrow> 'w badge \<Rightarrow> ('w badge \<times> script) option" where
  "accelerometer_data_response_handler = data_response_handler Accelerometer"

definition accelerometer_interrupt_data_response_handler :: "'w rh_env \<Rightarrow> script \<Rightarrow> 'w badge \<Rightarrow> ('w badge \<times> script) option" where
  "accelerometer_interrupt_data_response_handler = data_response_handler Accelerometer_Interrupt"

definition battery_data_response_handler :: "'w rh_env \<Rightarrow> script \<Rightarrow> 'w badge \<Rightarrow> ('w badge \<times> script) option" where
  "battery_data_response_handler = data_response_handler Battery"

text \<open>The streams: the elements of each FIFO that is being streamed, at most ten of each.\<close>

fun stream_struct :: "source \<Rightarrow> ctype list" where
  "stream_struct Battery = BatteryStream"
| "stream_struct Microphone = MicrophoneStream"
| "stream_struct Scan = ScanStream"
| "stream_struct Accelerometer = AccelerometerStream"
| "stream_struct Accelerometer_Interrupt = AccelerometerInterruptStream"

fun stream_count_index :: "source \<Rightarrow> nat" where
  "stream_count_index Battery = 1"
| "stream_count_index Microphone = 3"
| "stream_count_index Scan = 5"
| "stream_count_index Accelerometer = 7"
| "stream_count_index Accelerometer_Interrupt = 9"

definition PROTOCOL_STREAM_SIZE :: nat where "PROTOCOL_STREAM_SIZE = 10"

definition read_stream :: "source \<Rightarrow> 'w badge \<Rightarrow> nat \<times> 'w badge" where
  "read_stream src s =
     (let f = stream_fifo (world s) src;
          n = circular_fifo_get_size f div sizeof (stream_struct src);
          n = (if n > PROTOCOL_STREAM_SIZE then PROTOCOL_STREAM_SIZE else n);
          s = upd_response (set_resp StreamResponse (stream_count_index src) n) s
      in case circular_fifo_read f (n * sizeof (stream_struct src)) of (d, f) \<Rightarrow>
         (n, upd_response (wr (resp_at StreamResponse (stream_count_index src + 1)) d)
               (upd_world (\<lambda>r. r\<lparr>stream_fifo := (stream_fifo r)(src := f)\<rparr>) s)))"

definition is_streaming :: "nat \<Rightarrow> bool" where
  "is_streaming cfg \<longleftrightarrow> bit cfg (STREAMING Accelerometer) \<or> bit cfg (STREAMING Accelerometer_Interrupt) \<or> bit cfg (STREAMING Battery)
     \<or> bit cfg (STREAMING Microphone) \<or> bit cfg (STREAMING Scan)"

fun read_streams :: "nat \<Rightarrow> source list \<Rightarrow> 'w badge \<Rightarrow> bool \<times> 'w badge" where
  "read_streams cfg [] s = (False, s)"
| "read_streams cfg (src # srcs) s =
     (if bit cfg (STREAMING src)
      then (case read_stream src s of (n, s) \<Rightarrow> case read_streams cfg srcs s of (any, s) \<Rightarrow> (n > 0 \<or> any, s))
      else read_streams cfg srcs s)"

definition stop_streams :: "'w rh_env \<Rightarrow> 'w badge \<Rightarrow> 'w badge" where
  "stop_streams E s = fold (\<lambda>src. upd_rest (sampling_stop E src True)) [Accelerometer, Accelerometer_Interrupt, Battery, Microphone, Scan] s"

definition stream_response_handler :: "'w rh_env \<Rightarrow> script \<Rightarrow> 'w badge \<Rightarrow> ('w badge \<times> script) option" where
  "stream_response_handler E script s =
     (case start_response Stream_Response_Handler s of (ret, s) \<Rightarrow>
      if ret \<noteq> NRF_SUCCESS then Some (s, script)
      else
        let s = set_retries 0 None (upd_response (set_resp_type 12) s);
            s = upd_response (fold (\<lambda>src. set_resp StreamResponse (stream_count_index src) 0)
                  [Battery, Microphone, Scan, Accelerometer, Accelerometer_Interrupt]) s
        in case on_rest (clock_get_timestamp E) s of (t, s) \<Rightarrow>
           let s = upd_response (set_resp_timestamp StreamResponse 0 t) s;
               cfg = sampling_get_sampling_configuration E (rest (world s))
           in case read_streams cfg ((if accelerometer_present E then [Accelerometer, Accelerometer_Interrupt] else []) @ [Battery, Microphone, Scan]) s of
                (something, s) \<Rightarrow>
              case (if something then send_response E script s else Some (finish_response s, script)) of
                None \<Rightarrow> None
              | Some (s, script) \<Rightarrow>
                  let s = (if \<not> streaming_started (world s) then stop_streams E s else s)
                  in Some (if \<not> is_streaming cfg \<or> \<not> streaming_started (world s)
                           then upd_world (streaming_started_update (\<lambda>_. False)) s
                           else put_event Stream_Response_Handler s, script))"

definition test_response_handler :: "'w rh_env \<Rightarrow> script \<Rightarrow> 'w badge \<Rightarrow> ('w badge \<times> script) option" where
  "test_response_handler E script s =
     (case start_response Test_Response_Handler s of (ret, s) \<Rightarrow>
      if ret \<noteq> NRF_SUCCESS then Some (s, script)
      else
        case on_rest (selftest_test E) (set_retries 0 None (upd_response (set_resp_type 13) s)) of (status, s) \<Rightarrow>
        send_response E script (upd_response (set_resp TestResponse 0 (u8 status)) s))"

section \<open>Request handlers\<close>

definition sync_clock :: "'w rh_env \<Rightarrow> nat \<times> nat \<Rightarrow> 'w badge \<Rightarrow> 'w badge" where
  "sync_clock E t s = upd_rest (set_clock_synced_flag E)
     (upd_rest (clock_set_timestamp E (request_timepoint_ticks (world s)) (fst t) (snd t)) s)"

definition status_request_handler :: "'w rh_env \<Rightarrow> 'w badge \<Rightarrow> 'w badge" where
  "status_request_handler E s =
     (let s = sync_clock E (req_timestamp StatusRequest s) s in
      if req_uint StatusRequest 1 s \<noteq> 0 then
        let a = int (tb_offsetof Request 1 + tb_offsetof StatusRequest 2); m = request (world s);
            b = (rd_uint m (a + int (tb_offsetof BadgeAssignement 0)) 2, rd_uint m (a + int (tb_offsetof BadgeAssignement 1)) 1)
        in case on_rest (set_badge_assignement E b) s of (ret, s) \<Rightarrow>
           if ret = NRF_ERROR_INTERNAL then put_event Status_Request_Handler s
           else if ret \<noteq> NRF_SUCCESS then finish_error E s
           else put_event Status_Response_Handler s
      else put_event Status_Response_Handler s)"

text \<open>
  The calls that start a source, with the members of the request; the structures of the requests for sampling and for
  streaming have the same members.  The local variables of the code have 16 bits, also for
  \<open>ignore_duration_ms\<close> and for the period of the battery, which have 32 bits in the request.
\<close>

fun request_struct :: "source \<Rightarrow> bool \<Rightarrow> ctype list" where
  "request_struct Microphone streaming = (if streaming then StartMicrophoneStreamRequest else StartMicrophoneRequest)"
| "request_struct Scan streaming = (if streaming then StartScanStreamRequest else StartScanRequest)"
| "request_struct Accelerometer streaming = (if streaming then StartAccelerometerStreamRequest else StartAccelerometerRequest)"
| "request_struct Accelerometer_Interrupt streaming = (if streaming then StartAccelerometerInterruptStreamRequest else StartAccelerometerInterruptRequest)"
| "request_struct Battery streaming = (if streaming then StartBatteryStreamRequest else StartBatteryRequest)"

definition timeout_millis :: "nat \<Rightarrow> nat" where
  "timeout_millis timeout = u32_mul (u32_mul timeout 60) 1000"

fun start_source :: "'w rh_env \<Rightarrow> source \<Rightarrow> bool \<Rightarrow> 'w badge \<Rightarrow> ret_code \<times> 'w badge" where
  "start_source E Microphone streaming s =
     (let arg = (\<lambda>i. req_uint (request_struct Microphone streaming) i s)
      in on_rest (sampling_start_microphone E (timeout_millis (arg 1)) (arg 2) streaming) s)"
| "start_source E Scan streaming s =
     (let arg = (\<lambda>i. req_uint (request_struct Scan streaming) i s);
          window = arg 2; interval = arg 3; duration = arg 4; period = arg 5; aggregation_type = arg 6;
          period = (if duration > period then duration else period);
          badge_assignement = get_badge_assignement E (rest (world s))
      in on_rest (sampling_start_scan E (timeout_millis (arg 1)) period interval window duration (snd badge_assignement) aggregation_type streaming) s)"
| "start_source E Accelerometer streaming s =
     (let arg = (\<lambda>i. req_uint (request_struct Accelerometer streaming) i s)
      in on_rest (sampling_start_accelerometer E (timeout_millis (arg 1)) (arg 2) (arg 3) (arg 4) (arg 5) streaming) s)"
| "start_source E Accelerometer_Interrupt streaming s =
     (let arg = (\<lambda>i. req_uint (request_struct Accelerometer_Interrupt streaming) i s)
      in on_rest (sampling_start_accelerometer_interrupt E (timeout_millis (arg 1)) (arg 2) (arg 3) (u16 (arg 4)) streaming) s)"
| "start_source E Battery streaming s =
     (let arg = (\<lambda>i. req_uint (request_struct Battery streaming) i s)
      in on_rest (sampling_start_battery E (timeout_millis (arg 1)) (u16 (arg 2)) streaming) s)"

definition start_request_handler :: "source \<Rightarrow> 'w rh_env \<Rightarrow> 'w badge \<Rightarrow> 'w badge" where
  "start_request_handler src E s =
     (case start_source E src False (sync_clock E (req_timestamp (request_struct src False) s) s) of (ret, s) \<Rightarrow>
      put_event (if ret = NRF_SUCCESS then Start_Response_Handler src else Start_Request_Handler src) s)"

definition stop_request_handler :: "source \<Rightarrow> 'w rh_env \<Rightarrow> 'w badge \<Rightarrow> 'w badge" where
  "stop_request_handler src E s = finish_and_reschedule_receive_notification (upd_rest (sampling_stop E src False) s)"

fun data_request_struct :: "source \<Rightarrow> ctype list" where
  "data_request_struct Microphone = MicrophoneDataRequest"
| "data_request_struct Scan = ScanDataRequest"
| "data_request_struct Accelerometer = AccelerometerDataRequest"
| "data_request_struct Accelerometer_Interrupt = AccelerometerInterruptDataRequest"
| "data_request_struct Battery = BatteryDataRequest"

definition data_request_handler :: "source \<Rightarrow> 'w rh_env \<Rightarrow> 'w badge \<Rightarrow> 'w badge option" where
  "data_request_handler src E s =
     (case storer_find_chunk_from_timestamp E src (req_timestamp (data_request_struct src) s) (chunk (world s) src) (rest (world s)) of
        None \<Rightarrow> None
      | Some (ret, c, w) \<Rightarrow>
          let s = upd_rest (\<lambda>_. w) (upd_world (\<lambda>r. r\<lparr>chunk := (chunk r)(src := c)\<rparr>) s) in
          Some (if ret = NRF_SUCCESS \<or> ret = NRF_ERROR_INVALID_STATE
                then finish_and_reschedule_receive_notification (put_event (Data_Response_Handler src) s)
                else put_event (Data_Request_Handler src) s))"

definition start_stream_request_handler :: "source \<Rightarrow> 'w rh_env \<Rightarrow> 'w badge \<Rightarrow> 'w badge" where
  "start_stream_request_handler src E s =
     (case start_source E src True (sync_clock E (req_timestamp (request_struct src True) s) s) of (ret, s) \<Rightarrow>
      if ret = NRF_SUCCESS then
        let s = (if \<not> streaming_started (world s)
                 then put_event Stream_Response_Handler (upd_world (streaming_started_update (\<lambda>_. True)) s) else s)
        in finish_and_reschedule_receive_notification s
      else put_event (Start_Stream_Request_Handler src) s)"

definition stop_stream_request_handler :: "source \<Rightarrow> 'w rh_env \<Rightarrow> 'w badge \<Rightarrow> 'w badge" where
  "stop_stream_request_handler src E s = finish_and_reschedule_receive_notification (upd_rest (sampling_stop E src True) s)"

definition identify_request_handler :: "'w rh_env \<Rightarrow> 'w badge \<Rightarrow> 'w badge" where
  "identify_request_handler E s =
     finish_and_reschedule_receive_notification (upd_rest (identify_led E (req_uint IdentifyRequest 0 s)) s)"

definition test_request_handler :: "'w badge \<Rightarrow> 'w badge" where
  "test_request_handler s = finish_and_reschedule_receive_notification (put_event Test_Response_Handler s)"

text \<open>The reset of the chip does not return.\<close>

definition restart_request_handler :: "'w badge \<Rightarrow> 'w badge option" where
  "restart_request_handler s = None"

text \<open>The handlers of the five sources, by their names.\<close>

definition start_microphone_request_handler :: "'w rh_env \<Rightarrow> 'w badge \<Rightarrow> 'w badge" where
  "start_microphone_request_handler = start_request_handler Microphone"

definition stop_microphone_request_handler :: "'w rh_env \<Rightarrow> 'w badge \<Rightarrow> 'w badge" where
  "stop_microphone_request_handler = stop_request_handler Microphone"

definition microphone_data_request_handler :: "'w rh_env \<Rightarrow> 'w badge \<Rightarrow> 'w badge option" where
  "microphone_data_request_handler = data_request_handler Microphone"

definition start_microphone_stream_request_handler :: "'w rh_env \<Rightarrow> 'w badge \<Rightarrow> 'w badge" where
  "start_microphone_stream_request_handler = start_stream_request_handler Microphone"

definition stop_microphone_stream_request_handler :: "'w rh_env \<Rightarrow> 'w badge \<Rightarrow> 'w badge" where
  "stop_microphone_stream_request_handler = stop_stream_request_handler Microphone"

definition start_scan_request_handler :: "'w rh_env \<Rightarrow> 'w badge \<Rightarrow> 'w badge" where
  "start_scan_request_handler = start_request_handler Scan"

definition stop_scan_request_handler :: "'w rh_env \<Rightarrow> 'w badge \<Rightarrow> 'w badge" where
  "stop_scan_request_handler = stop_request_handler Scan"

definition scan_data_request_handler :: "'w rh_env \<Rightarrow> 'w badge \<Rightarrow> 'w badge option" where
  "scan_data_request_handler = data_request_handler Scan"

definition start_scan_stream_request_handler :: "'w rh_env \<Rightarrow> 'w badge \<Rightarrow> 'w badge" where
  "start_scan_stream_request_handler = start_stream_request_handler Scan"

definition stop_scan_stream_request_handler :: "'w rh_env \<Rightarrow> 'w badge \<Rightarrow> 'w badge" where
  "stop_scan_stream_request_handler = stop_stream_request_handler Scan"

definition start_accelerometer_request_handler :: "'w rh_env \<Rightarrow> 'w badge \<Rightarrow> 'w badge" where
  "start_accelerometer_request_handler = start_request_handler Accelerometer"

definition stop_accelerometer_request_handler :: "'w rh_env \<Rightarrow> 'w badge \<Rightarrow> 'w badge" where
  "stop_accelerometer_request_handler = stop_request_handler Accelerometer"

definition accelerometer_data_request_handler :: "'w rh_env \<Rightarrow> 'w badge \<Rightarrow> 'w badge option" where
  "accelerometer_data_request_handler = data_request_handler Accelerometer"

definition start_accelerometer_stream_request_handler :: "'w rh_env \<Rightarrow> 'w badge \<Rightarrow> 'w badge" where
  "start_accelerometer_stream_request_handler = start_stream_request_handler Accelerometer"

definition stop_accelerometer_stream_request_handler :: "'w rh_env \<Rightarrow> 'w badge \<Rightarrow> 'w badge" where
  "stop_accelerometer_stream_request_handler = stop_stream_request_handler Accelerometer"

definition start_accelerometer_interrupt_request_handler :: "'w rh_env \<Rightarrow> 'w badge \<Rightarrow> 'w badge" where
  "start_accelerometer_interrupt_request_handler = start_request_handler Accelerometer_Interrupt"

definition stop_accelerometer_interrupt_request_handler :: "'w rh_env \<Rightarrow> 'w badge \<Rightarrow> 'w badge" where
  "stop_accelerometer_interrupt_request_handler = stop_request_handler Accelerometer_Interrupt"

definition accelerometer_interrupt_data_request_handler :: "'w rh_env \<Rightarrow> 'w badge \<Rightarrow> 'w badge option" where
  "accelerometer_interrupt_data_request_handler = data_request_handler Accelerometer_Interrupt"

definition start_accelerometer_interrupt_stream_request_handler :: "'w rh_env \<Rightarrow> 'w badge \<Rightarrow> 'w badge" where
  "start_accelerometer_interrupt_stream_request_handler = start_stream_request_handler Accelerometer_Interrupt"

definition stop_accelerometer_interrupt_stream_request_handler :: "'w rh_env \<Rightarrow> 'w badge \<Rightarrow> 'w badge" where
  "stop_accelerometer_interrupt_stream_request_handler = stop_stream_request_handler Accelerometer_Interrupt"

definition start_battery_request_handler :: "'w rh_env \<Rightarrow> 'w badge \<Rightarrow> 'w badge" where
  "start_battery_request_handler = start_request_handler Battery"

definition stop_battery_request_handler :: "'w rh_env \<Rightarrow> 'w badge \<Rightarrow> 'w badge" where
  "stop_battery_request_handler = stop_request_handler Battery"

definition battery_data_request_handler :: "'w rh_env \<Rightarrow> 'w badge \<Rightarrow> 'w badge option" where
  "battery_data_request_handler = data_request_handler Battery"

definition start_battery_stream_request_handler :: "'w rh_env \<Rightarrow> 'w badge \<Rightarrow> 'w badge" where
  "start_battery_stream_request_handler = start_stream_request_handler Battery"

definition stop_battery_stream_request_handler :: "'w rh_env \<Rightarrow> 'w badge \<Rightarrow> 'w badge" where
  "stop_battery_stream_request_handler = stop_stream_request_handler Battery"

section \<open>Dispatch\<close>

text \<open>The table of the handlers, in its order.\<close>

definition request_handlers :: "(nat \<times> handler) list" where
  "request_handlers = [(1, Status_Request_Handler), (2, Start_Request_Handler Microphone), (3, Stop_Request_Handler Microphone),
     (4, Start_Request_Handler Scan), (5, Stop_Request_Handler Scan), (6, Start_Request_Handler Accelerometer), (7, Stop_Request_Handler Accelerometer),
     (8, Start_Request_Handler Accelerometer_Interrupt), (9, Stop_Request_Handler Accelerometer_Interrupt),
     (10, Start_Request_Handler Battery), (11, Stop_Request_Handler Battery), (12, Data_Request_Handler Microphone), (13, Data_Request_Handler Scan),
     (14, Data_Request_Handler Accelerometer), (15, Data_Request_Handler Accelerometer_Interrupt), (16, Data_Request_Handler Battery),
     (17, Start_Stream_Request_Handler Microphone), (18, Stop_Stream_Request_Handler Microphone), (19, Start_Stream_Request_Handler Scan),
     (20, Stop_Stream_Request_Handler Scan), (21, Start_Stream_Request_Handler Accelerometer), (22, Stop_Stream_Request_Handler Accelerometer),
     (23, Start_Stream_Request_Handler Accelerometer_Interrupt), (24, Stop_Stream_Request_Handler Accelerometer_Interrupt),
     (25, Start_Stream_Request_Handler Battery), (26, Stop_Stream_Request_Handler Battery), (27, Identify_Request_Handler),
     (28, Test_Request_Handler), (29, Restart_Request_Handler)]"

fun call_request_handler :: "'w rh_env \<Rightarrow> handler \<Rightarrow> 'w badge \<Rightarrow> 'w badge option" where
  "call_request_handler E Status_Request_Handler s = Some (status_request_handler E s)"
| "call_request_handler E (Start_Request_Handler src) s = Some (start_request_handler src E s)"
| "call_request_handler E (Stop_Request_Handler src) s = Some (stop_request_handler src E s)"
| "call_request_handler E (Data_Request_Handler src) s = data_request_handler src E s"
| "call_request_handler E (Start_Stream_Request_Handler src) s = Some (start_stream_request_handler src E s)"
| "call_request_handler E (Stop_Stream_Request_Handler src) s = Some (stop_stream_request_handler src E s)"
| "call_request_handler E Identify_Request_Handler s = Some (identify_request_handler E s)"
| "call_request_handler E Test_Request_Handler s = Some (test_request_handler s)"
| "call_request_handler E Restart_Request_Handler s = restart_request_handler s"
| "call_request_handler E _ s = Some s"

definition flush_and_error :: "'w rh_env \<Rightarrow> 'w badge \<Rightarrow> 'w badge" where
  "flush_and_error E s = finish_error E (flush_notifications E s)"

text \<open>From the received bytes of a request on: consuming its notifications, decoding and dispatch.\<close>

definition dispatch_request :: "'w rh_env \<Rightarrow> nat \<Rightarrow> nat \<Rightarrow> 'w badge \<Rightarrow> 'w badge option" where
  "dispatch_request E len ticks s =
     (let F = fifo (sender_env E) in
      case consume_loop F CONSUME_FUEL (u16 (len + 2)) 0 (receive_notification_fifo (world s)) of
        None \<Rightarrow> Some (flush_and_error E s)
      | Some (consume_index, f) \<Rightarrow>
          let f = (receive_notification_fifo_consume F ^^ consume_index) f;
              s = upd_world (\<lambda>r. r\<lparr>receive_notification_fifo := f, request := memset0 0 (sizeof Request) (request r)\<rparr>) s
          in case tb_decode TB_BIG_ENDIAN Request_fields 0 (tb_istream_from_buffer (rh_serialized_buf (world s)) len, request (world s)) of
               (decode_status, _, m) \<Rightarrow>
             let s = upd_world (request_update (\<lambda>_. m)) s in
             if \<not> decode_status then Some (finish_error E s)
             else
               let s = upd_world (request_timepoint_ticks_update (\<lambda>_. ticks)) s in
               case map_of request_handlers (rd_uint (request (world s)) 0 1) of
                 Some h \<Rightarrow> call_request_handler E h (upd_rest (sampling_reset_timeouts E) s)
               | None \<Rightarrow> Some (finish_error E s))"

definition process_receive_notification :: "'w rh_env \<Rightarrow> script \<Rightarrow> 'w badge \<Rightarrow> ('w badge \<times> script) option" where
  "process_receive_notification E script s =
     (case start_receive_notification Process_Receive_Notification s of (ret, s) \<Rightarrow>
      if ret \<noteq> NRF_SUCCESS then Some (s, script)
      else
        case receive_notification_fifo_peek (fifo (sender_env E)) 0 (receive_notification_fifo (world s)) of
          Inl _ \<Rightarrow> Some (finish_receive_notification (flush_notifications E s), script)
        | Inr n \<Rightarrow>
            let s = upd_world (\<lambda>r. r\<lparr>response_timestamp := (timepoint_seconds n, timepoint_milliseconds n),
                      response_clock_status := clock_is_synced E (rest r)\<rparr>) s
            in case sender_await_data (sender_env E) script 2 AWAIT_DATA_TIMEOUT_MS s of
                 None \<Rightarrow> None
               | Some (Inl _, s, script) \<Rightarrow> Some (flush_and_error E s, script)
               | Some (Inr length_header, s, script) \<Rightarrow>
                   let len = (push_bit 8 (unat (length_header ! 0))) OR unat (length_header ! 1) in
                   (case sender_await_data (sender_env E) script len AWAIT_DATA_TIMEOUT_MS s of
                      None \<Rightarrow> None
                    | Some (Inl _, s, script) \<Rightarrow> Some (flush_and_error E s, script)
                    | Some (Inr data, s, script) \<Rightarrow>
                        let s = upd_world (rh_serialized_buf_update (\<lambda>b. overwrite b 0 data)) s
                        in map_option (\<lambda>s. (s, script)) (dispatch_request E len (timepoint_ticks n) s)))"

section \<open>The scheduler\<close>

fun run_handler :: "'w rh_env \<Rightarrow> handler \<Rightarrow> script \<Rightarrow> 'w badge \<Rightarrow> ('w badge \<times> script) option" where
  "run_handler E Process_Receive_Notification script s = process_receive_notification E script s"
| "run_handler E Send_Response script s = send_response E script s"
| "run_handler E Status_Response_Handler script s = status_response_handler E script s"
| "run_handler E (Start_Response_Handler src) script s = start_response_handler src E script s"
| "run_handler E (Data_Response_Handler src) script s = data_response_handler src E script s"
| "run_handler E Stream_Response_Handler script s = stream_response_handler E script s"
| "run_handler E Test_Response_Handler script s = test_response_handler E script s"
| "run_handler E h script s = map_option (\<lambda>s. (s, script)) (call_request_handler E h s)"

text \<open>The main loop takes the first function out of the queue and calls it.\<close>

definition execute_next :: "'w rh_env \<Rightarrow> script \<Rightarrow> 'w badge \<Rightarrow> ('w badge \<times> script) option" where
  "execute_next E script s =
     (case sched_queue (world s) of [] \<Rightarrow> Some (s, script)
      | h # hs \<Rightarrow> run_handler E h script (upd_world (sched_queue_update (\<lambda>_. hs)) s))"

definition request_handler_init :: "'w rh_env \<Rightarrow> 'w badge \<Rightarrow> ret_code \<times> 'w badge" where
  "request_handler_init E s =
     (case sender_init (sender_env E) s of (ret, s) \<Rightarrow>
      if ret \<noteq> NRF_SUCCESS then (ret, s)
      else
        let s = sender_set_receive_notification_handler (Some (rh_receive_notification_handler (fifo (sender_env E)))) s in
        case app_fifo_init (fifo (sender_env E)) RECEIVE_NOTIFICATION_FIFO_SIZE (receive_notification_fifo (world s)) of (ret, f) \<Rightarrow>
        (ret, upd_world (receive_notification_fifo_update (\<lambda>_. f)) s))"

end
