(* ===== verification/Request_Correct.thy ===== *)
theory Request_Correct
  imports Request_Handler "HOL-Library.Sublist"
begin

text \<open>
  What the functions of the request handler and the interrupts leave alone, a simulated badge, and what an error of the storer does
  to the responses.
\<close>

section \<open>What leaves the responses alone\<close>

locale request_world = app_fifo_lib "fifo (io E)" for E :: "'w rh_env"

text \<open>Steps that neither start nor finish a response and queue no byte.\<close>

definition calm :: "'w badge \<Rightarrow> 'w badge \<Rightarrow> bool" where
  "calm s s' \<longleftrightarrow> processing_response (world s') = processing_response (world s)
     \<and> (Send_Response \<in> set (sched_queue (world s')) \<longrightarrow> Send_Response \<in> set (sched_queue (world s)))
     \<and> receive_notification_handler s' = receive_notification_handler s
     \<and> fifo_ok (tx_fifo s') \<and> suffix (fifo_list (tx_fifo s')) (fifo_list (tx_fifo s))"

definition rh_installed :: "'w rh_env \<Rightarrow> 'w badge \<Rightarrow> bool" where
  "rh_installed E s \<longleftrightarrow> fifo_ok (tx_fifo s)
     \<and> receive_notification_handler s = Some (rh_receive_notification_handler (fifo (io E)))"

text \<open>Either calm, or the connection has been given up.\<close>

definition calm_or_off :: "'w badge \<Rightarrow> 'w badge \<Rightarrow> bool" where
  "calm_or_off s s' \<longleftrightarrow> calm s s' \<or> \<not> connected s'"

text \<open>Steps of the main loop in which the connection is kept, and interrupts of any kind between them.\<close>

inductive badge_steps :: "'w rh_env \<Rightarrow> 'w badge \<Rightarrow> 'w badge \<Rightarrow> bool" for E :: "'w rh_env" and s where
  steps_refl: "badge_steps E s s"
| steps_execute: "badge_steps E s t \<Longrightarrow> execute_next E script t = Some (u, script') \<Longrightarrow> connected u \<Longrightarrow> badge_steps E s u"
| steps_interrupt: "badge_steps E s t \<Longrightarrow> badge_steps E s (handle_event (sender_env E) ev t)"

lemma calm_refl: "fifo_ok (tx_fifo s) \<Longrightarrow> calm s s"
  by (simp add: calm_def)

lemma calm_trans: "calm s t \<Longrightarrow> calm t u \<Longrightarrow> calm s u"
  unfolding calm_def using suffix_order.trans by auto

lemma calm_installed: "calm s s' \<Longrightarrow> rh_installed E s \<Longrightarrow> rh_installed E s'"
  by (simp add: calm_def rh_installed_def)

lemma calm_upd:
  assumes "fifo_ok (tx_fifo s)" and "processing_response (g (world s)) = processing_response (world s)"
    and "sched_queue (g (world s)) = sched_queue (world s) \<or> (\<exists>h. h \<noteq> Send_Response \<and> sched_queue (g (world s)) = sched_queue (world s) @ [h])"
  shows "calm s (upd_world g s)"
  using assms by (auto simp: calm_def upd_world_def)

lemma calm_put: "fifo_ok (tx_fifo s) \<Longrightarrow> h \<noteq> Send_Response \<Longrightarrow> calm s (put_event h s)"
  unfolding put_event_def by (rule calm_upd) (auto simp: app_sched_event_put_def)

lemma calm_rest: "fifo_ok (tx_fifo s) \<Longrightarrow> calm s (upd_rest g s)"
  unfolding upd_rest_def by (rule calm_upd) auto

lemma calm_on_rest: "fifo_ok (tx_fifo s) \<Longrightarrow> on_rest g s = (x, s') \<Longrightarrow> calm s s'"
  by (auto simp: on_rest_def calm_rest split: prod.splits)

lemma calm_ok: "calm s s' \<Longrightarrow> fifo_ok (tx_fifo s')"
  by (simp add: calm_def)

lemma env_fields [simp]: "fifo (sender_env E) = fifo (io E)"
  by (simp add: sender_env_def lift_io_def)

context request_world
begin

lemma calm_timer:
  assumes ok: "fifo_ok (tx_fifo s)"
  shows "calm s (transmit_queued_bytes_timer_callback (sender_env E) s)"
proof -
  have sz: "app_fifo_size (fifo (io E)) (tx_fifo s) = length (fifo_list (tx_fifo s))" by (rule size_law[OF ok])
  let ?n = "if length (fifo_list (tx_fifo s)) > MAX_BYTES_PER_TRANSMIT then MAX_BYTES_PER_TRANSMIT else length (fifo_list (tx_fifo s))"
  have "fifo_ok (fifo_skip ?n (tx_fifo s)) \<and> suffix (fifo_list (fifo_skip ?n (tx_fifo s))) (fifo_list (tx_fifo s))"
    using fifo_skip[OF ok, of ?n] by (simp add: suffix_drop)
  then show ?thesis using ok
    by (auto simp: transmit_queued_bytes_timer_callback_def transmit_queued_bytes_def sz Let_def calm_def upd_world_def sender_env_def lift_io_def lift_pair_def
        split: prod.split)
qed

lemma calm_receive:
  assumes "rh_installed E s"
  shows "calm s (on_receive_callback (sender_env E) d s)"
  using assms
  by (auto simp: on_receive_callback_def rh_installed_def calm_def upd_world_def sender_env_def lift_io_def lift_pair_def Let_def
      rh_receive_notification_handler_def app_sched_event_put_def split: prod.split)

lemma calm_reset:
  assumes "fifo_ok (tx_fifo s)"
  shows "calm s (sender_reset (sender_env E) s)"
  using flush_law[OF assms] assms by (simp add: sender_reset_def calm_def)

lemma calm_event:
  assumes "rh_installed E s"
  shows "calm s (handle_event (sender_env E) ev s)"
proof -
  have ok: "fifo_ok (tx_fifo s)" using assms by (simp add: rh_installed_def)
  note r = calm_reset[OF ok]
  have "calm s (upd_world (rest_update g) (sender_reset (sender_env E) s))" for g
    by (rule calm_trans[OF r], rule calm_upd) (use calm_ok[OF r] in auto)
  then show ?thesis using calm_timer[OF ok] calm_receive[OF assms]
    by (cases ev) (auto simp: on_connect_callback_def on_disconnect_callback_def sender_disconnect_def sender_env_def lift_io_def calm_def)
qed

lemma calm_events:
  assumes "rh_installed E s"
  shows "calm s (handle_events (sender_env E) evs s)"
  using assms unfolding handle_events_def
proof (induction evs arbitrary: s)
  case Nil
  then show ?case by (simp add: calm_refl rh_installed_def)
next
  case (Cons ev evs)
  note e = calm_event[OF Cons.prems, of ev]
  from calm_trans[OF e Cons.IH[OF calm_installed[OF e Cons.prems]]] show ?case by simp
qed

lemma calm_millis:
  assumes "fifo_ok (tx_fifo s)" and "continuous_millis (sender_env E) (world s) = (t, r)"
  shows "calm s (s\<lparr>world := r\<rparr>)"
  using assms by (auto simp: sender_env_def lift_io_def lift_pair_def calm_def split: prod.splits)

lemma calm_await_loop:
  assumes "await_loop (sender_env E) script len deadline s = Some (s', script')" and "rh_installed E s"
  shows "calm s s'"
  using assms
proof (induction script arbitrary: s)
  case (Cons evs script)
  obtain t r where m: "continuous_millis (sender_env E) (world s) = (t, r)" by fastforce
  have ok: "fifo_ok (tx_fifo s)" using Cons.prems(2) by (simp add: rh_installed_def)
  note c = calm_millis[OF ok m]
  note i = calm_installed[OF c Cons.prems(2)]
  note e = calm_trans[OF c calm_events[OF i, of evs]]
  have "await_loop (sender_env E) script len deadline (handle_events (sender_env E) evs (s\<lparr>world := r\<rparr>)) = Some (s', script') \<or> s' = s\<lparr>world := r\<rparr> \<or> s' = s"
    using Cons.prems(1) by (auto simp: m split: if_splits)
  then show ?case using Cons.IH[OF _ calm_installed[OF e Cons.prems(2)]] calm_trans[OF e] c calm_refl[OF ok] by auto
qed simp

lemma calm_await:
  assumes "sender_await_data (sender_env E) script len ms s = Some (d, s', script')" and "rh_installed E s"
  shows "calm s s'"
proof (cases "connected s")
  case False
  then show ?thesis using assms by (auto simp: sender_await_data_def rh_installed_def calm_refl)
next
  case True
  obtain t r where m: "continuous_millis (sender_env E) (world s) = (t, r)" by fastforce
  have ok: "fifo_ok (tx_fifo s)" using assms(2) by (simp add: rh_installed_def)
  note c = calm_millis[OF ok m]
  from assms(1) True m obtain s1 sc where l: "await_loop (sender_env E) script len (u64_add t ms) (s\<lparr>world := r\<rparr>) = Some (s1, sc)"
    and s': "s' = s1 \<or> s' = snd (sender_get_received_data (sender_env E) len s1)"
    by (auto simp: sender_await_data_def split: option.splits prod.splits if_splits)
  note l' = calm_trans[OF c calm_await_loop[OF l calm_installed[OF c assms(2)]]]
  moreover have "calm s1 (snd (sender_get_received_data (sender_env E) len s1))"
    using calm_ok[OF l'] by (simp add: sender_get_received_data_def Let_def calm_def split: prod.split)
  ultimately show ?thesis using s' calm_trans by blast
qed

lemma finish_error_off [simp]: "\<not> connected (finish_error E s)" "\<not> connected (flush_and_error E s)"
  by (simp_all add: finish_error_def flush_and_error_def Let_def upd_rest_def upd_world_def finish_response_def finish_receive_notification_def
      sender_disconnect_def sender_reset_def)

text \<open>Going on after a calm step.\<close>

lemma calm_then_upd:
  assumes "calm s t" and "processing_response (g (world t)) = processing_response (world t)"
    and "sched_queue (g (world t)) = sched_queue (world t) \<or> (\<exists>h. h \<noteq> Send_Response \<and> sched_queue (g (world t)) = sched_queue (world t) @ [h])"
  shows "calm s (upd_world g t)"
  by (rule calm_trans[OF assms(1) calm_upd]) (use assms calm_ok in auto)

lemma calm_then_put: "calm s t \<Longrightarrow> h \<noteq> Send_Response \<Longrightarrow> calm s (put_event h t)"
  unfolding put_event_def by (rule calm_then_upd) (auto simp: app_sched_event_put_def)

lemma calm_then_rest: "calm s t \<Longrightarrow> calm s (upd_rest g t)"
  unfolding upd_rest_def by (rule calm_then_upd) auto

lemma calm_then_on_rest: "calm s t \<Longrightarrow> on_rest g t = (x, u) \<Longrightarrow> calm s u"
  by (auto simp: on_rest_def calm_then_rest split: prod.splits)

lemma calm_then_finish: "calm s t \<Longrightarrow> calm s (finish_and_reschedule_receive_notification t)"
  unfolding finish_and_reschedule_receive_notification_def by (intro calm_then_put calm_then_upd) auto

lemma calm_then_sync: "calm s t \<Longrightarrow> calm s (sync_clock E tm t)"
  unfolding sync_clock_def by (intro calm_then_rest)

lemma calm_then_start_source: "calm s t \<Longrightarrow> start_source E src b t = (r, u) \<Longrightarrow> calm s u"
  by (cases src) (auto simp: Let_def dest: calm_then_on_rest)

lemmas calm_then = calm_then_put calm_then_rest calm_then_finish calm_then_sync

lemma calm_request_handler:
  assumes "call_request_handler E h s = Some s'" and ok: "fifo_ok (tx_fifo s)"
  shows "calm_or_off s s'"
proof -
  note c0 = calm_refl[OF ok]
  have chunk: "calm s (upd_world (\<lambda>r. r\<lparr>chunk := c r\<rparr>) s)" for c
    by (intro calm_then_upd c0) auto
  have start: "\<exists>r t. start_source E src b (sync_clock E tm s) = (r, t) \<and> calm s t" for src b tm
    by (metis c0 calm_then_start_source calm_then_sync surj_pair)
  have stream: "calm s (upd_world (streaming_started_update g) t)" if "calm s t" for g t
    by (intro calm_then_upd that) auto
  show ?thesis
  proof (cases h)
    case Status_Request_Handler
    let ?t = "sync_clock E (req_timestamp StatusRequest s) s"
    have on: "calm s u" if "on_rest g ?t = (r, u)" for g r u by (rule calm_then_on_rest[OF calm_then_sync[OF c0] that])
    have "calm_or_off s (status_request_handler E s)"
      unfolding status_request_handler_def Let_def calm_or_off_def
      by (auto split: prod.split intro!: calm_then_put calm_then_sync c0 dest: on)
    then show ?thesis using assms(1) Status_Request_Handler by simp
  next
    case (Start_Request_Handler src)
    obtain r t where "start_source E src False (sync_clock E (req_timestamp (request_struct src False) s) s) = (r, t)" "calm s t" using start by blast
    then show ?thesis using assms(1) Start_Request_Handler by (auto simp: start_request_handler_def calm_or_off_def split: if_splits intro!: calm_then)
  next
    case (Start_Stream_Request_Handler src)
    obtain r t where "start_source E src True (sync_clock E (req_timestamp (request_struct src True) s) s) = (r, t)" "calm s t" using start by blast
    then show ?thesis using assms(1) Start_Stream_Request_Handler
      by (auto simp: start_stream_request_handler_def calm_or_off_def Let_def split: if_splits intro!: calm_then stream)
  next
    case (Data_Request_Handler src)
    then show ?thesis using assms(1)
      by (auto simp: data_request_handler_def calm_or_off_def Let_def split: option.splits if_splits intro!: calm_then chunk)
  next
    case Restart_Request_Handler
    then show ?thesis using assms(1) by (simp add: restart_request_handler_def)
  qed (use assms c0 in \<open>auto simp: calm_or_off_def stop_request_handler_def stop_stream_request_handler_def identify_request_handler_def
      test_request_handler_def intro!: calm_then\<close>)
qed

lemma calm_dispatch:
  assumes "dispatch_request E len ticks s = Some s'" and "fifo_ok (tx_fifo s)"
  shows "calm_or_off s s'"
proof -
  note c0 = calm_refl[OF assms(2)]
  have ch: "calm_or_off s s'" if "call_request_handler E h t = Some s'" "calm s t" for h t
    using calm_request_handler[OF that(1) calm_ok[OF that(2)]] calm_trans[OF that(2)] by (auto simp: calm_or_off_def)
  have up: "calm s (upd_rest g (upd_world (request_timepoint_ticks_update a) (upd_world (request_update b)
      (upd_world (\<lambda>r. r\<lparr>receive_notification_fifo := f, request := q r\<rparr>) s))))" for g a b f q
    by (intro calm_then_rest calm_then_upd c0) auto
  show ?thesis using assms(1) ch[OF _ up] unfolding dispatch_request_def Let_def
    by (auto simp: calm_or_off_def split: option.splits prod.splits if_splits)
qed

lemma calm_process:
  assumes "process_receive_notification E script s = Some (s', script')" and inst: "rh_installed E s"
  shows "calm_or_off s s'"
proof -
  have ok: "fifo_ok (tx_fifo s)" using inst by (simp add: rh_installed_def)
  note c0 = calm_refl[OF ok]
  show ?thesis
  proof (cases "processing_receive_notification (world s)")
    case True
    then show ?thesis using assms(1) calm_put[OF ok] by (auto simp: process_receive_notification_def start_receive_notification_def calm_or_off_def)
  next
    case False
    let ?t = "upd_world (processing_receive_notification_update (\<lambda>_. True)) s"
    have t: "calm s ?t" by (intro calm_then_upd c0) auto
    show ?thesis
    proof (cases "receive_notification_fifo_peek (fifo (io E)) 0 (receive_notification_fifo (world ?t))")
      case (Inl e)
      have "calm s (finish_receive_notification (flush_notifications E ?t))"
        unfolding finish_receive_notification_def flush_notifications_def by (intro calm_then_upd t) auto
      then show ?thesis using assms(1) False Inl by (simp add: process_receive_notification_def start_receive_notification_def calm_or_off_def)
    next
      case (Inr n)
      let ?u = "upd_world (\<lambda>r. r\<lparr>response_timestamp := (timepoint_seconds n, timepoint_milliseconds n), response_clock_status := clock_is_synced E (rest r)\<rparr>) ?t"
      have u: "calm s ?u" by (intro calm_then_upd t) auto
      have aw: "calm s x" if "sender_await_data (sender_env E) sc len ms y = Some (d, x, sc')" "calm s y" for x y sc sc' len ms d
        using calm_trans[OF that(2) calm_await[OF that(1) calm_installed[OF that(2) inst]]] .
      have di: "calm_or_off s x" if "dispatch_request E len tk (upd_world (rh_serialized_buf_update g) y) = Some x" "calm s y" for x y len tk g
      proof -
        have "calm s (upd_world (rh_serialized_buf_update g) y)" by (intro calm_then_upd that(2)) auto
        then show ?thesis using calm_dispatch[OF that(1)] calm_ok calm_trans by (fastforce simp: calm_or_off_def)
      qed
      show ?thesis using assms(1) False Inr u
        by (auto simp: process_receive_notification_def start_receive_notification_def Let_def calm_or_off_def[where s' = "flush_and_error E x" for x]
            split: option.splits sum.splits dest!: aw) (rule di, assumption, assumption)
    qed
  qed
qed

lemma blocked_execute:
  assumes "execute_next E script s = Some (s', script')" and inst: "rh_installed E s"
    and b: "processing_response (world s)" "Send_Response \<notin> set (sched_queue (world s))"
  shows "calm_or_off s s'"
proof (cases "sched_queue (world s)")
  case Nil
  then show ?thesis using assms by (simp add: execute_next_def calm_or_off_def calm_refl rh_installed_def)
next
  case (Cons h hs)
  let ?t = "upd_world (sched_queue_update (\<lambda>_. hs)) s"
  have t: "calm s ?t" using inst b Cons by (auto simp: calm_def upd_world_def rh_installed_def)
  have p: "processing_response (world ?t)" using b by (simp add: upd_world_def)
  have h: "h \<noteq> Send_Response" using b Cons by auto
  note r = assms(1)[unfolded execute_next_def Cons list.case]
  have resp: "calm_or_off s s'" if "s' = put_event h ?t" using that calm_then_put[OF t h] by (simp add: calm_or_off_def)
  have proc: "calm_or_off s s'" if "calm_or_off ?t s'" using that calm_trans[OF t] by (auto simp: calm_or_off_def)
  have req: "calm_or_off s s'" if "map_option (\<lambda>s. (s, script)) (call_request_handler E h ?t) = Some (s', script')"
    using that calm_request_handler[of h ?t s'] calm_ok[OF t] proc by auto
  show ?thesis
  proof (cases h)
    case Process_Receive_Notification
    then show ?thesis using r calm_process[OF _ calm_installed[OF t inst]] proc by simp
  next
    case Status_Response_Handler
    then show ?thesis using r p resp by (simp add: status_response_handler_def start_response_def)
  next
    case (Start_Response_Handler src)
    then show ?thesis using r p resp by (simp add: start_response_handler_def start_response_def)
  next
    case (Data_Response_Handler src)
    then show ?thesis using r p resp by (simp add: data_response_handler_def start_response_def)
  next
    case Stream_Response_Handler
    then show ?thesis using r p resp by (simp add: stream_response_handler_def start_response_def)
  next
    case Test_Response_Handler
    then show ?thesis using r p resp by (simp add: test_response_handler_def start_response_def)
  qed (use r req h in simp_all)
qed

lemma blocked_steps:
  assumes "badge_steps E s s'" and "rh_installed E s" and "processing_response (world s)" and "Send_Response \<notin> set (sched_queue (world s))"
  shows "calm s s'"
  using assms(1)
proof (induction rule: badge_steps.induct)
  case steps_refl
  then show ?case using assms(2) by (simp add: calm_refl rh_installed_def)
next
  case (steps_execute t script u script')
  have "processing_response (world t)" "Send_Response \<notin> set (sched_queue (world t))" using steps_execute.IH assms(3,4) by (auto simp: calm_def)
  from blocked_execute[OF steps_execute.hyps(2) calm_installed[OF steps_execute.IH assms(2)] this]
  show ?case using steps_execute calm_trans by (auto simp: calm_or_off_def)
next
  case (steps_interrupt t ev)
  then show ?case using calm_trans[OF _ calm_event[OF calm_installed[OF _ assms(2)]]] by blast
qed

end

section \<open>A simulated badge\<close>

text \<open>Modules that do nothing, and a storer that reports an error of the storage.\<close>

definition sim_rh :: "sim_air rh_env" where
  "sim_rh = \<lparr>io = sim_sender, clock_set_timestamp = (\<lambda>_ _ _. id), clock_is_synced = (\<lambda>_. True), clock_get_timestamp = (\<lambda>e. ((0, 0), e)),
     set_clock_synced_flag = id, set_badge_assignement = (\<lambda>_ e. (NRF_SUCCESS, e)), get_badge_assignement = (\<lambda>_. (0, 0)),
     sampling_get_sampling_configuration = (\<lambda>_. 0), sampling_reset_timeouts = id, sampling_start_microphone = (\<lambda>_ _ _ e. (NRF_SUCCESS, e)),
     sampling_start_scan = (\<lambda>_ _ _ _ _ _ _ _ e. (NRF_SUCCESS, e)), sampling_start_accelerometer = (\<lambda>_ _ _ _ _ _ e. (NRF_SUCCESS, e)),
     sampling_start_accelerometer_interrupt = (\<lambda>_ _ _ _ _ e. (NRF_SUCCESS, e)), sampling_start_battery = (\<lambda>_ _ _ e. (NRF_SUCCESS, e)),
     sampling_stop = (\<lambda>_ _. id), storer_find_chunk_from_timestamp = (\<lambda>_ _ m e. Some (NRF_SUCCESS, m, e)),
     storer_get_next_chunk = (\<lambda>_ m e. Some (NRF_ERROR_INTERNAL, m, e)), invalidate_iterators = id, battery_get_voltage = (\<lambda>e. ([0, 0, 0, 0], e)),
     selftest_test = (\<lambda>e. (0, e)), identify_led = (\<lambda>_. id), accelerometer_present = True\<rparr>"

interpretation sim_rh: request_world sim_rh
  by (rule request_world.intro) (simp add: sim_rh_def sim_sender_fifo sim_fifo.app_fifo_lib_axioms)

definition empty_fifo :: "nat \<Rightarrow> app_fifo" where
  "empty_fifo n = \<lparr>fifo_buf = replicate n 0, buf_size_mask = 0, fifo_read_pos = 0, fifo_write_pos = 0\<rparr>"

definition sim_boot :: "sim_air badge" where
  "sim_boot = \<lparr>connected = False, transmitting = False, receive_notification_handler = None, tx_fifo = empty_fifo 512, rx_fifo = empty_fifo 128,
     disconnect_timeout_id = 0, world = \<lparr>request_timepoint_ticks = 0, request = (\<lambda>_. 0), response_retries = 0, response_success_handler = None,
       response_fail_handler = None, response = (\<lambda>_. 0), response_timestamp = (0, 0), response_clock_status = False,
       receive_notification_fifo = empty_fifo 256, processing_receive_notification = False, processing_response = False, streaming_started = False,
       rh_serialized_buf = replicate 512 0, chunk = (\<lambda>_ _. 0), stream_fifo = (\<lambda>_. \<lparr>p_buf = replicate 64 0, buf_size = 64, read_pos = 0, write_pos = 0, read_flag = False\<rparr>), sched_queue = [], rest = ([], False, 0)\<rparr>\<rparr>"

text \<open>After the initialisation and the start of a connection.\<close>

definition sim_ready :: "sim_air badge" where
  "sim_ready = on_connect_callback (sender_env sim_rh) (snd (request_handler_init sim_rh sim_boot))"

lemma sim_ready_state:
  "connected sim_ready" "rest (world sim_ready) = ([], False, 0)" "\<not> processing_response (world sim_ready)" "sched_queue (world sim_ready) = []"
  "\<not> processing_receive_notification (world sim_ready)" "length (rh_serialized_buf (world sim_ready)) = 512"
  "fifo_list (rx_fifo sim_ready) = []" "fifo_list (tx_fifo sim_ready) = []" "fifo_list (receive_notification_fifo (world sim_ready)) = []"
  "fifo_cap (rx_fifo sim_ready) = 128" "fifo_cap (tx_fifo sim_ready) = 512" "fifo_cap (receive_notification_fifo (world sim_ready)) = 256"
  "receive_notification_handler sim_ready = Some (rh_receive_notification_handler sim_fifo)"
  "length (fifo_buf (rx_fifo sim_ready)) = 128" "length (fifo_buf (tx_fifo sim_ready)) = 512" "length (fifo_buf (receive_notification_fifo (world sim_ready))) = 256"
  by (simp_all add: sim_ready_def request_handler_init_def sender_init_def on_connect_callback_def sender_reset_def sender_env_def lift_io_def lift_pair_def
      sim_rh_def sim_sender_def sim_fifo_def sim_boot_def empty_fifo_def Let_def upd_world_def fifo_list_def fifo_cap_def
      sender_set_receive_notification_handler_def TX_FIFO_SIZE_def RX_FIFO_SIZE_def RECEIVE_NOTIFICATION_FIFO_SIZE_def)

lemma fresh_fifo_ok: "length (fifo_buf f) = 2 ^ k \<Longrightarrow> k \<le> 16 \<Longrightarrow> fifo_cap f = 2 ^ k \<Longrightarrow> fifo_read_pos f = 0 \<Longrightarrow> fifo_write_pos f = 0 \<Longrightarrow> fifo_ok f"
  by (auto simp: fifo_ok_def)

lemma sim_ready_ok: "fifo_ok (rx_fifo sim_ready)" "fifo_ok (tx_fifo sim_ready)" "fifo_ok (receive_notification_fifo (world sim_ready))"
  by (rule fresh_fifo_ok[of _ 7] fresh_fifo_ok[of _ 9] fresh_fifo_ok[of _ 8], use sim_ready_state in simp, simp, use sim_ready_state in simp,
      simp_all add: sim_ready_def request_handler_init_def sender_init_def on_connect_callback_def sender_reset_def sender_env_def lift_io_def lift_pair_def
      sim_rh_def sim_sender_def sim_fifo_def sim_boot_def empty_fifo_def Let_def upd_world_def sender_set_receive_notification_handler_def)+

section \<open>Theorem\<close>

text \<open>
  C39: An error of the storer stops the responses.  If a data response handler, called while no response is being
  processed and none is scheduled to be sent, gets from the storer an error other than \<open>NRF_ERROR_NOT_FOUND\<close> and
  \<open>NRF_ERROR_INVALID_STATE\<close>, then it puts itself into the scheduler again but keeps the response marked as being processed; from
  then on, whatever is received and executed, as long as the connection is kept, the mark stays, no
  response is started, and no byte is added to the transmit FIFO.
\<close>

theorem busy_storer_blocks_responses:
  assumes "request_world E" and "rh_installed E s0" and "\<not> processing_response (world s0)" and "Send_Response \<notin> set (sched_queue (world s0))"
    and "storer_get_next_chunk E src (chunk (world s0) src) (rest (world s0)) = Some (ret, c, w)"
    and "ret \<noteq> NRF_SUCCESS" and "ret \<noteq> NRF_ERROR_NOT_FOUND" and "ret \<noteq> NRF_ERROR_INVALID_STATE"
    and "run_handler E (Data_Response_Handler src) script s0 = Some (s, script')" and "badge_steps E s s'"
  shows "processing_response (world s') \<and> Send_Response \<notin> set (sched_queue (world s')) \<and> suffix (fifo_list (tx_fifo s')) (fifo_list (tx_fifo s0))"
proof -
  have s: "rh_installed E s" "processing_response (world s)" "Send_Response \<notin> set (sched_queue (world s))" "tx_fifo s = tx_fifo s0"
    using assms(2-9) by (auto simp: data_response_handler_def start_response_def upd_world_def set_retries_def upd_response_def upd_rest_def put_event_def
        app_sched_event_put_def rh_installed_def Let_def)
  from request_world.blocked_steps[OF assms(1,10) s(1-3)] s show ?thesis by (auto simp: calm_def)
qed

theorem busy_storer_blocks_responses_witness:
  "\<exists>s s'. run_handler sim_rh (Data_Response_Handler Battery) [] sim_ready = Some (s, []) \<and> execute_next sim_rh [] s = Some (s', [])
     \<and> processing_response (world s') \<and> fifo_list (tx_fifo s') = []"
proof -
  have st: "storer_get_next_chunk sim_rh Battery (chunk (world sim_ready) Battery) (rest (world sim_ready))
      = Some (NRF_ERROR_INTERNAL, chunk (world sim_ready) Battery, rest (world sim_ready))" by (simp add: sim_rh_def)
  have inst: "rh_installed sim_rh sim_ready" using sim_ready_ok sim_ready_state by (simp add: rh_installed_def sim_rh_def sim_sender_fifo)
  obtain s where s: "run_handler sim_rh (Data_Response_Handler Battery) [] sim_ready = Some (s, [])" and q: "sched_queue (world s) = [Data_Response_Handler Battery]"
    and p: "processing_response (world s)" "connected s"
    using sim_ready_state by (simp add: data_response_handler_def start_response_def upd_world_def set_retries_def upd_response_def upd_rest_def put_event_def
        app_sched_event_put_def Let_def sim_rh_def)
  let ?s' = "put_event (Data_Response_Handler Battery) (upd_world (sched_queue_update (\<lambda>_. [])) s)"
  have e: "execute_next sim_rh [] s = Some (?s', [])" and con: "connected ?s'"
    using q p by (simp_all add: execute_next_def data_response_handler_def start_response_def upd_world_def put_event_def)
  have steps: "badge_steps sim_rh s ?s'" by (rule steps_execute[OF steps_refl e con])
  have "Send_Response \<notin> set (sched_queue (world sim_ready))" using sim_ready_state by simp
  from busy_storer_blocks_responses[OF sim_rh.request_world_axioms inst sim_ready_state(3) this st _ _ _ s steps]
  have "processing_response (world ?s')" "suffix (fifo_list (tx_fifo ?s')) (fifo_list (tx_fifo sim_ready))" by simp_all
  then show ?thesis using s e sim_ready_state(8) by auto
qed

end
