(* ===== verification/Request_Frames.thy ===== *)
theory Request_Frames
  imports Request_Correct
begin

text \<open>
  The queue of the notifications as a list, and the way of a request from the received bytes to its handler.
\<close>

section \<open>Notifications in the FIFO\<close>

definition wf_notification :: "receive_notification \<Rightarrow> bool" where
  "wf_notification n \<longleftrightarrow> notification_len n < 2 ^ 16 \<and> timepoint_ticks n < 2 ^ 64 \<and> timepoint_seconds n < 2 ^ 32 \<and> timepoint_milliseconds n < 2 ^ 16"

lemma length_notification_bytes [simp]: "length (notification_bytes n) = 24"
  by (simp add: notification_bytes_def)

lemma notification_of_bytes: "wf_notification n \<Longrightarrow> notification_of (notification_bytes n) = n"
  by (simp add: wf_notification_def notification_of_def notification_bytes_def le_uint_bytes)

definition notifies :: "app_fifo \<Rightarrow> receive_notification list \<Rightarrow> bool" where
  "notifies f ns \<longleftrightarrow> fifo_ok f \<and> fifo_cap f = RECEIVE_NOTIFICATION_FIFO_SIZE \<and> (\<forall>n \<in> set ns. wf_notification n)
     \<and> fifo_list f = concat (map notification_bytes ns)"

definition total_bytes :: "receive_notification list \<Rightarrow> nat" where
  "total_bytes ns = sum_list (map notification_len ns)"

lemma length_blocks: "length (concat (map notification_bytes ns)) = 24 * length ns"
  by (induction ns) simp_all

lemma block_at: "i < length ns \<Longrightarrow> take 24 (drop (24 * i) (concat (map notification_bytes ns))) = notification_bytes (ns ! i)"
proof (induction ns arbitrary: i)
  case (Cons n ns)
  then show ?case by (cases i) simp_all
qed simp

lemma overwrite_block:
  "i < length ns \<Longrightarrow> overwrite (concat (map notification_bytes ns)) (24 * i) (notification_bytes n) = concat (map notification_bytes (ns[i := n]))"
proof (induction ns arbitrary: i)
  case (Cons m ns)
  then show ?case by (cases i) (simp_all add: overwrite_def add.commute)
qed simp

lemma fifo_list_le: "fifo_ok f \<Longrightarrow> length (fifo_list f) \<le> fifo_cap f"
  by (simp add: fifo_ok_def length_fifo_list)

lemma notifies_length: "notifies f ns \<Longrightarrow> length (fifo_list f) = 24 * length ns"
  by (simp add: notifies_def length_blocks)

lemma notifies_short: "notifies f ns \<Longrightarrow> length ns \<le> 10"
  using fifo_list_le[of f] notifies_length[of f ns] by (simp add: notifies_def RECEIVE_NOTIFICATION_FIFO_SIZE_def)

text \<open>Setting bytes in the buffer of a FIFO.\<close>

lemma fifo_set_byte:
  assumes ok: "fifo_ok f" and k: "k < length (fifo_list f)"
  shows "fifo_list (f\<lparr>fifo_buf := (fifo_buf f)[(fifo_read_pos f + k) mod fifo_cap f := b]\<rparr>) = (fifo_list f)[k := b]" (is "fifo_list ?g = _")
    and "fifo_ok (f\<lparr>fifo_buf := (fifo_buf f)[(fifo_read_pos f + k) mod fifo_cap f := b]\<rparr>)"
proof -
  show g: "fifo_ok ?g" using ok by (simp add: fifo_ok_def fifo_cap_def)
  have le: "length (fifo_list f) \<le> fifo_cap f" and lb: "length (fifo_buf f) = fifo_cap f" using ok by (simp_all add: fifo_ok_def length_fifo_list)
  have len: "length (fifo_list ?g) = length (fifo_list f)" by (simp add: length_fifo_list)
  show "fifo_list ?g = (fifo_list f)[k := b]"
  proof (rule nth_equalityI)
    fix i assume i: "i < length (fifo_list ?g)"
    have inj: "(fifo_read_pos f + i) mod fifo_cap f \<noteq> (fifo_read_pos f + k) mod fifo_cap f" if "i \<noteq> k"
    proof
      assume "(fifo_read_pos f + i) mod fifo_cap f = (fifo_read_pos f + k) mod fifo_cap f"
      then have "fifo_cap f dvd (max i k - min i k)"
        by (metis (no_types, opaque_lifting) add_diff_cancel_left max_def min_def mod_eq_dvd_iff_nat nat_add_left_cancel_le nle_le)
      then show False using that i k le len by (auto dest!: dvd_imp_le simp: max_def min_def split: if_splits)
    qed
    have "fifo_list ?g ! i = fifo_buf ?g ! ((fifo_read_pos f + i) mod fifo_cap f)"
      using nth_fifo_list[OF g i] by (simp add: fifo_cap_def)
    then show "fifo_list ?g ! i = (fifo_list f)[k := b] ! i"
      using inj k i len lb nth_fifo_list[OF ok, of i] fifo_cap_dvd(2)[OF ok] by (auto simp: nth_list_update)
  qed (simp add: len)
qed

lemma fifo_set_bytes:
  assumes ok: "fifo_ok f" and fits: "off + length bs \<le> length (fifo_list f)"
  shows "fifo_list (fifo_set_bytes (u32_add (fifo_read_pos f) off) bs f) = overwrite (fifo_list f) off bs"
    and "fifo_ok (fifo_set_bytes (u32_add (fifo_read_pos f) off) bs f)"
    and "fifo_cap (fifo_set_bytes (u32_add (fifo_read_pos f) off) bs f) = fifo_cap f"
proof -
  let ?g = "\<lambda>k. f\<lparr>fifo_buf := fold (\<lambda>i buf. buf[u32_add (u32_add (fifo_read_pos f) off) i AND buf_size_mask f := bs ! i]) [0..<k] (fifo_buf f)\<rparr>"
  have pos: "u32_add (u32_add (fifo_read_pos f) off) i AND buf_size_mask f = (fifo_read_pos f + (off + i)) mod fifo_cap f" for i
    unfolding and_mask[OF ok] using mod_add_cancel[OF fifo_cap_dvd(1)[OF ok], of "u32_add (fifo_read_pos f) off + i" 0]
      mod_add_cancel[OF fifo_cap_dvd(1)[OF ok], of "fifo_read_pos f + off" i]
    by (simp add: u32_add_def u32_def add.assoc)
  have "fifo_list (?g k) = overwrite (fifo_list f) off (take k bs) \<and> fifo_ok (?g k)" if "k \<le> length bs" for k
    using that
  proof (induction k)
    case 0
    then show ?case using ok by (simp add: overwrite_def)
  next
    case (Suc k)
    then have IH: "fifo_list (?g k) = overwrite (fifo_list f) off (take k bs)" "fifo_ok (?g k)" by simp_all
    have len: "length (fifo_list (?g k)) = length (fifo_list f)" by (simp add: length_fifo_list)
    have c: "fifo_cap (?g k) = fifo_cap f" by (simp add: fifo_cap_def)
    have k: "off + k < length (fifo_list (?g k))" unfolding len using fits Suc.prems by simp
    have "?g (Suc k) = (?g k)\<lparr>fifo_buf := (fifo_buf (?g k))[(fifo_read_pos (?g k) + (off + k)) mod fifo_cap (?g k) := bs ! k]\<rparr>"
      unfolding c by (simp add: pos)
    then have "fifo_list (?g (Suc k)) = (overwrite (fifo_list f) off (take k bs))[off + k := bs ! k]" "fifo_ok (?g (Suc k))"
      using fifo_set_byte[OF IH(2) k, of "bs ! k"] IH(1) by simp_all
    moreover have "(overwrite (fifo_list f) off (take k bs))[off + k := bs ! k] = overwrite (fifo_list f) off (take (Suc k) bs)"
      using fits Suc.prems by (intro nth_equalityI) (auto simp: nth_overwrite nth_list_update take_Suc_conv_app_nth nth_append min_def)
    ultimately show ?case by simp
  qed
  from this[of "length bs"] show "fifo_list (fifo_set_bytes (u32_add (fifo_read_pos f) off) bs f) = overwrite (fifo_list f) off bs"
    and "fifo_ok (fifo_set_bytes (u32_add (fifo_read_pos f) off) bs f)"
    by (simp_all add: fifo_set_bytes_def)
  show "fifo_cap (fifo_set_bytes (u32_add (fifo_read_pos f) off) bs f) = fifo_cap f" by (simp add: fifo_set_bytes_def fifo_cap_def)
qed

section \<open>Consuming notifications\<close>

context app_fifo_lib
begin

lemma notification_peek:
  assumes "notifies f ns"
  shows "receive_notification_fifo_peek F i f = (if i < length ns then Inr (ns ! i) else Inl NRF_ERROR_NOT_FOUND)"
proof -
  have ok: "fifo_ok f" and wf: "\<forall>n \<in> set ns. wf_notification n" and l: "fifo_list f = concat (map notification_bytes ns)"
    using assms by (simp_all add: notifies_def)
  note len = notifies_length[OF assms]
  show ?thesis
  proof (cases "i < length ns")
    case True
    have "map (\<lambda>k. app_fifo_peek F (k + i * 24) f) [0..<24] = take 24 (drop (24 * i) (fifo_list f))"
      using True len by (intro nth_equalityI) (auto simp: peek_law[OF ok] add.commute mult.commute)
    also have "\<dots> = notification_bytes (ns ! i)" unfolding l by (rule block_at[OF True])
    finally show ?thesis using True len size_law[OF ok] wf
      by (simp add: receive_notification_fifo_peek_def sizeof_notification_def notification_of_bytes)
  qed (use len size_law[OF ok] in \<open>simp add: receive_notification_fifo_peek_def sizeof_notification_def\<close>)
qed

lemma notification_set:
  assumes "notifies f ns" and "i < length ns" and "wf_notification n"
  shows "notifies (receive_notification_fifo_set_receive_notification F n i f) (ns[i := n])"
proof -
  have ok: "fifo_ok f" and l: "fifo_list f = concat (map notification_bytes ns)" using assms(1) by (simp_all add: notifies_def)
  have fits: "i * 24 + length (notification_bytes n) \<le> length (fifo_list f)" using notifies_length[OF assms(1)] assms(2) by simp
  note set = fifo_set_bytes[OF ok fits]
  have "\<forall>m \<in> set (ns[i := n]). wf_notification m" using assms set_update_subset_insert[of ns i n] by (auto simp: notifies_def)
  then show ?thesis using set assms(1,2) overwrite_block[OF assms(2), of n] size_law[OF ok] notifies_length[OF assms(1)]
    by (simp add: receive_notification_fifo_set_receive_notification_def sizeof_notification_def notifies_def l mult.commute)
qed

lemma notification_consume: "notifies f (n # ns) \<Longrightarrow> notifies (receive_notification_fifo_consume F f) ns"
  using read_law[of f 24] by (cases "app_fifo_read F 24 f") (simp add: notifies_def receive_notification_fifo_consume_def sizeof_notification_def)

lemma notification_consumes: "notifies f ns \<Longrightarrow> k \<le> length ns \<Longrightarrow> notifies ((receive_notification_fifo_consume F ^^ k) f) (drop k ns)"
proof (induction k)
  case (Suc k)
  then have "notifies ((receive_notification_fifo_consume F ^^ k) f) (ns ! k # drop (Suc k) ns)" by (simp add: Cons_nth_drop_Suc)
  then show ?case using notification_consume by simp
qed simp

lemma consume_loop_takes:
  assumes "notifies f ns" and "i \<le> length ns" and "clen \<le> total_bytes (drop i ns)" and "length ns - i < fuel"
  shows "\<exists>k f' ns'. consume_loop F fuel clen i f = Some (k, f') \<and> notifies f' ns' \<and> k \<le> length ns' \<and> total_bytes (drop k ns') + clen = total_bytes (drop i ns)"
  using assms(2-4)
proof (induction fuel arbitrary: clen i)
  case (Suc fuel)
  show ?case
  proof (cases "clen = 0")
    case True
    then show ?thesis using assms(1) Suc.prems by auto
  next
    case False
    have i: "i < length ns"
    proof (rule ccontr)
      assume "\<not> i < length ns"
      then have "total_bytes (drop i ns) = 0" by (simp add: total_bytes_def)
      then show False using Suc.prems(2) False by simp
    qed
    have d: "drop i ns = ns ! i # drop (Suc i) ns" by (rule Cons_nth_drop_Suc[OF i, symmetric])
    note pk = notification_peek[OF assms(1), of i]
    let ?n = "ns ! i"
    have wf: "wf_notification ?n" using assms(1) i by (simp add: notifies_def)
    show ?thesis
    proof (cases "notification_len ?n \<le> clen")
      case True
      have "clen - notification_len ?n \<le> total_bytes (drop (Suc i) ns)" using Suc.prems(2) unfolding d by (simp add: total_bytes_def)
      moreover have "Suc i \<le> length ns" "length ns - Suc i < fuel" using i Suc.prems(3) by simp_all
      ultimately obtain k f' ns' where
        "consume_loop F fuel (clen - notification_len ?n) (Suc i) f = Some (k, f')" "notifies f' ns'" "k \<le> length ns'"
        "total_bytes (drop k ns') + (clen - notification_len ?n) = total_bytes (drop (Suc i) ns)" using Suc.IH[of "Suc i" "clen - notification_len ?n"] by blast
      then show ?thesis using True False pk i unfolding d by (auto simp: total_bytes_def)
    next
      case False
      let ?m = "?n\<lparr>notification_len := notification_len ?n - clen\<rparr>"
      have "wf_notification ?m" using wf by (auto simp: wf_notification_def)
      note st = notification_set[OF assms(1) i this]
      have "total_bytes (drop i (ns[i := ?m])) + clen = total_bytes (drop i ns)"
        using i False unfolding d by (simp add: drop_update_swap d total_bytes_def)
      then show ?thesis using st False \<open>clen \<noteq> 0\<close> pk i
        by (intro exI[of _ i] exI[of _ "receive_notification_fifo_set_receive_notification F ?m i f"] exI[of _ "ns[i := ?m]"]) simp
    qed
  qed
qed simp

end

section \<open>Receiving\<close>

lemma await_available:
  assumes "app_fifo_lib (fifo E)" and "connected s" and ok: "fifo_ok (rx_fifo s)" and "len \<le> length (fifo_list (rx_fifo s))"
  obtains f e where "sender_await_data E (evs # script) len ms s = Some (Inr (take len (fifo_list (rx_fifo s))), s\<lparr>rx_fifo := f, world := e\<rparr>, script)"
    and "fifo_ok f" and "fifo_cap f = fifo_cap (rx_fifo s)" and "fifo_list f = drop len (fifo_list (rx_fifo s))"
    and "e = snd (continuous_millis E (world s))"
proof -
  obtain t e where m: "continuous_millis E (world s) = (t, e)" by fastforce
  obtain d f where r: "app_fifo_read (fifo E) len (rx_fifo s) = (d, f)" by fastforce
  have sz: "app_fifo_size (fifo E) (rx_fifo s) = length (fifo_list (rx_fifo s))" by (rule app_fifo_lib.size_law[OF assms(1) ok])
  have "sender_await_data E (evs # script) len ms s = Some (Inr d, s\<lparr>rx_fifo := f, world := e\<rparr>, script)"
    using assms(2,4) by (simp add: sender_await_data_def m sender_get_received_data_size_def sz sender_get_received_data_def r Let_def)
  then show thesis using that app_fifo_lib.read_law[OF assms(1) ok r] by (simp add: m)
qed

lemma millis_world: "snd (continuous_millis (sender_env E) r) = r\<lparr>rest := snd (continuous_millis (io E) (rest r))\<rparr>"
  by (simp add: sender_env_def lift_io_def lift_pair_def split: prod.split)

section \<open>Requests\<close>

text \<open>Every valid request has a tag of the table, and the tag is one of its cells.\<close>

lemma oneof_first_entry_valid:
  assumes "tb_cells (entry_oneof_message 528 st i w n tag True sub # fs) m base = Some cs"
  shows "check_oneof_which_tag_validity (entry_oneof_message 528 st i w n tag True sub # fs) (unat (m (base + int (tb_offsetof st w))))"
proof (rule ccontr)
  let ?f = "entry_oneof_message 528 st i w n tag True sub"
  assume "\<not> ?thesis"
  moreover have "size_offset ?f = int (tb_offsetof st w) - int (tb_offsetof st i)" by (simp add: entry_oneof_message_def tb_delta_def)
  ultimately show False
    using oneof_entry_kind[of st i w n tag True sub] assms
    by (simp add: tb_cells.simps(2) field_cells_def entry_oneof_def then_cells_def Let_def del: check_oneof_which_tag_validity.simps)
qed

lemma request_tag:
  assumes "tb_cells Request_fields q 0 = Some cs"
  shows "0 \<in> covered cs" and "\<exists>h. map_of request_handlers (rd_uint q 0 1) = Some h"
proof -
  have q: "0 + int (tb_offsetof Request 0) = 0" by (simp add: union_offsets)
  note v = oneof_first_entry_valid[OF assms[unfolded Request_fields_def], unfolded q]
  have "\<exists>cs'. cs = Raw 0 1 # cs'"
    using assms unfolding Request_fields_def
    by (subst (asm) oneof_first_entry_cells) (use v q in \<open>auto simp: then_cells_def split: option.splits if_splits\<close>)
  then show "0 \<in> covered cs" by (auto simp: covered_def)
  have "rd_uint q 0 1 = unat (q 0)" by (simp add: rd_uint_def rd_def)
  then show "\<exists>h. map_of request_handlers (rd_uint q 0 1) = Some h"
    using v by (auto simp: request_handlers_def split: if_splits)
qed

text \<open>The structure of the request after decoding: the cells of the sent structure, and zero elsewhere.\<close>

definition received_request :: "memory \<Rightarrow> cell list \<Rightarrow> memory \<Rightarrow> memory" where
  "received_request q cs m = restore q cs (memset0 0 (sizeof Request) m)"

definition dispatched :: "'w rh_env \<Rightarrow> app_fifo \<Rightarrow> (memory \<Rightarrow> memory) \<Rightarrow> nat \<Rightarrow> 'w badge \<Rightarrow> 'w badge" where
  "dispatched E f g ticks s = upd_rest (sampling_reset_timeouts E)
     (upd_world (\<lambda>r. r\<lparr>receive_notification_fifo := f, request := g (request r), request_timepoint_ticks := ticks\<rparr>) s)"

lemma dispatch_takes:
  assumes lib: "app_fifo_lib (fifo (io E))" and nf: "notifies (receive_notification_fifo (world s)) ns" and enough: "len + 2 \<le> total_bytes ns"
    and q: "tb_cells Request_fields q 0 = Some cs" "total_len cs = len" and len: "len \<le> length (rh_serialized_buf (world s))" "len + 2 < 2 ^ 16"
    and bytes: "take len (rh_serialized_buf (world s)) = cells_bytes TB_BIG_ENDIAN q cs" and h: "map_of request_handlers (rd_uint q 0 1) = Some h"
  shows "\<exists>f ns'. notifies f ns' \<and> total_bytes ns' + len + 2 = total_bytes ns
    \<and> dispatch_request E len ticks s = call_request_handler E h (dispatched E f (received_request q cs) ticks s)"
proof -
  let ?F = "fifo (io E)"
  obtain k f ns1 where c: "consume_loop ?F CONSUME_FUEL (len + 2) 0 (receive_notification_fifo (world s)) = Some (k, f)" "notifies f ns1" "k \<le> length ns1"
      "total_bytes (drop k ns1) + (len + 2) = total_bytes ns"
    using app_fifo_lib.consume_loop_takes[OF lib nf, of 0 "len + 2" CONSUME_FUEL] enough notifies_short[OF nf] by (auto simp: CONSUME_FUEL_def)
  let ?f = "(receive_notification_fifo_consume ?F ^^ k) f" and ?m = "received_request q cs (request (world s))"
  have "istream_holds TB_BIG_ENDIAN q cs (tb_istream_from_buffer (rh_serialized_buf (world s)) len)"
    using bytes q(2) len by (simp add: istream_holds_def tb_istream_from_buffer_def)
  note d = tb_decode_by_cells[OF protocol_tables_ok(1) q(1) this, of "memset0 0 (sizeof Request) (request (world s))"]
  have "rd_uint ?m 0 1 = rd_uint q 0 1" using request_tag(1)[OF q(1)] by (simp add: received_request_def restore_def rd_uint_def rd_def)
  then have "dispatch_request E len ticks s = call_request_handler E h (dispatched E ?f (received_request q cs) ticks s)"
    using c(1) d h len(2) by (simp add: dispatch_request_def env_fields u16_def upd_world_def received_request_def dispatched_def)
  moreover have "notifies ?f (drop k ns1)" by (rule app_fifo_lib.notification_consumes[OF lib c(2,3)])
  ultimately show ?thesis using c(4) by (intro exI[of _ ?f] exI[of _ "drop k ns1"]) simp
qed

lemma frame_header: "n < 65536 \<Longrightarrow> push_bit 8 (unat (of_nat (n div 256) :: byte)) OR unat (of_nat (n mod 256) :: byte) = n"
proof -
  assume "n < 65536"
  then have "unat (of_nat (n div 256) :: byte) = n div 256" "unat (of_nat (n mod 256) :: byte) = n mod 256" by (simp_all add: unat_of_nat)
  moreover have "push_bit 8 (n div 256) OR n mod 256 = push_bit 8 (n div 256) + n mod 256"
  proof (rule disjunctive_add[symmetric])
    have "n mod 256 = take_bit 8 n" by (simp add: take_bit_eq_mod)
    then show "\<not> bit (push_bit 8 (n div 256)) i \<or> \<not> bit (n mod 256) i" for i by (auto simp: bit_push_bit_iff bit_take_bit_iff)
  qed
  ultimately show ?thesis by (simp add: push_bit_eq_mult)
qed

text \<open>A received packet is appended to the receive FIFO, and a notification of its length is queued.\<close>

lemma receive_queues:
  assumes lib: "app_fifo_lib (fifo (io E))" and rx: "fifo_ok (rx_fifo s)" "length (fifo_list (rx_fifo s)) + length d \<le> fifo_cap (rx_fifo s)"
    and nf: "notifies (receive_notification_fifo (world s)) ns" "length ns < 10"
    and inst: "receive_notification_handler s = Some (rh_receive_notification_handler (fifo (io E)))"
    and time: "current_ticks (io E) (rest (world s)) = (t, e1)" "current_timestamp (io E) e1 = ((sec, ms), e2)"
    and wf: "length d < 2 ^ 16" "t < 2 ^ 64" "sec < 2 ^ 32" "ms < 2 ^ 16"
  shows "\<exists>rx nf. on_receive_callback (sender_env E) d s = s\<lparr>rx_fifo := rx, world := (world s)\<lparr>receive_notification_fifo := nf,
        sched_queue := sched_queue (world s) @ [Process_Receive_Notification], rest := disconnect_timeout_reset (io E) (disconnect_timeout_id s) e2\<rparr>\<rparr>
    \<and> fifo_ok rx \<and> fifo_cap rx = fifo_cap (rx_fifo s) \<and> fifo_list rx = fifo_list (rx_fifo s) @ d
    \<and> notifies nf (ns @ [\<lparr>notification_len = length d, timepoint_ticks = t, timepoint_seconds = sec, timepoint_milliseconds = ms\<rparr>])"
proof -
  let ?F = "fifo (io E)" and ?N = "receive_notification_fifo (world s)"
    and ?n = "\<lparr>notification_len = length d, timepoint_ticks = t, timepoint_seconds = sec, timepoint_milliseconds = ms\<rparr>"
  obtain r1 f1 where 1: "app_fifo_write ?F d (rx_fifo s) = (r1, f1)" by fastforce
  obtain r2 f2 where 2: "app_fifo_write ?F (notification_bytes ?n) ?N = (r2, f2)" by fastforce
  note w1 = app_fifo_lib.write_law[OF lib rx(1) 1]
  have ok: "fifo_ok ?N" "fifo_cap ?N = 256" and len: "length (fifo_list ?N) = 24 * length ns"
    using nf notifies_length[OF nf(1)] by (simp_all add: notifies_def RECEIVE_NOTIFICATION_FIFO_SIZE_def)
  note w2 = app_fifo_lib.write_law[OF lib ok(1) 2]
  have space: "\<not> app_fifo_space ?F ?N < sizeof_notification"
    using app_fifo_lib.space_law[OF lib ok(1)] ok(2) len nf(2) by (simp add: sizeof_notification_def)
  have "notifies f2 (ns @ [?n])"
    using nf w2 len ok wf by (auto simp: notifies_def wf_notification_def RECEIVE_NOTIFICATION_FIFO_SIZE_def)
  moreover have "on_receive_callback (sender_env E) d s = s\<lparr>rx_fifo := f1, world := (world s)\<lparr>receive_notification_fifo := f2,
        sched_queue := sched_queue (world s) @ [Process_Receive_Notification], rest := disconnect_timeout_reset (io E) (disconnect_timeout_id s) e2\<rparr>\<rparr>"
    using inst space 1 2 time
    by (simp add: on_receive_callback_def sender_env_def lift_io_def lift_pair_def Let_def upd_world_def rh_receive_notification_handler_def app_sched_event_put_def)
  ultimately show ?thesis using w1 rx(2) by (intro exI[of _ f1] exI[of _ f2]) simp
qed

text \<open>Up to the dispatch: the frame is in the buffer.\<close>

lemma frame_is_received:
  assumes lib: "app_fifo_lib (fifo (io E))" and con: "connected s" and np: "\<not> processing_receive_notification (world s)"
    and nf: "notifies (receive_notification_fifo (world s)) (n # ns)" and rx: "fifo_ok (rx_fifo s)"
    and frame: "fifo_list (rx_fifo s) = [of_nat (length frame div 256), of_nat (length frame mod 256)] @ frame @ later" "length frame < 65536"
  shows "\<exists>s2 w2. process_receive_notification E (evs1 # evs2 # script) s = map_option (\<lambda>s. (s, script)) (dispatch_request E (length frame) (timepoint_ticks n) s2)
    \<and> connected s2 \<and> tx_fifo s2 = tx_fifo s \<and> fifo_list (rx_fifo s2) = later
    \<and> world s2 = (world s)\<lparr>processing_receive_notification := True, response_timestamp := (timepoint_seconds n, timepoint_milliseconds n),
        response_clock_status := clock_is_synced E (rest (world s)), rest := w2, rh_serialized_buf := overwrite (rh_serialized_buf (world s)) 0 frame\<rparr>"
proof -
  let ?S = "sender_env E"
  have lib': "app_fifo_lib (fifo ?S)" using lib by (simp add: env_fields)
  let ?s0 = "upd_world (\<lambda>r. r\<lparr>response_timestamp := (timepoint_seconds n, timepoint_milliseconds n), response_clock_status := clock_is_synced E (rest r)\<rparr>)
    (upd_world (processing_receive_notification_update (\<lambda>_. True)) s)"
  have "connected ?s0" "fifo_ok (rx_fifo ?s0)" "2 \<le> length (fifo_list (rx_fifo ?s0))" using con rx frame(1) by (simp_all add: upd_world_def)
  from await_available[OF lib' this] obtain f1 e1 where a1: "sender_await_data ?S (evs1 # evs2 # script) 2 AWAIT_DATA_TIMEOUT_MS ?s0
      = Some (Inr (take 2 (fifo_list (rx_fifo ?s0))), ?s0\<lparr>rx_fifo := f1, world := e1\<rparr>, evs2 # script)"
    and f1: "fifo_ok f1" "fifo_list f1 = drop 2 (fifo_list (rx_fifo ?s0))" and e1: "e1 = snd (continuous_millis ?S (world ?s0))" by blast
  have l0: "take 2 (fifo_list (rx_fifo ?s0)) = [of_nat (length frame div 256), of_nat (length frame mod 256)]" and l1: "fifo_list f1 = frame @ later"
    using frame(1) f1(2) by (simp_all add: upd_world_def)
  let ?s1 = "?s0\<lparr>rx_fifo := f1, world := e1\<rparr>"
  have "connected ?s1" "fifo_ok (rx_fifo ?s1)" "length frame \<le> length (fifo_list (rx_fifo ?s1))" using con f1(1) l1 by (simp_all add: upd_world_def)
  from await_available[OF lib' this] obtain f2 e2 where a2: "sender_await_data ?S (evs2 # script) (length frame) AWAIT_DATA_TIMEOUT_MS ?s1
      = Some (Inr (take (length frame) (fifo_list (rx_fifo ?s1))), ?s1\<lparr>rx_fifo := f2, world := e2\<rparr>, script)"
    and "fifo_list f2 = drop (length frame) (fifo_list (rx_fifo ?s1))" and e2: "e2 = snd (continuous_millis ?S (world ?s1))" by blast
  then have f2: "fifo_list f2 = later" and l2: "take (length frame) (fifo_list (rx_fifo ?s1)) = frame" using l1 by simp_all
  let ?s2 = "upd_world (rh_serialized_buf_update (\<lambda>b. overwrite b 0 frame)) (?s1\<lparr>rx_fifo := f2, world := e2\<rparr>)"
  define w2 where "w2 = rest (world ?s2)"
  have w: "world ?s2 = (world s)\<lparr>processing_receive_notification := True, response_timestamp := (timepoint_seconds n, timepoint_milliseconds n),
      response_clock_status := clock_is_synced E (rest (world s)), rest := w2,
      rh_serialized_buf := overwrite (rh_serialized_buf (world s)) 0 frame\<rparr>"
    by (simp add: w2_def e1 e2 upd_world_def millis_world)
  have pk: "receive_notification_fifo_peek (fifo ?S) 0 (receive_notification_fifo (world s)) = Inr n"
    using app_fifo_lib.notification_peek[OF lib' nf, of 0] by simp
  have p: "process_receive_notification E (evs1 # evs2 # script) s
      = map_option (\<lambda>s. (s, script)) (dispatch_request E (length frame) (timepoint_ticks n) ?s2)"
    using np pk a1[unfolded l0] a2[unfolded l2] frame_header[of "length frame"] frame(2)
    by (simp add: process_receive_notification_def start_receive_notification_def upd_world_def Let_def)
  have g: "connected ?s2" "tx_fifo ?s2 = tx_fifo s" "fifo_list (rx_fifo ?s2) = later" using con f2 by (simp_all add: upd_world_def)
  show ?thesis by (rule exI[of _ ?s2], rule exI[of _ w2], intro conjI p g w)
qed

section \<open>Theorem\<close>

text \<open>
  C5: The way of a request.  If the received bytes start with a frame, that is the big-endian length and the bytes to which \<open>tb_encode\<close> serialises a
  request, and enough notifications are queued, in whatever packets the bytes came, then \<open>process_receive_notification\<close>
  calls the handler which the table has for the tag of the request: on a request with the same contents
  and zero in the rest of the structure, with the bytes of the frame and no others taken out of the receive FIFO, as many bytes taken
  out of the notifications, and the time of the first notification noted for clock and response.
\<close>

theorem request_frame_is_dispatched:
  assumes lib: "app_fifo_lib (fifo (io E))" and "connected s" and "\<not> processing_receive_notification (world s)"
    and nf: "notifies (receive_notification_fifo (world s)) (n # ns)"
    and rx: "fifo_ok (rx_fifo s)" "fifo_cap (rx_fifo s) = RX_FIFO_SIZE"
    and buf: "length (rh_serialized_buf (world s)) = REQUEST_HANDLER_SERIALIZED_BUFFER_SIZE"
    and enc: "tb_encode TB_BIG_ENDIAN Request_fields q 0 (tb_ostream_from_buffer b (length b)) = (True, os)" "length b \<le> 2 ^ 16"
      "frame = take (bytes_written os) (obuf os)"
    and frame: "fifo_list (rx_fifo s) = [of_nat (length frame div 256), of_nat (length frame mod 256)] @ frame @ later"
      "length frame + 2 \<le> total_bytes (n # ns)"
  shows "\<exists>h cs s1 ns'. map_of request_handlers (rd_uint q 0 1) = Some h
    \<and> process_receive_notification E (evs1 # evs2 # script) s = map_option (\<lambda>s. (s, script)) (call_request_handler E h s1)
    \<and> tb_cells Request_fields q 0 = Some cs \<and> request (world s1) = received_request q cs (request (world s))
    \<and> fifo_list (rx_fifo s1) = later \<and> notifies (receive_notification_fifo (world s1)) ns' \<and> total_bytes ns' + length frame + 2 = total_bytes (n # ns)
    \<and> request_timepoint_ticks (world s1) = timepoint_ticks n \<and> response_timestamp (world s1) = (timepoint_seconds n, timepoint_milliseconds n)
    \<and> connected s1 \<and> processing_receive_notification (world s1) \<and> tx_fifo s1 = tx_fifo s \<and> sched_queue (world s1) = sched_queue (world s)"
proof -
  have ok: "ostream_ok (tb_ostream_from_buffer b (length b))" using enc(2) by (simp add: ostream_ok_def tb_ostream_from_buffer_def)
  obtain cs where cs: "tb_cells Request_fields q 0 = Some cs" and "os = (tb_ostream_from_buffer b (length b))
      \<lparr>obuf := overwrite (obuf (tb_ostream_from_buffer b (length b))) 0 (cells_bytes TB_BIG_ENDIAN q cs), bytes_written := total_len cs\<rparr>"
    using tb_encode_success[OF protocol_tables_ok(1) ok enc(1)] by (auto simp: tb_ostream_from_buffer_def)
  then have os: "frame = cells_bytes TB_BIG_ENDIAN q cs" by (simp add: enc(3) overwrite_def)
  obtain h where h: "map_of request_handlers (rd_uint q 0 1) = Some h" using request_tag(2)[OF cs] by blast
  have len: "length frame + 2 \<le> 128" using fifo_list_le[OF rx(1)] rx(2) frame(1) by (simp add: RX_FIFO_SIZE_def)
  obtain s2 w2 where p: "process_receive_notification E (evs1 # evs2 # script) s
      = map_option (\<lambda>s. (s, script)) (dispatch_request E (length frame) (timepoint_ticks n) s2)"
    and s2: "connected s2" "tx_fifo s2 = tx_fifo s" "fifo_list (rx_fifo s2) = later"
    and w: "world s2 = (world s)\<lparr>processing_receive_notification := True, response_timestamp := (timepoint_seconds n, timepoint_milliseconds n),
        response_clock_status := clock_is_synced E (rest (world s)), rest := w2, rh_serialized_buf := overwrite (rh_serialized_buf (world s)) 0 frame\<rparr>"
    using frame_is_received[OF lib assms(2,3) nf rx(1) frame(1), of evs1 evs2 script] len by fastforce
  have "notifies (receive_notification_fifo (world s2)) (n # ns)" "length frame \<le> length (rh_serialized_buf (world s2))"
    "take (length frame) (rh_serialized_buf (world s2)) = cells_bytes TB_BIG_ENDIAN q cs"
    unfolding w os[symmetric] using len buf nf by (simp_all add: overwrite_def REQUEST_HANDLER_SERIALIZED_BUFFER_SIZE_def)
  moreover have "total_len cs = length frame" "length frame + 2 < 2 ^ 16" using os len by simp_all
  ultimately obtain f ns' where d: "notifies f ns'" "total_bytes ns' + length frame + 2 = total_bytes (n # ns)"
      "dispatch_request E (length frame) (timepoint_ticks n) s2 = call_request_handler E h (dispatched E f (received_request q cs) (timepoint_ticks n) s2)"
    using dispatch_takes[OF lib _ frame(2) cs _ _ _ _ h, of s2 "timepoint_ticks n"] by blast
  let ?s3 = "dispatched E f (received_request q cs) (timepoint_ticks n) s2"
  have f3: "connected ?s3 = connected s2" "rx_fifo ?s3 = rx_fifo s2" "tx_fifo ?s3 = tx_fifo s2" by (simp_all add: dispatched_def upd_rest_def upd_world_def)
  have g3: "request (world ?s3) = received_request q cs (request (world s))" "receive_notification_fifo (world ?s3) = f"
    "request_timepoint_ticks (world ?s3) = timepoint_ticks n" "response_timestamp (world ?s3) = (timepoint_seconds n, timepoint_milliseconds n)"
    "processing_receive_notification (world ?s3)" "sched_queue (world ?s3) = sched_queue (world s)"
    by (simp_all add: dispatched_def upd_rest_def upd_world_def w)
  show ?thesis
    by (rule exI[of _ h], rule exI[of _ cs], rule exI[of _ ?s3], rule exI[of _ ns'], unfold f3 g3(2) p d(3))
      (intro conjI h refl cs g3 s2 d)
qed

text \<open>The frame of the sample request, in two packets.\<close>

definition sim_received :: "byte list \<Rightarrow> byte list \<Rightarrow> sim_air badge" where
  "sim_received d1 d2 = on_receive_callback (sender_env sim_rh) d2 (on_receive_callback (sender_env sim_rh) d1 sim_ready)"

lemma sim_receive:
  assumes "fifo_ok (rx_fifo s)" and "length (fifo_list (rx_fifo s)) + length d \<le> 128" and "fifo_cap (rx_fifo s) = 128"
    and "notifies (receive_notification_fifo (world s)) ns" and "length ns < 10"
    and "receive_notification_handler s = Some (rh_receive_notification_handler sim_fifo)" and "rest (world s) = ([], False, 0)"
  obtains rx nf n where "on_receive_callback (sender_env sim_rh) d s = s\<lparr>rx_fifo := rx, world := (world s)\<lparr>receive_notification_fifo := nf,
        sched_queue := sched_queue (world s) @ [Process_Receive_Notification], rest := ([], False, 0)\<rparr>\<rparr>"
    and "fifo_ok rx" and "fifo_cap rx = 128" and "fifo_list rx = fifo_list (rx_fifo s) @ d" and "notifies nf (ns @ [n])" and "notification_len n = length d"
proof -
  have e: "current_ticks (io sim_rh) ([], False, 0) = (0, ([], False, 0))" "current_timestamp (io sim_rh) ([], False, 0) = ((0, 0), ([], False, 0))"
    "disconnect_timeout_reset (io sim_rh) i = id" "fifo (io sim_rh) = sim_fifo" for i by (simp_all add: sim_rh_def sim_sender_def)
  show thesis
    using receive_queues[OF sim_rh.app_fifo_lib_axioms assms(1) _ assms(4,5), of d 0 "([], False, 0)" 0 0 "([], False, 0)"] assms(2,3,6,7) that
    by (simp add: e) fastforce
qed

lemma sim_received_state:
  assumes "length d1 + length d2 \<le> 128"
  shows "connected (sim_received d1 d2) \<and> \<not> processing_receive_notification (world (sim_received d1 d2)) \<and> fifo_ok (rx_fifo (sim_received d1 d2))
    \<and> fifo_cap (rx_fifo (sim_received d1 d2)) = RX_FIFO_SIZE \<and> fifo_list (rx_fifo (sim_received d1 d2)) = d1 @ d2
    \<and> length (rh_serialized_buf (world (sim_received d1 d2))) = REQUEST_HANDLER_SERIALIZED_BUFFER_SIZE
    \<and> (\<exists>n1 n2. notifies (receive_notification_fifo (world (sim_received d1 d2))) [n1, n2] \<and> total_bytes [n1, n2] = length d1 + length d2)"
proof -
  have n0: "notifies (receive_notification_fifo (world sim_ready)) []"
    using sim_ready_ok sim_ready_state by (simp add: notifies_def RECEIVE_NOTIFICATION_FIFO_SIZE_def)
  have l1: "length (fifo_list (rx_fifo sim_ready)) + length d1 \<le> 128" using sim_ready_state assms by simp
  obtain rx1 nf1 n1 where 1: "on_receive_callback (sender_env sim_rh) d1 sim_ready = sim_ready\<lparr>rx_fifo := rx1, world := (world sim_ready)
        \<lparr>receive_notification_fifo := nf1, sched_queue := sched_queue (world sim_ready) @ [Process_Receive_Notification], rest := ([], False, 0)\<rparr>\<rparr>" (is "_ = ?s1")
    and r1: "fifo_ok rx1" "fifo_cap rx1 = 128" "fifo_list rx1 = fifo_list (rx_fifo sim_ready) @ d1" "notifies nf1 ([] @ [n1])" "notification_len n1 = length d1"
    by (rule sim_receive[OF sim_ready_ok(1) l1 sim_ready_state(10) n0 _ sim_ready_state(13,2)]) simp_all
  have r: "fifo_ok (rx_fifo ?s1)" "length (fifo_list (rx_fifo ?s1)) + length d2 \<le> 128" "fifo_cap (rx_fifo ?s1) = 128"
    "notifies (receive_notification_fifo (world ?s1)) [n1]" "length [n1] < 10"
    "receive_notification_handler ?s1 = Some (rh_receive_notification_handler sim_fifo)" "rest (world ?s1) = ([], False, 0)"
    using r1 sim_ready_state assms by simp_all
  obtain rx2 nf2 n2 where 2: "on_receive_callback (sender_env sim_rh) d2 ?s1 = ?s1\<lparr>rx_fifo := rx2, world := (world ?s1)
        \<lparr>receive_notification_fifo := nf2, sched_queue := sched_queue (world ?s1) @ [Process_Receive_Notification], rest := ([], False, 0)\<rparr>\<rparr>"
    and r2: "fifo_ok rx2" "fifo_cap rx2 = 128" "fifo_list rx2 = fifo_list (rx_fifo ?s1) @ d2" "notifies nf2 ([n1] @ [n2])" "notification_len n2 = length d2"
    by (rule sim_receive[OF r])
  have "\<exists>n1 n2. notifies nf2 [n1, n2] \<and> total_bytes [n1, n2] = length d1 + length d2"
    using r1(5) r2(4,5) by (intro exI[of _ n1] exI[of _ n2]) (simp add: total_bytes_def)
  then show ?thesis unfolding sim_received_def 1 2
    using r1 r2 sim_ready_state by (simp add: RX_FIFO_SIZE_def REQUEST_HANDLER_SERIALIZED_BUFFER_SIZE_def)
qed

theorem request_frame_is_dispatched_witness:
  "\<exists>d1 d2 s1. length d1 = 1 \<and> length d2 = 12
     \<and> process_receive_notification sim_rh [[], []] (sim_received d1 d2) = Some (status_request_handler sim_rh s1, [])
     \<and> request (world s1) 14 = 42 \<and> request (world s1) 13 = 0 \<and> fifo_list (rx_fifo s1) = []"
proof -
  obtain os where os: "tb_encode TB_BIG_ENDIAN Request_fields sample_request 0 (tb_ostream_from_buffer (replicate 64 0) 64) = (True, os)" "bytes_written os = 11"
    using sample_request_encodes by blast
  have ok: "ostream_ok (tb_ostream_from_buffer (replicate 64 0) 64)" by (simp add: ostream_ok_def tb_ostream_from_buffer_def)
  let ?fr = "take (bytes_written os) (obuf os)"
  have "length (obuf os) = 64" using tb_encode_by_cells[OF protocol_tables_ok(1) ok sample_request_cells, of TB_BIG_ENDIAN] os(1)
    by (auto simp: tb_ostream_from_buffer_def overwrite_def)
  then have fr: "length ?fr = 11" using os(2) by simp
  let ?s = "sim_received [0] (11 # ?fr)"
  obtain n1 n2 where n: "notifies (receive_notification_fifo (world ?s)) [n1, n2]" "total_bytes [n1, n2] = 13"
    using sim_received_state[of "[0]" "11 # ?fr"] fr by auto
  have s: "connected ?s" "\<not> processing_receive_notification (world ?s)" "fifo_ok (rx_fifo ?s)" "fifo_cap (rx_fifo ?s) = RX_FIFO_SIZE"
    "length (rh_serialized_buf (world ?s)) = REQUEST_HANDLER_SERIALIZED_BUFFER_SIZE"
    "fifo_list (rx_fifo ?s) = [of_nat (length ?fr div 256), of_nat (length ?fr mod 256)] @ ?fr @ []"
    using sim_received_state[of "[0]" "11 # ?fr"] fr by auto
  have "map_of request_handlers (rd_uint sample_request 0 1) = Some Status_Request_Handler"
    by (simp add: rd_uint_def rd_def sample_request_def request_handlers_def)
  with request_frame_is_dispatched[OF sim_rh.app_fifo_lib_axioms s(1,2) n(1) s(3-5), of sample_request "replicate 64 0" os ?fr "[]" "[]" "[]" "[]"] os(1) fr n(2) s(6)
  obtain cs s1 where r: "process_receive_notification sim_rh [[], []] ?s = Some (status_request_handler sim_rh s1, [])"
      "tb_cells Request_fields sample_request 0 = Some cs" "request (world s1) = received_request sample_request cs (request (world ?s))"
      "fifo_list (rx_fifo s1) = []" by auto
  have "cs = [Raw 0 1, Conv 4 4, Conv 8 2, Raw 12 1, Conv 14 2, Conv 16 1]" using r(2) sample_request_cells by simp
  then have "14 \<in> covered cs" "13 \<notin> covered cs" by (auto simp: covered_def)
  moreover have "13 < sizeof Request" by (simp add: sizeof_def layout_eval del: One_nat_def)
  ultimately have "request (world s1) 14 = 42" "request (world s1) 13 = 0" unfolding r(3)
    by (simp_all add: received_request_def restore_def sample_request_def memset0_def wr_def)
  then show ?thesis using r fr by (intro exI[of _ "[0]"] exI[of _ "11 # ?fr"] exI[of _ s1]) simp
qed

end
