(* ===== verification/Sampling.thy ===== *)
theory Sampling
  imports Sources Chunk_Fifo Circular_Fifo Protocol_Messages "HOL-Library.Signed_Division"
begin

text \<open>
  The sampling module, \<^verbatim>\<open>incl/sampling_lib.c\<close>: it starts and stops the sources on request, and its timer and scan callbacks fill the open chunks of
  the chunk FIFOs and the stream FIFOs.  The variant with the accelerometer is modelled.  The drivers of the sources, the timers of the SDK, the
  timeouts, the clock and the advertiser are operations on a world.
\<close>

section \<open>State\<close>

definition MICROPHONE_CHUNK_DATA_SIZE :: nat where "MICROPHONE_CHUNK_DATA_SIZE = 114"
definition ACCELEROMETER_CHUNK_DATA_SIZE :: nat where "ACCELEROMETER_CHUNK_DATA_SIZE = 100"
definition SCAN_SAMPLING_CHUNK_DATA_SIZE :: nat where "SCAN_SAMPLING_CHUNK_DATA_SIZE = 255"
definition SCAN_CHUNK_AGGREGATE_TYPE_MAX :: nat where "SCAN_CHUNK_AGGREGATE_TYPE_MAX = 0"

datatype sampling_timer = Accelerometer_Fifo_Timer | Interrupt_Reset_Timer | Battery_Timer | Microphone_Timer | Microphone_Aggregated_Timer | Scan_Timer

datatype sampling_event = Process_Chunk source | Setup_Accelerometer_Interrupt_Chunk

record sampling_accelerometer_parameters =
  accelerometer_timeout_ms :: nat
  accelerometer_stream_timeout_ms :: nat
  accelerometer_datarate :: nat
  accelerometer_operating_mode :: nat
  accelerometer_full_scale :: nat
  accelerometer_fifo_sampling_period_ms :: nat

record sampling_battery_parameters =
  battery_timeout_ms :: nat
  battery_stream_timeout_ms :: nat
  battery_period_ms :: nat

record sampling_microphone_parameters =
  microphone_timeout_ms :: nat
  microphone_stream_timeout_ms :: nat
  microphone_period_ms :: nat

record sampling_scan_parameters =
  scan_timeout_ms :: nat
  scan_stream_timeout_ms :: nat
  scan_period_seconds :: nat
  scan_interval_ms :: nat
  scan_window_ms :: nat
  scan_duration_seconds :: nat
  scan_group_filter :: nat
  scan_aggregation_type :: nat

text \<open>The pointers to the open chunks are offsets into the buffers of their FIFOs; \<open>None\<close> is \<open>NULL\<close>.\<close>

record 'w sampling =
  sampling_configuration :: nat
  chunk_fifos :: "source \<Rightarrow> chunk_fifo"
  stream_fifos :: "source \<Rightarrow> circular_fifo"
  chunk_ptr :: "source \<Rightarrow> nat option"
  accelerometer_parameters :: sampling_accelerometer_parameters
  accelerometer_interrupt_ignore_duration_ms :: nat
  battery_parameters :: sampling_battery_parameters
  microphone_parameters :: sampling_microphone_parameters
  microphone_aggregated :: nat
  microphone_aggregated_count :: nat
  scan_parameters :: sampling_scan_parameters
  scan_aggregated_rssi :: "int list"
  timeout_id :: "source \<Rightarrow> nat"
  stream_timeout_id :: "source \<Rightarrow> nat"
  sampling_events :: "sampling_event list"
  sworld :: 'w

text \<open>
  What the module calls.  The ticks of a time and the two times of the microphone are results of a macro of the SDK, and
  \<open>padding\<close> is what lies between the members of a local structure.
\<close>

record 'w sampling_env =
  accel_init :: "'w \<Rightarrow> ret_code \<times> 'w"
  accel_set_axis :: "nat \<Rightarrow> 'w \<Rightarrow> ret_code \<times> 'w"
  accel_set_fifo :: "bool \<Rightarrow> 'w \<Rightarrow> ret_code \<times> 'w"
  accel_set_HP_filter :: "bool \<Rightarrow> 'w \<Rightarrow> ret_code \<times> 'w"
  accel_set_full_scale :: "nat \<Rightarrow> 'w \<Rightarrow> ret_code \<times> 'w"
  accel_set_datarate :: "nat \<Rightarrow> 'w \<Rightarrow> ret_code \<times> 'w"
  accel_set_operating_mode :: "nat \<Rightarrow> 'w \<Rightarrow> ret_code \<times> 'w"
  accel_set_motion_interrupt_parameters :: "nat \<Rightarrow> nat \<Rightarrow> 'w \<Rightarrow> ret_code \<times> 'w"
  accel_set_interrupt_handler :: "'w \<Rightarrow> 'w"
  accel_set_interrupt :: "bool \<Rightarrow> 'w \<Rightarrow> ret_code \<times> 'w"
  accel_reset_interrupt :: "'w \<Rightarrow> 'w"
  accel_read_acceleration :: "nat \<Rightarrow> 'w \<Rightarrow> (ret_code + (int \<times> int \<times> int) list) \<times> 'w"
  battery_init :: "'w \<Rightarrow> ret_code \<times> 'w"
  battery_voltage :: "'w \<Rightarrow> byte list \<times> 'w"
  microphone_init :: "'w \<Rightarrow> 'w"
  microphone_read :: "'w \<Rightarrow> (ret_code + byte) \<times> 'w"
  scanner_init :: "'w \<Rightarrow> 'w"
  scanner_set_callbacks :: "'w \<Rightarrow> 'w"
  scanner_start_scanning :: "nat \<Rightarrow> nat \<Rightarrow> nat \<Rightarrow> 'w \<Rightarrow> ret_code \<times> 'w"
  scanner_stop_scanning :: "'w \<Rightarrow> 'w"
  timer_create :: "sampling_timer \<Rightarrow> bool \<Rightarrow> 'w \<Rightarrow> ret_code \<times> 'w"
  timer_start :: "sampling_timer \<Rightarrow> nat \<Rightarrow> 'w \<Rightarrow> ret_code \<times> 'w"
  timer_stop :: "sampling_timer \<Rightarrow> 'w \<Rightarrow> 'w"
  app_timer_ticks :: "nat \<Rightarrow> nat"
  aggregated_period_ticks :: nat
  reading_window_ticks :: nat
  source_timeout_register :: "source \<Rightarrow> bool \<Rightarrow> 'w \<Rightarrow> (ret_code + nat) \<times> 'w"
  source_timeout_start :: "nat \<Rightarrow> nat \<Rightarrow> 'w \<Rightarrow> 'w"
  source_timeout_reset :: "nat \<Rightarrow> 'w \<Rightarrow> 'w"
  ticks_now :: "'w \<Rightarrow> nat \<times> 'w"
  timestamp_now :: "'w \<Rightarrow> (nat \<times> nat) \<times> 'w"
  set_enabled_flag :: "source \<Rightarrow> bool \<Rightarrow> 'w \<Rightarrow> 'w"
  padding :: byte

definition env :: "('w \<Rightarrow> 'w) \<Rightarrow> 'w sampling \<Rightarrow> 'w sampling" where
  "env g s = s\<lparr>sworld := g (sworld s)\<rparr>"

definition env_op :: "('w \<Rightarrow> 'a \<times> 'w) \<Rightarrow> 'w sampling \<Rightarrow> 'a \<times> 'w sampling" where
  "env_op g s = (case g (sworld s) of (x, w) \<Rightarrow> (x, s\<lparr>sworld := w\<rparr>))"

text \<open>The early return on an error.\<close>

definition and_then :: "ret_code \<times> 's \<Rightarrow> ('s \<Rightarrow> ret_code \<times> 's) \<Rightarrow> ret_code \<times> 's" where
  "and_then r g = (case r of (ret, s) \<Rightarrow> if ret \<noteq> NRF_SUCCESS then (ret, s) else g s)"

definition is_sampling :: "source \<Rightarrow> 'w sampling \<Rightarrow> bool" where
  "is_sampling src s \<longleftrightarrow> bit (sampling_configuration s) (SAMPLING src)"

definition is_streaming_source :: "source \<Rightarrow> 'w sampling \<Rightarrow> bool" where
  "is_streaming_source src s \<longleftrightarrow> bit (sampling_configuration s) (STREAMING src)"

definition set_configuration_flag :: "nat \<Rightarrow> bool \<Rightarrow> 'w sampling \<Rightarrow> 'w sampling" where
  "set_configuration_flag n v s = s\<lparr>sampling_configuration := (if v then set_bit n (sampling_configuration s) else unset_bit n (sampling_configuration s))\<rparr>"

definition sched :: "sampling_event \<Rightarrow> 'w sampling \<Rightarrow> 'w sampling" where
  "sched ev s = s\<lparr>sampling_events := sampling_events s @ [ev]\<rparr>"

section \<open>Chunks and streams\<close>

text \<open>Opening and closing a chunk, and bytes at an offset of the buffer.\<close>

definition open_chunk :: "source \<Rightarrow> 'w sampling \<Rightarrow> nat \<times> 'w sampling" where
  "open_chunk src s = (case chunk_fifo_write_open (chunk_fifos s src) of ((p, _), f) \<Rightarrow>
     (p, s\<lparr>chunk_fifos := (chunk_fifos s)(src := f), chunk_ptr := (chunk_ptr s)(src := Some p)\<rparr>))"

definition close_chunk :: "source \<Rightarrow> 'w sampling \<Rightarrow> 'w sampling" where
  "close_chunk src s = s\<lparr>chunk_fifos := (chunk_fifos s)(src := chunk_fifo_write_close (chunk_fifos s src))\<rparr>"

definition poke :: "source \<Rightarrow> nat \<Rightarrow> byte list \<Rightarrow> 'w sampling \<Rightarrow> 'w sampling" where
  "poke src a bs s = s\<lparr>chunk_fifos := (chunk_fifos s)(src := chunk_store (chunk_fifos s src) a bs)\<rparr>"

definition peek :: "source \<Rightarrow> nat \<Rightarrow> 'w sampling \<Rightarrow> nat" where
  "peek src a s = unat (p_chunk_fifo_buf (chunk_fifos s src) ! a)"

definition poke_timestamp :: "'w sampling_env \<Rightarrow> source \<Rightarrow> nat \<Rightarrow> 'w sampling \<Rightarrow> 'w sampling" where
  "poke_timestamp E src a s = (case env_op (timestamp_now E) s of ((seconds, ms), s) \<Rightarrow>
     poke src (a + tb_offsetof Timestamp 1) (le_bytes 2 ms) (poke src (a + tb_offsetof Timestamp 0) (le_bytes 4 seconds) s))"

definition stream :: "source \<Rightarrow> byte list \<Rightarrow> 'w sampling \<Rightarrow> 'w sampling" where
  "stream src bs s = s\<lparr>stream_fifos := (stream_fifos s)(src := circular_fifo_write (stream_fifos s src) bs)\<rparr>"

section \<open>Initialisation\<close>

fun chunk_struct :: "source \<Rightarrow> ctype list" where
  "chunk_struct Accelerometer = AccelerometerChunk"
| "chunk_struct Accelerometer_Interrupt = AccelerometerInterruptChunk"
| "chunk_struct Battery = BatteryChunk"
| "chunk_struct Microphone = MicrophoneChunk"
| "chunk_struct Scan = ScanSamplingChunk"

fun chunk_number :: "source \<Rightarrow> nat" where
  "chunk_number Microphone = 3"
| "chunk_number Scan = 1"
| "chunk_number _ = 2"

fun stream_size :: "source \<Rightarrow> nat" where
  "stream_size Accelerometer = sizeof AccelerometerStream * 100"
| "stream_size Accelerometer_Interrupt = sizeof AccelerometerInterruptStream * 10"
| "stream_size Battery = sizeof BatteryStream * 10"
| "stream_size Microphone = sizeof MicrophoneStream * 100"
| "stream_size Scan = sizeof ScanStream * 100"

text \<open>The buffers of the FIFOs are static: they stay what they are.\<close>

definition init_chunk_fifo :: "source \<Rightarrow> 'w sampling \<Rightarrow> ret_code \<times> 'w sampling" where
  "init_chunk_fifo src s =
     (case chunk_fifo_init (chunk_number src) (sizeof (chunk_struct src)) 0 (Some (p_chunk_fifo_buf (chunk_fifos s src))) of
        Inl e \<Rightarrow> (e, s) | Inr f \<Rightarrow> (NRF_SUCCESS, s\<lparr>chunk_fifos := (chunk_fifos s)(src := f)\<rparr>))"

definition init_stream_fifo :: "source \<Rightarrow> 'w sampling \<Rightarrow> ret_code \<times> 'w sampling" where
  "init_stream_fifo src s =
     (case circular_fifo_init (Some (p_buf (stream_fifos s src))) (stream_size src) of
        Inl e \<Rightarrow> (e, s) | Inr f \<Rightarrow> (NRF_SUCCESS, s\<lparr>stream_fifos := (stream_fifos s)(src := f)\<rparr>))"

definition register_timeout :: "'w sampling_env \<Rightarrow> source \<Rightarrow> bool \<Rightarrow> 'w sampling \<Rightarrow> ret_code \<times> 'w sampling" where
  "register_timeout E src streaming s =
     (case env_op (source_timeout_register E src streaming) s of
        (Inl e, s) \<Rightarrow> (e, s)
      | (Inr i, s) \<Rightarrow> (NRF_SUCCESS, if streaming then s\<lparr>stream_timeout_id := (stream_timeout_id s)(src := i)\<rparr>
                                     else s\<lparr>timeout_id := (timeout_id s)(src := i)\<rparr>))"

text \<open>What all sources have: their FIFOs and the two timeouts.\<close>

definition init_source :: "'w sampling_env \<Rightarrow> source \<Rightarrow> 'w sampling \<Rightarrow> ret_code \<times> 'w sampling" where
  "init_source E src s =
     and_then (and_then (and_then (init_chunk_fifo src s) (init_stream_fifo src)) (register_timeout E src False)) (register_timeout E src True)"

definition sampling_init :: "'w sampling_env \<Rightarrow> 'w sampling \<Rightarrow> ret_code \<times> 'w sampling" where
  "sampling_init E s =
     and_then (env_op (accel_init E) (s\<lparr>sampling_configuration := 0\<rparr>)) (\<lambda>s.
     and_then (env_op (accel_set_axis E 7) s) (\<lambda>s.
     and_then (env_op (accel_set_fifo E True) s) (\<lambda>s.
     and_then (env_op (accel_set_HP_filter E True) s) (\<lambda>s.
     and_then (env_op (timer_create E Accelerometer_Fifo_Timer True) s) (\<lambda>s.
     and_then (init_source E Accelerometer s) (\<lambda>s.
     and_then (env_op (timer_create E Interrupt_Reset_Timer False) s) (\<lambda>s.
     and_then (init_source E Accelerometer_Interrupt s) (\<lambda>s.
     and_then (env_op (battery_init E) s) (\<lambda>s.
     and_then (env_op (timer_create E Battery_Timer True) s) (\<lambda>s.
     and_then (init_source E Battery s) (\<lambda>s.
     and_then (env_op (timer_create E Microphone_Timer True) (env (microphone_init E) s)) (\<lambda>s.
     and_then (env_op (timer_create E Microphone_Aggregated_Timer True) s) (\<lambda>s.
     and_then (init_source E Microphone s) (\<lambda>s.
     and_then (env_op (timer_create E Scan_Timer True) (env (scanner_set_callbacks E) (env (scanner_init E) s))) (\<lambda>s.
     init_source E Scan s)))))))))))))))"

definition sampling_get_sampling_configuration :: "'w sampling \<Rightarrow> nat" where
  "sampling_get_sampling_configuration s = sampling_configuration s"

definition sampling_reset_timeouts :: "'w sampling_env \<Rightarrow> 'w sampling \<Rightarrow> 'w sampling" where
  "sampling_reset_timeouts E s =
     fold (\<lambda>src s. env (source_timeout_reset E (stream_timeout_id s src)) (env (source_timeout_reset E (timeout_id s src)) s))
       [Accelerometer, Accelerometer_Interrupt, Battery, Microphone, Scan] s"

section \<open>Starting and stopping\<close>

definition stop_timers :: "'w sampling_env \<Rightarrow> sampling_timer list \<Rightarrow> 'w sampling \<Rightarrow> 'w sampling" where
  "stop_timers E ts s = fold (\<lambda>t. env (timer_stop E t)) ts s"

fun start_timers :: "'w sampling_env \<Rightarrow> (sampling_timer \<times> nat) list \<Rightarrow> 'w sampling \<Rightarrow> ret_code \<times> 'w sampling" where
  "start_timers E [] s = (NRF_SUCCESS, s)"
| "start_timers E ((t, ticks) # ts) s = and_then (env_op (timer_start E t ticks) s) (start_timers E ts)"

text \<open>
  Accelerometer, battery, microphone and scan are started in the same way, once the parameters are checked and updated: with their
  timers, and with a function that sets up their chunk.
\<close>

definition start_sampling ::
  "'w sampling_env \<Rightarrow> source \<Rightarrow> ('w sampling \<Rightarrow> 'w sampling) \<Rightarrow> (sampling_timer \<times> nat) list \<Rightarrow> nat \<Rightarrow> bool \<Rightarrow> bool \<Rightarrow> 'w sampling \<Rightarrow> ret_code \<times> 'w sampling" where
  "start_sampling E src setup timers timeout_ms parameters_changed streaming s =
     (if \<not> streaming then
        if \<not> is_sampling src s \<or> parameters_changed then
          and_then (start_timers E timers (setup (stop_timers E (map fst timers) s)))
            (\<lambda>s. let s = env (set_enabled_flag E src True) (set_configuration_flag (SAMPLING src) True s)
                 in (NRF_SUCCESS, env (source_timeout_start E (timeout_id s src) timeout_ms) s))
        else (NRF_SUCCESS, s)
      else
        and_then (if is_sampling src s \<and> parameters_changed then start_timers E timers (setup (stop_timers E (map fst timers) s))
                  else if \<not> is_sampling src s then start_timers E timers (stop_timers E (map fst timers) s)
                  else (NRF_SUCCESS, s))
          (\<lambda>s. let s = set_configuration_flag (STREAMING src) True s in (NRF_SUCCESS, env (source_timeout_start E (stream_timeout_id s src) timeout_ms) s)))"

text \<open>Stopping: what switches the source off is done unless the other use of the source goes on.\<close>

definition stop_sampling :: "'w sampling_env \<Rightarrow> source \<Rightarrow> ('w sampling \<Rightarrow> ret_code \<times> 'w sampling) \<Rightarrow> bool \<Rightarrow> 'w sampling \<Rightarrow> ret_code \<times> 'w sampling" where
  "stop_sampling E src switch_off streaming s =
     (if \<not> streaming then
        and_then (if \<not> is_streaming_source src s then switch_off s else (NRF_SUCCESS, s))
          (\<lambda>s. (NRF_SUCCESS, env (set_enabled_flag E src False) (set_configuration_flag (SAMPLING src) False s)))
      else
        and_then (if \<not> is_sampling src s then switch_off s else (NRF_SUCCESS, s))
          (\<lambda>s. (NRF_SUCCESS, set_configuration_flag (STREAMING src) False s)))"

section \<open>Accelerometer\<close>

definition accel_operating_mode_of :: "nat \<Rightarrow> nat" where
  "accel_operating_mode_of operating_mode = (if operating_mode = 0 then 0 else if operating_mode = 1 then 1 else if operating_mode = 2 then 2
     else if operating_mode = 3 then 3 else 1)"

definition accel_full_scale_of :: "nat \<Rightarrow> nat" where
  "accel_full_scale_of full_scale = (if full_scale \<le> 2 then 0 else if full_scale \<le> 4 then 1 else if full_scale \<le> 8 then 2
     else if full_scale \<le> 16 then 3 else 1)"

definition accel_datarate_of :: "nat \<Rightarrow> nat" where
  "accel_datarate_of datarate = (if datarate \<le> 1 then 1 else if datarate \<le> 10 then 2 else if datarate \<le> 25 then 3 else if datarate \<le> 50 then 4
     else if datarate \<le> 100 then 5 else if datarate \<le> 200 then 6 else if datarate \<le> 400 then 7 else 2)"

definition sampling_setup_accelerometer_chunk :: "'w sampling_env \<Rightarrow> 'w sampling \<Rightarrow> 'w sampling" where
  "sampling_setup_accelerometer_chunk E s =
     (case open_chunk Accelerometer s of (p, s) \<Rightarrow>
      poke Accelerometer (p + tb_offsetof AccelerometerChunk 1) [0] (poke_timestamp E Accelerometer (p + tb_offsetof AccelerometerChunk 0) s))"

definition sampling_finalize_accelerometer_chunk :: "'w sampling_env \<Rightarrow> 'w sampling \<Rightarrow> 'w sampling" where
  "sampling_finalize_accelerometer_chunk E s =
     sched (Process_Chunk Accelerometer) (sampling_setup_accelerometer_chunk E (close_chunk Accelerometer s))"

definition sampling_start_accelerometer :: "'w sampling_env \<Rightarrow> nat \<Rightarrow> nat \<Rightarrow> nat \<Rightarrow> nat \<Rightarrow> nat \<Rightarrow> bool \<Rightarrow> 'w sampling \<Rightarrow> ret_code \<times> 'w sampling" where
  "sampling_start_accelerometer E timeout_ms operating_mode full_scale datarate fifo_sampling_period_ms streaming s =
     (let om = accel_operating_mode_of operating_mode; fs = accel_full_scale_of full_scale; dr = accel_datarate_of datarate in
      and_then (env_op (accel_set_full_scale E fs) s) (\<lambda>s.
      and_then (env_op (accel_set_datarate E dr) s) (\<lambda>s.
      and_then (env_op (accel_set_operating_mode E om) s) (\<lambda>s.
      let p = accelerometer_parameters s;
          parameters_changed = ((accelerometer_timeout_ms p \<noteq> timeout_ms \<and> \<not> streaming) \<or> accelerometer_datarate p \<noteq> dr
            \<or> accelerometer_operating_mode p \<noteq> om \<or> accelerometer_full_scale p \<noteq> fs \<or> accelerometer_fifo_sampling_period_ms p \<noteq> fifo_sampling_period_ms);
          p = \<lparr>accelerometer_timeout_ms = (if \<not> streaming then timeout_ms else accelerometer_timeout_ms p),
               accelerometer_stream_timeout_ms = (if streaming then timeout_ms else accelerometer_stream_timeout_ms p),
               accelerometer_datarate = dr, accelerometer_operating_mode = om, accelerometer_full_scale = fs,
               accelerometer_fifo_sampling_period_ms = fifo_sampling_period_ms\<rparr>
      in start_sampling E Accelerometer (sampling_setup_accelerometer_chunk E) [(Accelerometer_Fifo_Timer, app_timer_ticks E fifo_sampling_period_ms)]
           timeout_ms parameters_changed streaming (s\<lparr>accelerometer_parameters := p\<rparr>)))))"

text \<open>Switching the chip off unless the other of its two sources is in use.\<close>

definition power_down :: "'w sampling_env \<Rightarrow> source \<Rightarrow> 'w sampling \<Rightarrow> ret_code \<times> 'w sampling" where
  "power_down E other s =
     (if \<not> is_sampling other s \<and> \<not> is_streaming_source other s then env_op (accel_set_operating_mode E 0) s else (NRF_SUCCESS, s))"

definition sampling_stop_accelerometer :: "'w sampling_env \<Rightarrow> bool \<Rightarrow> 'w sampling \<Rightarrow> ret_code \<times> 'w sampling" where
  "sampling_stop_accelerometer E streaming s =
     stop_sampling E Accelerometer (\<lambda>s. power_down E Accelerometer_Interrupt (stop_timers E [Accelerometer_Fifo_Timer] s)) streaming s"

definition sampling_timeout_accelerometer :: "'w sampling_env \<Rightarrow> 'w sampling \<Rightarrow> 'w sampling" where
  "sampling_timeout_accelerometer E s = snd (sampling_stop_accelerometer E False s)"

definition sampling_timeout_accelerometer_stream :: "'w sampling_env \<Rightarrow> 'w sampling \<Rightarrow> 'w sampling" where
  "sampling_timeout_accelerometer_stream E s = snd (sampling_stop_accelerometer E True s)"

definition acceleration :: "int \<times> int \<times> int \<Rightarrow> nat" where
  "acceleration a = (case a of (x, y, z) \<Rightarrow> nat ((\<bar>x\<bar> + \<bar>y\<bar> + \<bar>z\<bar>) mod 2 ^ 16))"

definition raw_acceleration :: "int \<times> int \<times> int \<Rightarrow> byte list" where
  "raw_acceleration a = (case a of (x, y, z) \<Rightarrow> concat (map (\<lambda>v. le_bytes 2 (nat (v mod 2 ^ 16))) [x, y, z]))"

text \<open>\<open>None\<close> is an access through \<open>NULL\<close>.\<close>

definition sampling_accelerometer_fifo_callback :: "'w sampling_env \<Rightarrow> 'w sampling \<Rightarrow> 'w sampling option" where
  "sampling_accelerometer_fifo_callback E s =
     (if \<not> is_sampling Accelerometer s \<and> \<not> is_streaming_source Accelerometer s then Some s
      else case chunk_ptr s Accelerometer of None \<Rightarrow> None
      | Some p \<Rightarrow>
          let count = p + tb_offsetof AccelerometerChunk 1; data = p + tb_offsetof AccelerometerChunk 2; num = peek Accelerometer count s in
          case env_op (accel_read_acceleration E (u32_sub ACCELEROMETER_CHUNK_DATA_SIZE num)) s of
            (Inl _, s) \<Rightarrow> Some s
          | (Inr xs, s) \<Rightarrow>
              let s = (if is_sampling Accelerometer s then
                         let s = fold (\<lambda>i. poke Accelerometer (data + (num + i) * sizeof AccelerometerData) (le_bytes 2 (acceleration (xs ! i)))) [0..<length xs] s;
                             s = poke Accelerometer count [of_nat (num + length xs)] s
                         in if peek Accelerometer count s \<ge> ACCELEROMETER_CHUNK_DATA_SIZE then sampling_finalize_accelerometer_chunk E s else s
                       else s)
              in Some (if is_streaming_source Accelerometer s then fold (\<lambda>x. stream Accelerometer (raw_acceleration x)) xs s else s))"

section \<open>Accelerometer interrupts\<close>

definition sampling_setup_accelerometer_interrupt_chunk :: "'w sampling_env \<Rightarrow> 'w sampling \<Rightarrow> 'w sampling" where
  "sampling_setup_accelerometer_interrupt_chunk E s = env (accel_reset_interrupt E) (snd (open_chunk Accelerometer_Interrupt s))"

definition sampling_finalize_accelerometer_interrupt_chunk :: "'w sampling \<Rightarrow> 'w sampling" where
  "sampling_finalize_accelerometer_interrupt_chunk s = sched (Process_Chunk Accelerometer_Interrupt) (close_chunk Accelerometer_Interrupt s)"

definition sampling_start_accelerometer_interrupt :: "'w sampling_env \<Rightarrow> nat \<Rightarrow> nat \<Rightarrow> nat \<Rightarrow> nat \<Rightarrow> bool \<Rightarrow> 'w sampling \<Rightarrow> ret_code \<times> 'w sampling" where
  "sampling_start_accelerometer_interrupt E timeout_ms threshold_mg minimal_duration_ms ignore_duration_ms streaming s =
     and_then (if \<not> is_sampling Accelerometer s \<and> \<not> is_streaming_source Accelerometer s
               then and_then (env_op (accel_set_full_scale E 1) s) (\<lambda>s.
                    and_then (env_op (accel_set_datarate E 2) s) (env_op (accel_set_operating_mode E 1)))
               else (NRF_SUCCESS, s)) (\<lambda>s.
     and_then (env_op (accel_set_motion_interrupt_parameters E threshold_mg minimal_duration_ms) s) (\<lambda>s.
     and_then (env_op (accel_set_interrupt E True) (env (accel_set_interrupt_handler E) s)) (\<lambda>s.
     let s = s\<lparr>accelerometer_interrupt_ignore_duration_ms := ignore_duration_ms\<rparr> in
     (NRF_SUCCESS,
      if \<not> streaming then
        let s = set_configuration_flag (SAMPLING Accelerometer_Interrupt) True (sampling_setup_accelerometer_interrupt_chunk E s);
            s = env (set_enabled_flag E Accelerometer_Interrupt True) s
        in env (source_timeout_start E (timeout_id s Accelerometer_Interrupt) timeout_ms) s
      else
        let s = set_configuration_flag (STREAMING Accelerometer_Interrupt) True s
        in env (source_timeout_start E (stream_timeout_id s Accelerometer_Interrupt) timeout_ms) s))))"

definition sampling_stop_accelerometer_interrupt :: "'w sampling_env \<Rightarrow> bool \<Rightarrow> 'w sampling \<Rightarrow> ret_code \<times> 'w sampling" where
  "sampling_stop_accelerometer_interrupt E streaming s =
     stop_sampling E Accelerometer_Interrupt (\<lambda>s. and_then (env_op (accel_set_interrupt E False) s) (power_down E Accelerometer)) streaming s"

definition sampling_timeout_accelerometer_interrupt :: "'w sampling_env \<Rightarrow> 'w sampling \<Rightarrow> 'w sampling" where
  "sampling_timeout_accelerometer_interrupt E s = snd (sampling_stop_accelerometer_interrupt E False s)"

definition sampling_timeout_accelerometer_interrupt_stream :: "'w sampling_env \<Rightarrow> 'w sampling \<Rightarrow> 'w sampling" where
  "sampling_timeout_accelerometer_interrupt_stream E s = snd (sampling_stop_accelerometer_interrupt E True s)"

definition sampling_accelerometer_interrupt_reset_callback :: "'w sampling \<Rightarrow> 'w sampling" where
  "sampling_accelerometer_interrupt_reset_callback s = sched Setup_Accelerometer_Interrupt_Chunk s"

definition sampling_accelerometer_interrupt_callback :: "'w sampling_env \<Rightarrow> 'w sampling \<Rightarrow> 'w sampling option" where
  "sampling_accelerometer_interrupt_callback E s =
     (if \<not> is_sampling Accelerometer_Interrupt s \<and> \<not> is_streaming_source Accelerometer_Interrupt s then Some s
      else
        case (if is_sampling Accelerometer_Interrupt s
              then map_option (\<lambda>p. sampling_finalize_accelerometer_interrupt_chunk (poke_timestamp E Accelerometer_Interrupt (p + tb_offsetof AccelerometerInterruptChunk 0) s))
                     (chunk_ptr s Accelerometer_Interrupt)
              else Some s) of
          None \<Rightarrow> None
        | Some s \<Rightarrow>
            let s = (if is_streaming_source Accelerometer_Interrupt s
                     then (case env_op (timestamp_now E) s of ((seconds, ms), s) \<Rightarrow>
                           stream Accelerometer_Interrupt (le_bytes 4 seconds @ le_bytes 2 ms @ [padding E, padding E]) s)
                     else s)
            in Some (snd (env_op (timer_start E Interrupt_Reset_Timer (app_timer_ticks E (accelerometer_interrupt_ignore_duration_ms s))) s)))"

section \<open>Battery\<close>

definition sampling_setup_battery_chunk :: "'w sampling \<Rightarrow> 'w sampling" where
  "sampling_setup_battery_chunk s = snd (open_chunk Battery s)"

definition sampling_finalize_battery_chunk :: "'w sampling \<Rightarrow> 'w sampling" where
  "sampling_finalize_battery_chunk s = sched (Process_Chunk Battery) (sampling_setup_battery_chunk (close_chunk Battery s))"

definition sampling_start_battery :: "'w sampling_env \<Rightarrow> nat \<Rightarrow> nat \<Rightarrow> bool \<Rightarrow> 'w sampling \<Rightarrow> ret_code \<times> 'w sampling" where
  "sampling_start_battery E timeout_ms period_ms streaming s =
     (let p = battery_parameters s;
          parameters_changed = ((battery_timeout_ms p \<noteq> timeout_ms \<and> \<not> streaming) \<or> battery_period_ms p \<noteq> period_ms);
          p = \<lparr>battery_timeout_ms = (if \<not> streaming then timeout_ms else battery_timeout_ms p),
               battery_stream_timeout_ms = (if streaming then timeout_ms else battery_stream_timeout_ms p), battery_period_ms = period_ms\<rparr>
      in start_sampling E Battery sampling_setup_battery_chunk [(Battery_Timer, app_timer_ticks E period_ms)]
           timeout_ms parameters_changed streaming (s\<lparr>battery_parameters := p\<rparr>))"

definition sampling_stop_battery :: "'w sampling_env \<Rightarrow> bool \<Rightarrow> 'w sampling \<Rightarrow> 'w sampling" where
  "sampling_stop_battery E streaming s = snd (stop_sampling E Battery (\<lambda>s. (NRF_SUCCESS, stop_timers E [Battery_Timer] s)) streaming s)"

definition sampling_timeout_battery :: "'w sampling_env \<Rightarrow> 'w sampling \<Rightarrow> 'w sampling" where
  "sampling_timeout_battery E s = sampling_stop_battery E False s"

definition sampling_timeout_battery_stream :: "'w sampling_env \<Rightarrow> 'w sampling \<Rightarrow> 'w sampling" where
  "sampling_timeout_battery_stream E s = sampling_stop_battery E True s"

definition sampling_battery_callback :: "'w sampling_env \<Rightarrow> 'w sampling \<Rightarrow> 'w sampling option" where
  "sampling_battery_callback E s =
     (if \<not> is_sampling Battery s \<and> \<not> is_streaming_source Battery s then Some s
      else
        case env_op (battery_voltage E) s of (voltage, s) \<Rightarrow>
        case (if is_sampling Battery s
              then map_option (\<lambda>p. sampling_finalize_battery_chunk (poke Battery (p + tb_offsetof BatteryChunk 1) voltage
                     (poke_timestamp E Battery (p + tb_offsetof BatteryChunk 0) s))) (chunk_ptr s Battery)
              else Some s) of
          None \<Rightarrow> None
        | Some s \<Rightarrow> Some (if is_streaming_source Battery s then stream Battery voltage s else s))"

section \<open>Microphone\<close>

definition sampling_setup_microphone_chunk :: "'w sampling_env \<Rightarrow> 'w sampling \<Rightarrow> 'w sampling" where
  "sampling_setup_microphone_chunk E s =
     (case open_chunk Microphone (s\<lparr>microphone_aggregated := 0, microphone_aggregated_count := 0\<rparr>) of (p, s) \<Rightarrow>
      poke Microphone (p + tb_offsetof MicrophoneChunk 2) [0]
        (poke Microphone (p + tb_offsetof MicrophoneChunk 1) (le_bytes 2 (microphone_period_ms (microphone_parameters s)))
          (poke_timestamp E Microphone (p + tb_offsetof MicrophoneChunk 0) s)))"

definition sampling_finalize_microphone_chunk :: "'w sampling_env \<Rightarrow> 'w sampling \<Rightarrow> 'w sampling" where
  "sampling_finalize_microphone_chunk E s =
     sched (Process_Chunk Microphone) (sampling_setup_microphone_chunk E (close_chunk Microphone s))"

definition microphone_timers :: "'w sampling_env \<Rightarrow> nat \<Rightarrow> (sampling_timer \<times> nat) list" where
  "microphone_timers E period_ms = [(Microphone_Timer, app_timer_ticks E period_ms), (Microphone_Aggregated_Timer, aggregated_period_ticks E)]"

definition sampling_start_microphone :: "'w sampling_env \<Rightarrow> nat \<Rightarrow> nat \<Rightarrow> bool \<Rightarrow> 'w sampling \<Rightarrow> ret_code \<times> 'w sampling" where
  "sampling_start_microphone E timeout_ms period_ms streaming s =
     (let p = microphone_parameters s;
          parameters_changed = ((microphone_timeout_ms p \<noteq> timeout_ms \<and> \<not> streaming) \<or> microphone_period_ms p \<noteq> period_ms);
          p = \<lparr>microphone_timeout_ms = (if \<not> streaming then timeout_ms else microphone_timeout_ms p),
               microphone_stream_timeout_ms = (if streaming then timeout_ms else microphone_stream_timeout_ms p), microphone_period_ms = period_ms\<rparr>
      in start_sampling E Microphone (sampling_setup_microphone_chunk E) (microphone_timers E period_ms)
           timeout_ms parameters_changed streaming (s\<lparr>microphone_parameters := p\<rparr>))"

definition sampling_stop_microphone :: "'w sampling_env \<Rightarrow> bool \<Rightarrow> 'w sampling \<Rightarrow> 'w sampling" where
  "sampling_stop_microphone E streaming s =
     snd (stop_sampling E Microphone (\<lambda>s. (NRF_SUCCESS, stop_timers E [Microphone_Timer, Microphone_Aggregated_Timer] s)) streaming s)"

definition sampling_timeout_microphone :: "'w sampling_env \<Rightarrow> 'w sampling \<Rightarrow> 'w sampling" where
  "sampling_timeout_microphone E s = sampling_stop_microphone E False s"

definition sampling_timeout_microphone_stream :: "'w sampling_env \<Rightarrow> 'w sampling \<Rightarrow> 'w sampling" where
  "sampling_timeout_microphone_stream E s = sampling_stop_microphone E True s"

text \<open>The average; \<open>None\<close> is a division by zero, or an access through \<open>NULL\<close>.\<close>

definition sampling_microphone_callback :: "'w sampling_env \<Rightarrow> 'w sampling \<Rightarrow> 'w sampling option" where
  "sampling_microphone_callback E s =
     (if microphone_aggregated_count s = 0 then Some s
      else if microphone_aggregated_count s div 2 = 0 then None
      else
        let tmp = microphone_aggregated s div (microphone_aggregated_count s div 2);
            value = (if tmp > 255 then 255 else tmp);
            s = s\<lparr>microphone_aggregated := 0, microphone_aggregated_count := 0\<rparr>
        in case (if is_sampling Microphone s
                 then map_option (\<lambda>p.
                   let count = p + tb_offsetof MicrophoneChunk 2;
                       s = poke Microphone (p + tb_offsetof MicrophoneChunk 3 + peek Microphone count s * sizeof MicrophoneData) [of_nat value] s;
                       s = poke Microphone count [of_nat (peek Microphone count s + 1)] s
                   in if peek Microphone count s \<ge> MICROPHONE_CHUNK_DATA_SIZE then sampling_finalize_microphone_chunk E s else s)
                   (chunk_ptr s Microphone)
                 else Some s) of
             None \<Rightarrow> None
           | Some s \<Rightarrow> Some (if is_streaming_source Microphone s then stream Microphone [of_nat value] s else s))"

text \<open>The reading loop; \<open>None\<close> where the clock never reaches the end of the window.\<close>

partial_function (option) aggregate_loop :: "'w sampling_env \<Rightarrow> nat \<Rightarrow> 'w sampling \<Rightarrow> 'w sampling option" where
  "aggregate_loop E end_ticks s =
     (case env_op (ticks_now E) s of (now, s) \<Rightarrow>
      if end_ticks > now then
        (case env_op (microphone_read E) s of
           (Inl _, s) \<Rightarrow> aggregate_loop E end_ticks s
         | (Inr v, s) \<Rightarrow> aggregate_loop E end_ticks
             (s\<lparr>microphone_aggregated := u32_add (microphone_aggregated s) (unat v), microphone_aggregated_count := u32_add (microphone_aggregated_count s) 1\<rparr>))
      else Some s)"

definition sampling_microphone_aggregated_callback :: "'w sampling_env \<Rightarrow> 'w sampling \<Rightarrow> 'w sampling option" where
  "sampling_microphone_aggregated_callback E s =
     (case env_op (ticks_now E) s of (now, s) \<Rightarrow> aggregate_loop E (u64_add now (reading_window_ticks E)) s)"

section \<open>Scan\<close>

record scanner_scan_report =
  report_ID :: nat
  report_group :: nat
  report_rssi :: int

definition sampling_setup_scan_sampling_chunk :: "'w sampling_env \<Rightarrow> 'w sampling \<Rightarrow> 'w sampling" where
  "sampling_setup_scan_sampling_chunk E s =
     (case open_chunk Scan s of (p, s) \<Rightarrow>
      poke Scan (p + tb_offsetof ScanSamplingChunk 1) [0] (poke_timestamp E Scan (p + tb_offsetof ScanSamplingChunk 0) s))"

definition sampling_start_scan ::
  "'w sampling_env \<Rightarrow> nat \<Rightarrow> nat \<Rightarrow> nat \<Rightarrow> nat \<Rightarrow> nat \<Rightarrow> nat \<Rightarrow> nat \<Rightarrow> bool \<Rightarrow> 'w sampling \<Rightarrow> ret_code \<times> 'w sampling" where
  "sampling_start_scan E timeout_ms period_seconds interval_ms window_ms duration_seconds group_filter aggregation_type streaming s =
     (let p = scan_parameters s;
          parameters_changed = ((timeout_ms \<noteq> scan_timeout_ms p \<and> \<not> streaming) \<or> period_seconds \<noteq> scan_period_seconds p \<or> interval_ms \<noteq> scan_interval_ms p
            \<or> window_ms \<noteq> scan_window_ms p \<or> duration_seconds \<noteq> scan_duration_seconds p \<or> group_filter \<noteq> scan_group_filter p
            \<or> aggregation_type \<noteq> scan_aggregation_type p);
          p = \<lparr>scan_timeout_ms = (if \<not> streaming then timeout_ms else scan_timeout_ms p),
               scan_stream_timeout_ms = (if \<not> streaming then timeout_ms else scan_stream_timeout_ms p),
               scan_period_seconds = period_seconds, scan_interval_ms = interval_ms, scan_window_ms = window_ms,
               scan_duration_seconds = duration_seconds, scan_group_filter = group_filter, scan_aggregation_type = aggregation_type\<rparr>
      in start_sampling E Scan id [(Scan_Timer, app_timer_ticks E (u32_mul period_seconds 1000))]
           timeout_ms parameters_changed streaming (s\<lparr>scan_parameters := p\<rparr>))"

definition sampling_stop_scan :: "'w sampling_env \<Rightarrow> bool \<Rightarrow> 'w sampling \<Rightarrow> 'w sampling" where
  "sampling_stop_scan E streaming s =
     snd (stop_sampling E Scan (\<lambda>s. (NRF_SUCCESS, env (scanner_stop_scanning E) (stop_timers E [Scan_Timer] s))) streaming s)"

definition sampling_timeout_scan :: "'w sampling_env \<Rightarrow> 'w sampling \<Rightarrow> 'w sampling" where
  "sampling_timeout_scan E s = sampling_stop_scan E False s"

definition sampling_timeout_scan_stream :: "'w sampling_env \<Rightarrow> 'w sampling \<Rightarrow> 'w sampling" where
  "sampling_timeout_scan_stream E s = sampling_stop_scan E True s"

text \<open>The results of the open chunk: device, strength and count of the result with an index, in the chunk at an offset.\<close>

definition scan_result_at :: "nat \<Rightarrow> nat \<Rightarrow> nat" where
  "scan_result_at p i = p + tb_offsetof ScanSamplingChunk 2 + i * sizeof ScanResultData"

definition result_ID :: "nat \<Rightarrow> nat \<Rightarrow> 'w sampling \<Rightarrow> nat" where
  "result_ID p i s = peek Scan (scan_result_at p i + tb_offsetof ScanDevice 0) s + 256 * peek Scan (scan_result_at p i + tb_offsetof ScanDevice 0 + 1) s"

definition result_count :: "nat \<Rightarrow> nat \<Rightarrow> 'w sampling \<Rightarrow> nat" where
  "result_count p i s = peek Scan (scan_result_at p i + tb_offsetof ScanResultData 1) s"

definition aggregate_rssi :: "nat \<Rightarrow> int \<Rightarrow> int \<Rightarrow> int" where
  "aggregate_rssi aggregation_type aggregated rssi =
     (if aggregation_type = SCAN_CHUNK_AGGREGATE_TYPE_MAX then (if aggregated > rssi then aggregated else rssi) else aggregated + rssi)"

definition process_rssi :: "nat \<Rightarrow> int \<Rightarrow> nat \<Rightarrow> int" where
  "process_rssi aggregation_type aggregated count = (if aggregation_type = SCAN_CHUNK_AGGREGATE_TYPE_MAX then aggregated else aggregated sdiv int count)"

definition add_report :: "scanner_scan_report \<Rightarrow> nat \<Rightarrow> 'w sampling \<Rightarrow> 'w sampling" where
  "add_report r p s =
     (let n = peek Scan (p + tb_offsetof ScanSamplingChunk 1) s in
      case List.find (\<lambda>i. result_ID p i s = report_ID r) [0..<n] of
        Some i \<Rightarrow>
          if result_count p i s < 255
          then poke Scan (scan_result_at p i + tb_offsetof ScanResultData 1) [of_nat (result_count p i s + 1)]
                 (s\<lparr>scan_aggregated_rssi := (scan_aggregated_rssi s)[i := aggregate_rssi (scan_aggregation_type (scan_parameters s)) (scan_aggregated_rssi s ! i) (report_rssi r)]\<rparr>)
          else s
      | None \<Rightarrow>
          if n < SCAN_SAMPLING_CHUNK_DATA_SIZE then
            let s = s\<lparr>scan_aggregated_rssi := (scan_aggregated_rssi s)[n := report_rssi r]\<rparr>;
                s = poke Scan (scan_result_at p n + tb_offsetof ScanDevice 0) (le_bytes 2 (report_ID r)) s;
                s = poke Scan (scan_result_at p n + tb_offsetof ScanDevice 1) [0] s;
                s = poke Scan (scan_result_at p n + tb_offsetof ScanResultData 1) [1] s
            in poke Scan (p + tb_offsetof ScanSamplingChunk 1) [of_nat (n + 1)] s
          else s)"

definition sampling_on_scan_report_callback :: "'w sampling_env \<Rightarrow> scanner_scan_report \<Rightarrow> 'w sampling \<Rightarrow> 'w sampling option" where
  "sampling_on_scan_report_callback E r s =
     (if report_group r \<noteq> scan_group_filter (scan_parameters s) then Some s
      else
        case (if is_sampling Scan s then map_option (\<lambda>p. add_report r p s) (chunk_ptr s Scan) else Some s) of
          None \<Rightarrow> None
        | Some s \<Rightarrow> Some (if is_streaming_source Scan s
            then stream Scan (le_bytes 2 (report_ID r) @ [word_of_int (report_rssi r), padding E]) s else s))"

definition finish_result :: "nat \<Rightarrow> nat \<Rightarrow> 'w sampling \<Rightarrow> 'w sampling" where
  "finish_result p i s = poke Scan (scan_result_at p i + tb_offsetof ScanDevice 1)
     [word_of_int (process_rssi (scan_aggregation_type (scan_parameters s)) (scan_aggregated_rssi s ! i) (result_count p i s))] s"

definition sampling_finalize_scan_sampling_chunk :: "'w sampling \<Rightarrow> 'w sampling option" where
  "sampling_finalize_scan_sampling_chunk s =
     map_option (\<lambda>p. sched (Process_Chunk Scan) (close_chunk Scan (fold (finish_result p) [0..<peek Scan (p + tb_offsetof ScanSamplingChunk 1) s] s)))
       (chunk_ptr s Scan)"

definition sampling_on_scan_timeout_callback :: "'w sampling \<Rightarrow> 'w sampling option" where
  "sampling_on_scan_timeout_callback s = (if is_sampling Scan s then sampling_finalize_scan_sampling_chunk s else Some s)"

definition sampling_scan_callback :: "'w sampling_env \<Rightarrow> 'w sampling \<Rightarrow> 'w sampling option" where
  "sampling_scan_callback E s =
     (let s = (if is_sampling Scan s then sampling_setup_scan_sampling_chunk E s else s); p = scan_parameters s in
      case env_op (scanner_start_scanning E (scan_interval_ms p) (scan_window_ms p) (scan_duration_seconds p)) s of (ret, s) \<Rightarrow>
      if ret \<noteq> NRF_SUCCESS then sampling_on_scan_timeout_callback s else Some s)"

end
