(* ===== verification/Sampling_Timers.thy ===== *)
theory Sampling_Timers
  imports Sampling
begin

text \<open>
  The timers and flags of the sampling module over all sequences of calls and interrupts, and what a failed start of a timer leads to.
\<close>

section \<open>The world of the sampling module\<close>

text \<open>\<open>running\<close> tells which timers run and \<open>enabled\<close> which sources are advertised; most operations change neither.\<close>

definition silent :: "(sampling_timer \<Rightarrow> 'w \<Rightarrow> bool) \<Rightarrow> (source \<Rightarrow> 'w \<Rightarrow> bool) \<Rightarrow> ('w \<Rightarrow> 'w) \<Rightarrow> bool" where
  "silent running enabled g \<longleftrightarrow> (\<forall>w t src. running t (g w) = running t w \<and> enabled src (g w) = enabled src w)"

locale sampling_world =
  fixes E :: "'w sampling_env" and running :: "sampling_timer \<Rightarrow> 'w \<Rightarrow> bool" and enabled :: "source \<Rightarrow> 'w \<Rightarrow> bool"
  assumes start_law: "timer_start E t n w = (r, w') \<Longrightarrow> running u w' = (running u w \<or> u = t \<and> r = NRF_SUCCESS)"
      "timer_start E t n w = (r, w') \<Longrightarrow> enabled src w' = enabled src w"
    and stop_law: "running u (timer_stop E t w) = (running u w \<and> u \<noteq> t)" "enabled src (timer_stop E t w) = enabled src w"
    and flag_law: "enabled a (set_enabled_flag E b v w) = (if a = b then v else enabled a w)" "running u (set_enabled_flag E b v w) = running u w"
    and silent_laws: "silent running enabled (snd \<circ> accel_init E)" "silent running enabled (snd \<circ> accel_set_axis E k)" "silent running enabled (snd \<circ> accel_set_fifo E v)"
      "silent running enabled (snd \<circ> accel_set_HP_filter E v)" "silent running enabled (snd \<circ> accel_set_full_scale E k)" "silent running enabled (snd \<circ> accel_set_datarate E k)"
      "silent running enabled (snd \<circ> accel_set_operating_mode E k)" "silent running enabled (snd \<circ> accel_set_motion_interrupt_parameters E k l)"
      "silent running enabled (accel_set_interrupt_handler E)" "silent running enabled (snd \<circ> accel_set_interrupt E v)" "silent running enabled (accel_reset_interrupt E)"
      "silent running enabled (snd \<circ> accel_read_acceleration E k)" "silent running enabled (snd \<circ> battery_init E)" "silent running enabled (snd \<circ> battery_voltage E)"
      "silent running enabled (microphone_init E)" "silent running enabled (snd \<circ> microphone_read E)" "silent running enabled (scanner_init E)"
      "silent running enabled (scanner_set_callbacks E)" "silent running enabled (snd \<circ> scanner_start_scanning E k l m)" "silent running enabled (scanner_stop_scanning E)"
      "silent running enabled (snd \<circ> timer_create E t v)" "silent running enabled (snd \<circ> source_timeout_register E src v)" "silent running enabled (source_timeout_start E k l)"
      "silent running enabled (source_timeout_reset E k)" "silent running enabled (snd \<circ> ticks_now E)" "silent running enabled (snd \<circ> timestamp_now E)"

section \<open>Calls and interrupts\<close>

fun timers_of :: "source \<Rightarrow> sampling_timer list" where
  "timers_of Accelerometer = [Accelerometer_Fifo_Timer]"
| "timers_of Accelerometer_Interrupt = []"
| "timers_of Battery = [Battery_Timer]"
| "timers_of Microphone = [Microphone_Timer, Microphone_Aggregated_Timer]"
| "timers_of Scan = [Scan_Timer]"

datatype sampling_call =
    Start_Accelerometer nat nat nat nat nat bool
  | Start_Accelerometer_Interrupt nat nat nat nat bool
  | Start_Battery nat nat bool
  | Start_Microphone nat nat bool
  | Start_Scan nat nat nat nat nat nat nat bool
  | Stop source bool

fun do_call :: "'w sampling_env \<Rightarrow> sampling_call \<Rightarrow> 'w sampling \<Rightarrow> ret_code \<times> 'w sampling" where
  "do_call E (Start_Accelerometer a b c d e v) s = sampling_start_accelerometer E a b c d e v s"
| "do_call E (Start_Accelerometer_Interrupt a b c d v) s = sampling_start_accelerometer_interrupt E a b c d v s"
| "do_call E (Start_Battery a b v) s = sampling_start_battery E a b v s"
| "do_call E (Start_Microphone a b v) s = sampling_start_microphone E a b v s"
| "do_call E (Start_Scan a b c d e f g v) s = sampling_start_scan E a b c d e f g v s"
| "do_call E (Stop Accelerometer v) s = sampling_stop_accelerometer E v s"
| "do_call E (Stop Accelerometer_Interrupt v) s = sampling_stop_accelerometer_interrupt E v s"
| "do_call E (Stop Battery v) s = (NRF_SUCCESS, sampling_stop_battery E v s)"
| "do_call E (Stop Microphone v) s = (NRF_SUCCESS, sampling_stop_microphone E v s)"
| "do_call E (Stop Scan v) s = (NRF_SUCCESS, sampling_stop_scan E v s)"

datatype sampling_interrupt = Fifo_Callback | Motion_Interrupt | Reset_Callback | Setup_Interrupt_Chunk | Battery_Callback | Microphone_Callback
  | Aggregated_Callback | Scan_Callback | Scan_Timeout | Scan_Report scanner_scan_report

fun do_interrupt :: "'w sampling_env \<Rightarrow> sampling_interrupt \<Rightarrow> 'w sampling \<Rightarrow> 'w sampling option" where
  "do_interrupt E Fifo_Callback s = sampling_accelerometer_fifo_callback E s"
| "do_interrupt E Motion_Interrupt s = sampling_accelerometer_interrupt_callback E s"
| "do_interrupt E Reset_Callback s = Some (sampling_accelerometer_interrupt_reset_callback s)"
| "do_interrupt E Setup_Interrupt_Chunk s = Some (sampling_setup_accelerometer_interrupt_chunk E s)"
| "do_interrupt E Battery_Callback s = sampling_battery_callback E s"
| "do_interrupt E Microphone_Callback s = sampling_microphone_callback E s"
| "do_interrupt E Aggregated_Callback s = sampling_microphone_aggregated_callback E s"
| "do_interrupt E Scan_Callback s = sampling_scan_callback E s"
| "do_interrupt E Scan_Timeout s = sampling_on_scan_timeout_callback s"
| "do_interrupt E (Scan_Report r) s = sampling_on_scan_report_callback E r s"

text \<open>The states after the initialisation, calls that succeeded, interrupts and readers of the FIFOs.\<close>

inductive sampling_run :: "'w sampling_env \<Rightarrow> (sampling_timer \<Rightarrow> 'w \<Rightarrow> bool) \<Rightarrow> (source \<Rightarrow> 'w \<Rightarrow> bool) \<Rightarrow> 'w sampling \<Rightarrow> bool"
  for E :: "'w sampling_env" and running and enabled where
  run_init: "(\<And>t. \<not> running t (sworld s0)) \<Longrightarrow> (\<And>src. \<not> enabled src (sworld s0)) \<Longrightarrow> sampling_init E s0 = (NRF_SUCCESS, s) \<Longrightarrow> sampling_run E running enabled s"
| run_call: "sampling_run E running enabled s \<Longrightarrow> do_call E c s = (NRF_SUCCESS, s') \<Longrightarrow> sampling_run E running enabled s'"
| run_interrupt: "sampling_run E running enabled s \<Longrightarrow> do_interrupt E i s = Some s' \<Longrightarrow> sampling_run E running enabled s'"
| run_reset: "sampling_run E running enabled s \<Longrightarrow> sampling_run E running enabled (sampling_reset_timeouts E s)"
| run_reader: "sampling_run E running enabled s \<Longrightarrow> sampling_run E running enabled (s\<lparr>chunk_fifos := f, stream_fifos := g, sampling_events := q\<rparr>)"

definition timers_match :: "(sampling_timer \<Rightarrow> 'w \<Rightarrow> bool) \<Rightarrow> (source \<Rightarrow> 'w \<Rightarrow> bool) \<Rightarrow> 'w sampling \<Rightarrow> bool" where
  "timers_match running enabled s \<longleftrightarrow> (\<forall>src. (\<forall>t \<in> set (timers_of src). running t (sworld s) \<longleftrightarrow> is_sampling src s \<or> is_streaming_source src s)
     \<and> (enabled src (sworld s) \<longleftrightarrow> is_sampling src s))"

text \<open>What leaves configuration, timers and advertised flags alone; the timer for the reset of the interrupt is not one of a source.\<close>

definition kept :: "(sampling_timer \<Rightarrow> 'w \<Rightarrow> bool) \<Rightarrow> (source \<Rightarrow> 'w \<Rightarrow> bool) \<Rightarrow> 'w sampling \<Rightarrow> 'w sampling \<Rightarrow> bool" where
  "kept running enabled s s' \<longleftrightarrow> sampling_configuration s' = sampling_configuration s
     \<and> (\<forall>t. t \<noteq> Interrupt_Reset_Timer \<longrightarrow> running t (sworld s') = running t (sworld s)) \<and> (\<forall>src. enabled src (sworld s') = enabled src (sworld s))"

definition keeps_timers :: "(sampling_timer \<Rightarrow> 'w \<Rightarrow> bool) \<Rightarrow> (source \<Rightarrow> 'w \<Rightarrow> bool) \<Rightarrow> ('w sampling \<Rightarrow> ret_code \<times> 'w sampling) \<Rightarrow> bool" where
  "keeps_timers running enabled f \<longleftrightarrow> (\<forall>s. kept running enabled s (snd (f s)))"

lemma timers_of_facts: "t \<in> set (timers_of a) \<Longrightarrow> t \<in> set (timers_of b) \<Longrightarrow> a = b" "t \<in> set (timers_of a) \<Longrightarrow> t \<noteq> Interrupt_Reset_Timer"
  by (cases a; cases b; auto) (cases a; auto)

lemma kept_refl: "kept running enabled s s"
  by (simp add: kept_def)

lemma kept_trans: "kept running enabled s t \<Longrightarrow> kept running enabled t u \<Longrightarrow> kept running enabled s u"
  by (simp add: kept_def)

lemma kept_match: "kept running enabled s s' \<Longrightarrow> timers_match running enabled s \<Longrightarrow> timers_match running enabled s'"
  using timers_of_facts(2) by (fastforce simp: kept_def timers_match_def is_sampling_def is_streaming_source_def)

lemma flag_bits: "is_sampling a (set_configuration_flag (SAMPLING b) v s) = (if a = b then v else is_sampling a s)" "is_streaming_source a (set_configuration_flag (SAMPLING b) v s) = is_streaming_source a s"
  "is_streaming_source a (set_configuration_flag (STREAMING b) v s) = (if a = b then v else is_streaming_source a s)" "is_sampling a (set_configuration_flag (STREAMING b) v s) = is_sampling a s"
  using flags_distinct(3)[of b a] flags_distinct(3)[of a b, symmetric]
  by (auto simp: is_sampling_def is_streaming_source_def set_configuration_flag_def bit_set_bit_iff bit_unset_bit_iff flags_distinct)

lemma flag_fields: "sworld (set_configuration_flag n v s) = sworld s" "is_sampling a (env g s) = is_sampling a s" "is_streaming_source a (env g s) = is_streaming_source a s" "sworld (env g s) = g (sworld s)"
  by (simp_all add: set_configuration_flag_def env_def is_sampling_def is_streaming_source_def)

lemma same_flags: "sampling_configuration s = sampling_configuration t \<Longrightarrow> is_sampling a s = is_sampling a t" "sampling_configuration s = sampling_configuration t \<Longrightarrow> is_streaming_source a s = is_streaming_source a t"
  by (simp_all add: is_sampling_def is_streaming_source_def)

lemma and_then_success: "and_then r g = (NRF_SUCCESS, s) \<longleftrightarrow> (\<exists>t. r = (NRF_SUCCESS, t) \<and> g t = (NRF_SUCCESS, s))"
  by (cases r) (auto simp: and_then_def)

section \<open>What keeps_timers the timers\<close>

text \<open>Going on after a step that keeps_timers them.\<close>

lemma kept_fields:
  "kept running enabled s t \<Longrightarrow> kept running enabled s (poke src a bs t)" "kept running enabled s t \<Longrightarrow> kept running enabled s (close_chunk src t)"
  "kept running enabled s t \<Longrightarrow> kept running enabled s (sched ev t)" "kept running enabled s t \<Longrightarrow> kept running enabled s (stream src bs t)"
  "kept running enabled s t \<Longrightarrow> kept running enabled s (t\<lparr>scan_aggregated_rssi := l\<rparr>)"
  "kept running enabled s t \<Longrightarrow> kept running enabled s (t\<lparr>microphone_aggregated := m, microphone_aggregated_count := n\<rparr>)"
  "kept running enabled s t \<Longrightarrow> kept running enabled s (snd (open_chunk src t))"
  by (simp_all add: kept_def poke_def close_chunk_def sched_def stream_def open_chunk_def split: prod.split)

lemma kept_open: "kept running enabled s t \<Longrightarrow> open_chunk src t = (p, u) \<Longrightarrow> kept running enabled s u"
  using kept_fields(7)[of running enabled s t src] by simp

lemma kept_fold: "(\<And>x t. kept running enabled s t \<Longrightarrow> kept running enabled s (f x t)) \<Longrightarrow> kept running enabled s t \<Longrightarrow> kept running enabled s (fold f xs t)"
  by (induction xs arbitrary: t) auto

context sampling_world
begin

lemma kept_env: "silent running enabled g \<Longrightarrow> kept running enabled s t \<Longrightarrow> kept running enabled s (env g t)"
  by (simp add: kept_def env_def silent_def)

lemma kept_env_op: "silent running enabled (snd \<circ> g) \<Longrightarrow> kept running enabled s t \<Longrightarrow> env_op g t = (x, u) \<Longrightarrow> kept running enabled s u"
  by (auto simp: kept_def env_op_def silent_def split: prod.splits) (metis snd_conv)+

lemma kept_timestamp: "kept running enabled s t \<Longrightarrow> kept running enabled s (poke_timestamp E src a t)"
  unfolding poke_timestamp_def by (auto split: prod.split intro!: kept_fields dest: kept_env_op[OF silent_laws(26)])

lemmas kept_intros = kept_fields kept_timestamp kept_env kept_fold silent_laws

lemma kept_setup:
  "kept running enabled s t \<Longrightarrow> kept running enabled s (sampling_setup_accelerometer_chunk E t)"
  "kept running enabled s t \<Longrightarrow> kept running enabled s (sampling_setup_accelerometer_interrupt_chunk E t)"
  "kept running enabled s t \<Longrightarrow> kept running enabled s (sampling_setup_battery_chunk t)"
  "kept running enabled s t \<Longrightarrow> kept running enabled s (sampling_setup_microphone_chunk E t)"
  "kept running enabled s t \<Longrightarrow> kept running enabled s (sampling_setup_scan_sampling_chunk E t)"
  unfolding sampling_setup_accelerometer_chunk_def sampling_setup_accelerometer_interrupt_chunk_def sampling_setup_battery_chunk_def
    sampling_setup_microphone_chunk_def sampling_setup_scan_sampling_chunk_def
  by (auto split: prod.split intro!: kept_intros dest: kept_open[rotated] dest!: kept_open[OF kept_fields(6), rotated])

lemma kept_finalize:
  "kept running enabled s t \<Longrightarrow> kept running enabled s (sampling_finalize_accelerometer_chunk E t)"
  "kept running enabled s t \<Longrightarrow> kept running enabled s (sampling_finalize_accelerometer_interrupt_chunk t)"
  "kept running enabled s t \<Longrightarrow> kept running enabled s (sampling_finalize_battery_chunk t)"
  "kept running enabled s t \<Longrightarrow> kept running enabled s (sampling_finalize_microphone_chunk E t)"
  "kept running enabled s t \<Longrightarrow> sampling_finalize_scan_sampling_chunk t = Some u \<Longrightarrow> kept running enabled s u"
  unfolding sampling_finalize_accelerometer_chunk_def sampling_finalize_accelerometer_interrupt_chunk_def sampling_finalize_battery_chunk_def
    sampling_finalize_microphone_chunk_def sampling_finalize_scan_sampling_chunk_def finish_result_def
  by (auto intro!: kept_fields kept_fold kept_setup)

lemma kept_if: "kept running enabled s t \<Longrightarrow> kept running enabled s u \<Longrightarrow> kept running enabled s (if c then t else u)"
  by simp

lemma kept_fifo_callback:
  assumes "sampling_accelerometer_fifo_callback E s = Some s'"
  shows "kept running enabled s s'"
proof (cases "\<not> is_sampling Accelerometer s \<and> \<not> is_streaming_source Accelerometer s")
  case True
  then show ?thesis using assms by (simp add: sampling_accelerometer_fifo_callback_def kept_refl)
next
  case False
  then obtain p where p: "chunk_ptr s Accelerometer = Some p"
    using assms by (auto simp: sampling_accelerometer_fifo_callback_def split: option.splits)
  define n where "n = u32_sub ACCELEROMETER_CHUNK_DATA_SIZE (peek Accelerometer (p + tb_offsetof AccelerometerChunk 1) s)"
  obtain r t where t: "env_op (accel_read_acceleration E n) s = (r, t)" by fastforce
  have k: "kept running enabled s t" by (rule kept_env_op[OF silent_laws(12) kept_refl t])
  show ?thesis
  proof (cases r)
    case (Inl e)
    then show ?thesis using assms False p t k by (simp add: sampling_accelerometer_fifo_callback_def n_def Let_def)
  next
    case (Inr xs)
    note s' = assms[unfolded sampling_accelerometer_fifo_callback_def Let_def if_not_P[OF False] p option.case n_def[symmetric] t Inr prod.case sum.case option.inject, symmetric]
    show ?thesis unfolding s' by (intro kept_if kept_fold kept_fields kept_finalize(1) k) assumption+
  qed
qed

lemma kept_interrupt_callback:
  assumes "sampling_accelerometer_interrupt_callback E s = Some s'"
  shows "kept running enabled s s'"
proof -
  have timer: "kept running enabled s (snd (env_op (timer_start E Interrupt_Reset_Timer n) t))" if "kept running enabled s t" for n t
    using that start_law by (auto simp: kept_def env_op_def split: prod.split)
  have fin: "kept running enabled s (sampling_finalize_accelerometer_interrupt_chunk (poke_timestamp E Accelerometer_Interrupt a s))" for a
    by (intro kept_finalize(2) kept_timestamp kept_refl)
  have str: "kept running enabled s (case env_op (timestamp_now E) t of ((seconds, ms), t) \<Rightarrow> stream Accelerometer_Interrupt (b seconds ms) t)"
    if "kept running enabled s t" for t b
  proof -
    obtain sec ms u where u: "env_op (timestamp_now E) t = ((sec, ms), u)" by (metis surj_pair)
    show ?thesis using kept_fields(4)[OF kept_env_op[OF silent_laws(26) that u]] by (simp add: u)
  qed
  define t where "t = (if is_sampling Accelerometer_Interrupt s
              then map_option (\<lambda>p. sampling_finalize_accelerometer_interrupt_chunk (poke_timestamp E Accelerometer_Interrupt (p + tb_offsetof AccelerometerInterruptChunk 0) s))
                     (chunk_ptr s Accelerometer_Interrupt)
              else Some s)"
  have t: "kept running enabled s u" if "t = Some u" for u using that fin by (auto simp: t_def kept_refl split: if_splits)
  show ?thesis
  proof (cases t)
    case None
    then show ?thesis using assms by (simp add: sampling_accelerometer_interrupt_callback_def t_def[symmetric] kept_refl split: if_splits)
  next
    case (Some u)
    show ?thesis using assms timer[OF str[OF t[OF Some]]] timer[OF t[OF Some]]
      by (auto simp: sampling_accelerometer_interrupt_callback_def t_def[symmetric] Some kept_refl Let_def split: if_splits)
  qed
qed

lemma kept_battery_callback: "sampling_battery_callback E s = Some s' \<Longrightarrow> kept running enabled s s'"
  unfolding sampling_battery_callback_def Let_def
  by (auto split: if_splits option.splits prod.splits intro!: kept_fields kept_finalize(3) kept_timestamp kept_refl
      dest!: kept_env_op[OF silent_laws(14) kept_refl])

lemma kept_microphone_callback: "sampling_microphone_callback E s = Some s' \<Longrightarrow> kept running enabled s s'"
  unfolding sampling_microphone_callback_def Let_def
  by (auto split: if_splits option.splits intro!: kept_fields kept_finalize(4) kept_refl)

lemma kept_aggregate_loop:
  assumes "aggregate_loop E n t = Some u" and "kept running enabled s t"
  shows "kept running enabled s u"
proof -
  have "E' = E \<longrightarrow> kept running enabled s t' \<longrightarrow> kept running enabled s u'" if "aggregate_loop E' n' t' = Some u'" for E' n' t' u'
  proof (rule aggregate_loop.raw_induct[where P = "\<lambda>E' n' t' u'. E' = E \<longrightarrow> kept running enabled s t' \<longrightarrow> kept running enabled s u'", OF _ that], intro impI)
    fix loop F m a c
    assume IH: "\<And>F m a c. loop F m a = Some c \<Longrightarrow> F = E \<longrightarrow> kept running enabled s a \<longrightarrow> kept running enabled s c" and F: "F = E" and k: "kept running enabled s a"
      and step: "(case env_op (ticks_now F) a of (now, a) \<Rightarrow> if now < m then (case env_op (microphone_read F) a of (Inl x, a) \<Rightarrow> loop F m a
        | (Inr v, a) \<Rightarrow> loop F m (a\<lparr>microphone_aggregated := u32_add (microphone_aggregated a) (unat v), microphone_aggregated_count := u32_add (microphone_aggregated_count a) 1\<rparr>))
        else Some a) = Some c"
    obtain now v where v: "env_op (ticks_now E) a = (now, v)" by fastforce
    obtain r x where x: "env_op (microphone_read E) v = (r, x)" by fastforce
    have kv: "kept running enabled s v" by (rule kept_env_op[OF silent_laws(25) k v])
    have kx: "kept running enabled s x" by (rule kept_env_op[OF silent_laws(16) kv x])
    show "kept running enabled s c"
      using step IH[of E m] kv kx kept_fields(6)[OF kx] by (auto simp: F v x split: if_splits sum.splits)
  qed
  then show ?thesis using assms by blast
qed

lemma kept_add_report: "kept running enabled s t \<Longrightarrow> kept running enabled s (add_report r p t)"
  unfolding add_report_def Let_def by (auto split: option.split intro!: kept_fields)

lemma kept_report_callback: "sampling_on_scan_report_callback E r s = Some s' \<Longrightarrow> kept running enabled s s'"
  unfolding sampling_on_scan_report_callback_def
  by (auto split: if_splits option.splits intro!: kept_fields kept_add_report kept_refl)

lemma kept_scan_timeout: "sampling_on_scan_timeout_callback t = Some s' \<Longrightarrow> kept running enabled s t \<Longrightarrow> kept running enabled s s'"
  unfolding sampling_on_scan_timeout_callback_def by (auto split: if_splits dest: kept_finalize(5))

lemma kept_scan_callback:
  assumes "sampling_scan_callback E s = Some s'"
  shows "kept running enabled s s'"
proof -
  define t where "t = (if is_sampling Scan s then sampling_setup_scan_sampling_chunk E s else s)"
  obtain r u where u: "env_op (scanner_start_scanning E (scan_interval_ms (scan_parameters t)) (scan_window_ms (scan_parameters t)) (scan_duration_seconds (scan_parameters t))) t = (r, u)"
    by fastforce
  have "kept running enabled s t" by (simp add: t_def kept_refl kept_setup(5))
  then have "kept running enabled s u" by (rule kept_env_op[OF silent_laws(19) _ u])
  then show ?thesis using assms kept_scan_timeout[of u s' s] by (auto simp: sampling_scan_callback_def t_def[symmetric] Let_def u split: if_splits)
qed

lemma kept_aggregated_callback:
  assumes "sampling_microphone_aggregated_callback E s = Some s'"
  shows "kept running enabled s s'"
proof -
  obtain now t where t: "env_op (ticks_now E) s = (now, t)" by fastforce
  show ?thesis using assms kept_aggregate_loop[OF _ kept_env_op[OF silent_laws(25) kept_refl t]]
    by (simp add: sampling_microphone_aggregated_callback_def t)
qed

lemma kept_reset: "kept running enabled s (sampling_reset_timeouts E s)"
  unfolding sampling_reset_timeouts_def by (intro kept_fold kept_env silent_laws(24) kept_refl) assumption

lemma kept_interrupt: "do_interrupt E i s = Some s' \<Longrightarrow> kept running enabled s s'"
  using kept_fifo_callback kept_interrupt_callback kept_battery_callback kept_microphone_callback kept_aggregated_callback kept_scan_callback
    kept_scan_timeout[OF _ kept_refl] kept_report_callback kept_refl kept_fields(3)[OF kept_refl] kept_setup(2)[OF kept_refl]
  by (cases i) (auto simp: sampling_accelerometer_interrupt_reset_callback_def)

section \<open>Starting and stopping\<close>

lemma start_timers_law:
  assumes "start_timers E ts s = (NRF_SUCCESS, s')"
  shows "sampling_configuration s' = sampling_configuration s \<and> (\<forall>u. running u (sworld s') = (running u (sworld s) \<or> u \<in> fst ` set ts))
    \<and> (\<forall>a. enabled a (sworld s') = enabled a (sworld s))"
  using assms
proof (induction ts arbitrary: s)
  case Nil
  then show ?case by simp
next
  case (Cons x ts)
  obtain t n where x: "x = (t, n)" by fastforce
  from Cons.prems obtain w where w: "timer_start E t n (sworld s) = (NRF_SUCCESS, w)" "start_timers E ts (s\<lparr>sworld := w\<rparr>) = (NRF_SUCCESS, s')"
    by (auto simp: x and_then_success env_op_def split: prod.splits)
  show ?case using Cons.IH[OF w(2)] start_law[OF w(1)] by (auto simp: x)
qed

lemma stop_timers_law: "sampling_configuration (stop_timers E ts s) = sampling_configuration s"
  "running u (sworld (stop_timers E ts s)) = (running u (sworld s) \<and> u \<notin> set ts)" "enabled a (sworld (stop_timers E ts s)) = enabled a (sworld s)"
  by (induction ts arbitrary: s) (auto simp: stop_timers_def env_def stop_law)

lemma matches: "timers_match running enabled s \<Longrightarrow> enabled a (sworld s) = is_sampling a s"
  "timers_match running enabled s \<Longrightarrow> u \<in> set (timers_of a) \<Longrightarrow> running u (sworld s) = (is_sampling a s \<or> is_streaming_source a s)"
  by (auto simp: timers_match_def)

text \<open>A source whose timers and flags agree again, with all others as they were.\<close>

lemma match_update:
  assumes "timers_match running enabled s"
    and "\<And>a. a \<noteq> src \<Longrightarrow> is_sampling a s' = is_sampling a s \<and> is_streaming_source a s' = is_streaming_source a s \<and> enabled a (sworld s') = enabled a (sworld s)"
    and "\<And>t. t \<notin> set (timers_of src) \<Longrightarrow> t \<noteq> Interrupt_Reset_Timer \<Longrightarrow> running t (sworld s') = running t (sworld s)"
    and "enabled src (sworld s') = is_sampling src s'"
    and "\<And>t. t \<in> set (timers_of src) \<Longrightarrow> running t (sworld s') = (is_sampling src s' \<or> is_streaming_source src s')"
  shows "timers_match running enabled s'"
  unfolding timers_match_def
proof (intro allI conjI ballI)
  fix a show "enabled a (sworld s') \<longleftrightarrow> is_sampling a s'" using assms(1,2,4) unfolding timers_match_def by metis
  fix t assume "t \<in> set (timers_of a)"
  then show "running t (sworld s') \<longleftrightarrow> is_sampling a s' \<or> is_streaming_source a s'"
    using assms(1,2,3,5) timers_of_facts[of t a] unfolding timers_match_def by metis
qed

lemma timeout_start_silent: "running u (source_timeout_start E k l w) = running u w" "enabled a (source_timeout_start E k l w) = enabled a w"
  using silent_laws(23) by (simp_all add: silent_def)

lemma commit:
  assumes match: "timers_match running enabled s" and config: "sampling_configuration t = sampling_configuration s"
    and run: "\<And>u. u \<noteq> Interrupt_Reset_Timer \<Longrightarrow> running u (sworld t) = (running u (sworld s) \<or> u \<in> set (timers_of src))"
    and enab: "\<And>a. enabled a (sworld t) = enabled a (sworld s)"
  shows "timers_match running enabled (env (source_timeout_start E k l) (env (set_enabled_flag E src True) (set_configuration_flag (SAMPLING src) True t)))"
    and "timers_match running enabled (env (source_timeout_start E k l) (set_configuration_flag (STREAMING src) True t))"
  by ((rule match_update[OF match, of src]; use timers_of_facts(2)[of _ src] matches[OF match] in
      \<open>auto simp: flag_fields flag_bits flag_law timeout_start_silent same_flags[OF config] run enab\<close>)+)

lemma restart:
  assumes match: "timers_match running enabled s" and fst: "map fst timers = timers_of src" and sk: "\<And>t. kept running enabled t (setup t)"
    and start: "start_timers E timers (setup (stop_timers E (map fst timers) s)) = (NRF_SUCCESS, t)"
  shows "sampling_configuration t = sampling_configuration s" "u \<noteq> Interrupt_Reset_Timer \<Longrightarrow> running u (sworld t) = (running u (sworld s) \<or> u \<in> set (timers_of src))"
    "enabled a (sworld t) = enabled a (sworld s)"
  using start_timers_law[OF start] sk[of "stop_timers E (map fst timers) s"] fst[symmetric] by (auto simp: kept_def stop_timers_law)

lemma start_sampling_match:
  assumes match: "timers_match running enabled s" and fst: "map fst timers = timers_of src" and sk: "\<And>t. kept running enabled t (setup t)"
    and start: "start_sampling E src setup timers l changed streaming s = (NRF_SUCCESS, s')"
  shows "timers_match running enabled s'"
proof -
  note again = restart[OF match fst sk] and plain = restart[OF match fst kept_refl]
  have running: "running u (sworld s) = (running u (sworld s) \<or> u \<in> set (timers_of src))" if "is_sampling src s" for u
    using match that by (auto simp: timers_match_def)
  show ?thesis using start commit[OF match again] commit[OF match plain] commit[OF match refl running refl] match
    by (auto simp: start_sampling_def Let_def and_then_success split: if_splits)
qed

lemma stop_sampling_match:
  assumes match: "timers_match running enabled s" and stop: "stop_sampling E src off streaming s = (NRF_SUCCESS, s')"
    and off: "\<And>t. off s = (NRF_SUCCESS, t) \<Longrightarrow> kept running enabled (stop_timers E (timers_of src) s) t"
  shows "timers_match running enabled s'"
proof (cases "if streaming then is_sampling src s else is_streaming_source src s")
  case True
  show ?thesis
    by (rule match_update[OF match, of src]; use True stop matches[OF match] in
      \<open>auto simp: stop_sampling_def and_then_success flag_fields flag_bits flag_law split: if_splits\<close>)
next
  case False
  then obtain t where t: "off s = (NRF_SUCCESS, t)" using stop by (auto simp: stop_sampling_def and_then_success split: if_splits)
  have config: "sampling_configuration t = sampling_configuration s"
    and run: "u \<noteq> Interrupt_Reset_Timer \<Longrightarrow> running u (sworld t) = (running u (sworld s) \<and> u \<notin> set (timers_of src))"
    and enab: "enabled a (sworld t) = enabled a (sworld s)" for u a
    using off[OF t] by (auto simp: kept_def stop_timers_law)
  show ?thesis
    by (rule match_update[OF match, of src]; use False stop t run timers_of_facts(2)[of _ src] enab matches[OF match] in
      \<open>auto simp: stop_sampling_def and_then_success flag_fields flag_bits flag_law same_flags[OF config] split: if_splits\<close>)
qed

text \<open>The switches of the sources.\<close>

lemma kept_power_down: "power_down E other t = (r, u) \<Longrightarrow> kept running enabled s t \<Longrightarrow> kept running enabled s u"
  by (auto simp: power_down_def split: if_splits dest: kept_env_op[OF silent_laws(7)])

lemma stop_accelerometer_match:
  "timers_match running enabled s \<Longrightarrow> sampling_stop_accelerometer E streaming s = (NRF_SUCCESS, s') \<Longrightarrow> timers_match running enabled s'"
  unfolding sampling_stop_accelerometer_def by (erule stop_sampling_match) (auto dest: kept_power_down[OF _ kept_refl])

lemma stop_accelerometer_interrupt_match:
  "timers_match running enabled s \<Longrightarrow> sampling_stop_accelerometer_interrupt E streaming s = (NRF_SUCCESS, s') \<Longrightarrow> timers_match running enabled s'"
  unfolding sampling_stop_accelerometer_interrupt_def
  by (erule stop_sampling_match) (auto simp: and_then_success stop_timers_def dest!: kept_env_op[OF silent_laws(10) kept_refl] dest: kept_power_down)

lemma stop_total: "(\<And>s. fst (off s) = NRF_SUCCESS) \<Longrightarrow> stop_sampling E src off streaming s = (NRF_SUCCESS, snd (stop_sampling E src off streaming s))"
  by (auto simp: stop_sampling_def and_then_def split: prod.split) (metis fst_conv)+

lemma stop_match:
  assumes "timers_match running enabled s"
  shows "timers_match running enabled (sampling_stop_battery E streaming s)" "timers_match running enabled (sampling_stop_microphone E streaming s)"
    "timers_match running enabled (sampling_stop_scan E streaming s)"
  unfolding sampling_stop_battery_def sampling_stop_microphone_def sampling_stop_scan_def
  by (rule stop_sampling_match[OF assms stop_total]; auto intro!: kept_refl kept_env silent_laws(20))+

lemma kept_parameters:
  "kept running enabled s t \<Longrightarrow> kept running enabled s (t\<lparr>accelerometer_parameters := a\<rparr>)" "kept running enabled s t \<Longrightarrow> kept running enabled s (t\<lparr>battery_parameters := b\<rparr>)"
  "kept running enabled s t \<Longrightarrow> kept running enabled s (t\<lparr>microphone_parameters := m\<rparr>)" "kept running enabled s t \<Longrightarrow> kept running enabled s (t\<lparr>scan_parameters := c\<rparr>)"
  "kept running enabled s t \<Longrightarrow> kept running enabled s (t\<lparr>accelerometer_interrupt_ignore_duration_ms := n\<rparr>)"
  by (simp_all add: kept_def)

lemma start_match:
  assumes "timers_match running enabled s"
  shows "sampling_start_battery E k n streaming s = (NRF_SUCCESS, s') \<Longrightarrow> timers_match running enabled s'"
    "sampling_start_microphone E k n streaming s = (NRF_SUCCESS, s') \<Longrightarrow> timers_match running enabled s'"
    "sampling_start_scan E k n a b c d e streaming s = (NRF_SUCCESS, s') \<Longrightarrow> timers_match running enabled s'"
  unfolding sampling_start_battery_def sampling_start_microphone_def sampling_start_scan_def Let_def
  by (rule start_sampling_match[rotated 3], assumption, rule kept_match[OF _ assms], (intro kept_parameters kept_refl),
      simp add: microphone_timers_def, simp add: kept_setup kept_refl)+

lemma start_accelerometer_match:
  assumes match: "timers_match running enabled s" and start: "sampling_start_accelerometer E k om fs dr n streaming s = (NRF_SUCCESS, s')"
  shows "timers_match running enabled s'"
proof -
  from start obtain t u v p changed where t: "env_op (accel_set_full_scale E (accel_full_scale_of fs)) s = (NRF_SUCCESS, t)"
      and u: "env_op (accel_set_datarate E (accel_datarate_of dr)) t = (NRF_SUCCESS, u)" and v: "env_op (accel_set_operating_mode E (accel_operating_mode_of om)) u = (NRF_SUCCESS, v)"
      and s': "start_sampling E Accelerometer (sampling_setup_accelerometer_chunk E) [(Accelerometer_Fifo_Timer, app_timer_ticks E n)] k changed streaming
        (v\<lparr>accelerometer_parameters := p\<rparr>) = (NRF_SUCCESS, s')"
    unfolding sampling_start_accelerometer_def Let_def and_then_success by blast
  have "kept running enabled s v"
    by (rule kept_env_op[OF silent_laws(7) kept_env_op[OF silent_laws(6) kept_env_op[OF silent_laws(5) kept_refl t] u] v])
  then have "timers_match running enabled (v\<lparr>accelerometer_parameters := p\<rparr>)" using kept_match[OF _ match] kept_parameters(1) by blast
  then show ?thesis by (rule start_sampling_match[OF _ _ _ s']) (simp_all add: kept_setup kept_refl)
qed

lemma start_accelerometer_interrupt_match:
  assumes match: "timers_match running enabled s" and start: "sampling_start_accelerometer_interrupt E k a b c streaming s = (NRF_SUCCESS, s')"
  shows "timers_match running enabled s'"
proof -
  from start obtain t u v where t: "(if \<not> is_sampling Accelerometer s \<and> \<not> is_streaming_source Accelerometer s
               then and_then (env_op (accel_set_full_scale E 1) s) (\<lambda>s. and_then (env_op (accel_set_datarate E 2) s) (env_op (accel_set_operating_mode E 1)))
               else (NRF_SUCCESS, s)) = (NRF_SUCCESS, t)"
      and u: "env_op (accel_set_motion_interrupt_parameters E a b) t = (NRF_SUCCESS, u)" and v: "env_op (accel_set_interrupt E True) (env (accel_set_interrupt_handler E) u) = (NRF_SUCCESS, v)"
      and s': "s' = (let s = v\<lparr>accelerometer_interrupt_ignore_duration_ms := c\<rparr> in
        if \<not> streaming then
          let s = set_configuration_flag (SAMPLING Accelerometer_Interrupt) True (sampling_setup_accelerometer_interrupt_chunk E s);
              s = env (set_enabled_flag E Accelerometer_Interrupt True) s
          in env (source_timeout_start E (timeout_id s Accelerometer_Interrupt) k) s
        else let s = set_configuration_flag (STREAMING Accelerometer_Interrupt) True s in env (source_timeout_start E (stream_timeout_id s Accelerometer_Interrupt) k) s)"
    unfolding sampling_start_accelerometer_interrupt_def Let_def and_then_success by auto
  have "kept running enabled s t"
  proof (cases "\<not> is_sampling Accelerometer s \<and> \<not> is_streaming_source Accelerometer s")
    case True
    then show ?thesis using t kept_env_op[OF silent_laws(7) kept_env_op[OF silent_laws(6) kept_env_op[OF silent_laws(5) kept_refl]]] by (auto simp: and_then_success)
  next
    case False
    then show ?thesis using t by (auto simp: kept_refl)
  qed
  note kv = kept_parameters(5)[OF kept_env_op[OF silent_laws(10) kept_env[OF silent_laws(9) kept_env_op[OF silent_laws(8) this u]] v], of c]
  show ?thesis using commit[where src = Accelerometer_Interrupt, OF match] kv kept_setup(2)[OF kv] by (auto simp: s' Let_def kept_def)
qed

lemma call_match:
  assumes match: "timers_match running enabled s" and call: "do_call E c s = (NRF_SUCCESS, s')"
  shows "timers_match running enabled s'"
proof (cases c)
  case (Stop src v)
  then show ?thesis using call stop_match[OF match] stop_accelerometer_match[OF match] stop_accelerometer_interrupt_match[OF match] by (cases src) auto
qed (use call start_match[OF match] start_accelerometer_match[OF match] start_accelerometer_interrupt_match[OF match] in auto)

section \<open>Initialisation\<close>

lemma keeps_intros:
  "silent running enabled (snd \<circ> op) \<Longrightarrow> keeps_timers running enabled (env_op op)"
  "keeps_timers running enabled f \<Longrightarrow> keeps_timers running enabled g \<Longrightarrow> keeps_timers running enabled (\<lambda>s. and_then (f s) g)"
  "keeps_timers running enabled f \<Longrightarrow> silent running enabled h \<Longrightarrow> keeps_timers running enabled (\<lambda>s. f (env h s))"
proof -
  show "silent running enabled (snd \<circ> op) \<Longrightarrow> keeps_timers running enabled (env_op op)"
    unfolding keeps_timers_def by (metis kept_env_op kept_refl prod.collapse)
  show "keeps_timers running enabled f \<Longrightarrow> keeps_timers running enabled g \<Longrightarrow> keeps_timers running enabled (\<lambda>s. and_then (f s) g)"
    by (auto simp: keeps_timers_def and_then_def split: prod.split) (metis kept_trans snd_conv)+
  show "keeps_timers running enabled f \<Longrightarrow> silent running enabled h \<Longrightarrow> keeps_timers running enabled (\<lambda>s. f (env h s))"
    unfolding keeps_timers_def by (metis kept_env kept_refl kept_trans)
qed

lemma keeps_source: "keeps_timers running enabled (init_source E src)"
proof -
  have "keeps_timers running enabled (init_chunk_fifo src)" "keeps_timers running enabled (init_stream_fifo src)"
    by (auto simp: keeps_timers_def init_chunk_fifo_def init_stream_fifo_def kept_def split: sum.split)
  moreover have "keeps_timers running enabled (register_timeout E src v)" for v
    using silent_laws(22)[of src v] by (auto simp: keeps_timers_def register_timeout_def env_op_def kept_def silent_def split: prod.split sum.split) (metis snd_conv)+
  ultimately show ?thesis unfolding init_source_def by (intro keeps_intros)
qed

lemma init_match:
  assumes off: "\<And>t. \<not> running t (sworld s0)" "\<And>src. \<not> enabled src (sworld s0)" and init: "sampling_init E s0 = (NRF_SUCCESS, s)"
  shows "timers_match running enabled s"
proof -
  define rest where "rest = (\<lambda>s. and_then (env_op (accel_init E) s) (\<lambda>s.
     and_then (env_op (accel_set_axis E 7) s) (\<lambda>s.
     and_then (env_op (accel_set_fifo E True) s) (\<lambda>s.
     and_then (env_op (accel_set_HP_filter E True) s) (\<lambda>s.
     and_then (env_op (timer_create E Accelerometer_Fifo_Timer True) s) (\<lambda>s.
     and_then (init_source E Accelerometer s) (\<lambda>s.
     and_then (env_op (timer_create E Interrupt_Reset_Timer False) s) (\<lambda>s.
     and_then (init_source E Accelerometer_Interrupt s) (\<lambda>s.
     and_then (env_op (battery_init E) s) (\<lambda>s.
     and_then (env_op (timer_create E Battery_Timer True) s) (\<lambda>s.
     and_then (init_source E Battery s) (\<lambda>s.
     and_then (env_op (timer_create E Microphone_Timer True) (env (microphone_init E) s)) (\<lambda>s.
     and_then (env_op (timer_create E Microphone_Aggregated_Timer True) s) (\<lambda>s.
     and_then (init_source E Microphone s) (\<lambda>s.
     and_then (env_op (timer_create E Scan_Timer True) (env (scanner_set_callbacks E) (env (scanner_init E) s))) (\<lambda>s.
     init_source E Scan s))))))))))))))))"
  note scanner = keeps_intros(3)[OF keeps_intros(3)[OF keeps_intros(1)[OF silent_laws(21)] silent_laws(18)] silent_laws(17)]
  have "keeps_timers running enabled rest"
    unfolding rest_def
    by (rule keeps_intros(2) keeps_source scanner keeps_intros(3)[OF keeps_intros(1)[OF silent_laws(21)] silent_laws(15)] | rule keeps_intros(1), rule silent_laws)+
  moreover have "snd (rest (s0\<lparr>sampling_configuration := 0\<rparr>)) = s" using init by (simp add: sampling_init_def rest_def)
  ultimately have "kept running enabled (s0\<lparr>sampling_configuration := 0\<rparr>) s" unfolding keeps_timers_def by metis
  then show ?thesis using off timers_of_facts(2) by (fastforce simp: kept_def timers_match_def is_sampling_def is_streaming_source_def)
qed

lemma run_match: "sampling_run E running enabled s \<Longrightarrow> timers_match running enabled s"
proof (induction rule: sampling_run.induct)
  case run_reader
  show ?case by (rule kept_match[OF _ run_reader.IH]) (simp add: kept_def)
qed (blast intro: init_match call_match kept_match[OF kept_interrupt] kept_match[OF kept_reset])+

lemma restart_fails:
  assumes sampling: "is_sampling Battery s" and start: "sampling_start_battery E k n False s = (err, s1)" and err: "err \<noteq> NRF_SUCCESS"
  shows "sampling_start_battery E k n False s1 = (NRF_SUCCESS, s1)" "is_sampling Battery s1" "\<not> running Battery_Timer (sworld s1)"
    "enabled Battery (sworld s1) = enabled Battery (sworld s)"
proof -
  define t where "t = s\<lparr>battery_parameters := \<lparr>battery_timeout_ms = k, battery_stream_timeout_ms = battery_stream_timeout_ms (battery_parameters s), battery_period_ms = n\<rparr>\<rparr>"
  define u where "u = sampling_setup_battery_chunk (stop_timers E [Battery_Timer] t)"
  obtain r w where w: "timer_start E Battery_Timer (app_timer_ticks E n) (sworld u) = (r, w)" by fastforce
  have "kept running enabled (stop_timers E [Battery_Timer] t) u" unfolding u_def by (rule kept_setup(3)[OF kept_refl])
  then have u: "sampling_configuration u = sampling_configuration s" "\<not> running Battery_Timer (sworld u)" "enabled Battery (sworld u) = enabled Battery (sworld s)"
    by (auto simp: kept_def stop_timers_law t_def)
  have bp: "battery_parameters u = battery_parameters t"
    by (simp add: u_def stop_timers_def env_def sampling_setup_battery_chunk_def open_chunk_def split: prod.split)
  have s1: "s1 = u\<lparr>sworld := w\<rparr>" "r \<noteq> NRF_SUCCESS" using start err sampling w
    by (auto simp: sampling_start_battery_def start_sampling_def Let_def t_def[symmetric] u_def[symmetric] and_then_def env_op_def split: if_splits prod.splits)
  show flag: "is_sampling Battery s1" using sampling u(1) by (simp add: s1 is_sampling_def)
  show "\<not> running Battery_Timer (sworld s1)" "enabled Battery (sworld s1) = enabled Battery (sworld s)" using start_law[OF w] s1 u by auto
  have same: "battery_parameters s1 = battery_parameters t" by (simp add: s1 bp)
  have "s1\<lparr>battery_parameters := battery_parameters t\<rparr> = s1" unfolding same[symmetric] by simp
  then show "sampling_start_battery E k n False s1 = (NRF_SUCCESS, s1)" using flag
    by (simp add: sampling_start_battery_def start_sampling_def Let_def same t_def is_sampling_def)
qed

end

section \<open>A simulated world\<close>

text \<open>Timers that run or not, flags that are set or not, a number of calls of \<open>app_timer_start\<close> that fail, and drivers that always answer the same.\<close>

record sim_sampling =
  sim_running :: "sampling_timer \<Rightarrow> bool"
  sim_enabled :: "source \<Rightarrow> bool"
  sim_failures :: nat

definition sim_timer_start :: "sampling_timer \<Rightarrow> nat \<Rightarrow> sim_sampling \<Rightarrow> ret_code \<times> sim_sampling" where
  "sim_timer_start t ticks w = (case sim_failures w of 0 \<Rightarrow> (NRF_SUCCESS, w\<lparr>sim_running := (sim_running w)(t := True)\<rparr>)
     | Suc n \<Rightarrow> (NRF_ERROR_NO_MEM, w\<lparr>sim_failures := n\<rparr>))"

definition sim_sampling_env :: "sim_sampling sampling_env" where
  "sim_sampling_env = \<lparr>accel_init = Pair NRF_SUCCESS, accel_set_axis = (\<lambda>_. Pair NRF_SUCCESS), accel_set_fifo = (\<lambda>_. Pair NRF_SUCCESS),
     accel_set_HP_filter = (\<lambda>_. Pair NRF_SUCCESS), accel_set_full_scale = (\<lambda>_. Pair NRF_SUCCESS), accel_set_datarate = (\<lambda>_. Pair NRF_SUCCESS),
     accel_set_operating_mode = (\<lambda>_. Pair NRF_SUCCESS), accel_set_motion_interrupt_parameters = (\<lambda>_ _. Pair NRF_SUCCESS),
     accel_set_interrupt_handler = id, accel_set_interrupt = (\<lambda>_. Pair NRF_SUCCESS), accel_reset_interrupt = id, accel_read_acceleration = (\<lambda>_. Pair (Inr [(1, -2, 3)])),
     battery_init = Pair NRF_SUCCESS, battery_voltage = Pair [0, 0, 64, 64], microphone_init = id, microphone_read = Pair (Inr 40), scanner_init = id,
     scanner_set_callbacks = id, scanner_start_scanning = (\<lambda>_ _ _. Pair NRF_SUCCESS), scanner_stop_scanning = id, timer_create = (\<lambda>_ _. Pair NRF_SUCCESS),
     timer_start = sim_timer_start, timer_stop = (\<lambda>t w. w\<lparr>sim_running := (sim_running w)(t := False)\<rparr>), app_timer_ticks = (\<lambda>ms. ms * 32768 div 1000),
     aggregated_period_ticks = 327, reading_window_ticks = 65, source_timeout_register = (\<lambda>_ _. Pair (Inr 0)), source_timeout_start = (\<lambda>_ _. id),
     source_timeout_reset = (\<lambda>_. id), ticks_now = Pair 100, timestamp_now = Pair (1500000000, 250),
     set_enabled_flag = (\<lambda>src v w. w\<lparr>sim_enabled := (sim_enabled w)(src := v)\<rparr>), padding = 0\<rparr>"

interpretation sim_sampling: sampling_world sim_sampling_env "\<lambda>t w. sim_running w t" "\<lambda>src w. sim_enabled w src"
  by unfold_locales (auto simp: sim_sampling_env_def sim_timer_start_def silent_def split: nat.splits)

definition sampling_power_on :: "nat \<Rightarrow> sim_sampling sampling" where
  "sampling_power_on n = \<lparr>sampling_configuration = 0,
     chunk_fifos = (\<lambda>src. \<lparr>chunk_num = 0, chunk_size = 0, additional_info_size = 0,
       p_chunk_fifo_buf = replicate ((chunk_number src + 1) * sizeof (chunk_struct src)) 0, chunk_read_pos = 0, chunk_write_pos = 0, chunk_open_read = False, chunk_open_write = False\<rparr>),
     stream_fifos = (\<lambda>src. \<lparr>p_buf = replicate (stream_size src + 1) 0, buf_size = 0, read_pos = 0, write_pos = 0, read_flag = False\<rparr>),
     chunk_ptr = (\<lambda>_. None), accelerometer_parameters = \<lparr>accelerometer_timeout_ms = 0, accelerometer_stream_timeout_ms = 0, accelerometer_datarate = 0,
       accelerometer_operating_mode = 0, accelerometer_full_scale = 0, accelerometer_fifo_sampling_period_ms = 0\<rparr>,
     accelerometer_interrupt_ignore_duration_ms = 0, battery_parameters = \<lparr>battery_timeout_ms = 0, battery_stream_timeout_ms = 0, battery_period_ms = 0\<rparr>,
     microphone_parameters = \<lparr>microphone_timeout_ms = 0, microphone_stream_timeout_ms = 0, microphone_period_ms = 0\<rparr>, microphone_aggregated = 0,
     microphone_aggregated_count = 0, scan_parameters = \<lparr>scan_timeout_ms = 0, scan_stream_timeout_ms = 0, scan_period_seconds = 0, scan_interval_ms = 0,
       scan_window_ms = 0, scan_duration_seconds = 0, scan_group_filter = 0, scan_aggregation_type = 0\<rparr>,
     scan_aggregated_rssi = replicate SCAN_SAMPLING_CHUNK_DATA_SIZE 0, timeout_id = (\<lambda>_. 0), stream_timeout_id = (\<lambda>_. 0), sampling_events = [],
     sworld = \<lparr>sim_running = (\<lambda>_. False), sim_enabled = (\<lambda>_. False), sim_failures = n\<rparr>\<rparr>"

lemma sampling_power_on_works: "\<exists>s. sampling_init sim_sampling_env (sampling_power_on n) = (NRF_SUCCESS, s) \<and> sampling_configuration s = 0
    \<and> sworld s = sworld (sampling_power_on n) \<and> chunk_fifos s Scan = \<lparr>chunk_num = 1, chunk_size = sizeof ScanSamplingChunk, additional_info_size = 0,
       p_chunk_fifo_buf = replicate (2 * sizeof ScanSamplingChunk) 0, chunk_read_pos = 0, chunk_write_pos = 0, chunk_open_read = False, chunk_open_write = False\<rparr>
    \<and> scan_aggregated_rssi s = replicate 255 0 \<and> scan_parameters s = scan_parameters (sampling_power_on n)"
  by (simp add: sampling_init_def and_then_def env_op_def env_def init_source_def init_chunk_fifo_def init_stream_fifo_def register_timeout_def
      chunk_fifo_init_def circular_fifo_init_def sim_sampling_env_def sampling_power_on_def SCAN_SAMPLING_CHUNK_DATA_SIZE_def)

section \<open>Theorems\<close>

text \<open>
  C12: In every state that is reached from a successful initialisation, with nothing running before it, by calls that start and stop sources for
  sampling or streaming and succeed, by interrupts of the timers, of the accelerometer and of the scanner, by resets of the timeouts and by readers
  of the FIFOs, the timers of a source run if and only if the source is sampled or streamed, and the source is advertised as enabled if and only if
  it is sampled.
\<close>

theorem timers_follow_flags:
  assumes "sampling_world E running enabled" and "sampling_run E running enabled s"
  shows "(\<forall>t \<in> set (timers_of src). running t (sworld s) \<longleftrightarrow> is_sampling src s \<or> is_streaming_source src s)
    \<and> (enabled src (sworld s) \<longleftrightarrow> is_sampling src s)"
  using sampling_world.run_match[OF assms] by (simp add: timers_match_def)

lemma sampling_starts:
  "\<exists>s1 s2 s3. sampling_init sim_sampling_env (sampling_power_on 0) = (NRF_SUCCESS, s1) \<and> do_call sim_sampling_env (Start_Microphone 60000 50 False) s1 = (NRF_SUCCESS, s2)
    \<and> do_call sim_sampling_env (Start_Battery 60000 1000 True) s2 = (NRF_SUCCESS, s3)
    \<and> sampling_configuration s3 = 96"
proof -
  note eval = Let_def start_sampling_def microphone_timers_def stop_timers_def env_def env_op_def and_then_def sim_timer_start_def
    sampling_setup_microphone_chunk_def open_chunk_def poke_def poke_timestamp_def chunk_fifo_write_open_def set_configuration_flag_def is_sampling_def is_streaming_source_def STREAMING_def
  obtain s1 where s1: "sampling_init sim_sampling_env (sampling_power_on 0) = (NRF_SUCCESS, s1)" "sampling_configuration s1 = 0" "sworld s1 = sworld (sampling_power_on 0)"
    using sampling_power_on_works by blast
  have "\<exists>s2. do_call sim_sampling_env (Start_Microphone 60000 50 False) s1 = (NRF_SUCCESS, s2) \<and> sampling_configuration s2 = set_bit 6 0 \<and> sim_failures (sworld s2) = 0"
    using s1 by (simp add: sampling_start_microphone_def eval sim_sampling_env_def sampling_power_on_def)
  then obtain s2 where s2: "do_call sim_sampling_env (Start_Microphone 60000 50 False) s1 = (NRF_SUCCESS, s2)" "sampling_configuration s2 = 64" "sim_failures (sworld s2) = 0"
    by (auto simp: set_bit_eq)
  have "\<exists>s3. do_call sim_sampling_env (Start_Battery 60000 1000 True) s2 = (NRF_SUCCESS, s3) \<and> sampling_configuration s3 = set_bit 5 64"
    using s2 by (simp add: sampling_start_battery_def eval sim_sampling_env_def)
  then show ?thesis using s1(1) s2(1) by (auto simp: set_bit_eq)
qed

theorem timers_follow_flags_witness:
  "\<exists>s. sampling_run sim_sampling_env (\<lambda>t w. sim_running w t) (\<lambda>src w. sim_enabled w src) s \<and> sim_running (sworld s) Microphone_Timer
    \<and> sim_running (sworld s) Microphone_Aggregated_Timer \<and> sim_enabled (sworld s) Microphone \<and> sim_running (sworld s) Battery_Timer
    \<and> \<not> sim_enabled (sworld s) Battery \<and> \<not> sim_running (sworld s) Scan_Timer"
proof -
  obtain s1 s2 s where init: "sampling_init sim_sampling_env (sampling_power_on 0) = (NRF_SUCCESS, s1)"
    and calls: "do_call sim_sampling_env (Start_Microphone 60000 50 False) s1 = (NRF_SUCCESS, s2)" "do_call sim_sampling_env (Start_Battery 60000 1000 True) s2 = (NRF_SUCCESS, s)"
    and c: "sampling_configuration s = 96" using sampling_starts by blast
  have run: "sampling_run sim_sampling_env (\<lambda>t w. sim_running w t) (\<lambda>src w. sim_enabled w src) s"
    by (rule run_call[OF run_call[OF run_init[OF _ _ init] calls(1)] calls(2)]) (simp_all add: sampling_power_on_def)
  show ?thesis
    using run timers_follow_flags[OF sim_sampling.sampling_world_axioms run, of Microphone] timers_follow_flags[OF sim_sampling.sampling_world_axioms run, of Battery]
      timers_follow_flags[OF sim_sampling.sampling_world_axioms run, of Scan]
    by (intro exI[of _ s]) (simp add: is_sampling_def is_streaming_source_def STREAMING_def c bit_iff_odd)
qed

text \<open>
  C38: A start of the battery sampling that fails while the battery is sampled, since the timer could not be started again with new parameters, leaves the
  timer stopped and the source marked and advertised as sampled; the parameters are already updated, hence a repetition of the same request is ignored
  and answered with success, although nothing is sampled.
\<close>

theorem failed_restart_goes_unnoticed:
  assumes "sampling_world E running enabled" and "is_sampling Battery s" and "sampling_start_battery E timeout_ms period_ms False s = (err, s1)" and "err \<noteq> NRF_SUCCESS"
  shows "sampling_start_battery E timeout_ms period_ms False s1 = (NRF_SUCCESS, s1) \<and> is_sampling Battery s1 \<and> \<not> running Battery_Timer (sworld s1)
    \<and> enabled Battery (sworld s1) = enabled Battery (sworld s)"
  using sampling_world.restart_fails[OF assms] by simp

theorem failed_restart_goes_unnoticed_witness:
  "\<exists>s1. sampling_start_battery sim_sampling_env 60000 1000 False ((sampling_power_on 1)\<lparr>sampling_configuration := 16\<rparr>) = (NRF_ERROR_NO_MEM, s1)
    \<and> sampling_start_battery sim_sampling_env 60000 1000 False s1 = (NRF_SUCCESS, s1) \<and> is_sampling Battery s1 \<and> \<not> sim_running (sworld s1) Battery_Timer"
proof -
  let ?s = "(sampling_power_on 1)\<lparr>sampling_configuration := 16\<rparr>"
  have s: "is_sampling Battery ?s" by (simp add: is_sampling_def bit_iff_odd)
  have "fst (sampling_start_battery sim_sampling_env 60000 1000 False ?s) = NRF_ERROR_NO_MEM" using s
    by (simp add: sampling_start_battery_def start_sampling_def Let_def and_then_def env_op_def env_def stop_timers_def sim_timer_start_def sampling_setup_battery_chunk_def
        open_chunk_def chunk_fifo_write_open_def sim_sampling_env_def sampling_power_on_def is_sampling_def)
  then obtain s1 where s1: "sampling_start_battery sim_sampling_env 60000 1000 False ?s = (NRF_ERROR_NO_MEM, s1)" by (metis prod.collapse)
  show ?thesis using failed_restart_goes_unnoticed[OF sim_sampling.sampling_world_axioms s s1] s1 by simp
qed

end
