(* ===== verification/Sampling_Correct.thy ===== *)
theory Sampling_Correct
  imports Sampling_Timers Processing
begin

text \<open>
  What a scan leaves in the chunk that the sampling module publishes, over all sequences of reports.
\<close>

section \<open>Bytes of the open chunk\<close>

lemma scan_struct:
  "tb_offsetof ScanSamplingChunk 1 = 8" "tb_offsetof ScanSamplingChunk 2 = 10" "sizeof ScanResultData = 6" "tb_offsetof ScanDevice 0 = 0"
  "tb_offsetof ScanDevice 1 = 2" "tb_offsetof ScanResultData 1 = 4" "tb_offsetof ScanSamplingChunk 0 = 0" "sizeof ScanSamplingChunk = 1540"
  by (simp_all add: tb_offsetof_def sizeof_def layout_eval ScanSamplingChunk_def ScanDevice_def ScanResultData_def del: One_nat_def)

lemmas scan_offsets [simp] = scan_struct scan_struct[unfolded One_nat_def]

definition scan_buf :: "'w sampling \<Rightarrow> byte list" where
  "scan_buf s = p_chunk_fifo_buf (chunk_fifos s Scan)"

lemma peek_poke:
  assumes "a + length bs \<le> length (scan_buf s)"
  shows "peek Scan x (poke Scan a bs s) = (if a \<le> x \<and> x < a + length bs then unat (bs ! (x - a)) else peek Scan x s)"
  using assms by (auto simp: peek_def poke_def chunk_store_def scan_buf_def overwrite_def nth_append)

lemma unat_next: "n < 255 \<Longrightarrow> unat (1 + of_nat n :: byte) = Suc n"
proof -
  assume "n < 255"
  then have "unat (of_nat (Suc n) :: byte) = Suc n" unfolding unat_of_nat by simp
  then show ?thesis by simp
qed

lemma poke_frame [simp]:
  "a + length bs \<le> length (scan_buf s) \<Longrightarrow> length (scan_buf (poke Scan a bs s)) = length (scan_buf s)"
  "chunk_ptr (poke src a bs s) = chunk_ptr s" "scan_parameters (poke src a bs s) = scan_parameters s"
  "sampling_configuration (poke src a bs s) = sampling_configuration s" "scan_aggregated_rssi (poke src a bs s) = scan_aggregated_rssi s"
  "sampling_events (poke src a bs s) = sampling_events s"
  by (simp_all add: poke_def chunk_store_def scan_buf_def)

lemma peek_frame [simp]:
  "peek Scan x (s\<lparr>scan_aggregated_rssi := l\<rparr>) = peek Scan x s" "scan_buf (s\<lparr>scan_aggregated_rssi := l\<rparr>) = scan_buf s"
  by (simp_all add: peek_def scan_buf_def)

section \<open>The devices of a scan\<close>

definition devices :: "scanner_scan_report list \<Rightarrow> nat list" where
  "devices rs = take 255 (rev (remdups (rev (map report_ID rs))))"

definition strengths :: "scanner_scan_report list \<Rightarrow> nat \<Rightarrow> int list" where
  "strengths rs d = take 255 (map report_rssi (filter (\<lambda>r. report_ID r = d) rs))"

definition aggregated :: "nat \<Rightarrow> int list \<Rightarrow> int" where
  "aggregated ty xs = (if ty = SCAN_CHUNK_AGGREGATE_TYPE_MAX then Max (set xs) else sum_list xs)"

lemma devices_short: "length (devices rs) < 255 \<Longrightarrow> set (devices rs) = report_ID ` set rs"
  by (simp add: devices_def min_def split: if_splits)

lemma devices_le: "length (devices rs) \<le> 255"
  by (simp add: devices_def)

lemma devices_distinct: "distinct (devices rs)"
  by (simp add: devices_def)

lemma devices_seen: "set (devices rs) \<subseteq> report_ID ` set rs"
  by (auto simp: devices_def dest: in_set_takeD)

lemma devices_snoc:
  "devices (rs @ [r]) = (if report_ID r \<in> set (devices rs) \<or> length (devices rs) = 255 then devices rs else devices rs @ [report_ID r])"
proof (cases "length (devices rs) = 255")
  case True
  then show ?thesis by (auto simp: devices_def min_def split: if_splits)
next
  case False
  then have "length (devices rs) < 255" using devices_le[of rs] by simp
  then show ?thesis using devices_short[of rs] by (auto simp: devices_def min_def split: if_splits)
qed

lemma strengths_snoc:
  "strengths (rs @ [r]) d = (if d = report_ID r \<and> length (strengths rs d) < 255 then strengths rs d @ [report_rssi r] else strengths rs d)"
  by (auto simp: strengths_def min_def)

lemma strengths_nonempty: "d \<in> set (devices rs) \<Longrightarrow> strengths rs d \<noteq> []"
  using devices_seen[of rs] by (auto simp: strengths_def filter_empty_conv)

lemma aggregated_snoc: "xs \<noteq> [] \<Longrightarrow> aggregate_rssi ty (aggregated ty xs) v = aggregated ty (xs @ [v])"
  by (simp add: aggregate_rssi_def aggregated_def max_def)

lemma aggregated_single: "aggregated ty [v] = v"
  by (simp add: aggregated_def)

section \<open>Reports\<close>

definition scan_holds :: "scanner_scan_report list \<Rightarrow> nat \<Rightarrow> 'w sampling \<Rightarrow> bool" where
  "scan_holds rs p s \<longleftrightarrow> p + 1540 \<le> length (scan_buf s) \<and> length (scan_aggregated_rssi s) = 255 \<and> peek Scan (p + 8) s = length (devices rs)
     \<and> (\<forall>i < length (devices rs). result_ID p i s = devices rs ! i \<and> result_count p i s = length (strengths rs (devices rs ! i))
          \<and> scan_aggregated_rssi s ! i = aggregated (scan_aggregation_type (scan_parameters s)) (strengths rs (devices rs ! i)))"

lemma result_poke:
  assumes "a + length bs \<le> length (scan_buf s)" and "p + 10 + i * 6 + 6 \<le> a \<or> a + length bs \<le> p + 10 + i * 6"
  shows "result_ID p i (poke Scan a bs s) = result_ID p i s" and "result_count p i (poke Scan a bs s) = result_count p i s"
  using assms by (auto simp: result_ID_def result_count_def scan_result_at_def peek_poke)

lemma add_report_holds:
  assumes h: "scan_holds rs p s" and id: "report_ID r < 65536"
  shows "scan_holds (rs @ [r]) p (add_report r p s)"
proof -
  let ?n = "length (devices rs)" and ?ty = "scan_aggregation_type (scan_parameters s)"
  have buf: "p + 1540 \<le> length (scan_buf s)" and agg: "length (scan_aggregated_rssi s) = 255" and cnt: "peek Scan (p + 8) s = ?n"
    and res: "\<And>i. i < ?n \<Longrightarrow> result_ID p i s = devices rs ! i \<and> result_count p i s = length (strengths rs (devices rs ! i))
      \<and> scan_aggregated_rssi s ! i = aggregated ?ty (strengths rs (devices rs ! i))"
    using h by (simp_all add: scan_holds_def)
  have le: "?n \<le> 255" by (rule devices_le)
  show ?thesis
  proof (cases "List.find (\<lambda>i. result_ID p i s = report_ID r) [0..<?n]")
    case (Some i)
    then have i: "i < ?n" and d: "devices rs ! i = report_ID r" using res by (auto simp: find_Some_iff)
    then have dev: "devices (rs @ [r]) = devices rs" using nth_mem[OF i] by (simp add: devices_snoc)
    have other: "devices rs ! j \<noteq> report_ID r" if "j < ?n" "j \<noteq> i" for j
      using that i d devices_distinct[of rs] nth_eq_iff_index_eq by metis
    show ?thesis
    proof (cases "result_count p i s < 255")
      case False
      then have "strengths (rs @ [r]) (devices rs ! j) = strengths rs (devices rs ! j)" if "j < ?n" for j
        using res[OF i] other[OF that] d by (auto simp: strengths_snoc)
      then show ?thesis using h False cnt Some by (simp add: scan_holds_def add_report_def dev)
    next
      case True
      let ?s = "s\<lparr>scan_aggregated_rssi := (scan_aggregated_rssi s)[i := aggregate_rssi ?ty (scan_aggregated_rssi s ! i) (report_rssi r)]\<rparr>"
      let ?t = "poke Scan (p + 10 + i * 6 + 4) [of_nat (result_count p i s + 1)] ?s"
      have t: "add_report r p s = ?t" using cnt Some True by (simp add: add_report_def scan_result_at_def)
      have fits: "p + 10 + i * 6 + 4 + length [of_nat (result_count p i s + 1) :: byte] \<le> length (scan_buf ?s)" using buf i le by simp
      have st: "strengths (rs @ [r]) (devices rs ! i) = strengths rs (devices rs ! i) @ [report_rssi r]"
        using res[OF i] True d by (simp add: strengths_snoc)
      have ne: "strengths rs (devices rs ! i) \<noteq> []" by (rule strengths_nonempty[OF nth_mem[OF i]])
      have "result_ID p j ?t = devices rs ! j \<and> result_count p j ?t = length (strengths (rs @ [r]) (devices rs ! j))
          \<and> scan_aggregated_rssi ?t ! j = aggregated ?ty (strengths (rs @ [r]) (devices rs ! j))" if j: "j < ?n" for j
      proof (cases "j = i")
        case True
        have "result_ID p i ?t = result_ID p i s" "result_count p i ?t = result_count p i s + 1"
          using peek_poke[OF fits] \<open>result_count p i s < 255\<close>
          by (simp_all add: result_ID_def result_count_def scan_result_at_def unat_next)
        then show ?thesis using True res[OF i] i le agg st aggregated_snoc[OF ne] by simp
      next
        case False
        have "result_ID p j ?t = result_ID p j ?s" "result_count p j ?t = result_count p j ?s"
          using False by (intro result_poke[OF fits]; simp; linarith)+
        then show ?thesis using False res[OF j] other[OF j] j le agg by (simp add: strengths_snoc result_ID_def result_count_def)
      qed
      moreover have "peek Scan (p + 8) ?t = ?n" using peek_poke[OF fits, of "p + 8"] cnt by simp
      ultimately show ?thesis using buf agg fits by (simp add: scan_holds_def dev t)
    qed
  next
    case None
    then have new: "report_ID r \<notin> set (devices rs)" using res by (auto simp: find_None_iff in_set_conv_nth)
    have same: "strengths (rs @ [r]) (devices rs ! j) = strengths rs (devices rs ! j)" if "j < ?n" for j
      using new nth_mem[OF that] by (auto simp: strengths_snoc)
    show ?thesis
    proof (cases "?n < 255")
      case False
      then show ?thesis using h None cnt le same by (simp add: scan_holds_def add_report_def devices_snoc SCAN_SAMPLING_CHUNK_DATA_SIZE_def)
    next
      case True
      let ?o = "p + 10 + ?n * 6"
      define u where "u = s\<lparr>scan_aggregated_rssi := (scan_aggregated_rssi s)[?n := report_rssi r]\<rparr>"
      define u1 where "u1 = poke Scan ?o (le_bytes 2 (report_ID r)) u"
      define u2 where "u2 = poke Scan (?o + 2) [0] u1"
      define u3 where "u3 = poke Scan (?o + 4) [1] u2"
      define t where "t = poke Scan (p + 8) [of_nat (?n + 1)] u3"
      have at: "add_report r p s = t" using cnt None True
        by (simp add: add_report_def scan_result_at_def SCAN_SAMPLING_CHUNK_DATA_SIZE_def Let_def t_def u3_def u2_def u1_def u_def)
      have dev: "devices (rs @ [r]) = devices rs @ [report_ID r]" using True new by (simp add: devices_snoc)
      have "report_ID r \<notin> report_ID ` set rs" using new devices_short[OF True] by simp
      then have "\<forall>x \<in> set rs. report_ID x \<noteq> report_ID r" by (metis imageI)
      then have "strengths rs (report_ID r) = []" by (simp add: strengths_def filter_empty_conv)
      then have st: "strengths (rs @ [r]) (report_ID r) = [report_rssi r]" by (simp add: strengths_snoc)
      have f1: "?o + length (le_bytes 2 (report_ID r)) \<le> length (scan_buf u)" using buf True by (simp add: u_def)
      have f2: "?o + 2 + length [0 :: byte] \<le> length (scan_buf u1)" unfolding u1_def poke_frame(1)[OF f1] using buf True by (simp add: u_def)
      have f3: "?o + 4 + length [1 :: byte] \<le> length (scan_buf u2)"
        unfolding u2_def poke_frame(1)[OF f2] unfolding u1_def poke_frame(1)[OF f1] using buf True by (simp add: u_def)
      have len: "length (scan_buf u3) = length (scan_buf s)"
        unfolding u3_def poke_frame(1)[OF f3] unfolding u2_def poke_frame(1)[OF f2] unfolding u1_def poke_frame(1)[OF f1] by (simp add: u_def)
      then have f4: "p + 8 + length [of_nat (?n + 1) :: byte] \<le> length (scan_buf u3)" using buf by simp
      note pk = peek_poke[OF f4, folded t_def] peek_poke[OF f3, folded u3_def] peek_poke[OF f2, folded u2_def] peek_poke[OF f1, folded u1_def]
      have pu: "peek Scan x u = peek Scan x s" for x by (simp add: u_def)
      have "result_ID p ?n t = report_ID r"
        using id by (simp add: result_ID_def scan_result_at_def pk nth_le_bytes unat_of_nat)
      moreover have "result_count p ?n t = 1" by (simp add: result_count_def scan_result_at_def pk)
      moreover have "result_ID p j t = result_ID p j s \<and> result_count p j t = result_count p j s" if j: "j < ?n" for j
      proof -
        have "p + 10 + j * 6 + 6 \<le> ?o" using j by linarith
        then show ?thesis by (simp add: result_ID_def result_count_def scan_result_at_def pk pu)
      qed
      moreover have "peek Scan (p + 8) t = ?n + 1" using True by (simp add: pk unat_next)
      moreover have "length (scan_buf t) = length (scan_buf s)" unfolding t_def poke_frame(1)[OF f4] len ..
      moreover have "scan_aggregated_rssi t = (scan_aggregated_rssi s)[?n := report_rssi r]" "scan_parameters t = scan_parameters s"
        by (simp_all add: t_def u3_def u2_def u1_def u_def)
      ultimately show ?thesis using buf agg res same st True
        by (auto simp: scan_holds_def dev at nth_append less_Suc_eq aggregated_single)
    qed
  qed
qed

lemma stream_frame [simp]:
  "chunk_fifos (stream src bs s) = chunk_fifos s" "chunk_ptr (stream src bs s) = chunk_ptr s" "scan_parameters (stream src bs s) = scan_parameters s"
  "sampling_configuration (stream src bs s) = sampling_configuration s" "scan_aggregated_rssi (stream src bs s) = scan_aggregated_rssi s"
  "sampling_events (stream src bs s) = sampling_events s"
  by (simp_all add: stream_def)

text \<open>The reports of a scan, one after the other.\<close>

fun scan_reports :: "'w sampling_env \<Rightarrow> scanner_scan_report list \<Rightarrow> 'w sampling \<Rightarrow> 'w sampling option" where
  "scan_reports E [] s = Some s"
| "scan_reports E (r # rs) s = (case sampling_on_scan_report_callback E r s of None \<Rightarrow> None | Some s \<Rightarrow> scan_reports E rs s)"

definition valid_report :: "scanner_scan_report \<Rightarrow> bool" where
  "valid_report r \<longleftrightarrow> report_ID r < 65536 \<and> - 128 \<le> report_rssi r \<and> report_rssi r < 128"

text \<open>What the callback leaves of the state, and the bytes outside of the chunk.\<close>

definition same_scan :: "nat \<Rightarrow> 'w sampling \<Rightarrow> 'w sampling \<Rightarrow> bool" where
  "same_scan p s s' \<longleftrightarrow> chunk_ptr s' = chunk_ptr s \<and> scan_parameters s' = scan_parameters s \<and> sampling_configuration s' = sampling_configuration s
     \<and> sampling_events s' = sampling_events s \<and> (\<exists>b. length b = length (scan_buf s) \<and> chunk_fifos s' = (chunk_fifos s)(Scan := (chunk_fifos s Scan)\<lparr>p_chunk_fifo_buf := b\<rparr>)
       \<and> (\<forall>x. x < p \<or> p + 1540 \<le> x \<longrightarrow> b ! x = scan_buf s ! x))"

lemma same_scan_refl: "same_scan p s s"
  unfolding same_scan_def by (intro conjI refl exI[of _ "scan_buf s"]) (simp_all add: scan_buf_def)

lemma same_scan_trans: "same_scan p s t \<Longrightarrow> same_scan p t u \<Longrightarrow> same_scan p s u"
  by (fastforce simp: same_scan_def scan_buf_def)

lemma same_scan_poke:
  assumes "p \<le> a" and "a + length bs \<le> p + 1540" and "p + 1540 \<le> length (scan_buf s)"
  shows "same_scan p s (poke Scan a bs s)"
  using assms by (auto simp: same_scan_def poke_def chunk_store_def scan_buf_def overwrite_def nth_append
      intro!: exI[of _ "overwrite (p_chunk_fifo_buf (chunk_fifos s Scan)) a bs"])

lemma same_scan_rssi: "same_scan p s t \<Longrightarrow> same_scan p s (t\<lparr>scan_aggregated_rssi := l\<rparr>)"
  by (simp add: same_scan_def)

lemma same_scan_stream: "same_scan p s t \<Longrightarrow> same_scan p s (stream src bs t)"
  by (simp add: same_scan_def)

lemma same_scan_buf: "same_scan p s t \<Longrightarrow> length (scan_buf t) = length (scan_buf s)"
  by (auto simp: same_scan_def scan_buf_def)

lemma same_scan_then_poke:
  assumes "same_scan p s t" and "p \<le> a" and "a + length bs \<le> p + 1540" and "p + 1540 \<le> length (scan_buf s)"
  shows "same_scan p s (poke Scan a bs t)"
  using same_scan_trans[OF assms(1) same_scan_poke[OF assms(2,3)]] same_scan_buf[OF assms(1)] assms(4) by simp

lemma add_report_same:
  assumes "scan_holds rs p s"
  shows "same_scan p s (add_report r p s)"
proof -
  have b: "p + 1540 \<le> length (scan_buf s)" and n: "peek Scan (p + 8) s \<le> 255" using assms devices_le[of rs] by (simp_all add: scan_holds_def)
  show ?thesis unfolding add_report_def Let_def scan_result_at_def
    using n b by (auto simp: find_Some_iff SCAN_SAMPLING_CHUNK_DATA_SIZE_def split: option.split intro!: same_scan_then_poke same_scan_rssi same_scan_refl)
qed

lemma reports_hold:
  assumes "scan_holds rs0 p s" and "chunk_ptr s Scan = Some p" and "is_sampling Scan s" and "\<forall>r \<in> set rs. valid_report r"
  shows "\<exists>s'. scan_reports E rs s = Some s' \<and> scan_holds (rs0 @ filter (\<lambda>r. report_group r = scan_group_filter (scan_parameters s)) rs) p s' \<and> same_scan p s s'"
  using assms
proof (induction rs arbitrary: rs0 s)
  case Nil
  then show ?case by (simp add: same_scan_refl)
next
  case (Cons r rs)
  show ?case
  proof (cases "report_group r = scan_group_filter (scan_parameters s)")
    case False
    then show ?thesis using Cons.IH[of rs0 s] Cons.prems by (simp add: sampling_on_scan_report_callback_def)
  next
    case True
    let ?a = "add_report r p s"
    let ?t = "if is_streaming_source Scan ?a then stream Scan (le_bytes 2 (report_ID r) @ [word_of_int (report_rssi r), padding E]) ?a else ?a"
    have c: "sampling_on_scan_report_callback E r s = Some ?t" using Cons.prems True by (simp add: sampling_on_scan_report_callback_def)
    have "scan_holds (rs0 @ [r]) p ?a" using add_report_holds[OF Cons.prems(1)] Cons.prems(4) by (simp add: valid_report_def)
    then have h: "scan_holds (rs0 @ [r]) p ?t" by (simp add: scan_holds_def scan_buf_def peek_def result_ID_def result_count_def)
    have sm: "same_scan p s ?t" using add_report_same[OF Cons.prems(1), of r] same_scan_stream[OF add_report_same[OF Cons.prems(1), of r]] by simp
    then have ptr: "chunk_ptr ?t Scan = Some p" "is_sampling Scan ?t" "scan_parameters ?t = scan_parameters s"
      using Cons.prems by (simp_all add: same_scan_def is_sampling_def)
    from Cons.IH[OF h ptr(1,2)] Cons.prems(4) ptr(3) True c same_scan_trans[OF sm] show ?thesis by auto
  qed
qed

section \<open>The end of a scan\<close>

lemma finish_results:
  assumes "p + 1540 \<le> length (scan_buf s)" and "k \<le> 255"
  shows "same_scan p s (fold (finish_result p) [0..<k] s) \<and> scan_aggregated_rssi (fold (finish_result p) [0..<k] s) = scan_aggregated_rssi s
    \<and> peek Scan (p + 8) (fold (finish_result p) [0..<k] s) = peek Scan (p + 8) s
    \<and> (\<forall>i. result_ID p i (fold (finish_result p) [0..<k] s) = result_ID p i s \<and> result_count p i (fold (finish_result p) [0..<k] s) = result_count p i s)
    \<and> (\<forall>i < k. peek Scan (scan_result_at p i + 2) (fold (finish_result p) [0..<k] s)
         = unat (word_of_int (process_rssi (scan_aggregation_type (scan_parameters s)) (scan_aggregated_rssi s ! i) (result_count p i s)) :: byte))"
  using assms(2)
proof (induction k)
  case 0
  then show ?case by (simp add: same_scan_refl)
next
  case (Suc k)
  define t where "t = fold (finish_result p) [0..<k] s"
  define v where "v = (word_of_int (process_rssi (scan_aggregation_type (scan_parameters s)) (scan_aggregated_rssi s ! k) (result_count p k s)) :: byte)"
  have IH: "same_scan p s t" "scan_aggregated_rssi t = scan_aggregated_rssi s" "peek Scan (p + 8) t = peek Scan (p + 8) s"
    "\<And>i. result_ID p i t = result_ID p i s" "\<And>i. result_count p i t = result_count p i s"
    "\<And>i. i < k \<Longrightarrow> peek Scan (scan_result_at p i + 2) t
         = unat (word_of_int (process_rssi (scan_aggregation_type (scan_parameters s)) (scan_aggregated_rssi s ! i) (result_count p i s)) :: byte)"
    using Suc by (simp_all add: t_def)
  have sp: "scan_parameters t = scan_parameters s" using IH(1) by (simp add: same_scan_def)
  have fits: "p + 10 + k * 6 + 2 + length [v] \<le> length (scan_buf t)" using assms(1) Suc.prems same_scan_buf[OF IH(1)] by simp
  define u where "u = poke Scan (p + 10 + k * 6 + 2) [v] t"
  have u: "fold (finish_result p) [0..<Suc k] s = u" by (simp add: t_def[symmetric] finish_result_def u_def v_def IH sp scan_result_at_def)
  note pk = peek_poke[OF fits, folded u_def]
  have "same_scan p s u" unfolding u_def using Suc.prems by (intro same_scan_then_poke[OF IH(1)] assms(1)) simp_all
  moreover have "result_ID p i u = result_ID p i t" "result_count p i u = result_count p i t" for i
    by (cases "i < k"; cases "i = k"; simp add: result_ID_def result_count_def scan_result_at_def pk; linarith)+
  moreover have "peek Scan (scan_result_at p i + 2) u = (if i = k then unat v else peek Scan (scan_result_at p i + 2) t)" for i
    by (cases "i < k"; cases "i = k"; simp add: scan_result_at_def pk; linarith)+
  moreover have "peek Scan (p + 8) u = peek Scan (p + 8) t" by (simp add: pk)
  moreover have "scan_aggregated_rssi u = scan_aggregated_rssi t" by (simp add: u_def)
  ultimately show ?case unfolding u using IH by (auto simp: less_Suc_eq v_def)
qed

lemma sint_byte: "- 128 \<le> v \<Longrightarrow> v < 128 \<Longrightarrow> sint (word_of_int v :: byte) = v"
  by (simp add: int_word_sint mod_pos_pos_trivial)

lemma sum_list_range:
  fixes xs :: "int list"
  assumes "\<forall>x \<in> set xs. - 128 \<le> x \<and> x < 128"
  shows "- 128 * int (length xs) \<le> sum_list xs \<and> sum_list xs \<le> 127 * int (length xs)"
  using assms by (induction xs) auto

lemma mean_range:
  fixes a :: int
  assumes "- 128 * int n \<le> a" and "a \<le> 127 * int n" and "0 < n"
  shows "- 128 \<le> a sdiv int n \<and> a sdiv int n < 128"
proof (cases "a < 0")
  case True
  have "(- a) div int n \<le> (128 * int n) div int n" by (rule zdiv_mono1) (use assms in simp_all)
  then have "(- a) div int n \<le> 128" using assms(3) by simp
  moreover have "0 \<le> (- a) div int n" using True assms(3) by (simp add: pos_imp_zdiv_nonneg_iff)
  ultimately show ?thesis using True assms(3) by (simp add: signed_divide_int_def)
next
  case False
  have "a div int n \<le> (127 * int n) div int n" by (rule zdiv_mono1) (use assms in simp_all)
  then have "a div int n \<le> 127" using assms(3) by simp
  moreover have "0 \<le> a div int n" using False assms(3) by (simp add: pos_imp_zdiv_nonneg_iff)
  ultimately show ?thesis using False assms(3) by (cases "a = 0") (simp_all add: signed_divide_int_def)
qed

lemma processed_range:
  assumes "xs \<noteq> []" and "\<forall>x \<in> set xs. - 128 \<le> x \<and> x < (128 :: int)"
  shows "- 128 \<le> process_rssi ty (aggregated ty xs) (length xs) \<and> process_rssi ty (aggregated ty xs) (length xs) < 128"
  using assms mean_range[of "length xs" "sum_list xs"] sum_list_range[OF assms(2)] Max_in[of "set xs"]
  by (auto simp: process_rssi_def aggregated_def)

text \<open>The start of a scan: an empty chunk in the slot of the writer.\<close>

definition scan_fifo_ok :: "'w sampling \<Rightarrow> bool" where
  "scan_fifo_ok s \<longleftrightarrow> chk_wf (chunk_fifos s Scan) \<and> chunk_size (chunk_fifos s Scan) = sizeof ScanSamplingChunk \<and> additional_info_size (chunk_fifos s Scan) = 0
     \<and> length (scan_aggregated_rssi s) = SCAN_SAMPLING_CHUNK_DATA_SIZE"

definition write_slot :: "'w sampling \<Rightarrow> nat" where
  "write_slot s = chunk_write_pos (chunk_fifos s Scan) * sizeof ScanSamplingChunk"

lemma write_slot:
  assumes "scan_fifo_ok s"
  shows "chunk_offset (chunk_fifos s Scan) (chunk_write_pos (chunk_fifos s Scan)) = write_slot s" and "write_slot s + 1540 \<le> length (scan_buf s)"
proof -
  let ?f = "chunk_fifos s Scan"
  have wf: "chk_wf ?f" and sz: "slot_size ?f = 1540" "chunk_size ?f = 1540" "additional_info_size ?f = 0"
    using assms by (simp_all add: scan_fifo_ok_def slot_size_def)
  have "(chunk_write_pos ?f + 1) * 1540 \<le> (chunk_num ?f + 1) * 1540" by (rule mult_le_mono1) (use wf in \<open>simp add: chk_wf_def\<close>)
  moreover have "(chunk_num ?f + 1) * 1540 \<le> length (scan_buf s)" "(chunk_num ?f + 1) * 1540 < 4294967296"
    using wf sz by (simp_all add: chk_wf_def scan_buf_def)
  ultimately show "write_slot s + 1540 \<le> length (scan_buf s)"
    and "chunk_offset ?f (chunk_write_pos ?f) = write_slot s"
    using sz by (simp_all add: write_slot_def chunk_offset_def u32_mul_def u32_add_def u32_def)
qed

lemma poke_timestamp_same:
  assumes "same_scan p s t" and "p + 1540 \<le> length (scan_buf s)"
  shows "same_scan p s (poke_timestamp E Scan p t)" and "scan_aggregated_rssi (poke_timestamp E Scan p t) = scan_aggregated_rssi t"
proof -
  have o: "tb_offsetof Timestamp 0 = 0" "tb_offsetof Timestamp (Suc 0) = 4" by (simp_all add: tb_offsetof_def layout_eval Timestamp_def)
  have "same_scan p s (t\<lparr>sworld := w\<rparr>)" for w using assms(1) by (simp add: same_scan_def)
  then show "same_scan p s (poke_timestamp E Scan p t)" using assms(2)
    by (auto simp: poke_timestamp_def env_op_def o split: prod.split intro!: same_scan_then_poke)
  show "scan_aggregated_rssi (poke_timestamp E Scan p t) = scan_aggregated_rssi t" by (simp add: poke_timestamp_def env_op_def split: prod.split)
qed

lemma setup_scan:
  fixes E :: "'w sampling_env"
  assumes "scan_fifo_ok s"
  defines "p \<equiv> write_slot s" and "s0 \<equiv> sampling_setup_scan_sampling_chunk E s"
  shows "scan_holds [] p s0" and "same_scan p (snd (open_chunk Scan s)) s0" and "chunk_ptr s0 Scan = Some p"
proof -
  let ?o = "snd (open_chunk Scan s)" and ?t = "poke_timestamp E Scan p (snd (open_chunk Scan s))"
  note w = write_slot[OF assms(1), folded p_def]
  have o: "fst (open_chunk Scan s) = p" "chunk_ptr ?o Scan = Some p" "scan_buf ?o = scan_buf s" "scan_aggregated_rssi ?o = scan_aggregated_rssi s"
    using w(1) by (simp_all add: open_chunk_def chunk_fifo_write_open_def scan_buf_def)
  note ts = poke_timestamp_same[OF same_scan_refl, of p ?o E, unfolded o(3), OF w(2)]
  have s0: "s0 = poke Scan (p + 8) [0] ?t" using o(1) by (auto simp: s0_def sampling_setup_scan_sampling_chunk_def split: prod.split)
  have len: "length (scan_buf ?t) = length (scan_buf s)" using same_scan_buf[OF ts(1)] o(3) by simp
  show sm: "same_scan p ?o s0" unfolding s0 by (rule same_scan_then_poke[OF ts(1)]) (use w(2) o(3) in simp_all)
  then show "chunk_ptr s0 Scan = Some p" using o(2) by (simp add: same_scan_def)
  have fits: "p + 8 + length [0 :: byte] \<le> length (scan_buf ?t)" using w(2) len by simp
  have "peek Scan (p + 8) s0 = 0" unfolding s0 using peek_poke[OF fits, of "p + 8"] by simp
  moreover have "length (scan_aggregated_rssi s0) = 255"
    using ts(2) o(4) assms(1) by (simp add: s0 scan_fifo_ok_def SCAN_SAMPLING_CHUNK_DATA_SIZE_def)
  ultimately show "scan_holds [] p s0" using same_scan_buf[OF sm] o(3) w(2) by (simp add: scan_holds_def devices_def)
qed

text \<open>The results as the handler of the scans reads them.\<close>

lemma results_read:
  assumes "p + 1540 \<le> length (scan_buf s)" and "n \<le> 255" and "i < n"
  defines "x \<equiv> scan_results_at (scan_buf s) p n ! i"
  shows "scan_device_ID x = result_ID p i s" and "scan_device_rssi x = sint (scan_buf s ! (scan_result_at p i + 2))" and "unat (x ! 4) = result_count p i s"
proof -
  have x: "x = take 6 (drop (p + 10 + i * 6) (scan_buf s))" using assms(3) by (simp add: x_def scan_results_at_def)
  have fits: "p + 10 + i * 6 + 6 \<le> length (scan_buf s)" using assms(1-3) by linarith
  then have n: "x ! k = scan_buf s ! (p + 10 + i * 6 + k)" if "k < 6" for k using that unfolding x by simp
  show "scan_device_ID x = result_ID p i s" "scan_device_rssi x = sint (scan_buf s ! (scan_result_at p i + 2))" "unat (x ! 4) = result_count p i s"
    by (simp_all add: scan_device_ID_def scan_device_rssi_def result_ID_def result_count_def scan_result_at_def peek_def scan_buf_def[symmetric] n)
qed

text \<open>From the setup to the timeout of a scan: what is in the slot before it is closed.\<close>

lemma scan_to_timeout:
  assumes sa: "is_sampling Scan s" and ok: "scan_fifo_ok s" and valid: "\<forall>r \<in> set rs. valid_report r"
    and q: "q = filter (\<lambda>r. report_group r = scan_group_filter (scan_parameters s)) rs" and ty: "ty = scan_aggregation_type (scan_parameters s)" and p: "p = write_slot s"
  shows "\<exists>s1 t. scan_reports E rs (sampling_setup_scan_sampling_chunk E s) = Some s1
    \<and> sampling_on_scan_timeout_callback s1 = Some (sched (Process_Chunk Scan) (close_chunk Scan t))
    \<and> same_scan p (snd (open_chunk Scan s)) t \<and> p + 1540 \<le> length (scan_buf t) \<and> peek Scan (p + 8) t = length (devices q)
    \<and> (\<forall>i < length (devices q). result_ID p i t = devices q ! i \<and> result_count p i t = length (strengths q (devices q ! i))
        \<and> scan_buf t ! (scan_result_at p i + 2)
            = word_of_int (process_rssi ty (aggregated ty (strengths q (devices q ! i))) (length (strengths q (devices q ! i)))))"
proof -
  let ?s0 = "sampling_setup_scan_sampling_chunk E s" and ?o = "snd (open_chunk Scan s)"
  note su = setup_scan[OF ok, of E, folded p]
  have o: "scan_parameters ?o = scan_parameters s" "sampling_configuration ?o = sampling_configuration s"
    by (simp_all add: open_chunk_def chunk_fifo_write_open_def)
  have sp0: "scan_parameters ?s0 = scan_parameters s" "is_sampling Scan ?s0" using su(2) o sa by (simp_all add: same_scan_def is_sampling_def)
  obtain s1 where r: "scan_reports E rs ?s0 = Some s1" and h: "scan_holds q p s1" and sm: "same_scan p ?s0 s1"
    using reports_hold[OF su(1,3) sp0(2) valid, of E] sp0(1) q by auto
  have so1: "same_scan p ?o s1" by (rule same_scan_trans[OF su(2) sm])
  have b1: "p + 1540 \<le> length (scan_buf s1)" and n1: "peek Scan (p + 8) s1 = length (devices q)" using h by (simp_all add: scan_holds_def)
  have sp1: "scan_parameters s1 = scan_parameters s" "is_sampling Scan s1" "chunk_ptr s1 Scan = Some p"
    using so1 o sa su(3) sm by (simp_all add: same_scan_def is_sampling_def)
  define t where "t = fold (finish_result p) [0..<length (devices q)] s1"
  note fr = finish_results[OF b1 devices_le, of q, folded t_def]
  have e: "sampling_on_scan_timeout_callback s1 = Some (sched (Process_Chunk Scan) (close_chunk Scan t))"
    using sp1(2,3) n1 by (simp add: sampling_on_scan_timeout_callback_def sampling_finalize_scan_sampling_chunk_def t_def)
  have "result_ID p i t = devices q ! i \<and> result_count p i t = length (strengths q (devices q ! i)) \<and> scan_buf t ! (scan_result_at p i + 2)
      = word_of_int (process_rssi ty (aggregated ty (strengths q (devices q ! i))) (length (strengths q (devices q ! i))))" if i: "i < length (devices q)" for i
  proof -
    have hi: "result_ID p i s1 = devices q ! i" "result_count p i s1 = length (strengths q (devices q ! i))" "scan_aggregated_rssi s1 ! i = aggregated ty (strengths q (devices q ! i))"
      using h i sp1(1) by (simp_all add: scan_holds_def ty)
    have "unat (scan_buf t ! (scan_result_at p i + 2)) = unat (word_of_int (process_rssi ty (aggregated ty (strengths q (devices q ! i))) (length (strengths q (devices q ! i)))) :: byte)"
      using fr i hi sp1(1) by (simp add: peek_def scan_buf_def ty)
    then show ?thesis using fr hi by (simp only: word_unat_eq_iff)
  qed
  then show ?thesis using r e fr same_scan_trans[OF so1, of t] same_scan_buf[of p s1 t] b1 n1 by (intro exI[of _ s1] exI[of _ t]) simp
qed

section \<open>Theorems\<close>

text \<open>
  C13: What a scan measures.  From the setup of the chunk over any sequence of reports to the timeout of the scan, whether or not the scan is streamed too, no access
  goes through \<open>NULL\<close> or outside of the slot of the writer; the chunk then holds the first 255 devices of the right group in the
  order in which they were first seen, each with the number of its reports, counted up to 255, and with the maximum or the mean, rounded
  towards zero, of the strengths of these reports; the slot is published unless the FIFO is full, and the handler is scheduled.
\<close>

theorem scan_chunk_counts_devices:
  assumes "is_sampling Scan s" and ok: "scan_fifo_ok s" and valid: "\<forall>r \<in> set rs. valid_report r"
    and ds: "ds = devices (filter (\<lambda>r. report_group r = scan_group_filter (scan_parameters s)) rs)"
    and obs: "\<And>d. obs d = strengths (filter (\<lambda>r. report_group r = scan_group_filter (scan_parameters s)) rs) d"
  shows "\<exists>s1 s2. scan_reports E rs (sampling_setup_scan_sampling_chunk E s) = Some s1 \<and> sampling_on_scan_timeout_callback s1 = Some s2
    \<and> scan_count_at (scan_buf s2) (write_slot s) = length ds
    \<and> (\<forall>i < length ds. let x = scan_results_at (scan_buf s2) (write_slot s) (length ds) ! i in scan_device_ID x = ds ! i \<and> unat (x ! 4) = length (obs (ds ! i))
         \<and> scan_device_rssi x = (if scan_aggregation_type (scan_parameters s) = SCAN_CHUNK_AGGREGATE_TYPE_MAX then Max (set (obs (ds ! i)))
             else sum_list (obs (ds ! i)) sdiv int (length (obs (ds ! i)))))
    \<and> (\<forall>x. x < write_slot s \<or> write_slot s + sizeof ScanSamplingChunk \<le> x \<longrightarrow> scan_buf s2 ! x = scan_buf s ! x)
    \<and> chk_slots (chunk_fifos s2 Scan) = chk_slots (chunk_fifos s Scan)
        @ (if chk_count (chunk_fifos s Scan) = chunk_num (chunk_fifos s Scan) then [] else [chunk_write_pos (chunk_fifos s Scan)])
    \<and> sampling_events s2 = sampling_events s @ [Process_Chunk Scan]"
proof -
  let ?p = "write_slot s" and ?o = "snd (open_chunk Scan s)" and ?ty = "scan_aggregation_type (scan_parameters s)"
  let ?q = "filter (\<lambda>r. report_group r = scan_group_filter (scan_parameters s)) rs"
  have le: "length ds \<le> 255" by (simp add: ds devices_le)
  obtain s1 t where r: "scan_reports E rs (sampling_setup_scan_sampling_chunk E s) = Some s1"
      "sampling_on_scan_timeout_callback s1 = Some (sched (Process_Chunk Scan) (close_chunk Scan t))"
    and so: "same_scan ?p ?o t" and bt: "?p + 1540 \<le> length (scan_buf t)" and n: "peek Scan (?p + 8) t = length ds"
    and hi: "\<And>i. i < length ds \<Longrightarrow> result_ID ?p i t = ds ! i \<and> result_count ?p i t = length (obs (ds ! i))
        \<and> scan_buf t ! (scan_result_at ?p i + 2) = word_of_int (process_rssi ?ty (aggregated ?ty (obs (ds ! i))) (length (obs (ds ! i))))"
    using scan_to_timeout[OF assms(1-3) refl refl refl, of E] unfolding ds obs by blast
  let ?s2 = "sched (Process_Chunk Scan) (close_chunk Scan t)"
  have buf: "scan_buf ?s2 = scan_buf t" by (simp add: scan_buf_def sched_def close_chunk_def chunk_fifo_write_close_def Let_def)
  have res: "let x = scan_results_at (scan_buf ?s2) ?p (length ds) ! i in scan_device_ID x = ds ! i \<and> unat (x ! 4) = length (obs (ds ! i))
         \<and> scan_device_rssi x = (if ?ty = SCAN_CHUNK_AGGREGATE_TYPE_MAX then Max (set (obs (ds ! i)))
             else sum_list (obs (ds ! i)) sdiv int (length (obs (ds ! i))))" if i: "i < length ds" for i
  proof -
    have "obs (ds ! i) \<noteq> []" using i strengths_nonempty[of "ds ! i" ?q] by (simp add: obs ds)
    moreover have "\<forall>x \<in> set (obs (ds ! i)). - 128 \<le> x \<and> x < 128" using valid by (auto simp: obs strengths_def valid_report_def dest!: in_set_takeD)
    ultimately have "scan_device_rssi (scan_results_at (scan_buf t) ?p (length ds) ! i) = process_rssi ?ty (aggregated ?ty (obs (ds ! i))) (length (obs (ds ! i)))"
      using processed_range[of "obs (ds ! i)" ?ty] results_read(2)[OF bt le i] hi[OF i] by (simp add: sint_byte)
    then show ?thesis using results_read(1,3)[OF bt le i] hi[OF i] by (simp add: buf Let_def process_rssi_def aggregated_def)
  qed
  have o: "sampling_events ?o = sampling_events s" "chunk_fifos ?o Scan = (chunk_fifos s Scan)\<lparr>chunk_open_write := True\<rparr>" "scan_buf ?o = scan_buf s"
    by (simp_all add: open_chunk_def chunk_fifo_write_open_def scan_buf_def)
  obtain b where b: "length b = length (scan_buf s)" "chunk_fifos t Scan = (chunk_fifos s Scan)\<lparr>chunk_open_write := True, p_chunk_fifo_buf := b\<rparr>"
      "\<forall>x. x < ?p \<or> ?p + 1540 \<le> x \<longrightarrow> b ! x = scan_buf s ! x"
    using so unfolding same_scan_def o by auto
  have wf: "chk_wf (chunk_fifos t Scan)" using ok b(1) unfolding b(2) scan_fifo_ok_def chk_wf_def slot_size_def scan_buf_def by auto
  have sl: "chk_slots (chunk_fifos ?s2 Scan) = chk_slots (chunk_fifos s Scan)
        @ (if chk_count (chunk_fifos s Scan) = chunk_num (chunk_fifos s Scan) then [] else [chunk_write_pos (chunk_fifos s Scan)])"
    using chk_write_close_eq(1)[OF wf] by (simp add: sched_def close_chunk_def b(2) chk_slots_def chk_count_def)
  have "sampling_events ?s2 = sampling_events s @ [Process_Chunk Scan]" using so o by (simp add: sched_def close_chunk_def same_scan_def)
  moreover have "scan_count_at (scan_buf ?s2) ?p = length ds" using n unfolding buf by (simp add: scan_count_at_def peek_def scan_buf_def)
  moreover have "\<forall>x. x < ?p \<or> ?p + sizeof ScanSamplingChunk \<le> x \<longrightarrow> scan_buf ?s2 ! x = scan_buf s ! x" unfolding buf using b(2,3) by (simp add: scan_buf_def)
  ultimately show ?thesis using r res sl by blast
qed

lemma scan_starts:
  "\<exists>s. do_call sim_sampling_env (Start_Scan 60000 60 300 120 5 1 1 False) (snd (sampling_init sim_sampling_env (sampling_power_on 0))) = (NRF_SUCCESS, s)
    \<and> is_sampling Scan s \<and> scan_fifo_ok s \<and> write_slot s = 0 \<and> scan_group_filter (scan_parameters s) = 1 \<and> scan_aggregation_type (scan_parameters s) = 1"
proof -
  obtain s1 where s1: "sampling_init sim_sampling_env (sampling_power_on 0) = (NRF_SUCCESS, s1)" "sampling_configuration s1 = 0" "sworld s1 = sworld (sampling_power_on 0)" and fifo: "chunk_fifos s1 Scan = \<lparr>chunk_num = 1, chunk_size = sizeof ScanSamplingChunk, additional_info_size = 0,
       p_chunk_fifo_buf = replicate (2 * sizeof ScanSamplingChunk) 0, chunk_read_pos = 0, chunk_write_pos = 0, chunk_open_read = False, chunk_open_write = False\<rparr>"
      "scan_aggregated_rssi s1 = replicate 255 0"
    using sampling_power_on_works by blast
  have w: "sim_failures (sworld s1) = 0" by (simp add: s1(3) sampling_power_on_def)
  show ?thesis unfolding s1(1) snd_conv
    by (simp add: s1(2) fifo w sampling_start_scan_def Let_def start_sampling_def stop_timers_def env_def env_op_def and_then_def sim_timer_start_def set_configuration_flag_def is_sampling_def
        sim_sampling_env_def scan_fifo_ok_def write_slot_def chk_wf_def slot_size_def SCAN_SAMPLING_CHUNK_DATA_SIZE_def bit_set_bit_iff bit_0)
qed

theorem scan_chunk_counts_devices_witness:
  "\<exists>s s1 s2. is_sampling Scan s \<and> scan_reports sim_sampling_env [\<lparr>report_ID = 7, report_group = 1, report_rssi = - 40\<rparr>, \<lparr>report_ID = 9, report_group = 1, report_rssi = - 50\<rparr>,
        \<lparr>report_ID = 5, report_group = 2, report_rssi = - 30\<rparr>, \<lparr>report_ID = 7, report_group = 1, report_rssi = - 61\<rparr>] (sampling_setup_scan_sampling_chunk sim_sampling_env s) = Some s1
    \<and> sampling_on_scan_timeout_callback s1 = Some s2 \<and> scan_count_at (scan_buf s2) 0 = 2
    \<and> (let x = scan_results_at (scan_buf s2) 0 2 ! 0 in scan_device_ID x = 7 \<and> unat (x ! 4) = 2 \<and> scan_device_rssi x = - 50)
    \<and> (let x = scan_results_at (scan_buf s2) 0 2 ! 1 in scan_device_ID x = 9 \<and> unat (x ! 4) = 1 \<and> scan_device_rssi x = - 50)"
proof -
  let ?rs = "[\<lparr>report_ID = 7, report_group = 1, report_rssi = - 40\<rparr>, \<lparr>report_ID = 9, report_group = 1, report_rssi = - 50\<rparr>,
        \<lparr>report_ID = 5, report_group = 2, report_rssi = - 30\<rparr>, \<lparr>report_ID = 7, report_group = 1, report_rssi = - 61\<rparr>]"
  obtain s :: "sim_sampling sampling" where s: "is_sampling Scan s" "scan_fifo_ok s" "write_slot s = 0" "scan_group_filter (scan_parameters s) = 1" "scan_aggregation_type (scan_parameters s) = 1"
    using scan_starts by blast
  define q where "q = filter (\<lambda>r. report_group r = scan_group_filter (scan_parameters s)) ?rs"
  have valid: "\<forall>r \<in> set ?rs. valid_report r" by (simp add: valid_report_def)
  have ds: "[7, 9] = devices q" by (simp add: q_def s(4) devices_def)
  have obs: "strengths q 7 = [- 40, - 61]" "strengths q 9 = [- 50]" by (simp_all add: q_def s(4) strengths_def)
  have mean: "(- 101 :: int) sdiv 2 = - 50" "(- 50 :: int) sdiv 1 = - 50" by (simp_all add: signed_divide_int_def)
  obtain s1 s2 where r: "scan_reports sim_sampling_env ?rs (sampling_setup_scan_sampling_chunk sim_sampling_env s) = Some s1" "sampling_on_scan_timeout_callback s1 = Some s2"
      "scan_count_at (scan_buf s2) (write_slot s) = length [7, 9 :: nat]"
    and res: "\<forall>i < length [7, 9 :: nat]. let x = scan_results_at (scan_buf s2) (write_slot s) (length [7, 9 :: nat]) ! i in scan_device_ID x = [7, 9] ! i
         \<and> unat (x ! 4) = length (strengths q ([7, 9] ! i))
         \<and> scan_device_rssi x = (if scan_aggregation_type (scan_parameters s) = SCAN_CHUNK_AGGREGATE_TYPE_MAX then Max (set (strengths q ([7, 9] ! i)))
             else sum_list (strengths q ([7, 9] ! i)) sdiv int (length (strengths q ([7, 9] ! i))))"
    using scan_chunk_counts_devices[OF s(1,2) valid ds[unfolded q_def] refl, of sim_sampling_env] unfolding q_def by blast
  have "let x = scan_results_at (scan_buf s2) 0 2 ! 0 in scan_device_ID x = 7 \<and> unat (x ! 4) = 2 \<and> scan_device_rssi x = - 50"
    using res[rule_format, of 0] by (simp add: obs s(3,5) SCAN_CHUNK_AGGREGATE_TYPE_MAX_def mean Let_def numeral_2_eq_2)
  moreover have "let x = scan_results_at (scan_buf s2) 0 2 ! 1 in scan_device_ID x = 9 \<and> unat (x ! 4) = 1 \<and> scan_device_rssi x = - 50"
    using res[rule_format, of 1] by (simp add: obs s(3,5) SCAN_CHUNK_AGGREGATE_TYPE_MAX_def mean Let_def numeral_2_eq_2)
  ultimately show ?thesis using s(1,3) r by (intro exI[of _ s] exI[of _ s1] exI[of _ s2]) simp
qed

end
