(* ===== verification/Spec2Isabelle.thy ===== *)
theory Spec2Isabelle
  imports Circular_Fifo Badge_FS Storer_Correct Tinybuf_Safety Processing Timeout Advertiser Systick Request_Frames Sampling_Correct
begin

text \<open>
  A verification of the firmware of the OpenBadge, the program under
  \<^verbatim>\<open>firmware/nRF_badge/data_collector\<close>.

  \<^bold>\<open>The program.\<close>  A badge samples its sensors (\<^verbatim>\<open>sampling_lib.c\<close>) into chunks of data.  The chunks wait in chunk FIFOs until
  handlers of the scheduler (\<^verbatim>\<open>processing_lib.c\<close>) give them to the storer (\<^verbatim>\<open>storer_lib.c\<close>), which
  serialises them with tinybuf (\<^verbatim>\<open>tinybuf.c\<close>, with the tables of \<^verbatim>\<open>*_messages*.c\<close>) and stores them as
  elements of the partitions of a small filesystem (\<^verbatim>\<open>filesystem_lib.c\<close>).  The filesystem lies on one
  address space (\<^verbatim>\<open>storage_lib.c\<close>) over two modules: the EEPROM behind the SPI bus (\<^verbatim>\<open>storage2_lib.c\<close>,
  \<^verbatim>\<open>eeprom_lib.c\<close>, \<^verbatim>\<open>spi_lib.c\<close>) and the internal flash (\<^verbatim>\<open>storage1_lib.c\<close>, \<^verbatim>\<open>flash_lib.c\<close>).  A host reads
  the data over Bluetooth with requests in the same serialisation: the sender (\<^verbatim>\<open>sender_lib.c\<close>) queues received bytes and responses, the
  request handler (\<^verbatim>\<open>request_handler_lib_02v1.c\<close>) takes requests out of them, executes them and answers; the bytes of the streams wait in
  circular FIFOs (\<^verbatim>\<open>circular_fifo_lib.c\<close>).  The clock (\<^verbatim>\<open>systick_lib.c\<close>) is set by the requests.  Timeouts (\<^verbatim>\<open>timeout_lib.c\<close>) stop sources nobody asks for, and the
  advertiser (\<^verbatim>\<open>advertiser_lib.c\<close>, over the Bluetooth module \<^verbatim>\<open>ble_lib.c\<close>) tells other badges who the badge is.

  \<^bold>\<open>Conventions.\<close>  Numbers of C are natural numbers or integers with the wrap-around of their width written
  out (\<open>u8\<close>, \<open>u16\<close>, \<open>u32\<close>, \<open>u32_add\<close>, \<open>u32_sub\<close>, \<open>u32_mul\<close>, \<open>u64_add\<close>, \<open>u64_sub\<close>), bytes and flash words are machine words, single precision numbers are rationals with the rounding written out.  A function that
  returns \<open>ret_code_t\<close> returns an \<open>outcome\<close>: an error code or a value, with the new state; \<open>attempt\<close> is
  the early return on an error.  Global variables are the fields of a record per module.  Structures that are
  serialised are ranges of an addressed memory, with the offsets of the ARM layout.  Loops are
  recursive functions with a termination proof, or \<open>partial_function\<close> in the option type
  where their end depends on the environment.  Interrupts in a busy-wait loop come from a script, with the interrupts between two polls as one entry.

  \<^bold>\<open>Theories.\<close>
  \<^item> \<open>OB_Prelude\<close>: the arithmetic of C, outcomes, overwriting of buffers, rings.
  \<^item> \<open>Circular_Fifo\<close>: \<^verbatim>\<open>circular_fifo_lib.c\<close>; refinement to a bounded queue that keeps the newest bytes, and reads that
    are interrupted by writers.
  \<^item> \<open>Chunk_Fifo\<close>: \<^verbatim>\<open>chunk_fifo_lib.c\<close>; every interleaving of producer and consumer loses no chunk.
  \<^item> \<open>FS_Format\<close>, \<open>Filesystem\<close>: \<^verbatim>\<open>filesystem_lib.c\<close>, its bytes (CRC, record-ids, headers, swap page) and its functions over a record
    of storage operations; the step relation of its clients and the reachable states.
  \<^item> \<open>FS_Correct\<close>, \<open>FS_Layout\<close>, \<open>FS_Registered\<close>: the locale \<open>storage_device\<close> states what a storage promises; in it: calls stay inside their
    partition, partitions do not overlap, what was stored is read back, registrations stay valid.
  \<^item> \<open>Storage\<close>, \<open>Storage_Correct\<close>: \<^verbatim>\<open>storage_lib.c\<close> over a list of modules, and that two modules that satisfy the contract
    of a module make a \<open>storage_device\<close>.
  \<^item> \<open>Flash_Driver\<close>, \<open>Storage1\<close>, \<open>Storage1_Correct\<close>: \<^verbatim>\<open>flash_lib.c\<close> and \<^verbatim>\<open>storage1_lib.c\<close>: pages, words, erasing on demand.
  \<^item> \<open>Eeprom_Driver\<close>, \<open>Storage2\<close>: \<^verbatim>\<open>spi_lib.c\<close>, \<^verbatim>\<open>eeprom_lib.c\<close>, \<^verbatim>\<open>storage2_lib.c\<close>.
  \<^item> \<open>Storage_Stack\<close>, \<open>Badge_FS\<close>: the modules composed as on the badge; the locale \<open>badge_hardware\<close> holds the laws of the two chips,
    and the theorems on the filesystem hold for every such hardware.
  \<^item> \<open>Sim_Hardware\<close>, \<open>Sim_Runs\<close>, \<open>Sim_Storer\<close>: a simulated flash and EEPROM that satisfy the laws, and runs on them; they show that the
    hypotheses can hold, down to a start of the storer on erased memories.
  \<^item> \<open>Tinybuf\<close>, \<open>Tinybuf_Correct\<close>, \<open>Tinybuf_Bound\<close>, \<open>Tinybuf_Safety\<close>: \<^verbatim>\<open>tinybuf.c\<close>; the cells a table selects, round trip of
    encoder and decoder, the maximal length, and memory safety on every input.
  \<^item> \<open>Messages\<close>, \<open>Protocol_Messages\<close>: the structures and tables of the common, chunk, stream and protocol messages (version 02).
  \<^item> \<open>Storer\<close>, \<open>Badge_Storer\<close>, \<open>Storer_Correct\<close>: \<^verbatim>\<open>storer_lib.c\<close>; a started storer is ready, and chunks and the assignement are read
    back through serialisation, filesystem and both memories.
  \<^item> \<open>Processing\<close>: \<^verbatim>\<open>processing_lib.c\<close>; handlers return, give the chunks to the storer in order and keep them exactly when the storage is
    busy; what the sort of a scan does and when it misses the documented order, with the contract of \<open>qsort\<close> as the locale \<open>c_qsort\<close>.
  \<^item> \<open>Timeout\<close>: \<^verbatim>\<open>timeout_lib.c\<close>; runs of the module in a world with a clock (locale \<open>timeout_world\<close>), in which no handler is
    called early and none that is due is left active.  The world has a log of the calls of handlers, and the theorem is about this log.
  \<^item> \<open>Ble_Lib\<close>, \<open>Advertiser\<close>: the advertising part of \<^verbatim>\<open>ble_lib.c\<close> and \<^verbatim>\<open>advertiser_lib.c\<close>; the data given to the SDK are those of the current state and fit
    into a packet; what the SDK accepts is advertised, and what it refuses leaves the former data (locale \<open>ble_module\<close>).
  \<^item> \<open>C_Float\<close>, \<open>Systick\<close>: rounding to single precision, and \<^verbatim>\<open>systick_lib.c\<close>: the ticks across overflows of the counter, the slope of the
    clock after synchronisations, how exact the clock is and that it never runs backwards between them (locale \<open>rtc_world\<close>).
  \<^item> \<open>App_Fifo\<close>: the FIFO of the SDK, with the documented laws as the locale \<open>app_fifo_lib\<close>.
  \<^item> \<open>Sender\<close>: \<^verbatim>\<open>sender_lib.c\<close>; the runs of the sender with its interrupts (locale \<open>sender_world\<close>), in which no byte of a response is lost and
    queued bytes are delivered if no start of the timer fails.
  \<^item> \<open>Request_Handler\<close>, \<open>Request_Correct\<close>, \<open>Request_Frames\<close>: \<^verbatim>\<open>request_handler_lib_02v1.c\<close>; the way of a request from received packets through
    sender, notifications and decoder to its handler, and what an error of the storer does to the responses (locale \<open>request_world\<close>).

  \<^item> \<open>Sources\<close>, \<open>Sampling\<close>: the sources with the flags of their configuration, which the request handler shares, and \<^verbatim>\<open>sampling_lib.c\<close> over a record of
    the operations it calls.  The flags, the pointers to the open chunks and the FIFOs are its state; sources that are started and stopped in the same way
    share \<open>start_sampling\<close> and \<open>stop_sampling\<close>.
  \<^item> \<open>Sampling_Timers\<close>: the runs of the sampling module over calls and interrupts (locale \<open>sampling_world\<close>), in which timers and flags agree, and
    what a failed start of a timer leads to.
  \<^item> \<open>Sampling_Correct\<close>: what a scan leaves in its chunk.

  \<^bold>\<open>Interfaces.\<close>  Where a component relies on another one the laws are a locale: \<open>storage_device\<close> between filesystem and storage, the
  contracts of a module and of its pieces between storage and the two modules, the laws of the flash and the
  EEPROM chip between drivers and hardware, \<open>app_fifo_lib\<close> between sender, request handler and the
  FIFO of the SDK, \<open>c_qsort\<close>, \<open>timeout_world\<close>, \<open>rtc_world\<close>, \<open>sender_world\<close>, \<open>request_world\<close>, \<open>sampling_world\<close> and \<open>ble_module\<close> for what is outside of
  the program.  All are interpreted on the definitions of the model or, for what is outside, on a simulation.

  \<^bold>\<open>Bounds and fuel.\<close>  The busy-wait loops of the drivers have a number of polls as a parameter, and the theorems hold for every number;
  the search for the latest element of a partition has a fuel of one round per record-id; the loop over the timeouts has a fuel of
  twenty-one rounds for at most twenty timeouts, and the loop over the notifications one of eleven rounds for at most ten notifications.  The waiting
  loops of the sender end with \<open>None\<close> where their script ends; the theorems hold for every script, and those that claim a result show that it is reached.  The searches of the storer by timestamp and the reading loop of the
  microphone are partial functions: nothing is claimed of their end.

  \<^bold>\<open>Idealisations.\<close>  The following differ from the code in cases that the theorems leave out.
  \<^item> The return code of \<open>app_timer_start\<close> is modelled in sender, timeouts and sampling, also where the code ignores it; a call of \<open>app_timer_stop\<close>, whose code the
    firmware ignores everywhere, is taken to succeed.  The flag \<open>timeout_timer_running\<close> is the variable of the module, which it sets before it starts the
    timer; it does not mean that the timer of the SDK runs.
  \<^item> The queue of the scheduler has no bound and \<open>app_sched_event_put\<close> never fails; \<^verbatim>\<open>main.c\<close> sets it up with 100 entries, and the code ignores the result.
  \<^item> \<open>address_of_page\<close> leaves out the conversion of the page number to \<^verbatim>\<open>uint16_t\<close> (there are fewer pages), and \<open>flash_read\<close>, \<open>eeprom_store\<close> and
    \<open>eeprom_read\<close> the check that the buffer of the caller lies in the RAM, since it is a list of bytes here.
  \<^item> \<open>test_endianness\<close> has the result it has on the little-endian processor of the badge.
  \<^item> The runs of the filesystem (\<open>fs_step\<close>) begin with its start; \<open>filesystem_clear\<close> and a restart are modelled as operations, but are not steps of a run.

  \<^bold>\<open>Not modelled.\<close>  The SDK of the chip vendor (SoftDevice, app_timer, app_fifo, fstorage, SPI peripheral, scheduler queue) is a parameter.  The
  sampling module, the self tests and the battery are operations on the rest of the world for the request handler, as accelerometer, ADC, scanner,
  timeouts and advertiser are for the sampling module; the theorems on them are those of their own theories.  Not modelled are the older protocol
  (version 01, an alternative at compile time), the drivers of accelerometer, ADC and microphone, the scanner, the Bluetooth module
  (but for its advertising part), the console and the logging, which are input and output around the SDK.  Interrupts in the middle of a function
  are modelled for the two FIFOs and the waiting loops only; the request handler calls its storer as one operation on the rest of
  the world, whose theorems are those on \<open>Storer\<close>.  The Python tools, the second firmware (\<^verbatim>\<open>rssi_scanner\<close>), tests and board
  files are outside of this development.
\<close>

end
